(* ===== verification/Prelude.thy ===== *)
theory Prelude
  imports Main
    "HOL-Library.Char_ord"
    "HOL-Library.List_Lexorder"
    "HOL-Library.AList"
    "HOL-Library.Multiset"
    "HOL-Library.Word"
begin

text \<open>
  Shared vocabulary of the development: Go strings as byte strings and the helpers of
  \<open>strings\<close>, \<open>strconv\<close> and \<open>sort\<close> that the sources call, Go maps as association lists with
  distinct keys (the list order is the order of one \<open>range\<close> loop, so a theorem about every
  list is a theorem about every iteration order), machine integers with the wrap-around
  written out, and the interface locales that several components share.
  The models of \<open>strings.ToLower\<close> and \<open>strings.TrimSpace\<close> are exact on ASCII strings; bytes
  above 127 are passed through.
\<close>

named_theorems go_simps "facts about the string and map helpers that the component proofs unfold"

type_synonym time = int       \<comment> \<open>nanoseconds since an arbitrary origin\<close>
type_synonym duration = int   \<comment> \<open>nanoseconds\<close>
type_synonym byte = "8 word"

abbreviation second :: duration where "second \<equiv> 1000000000"
abbreviation minute :: duration where "minute \<equiv> 60 * second"
abbreviation hour :: duration where "hour \<equiv> 60 * minute"

section \<open>Strings\<close>

definition has_prefix :: "'a list \<Rightarrow> 'a list \<Rightarrow> bool" where
  "has_prefix s p \<longleftrightarrow> take (length p) s = p"

definition has_suffix :: "'a list \<Rightarrow> 'a list \<Rightarrow> bool" where
  "has_suffix s p \<longleftrightarrow> length p \<le> length s \<and> drop (length s - length p) s = p"

definition trim_prefix :: "'a list \<Rightarrow> 'a list \<Rightarrow> 'a list" where
  "trim_prefix s p = (if has_prefix s p then drop (length p) s else s)"

fun index_of :: "'a list \<Rightarrow> 'a list \<Rightarrow> nat option" where
  "index_of [] sub = (if sub = [] then Some 0 else None)"
| "index_of (c # s) sub =
     (if has_prefix (c # s) sub then Some 0 else map_option Suc (index_of s sub))"

fun last_index_of :: "'a list \<Rightarrow> 'a list \<Rightarrow> nat option" where
  "last_index_of [] sub = (if sub = [] then Some 0 else None)"
| "last_index_of (c # s) sub =
     (case last_index_of s sub of
        Some i \<Rightarrow> Some (Suc i)
      | None \<Rightarrow> if has_prefix (c # s) sub then Some 0 else None)"

definition contains :: "'a list \<Rightarrow> 'a list \<Rightarrow> bool" where
  "contains s sub \<longleftrightarrow> index_of s sub \<noteq> None"

fun split_on :: "'a \<Rightarrow> 'a list \<Rightarrow> 'a list list" where
  "split_on d [] = [[]]"
| "split_on d (c # s) =
     (if c = d then [] # split_on d s
      else case split_on d s of [] \<Rightarrow> [[c]] | p # ps \<Rightarrow> (c # p) # ps)"

fun join_with :: "'a list \<Rightarrow> 'a list list \<Rightarrow> 'a list" where
  "join_with sep [] = []"
| "join_with sep [p] = p"
| "join_with sep (p # q # ps) = p @ sep @ join_with sep (q # ps)"

definition lower_char :: "char \<Rightarrow> char" where
  "lower_char c =
     (if of_char c \<ge> (65::nat) \<and> of_char c \<le> (90::nat) then char_of (of_char c + (32::nat)) else c)"

definition to_lower :: "string \<Rightarrow> string" where
  "to_lower s = map lower_char s"

definition is_space :: "char \<Rightarrow> bool" where
  "is_space c \<longleftrightarrow> c = CHR '' '' \<or> (of_char c \<ge> (9::nat) \<and> of_char c \<le> (13::nat))"

definition trim_with :: "('a \<Rightarrow> bool) \<Rightarrow> 'a list \<Rightarrow> 'a list" where
  "trim_with P s = rev (dropWhile P (rev (dropWhile P s)))"

definition trim_space :: "string \<Rightarrow> string" where
  "trim_space s = trim_with is_space s"

definition is_digit :: "char \<Rightarrow> bool" where
  "is_digit c \<longleftrightarrow> of_char c \<ge> (48::nat) \<and> of_char c \<le> (57::nat)"

definition digit_val :: "char \<Rightarrow> nat" where
  "digit_val c = of_char c - 48"

definition digits_val :: "string \<Rightarrow> nat" where
  "digits_val s = foldl (\<lambda>n c. n * 10 + digit_val c) 0 s"

text \<open>\<open>strconv.ParseUint(s, 10, bits)\<close>: every error is \<open>None\<close>.\<close>

definition parse_uint :: "nat \<Rightarrow> string \<Rightarrow> nat option" where
  "parse_uint bits s =
     (if s \<noteq> [] \<and> list_all is_digit s \<and> digits_val s < 2 ^ bits then Some (digits_val s) else None)"

definition digit_char :: "nat \<Rightarrow> char" where
  "digit_char d = char_of (48 + d)"

fun dec_string :: "nat \<Rightarrow> string" where
  "dec_string n = (if n < 10 then [digit_char n] else dec_string (n div 10) @ [digit_char (n mod 10)])"

declare dec_string.simps [simp del]

lemma has_prefix_append [simp]: "has_prefix (p @ s) p"
  by (simp add: has_prefix_def)

lemma has_prefix_iff: "has_prefix s p \<longleftrightarrow> (\<exists>t. s = p @ t)"
  by (metis append_take_drop_id has_prefix_append has_prefix_def)

lemma has_prefix_Nil [simp]: "has_prefix s []"
  by (simp add: has_prefix_def)

lemma has_prefix_Nil_left [simp]: "has_prefix [] p \<longleftrightarrow> p = []"
  by (auto simp: has_prefix_def)

lemma has_prefix_Cons [simp]: "has_prefix (c # s) (d # p) \<longleftrightarrow> c = d \<and> has_prefix s p"
  by (auto simp: has_prefix_def)

lemma has_suffix_append [simp]: "has_suffix (s @ p) p"
  by (simp add: has_suffix_def)

lemma has_suffix_iff: "has_suffix s p \<longleftrightarrow> (\<exists>t. s = t @ p)"
  by (metis append_take_drop_id has_suffix_append has_suffix_def)

lemma trim_prefix_append [simp]: "trim_prefix (p @ s) p = s"
  by (simp add: trim_prefix_def)


lemma to_lower_Nil [simp]: "to_lower [] = []"
  by (simp add: to_lower_def)

lemma to_lower_Cons [simp]: "to_lower (c # s) = lower_char c # to_lower s"
  by (simp add: to_lower_def)

lemma to_lower_append [simp]: "to_lower (s @ t) = to_lower s @ to_lower t"
  by (simp add: to_lower_def)

lemma length_to_lower [simp]: "length (to_lower s) = length s"
  by (simp add: to_lower_def)

lemma lower_char_idem [simp]: "lower_char (lower_char c) = lower_char c"
proof (cases "of_char c \<ge> (65::nat) \<and> of_char c \<le> (90::nat)")
  case True
  then have "of_char (char_of (of_char c + (32::nat))) = of_char c + (32::nat)"
    by (simp add: of_char_of)
  with True show ?thesis by (simp add: lower_char_def)
qed (auto simp: lower_char_def)

lemma to_lower_idem [simp]: "to_lower (to_lower s) = to_lower s"
  by (simp add: to_lower_def)

text \<open>\<open>index_of\<close> is the least position at which the pattern occurs (\<open>indexOf\<close> returns \<open>-1\<close> for \<open>None\<close>).\<close>

lemma index_of_Some: "index_of s sub = Some i \<Longrightarrow> i \<le> length s \<and> has_prefix (drop i s) sub"
  by (induction s arbitrary: i) (auto split: if_splits)

lemma index_of_least: "index_of s sub = Some i \<Longrightarrow> k < i \<Longrightarrow> \<not> has_prefix (drop k s) sub"
proof (induction s arbitrary: i k)
  case (Cons c s)
  then show ?case by (cases k) (auto split: if_splits)
qed (auto split: if_splits)

lemma index_of_None: "index_of s sub = None \<longleftrightarrow> (\<forall>k \<le> length s. \<not> has_prefix (drop k s) sub)"
proof (induction s)
  case (Cons c s)
  show ?case
  proof
    assume none: "index_of (c # s) sub = None"
    then have np: "\<not> has_prefix (c # s) sub" and "index_of s sub = None"
      by (auto split: if_splits)
    with Cons show "\<forall>k \<le> length (c # s). \<not> has_prefix (drop k (c # s)) sub"
      by (auto simp: drop_Cons split: nat.splits)
  next
    assume all: "\<forall>k \<le> length (c # s). \<not> has_prefix (drop k (c # s)) sub"
    then have "\<not> has_prefix (drop 0 (c # s)) sub" by blast
    moreover have "\<forall>k \<le> length s. \<not> has_prefix (drop k s) sub"
    proof (intro allI impI)
      fix k assume "k \<le> length s"
      then have "\<not> has_prefix (drop (Suc k) (c # s)) sub" using all by (metis Suc_le_mono length_Cons)
      then show "\<not> has_prefix (drop k s) sub" by simp
    qed
    ultimately show "index_of (c # s) sub = None" using Cons by simp
  qed
qed auto

lemma index_of_char_append: "d \<notin> set p \<Longrightarrow> index_of (p @ d # t) [d] = Some (length p)"
  by (induction p) auto

lemma index_of_char_None: "index_of s [d] = None \<longleftrightarrow> d \<notin> set s"
  by (induction s) auto

lemma contains_char: "contains s [d] \<longleftrightarrow> d \<in> set s"
  by (simp add: contains_def index_of_char_None)

lemma contains_iff: "contains s sub \<longleftrightarrow> (\<exists>a b. s = a @ sub @ b)"
proof
  assume "contains s sub"
  then obtain i where "index_of s sub = Some i" by (auto simp: contains_def)
  then have "i \<le> length s" "has_prefix (drop i s) sub" using index_of_Some by blast+
  then obtain t where "drop i s = sub @ t" by (auto simp: has_prefix_iff)
  then have "s = take i s @ sub @ t" by (metis append_take_drop_id)
  then show "\<exists>a b. s = a @ sub @ b" by blast
next
  assume "\<exists>a b. s = a @ sub @ b"
  then obtain a b where "s = a @ sub @ b" by blast
  then have "length a \<le> length s" "has_prefix (drop (length a) s) sub" by auto
  then show "contains s sub" by (auto simp: contains_def index_of_None)
qed

lemma last_index_of_char_None: "last_index_of s [d] = None \<longleftrightarrow> d \<notin> set s"
  by (induction s) (auto split: option.splits)

lemma last_index_of_char_append: "d \<notin> set t \<Longrightarrow> last_index_of (p @ d # t) [d] = Some (length p)"
  by (induction p) (auto simp: last_index_of_char_None split: option.splits)

lemma last_index_of_char_Some:
  "last_index_of s [d] = Some i \<Longrightarrow> \<exists>p t. s = p @ d # t \<and> length p = i \<and> d \<notin> set t"
proof (induction s arbitrary: i)
  case (Cons c s)
  show ?case
  proof (cases "last_index_of s [d]")
    case None
    with Cons.prems have "c = d" "i = 0" by (auto split: if_splits)
    with None show ?thesis by (auto simp: last_index_of_char_None intro: exI [of _ "[]"])
  next
    case (Some k)
    with Cons obtain p t where "s = p @ d # t" "length p = k" "d \<notin> set t" by blast
    with Some Cons.prems show ?thesis by (auto intro: exI [of _ "c # p"])
  qed
qed auto

lemma split_on_not_Nil [simp]: "split_on d s \<noteq> []"
  by (induction s) (auto split: list.splits)

lemma join_split [simp]: "join_with [d] (split_on d s) = s"
proof (induction s)
  case (Cons c s)
  then show ?case by (cases "split_on d s"; cases "tl (split_on d s)") auto
qed simp

lemma split_on_append: "d \<notin> set p \<Longrightarrow> split_on d (p @ d # s) = p # split_on d s"
  by (induction p) (auto split: list.splits)

lemma split_on_single: "d \<notin> set p \<Longrightarrow> split_on d p = [p]"
  by (induction p) auto

lemma split_join: "ps \<noteq> [] \<Longrightarrow> (\<And>p. p \<in> set ps \<Longrightarrow> d \<notin> set p) \<Longrightarrow> split_on d (join_with [d] ps) = ps"
  by (induction ps rule: induct_list012) (auto simp: split_on_single split_on_append)

lemma set_split_on: "p \<in> set (split_on d s) \<Longrightarrow> d \<notin> set p \<and> set p \<subseteq> set s"
proof (induction s arbitrary: p)
  case (Cons c s)
  then show ?case by (cases "split_on d s") (fastforce split: if_splits)+
qed simp

lemma trim_with_id: "s = [] \<or> (\<not> P (hd s) \<and> \<not> P (last s)) \<Longrightarrow> trim_with P s = s"
proof -
  assume *: "s = [] \<or> (\<not> P (hd s) \<and> \<not> P (last s))"
  show "trim_with P s = s"
  proof (cases s)
    case (Cons a t)
    with * have "dropWhile P s = s" by simp
    moreover have "rev s = last s # rev (butlast s)" using Cons
      by (metis append_butlast_last_id list.distinct(1) rev.simps(2) rev_rev_ident rev_swap)
    ultimately show ?thesis using * Cons by (simp add: trim_with_def)
  qed (simp add: trim_with_def)
qed

lemma trim_with_none: "(\<And>c. c \<in> set s \<Longrightarrow> \<not> P c) \<Longrightarrow> trim_with P s = s"
  by (rule trim_with_id) (cases s; auto)

lemma set_trim_with: "set (trim_with P s) \<subseteq> set s"
  by (auto simp: trim_with_def dest!: set_dropWhileD)


section \<open>Decimal numbers\<close>

lemma of_char_digit [simp]: "d < 10 \<Longrightarrow> of_char (digit_char d) = 48 + d"
  by (simp add: digit_char_def of_char_of)

lemma is_digit_digit_char [simp]: "d < 10 \<Longrightarrow> is_digit (digit_char d)"
  by (simp add: is_digit_def)

lemma digit_val_digit_char [simp]: "d < 10 \<Longrightarrow> digit_val (digit_char d) = d"
  by (simp add: digit_val_def)

lemma digits_val_Nil [simp]: "digits_val [] = 0"
  by (simp add: digits_val_def)

lemma digits_val_snoc [simp]: "digits_val (s @ [c]) = digits_val s * 10 + digit_val c"
  by (simp add: digits_val_def)

lemma dec_string_not_Nil [simp]: "dec_string n \<noteq> []"
  by (subst dec_string.simps) simp

lemma dec_string_digits: "list_all is_digit (dec_string n)"
proof (induction n rule: dec_string.induct)
  case (1 n)
  then show ?case by (subst dec_string.simps) simp
qed

lemma digits_val_dec_string [simp]: "digits_val (dec_string n) = n"
proof (induction n rule: dec_string.induct)
  case (1 n)
  show ?case
  proof (cases "n < 10")
    case True
    then show ?thesis using digits_val_snoc [of "[]"] by (subst dec_string.simps) simp
  next
    case False
    then show ?thesis using 1 by (subst dec_string.simps) simp
  qed
qed

lemma parse_uint_dec_string: "n < 2 ^ bits \<Longrightarrow> parse_uint bits (dec_string n) = Some n"
  by (simp add: parse_uint_def dec_string_digits)

lemma parse_uint_bound: "parse_uint bits s = Some n \<Longrightarrow> n < 2 ^ bits"
  by (auto simp: parse_uint_def split: if_splits)

lemma digit_not_space: "is_digit c \<Longrightarrow> \<not> is_space c"
  by (auto simp: is_digit_def is_space_def)

lemma trim_space_digits: "list_all is_digit s \<Longrightarrow> trim_space s = s"
  unfolding trim_space_def by (rule trim_with_none) (auto simp: list_all_iff digit_not_space)

lemma trim_space_dec_string [simp]: "trim_space (dec_string n) = dec_string n"
  by (simp add: trim_space_digits dec_string_digits)

lemma digit_not_in: "list_all is_digit s \<Longrightarrow> \<not> is_digit c \<Longrightarrow> c \<notin> set s"
  by (auto simp: list_all_iff)

lemma sep_notin_dec [simp]: "\<not> is_digit c \<Longrightarrow> c \<notin> set (dec_string n)"
  using dec_string_digits digit_not_in by blast

text \<open>Go's \<open>int\<close> is 64 bits wide: arithmetic results are reduced to the signed range.\<close>

definition wrap64 :: "int \<Rightarrow> int" where
  "wrap64 x = (x + 2 ^ 63) mod 2 ^ 64 - 2 ^ 63"

lemma wrap64_id: "- (2 ^ 63) \<le> x \<Longrightarrow> x < 2 ^ 63 \<Longrightarrow> wrap64 x = x"
  by (simp add: wrap64_def)

lemma wrap64_range: "- (2 ^ 63) \<le> wrap64 x \<and> wrap64 x < 2 ^ 63"
proof -
  have "0 \<le> (x + 2 ^ 63) mod 2 ^ 64" "(x + 2 ^ 63) mod 2 ^ 64 < 2 ^ 64"
    by (simp_all add: pos_mod_bound)
  then show ?thesis unfolding wrap64_def by (auto simp: algebra_simps)
qed

section \<open>Slices: \<open>sort.Slice\<close>\<close>

text \<open>
  \<open>sort.Slice\<close> runs an insertion sort on slices of at most twelve elements and is not
  guaranteed to be stable on longer ones. \<open>sort_slice\<close> is that insertion sort; the
  properties of the development use only that the result is an ordered permutation.
\<close>

fun insert_by :: "('a \<Rightarrow> 'a \<Rightarrow> bool) \<Rightarrow> 'a \<Rightarrow> 'a list \<Rightarrow> 'a list" where
  "insert_by lt x [] = [x]"
| "insert_by lt x (y # ys) = (if lt x y then x # y # ys else y # insert_by lt x ys)"

definition sort_slice :: "('a \<Rightarrow> 'a \<Rightarrow> bool) \<Rightarrow> 'a list \<Rightarrow> 'a list" where
  "sort_slice lt xs = foldl (\<lambda>acc x. insert_by lt x acc) [] xs"

definition sorted_slice :: "('a \<Rightarrow> 'a \<Rightarrow> bool) \<Rightarrow> 'a list \<Rightarrow> bool" where
  "sorted_slice lt xs = sorted_wrt (\<lambda>a b. \<not> lt b a) xs"

lemma mset_insert_by [simp]: "mset (insert_by lt x ys) = add_mset x (mset ys)"
  by (induction ys) auto

lemma set_insert_by: "set (insert_by lt x ys) = insert x (set ys)"
  by (induction ys) auto

lemma mset_foldl_insert_by: "mset (foldl (\<lambda>acc x. insert_by lt x acc) acc xs) = mset acc + mset xs"
  by (induction xs arbitrary: acc) auto

lemma mset_sort_slice [simp]: "mset (sort_slice lt xs) = mset xs"
  by (simp add: sort_slice_def mset_foldl_insert_by)

lemma set_sort_slice [simp]: "set (sort_slice lt xs) = set xs"
  using mset_sort_slice [of lt xs] by (metis set_mset_mset)

lemma length_sort_slice [simp]: "length (sort_slice lt xs) = length xs"
  using mset_sort_slice [of lt xs] by (metis size_mset)

lemma sort_slice_Nil_iff [simp]: "sort_slice lt xs = [] \<longleftrightarrow> xs = []"
  by (metis length_0_conv length_sort_slice)

text \<open>What \<open>sort.Slice\<close> asks of its comparison function: a strict order.\<close>

locale slice_order =
  fixes lt :: "'a \<Rightarrow> 'a \<Rightarrow> bool"
  assumes lt_irrefl: "\<not> lt x x"
    and lt_trans: "lt x y \<Longrightarrow> lt y z \<Longrightarrow> lt x z"
begin

lemma lt_asym: "lt x y \<Longrightarrow> \<not> lt y x"
  using lt_irrefl lt_trans by blast

lemma sorted_insert_by: "sorted_slice lt ys \<Longrightarrow> sorted_slice lt (insert_by lt x ys)"
  by (induction ys) (auto simp: sorted_slice_def set_insert_by dest: lt_asym lt_trans)

lemma sorted_foldl: "sorted_slice lt acc \<Longrightarrow> sorted_slice lt (foldl (\<lambda>a x. insert_by lt x a) acc xs)"
  by (induction xs arbitrary: acc) (auto simp: sorted_insert_by)

lemma sorted_sort_slice: "sorted_slice lt (sort_slice lt xs)"
  unfolding sort_slice_def by (rule sorted_foldl) (simp add: sorted_slice_def)

end

section \<open>Go maps\<close>

type_synonym ('k, 'v) gomap = "('k \<times> 'v) list"

definition map_wf :: "('k, 'v) gomap \<Rightarrow> bool" where
  "map_wf m \<longleftrightarrow> distinct (map fst m)"

lemma map_wf_Nil [simp]: "map_wf []"
  by (simp add: map_wf_def)

lemma map_wf_update [simp]: "map_wf m \<Longrightarrow> map_wf (AList.update k v m)"
  by (simp add: map_wf_def distinct_update)

lemma map_wf_delete [simp]: "map_wf m \<Longrightarrow> map_wf (AList.delete k m)"
  by (simp add: map_wf_def distinct_delete)

lemma map_wf_filter [simp]: "map_wf m \<Longrightarrow> map_wf (filter P m)"
  by (simp add: map_wf_def distinct_map_filter)

lemma map_of_update [simp]: "map_of (AList.update k v m) = (map_of m)(k \<mapsto> v)"
  by (rule update_conv')

lemma map_of_delete [simp]: "map_of (AList.delete k m) = (map_of m)(k := None)"
  by (rule delete_conv')

lemma map_wf_in: "map_wf m \<Longrightarrow> (k, v) \<in> set m \<longleftrightarrow> map_of m k = Some v"
  by (simp add: map_wf_def)

lemma map_wf_Cons [simp]: "map_wf ((k, v) # m) \<longleftrightarrow> map_of m k = None \<and> map_wf m"
  by (auto simp: map_wf_def map_of_eq_None_iff)

lemma map_of_filter_val:
  "map_wf m \<Longrightarrow> map_of (filter (\<lambda>(k, v). P k v) m) k =
     (case map_of m k of Some v \<Rightarrow> if P k v then Some v else None | None \<Rightarrow> None)"
  by (induction m) (auto split: option.splits)

lemma map_wf_map_snd: "map_wf (map (\<lambda>(d, t). (d, f d t)) m) = map_wf m"
  by (simp add: map_wf_def comp_def case_prod_beta)

lemma map_of_map_snd: "map_of (map (\<lambda>(d, t). (d, f d t)) m) d = map_option (f d) (map_of m d)"
  by (induction m) auto

lemma map_of_rev_wf: "map_wf m \<Longrightarrow> map_of (rev m) = map_of m"
  by (intro map_of_inject_set [THEN iffD2]) (auto simp: map_wf_def rev_map [symmetric])

lemma length_map_wf: "map_wf m \<Longrightarrow> length m = card (dom (map_of m))"
  using distinct_card [of "map fst m"] by (simp add: map_wf_def dom_map_of_conv_image_fst)

lemma mset_map_wf:
  assumes "map_wf m"
  shows "mset m = image_mset (\<lambda>k. (k, the (map_of m k))) (mset_set (dom (map_of m)))"
proof -
  have "mset_set (dom (map_of m)) = mset (map fst m)"
    using assms by (simp add: map_wf_def dom_map_of_conv_image_fst mset_set_set flip: set_map)
  moreover have "map (\<lambda>k. (k, the (map_of m k))) (map fst m) = m"
    using assms by (auto simp: map_wf_in intro!: map_idI)
  ultimately show ?thesis by (metis mset_map)
qed

text \<open>Two iteration orders of one map visit the same entries.\<close>

lemma mset_map_wf_eq: "map_wf m \<Longrightarrow> map_wf m' \<Longrightarrow> map_of m = map_of m' \<Longrightarrow> mset m = mset m'"
  by (simp add: mset_map_wf)

section \<open>Interfaces shared by the components\<close>

text \<open>
  A component whose methods run one after the other (each holds the component's mutex): a
  step function over its operations, the operations a client may call, and a predicate that
  every such operation keeps.
\<close>

locale op_machine =
  fixes step :: "'op \<Rightarrow> 's \<Rightarrow> 's"
    and allowed :: "'op \<Rightarrow> bool"
    and inv :: "'s \<Rightarrow> bool"
  assumes step_inv: "inv s \<Longrightarrow> allowed op \<Longrightarrow> inv (step op s)"
begin

lemma run_inv: "inv s \<Longrightarrow> list_all allowed ops \<Longrightarrow> inv (fold step ops s)"
  by (induction ops arbitrary: s) (auto simp: step_inv)

end

locale started_machine = op_machine step allowed inv
  for step :: "'op \<Rightarrow> 's \<Rightarrow> 's" and allowed :: "'op \<Rightarrow> bool" and inv :: "'s \<Rightarrow> bool" +
  fixes init :: 's
  assumes init_inv: "inv init"
begin

lemma reach_inv: "list_all allowed ops \<Longrightarrow> inv (fold step ops init)"
  by (rule run_inv) (rule init_inv)

end

text \<open>A table of values under keys: what an insertion does to a lookup.\<close>

locale keyed_store =
  fixes lookup :: "'s \<Rightarrow> 'k \<Rightarrow> 'v option"
    and put :: "'k \<Rightarrow> 'v \<Rightarrow> 's \<Rightarrow> 's"
    and wf :: "'s \<Rightarrow> bool"
  assumes wf_put: "wf s \<Longrightarrow> wf (put k v s)"
    and lookup_put: "wf s \<Longrightarrow> lookup (put k v s) = (lookup s)(k \<mapsto> v)"
begin

lemma wf_puts: "wf s \<Longrightarrow> wf (fold (\<lambda>(k, v). put k v) kvs s)"
  by (induction kvs arbitrary: s) (auto simp: wf_put)

lemma lookup_puts: "wf s \<Longrightarrow> lookup (fold (\<lambda>(k, v). put k v) kvs s) = lookup s ++ map_of (rev kvs)"
proof (induction kvs arbitrary: s)
  case (Cons kv kvs)
  then show ?case by (cases kv) (auto simp: wf_put lookup_put map_add_def fun_eq_iff split: option.splits)
qed simp

lemma lookup_puts_notin: "wf s \<Longrightarrow> k \<notin> fst ` set kvs \<Longrightarrow> lookup (fold (\<lambda>(k, v). put k v) kvs s) k = lookup s k"
  by (simp add: lookup_puts map_add_def map_of_eq_None_iff split: option.splits)
    (metis image_set map_of_eq_None_iff option.distinct(1) set_rev)

end

end
