(* ===== verification/CookieJar.thy ===== *)
theory CookieJar
  imports Prelude
begin

text \<open>
  The session's cookie jar, \<open>session/cookie_jar.go\<close>: a map from domains to maps from
  \<open>cookieKey path name\<close> to cookies. Every method holds the jar's mutex, so a method is one
  function on the jar; \<open>time.Now()\<close> is the argument \<open>now\<close>. \<open>*time.Time\<close> is \<open>time option\<close>.
\<close>

section \<open>State\<close>

record CookieData =
  cd_Name :: string
  cd_Value :: string
  cd_Domain :: string
  cd_HostOnly :: bool
  cd_Path :: string
  cd_Expires :: "time option"
  cd_MaxAge :: int
  cd_Secure :: bool
  cd_HttpOnly :: bool
  cd_SameSite :: string
  cd_CreatedAt :: time

record CookieState =
  cs_Name :: string
  cs_Value :: string
  cs_Domain :: string
  cs_Path :: string
  cs_Expires :: "time option"
  cs_MaxAge :: int
  cs_Secure :: bool
  cs_HttpOnly :: bool
  cs_SameSite :: string
  cs_CreatedAt :: "time option"

type_synonym cookie_table = "(string, CookieData) gomap"
type_synonym jar = "(string, cookie_table) gomap"

definition NewCookieJar :: jar where
  "NewCookieJar = []"

definition cookieKey :: "string \<Rightarrow> string \<Rightarrow> string" where
  "cookieKey path name = path @ [CHR 0x00] @ name"

section \<open>Matching\<close>

text \<open>The port is cut at the last colon unless that colon lies inside a bracketed address.\<close>

definition strip_port :: "string \<Rightarrow> string" where
  "strip_port host =
     (case last_index_of host '':'' of
        None \<Rightarrow> host
      | Some idx \<Rightarrow>
          (case index_of host '']'' of
             None \<Rightarrow> take idx host
           | Some b \<Rightarrow> if idx > b then take idx host else host))"

definition normalize_host :: "string \<Rightarrow> string" where
  "normalize_host requestHost = strip_port (to_lower requestHost)"

definition isDomainMatch :: "string \<Rightarrow> string \<Rightarrow> bool" where
  "isDomainMatch host domain \<longleftrightarrow> host = domain \<or> has_suffix host (''.'' @ domain)"

definition domainMatchesHost :: "string \<Rightarrow> string \<Rightarrow> bool" where
  "domainMatchesHost cookieDomain requestHost \<longleftrightarrow>
     cookieDomain = '''' \<or> cookieDomain = requestHost \<or>
     (has_prefix cookieDomain ''.'' \<and>
        (requestHost = drop 1 cookieDomain \<or> has_suffix requestHost cookieDomain))"

definition isPathMatch :: "string \<Rightarrow> string \<Rightarrow> bool" where
  "isPathMatch requestPath cookiePath \<longleftrightarrow>
     requestPath = cookiePath \<or>
     (has_prefix requestPath cookiePath \<and>
        (has_suffix cookiePath ''/'' \<or>
         (length requestPath > length cookiePath \<and> requestPath ! length cookiePath = CHR ''/'')))"

definition expired_at :: "time \<Rightarrow> time option \<Rightarrow> bool" where
  "expired_at now e \<longleftrightarrow> (case e of None \<Rightarrow> False | Some t \<Rightarrow> t < now)"

section \<open>Writing\<close>

text \<open>\<open>j.cookies[domain][key] = stored\<close>, after \<open>make\<close> when the domain has no table yet.\<close>

definition table_of :: "jar \<Rightarrow> string \<Rightarrow> cookie_table" where
  "table_of j domain = (case map_of j domain of None \<Rightarrow> [] | Some t \<Rightarrow> t)"

definition put_cookie :: "string \<times> string \<Rightarrow> CookieData \<Rightarrow> jar \<Rightarrow> jar" where
  "put_cookie dk c j = AList.update (fst dk) (AList.update (snd dk) c (table_of j (fst dk))) j"

definition cookie_scope :: "string \<Rightarrow> CookieData \<Rightarrow> (string \<times> bool) option" where
  "cookie_scope requestHost cookie =
     (if cd_Domain cookie = '''' then Some (requestHost, True)
      else let domainWithoutDot = trim_prefix (to_lower (cd_Domain cookie)) ''.'' in
           if isDomainMatch requestHost domainWithoutDot then Some (''.'' @ domainWithoutDot, False)
           else None)"

definition jar_Set :: "time \<Rightarrow> string \<Rightarrow> CookieData \<Rightarrow> bool \<Rightarrow> jar \<Rightarrow> jar" where
  "jar_Set now requestHost cookie requestSecure j =
     (case cookie_scope (normalize_host requestHost) cookie of
        None \<Rightarrow> j
      | Some (domain, hostOnly) \<Rightarrow>
          if cd_Secure cookie \<and> \<not> requestSecure then j
          else
            let path = (case cd_Path cookie of
                          [] \<Rightarrow> ''/''
                        | c # _ \<Rightarrow> if c \<noteq> CHR ''/'' then ''/'' else cd_Path cookie);
                stored = cookie\<lparr>cd_Domain := domain, cd_HostOnly := hostOnly,
                                cd_Path := path, cd_CreatedAt := now\<rparr>
            in put_cookie (domain, cookieKey path (cd_Name cookie)) stored j)"

definition jar_SetSimple ::
  "time \<Rightarrow> string \<Rightarrow> string \<Rightarrow> string \<Rightarrow> string \<Rightarrow> bool \<Rightarrow> bool \<Rightarrow> string \<Rightarrow> int \<Rightarrow> time option \<Rightarrow> jar \<Rightarrow> jar" where
  "jar_SetSimple now name val domain0 path0 secure httpOnly sameSite maxAge expires j =
     (let domain = (if domain0 = '''' then domain0 else to_lower domain0);
          hostOnly = (domain0 \<noteq> '''' \<and> \<not> has_prefix domain ''.'');
          path = (if path0 = '''' then ''/'' else path0)
      in put_cookie (domain, cookieKey path name)
           \<lparr>cd_Name = name, cd_Value = val, cd_Domain = domain, cd_HostOnly = hostOnly,
            cd_Path = path, cd_Expires = expires, cd_MaxAge = maxAge, cd_Secure = secure,
            cd_HttpOnly = httpOnly, cd_SameSite = sameSite, cd_CreatedAt = now\<rparr> j)"

section \<open>Removing\<close>

definition prune_tables :: "(string \<Rightarrow> CookieData \<Rightarrow> bool) \<Rightarrow> jar \<Rightarrow> jar" where
  "prune_tables keep j =
     filter (\<lambda>(d, t). t \<noteq> []) (map (\<lambda>(d, t). (d, filter (\<lambda>(k, c). keep k c) t)) j)"

definition jar_Delete :: "string \<Rightarrow> string \<Rightarrow> jar \<Rightarrow> jar" where
  "jar_Delete name domain0 j =
     (if domain0 = '''' then prune_tables (\<lambda>k c. cd_Name c \<noteq> name) j
      else let domain = to_lower domain0 in
           case map_of j domain of
             None \<Rightarrow> j
           | Some t \<Rightarrow>
               let t' = filter (\<lambda>(k, c). cd_Name c \<noteq> name) t in
               if t' = [] then AList.delete domain j else AList.update domain t' j)"

definition jar_Clear :: "jar \<Rightarrow> jar" where
  "jar_Clear j = []"

definition jar_ClearExpired :: "time \<Rightarrow> jar \<Rightarrow> jar" where
  "jar_ClearExpired now j = prune_tables (\<lambda>k c. \<not> expired_at now (cd_Expires c)) j"

section \<open>Reading\<close>

definition cookie_applies :: "time \<Rightarrow> string \<Rightarrow> string \<Rightarrow> string \<Rightarrow> bool \<Rightarrow> CookieData \<Rightarrow> bool" where
  "cookie_applies now domain requestHost requestPath requestSecure cookie \<longleftrightarrow>
     \<not> (cd_HostOnly cookie \<and> domain \<noteq> requestHost) \<and>
     isPathMatch requestPath (cd_Path cookie) \<and>
     \<not> (cd_Secure cookie \<and> \<not> requestSecure) \<and>
     \<not> expired_at now (cd_Expires cookie)"

definition cookie_before :: "CookieData \<Rightarrow> CookieData \<Rightarrow> bool" where
  "cookie_before a b \<longleftrightarrow>
     (if length (cd_Path a) \<noteq> length (cd_Path b) then length (cd_Path a) > length (cd_Path b)
      else cd_CreatedAt a < cd_CreatedAt b)"

definition jar_matches :: "time \<Rightarrow> string \<Rightarrow> string \<Rightarrow> bool \<Rightarrow> jar \<Rightarrow> CookieData list" where
  "jar_matches now requestHost requestPath requestSecure j =
     concat (map (\<lambda>(domain, t).
       if \<not> domainMatchesHost domain requestHost then []
       else map snd (filter (\<lambda>(k, c). cookie_applies now domain requestHost requestPath requestSecure c) t)) j)"

definition jar_Get :: "time \<Rightarrow> string \<Rightarrow> string \<Rightarrow> bool \<Rightarrow> jar \<Rightarrow> CookieData list" where
  "jar_Get now requestHost requestPath requestSecure j =
     sort_slice cookie_before
       (jar_matches now (normalize_host requestHost)
          (if requestPath = '''' then ''/'' else requestPath) requestSecure j)"

definition BuildCookieHeader :: "time \<Rightarrow> string \<Rightarrow> string \<Rightarrow> bool \<Rightarrow> jar \<Rightarrow> string" where
  "BuildCookieHeader now requestHost requestPath requestSecure j =
     (let cookies = jar_Get now requestHost requestPath requestSecure j in
      if cookies = [] then ''''
      else join_with ''; '' (map (\<lambda>c. cd_Name c @ ''='' @ cd_Value c) cookies))"

definition to_state :: "CookieData \<Rightarrow> CookieState" where
  "to_state c =
     \<lparr>cs_Name = cd_Name c, cs_Value = cd_Value c, cs_Domain = cd_Domain c, cs_Path = cd_Path c,
      cs_Expires = cd_Expires c, cs_MaxAge = cd_MaxAge c, cs_Secure = cd_Secure c,
      cs_HttpOnly = cd_HttpOnly c, cs_SameSite = cd_SameSite c, cs_CreatedAt = Some (cd_CreatedAt c)\<rparr>"

definition state_before :: "CookieState \<Rightarrow> CookieState \<Rightarrow> bool" where
  "state_before a b \<longleftrightarrow>
     (if cs_Domain a \<noteq> cs_Domain b then cs_Domain a < cs_Domain b
      else if cs_Path a \<noteq> cs_Path b then cs_Path a < cs_Path b
      else cs_Name a < cs_Name b)"

definition live_states :: "time \<Rightarrow> cookie_table \<Rightarrow> CookieState list" where
  "live_states now t = map (to_state \<circ> snd) (filter (\<lambda>(k, c). \<not> expired_at now (cd_Expires c)) t)"

definition jar_GetAll :: "time \<Rightarrow> jar \<Rightarrow> CookieState list" where
  "jar_GetAll now j = sort_slice state_before (concat (map (\<lambda>(d, t). live_states now t) j))"

definition jar_Count :: "jar \<Rightarrow> nat" where
  "jar_Count j = sum_list (map (\<lambda>(d, t). length t) j)"

section \<open>Export and import\<close>

definition jar_Export :: "time \<Rightarrow> jar \<Rightarrow> (string, CookieState list) gomap" where
  "jar_Export now j =
     filter (\<lambda>(d, cs). cs \<noteq> []) (map (\<lambda>(d, t). (d, live_states now t)) j)"

definition ensure_table :: "string \<Rightarrow> jar \<Rightarrow> jar" where
  "ensure_table domain j = (if map_of j domain = None then AList.update domain [] j else j)"

definition imported_entry :: "time \<Rightarrow> string \<Rightarrow> CookieState \<Rightarrow> (string \<times> string) \<times> CookieData" where
  "imported_entry now domain c =
     (let path = (if cs_Path c = [] then ''/'' else cs_Path c) in
      ((domain, cookieKey path (cs_Name c)),
       \<lparr>cd_Name = cs_Name c, cd_Value = cs_Value c, cd_Domain = cs_Domain c,
        cd_HostOnly = (\<not> has_prefix (cs_Domain c) ''.''), cd_Path = path,
        cd_Expires = cs_Expires c, cd_MaxAge = cs_MaxAge c, cd_Secure = cs_Secure c,
        cd_HttpOnly = cs_HttpOnly c, cd_SameSite = cs_SameSite c,
        cd_CreatedAt = (case cs_CreatedAt c of None \<Rightarrow> now | Some t \<Rightarrow> t)\<rparr>))"

definition import_cookie :: "time \<Rightarrow> string \<Rightarrow> CookieState \<Rightarrow> jar \<Rightarrow> jar" where
  "import_cookie now domain c j =
     (if expired_at now (cs_Expires c) then j
      else put_cookie (fst (imported_entry now domain c)) (snd (imported_entry now domain c)) j)"

definition jar_Import :: "time \<Rightarrow> (string, CookieState list) gomap \<Rightarrow> jar \<Rightarrow> jar" where
  "jar_Import now cookies j =
     fold (\<lambda>(domain, cs) j. fold (import_cookie now domain) cs (ensure_table domain j)) cookies j"

definition imported_v4_entry :: "time \<Rightarrow> CookieState \<Rightarrow> (string \<times> string) \<times> CookieData" where
  "imported_v4_entry now c =
     (let domain = (if cs_Domain c = [] then [] else to_lower (cs_Domain c));
          hostOnly = (cs_Domain c \<noteq> [] \<and> \<not> has_prefix domain ''.'');
          path = (if cs_Path c = [] then ''/'' else cs_Path c) in
      ((domain, cookieKey path (cs_Name c)),
       \<lparr>cd_Name = cs_Name c, cd_Value = cs_Value c, cd_Domain = domain,
        cd_HostOnly = hostOnly, cd_Path = path, cd_Expires = cs_Expires c,
        cd_MaxAge = cs_MaxAge c, cd_Secure = cs_Secure c, cd_HttpOnly = cs_HttpOnly c,
        cd_SameSite = cs_SameSite c, cd_CreatedAt = now\<rparr>))"

definition import_v4 :: "time \<Rightarrow> CookieState \<Rightarrow> jar \<Rightarrow> jar" where
  "import_v4 now c j =
     (if expired_at now (cs_Expires c) then j
      else put_cookie (fst (imported_v4_entry now c)) (snd (imported_v4_entry now c)) j)"

definition jar_ImportV4 :: "time \<Rightarrow> CookieState list \<Rightarrow> jar \<Rightarrow> jar" where
  "jar_ImportV4 now cookies j = fold (import_v4 now) cookies j"


section \<open>The jar as a map from (domain, key) to cookies\<close>

definition jar_wf :: "jar \<Rightarrow> bool" where
  "jar_wf j \<longleftrightarrow> map_wf j \<and> (\<forall>(d, t) \<in> set j. map_wf t)"

definition jar_lookup :: "jar \<Rightarrow> string \<times> string \<Rightarrow> CookieData option" where
  "jar_lookup j dk = map_of (table_of j (fst dk)) (snd dk)"

lemma jar_wf_Nil [simp]: "jar_wf []"
  by (simp add: jar_wf_def)

lemma jar_lookup_Nil [simp]: "jar_lookup [] = Map.empty"
  by (simp add: jar_lookup_def table_of_def fun_eq_iff)

lemma table_of_update [simp]:
  "table_of (AList.update d t j) d' = (if d' = d then t else table_of j d')"
  by (simp add: table_of_def)

lemma table_of_delete: "table_of (AList.delete d j) d' = (if d' = d then [] else table_of j d')"
  by (simp add: table_of_def)

lemma jar_wf_table: "jar_wf j \<Longrightarrow> map_wf (table_of j d)"
  by (auto simp: jar_wf_def table_of_def split: option.splits dest: map_of_SomeD)

lemma jar_wf_update: "jar_wf j \<Longrightarrow> map_wf t \<Longrightarrow> jar_wf (AList.update d t j)"
  by (auto simp: jar_wf_def map_wf_in split: if_splits)

lemma jar_wf_delete: "jar_wf j \<Longrightarrow> jar_wf (AList.delete d j)"
  by (auto simp: jar_wf_def map_wf_in split: if_splits)

lemma jar_wf_put: "jar_wf j \<Longrightarrow> jar_wf (put_cookie dk c j)"
  by (simp add: put_cookie_def jar_wf_update jar_wf_table)

lemma lookup_put_cookie: "jar_lookup (put_cookie dk c j) = (jar_lookup j)(dk \<mapsto> c)"
  by (auto simp: fun_eq_iff jar_lookup_def put_cookie_def prod_eq_iff)

interpretation jar_store: keyed_store jar_lookup put_cookie jar_wf
  by unfold_locales (simp_all add: jar_wf_put lookup_put_cookie)

lemma jar_in_table:
  "jar_wf j \<Longrightarrow> (\<exists>t. (d, t) \<in> set j \<and> (k, c) \<in> set t) \<longleftrightarrow> jar_lookup j (d, k) = Some c"
  by (auto simp: jar_wf_def jar_lookup_def table_of_def map_wf_in split: option.splits)
    (metis (no_types, lifting) case_prodD map_of_SomeD map_wf_in)+

lemma jar_wf_ensure [simp]: "jar_wf j \<Longrightarrow> jar_wf (ensure_table d j)"
  by (simp add: ensure_table_def jar_wf_update)

lemma jar_lookup_ensure [simp]: "jar_lookup (ensure_table d j) = jar_lookup j"
  by (auto simp: ensure_table_def jar_lookup_def table_of_def fun_eq_iff)

lemma jar_wf_prune: "jar_wf j \<Longrightarrow> jar_wf (prune_tables keep j)"
  unfolding jar_wf_def prune_tables_def by (auto simp: map_wf_map_snd)

lemma table_of_prune:
  assumes "jar_wf j"
  shows "table_of (prune_tables keep j) d = filter (\<lambda>(k, c). keep k c) (table_of j d)"
proof -
  have "map_wf (map (\<lambda>(d, t). (d, filter (\<lambda>(k, c). keep k c) t)) j)"
    using assms by (simp add: map_wf_map_snd jar_wf_def)
  then show ?thesis
    by (auto simp: table_of_def prune_tables_def map_of_filter_val map_of_map_snd split: option.splits)
qed

lemma jar_lookup_prune:
  assumes "jar_wf j"
  shows "jar_lookup (prune_tables keep j) (d, k) =
    (case jar_lookup j (d, k) of Some c \<Rightarrow> if keep k c then Some c else None | None \<Rightarrow> None)"
  using assms by (simp add: jar_lookup_def table_of_prune map_of_filter_val jar_wf_table)

lemma jar_wf_Set: "jar_wf j \<Longrightarrow> jar_wf (jar_Set now h c sec j)"
  by (auto simp: jar_Set_def Let_def jar_wf_put split: option.splits)

lemma jar_wf_SetSimple: "jar_wf j \<Longrightarrow> jar_wf (jar_SetSimple now n v d p sec ho ss ma e j)"
  by (simp add: jar_SetSimple_def Let_def jar_wf_put)

lemma jar_wf_Delete: "jar_wf j \<Longrightarrow> jar_wf (jar_Delete n d j)"
  by (auto simp: jar_Delete_def Let_def jar_wf_prune jar_wf_delete intro!: jar_wf_update map_wf_filter
      split: option.splits dest: jar_wf_table [of j "to_lower d"] simp: table_of_def)

lemma jar_wf_import_cookie: "jar_wf j \<Longrightarrow> jar_wf (import_cookie now d c j)"
  by (simp add: import_cookie_def Let_def jar_wf_put)

lemma jar_wf_fold_import: "jar_wf j \<Longrightarrow> jar_wf (fold (import_cookie now d) cs j)"
  by (induction cs arbitrary: j) (auto simp: jar_wf_import_cookie)

lemma jar_wf_Import: "jar_wf j \<Longrightarrow> jar_wf (jar_Import now cookies j)"
  unfolding jar_Import_def by (induction cookies arbitrary: j) (auto simp: jar_wf_fold_import)

lemma jar_wf_ImportV4: "jar_wf j \<Longrightarrow> jar_wf (jar_ImportV4 now cookies j)"
  unfolding jar_ImportV4_def
  by (induction cookies arbitrary: j) (auto simp: import_v4_def Let_def jar_wf_put)

section \<open>Operations as a machine\<close>

datatype jar_op =
    OpSet time string CookieData bool
  | OpSetSimple time string string string string bool bool string int "time option"
  | OpDelete string string
  | OpClear
  | OpClearExpired time
  | OpImport time "(string, CookieState list) gomap"
  | OpImportV4 time "CookieState list"

fun jar_step :: "jar_op \<Rightarrow> jar \<Rightarrow> jar" where
  "jar_step (OpSet now h c sec) j = jar_Set now h c sec j"
| "jar_step (OpSetSimple now n v d p sec ho ss ma e) j = jar_SetSimple now n v d p sec ho ss ma e j"
| "jar_step (OpDelete n d) j = jar_Delete n d j"
| "jar_step OpClear j = jar_Clear j"
| "jar_step (OpClearExpired now) j = jar_ClearExpired now j"
| "jar_step (OpImport now cs) j = jar_Import now cs j"
| "jar_step (OpImportV4 now cs) j = jar_ImportV4 now cs j"

lemma jar_wf_step: "jar_wf j \<Longrightarrow> jar_wf (jar_step op j)"
  by (cases op) (auto simp: jar_wf_Set jar_wf_SetSimple jar_wf_Delete jar_Clear_def
      jar_ClearExpired_def jar_wf_prune jar_wf_Import jar_wf_ImportV4)

interpretation jar_machine: started_machine jar_step "\<lambda>_. True" jar_wf NewCookieJar
  by unfold_locales (simp_all add: jar_wf_step NewCookieJar_def)

section \<open>The jar as one flat list of entries\<close>

definition jar_entries :: "jar \<Rightarrow> ((string \<times> string) \<times> CookieData) list" where
  "jar_entries j = concat (map (\<lambda>(d, t). map (\<lambda>(k, c). ((d, k), c)) t) j)"

lemma jar_entries_Nil [simp]: "jar_entries [] = []"
  by (simp add: jar_entries_def)

lemma jar_entries_Cons: "jar_entries ((d, t) # j) = map (\<lambda>(k, c). ((d, k), c)) t @ jar_entries j"
  by (simp add: jar_entries_def)

lemma in_jar_entries: "((d, k), c) \<in> set (jar_entries j) \<longleftrightarrow> (\<exists>t. (d, t) \<in> set j \<and> (k, c) \<in> set t)"
  by (force simp: jar_entries_def)

lemma map_wf_jar_entries: "jar_wf j \<Longrightarrow> map_wf (jar_entries j)"
proof (induction j)
  case (Cons e j)
  obtain d t where e: "e = (d, t)" by (cases e)
  have wf: "jar_wf j" "map_wf t" "d \<notin> fst ` set j"
    using Cons.prems by (auto simp: e jar_wf_def map_of_eq_None_iff)
  have "distinct (map (Pair d) (map fst t))"
    using wf(2) by (simp add: map_wf_def distinct_map inj_on_def)
  then have "distinct (map fst (map (\<lambda>(k, c). ((d, k), c)) t))"
    by (simp add: comp_def case_prod_beta)
  moreover have "distinct (map fst (jar_entries j))"
    using Cons.IH wf(1) by (simp add: map_wf_def)
  moreover have "set (map fst (map (\<lambda>(k, c). ((d, k), c)) t)) \<inter> set (map fst (jar_entries j)) = {}"
    using wf(3) by (force simp: in_jar_entries image_iff)
  ultimately show ?case by (simp add: e map_wf_def jar_entries_Cons)
qed simp

lemma map_of_jar_entries: "jar_wf j \<Longrightarrow> map_of (jar_entries j) = jar_lookup j"
proof (rule ext)
  fix dk :: "string \<times> string"
  assume wf: "jar_wf j"
  obtain d k where dk: "dk = (d, k)" by (cases dk)
  have "map_of (jar_entries j) dk = Some c \<longleftrightarrow> jar_lookup j dk = Some c" for c
    using map_wf_in [OF map_wf_jar_entries [OF wf]] jar_in_table [OF wf] in_jar_entries dk by metis
  then show "map_of (jar_entries j) dk = jar_lookup j dk"
    by (metis not_Some_eq)
qed

lemma in_entries_lookup: "jar_wf j \<Longrightarrow> (dk, c) \<in> set (jar_entries j) \<longleftrightarrow> jar_lookup j dk = Some c"
  using map_wf_in [OF map_wf_jar_entries] map_of_jar_entries by metis

lemma jar_matches_entries:
  "jar_matches now h p sec j =
     map snd (filter (\<lambda>((d, k), c). domainMatchesHost d h \<and> cookie_applies now d h p sec c) (jar_entries j))"
  unfolding jar_matches_def
  by (induction j) (auto simp: jar_entries_Cons filter_map comp_def split_def)

lemma jar_GetAll_entries:
  "jar_GetAll now j =
     sort_slice state_before
       (map (to_state \<circ> snd) (filter (\<lambda>(dk, c). \<not> expired_at now (cd_Expires c)) (jar_entries j)))"
proof -
  have "concat (map (\<lambda>(d, t). live_states now t) j) =
    map (to_state \<circ> snd) (filter (\<lambda>(dk, c). \<not> expired_at now (cd_Expires c)) (jar_entries j))"
    by (induction j)
      (auto simp: jar_entries_Cons live_states_def filter_map comp_def split_def)
  then show ?thesis by (simp add: jar_GetAll_def)
qed

lemma jar_Count_entries: "jar_Count j = length (jar_entries j)"
  by (induction j) (auto simp: jar_Count_def jar_entries_Cons)

interpretation cookie_order: slice_order cookie_before
  by unfold_locales (auto simp: cookie_before_def split: if_splits)

interpretation state_order: slice_order state_before
  by unfold_locales (auto simp: state_before_def split: if_splits)

lemma cookie_applies_iff:
  "cookie_applies now d h p sec c \<longleftrightarrow> (cd_HostOnly c \<longrightarrow> d = h) \<and> isPathMatch p (cd_Path c) \<and>
     (cd_Secure c \<longrightarrow> sec) \<and> (\<forall>t. cd_Expires c = Some t \<longrightarrow> now \<le> t)"
  by (auto simp: cookie_applies_def expired_at_def split: option.splits)

lemma in_jar_Get:
  assumes "jar_wf j"
  shows "c \<in> set (jar_Get now host path sec j) \<longleftrightarrow>
    (\<exists>d k. jar_lookup j (d, k) = Some c \<and> domainMatchesHost d (normalize_host host) \<and>
       cookie_applies now d (normalize_host host) (if path = '''' then ''/'' else path) sec c)"
proof -
  have "c \<in> set (jar_Get now host path sec j) \<longleftrightarrow>
    (\<exists>d k. ((d, k), c) \<in> set (jar_entries j) \<and> domainMatchesHost d (normalize_host host) \<and>
       cookie_applies now d (normalize_host host) (if path = '''' then ''/'' else path) sec c)"
    by (auto simp: jar_Get_def jar_matches_entries image_iff Bex_def)
  then show ?thesis using assms by (simp add: in_entries_lookup)
qed

lemma sorted_jar_Get: "sorted_slice cookie_before (jar_Get now host path sec j)"
  unfolding jar_Get_def by (rule cookie_order.sorted_sort_slice)


definition demo_cookie :: CookieData where
  "demo_cookie = \<lparr>cd_Name = ''sid'', cd_Value = ''1'', cd_Domain = '''', cd_HostOnly = False,
     cd_Path = ''/'', cd_Expires = None, cd_MaxAge = 0, cd_Secure = False, cd_HttpOnly = False,
     cd_SameSite = '''', cd_CreatedAt = 0\<rparr>"

definition demo_jar :: jar where
  "demo_jar = jar_Set 5 ''shop.test:443'' demo_cookie True NewCookieJar"

lemma jar_wf_demo_jar: "jar_wf demo_jar"
  by (simp add: demo_jar_def jar_wf_Set NewCookieJar_def)


section \<open>An abstract specification of the jar\<close>

text \<open>
  What the jar promises, over a single map from (domain, key) to cookies: writing is one map
  update, deleting and expiring restrict the map, importing overlays it.
\<close>

type_synonym spec_jar = "string \<times> string \<Rightarrow> CookieData option"

definition spec_restrict :: "(string \<times> string \<Rightarrow> CookieData \<Rightarrow> bool) \<Rightarrow> spec_jar \<Rightarrow> spec_jar" where
  "spec_restrict keep m dk = (case m dk of Some c \<Rightarrow> if keep dk c then Some c else None | None \<Rightarrow> None)"

definition spec_set :: "time \<Rightarrow> string \<Rightarrow> CookieData \<Rightarrow> bool \<Rightarrow> spec_jar \<Rightarrow> spec_jar" where
  "spec_set now h c sec m =
     (case cookie_scope (normalize_host h) c of
        Some (d, ho) \<Rightarrow>
          if cd_Secure c \<longrightarrow> sec then
            let p = (if has_prefix (cd_Path c) ''/'' then cd_Path c else ''/'')
            in m((d, cookieKey p (cd_Name c)) \<mapsto>
                 c\<lparr>cd_Domain := d, cd_HostOnly := ho, cd_Path := p, cd_CreatedAt := now\<rparr>)
          else m
      | None \<Rightarrow> m)"

definition import_entries :: "time \<Rightarrow> (string, CookieState list) gomap \<Rightarrow> ((string \<times> string) \<times> CookieData) list" where
  "import_entries now cs =
     [imported_entry now d c. (d, xs) \<leftarrow> cs, c \<leftarrow> xs, \<not> expired_at now (cs_Expires c)]"

definition import_v4_entries :: "time \<Rightarrow> CookieState list \<Rightarrow> ((string \<times> string) \<times> CookieData) list" where
  "import_v4_entries now cs = map (imported_v4_entry now) (filter (\<lambda>c. \<not> expired_at now (cs_Expires c)) cs)"

fun spec_step :: "jar_op \<Rightarrow> spec_jar \<Rightarrow> spec_jar" where
  "spec_step (OpSet now h c sec) m = spec_set now h c sec m"
| "spec_step (OpSetSimple now n v d p sec ho ss ma e) m =
     m((to_lower d, cookieKey (if p = '''' then ''/'' else p) n) \<mapsto>
       \<lparr>cd_Name = n, cd_Value = v, cd_Domain = to_lower d,
        cd_HostOnly = (d \<noteq> '''' \<and> \<not> has_prefix (to_lower d) ''.''),
        cd_Path = (if p = '''' then ''/'' else p), cd_Expires = e, cd_MaxAge = ma, cd_Secure = sec,
        cd_HttpOnly = ho, cd_SameSite = ss, cd_CreatedAt = now\<rparr>)"
| "spec_step (OpDelete n d) m =
     spec_restrict (\<lambda>dk c. cd_Name c \<noteq> n \<or> (d \<noteq> '''' \<and> fst dk \<noteq> to_lower d)) m"
| "spec_step OpClear m = Map.empty"
| "spec_step (OpClearExpired now) m = spec_restrict (\<lambda>dk c. \<not> expired_at now (cd_Expires c)) m"
| "spec_step (OpImport now cs) m = m ++ map_of (rev (import_entries now cs))"
| "spec_step (OpImportV4 now cs) m = m ++ map_of (rev (import_v4_entries now cs))"

lemma flat_imports:
  "[import_entry d c. (d, xs) \<leftarrow> (dx # cs), c \<leftarrow> xs, P c] =
   map (import_entry (fst dx)) (filter P (snd dx)) @ [import_entry d c. (d, xs) \<leftarrow> cs, c \<leftarrow> xs, P c]"
proof -
  have "concat (map (\<lambda>c. if P c then [import_entry (fst dx) c] else []) ys) =
      map (import_entry (fst dx)) (filter P ys)" for ys
    by (induction ys) auto
  then show ?thesis by (simp add: split_def)
qed

lemma fold_put_filter:
  "fold (\<lambda>c j. if E c then j else put_cookie (fst (f c)) (snd (f c)) j) cs j =
   fold (\<lambda>(dk, c). put_cookie dk c) (map f (filter (\<lambda>c. \<not> E c) cs)) j"
  by (induction cs arbitrary: j) (auto simp: split_def)

lemma fold_import_cookie:
  "fold (import_cookie now d) cs j =
   fold (\<lambda>(dk, c). put_cookie dk c) (map (imported_entry now d) (filter (\<lambda>c. \<not> expired_at now (cs_Expires c)) cs)) j"
  using fold_put_filter [of "\<lambda>c. expired_at now (cs_Expires c)" "imported_entry now d" cs j]
  by (simp add: import_cookie_def [abs_def])

lemma lookup_Import:
  "jar_wf j \<Longrightarrow> jar_lookup (jar_Import now cs j) = jar_lookup j ++ map_of (rev (import_entries now cs))"
proof (induction cs arbitrary: j)
  case (Cons dx cs)
  obtain d xs where dx: "dx = (d, xs)" by (cases dx)
  let ?es = "map (imported_entry now d) (filter (\<lambda>c. \<not> expired_at now (cs_Expires c)) xs)"
  let ?j = "fold (import_cookie now d) xs (ensure_table d j)"
  have wf: "jar_wf ?j" using Cons.prems by (simp add: jar_wf_fold_import)
  have "jar_lookup ?j = jar_lookup j ++ map_of (rev ?es)"
    using jar_store.lookup_puts [of "ensure_table d j" ?es] Cons.prems by (simp add: fold_import_cookie)
  moreover have "import_entries now (dx # cs) = ?es @ import_entries now cs"
    unfolding import_entries_def by (subst flat_imports) (simp add: dx)
  ultimately show ?case
    using Cons.IH [OF wf] by (simp add: dx jar_Import_def)
qed (simp add: jar_Import_def import_entries_def)

lemma lookup_ImportV4:
  "jar_wf j \<Longrightarrow> jar_lookup (jar_ImportV4 now cs j) = jar_lookup j ++ map_of (rev (import_v4_entries now cs))"
  using fold_put_filter [of "\<lambda>c. expired_at now (cs_Expires c)" "imported_v4_entry now" cs j]
    jar_store.lookup_puts [of j "import_v4_entries now cs"]
  by (simp add: jar_ImportV4_def import_v4_def [abs_def] import_v4_entries_def)

lemma lookup_Delete:
  assumes "jar_wf j"
  shows "jar_lookup (jar_Delete n d j) =
    spec_restrict (\<lambda>dk c. cd_Name c \<noteq> n \<or> (d \<noteq> '''' \<and> fst dk \<noteq> to_lower d)) (jar_lookup j)"
proof (cases "d = ''''")
  case True
  then show ?thesis
    using assms by (auto simp: fun_eq_iff jar_Delete_def jar_lookup_prune spec_restrict_def split: option.splits)
next
  case False
  have "jar_lookup (jar_Delete n d j) (e, k) =
    spec_restrict (\<lambda>dk c. cd_Name c \<noteq> n \<or> fst dk \<noteq> to_lower d) (jar_lookup j) (e, k)" for e k
  proof -
    have "table_of (jar_Delete n d j) e =
        (if e = to_lower d then filter (\<lambda>(k, c). cd_Name c \<noteq> n) (table_of j e) else table_of j e)"
      using False
      by (auto simp: jar_Delete_def Let_def table_of_delete table_of_def split: option.splits)
    then show ?thesis
      using assms
      by (auto simp: jar_lookup_def spec_restrict_def map_of_filter_val jar_wf_table split: option.splits)
  qed
  with False show ?thesis by (auto simp: fun_eq_iff)
qed

lemma lookup_Set: "jar_lookup (jar_Set now h c sec j) = spec_set now h c sec (jar_lookup j)"
  by (auto simp: jar_Set_def spec_set_def Let_def lookup_put_cookie split: option.splits list.splits)

text \<open>C12.
  Every operation of the jar refines its specification: through \<open>jar_lookup\<close>, which forgets
  how the tables are laid out, setting, deleting, clearing, expiring and importing are the map
  operations of \<open>spec_step\<close>.\<close>

theorem jar_refines_spec:
  assumes "jar_wf j"
  shows "jar_lookup (jar_step op j) = spec_step op (jar_lookup j)"
proof (cases op)
  case (OpClearExpired now)
  with assms show ?thesis
    by (auto simp: fun_eq_iff jar_ClearExpired_def jar_lookup_prune spec_restrict_def split: option.splits)
qed (use assms in \<open>auto simp: lookup_Set lookup_Delete jar_Clear_def jar_SetSimple_def Let_def
    lookup_put_cookie lookup_Import lookup_ImportV4\<close>)

theorem jar_refines_spec_witness:
  "jar_wf demo_jar \<and>
   jar_lookup (jar_step (OpDelete ''sid'' ''Shop.test'') demo_jar) =
     spec_step (OpDelete ''sid'' ''Shop.test'') (jar_lookup demo_jar)"
  using jar_wf_demo_jar jar_refines_spec [OF jar_wf_demo_jar, of "OpDelete ''sid'' ''Shop.test''"] by blast

section \<open>Matching rules over labels and segments\<close>

lemma split_on_append_sep: "split_on d (p @ d # s) = split_on d p @ split_on d s"
proof (induction p)
  case (Cons c p)
  then show ?case by (cases "split_on d p") auto
qed simp

lemma split_on_inj: "split_on d s = split_on d t \<Longrightarrow> s = t"
  by (metis join_split)

lemma join_with_append: "ps \<noteq> [] \<Longrightarrow> qs \<noteq> [] \<Longrightarrow> join_with [d] (ps @ qs) = join_with [d] ps @ d # join_with [d] qs"
proof (induction ps)
  case (Cons p ps)
  then show ?case by (cases ps; cases qs) auto
qed simp

lemma split_on_append_iff:
  assumes "ps \<noteq> []"
  shows "split_on d s = split_on d a @ ps \<longleftrightarrow> (\<exists>b. s = a @ d # b \<and> split_on d b = ps)"
proof
  assume eq: "split_on d s = split_on d a @ ps"
  then have s: "s = a @ d # join_with [d] ps"
    using join_with_append [OF split_on_not_Nil assms, of d d a] by (metis join_split)
  with eq have "split_on d (join_with [d] ps) = ps" by (simp add: split_on_append_sep)
  with s show "\<exists>b. s = a @ d # b \<and> split_on d b = ps" by blast
qed (auto simp: split_on_append_sep)

lemma split_on_prefix_iff: "(s = a \<or> (\<exists>b. s = a @ d # b)) \<longleftrightarrow> (\<exists>more. split_on d s = split_on d a @ more)"
proof
  assume "\<exists>more. split_on d s = split_on d a @ more"
  then obtain more where m: "split_on d s = split_on d a @ more" by blast
  show "s = a \<or> (\<exists>b. s = a @ d # b)"
  proof (cases "more = []")
    case True
    with m have "s = a" by (auto intro: split_on_inj)
    then show ?thesis ..
  next
    case False
    with m show ?thesis by (auto simp: split_on_append_iff)
  qed
qed (auto simp: split_on_append_sep)

lemma isDomainMatch_labels:
  "isDomainMatch host d \<longleftrightarrow> (\<exists>labels. split_on CHR ''.'' host = labels @ split_on CHR ''.'' d)"
proof
  assume "isDomainMatch host d"
  then consider "host = d" | p where "host = p @ CHR ''.'' # d"
    by (auto simp: isDomainMatch_def has_suffix_iff)
  then show "\<exists>labels. split_on CHR ''.'' host = labels @ split_on CHR ''.'' d"
    by cases (auto simp: split_on_append_sep intro: exI [of _ "[]"])
next
  assume "\<exists>labels. split_on CHR ''.'' host = labels @ split_on CHR ''.'' d"
  then obtain ls where ls: "split_on CHR ''.'' host = ls @ split_on CHR ''.'' d" by blast
  show "isDomainMatch host d"
  proof (cases "ls = []")
    case True
    with ls show ?thesis by (auto simp: isDomainMatch_def dest: split_on_inj)
  next
    case False
    have "host = join_with ''.'' (ls @ split_on CHR ''.'' d)" using ls by (metis join_split)
    then have "host = join_with ''.'' ls @ CHR ''.'' # d" using False by (simp add: join_with_append)
    then show ?thesis by (simp add: isDomainMatch_def has_suffix_iff)
  qed
qed

lemma isPathMatch_segments:
  "isPathMatch rp cp \<longleftrightarrow>
     (\<exists>more. split_on CHR ''/'' rp =
        (if has_suffix cp ''/'' then butlast (split_on CHR ''/'' cp) else split_on CHR ''/'' cp) @ more \<and>
        (has_suffix cp ''/'' \<longrightarrow> more \<noteq> []))"
proof (cases "has_suffix cp ''/''")
  case True
  then obtain p where cp: "cp = p @ [CHR ''/'']" by (auto simp: has_suffix_iff)
  have "isPathMatch rp cp \<longleftrightarrow> (\<exists>b. rp = p @ CHR ''/'' # b)"
    using True by (auto simp: isPathMatch_def has_prefix_iff cp)
  also have "\<dots> \<longleftrightarrow> (\<exists>more. more \<noteq> [] \<and> split_on CHR ''/'' rp = split_on CHR ''/'' p @ more)"
    using split_on_append_iff split_on_not_Nil by metis
  finally show ?thesis
    using True by (auto simp: cp split_on_append_sep)
next
  case False
  have "isPathMatch rp cp \<longleftrightarrow> rp = cp \<or> (\<exists>b. rp = cp @ CHR ''/'' # b)"
  proof -
    have "has_prefix rp cp \<and> length cp < length rp \<and> rp ! length cp = CHR ''/'' \<longleftrightarrow>
      (\<exists>b. rp = cp @ CHR ''/'' # b)"
    proof
      assume "has_prefix rp cp \<and> length cp < length rp \<and> rp ! length cp = CHR ''/''"
      then obtain t where t: "rp = cp @ t" "t \<noteq> []" "t ! 0 = CHR ''/''"
        by (auto simp: has_prefix_iff nth_append)
      then show "\<exists>b. rp = cp @ CHR ''/'' # b" by (cases t) auto
    qed (auto simp: nth_append)
    then show ?thesis using False by (auto simp: isPathMatch_def)
  qed
  also have "\<dots> \<longleftrightarrow> (\<exists>more. split_on CHR ''/'' rp = split_on CHR ''/'' cp @ more)"
    by (rule split_on_prefix_iff)
  finally show ?thesis using False by simp
qed

text \<open>
  The byte-level matching tests are the label and segment tests of RFC 6265: a host matches a
  domain exactly when the domain's labels are a suffix of the host's labels, and a request
  path matches a cookie path exactly when the cookie path's segments (without the empty one
  after a final slash, which asks for at least one more) are a prefix of the request's.\<close>

theorem matching_by_segments:
  "(isDomainMatch host d \<longleftrightarrow> (\<exists>labels. split_on CHR ''.'' host = labels @ split_on CHR ''.'' d)) \<and>
   (isPathMatch rp cp \<longleftrightarrow>
     (\<exists>more. split_on CHR ''/'' rp =
        (if has_suffix cp ''/'' then butlast (split_on CHR ''/'' cp) else split_on CHR ''/'' cp) @ more \<and>
        (\<not> has_suffix cp ''/'' \<or> more \<noteq> [])))"
  using isDomainMatch_labels [of host d] isPathMatch_segments [of rp cp] by simp

text \<open>\<open>www.ex.com\<close> matches \<open>ex.com\<close>, \<open>wwwex.com\<close> does not; \<open>/a/b\<close> is below \<open>/a/\<close> and \<open>/a\<close>,
  \<open>/ab\<close> is not.\<close>

theorem matching_by_segments_witness:
  "(\<exists>labels. split_on CHR ''.'' ''www.ex.com'' = labels @ split_on CHR ''.'' ''ex.com'') \<and>
   \<not> (\<exists>labels. split_on CHR ''.'' ''wwwex.com'' = labels @ split_on CHR ''.'' ''ex.com'') \<and>
   (\<exists>more. split_on CHR ''/'' ''/a/b'' = butlast (split_on CHR ''/'' ''/a/'') @ more \<and> more \<noteq> []) \<and>
   isPathMatch ''/a/b'' ''/a'' \<and> \<not> isPathMatch ''/ab'' ''/a''"
proof -
  have dom: "isDomainMatch ''www.ex.com'' ''ex.com''" "\<not> isDomainMatch ''wwwex.com'' ''ex.com''"
    and path: "isPathMatch ''/a/b'' ''/a/''" "has_suffix ''/a/'' ''/''"
      "isPathMatch ''/a/b'' ''/a''" "\<not> isPathMatch ''/ab'' ''/a''"
    by code_simp+
  show ?thesis
    using dom path
      matching_by_segments [of "''www.ex.com''" "''ex.com''" "''/a/b''" "''/a/''"]
      matching_by_segments [of "''wwwex.com''" "''ex.com''" "''/ab''" "''/a''"]
    by simp
qed

section \<open>Isolation between hosts\<close>

text \<open>The operations a session performs on its own jar between imports.\<close>

fun own_op :: "jar_op \<Rightarrow> bool" where
  "own_op (OpSet now h c sec) = True"
| "own_op (OpDelete n d) = True"
| "own_op OpClear = True"
| "own_op (OpClearExpired now) = True"
| "own_op _ = False"

definition set_by :: "jar_op set \<Rightarrow> string \<Rightarrow> CookieData \<Rightarrow> bool" where
  "set_by S d c \<longleftrightarrow>
     (\<exists>t h c0 s. OpSet t h c0 s \<in> S \<and> cd_Name c = cd_Name c0 \<and> cd_Value c = cd_Value c0 \<and>
        (cd_Secure c \<longrightarrow> s) \<and> cookie_scope (normalize_host h) c0 = Some (d, cd_HostOnly c))"

definition jar_from :: "jar_op set \<Rightarrow> jar \<Rightarrow> bool" where
  "jar_from S j \<longleftrightarrow> jar_wf j \<and> (\<forall>d k c. jar_lookup j (d, k) = Some c \<longrightarrow> set_by S d c)"

lemma jar_from_step: "jar_from S j \<Longrightarrow> own_op op \<and> op \<in> S \<Longrightarrow> jar_from S (jar_step op j)"
proof (cases op)
  case (OpSet t h c s)
  assume j: "jar_from S j" and op: "own_op op \<and> op \<in> S"
  have "set_by S d x" if "spec_set t h c s (jar_lookup j) (d, k) = Some x" for d k x
    using that j op
    by (auto simp: spec_set_def jar_from_def OpSet Let_def split: option.splits if_splits)
      (fastforce simp: set_by_def)+
  with j show ?thesis by (auto simp: jar_from_def OpSet jar_wf_Set lookup_Set)
qed (auto simp: jar_from_def jar_wf_Delete lookup_Delete spec_restrict_def jar_Clear_def
    jar_ClearExpired_def jar_wf_prune jar_lookup_prune split: option.splits if_splits)

interpretation jar_own: started_machine jar_step "\<lambda>op. own_op op \<and> op \<in> S" "jar_from S" NewCookieJar
  for S
  by unfold_locales (auto simp: jar_from_step, simp add: jar_from_def NewCookieJar_def)

lemma domain_cookie_match: "domainMatchesHost (CHR ''.'' # d) host \<Longrightarrow> isDomainMatch host d"
  by (auto simp: domainMatchesHost_def isDomainMatch_def has_suffix_iff)



section \<open>Export and import\<close>

definition coherent :: "string \<Rightarrow> string \<Rightarrow> CookieData \<Rightarrow> bool" where
  "coherent d k c \<longleftrightarrow> cd_Domain c = d \<and> cd_Path c \<noteq> [] \<and> k = cookieKey (cd_Path c) (cd_Name c) \<and>
     (cd_HostOnly c \<longleftrightarrow> \<not> has_prefix d ''.'')"

definition coherent_jar :: "jar \<Rightarrow> bool" where
  "coherent_jar j \<longleftrightarrow> jar_wf j \<and> (\<forall>d k c. jar_lookup j (d, k) = Some c \<longrightarrow> coherent d k c)"

text \<open>The operations that name a domain; a cookie for every host (\<open>SetSimple\<close> without one) is excluded.\<close>

fun scoped_op :: "jar_op \<Rightarrow> bool" where
  "scoped_op (OpSet now h c sec) = (\<not> has_prefix (normalize_host h) ''.'')"
| "scoped_op (OpSetSimple now n v d p sec ho ss ma e) = (d \<noteq> [])"
| "scoped_op (OpImport now cs) = list_all (\<lambda>(d, xs). list_all (\<lambda>c. cs_Domain c = d) xs) cs"
| "scoped_op (OpImportV4 now cs) = list_all (\<lambda>c. cs_Domain c \<noteq> []) cs"
| "scoped_op _ = True"

lemma to_lower_empty [simp]: "to_lower s = [] \<longleftrightarrow> s = []"
  by (simp add: to_lower_def)

lemma coherent_import:
  "scoped_op (OpImport now cs) \<Longrightarrow> ((d, k), c) \<in> set (import_entries now cs) \<Longrightarrow> coherent d k c"
  by (auto simp: import_entries_def imported_entry_def coherent_def Let_def list_all_iff split: if_splits)

lemma coherent_import_v4:
  "scoped_op (OpImportV4 now cs) \<Longrightarrow> ((d, k), c) \<in> set (import_v4_entries now cs) \<Longrightarrow> coherent d k c"
  by (auto simp: import_v4_entries_def imported_v4_entry_def coherent_def Let_def list_all_iff split: if_splits)

lemma coherent_overlay:
  assumes "\<And>d k c. m (d, k) = Some c \<Longrightarrow> coherent d k c"
    and "\<And>d k c. ((d, k), c) \<in> set es \<Longrightarrow> coherent d k c"
    and "(m ++ map_of (rev es)) (d, k) = Some c"
  shows "coherent d k c"
  using assms(3) by (auto simp: map_add_Some_iff dest!: map_of_SomeD intro: assms(1,2))

lemma coherent_step: "coherent_jar j \<Longrightarrow> scoped_op op \<Longrightarrow> coherent_jar (jar_step op j)"
proof (cases op)
  case (OpSet now h c sec)
  assume j: "coherent_jar j" and op: "scoped_op op"
  have "coherent d k x" if "spec_set now h c sec (jar_lookup j) (d, k) = Some x" for d k x
    using that j op
    by (auto simp: spec_set_def coherent_jar_def coherent_def OpSet Let_def cookie_scope_def
        split: option.splits if_splits)
  with j show ?thesis by (auto simp: coherent_jar_def OpSet jar_wf_Set lookup_Set)
next
  case (OpImport now cs)
  assume j: "coherent_jar j" and op: "scoped_op op"
  have "coherent d k c" if "(jar_lookup j ++ map_of (rev (import_entries now cs))) (d, k) = Some c" for d k c
    by (rule coherent_overlay [OF _ _ that])
      (use j op in \<open>auto simp: coherent_jar_def OpImport intro: coherent_import\<close>)
  with j show ?thesis by (simp add: coherent_jar_def OpImport jar_wf_Import lookup_Import)
next
  case (OpImportV4 now cs)
  assume j: "coherent_jar j" and op: "scoped_op op"
  have "coherent d k c" if "(jar_lookup j ++ map_of (rev (import_v4_entries now cs))) (d, k) = Some c" for d k c
    by (rule coherent_overlay [OF _ _ that])
      (use j op in \<open>auto simp: coherent_jar_def OpImportV4 intro: coherent_import_v4\<close>)
  with j show ?thesis by (simp add: coherent_jar_def OpImportV4 jar_wf_ImportV4 lookup_ImportV4)
qed (auto simp: coherent_jar_def jar_wf_Delete lookup_Delete spec_restrict_def jar_Clear_def
    jar_wf_SetSimple jar_SetSimple_def lookup_put_cookie Let_def coherent_def jar_wf_put
    jar_ClearExpired_def jar_wf_prune jar_lookup_prune split: option.splits if_splits)

interpretation jar_scoped: started_machine jar_step scoped_op coherent_jar NewCookieJar
  by unfold_locales (auto simp: coherent_step, simp add: coherent_jar_def NewCookieJar_def)

lemma imported_entry_to_state:
  "coherent d k c \<Longrightarrow> imported_entry now d (to_state c) = ((d, k), c)"
  by (auto simp: coherent_def imported_entry_def to_state_def Let_def)

lemma import_export_entries:
  assumes "coherent_jar j"
  shows "import_entries now (jar_Export now j) =
    filter (\<lambda>(dk, c). \<not> expired_at now (cd_Expires c)) (jar_entries j)"
proof -
  have coh: "\<forall>e \<in> set (jar_entries j). coherent (fst (fst e)) (snd (fst e)) (snd e)"
    using assms in_entries_lookup [of j] by (auto simp: coherent_jar_def)
  then show ?thesis
  proof (induction j)
    case (Cons dt j)
    obtain d t where dt: "dt = (d, t)" by (cases dt)
    have coht: "\<forall>(k, c) \<in> set t. coherent d k c"
      using Cons.prems by (force simp: dt jar_entries_Cons)
    have dead: "\<forall>x \<in> set (live_states now t). \<not> expired_at now (cs_Expires x)"
      by (auto simp: live_states_def to_state_def)
    have "map (imported_entry now d) (live_states now t) =
        map (\<lambda>(k, c). ((d, k), c)) (filter (\<lambda>(k, c). \<not> expired_at now (cd_Expires c)) t)"
      using coht by (auto simp: live_states_def imported_entry_to_state)
    then have t: "import_entries now [(d, live_states now t)] =
        filter (\<lambda>(dk, c). \<not> expired_at now (cd_Expires c)) (map (\<lambda>(k, c). ((d, k), c)) t)"
      using dead unfolding import_entries_def
      by (subst flat_imports) (simp add: filter_map comp_def split_def)
    have "import_entries now (jar_Export now (dt # j)) =
        import_entries now [(d, live_states now t)] @ import_entries now (jar_Export now j)"
      by (simp add: import_entries_def jar_Export_def dt)
    with t Cons show ?case by (simp add: jar_entries_Cons dt)
  qed (simp add: import_entries_def jar_Export_def)
qed

lemma jar_restored:
  assumes coh: "coherent_jar j"
  shows "jar_lookup (jar_Import now (jar_Export now j) NewCookieJar) =
    spec_restrict (\<lambda>dk c. \<not> expired_at now (cd_Expires c)) (jar_lookup j)"
proof -
  have wf: "map_wf (jar_entries j)" "jar_wf j"
    using coh by (simp_all add: coherent_jar_def map_wf_jar_entries)
  have "jar_lookup (jar_Import now (jar_Export now j) NewCookieJar) =
      map_of (rev (filter (\<lambda>(dk, c). \<not> expired_at now (cd_Expires c)) (jar_entries j)))"
    using import_export_entries [OF coh, of now] by (simp add: lookup_Import NewCookieJar_def)
  also have "\<dots> = map_of (filter (\<lambda>(dk, c). \<not> expired_at now (cd_Expires c)) (jar_entries j))"
    using map_wf_filter [OF wf(1)] by (intro map_of_inject_set [THEN iffD2]) (auto simp: map_wf_def rev_map [symmetric])
  finally show ?thesis
    using map_of_filter_val [OF wf(1), of "\<lambda>dk c. \<not> expired_at now (cd_Expires c)"]
    by (auto simp: fun_eq_iff spec_restrict_def map_of_jar_entries [OF wf(2)])
qed

text \<open>
  Export and import are inverse on the jars a session builds with scoped cookies: importing an
  export into a new jar gives a jar with the same cookies under the same domains and keys,
  every field included, less those that have expired.\<close>

theorem export_import_roundtrip:
  assumes "list_all scoped_op ops"
  shows "jar_lookup (jar_Import now (jar_Export now (fold jar_step ops NewCookieJar)) NewCookieJar) =
    spec_restrict (\<lambda>dk c. \<not> expired_at now (cd_Expires c)) (jar_lookup (fold jar_step ops NewCookieJar))"
  using jar_scoped.reach_inv [OF assms] by (rule jar_restored)

theorem export_import_roundtrip_witness:
  "list_all scoped_op [OpSetSimple 5 ''a'' ''1'' ''Shop.test'' [] True False [] 0 None] \<and>
   jar_lookup (jar_Import 9 (jar_Export 9 (fold jar_step
      [OpSetSimple 5 ''a'' ''1'' ''Shop.test'' [] True False [] 0 None] NewCookieJar)) NewCookieJar) =
   spec_restrict (\<lambda>dk c. \<not> expired_at 9 (cd_Expires c)) (jar_lookup (fold jar_step
      [OpSetSimple 5 ''a'' ''1'' ''Shop.test'' [] True False [] 0 None] NewCookieJar))"
  using export_import_roundtrip [of "[OpSetSimple 5 ''a'' ''1'' ''Shop.test'' [] True False [] 0 None]" 9]
  by simp

text \<open>
  A cookie set for every host (\<open>SetSimple\<close> with an empty domain) is lost by a save and a
  load: \<open>Get\<close> returns it for any host before, but \<open>Import\<close> marks it host-only (its domain has no
  leading dot), so that afterwards it is returned for no host with a name. \<open>ImportV4\<close>, which
  excludes the empty domain from that test, keeps it.\<close>

theorem global_cookie_lost_by_import:
  "let j = jar_SetSimple 5 ''a'' ''1'' [] [] False False [] 0 None NewCookieJar;
       j' = jar_Import 9 (jar_Export 9 j) NewCookieJar;
       j4 = jar_ImportV4 9 (jar_GetAll 9 j) NewCookieJar in
   (\<forall>host. map cd_Name (jar_Get 9 host ''/'' sec j) = [''a'']) \<and>
   (\<forall>host. normalize_host host = [] \<or> jar_Get 9 host ''/'' sec j' = []) \<and>
   (\<forall>host. map cd_Name (jar_Get 9 host ''/'' sec j4) = [''a''])"
proof -
  let ?j = "jar_SetSimple 5 ''a'' ''1'' [] [] False False [] 0 None NewCookieJar"
  let ?c = "\<lambda>ho t. \<lparr>cd_Name = ''a'', cd_Value = ''1'', cd_Domain = [], cd_HostOnly = ho, cd_Path = ''/'',
    cd_Expires = None, cd_MaxAge = 0, cd_Secure = False, cd_HttpOnly = False, cd_SameSite = [],
    cd_CreatedAt = t\<rparr>"
  have j: "?j = [([], [(cookieKey ''/'' ''a'', ?c False 5)])]"
    by (simp add: jar_SetSimple_def put_cookie_def NewCookieJar_def table_of_def Let_def)
  have j': "jar_Import 9 (jar_Export 9 ?j) NewCookieJar = [([], [(cookieKey ''/'' ''a'', ?c True 5)])]"
    unfolding j by code_simp
  have j4: "jar_ImportV4 9 (jar_GetAll 9 ?j) NewCookieJar = [([], [(cookieKey ''/'' ''a'', ?c False 9)])]"
    unfolding j by code_simp
  show ?thesis
    unfolding Let_def j' j4 unfolding j
    by (auto simp: jar_Get_def jar_matches_def domainMatchesHost_def cookie_applies_iff isPathMatch_def
        sort_slice_def)
qed

end
