(* ===== verification/Base64.thy ===== *)
theory Base64
  imports Prelude
begin

text \<open>
  Base64, twice: the hand-written codec of the C bindings (\<open>encodeBase64\<close>, \<open>decodeBase64\<close>,
  \<open>trimRight\<close> in \<open>bindings/clib/sensor.go\<close>) and the strict \<open>base64.StdEncoding\<close> of the Go
  library, through which tickets and session states are saved. Bytes are \<open>8 word\<close>, the group
  accumulator \<open>n\<close> is a \<open>32 word\<close>.
\<close>

unbundle bit_operations_syntax

definition base64Chars :: string where
  "base64Chars = ''ABCDEFGHIJKLMNOPQRSTUVWXYZabcdefghijklmnopqrstuvwxyz0123456789+/''"

definition base64_char :: "byte \<Rightarrow> char" where
  "base64_char v = base64Chars ! unat v"

text \<open>\<open>decodeTable\<close>: the position of a character in the alphabet.\<close>

definition decodeTable :: "char \<Rightarrow> 32 word option" where
  "decodeTable c = map_option of_nat (index_of base64Chars [c])"

section \<open>Encoding\<close>

text \<open>The four six-bit values of a group; a missing byte is zero.\<close>

definition sextet0 :: "byte \<Rightarrow> byte" where
  "sextet0 b0 = drop_bit 2 b0"

definition sextet1 :: "byte \<Rightarrow> byte \<Rightarrow> byte" where
  "sextet1 b0 b1 = push_bit 4 (b0 AND 0x03) OR drop_bit 4 b1"

definition sextet2 :: "byte \<Rightarrow> byte \<Rightarrow> byte" where
  "sextet2 b1 b2 = push_bit 2 (b1 AND 0x0f) OR drop_bit 6 b2"

definition sextet3 :: "byte \<Rightarrow> byte" where
  "sextet3 b2 = b2 AND 0x3f"

fun encodeBase64 :: "byte list \<Rightarrow> string" where
  "encodeBase64 [] = []"
| "encodeBase64 [b0] =
     [base64_char (sextet0 b0), base64_char (sextet1 b0 0), CHR ''='', CHR ''='']"
| "encodeBase64 [b0, b1] =
     [base64_char (sextet0 b0), base64_char (sextet1 b0 b1), base64_char (sextet2 b1 0), CHR ''='']"
| "encodeBase64 (b0 # b1 # b2 # data) =
     base64_char (sextet0 b0) # base64_char (sextet1 b0 b1) #
     base64_char (sextet2 b1 b2) # base64_char (sextet3 b2) # encodeBase64 data"

section \<open>The decoder of the bindings\<close>

definition trimRight :: "string \<Rightarrow> string \<Rightarrow> string" where
  "trimRight s cutset = rev (dropWhile (\<lambda>c. c \<in> set cutset) (rev s))"

text \<open>One group: characters outside the alphabet are skipped, \<open>count\<close> counts the others.\<close>

definition add_char :: "32 word \<times> nat \<Rightarrow> char \<Rightarrow> 32 word \<times> nat" where
  "add_char nc c =
     (case decodeTable c of
        Some v \<Rightarrow> (push_bit 6 (fst nc) OR v, snd nc + 1)
      | None \<Rightarrow> nc)"

definition group_bytes :: "32 word \<times> nat \<Rightarrow> byte list" where
  "group_bytes nc =
     (let n = push_bit (6 * (4 - snd nc)) (fst nc) in
      (if snd nc \<ge> 2 then [ucast (drop_bit 16 n)] else []) @
      (if snd nc \<ge> 3 then [ucast (drop_bit 8 n)] else []) @
      (if snd nc \<ge> 4 then [ucast n] else []))"

text \<open>The loop over the groups; \<open>room\<close> is \<open>len(result) - j\<close>.\<close>

function decode_loop :: "nat \<Rightarrow> string \<Rightarrow> byte list" where
  "decode_loop room s =
     (if s = [] then []
      else let bs = take room (group_bytes (foldl add_char (0, 0) (take 4 s)))
           in bs @ decode_loop (room - length bs) (drop 4 s))"
  by pat_completeness auto
termination by (relation "measure (\<lambda>(room, s). length s)") auto

declare decode_loop.simps [simp del]

definition decodeBase64 :: "string \<Rightarrow> byte list" where
  "decodeBase64 s = (let s = trimRight s ''='' in decode_loop (length s * 3 div 4) s)"

section \<open>\<open>base64.StdEncoding\<close>\<close>

definition b64_byte1 :: "32 word \<Rightarrow> 32 word \<Rightarrow> byte" where
  "b64_byte1 a b = ucast (push_bit 2 a OR drop_bit 4 b)"

definition b64_byte2 :: "32 word \<Rightarrow> 32 word \<Rightarrow> byte" where
  "b64_byte2 b c = ucast (push_bit 4 b OR drop_bit 2 c)"

definition b64_byte3 :: "32 word \<Rightarrow> 32 word \<Rightarrow> byte" where
  "b64_byte3 c d = ucast (push_bit 6 c OR d)"

fun std_quanta :: "string \<Rightarrow> byte list option" where
  "std_quanta [] = Some []"
| "std_quanta (a # b # c # d # rest) =
     (case (decodeTable a, decodeTable b) of
        (Some va, Some vb) \<Rightarrow>
          (if c = CHR ''='' then if d = CHR ''='' \<and> rest = [] then Some [b64_byte1 va vb] else None
           else case decodeTable c of
              None \<Rightarrow> None
            | Some vc \<Rightarrow>
                if d = CHR ''='' then
                  if rest = [] then Some [b64_byte1 va vb, b64_byte2 vb vc] else None
                else case decodeTable d of
                    None \<Rightarrow> None
                  | Some vd \<Rightarrow>
                      map_option (\<lambda>bs. b64_byte1 va vb # b64_byte2 vb vc # b64_byte3 vc vd # bs)
                        (std_quanta rest))
      | _ \<Rightarrow> None)"
| "std_quanta _ = None"

text \<open>The library's decoder skips line breaks.\<close>

definition std_DecodeString :: "string \<Rightarrow> byte list option" where
  "std_DecodeString s = std_quanta (filter (\<lambda>c. c \<noteq> CHR 0x0A \<and> c \<noteq> CHR 0x0D) s)"

section \<open>Facts about the alphabet\<close>

lemma decodeTable_alphabet: "list_all (\<lambda>v. decodeTable (base64Chars ! v) = Some (of_nat v)) [0..<64]"
  by code_simp

lemma base64Chars_plain:
  "list_all (\<lambda>v. base64Chars ! v \<notin> {CHR ''='', CHR 0x0A, CHR 0x0D}) [0..<64]"
  by code_simp

lemma decodeTable_pad [simp]: "decodeTable CHR ''='' = None"
  by code_simp

lemma unat_less_64: "v < (64::byte) \<Longrightarrow> unat v < 64"
  using unat_mono [of v "64"] by simp

lemma decodeTable_char [simp]: "v < 64 \<Longrightarrow> decodeTable (base64_char v) = Some (ucast v)"
  using decodeTable_alphabet unat_less_64 [of v] by (simp add: base64_char_def list_all_iff)

lemma base64_char_plain [simp]:
  "v < 64 \<Longrightarrow> base64_char v \<noteq> CHR ''='' \<and> base64_char v \<noteq> CHR 0x0A \<and> base64_char v \<noteq> CHR 0x0D"
  using base64Chars_plain unat_less_64 [of v] by (simp add: base64_char_def list_all_iff)

lemma byte_less_64: "\<not> bit v 6 \<Longrightarrow> \<not> bit v 7 \<Longrightarrow> v < (64::byte)"
proof -
  assume "\<not> bit v 6" "\<not> bit v 7"
  then have "v = take_bit 6 v"
    by (intro bit_word_eqI) (auto simp: bit_take_bit_iff numeral_eq_Suc less_Suc_eq)
  then have "unat v = take_bit 6 (unat v)" by (metis unsigned_take_bit_eq)
  then have "unat v < 2 ^ 6" by (metis take_bit_nat_less_exp)
  then show "v < 64" by (simp add: word_less_nat_alt)
qed

lemma bit_byte_ge: "8 \<le> n \<Longrightarrow> \<not> bit (b :: byte) n"
  using bit_imp_le_length [of b n] by auto

lemma byte_eqI:
  "bit v 0 = bit w 0 \<Longrightarrow> bit v 1 = bit w 1 \<Longrightarrow> bit v 2 = bit w 2 \<Longrightarrow> bit v 3 = bit w 3 \<Longrightarrow>
   bit v 4 = bit w 4 \<Longrightarrow> bit v 5 = bit w 5 \<Longrightarrow> bit v 6 = bit w 6 \<Longrightarrow> bit v 7 = bit w 7 \<Longrightarrow> v = (w :: byte)"
proof (rule bit_word_eqI)
  fix n assume *: "bit v 0 = bit w 0" "bit v 1 = bit w 1" "bit v 2 = bit w 2" "bit v 3 = bit w 3"
    "bit v 4 = bit w 4" "bit v 5 = bit w 5" "bit v 6 = bit w 6" "bit v 7 = bit w 7"
    and "n < LENGTH(8)"
  from \<open>n < LENGTH(8)\<close> have "n < 8" by simp
  then consider "n = 0" | "n = 1" | "n = 2" | "n = 3" | "n = 4" | "n = 5" | "n = 6" | "n = 7"
    by linarith
  then show "bit v n \<longleftrightarrow> bit w n" by cases (simp_all only: *)
qed

lemmas sextet_defs = sextet0_def sextet1_def sextet2_def sextet3_def

lemma sextet_less:
  "sextet0 b0 < 64" "sextet1 b0 b1 < 64" "sextet2 b1 b2 < 64" "sextet3 b2 < 64"
  by (rule byte_less_64; auto simp: sextet_defs bit_simps bit_byte_ge)+

lemmas sextet_simps [simp] = sextet_less [THEN decodeTable_char] sextet_less [THEN base64_char_plain]

lemma b64_bytes [simp]:
  "b64_byte1 (ucast (sextet0 b0)) (ucast (sextet1 b0 b1)) = b0"
  "b64_byte2 (ucast (sextet1 b0 b1)) (ucast (sextet2 b1 b2)) = b1"
  "b64_byte3 (ucast (sextet2 b1 b2)) (ucast (sextet3 b2)) = b2"
  by (rule byte_eqI; simp add: b64_byte1_def b64_byte2_def b64_byte3_def sextet_defs bit_simps bit_byte_ge)+

lemma std_quanta_encode: "std_quanta (encodeBase64 d) = Some d"
  by (induction d rule: encodeBase64.induct) simp_all

lemma encode_no_breaks: "filter (\<lambda>c. c \<noteq> CHR 0x0A \<and> c \<noteq> CHR 0x0D) (encodeBase64 d) = encodeBase64 d"
  by (induction d rule: encodeBase64.induct) simp_all

section \<open>The two decoders agree\<close>

lemma decodeTable_bits: "decodeTable c = Some v \<Longrightarrow> 6 \<le> n \<Longrightarrow> \<not> bit v n"
proof -
  assume "decodeTable c = Some v" and n: "6 \<le> n"
  then obtain i where i: "index_of base64Chars [c] = Some i" "v = of_nat i"
    by (auto simp: decodeTable_def)
  have "length base64Chars = 64" by code_simp
  with index_of_Some [OF i(1)] have "i < 64"
    by (cases "i = 64") auto
  then have "take_bit 6 i = i" by (simp add: take_bit_eq_mod)
  then have "v = take_bit 6 v" using i(2) by (metis of_nat_take_bit)
  then have "bit v n \<longleftrightarrow> bit (take_bit 6 v) n" by simp
  then show ?thesis using n by (simp add: bit_take_bit_iff)
qed

lemma full_group:
  assumes "decodeTable a = Some va" "decodeTable b = Some vb" "decodeTable c = Some vc" "decodeTable d = Some vd"
  shows "group_bytes (foldl add_char (0, 0) [a, b, c, d]) = [b64_byte1 va vb, b64_byte2 vb vc, b64_byte3 vc vd]"
proof -
  note bits = assms [THEN decodeTable_bits]
  let ?n = "push_bit 6 (push_bit 6 (push_bit 6 va OR vb) OR vc) OR vd"
  have "ucast (drop_bit 16 ?n) = b64_byte1 va vb" "ucast (drop_bit 8 ?n) = b64_byte2 vb vc"
    "ucast ?n = b64_byte3 vc vd"
    by (rule byte_eqI; simp add: b64_byte1_def b64_byte2_def b64_byte3_def bit_simps bits)+
  with assms show ?thesis by (simp add: group_bytes_def add_char_def)
qed

lemma three_group:
  assumes "decodeTable a = Some va" "decodeTable b = Some vb" "decodeTable c = Some vc"
  shows "group_bytes (foldl add_char (0, 0) [a, b, c]) = [b64_byte1 va vb, b64_byte2 vb vc]"
proof -
  note bits = assms [THEN decodeTable_bits]
  let ?n = "push_bit 6 (push_bit 6 (push_bit 6 va OR vb) OR vc)"
  have "ucast (drop_bit 16 ?n) = b64_byte1 va vb" "ucast (drop_bit 8 ?n) = b64_byte2 vb vc"
    by (rule byte_eqI; simp add: b64_byte1_def b64_byte2_def bit_simps bits)+
  with assms show ?thesis by (simp add: group_bytes_def add_char_def)
qed

lemma two_group:
  assumes "decodeTable a = Some va" "decodeTable b = Some vb"
  shows "group_bytes (foldl add_char (0, 0) [a, b]) = [b64_byte1 va vb]"
proof -
  note bits = assms [THEN decodeTable_bits]
  have "ucast (drop_bit 16 (push_bit 12 (push_bit 6 va OR vb))) = b64_byte1 va vb"
    by (rule byte_eqI; simp add: b64_byte1_def bit_simps bits)
  with assms show ?thesis by (simp add: group_bytes_def add_char_def)
qed

lemma decode_loop_Nil [simp]: "decode_loop room [] = []"
  by (simp add: decode_loop.simps)

lemma trimRight_append:
  "trimRight (xs @ ys) cs = (if trimRight ys cs = [] then trimRight xs cs else xs @ trimRight ys cs)"
  by (auto simp: trimRight_def dropWhile_append)

lemma trimRight_keep: "c \<notin> set cs \<Longrightarrow> trimRight (xs @ [c]) cs = xs @ [c]"
  by (simp add: trimRight_def)

lemma trimRight_group:
  "d \<noteq> CHR ''='' \<Longrightarrow> trimRight (a # b # c # d # rest) ''='' = a # b # c # d # trimRight rest ''=''"
  using trimRight_append [of "[a, b, c, d]" rest "''=''"] trimRight_keep [of d "''=''" "[a, b, c]"] by auto

lemma alphabet_not_pad: "decodeTable c = Some v \<Longrightarrow> c \<noteq> CHR ''=''"
  by auto

lemma decode_loop_std:
  "std_quanta s = Some bs \<Longrightarrow> length (trimRight s ''='') * 3 div 4 \<le> room \<Longrightarrow>
   decode_loop room (trimRight s ''='') = bs"
proof (induction s arbitrary: bs room rule: std_quanta.induct)
  case 1
  then show ?case by (simp add: trimRight_def)
next
  case (2 a b c d rest)
  obtain va vb where ab: "decodeTable a = Some va" "decodeTable b = Some vb"
    using "2.prems"(1) by (auto split: option.splits)
  note pad = ab [THEN alphabet_not_pad]
  consider (one) "c = CHR ''=''" "d = CHR ''=''" "rest = []" "bs = [b64_byte1 va vb]"
    | (two) vc where "decodeTable c = Some vc" "d = CHR ''=''" "rest = []" "bs = [b64_byte1 va vb, b64_byte2 vb vc]"
    | (three) vc vd bs' where "decodeTable c = Some vc" "decodeTable d = Some vd" "std_quanta rest = Some bs'"
        "bs = b64_byte1 va vb # b64_byte2 vb vc # b64_byte3 vc vd # bs'"
    using "2.prems"(1) ab by (auto split: option.splits if_splits)
  then show ?case
  proof cases
    case one
    with pad have "trimRight (a # b # c # d # rest) ''='' = [a, b]" by (simp add: trimRight_def)
    with one "2.prems"(2) two_group [OF ab] show ?thesis by (simp add: decode_loop.simps [of room "[a, b]"] take_Cons')
  next
    case (two vc)
    with alphabet_not_pad have "trimRight (a # b # c # d # rest) ''='' = [a, b, c]" by (simp add: trimRight_def)
    with two "2.prems"(2) three_group [OF ab two(1)] show ?thesis
      by (simp add: decode_loop.simps [of room "[a, b, c]"] take_Cons')
  next
    case (three vc vd bs')
    then have t: "trimRight (a # b # c # d # rest) ''='' = a # b # c # d # trimRight rest ''=''"
      using alphabet_not_pad by (simp add: trimRight_group)
    have room: "3 \<le> room" "length (trimRight rest ''='') * 3 div 4 \<le> room - 3"
      using "2.prems"(2) by (simp_all add: t)
    have "decode_loop (room - 3) (trimRight rest ''='') = bs'"
      by (rule "2.IH" [OF _ ab(1) _ _ three(1) _ three(2,3) room(2)])
        (use three ab alphabet_not_pad in \<open>auto\<close>)
    with room(1) three full_group [OF ab three(1,2)] show ?thesis
      by (simp add: t decode_loop.simps [of room "a # b # c # d # _"] take_Cons' numeral_3_eq_3)
  qed
qed auto

lemma decode_std:
  "std_quanta s = Some bs \<Longrightarrow> decodeBase64 s = bs"
  by (simp add: decodeBase64_def Let_def decode_loop_std)

text \<open>
  The base64 codecs are inverse: decoding an encoding gives the bytes back, with the lenient
  decoder of the bindings as with the library's strict one. On every string without line
  breaks that the strict decoder accepts, the lenient decoder returns the same bytes.\<close>

theorem base64_roundtrip:
  "decodeBase64 (encodeBase64 data) = data \<and> std_DecodeString (encodeBase64 data) = Some data \<and>
   (std_quanta s = None \<or> std_quanta s = Some (decodeBase64 s))"
  using decode_std [OF std_quanta_encode] std_quanta_encode [of data] encode_no_breaks [of data]
    decode_std [of s]
  by (cases "std_quanta s") (auto simp: std_DecodeString_def)

text \<open>
  The decoder of the bindings never reports an error: characters outside the alphabet are
  skipped inside their group, so a corrupt text decodes to other bytes where the strict
  decoder refuses it.\<close>

theorem lenient_decoder_accepts_garbage:
  "decodeBase64 ''!!!!'' = [] \<and> std_DecodeString ''!!!!'' = None \<and>
   decodeBase64 ''AAA!AAAA'' = [0, 0, 0, 0, 0] \<and> std_DecodeString ''AAA!AAAA'' = None"
  by (simp add: decodeBase64_def trimRight_def decode_loop.simps) code_simp

end
