(* ===== verification/TlsCache.thy ===== *)
theory TlsCache
  imports Prelude Base64
begin

text \<open>
  The persistable TLS session cache, \<open>transport/tls_cache.go\<close>: a map of sessions with an access
  order, an optional distributed backend behind it, and export and import for saved sessions.
  The uTLS session functions are the fields of the parameter record \<open>utls\<close>; the backend is a
  function from keys to answers (for reads) and a log of writes. \<open>Put\<close> starts its backend write
  as a goroutine: the write is queued in \<open>sc_pending\<close> and run by a later step.
\<close>

section \<open>Keys\<close>

definition CacheKeyPrefixSession :: string where
  "CacheKeyPrefixSession = ''sensor:sessions''"

definition CacheKeyPrefixECH :: string where
  "CacheKeyPrefixECH = ''sensor:ech''"

definition FormatSessionCacheKey :: "string \<Rightarrow> string \<Rightarrow> string \<Rightarrow> string \<Rightarrow> string" where
  "FormatSessionCacheKey preset protocol host port =
     join_with '':'' [CacheKeyPrefixSession, preset, protocol, host, port]"

definition FormatSessionCacheKeyWithID ::
  "string \<Rightarrow> string \<Rightarrow> string \<Rightarrow> string \<Rightarrow> string \<Rightarrow> string" where
  "FormatSessionCacheKeyWithID sessionId preset protocol host port =
     (if sessionId = '''' then FormatSessionCacheKey preset protocol host port
      else join_with '':'' [CacheKeyPrefixSession, sessionId, preset, protocol, host, port])"

definition FormatECHCacheKey :: "string \<Rightarrow> string \<Rightarrow> string \<Rightarrow> string" where
  "FormatECHCacheKey preset host port = join_with '':'' [CacheKeyPrefixECH, preset, host, port]"

definition strip_scheme :: "string \<Rightarrow> string" where
  "strip_scheme key =
     (if length key > 8 \<and> take 8 key = ''https://'' then drop 8 key
      else if length key > 7 \<and> take 7 key = ''http://'' then drop 7 key else key)"

definition parseSessionKey :: "string \<Rightarrow> string \<times> string" where
  "parseSessionKey key0 =
     (let key = strip_scheme key0 in
      case last_index_of key '':'' of
        None \<Rightarrow> (key, ''443'')
      | Some lastColon \<Rightarrow> (take lastColon key, drop (lastColon + 1) key))"

section \<open>Serialized sessions\<close>

definition TLSSessionMaxAge :: duration where
  "TLSSessionMaxAge = 24 * hour"

definition TLSSessionCacheMaxSize :: nat where
  "TLSSessionCacheMaxSize = 32"

record TLSSessionState =
  ts_Ticket :: string
  ts_State :: string
  ts_CreatedAt :: time

text \<open>
  The uTLS library: \<open>ResumptionState\<close> fails or gives a ticket and a state, either of which may
  be nil; \<open>Bytes\<close> serializes a state and \<open>ParseSessionState\<close> reads it back.
\<close>

record ('cs, 'st) utls =
  ResumptionState :: "'cs \<Rightarrow> (byte list option \<times> 'st option) option"
  state_Bytes :: "'st \<Rightarrow> byte list option"
  ParseSessionState :: "byte list \<Rightarrow> 'st option"
  NewResumptionState :: "byte list \<Rightarrow> 'st \<Rightarrow> 'cs option"

datatype cache_error =
    ErrDecodeTicket | ErrDecodeState | ErrParseState | ErrResumption
  | ErrNilState | ErrGetState | ErrInvalidState | ErrSerialize | ErrBackend string

definition ToClientSessionState :: "('cs, 'st) utls \<Rightarrow> TLSSessionState \<Rightarrow> cache_error + 'cs" where
  "ToClientSessionState u s =
     (case std_DecodeString (ts_Ticket s) of
        None \<Rightarrow> Inl ErrDecodeTicket
      | Some ticket \<Rightarrow>
          (case std_DecodeString (ts_State s) of
             None \<Rightarrow> Inl ErrDecodeState
           | Some stateBytes \<Rightarrow>
               (case ParseSessionState u stateBytes of
                  None \<Rightarrow> Inl ErrParseState
                | Some state \<Rightarrow>
                    (case NewResumptionState u ticket state of
                       None \<Rightarrow> Inl ErrResumption
                     | Some cs \<Rightarrow> Inr cs))))"

definition NewTLSSessionState ::
  "('cs, 'st) utls \<Rightarrow> time \<Rightarrow> 'cs option \<Rightarrow> cache_error + TLSSessionState" where
  "NewTLSSessionState u now cs =
     (case cs of
        None \<Rightarrow> Inl ErrNilState
      | Some c \<Rightarrow>
          (case ResumptionState u c of
             None \<Rightarrow> Inl ErrGetState
           | Some (Some ticket, Some state) \<Rightarrow>
               (case state_Bytes u state of
                  None \<Rightarrow> Inl ErrSerialize
                | Some bs \<Rightarrow>
                    Inr \<lparr>ts_Ticket = encodeBase64 ticket, ts_State = encodeBase64 bs, ts_CreatedAt = now\<rparr>)
           | Some _ \<Rightarrow> Inl ErrInvalidState))"

section \<open>The cache\<close>

record 'cs cachedSession =
  cache_state :: "'cs option"
  createdAt :: time

record 'cs session_cache =
  sc_sessions :: "(string, 'cs cachedSession) gomap"
  sc_accessOrder :: "string list"
  sc_backend :: bool
  sc_preset :: string
  sc_protocol :: string
  sc_sessionId :: string
  sc_callback :: bool
  sc_pending :: "(string \<times> 'cs option) list"
  sc_written :: "(string \<times> TLSSessionState) list"
  sc_errors :: "(string \<times> string \<times> cache_error) list"

definition NewPersistableSessionCache :: "'cs session_cache" where
  "NewPersistableSessionCache =
     \<lparr>sc_sessions = [], sc_accessOrder = [], sc_backend = False, sc_preset = '''', sc_protocol = '''',
      sc_sessionId = '''', sc_callback = False, sc_pending = [], sc_written = [], sc_errors = []\<rparr>"

definition SetBackend :: "bool \<Rightarrow> string \<Rightarrow> string \<Rightarrow> bool \<Rightarrow> 'cs session_cache \<Rightarrow> 'cs session_cache" where
  "SetBackend backend preset protocol cb c =
     c\<lparr>sc_backend := backend, sc_preset := preset, sc_protocol := protocol, sc_callback := cb\<rparr>"

definition NewPersistableSessionCacheWithBackend ::
  "bool \<Rightarrow> string \<Rightarrow> string \<Rightarrow> bool \<Rightarrow> 'cs session_cache" where
  "NewPersistableSessionCacheWithBackend backend preset protocol cb =
     NewPersistableSessionCache\<lparr>sc_backend := backend, sc_preset := preset, sc_protocol := protocol,
       sc_callback := cb\<rparr>"

definition SetSessionIdentifier :: "string \<Rightarrow> 'cs session_cache \<Rightarrow> 'cs session_cache" where
  "SetSessionIdentifier sid c = c\<lparr>sc_sessionId := sid\<rparr>"

definition SetErrorCallback :: "bool \<Rightarrow> 'cs session_cache \<Rightarrow> 'cs session_cache" where
  "SetErrorCallback cb c = c\<lparr>sc_callback := cb\<rparr>"

definition reportError :: "string \<Rightarrow> string \<Rightarrow> cache_error \<Rightarrow> 'cs session_cache \<Rightarrow> 'cs session_cache" where
  "reportError operation key err c =
     (if sc_callback c then c\<lparr>sc_errors := sc_errors c @ [(operation, key, err)]\<rparr> else c)"

text \<open>The eviction loop ends because every round takes one key off the access order.\<close>

fun evict_loop :: "(string, 'v) gomap \<Rightarrow> string list \<Rightarrow> (string, 'v) gomap \<times> string list" where
  "evict_loop m [] = (m, [])"
| "evict_loop m (oldest # order) =
     (if length m > TLSSessionCacheMaxSize then evict_loop (AList.delete oldest m) order
      else (m, oldest # order))"

definition evictIfNeeded :: "'cs session_cache \<Rightarrow> 'cs session_cache" where
  "evictIfNeeded c =
     (let (m, order) = evict_loop (sc_sessions c) (sc_accessOrder c)
      in c\<lparr>sc_sessions := m, sc_accessOrder := order\<rparr>)"

definition move_last :: "'k \<Rightarrow> 'k list \<Rightarrow> 'k list" where
  "move_last key order = (if key \<in> set order then remove1 key order @ [key] else order)"

definition moveToEnd :: "string \<Rightarrow> 'cs session_cache \<Rightarrow> 'cs session_cache" where
  "moveToEnd key c = c\<lparr>sc_accessOrder := move_last key (sc_accessOrder c)\<rparr>"

definition store_session :: "string \<Rightarrow> 'cs option \<Rightarrow> time \<Rightarrow> 'cs session_cache \<Rightarrow> 'cs session_cache" where
  "store_session key cs t c =
     c\<lparr>sc_sessions := AList.update key \<lparr>cache_state = cs, createdAt = t\<rparr> (sc_sessions c)\<rparr>"

definition append_order :: "string \<Rightarrow> 'cs session_cache \<Rightarrow> 'cs session_cache" where
  "append_order key c = c\<lparr>sc_accessOrder := sc_accessOrder c @ [key]\<rparr>"

definition cache_Put :: "time \<Rightarrow> string \<Rightarrow> 'cs option \<Rightarrow> 'cs session_cache \<Rightarrow> 'cs session_cache" where
  "cache_Put now key cs c =
     (let c1 = (if map_of (sc_sessions c) key \<noteq> None
                then moveToEnd key (store_session key cs now c)
                else append_order key (store_session key cs now (evictIfNeeded c)))
      in if sc_backend c1 then c1\<lparr>sc_pending := sc_pending c1 @ [(key, cs)]\<rparr> else c1)"

text \<open>The goroutine: it reads the key fields when it runs; \<open>answer\<close> is the backend's error, if any.\<close>

definition putToBackend ::
  "('cs, 'st) utls \<Rightarrow> time \<Rightarrow> string option \<Rightarrow> string \<Rightarrow> 'cs option \<Rightarrow> 'cs session_cache \<Rightarrow> 'cs session_cache" where
  "putToBackend u now answer sessionKey cs c =
     (let (host, port) = parseSessionKey sessionKey in
      if host = '''' then c
      else case NewTLSSessionState u now cs of
          Inl e \<Rightarrow> reportError ''put_serialize'' sessionKey e c
        | Inr s \<Rightarrow>
            let backendKey = FormatSessionCacheKeyWithID (sc_sessionId c) (sc_preset c) (sc_protocol c) host port;
                c1 = c\<lparr>sc_written := sc_written c @ [(backendKey, s)]\<rparr>
            in case answer of
                None \<Rightarrow> c1
              | Some e \<Rightarrow> reportError ''put'' backendKey (ErrBackend e) c1)"

definition run_pending ::
  "('cs, 'st) utls \<Rightarrow> time \<Rightarrow> string option \<Rightarrow> nat \<Rightarrow> 'cs session_cache \<Rightarrow> 'cs session_cache" where
  "run_pending u now answer i c =
     (if i < length (sc_pending c) then
        let (key, cs) = sc_pending c ! i in
        putToBackend u now answer key cs
          (c\<lparr>sc_pending := take i (sc_pending c) @ drop (i + 1) (sc_pending c)\<rparr>)
      else c)"

type_synonym backend_get = "string \<Rightarrow> string + TLSSessionState option"

definition getFromBackend ::
  "('cs, 'st) utls \<Rightarrow> time \<Rightarrow> backend_get \<Rightarrow> string \<Rightarrow> 'cs session_cache \<Rightarrow>
   (cache_error + 'cs option) \<times> 'cs session_cache" where
  "getFromBackend u now bget sessionKey c =
     (let (host, port) = parseSessionKey sessionKey in
      if host = '''' then (Inr None, c)
      else case bget (FormatSessionCacheKeyWithID (sc_sessionId c) (sc_preset c) (sc_protocol c) host port) of
          Inl e \<Rightarrow> (Inl (ErrBackend e), c)
        | Inr None \<Rightarrow> (Inr None, c)
        | Inr (Some s) \<Rightarrow>
            if now - ts_CreatedAt s > TLSSessionMaxAge then (Inr None, c)
            else case ToClientSessionState u s of
                Inl e \<Rightarrow> (Inl e, c)
              | Inr cs \<Rightarrow>
                  (Inr (Some cs),
                   evictIfNeeded (append_order sessionKey (store_session sessionKey (Some cs) (ts_CreatedAt s) c))))"

definition cache_Get ::
  "('cs, 'st) utls \<Rightarrow> time \<Rightarrow> backend_get \<Rightarrow> string \<Rightarrow> 'cs session_cache \<Rightarrow>
   ('cs option \<times> bool) \<times> 'cs session_cache" where
  "cache_Get u now bget key c =
     (case map_of (sc_sessions c) key of
        Some s \<Rightarrow> ((cache_state s, True), moveToEnd key c)
      | None \<Rightarrow>
          if sc_backend c then
            (case getFromBackend u now bget key c of
               (Inl e, c1) \<Rightarrow> ((None, False), reportError ''get'' key e c1)
             | (Inr None, c1) \<Rightarrow> ((None, False), c1)
             | (Inr (Some cs), c1) \<Rightarrow> ((Some cs, True), c1))
          else ((None, False), c))"

definition export_session :: "('cs, 'st) utls \<Rightarrow> 'cs cachedSession \<Rightarrow> TLSSessionState option" where
  "export_session u s =
     (case NewTLSSessionState u (createdAt s) (cache_state s) of Inl _ \<Rightarrow> None | Inr t \<Rightarrow> Some t)"

definition cache_Export :: "('cs, 'st) utls \<Rightarrow> 'cs session_cache \<Rightarrow> (string, TLSSessionState) gomap" where
  "cache_Export u c =
     [(k, t). (k, s) \<leftarrow> sc_sessions c, t \<leftarrow> (case export_session u s of None \<Rightarrow> [] | Some t \<Rightarrow> [t])]"

definition import_session ::
  "('cs, 'st) utls \<Rightarrow> time \<Rightarrow> string \<times> TLSSessionState \<Rightarrow> 'cs session_cache \<Rightarrow> 'cs session_cache" where
  "import_session u now ks c =
     (case ks of (key, s) \<Rightarrow>
        if now - ts_CreatedAt s > TLSSessionMaxAge then c
        else case ToClientSessionState u s of
            Inl _ \<Rightarrow> c
          | Inr cs \<Rightarrow> append_order key (store_session key (Some cs) (ts_CreatedAt s) c))"

definition cache_Import ::
  "('cs, 'st) utls \<Rightarrow> time \<Rightarrow> (string, TLSSessionState) gomap \<Rightarrow> 'cs session_cache \<Rightarrow> 'cs session_cache" where
  "cache_Import u now sessions c = evictIfNeeded (fold (import_session u now) sessions c)"

definition cache_Clear :: "'cs session_cache \<Rightarrow> 'cs session_cache" where
  "cache_Clear c = c\<lparr>sc_sessions := [], sc_accessOrder := []\<rparr>"

definition cache_Count :: "'cs session_cache \<Rightarrow> nat" where
  "cache_Count c = length (sc_sessions c)"

section \<open>The operations as a machine\<close>

datatype 'cs cache_op =
    CachePut time string "'cs option"
  | CacheGet time backend_get string
  | CacheRun time "string option" nat
  | CacheImport time "(string, TLSSessionState) gomap"
  | CacheClear
  | CacheSetBackend bool string string bool
  | CacheSetId string
  | CacheSetCallback bool

fun cache_step :: "('cs, 'st) utls \<Rightarrow> 'cs cache_op \<Rightarrow> 'cs session_cache \<Rightarrow> 'cs session_cache" where
  "cache_step u (CachePut now k cs) c = cache_Put now k cs c"
| "cache_step u (CacheGet now bget k) c = snd (cache_Get u now bget k c)"
| "cache_step u (CacheRun now answer i) c = run_pending u now answer i c"
| "cache_step u (CacheImport now ss) c = cache_Import u now ss c"
| "cache_step u CacheClear c = cache_Clear c"
| "cache_step u (CacheSetBackend b p q cb) c = SetBackend b p q cb c"
| "cache_step u (CacheSetId sid) c = SetSessionIdentifier sid c"
| "cache_step u (CacheSetCallback cb) c = SetErrorCallback cb c"

text \<open>Every cached key can be evicted, and at most one session beyond the limit is held.\<close>

definition evictable :: "'cs session_cache \<Rightarrow> bool" where
  "evictable c \<longleftrightarrow> map_wf (sc_sessions c) \<and> dom (map_of (sc_sessions c)) \<subseteq> set (sc_accessOrder c)"

definition cache_wf :: "'cs session_cache \<Rightarrow> bool" where
  "cache_wf c \<longleftrightarrow> evictable c \<and> length (sc_sessions c) \<le> TLSSessionCacheMaxSize + 1"

lemma evict_loop_evictable:
  "map_wf m \<Longrightarrow> dom (map_of m) \<subseteq> set order \<Longrightarrow> evict_loop m order = (m', order') \<Longrightarrow>
   map_wf m' \<and> dom (map_of m') \<subseteq> set order' \<and> length m' \<le> TLSSessionCacheMaxSize"
proof (induction m order rule: evict_loop.induct)
  case (1 m)
  then have "m = []" by (cases m) (auto simp: fun_eq_iff split: if_splits)
  with 1 show ?case by simp
next
  case (2 m oldest order)
  show ?case
  proof (cases "length m > TLSSessionCacheMaxSize")
    case True
    have "dom (map_of (AList.delete oldest m)) \<subseteq> set order" using "2.prems"(2) by auto
    with True "2.IH" [OF True _ this] "2.prems" show ?thesis by simp
  qed (use 2 in auto)
qed

lemma evictIfNeeded_evictable:
  "evictable c \<Longrightarrow> evictable (evictIfNeeded c) \<and> length (sc_sessions (evictIfNeeded c)) \<le> TLSSessionCacheMaxSize"
  using evict_loop_evictable [of "sc_sessions c" "sc_accessOrder c"]
  by (auto simp: evictable_def evictIfNeeded_def split: prod.splits)

lemma set_move_last [simp]: "set (move_last k order) = set order"
  by (induction order) (auto simp: move_last_def split: if_splits)

lemma evictable_moveToEnd [simp]: "evictable (moveToEnd k c) = evictable c"
  by (simp add: evictable_def moveToEnd_def)

lemma evictable_add:
  "evictable c \<Longrightarrow> evictable (append_order k (store_session k cs t c))"
  by (auto simp: evictable_def append_order_def store_session_def)

lemma length_store: "map_wf m \<Longrightarrow> length (AList.update k v m) = (if map_of m k = None then length m + 1 else length m)"
proof (induction m)
  case (Cons e m)
  then show ?case by (cases e) auto
qed simp

lemma evictable_import: "evictable c \<Longrightarrow> evictable (import_session u now ks c)"
  by (auto simp: import_session_def evictable_add split: prod.splits sum.splits)

lemma evictable_imports: "evictable c \<Longrightarrow> evictable (fold (import_session u now) ss c)"
  by (induction ss arbitrary: c) (auto simp: evictable_import)

lemma cache_wf_same:
  "sc_sessions c' = sc_sessions c \<Longrightarrow> sc_accessOrder c' = sc_accessOrder c \<Longrightarrow> cache_wf c' = cache_wf c"
  by (simp add: cache_wf_def evictable_def)

lemma cache_wf_evicted: "evictable c \<Longrightarrow> cache_wf (evictIfNeeded c)"
  using evictIfNeeded_evictable [of c] by (simp add: cache_wf_def)

lemma cache_wf_Put: "cache_wf c \<Longrightarrow> cache_wf (cache_Put now k cs c)"
proof -
  assume wf: "cache_wf c"
  let ?hit = "moveToEnd k (store_session k cs now c)"
  let ?miss = "append_order k (store_session k cs now (evictIfNeeded c))"
  have "cache_wf ?hit" if "map_of (sc_sessions c) k \<noteq> None"
    using wf that by (auto simp: cache_wf_def evictable_def moveToEnd_def store_session_def length_store)
  moreover have "cache_wf ?miss"
    using wf evictIfNeeded_evictable [of c] evictable_add [of "evictIfNeeded c" k cs now]
    by (auto simp: cache_wf_def append_order_def store_session_def length_store evictable_def)
  ultimately show ?thesis
    by (auto simp: cache_Put_def Let_def intro: cache_wf_same [THEN iffD2, rotated 2])
qed

lemma sessions_reportError [simp]:
  "sc_sessions (reportError opn k e c) = sc_sessions c"
  "sc_accessOrder (reportError opn k e c) = sc_accessOrder c"
  by (simp_all add: reportError_def)

lemma cache_wf_Get: "cache_wf c \<Longrightarrow> cache_wf (snd (cache_Get u now bget k c))"
proof -
  assume wf: "cache_wf c"
  have "cache_wf (snd (getFromBackend u now bget k c))"
  proof -
    have "evictable c" using wf by (simp add: cache_wf_def)
    then have "cache_wf (evictIfNeeded (append_order k (store_session k cs t c)))" for cs t
      by (intro cache_wf_evicted evictable_add)
    with wf show ?thesis
      by (auto simp: getFromBackend_def Let_def split: prod.splits sum.splits option.splits)
  qed
  moreover have "cache_wf (moveToEnd k c)"
    using wf by (simp add: cache_wf_def) (simp add: moveToEnd_def)
  moreover have "cache_wf (reportError a b e c') = cache_wf c'" for a b e and c' :: "'a session_cache"
    by (rule cache_wf_same) simp_all
  ultimately show ?thesis
    using wf by (auto simp: cache_Get_def split: option.splits prod.splits sum.splits)
qed

lemma sessions_putToBackend:
  "sc_sessions (putToBackend u now answer k cs c) = sc_sessions c"
  "sc_accessOrder (putToBackend u now answer k cs c) = sc_accessOrder c"
  by (auto simp: putToBackend_def Let_def split: prod.splits sum.splits option.splits)

lemma cache_wf_step: "cache_wf c \<Longrightarrow> cache_wf (cache_step u op c)"
proof (cases op)
  case (CacheRun now answer i)
  assume "cache_wf c"
  then show ?thesis
    by (auto simp: CacheRun run_pending_def sessions_putToBackend split: prod.splits
        intro: cache_wf_same [THEN iffD2, rotated 2])
next
  case (CacheImport now ss)
  assume "cache_wf c"
  then have "evictable c" by (simp add: cache_wf_def)
  then show ?thesis
    by (simp add: CacheImport cache_Import_def cache_wf_evicted evictable_imports)
next
  case CacheClear
  then show ?thesis by (simp add: cache_Clear_def cache_wf_def evictable_def)
qed (auto simp: cache_wf_Put cache_wf_Get SetBackend_def SetSessionIdentifier_def SetErrorCallback_def
    intro: cache_wf_same [THEN iffD2, rotated 2])

interpretation cache_machine:
  started_machine "cache_step u" "\<lambda>_. True" cache_wf NewPersistableSessionCache
  for u :: "('cs, 'st) utls"
  by unfold_locales (simp add: cache_wf_step,
    simp add: NewPersistableSessionCache_def cache_wf_def evictable_def)

text \<open>
  Whatever puts, gets, backend writes, imports and settings a client performs, the cache never
  holds more than 33 sessions: one more than \<open>TLSSessionCacheMaxSize\<close>, because \<open>Put\<close> evicts before it
  inserts.\<close>

theorem cache_size_bound:
  "cache_Count (fold (cache_step u) ops NewPersistableSessionCache) \<le> TLSSessionCacheMaxSize + 1"
proof -
  have "list_all (\<lambda>_. True) ops" by (simp add: list_all_iff)
  then have "cache_wf (fold (cache_step u) ops NewPersistableSessionCache)"
    by (rule cache_machine.reach_inv)
  then show ?thesis by (simp add: cache_wf_def cache_Count_def)
qed

definition no_utls :: "(nat, nat) utls" where
  "no_utls = \<lparr>ResumptionState = (\<lambda>c. Some (Some [of_nat c], Some c)), state_Bytes = (\<lambda>s. Some [of_nat s]),
     ParseSessionState = (\<lambda>bs. case bs of [b] \<Rightarrow> Some (unat b) | _ \<Rightarrow> None),
     NewResumptionState = (\<lambda>t s. Some s)\<rparr>"

text \<open>
  The limit of 32 sessions is exceeded: after 33 puts of different keys all 33 are held.\<close>

theorem cache_exceeds_max_size:
  "cache_Count (fold (cache_step no_utls)
     (map (\<lambda>i. CachePut 0 (dec_string i) (Some i)) [0..<33]) NewPersistableSessionCache) = 33 \<and>
   TLSSessionCacheMaxSize = 32"
  by code_simp

section \<open>Refinement to a least-recently-used list\<close>

text \<open>
  The abstract cache is one list of (key, session) pairs, least recently used first.
\<close>

definition lru_trim :: "'a list \<Rightarrow> 'a list" where
  "lru_trim l = drop (length l - TLSSessionCacheMaxSize) l"

definition lru_put :: "'k \<Rightarrow> 'v \<Rightarrow> ('k \<times> 'v) list \<Rightarrow> ('k \<times> 'v) list" where
  "lru_put k v l =
     (if map_of l k = None then lru_trim l @ [(k, v)] else filter (\<lambda>(k', v'). k' \<noteq> k) l @ [(k, v)])"

definition lru_touch :: "'k \<Rightarrow> ('k \<times> 'v) list \<Rightarrow> ('k \<times> 'v) list" where
  "lru_touch k l = (case map_of l k of None \<Rightarrow> l | Some v \<Rightarrow> filter (\<lambda>(k', v'). k' \<noteq> k) l @ [(k, v)])"

definition in_order :: "(string, 'v) gomap \<Rightarrow> string list \<Rightarrow> (string \<times> 'v) list" where
  "in_order m order = map (\<lambda>k. (k, the (map_of m k))) order"

definition lru_abs :: "'cs session_cache \<Rightarrow> (string \<times> 'cs cachedSession) list" where
  "lru_abs c = in_order (sc_sessions c) (sc_accessOrder c)"

definition lru_wf :: "'cs session_cache \<Rightarrow> bool" where
  "lru_wf c \<longleftrightarrow> map_wf (sc_sessions c) \<and> distinct (sc_accessOrder c) \<and>
     set (sc_accessOrder c) = dom (map_of (sc_sessions c))"

lemma map_of_in_order:
  "set order = dom (map_of m) \<Longrightarrow> map_of (in_order m order) = map_of m"
proof -
  assume "set order = dom (map_of m)"
  moreover have "map_of (in_order m order) k = (if k \<in> set order then Some (the (map_of m k)) else None)" for k
    by (induction order) (auto simp: in_order_def)
  ultimately show ?thesis by (force simp: fun_eq_iff)
qed

lemma length_order: "map_wf m \<Longrightarrow> distinct order \<Longrightarrow> set order = dom (map_of m) \<Longrightarrow> length m = length order"
  by (metis distinct_card length_map_wf)

lemma move_last_filter:
  "distinct order \<Longrightarrow> k \<in> set order \<Longrightarrow> move_last k order = filter (\<lambda>x. x \<noteq> k) order @ [k]"
  by (simp add: move_last_def distinct_remove1_removeAll removeAll_filter_not_eq) metis

lemma in_order_append: "in_order m (xs @ ys) = in_order m xs @ in_order m ys"
  by (simp add: in_order_def)

lemma in_order_filter:
  "filter (\<lambda>(k', v'). k' \<noteq> k) (in_order m order) = in_order m (filter (\<lambda>x. x \<noteq> k) order)"
  by (simp add: in_order_def filter_map comp_def)

lemma in_order_update_other: "k \<notin> set order \<Longrightarrow> in_order (AList.update k v m) order = in_order m order"
  by (auto simp: in_order_def)

lemma in_order_move:
  "distinct order \<Longrightarrow> k \<in> set order \<Longrightarrow>
   in_order (AList.update k v m) (move_last k order) =
     filter (\<lambda>(k', v'). k' \<noteq> k) (in_order m order) @ [(k, v)]"
  by (simp add: move_last_filter in_order_append in_order_filter in_order_update_other)
    (simp add: in_order_def)

lemma in_order_touch:
  assumes "distinct order" "set order = dom (map_of m)"
  shows "in_order m (move_last k order) = lru_touch k (in_order m order)"
proof (cases "map_of m k")
  case None
  then have "k \<notin> set order" using assms(2) by auto
  with None show ?thesis using assms(2)
    by (simp add: lru_touch_def map_of_in_order move_last_def)
next
  case (Some v)
  then have "k \<in> set order" using assms(2) by auto
  with Some assms show ?thesis
    by (simp add: lru_touch_def map_of_in_order move_last_filter in_order_append in_order_filter)
      (simp add: in_order_def)
qed

lemma evict_loop_lru:
  "map_wf m \<Longrightarrow> distinct order \<Longrightarrow> set order = dom (map_of m) \<Longrightarrow> evict_loop m order = (m', order') \<Longrightarrow>
   map_wf m' \<and> distinct order' \<and> set order' = dom (map_of m') \<and>
   in_order m' order' = lru_trim (in_order m order)"
proof (induction m order rule: evict_loop.induct)
  case (1 m)
  then show ?case by (simp add: in_order_def lru_trim_def)
next
  case (2 m oldest order)
  have len: "length m = Suc (length order)"
    using length_order [of m "oldest # order"] "2.prems" by simp
  show ?case
  proof (cases "length m > TLSSessionCacheMaxSize")
    case True
    have dom: "set order = dom (map_of (AList.delete oldest m))" using "2.prems"(2,3) by auto
    have "evict_loop (AList.delete oldest m) order = (m', order')" using True "2.prems"(4) by simp
    then have "map_wf m' \<and> distinct order' \<and> set order' = dom (map_of m') \<and>
        in_order m' order' = lru_trim (in_order (AList.delete oldest m) order)"
      using "2.IH" [OF True _ _ dom] "2.prems"(1,2) by simp
    moreover have "in_order (AList.delete oldest m) order = in_order m order"
      using "2.prems"(2) by (auto simp: in_order_def)
    moreover have "lru_trim (in_order m (oldest # order)) = lru_trim (in_order m order)"
      using True len by (simp add: lru_trim_def in_order_def Suc_diff_le)
    ultimately show ?thesis by simp
  next
    case False
    with "2.prems" len show ?thesis by (auto simp: lru_trim_def in_order_def)
  qed
qed

lemma lru_evict: "lru_wf c \<Longrightarrow> lru_wf (evictIfNeeded c) \<and> lru_abs (evictIfNeeded c) = lru_trim (lru_abs c)"
  using evict_loop_lru [of "sc_sessions c" "sc_accessOrder c"]
  by (auto simp: lru_wf_def lru_abs_def evictIfNeeded_def split: prod.splits)

lemma lru_store_hit:
  assumes "lru_wf c" "map_of (sc_sessions c) k \<noteq> None"
  shows "lru_wf (moveToEnd k (store_session k cs t c)) \<and>
    lru_abs (moveToEnd k (store_session k cs t c)) =
      filter (\<lambda>(k', v'). k' \<noteq> k) (lru_abs c) @ [(k, \<lparr>cache_state = cs, createdAt = t\<rparr>)]"
proof -
  have k: "k \<in> set (sc_accessOrder c)" "distinct (sc_accessOrder c)" using assms by (auto simp: lru_wf_def)
  then show ?thesis
    using assms in_order_move [OF k(2,1), of "\<lparr>cache_state = cs, createdAt = t\<rparr>" "sc_sessions c"]
    by (auto simp: lru_wf_def lru_abs_def moveToEnd_def store_session_def move_last_filter)
qed

lemma lru_store_miss:
  assumes "lru_wf c" "map_of (sc_sessions c) k = None"
  shows "lru_wf (append_order k (store_session k cs t c)) \<and>
    lru_abs (append_order k (store_session k cs t c)) =
      lru_abs c @ [(k, \<lparr>cache_state = cs, createdAt = t\<rparr>)]"
  using assms
  by (auto simp: lru_wf_def lru_abs_def append_order_def store_session_def in_order_append
      in_order_update_other in_order_def domIff)

lemma distinct_move_last: "distinct order \<Longrightarrow> distinct (move_last k order)"
  by (simp add: move_last_def)

lemma lru_touched: "lru_wf c \<Longrightarrow> lru_wf (moveToEnd k c) \<and> lru_abs (moveToEnd k c) = lru_touch k (lru_abs c)"
  by (simp add: lru_wf_def lru_abs_def moveToEnd_def in_order_touch distinct_move_last)

lemma lru_lookup: "lru_wf c \<Longrightarrow> map_of (lru_abs c) = map_of (sc_sessions c)"
  by (simp add: lru_wf_def lru_abs_def map_of_in_order)

lemma lru_same:
  "sc_sessions c' = sc_sessions c \<Longrightarrow> sc_accessOrder c' = sc_accessOrder c \<Longrightarrow>
   lru_wf c' = lru_wf c \<and> lru_abs c' = lru_abs c"
  by (simp add: lru_wf_def lru_abs_def)

lemma evict_keeps_none: "lru_wf c \<Longrightarrow> map_of (sc_sessions c) k = None \<Longrightarrow> map_of (sc_sessions (evictIfNeeded c)) k = None"
proof -
  assume wf: "lru_wf c" and none: "map_of (sc_sessions c) k = None"
  have "map_of (lru_trim (lru_abs c)) k = None"
    using none lru_lookup [OF wf] by (metis (no_types) in_set_dropD lru_trim_def map_of_SomeD not_Some_eq weak_map_of_SomeI)
  then show ?thesis using lru_evict [OF wf] lru_lookup by metis
qed

lemma lru_Put:
  assumes "lru_wf c"
  shows "lru_wf (cache_Put now k cs c) \<and>
    lru_abs (cache_Put now k cs c) = lru_put k \<lparr>cache_state = cs, createdAt = now\<rparr> (lru_abs c)"
proof -
  let ?c1 = "if map_of (sc_sessions c) k \<noteq> None then moveToEnd k (store_session k cs now c)
    else append_order k (store_session k cs now (evictIfNeeded c))"
  have "lru_wf ?c1 \<and> lru_abs ?c1 = lru_put k \<lparr>cache_state = cs, createdAt = now\<rparr> (lru_abs c)"
    using lru_store_hit [OF assms, of k cs now] lru_evict [OF assms] evict_keeps_none [OF assms, of k]
      lru_store_miss [of "evictIfNeeded c" k cs now]
    by (simp add: lru_put_def lru_lookup [OF assms])
  moreover have "sc_sessions (cache_Put now k cs c) = sc_sessions ?c1"
    "sc_accessOrder (cache_Put now k cs c) = sc_accessOrder ?c1"
    unfolding cache_Put_def Let_def by simp_all
  ultimately show ?thesis using lru_same by metis
qed

lemma getFromBackend_cases:
  "getFromBackend u now bget k c = (r, c') \<Longrightarrow>
   c' = c \<and> ((\<exists>e. r = Inl e) \<or> r = Inr None) \<or>
   (\<exists>cs t. r = Inr (Some cs) \<and> now - t \<le> TLSSessionMaxAge \<and>
      c' = evictIfNeeded (append_order k (store_session k (Some cs) t c)))"
  by (auto simp: getFromBackend_def Let_def not_less split: prod.splits sum.splits option.splits if_splits)

lemma lru_backend:
  assumes "lru_wf c" "map_of (sc_sessions c) k = None" "getFromBackend u now bget k c = (r, c')"
  shows "lru_wf c' \<and>
    (case r of
       Inr (Some cs) \<Rightarrow> \<exists>t. now - t \<le> TLSSessionMaxAge \<and>
         lru_abs c' = lru_trim (lru_abs c @ [(k, \<lparr>cache_state = Some cs, createdAt = t\<rparr>)])
     | _ \<Rightarrow> lru_abs c' = lru_abs c)"
proof -
  have "lru_wf (evictIfNeeded (append_order k (store_session k cs t c))) \<and>
      lru_abs (evictIfNeeded (append_order k (store_session k cs t c))) =
        lru_trim (lru_abs c @ [(k, \<lparr>cache_state = cs, createdAt = t\<rparr>)])" for cs t
    using lru_store_miss [OF assms(1,2), of cs t] lru_evict by metis
  then show ?thesis
    using getFromBackend_cases [OF assms(3)] assms(1) by (auto split: sum.splits option.splits)
qed

text \<open>C34.
  The cache is a least-recently-used list. On the abstract list, \<open>Put\<close> replaces and moves to the
  back, or trims to 32 entries from the front and appends; a hit of \<open>Get\<close> returns the stored
  session and moves it to the back; a miss leaves the list alone or, when the backend has a
  session no older than 24 hours, returns that session, appends it and trims.\<close>

theorem cache_refines_lru:
  assumes "lru_wf c"
  shows "lru_wf (cache_Put now k cs c) \<and>
    lru_abs (cache_Put now k cs c) = lru_put k \<lparr>cache_state = cs, createdAt = now\<rparr> (lru_abs c) \<and>
    (case cache_Get u now bget k c of
       ((r, ok), c') \<Rightarrow> lru_wf c' \<and>
         (case map_of (lru_abs c) k of
            Some s \<Rightarrow> r = cache_state s \<and> ok \<and> lru_abs c' = lru_touch k (lru_abs c)
          | None \<Rightarrow>
              if ok then \<exists>t. r \<noteq> None \<and> now - t \<le> TLSSessionMaxAge \<and>
                lru_abs c' = lru_trim (lru_abs c @ [(k, \<lparr>cache_state = r, createdAt = t\<rparr>)])
              else r = None \<and> lru_abs c' = lru_abs c))"
proof -
  have rep: "lru_wf (reportError a b e c') = lru_wf c'" "lru_abs (reportError a b e c') = lru_abs c'"
    for a b e and c' :: "'a session_cache"
    using lru_same [of "reportError a b e c'" c'] by simp_all
  have "case cache_Get u now bget k c of
       ((r, ok), c') \<Rightarrow> lru_wf c' \<and>
         (case map_of (lru_abs c) k of
            Some s \<Rightarrow> r = cache_state s \<and> ok \<and> lru_abs c' = lru_touch k (lru_abs c)
          | None \<Rightarrow>
              if ok then \<exists>t. r \<noteq> None \<and> now - t \<le> TLSSessionMaxAge \<and>
                lru_abs c' = lru_trim (lru_abs c @ [(k, \<lparr>cache_state = r, createdAt = t\<rparr>)])
              else r = None \<and> lru_abs c' = lru_abs c)"
  proof (cases "map_of (sc_sessions c) k")
    case (Some s)
    then show ?thesis using lru_touched [OF assms] by (simp add: cache_Get_def lru_lookup [OF assms])
  next
    case None
    obtain r c' where g: "getFromBackend u now bget k c = (r, c')" by fastforce
    show ?thesis
      using None assms lru_backend [OF assms None g]
      by (auto simp: cache_Get_def g lru_lookup [OF assms] rep split: sum.splits option.splits)
  qed
  with lru_Put [OF assms] show ?thesis by blast
qed

lemma lru_wf_New: "lru_wf NewPersistableSessionCache"
  by (simp add: lru_wf_def NewPersistableSessionCache_def)

theorem cache_refines_lru_witness:
  "lru_wf (NewPersistableSessionCache :: nat session_cache) \<and>
   lru_abs (cache_Put 3 ''a:443'' (Some (7::nat)) NewPersistableSessionCache) =
     [(''a:443'', \<lparr>cache_state = Some 7, createdAt = 3\<rparr>)]"
proof -
  have "lru_abs (NewPersistableSessionCache :: nat session_cache) = []"
    by (simp add: lru_abs_def in_order_def NewPersistableSessionCache_def)
  moreover have "lru_abs (cache_Put 3 ''a:443'' (Some (7::nat)) NewPersistableSessionCache) =
      lru_put ''a:443'' \<lparr>cache_state = Some 7, createdAt = 3\<rparr> (lru_abs NewPersistableSessionCache)"
    using cache_refines_lru [OF lru_wf_New, of 3 "''a:443''" "Some (7::nat)"] by blast
  ultimately show ?thesis
    using lru_wf_New by (simp add: lru_put_def lru_trim_def)
qed

section \<open>Export and import\<close>

definition put_session :: "string \<Rightarrow> 'cs cachedSession \<Rightarrow> 'cs session_cache \<Rightarrow> 'cs session_cache" where
  "put_session k s c = append_order k (store_session k (cache_state s) (createdAt s) c)"

interpretation session_store: keyed_store "\<lambda>c. map_of (sc_sessions c)" put_session evictable
  by unfold_locales (auto simp: put_session_def evictable_add, auto simp: append_order_def store_session_def)

definition utls_inverse :: "('cs, 'st) utls \<Rightarrow> bool" where
  "utls_inverse u \<longleftrightarrow>
     (\<forall>cs t s. ResumptionState u cs = Some (Some t, Some s) \<longrightarrow> NewResumptionState u t s = Some cs) \<and>
     (\<forall>s bs. state_Bytes u s = Some bs \<longrightarrow> ParseSessionState u bs = Some s)"

lemma std_Decode_encode [simp]: "std_DecodeString (encodeBase64 d) = Some d"
  by (simp add: std_DecodeString_def encode_no_breaks std_quanta_encode)

lemma saved_session_restored:
  assumes "utls_inverse u" "export_session u s = Some t" "now - createdAt s \<le> TLSSessionMaxAge"
  shows "import_session u now (k, t) c = put_session k s c"
proof -
  obtain cs tk st bs where s: "cache_state s = Some cs" "ResumptionState u cs = Some (Some tk, Some st)"
    "state_Bytes u st = Some bs"
    "t = \<lparr>ts_Ticket = encodeBase64 tk, ts_State = encodeBase64 bs, ts_CreatedAt = createdAt s\<rparr>"
    using assms(2)
    by (auto simp: export_session_def NewTLSSessionState_def split: sum.splits option.splits)
  with assms(1,3) show ?thesis
    by (auto simp: import_session_def ToClientSessionState_def utls_inverse_def put_session_def)
qed

lemma import_export:
  assumes "utls_inverse u" "\<forall>(k, s) \<in> set m. now - createdAt s \<le> TLSSessionMaxAge"
  shows "fold (import_session u now)
      [(k, t). (k, s) \<leftarrow> m, t \<leftarrow> (case export_session u s of None \<Rightarrow> [] | Some t \<Rightarrow> [t])] c =
    fold (\<lambda>(k, s). put_session k s) (filter (\<lambda>(k, s). export_session u s \<noteq> None) m) c"
  using assms(2)
  by (induction m arbitrary: c) (auto simp: saved_session_restored [OF assms(1)] split: option.splits)

lemma length_puts:
  "evictable c \<Longrightarrow> length (sc_sessions (fold (\<lambda>(k, s). put_session k s) m c)) \<le> length (sc_sessions c) + length m"
proof (induction m arbitrary: c)
  case (Cons ks m)
  obtain k s where ks: "ks = (k, s)" by (cases ks)
  have "evictable (put_session k s c)" using Cons.prems by (rule session_store.wf_put)
  moreover have "length (sc_sessions (put_session k s c)) \<le> Suc (length (sc_sessions c))"
    using Cons.prems
    by (simp add: put_session_def append_order_def store_session_def length_store evictable_def)
  ultimately show ?case using Cons.IH [of "put_session k s c"] by (simp add: ks)
qed simp

lemma evict_small:
  assumes "length (sc_sessions c) \<le> TLSSessionCacheMaxSize"
  shows "evictIfNeeded c = c"
proof -
  have "evict_loop (sc_sessions c) (sc_accessOrder c) = (sc_sessions c, sc_accessOrder c)"
    using assms by (cases "sc_accessOrder c") auto
  then show ?thesis by (simp add: evictIfNeeded_def)
qed

lemma cache_restored:
  assumes "utls_inverse u" and "cache_wf c" and "cache_Count c \<le> TLSSessionCacheMaxSize"
    and "\<forall>(k, s) \<in> set (sc_sessions c). now - createdAt s \<le> TLSSessionMaxAge"
  shows "map_of (sc_sessions (cache_Import u now (cache_Export u c) NewPersistableSessionCache)) k =
    (case map_of (sc_sessions c) k of
       Some s \<Rightarrow> if export_session u s = None then None else Some s
     | None \<Rightarrow> None)"
proof -
  let ?N = "NewPersistableSessionCache :: 'a session_cache"
  let ?m = "filter (\<lambda>(k, s). export_session u s \<noteq> None) (sc_sessions c)"
  let ?c = "fold (\<lambda>(k, s). put_session k s) ?m ?N"
  have wf: "map_wf (sc_sessions c)" using assms(2) by (simp add: cache_wf_def evictable_def)
  have N: "evictable ?N" by (simp add: evictable_def NewPersistableSessionCache_def)
  have "length ?m \<le> TLSSessionCacheMaxSize"
    by (rule le_trans [OF length_filter_le]) (use assms(3) in \<open>simp add: cache_Count_def\<close>)
  then have "length (sc_sessions ?c) \<le> TLSSessionCacheMaxSize"
    using length_puts [OF N, of ?m] by (simp add: NewPersistableSessionCache_def)
  then have "cache_Import u now (cache_Export u c) ?N = ?c"
    using import_export [OF assms(1,4), of ?N] by (simp add: cache_Import_def cache_Export_def evict_small)
  moreover have "map_of (sc_sessions ?c) = map_of ?m"
    using session_store.lookup_puts [OF N, of ?m] map_of_rev_wf [OF map_wf_filter [OF wf]]
    by (simp add: NewPersistableSessionCache_def)
  ultimately show ?thesis
    by (auto simp: map_of_filter_val [OF wf] split: option.splits)
qed

text \<open>
  Saved sessions come back. When uTLS's parser inverts its serializer, importing the export of
  a cache of at most 32 sessions, none older than 24 hours, into a new cache restores every
  serializable session under its key with its ticket, state and creation time.\<close>

theorem session_export_import_roundtrip:
  assumes "utls_inverse u" and "cache_wf c" and "cache_Count c \<le> TLSSessionCacheMaxSize"
    and "\<forall>(k, s) \<in> set (sc_sessions c). now - createdAt s \<le> TLSSessionMaxAge"
  shows "map_of (sc_sessions (cache_Import u now (cache_Export u c) NewPersistableSessionCache)) k =
    (case map_of (sc_sessions c) k of
       Some s \<Rightarrow> if export_session u s = None then None else Some s
     | None \<Rightarrow> None)"
  using assms by (rule cache_restored)

lemma no_utls_inverse: "utls_inverse (no_utls\<lparr>state_Bytes := (\<lambda>s. if s < 256 then Some [of_nat s] else None)\<rparr>)"
  by (auto simp: utls_inverse_def no_utls_def unat_of_nat split: if_splits)

theorem session_export_import_roundtrip_witness:
  "\<exists>u :: (nat, nat) utls. utls_inverse u \<and>
     map_of (sc_sessions (cache_Import u 9
       (cache_Export u (cache_Put 3 ''a:443'' (Some 7) NewPersistableSessionCache)) NewPersistableSessionCache)) ''a:443'' =
     Some \<lparr>cache_state = Some 7, createdAt = 3\<rparr>"
proof -
  let ?u = "no_utls\<lparr>state_Bytes := (\<lambda>s. if s < 256 then Some [of_nat s] else None)\<rparr>"
  let ?c = "cache_Put 3 ''a:443'' (Some (7::nat)) NewPersistableSessionCache"
  have s: "sc_sessions ?c = [(''a:443'', \<lparr>cache_state = Some 7, createdAt = 3\<rparr>)]"
    by (simp add: cache_Put_def NewPersistableSessionCache_def evictIfNeeded_def append_order_def
        store_session_def moveToEnd_def)
  have wf: "cache_wf ?c"
    by (rule cache_wf_Put) (simp add: NewPersistableSessionCache_def cache_wf_def evictable_def)
  have "export_session ?u \<lparr>cache_state = Some 7, createdAt = 3\<rparr> \<noteq> None"
    by (simp add: export_session_def NewTLSSessionState_def no_utls_def)
  then have "map_of (sc_sessions (cache_Import ?u 9 (cache_Export ?u ?c) NewPersistableSessionCache)) ''a:443'' =
     Some \<lparr>cache_state = Some 7, createdAt = 3\<rparr>"
    using session_export_import_roundtrip [OF no_utls_inverse wf, of 9 "''a:443''"]
    by (simp add: s cache_Count_def TLSSessionCacheMaxSize_def TLSSessionMaxAge_def)
  then show ?thesis using no_utls_inverse by blast
qed

section \<open>Keys in the backend\<close>

definition plain_field :: "string \<Rightarrow> bool" where
  "plain_field s \<longleftrightarrow> CHR '':'' \<notin> set s"

lemma split_key: "list_all plain_field fs \<Longrightarrow>
   split_on CHR '':'' (join_with '':'' (CacheKeyPrefixSession # fs)) = ''sensor'' # ''sessions'' # fs"
proof -
  assume fs: "list_all plain_field fs"
  have "join_with '':'' (CacheKeyPrefixSession # fs) = join_with '':'' (''sensor'' # ''sessions'' # fs)"
    by (cases fs) (simp_all add: CacheKeyPrefixSession_def)
  moreover have "split_on CHR '':'' (join_with '':'' (''sensor'' # ''sessions'' # fs)) = ''sensor'' # ''sessions'' # fs"
    by (rule split_join) (use fs in \<open>auto simp: list_all_iff plain_field_def\<close>)
  ultimately show ?thesis by simp
qed

lemma parse_host_port:
  "plain_field port \<Longrightarrow> \<not> has_prefix host ''http'' \<Longrightarrow> parseSessionKey (host @ '':'' @ port) = (host, port)"
proof -
  assume port: "plain_field port" and host: "\<not> has_prefix host ''http''"
  let ?k = "host @ CHR '':'' # port"
  have no: "\<not> (\<exists>t. ?k = ''http'' @ t)"
  proof
    assume "\<exists>t. ?k = ''http'' @ t"
    then obtain t where "?k = ''http'' @ t" by blast
    with host show False by (auto simp: append_eq_Cons_conv)
  qed
  have "strip_scheme ?k = ?k"
  proof -
    have "take 8 ?k \<noteq> ''https://'' " "take 7 ?k \<noteq> ''http://''"
      using no append_take_drop_id [of 8 ?k] append_take_drop_id [of 7 ?k] by (metis append.assoc append_Cons append_Nil)+
    then show ?thesis unfolding strip_scheme_def by simp
  qed
  then show ?thesis
    using port by (simp add: parseSessionKey_def last_index_of_char_append plain_field_def)
qed

text \<open>
  Two clients share a backend entry only for the same connection: when no field contains a
  colon, two keys are equal exactly when the session identifiers, presets, protocols, hosts
  and ports are; and the host and port in a key are those of the session key
  \<open>host:port\<close> that uTLS passes, IPv6 hosts included.\<close>

theorem backend_keys_separate:
  assumes "list_all plain_field [sid, preset, protocol, host, port]"
    and "list_all plain_field [sid', preset', protocol', host', port']"
  shows "(FormatSessionCacheKeyWithID sid preset protocol host port =
      FormatSessionCacheKeyWithID sid' preset' protocol' host' port' \<longleftrightarrow>
      (sid, preset, protocol, host, port) = (sid', preset', protocol', host', port')) \<and>
    (has_prefix h ''http'' \<or> parseSessionKey (h @ '':'' @ port) = (h, port))"
proof -
  let ?fs = "(if sid = [] then [] else [sid]) @ [preset, protocol, host, port]"
  let ?fs' = "(if sid' = [] then [] else [sid']) @ [preset', protocol', host', port']"
  have key: "FormatSessionCacheKeyWithID sid preset protocol host port = join_with '':'' (CacheKeyPrefixSession # ?fs)"
    "FormatSessionCacheKeyWithID sid' preset' protocol' host' port' = join_with '':'' (CacheKeyPrefixSession # ?fs')"
    by (simp_all add: FormatSessionCacheKeyWithID_def FormatSessionCacheKey_def)
  have "list_all plain_field ?fs" "list_all plain_field ?fs'" using assms by auto
  then have "FormatSessionCacheKeyWithID sid preset protocol host port =
      FormatSessionCacheKeyWithID sid' preset' protocol' host' port' \<longleftrightarrow> ?fs = ?fs'"
    using split_key [of ?fs] split_key [of ?fs'] unfolding key by (metis list.inject)
  moreover have "?fs = ?fs' \<longleftrightarrow> (sid, preset, protocol, host, port) = (sid', preset', protocol', host', port')"
    by auto
  ultimately show ?thesis using parse_host_port [of port h] assms(1) by auto
qed

theorem backend_keys_separate_witness:
  "list_all plain_field [''s1'', ''chrome'', ''h2'', ''a.test'', ''443''] \<and>
   FormatSessionCacheKeyWithID ''s1'' ''chrome'' ''h2'' ''a.test'' ''443'' \<noteq>
   FormatSessionCacheKeyWithID ''s2'' ''chrome'' ''h2'' ''a.test'' ''443''"
proof -
  have p: "list_all plain_field [''s1'', ''chrome'', ''h2'', ''a.test'', ''443'']"
    "list_all plain_field [''s2'', ''chrome'', ''h2'', ''a.test'', ''443'']"
    by (simp_all add: plain_field_def)
  then show ?thesis using backend_keys_separate [OF p] by simp
qed

text \<open>
  A backend write takes the session identifier at the time its goroutine runs: a session put
  while the identifier was \<open>s1\<close> is written under \<open>s2\<close> when \<open>SetSessionIdentifier\<close> comes before
  the goroutine, and under \<open>s1\<close> in the other order.\<close>

theorem late_write_uses_new_identifier:
  "let c = SetSessionIdentifier ''s1'' (NewPersistableSessionCacheWithBackend True ''chrome'' ''h2'' False);
       put = CachePut 0 ''a.test:443'' (Some 7);
       run = CacheRun 0 None 0; switch = CacheSetId ''s2'' in
   map fst (sc_written (fold (cache_step no_utls) [put, switch, run] c)) =
     [''sensor:sessions:s2:chrome:h2:a.test:443''] \<and>
   map fst (sc_written (fold (cache_step no_utls) [put, run, switch] c)) =
     [''sensor:sessions:s1:chrome:h2:a.test:443'']"
  by code_simp

end
