(* ===== verification/NetIp.thy ===== *)
theory NetIp
  imports Prelude
begin

text \<open>
  The part of Go's \<open>net\<close> package that the sources use: IP addresses as byte slices of length 4
  or 16, \<open>To4\<close>, \<open>To16\<close>, \<open>ParseIP\<close>, and \<open>SplitHostPort\<close> and \<open>JoinHostPort\<close>.
\<close>

type_synonym ip = "byte list"

definition v4_in_v6 :: "byte list" where
  "v4_in_v6 = replicate 10 0 @ [255, 255]"

definition To4 :: "ip \<Rightarrow> ip option" where
  "To4 a =
     (if length a = 4 then Some a
      else if length a = 16 \<and> take 12 a = v4_in_v6 then Some (drop 12 a) else None)"

definition To16 :: "ip \<Rightarrow> ip option" where
  "To16 a = (if length a = 4 then Some (v4_in_v6 @ a) else if length a = 16 then Some a else None)"

section \<open>\<open>ParseIP\<close>\<close>

text \<open>A decimal octet: one to three digits, no leading zero, at most 255.\<close>

definition parse_octet :: "string \<Rightarrow> byte option" where
  "parse_octet s =
     (if s \<noteq> [] \<and> list_all is_digit s \<and> length s \<le> 3 \<and> (length s = 1 \<or> hd s \<noteq> CHR ''0'') \<and> digits_val s \<le> 255
      then Some (of_nat (digits_val s)) else None)"

definition parse_all :: "('a \<Rightarrow> 'b option) \<Rightarrow> 'a list \<Rightarrow> 'b list option" where
  "parse_all f xs = foldr (\<lambda>x acc. case (f x, acc) of (Some y, Some ys) \<Rightarrow> Some (y # ys) | _ \<Rightarrow> None) xs (Some [])"

definition parse_v4 :: "string \<Rightarrow> ip option" where
  "parse_v4 s = (let fs = split_on CHR ''.'' s in if length fs = 4 then parse_all parse_octet fs else None)"

definition hex_val :: "char \<Rightarrow> nat option" where
  "hex_val c =
     (let n = of_char c in
      if 48 \<le> n \<and> n \<le> 57 then Some (n - 48)
      else if 97 \<le> n \<and> n \<le> 102 then Some (n - 87)
      else if 65 \<le> n \<and> n \<le> 70 then Some (n - 55) else None)"

definition parse_hextet :: "string \<Rightarrow> byte list option" where
  "parse_hextet s =
     (if s \<noteq> [] \<and> length s \<le> 4 then
        (case parse_all hex_val s of
           Some ds \<Rightarrow> (let v = foldl (\<lambda>n d. n * 16 + d) 0 ds in Some [of_nat (v div 256), of_nat (v mod 256)])
         | None \<Rightarrow> None)
      else None)"

text \<open>Colon-separated groups; the last one may be a dotted quad when \<open>v4_ok\<close>.\<close>

definition parse_groups :: "bool \<Rightarrow> string \<Rightarrow> byte list option" where
  "parse_groups v4_ok s =
     (if s = [] then Some []
      else let gs = split_on CHR '':'' s in
        (case (parse_all parse_hextet (butlast gs),
               if v4_ok \<and> contains (last gs) ''.'' then parse_v4 (last gs) else parse_hextet (last gs)) of
           (Some hs, Some t) \<Rightarrow> Some (concat hs @ t)
         | _ \<Rightarrow> None))"

definition parse_v6 :: "string \<Rightarrow> ip option" where
  "parse_v6 s =
     (case index_of s ''::'' of
        None \<Rightarrow>
          (case parse_groups True s of
             Some bs \<Rightarrow> if length bs = 16 then Some bs else None
           | None \<Rightarrow> None)
      | Some i \<Rightarrow>
          (case (parse_groups False (take i s), parse_groups True (drop (i + 2) s)) of
             (Some l, Some r) \<Rightarrow>
               if length l + length r < 16 then Some (l @ replicate (16 - (length l + length r)) 0 @ r) else None
           | _ \<Rightarrow> None))"

definition ParseIP :: "string \<Rightarrow> ip option" where
  "ParseIP s =
     (if contains s '':'' then parse_v6 s
      else case parse_v4 s of Some a \<Rightarrow> Some (v4_in_v6 @ a) | None \<Rightarrow> None)"

section \<open>Host and port\<close>

definition JoinHostPort :: "string \<Rightarrow> string \<Rightarrow> string" where
  "JoinHostPort host port =
     (if contains host '':'' then ''['' @ host @ '']:'' @ port else host @ '':'' @ port)"

text \<open>\<open>SplitHostPort\<close>; every error of the library is \<open>None\<close>.\<close>

definition SplitHostPort :: "string \<Rightarrow> (string \<times> string) option" where
  "SplitHostPort s =
     (case last_index_of s '':'' of
        None \<Rightarrow> None
      | Some i \<Rightarrow>
          if has_prefix s ''['' then
            (case index_of s '']'' of
               None \<Rightarrow> None
             | Some e \<Rightarrow>
                 if e + 1 = i \<and> \<not> contains (drop 1 s) ''['' \<and> \<not> contains (drop (e + 1) s) '']''
                 then Some (take (e - 1) (drop 1 s), drop (i + 1) s) else None)
          else if contains (take i s) '':'' \<or> contains s ''['' \<or> contains s '']'' then None
          else Some (take i s, drop (i + 1) s))"

section \<open>Facts\<close>

lemma length_To4: "To4 a = Some b \<Longrightarrow> length b = 4"
  by (auto simp: To4_def split: if_splits)

lemma To4_To16: "length a = 4 \<Longrightarrow> To16 a = Some b \<Longrightarrow> To4 b = Some a"
  by (auto simp: To4_def To16_def v4_in_v6_def)

lemma parse_all_length: "parse_all f xs = Some ys \<Longrightarrow> length ys = length xs"
  by (induction xs arbitrary: ys) (auto simp: parse_all_def split: option.splits)

lemma length_parse_v4: "parse_v4 s = Some a \<Longrightarrow> length a = 4"
  by (auto simp: parse_v4_def Let_def dest: parse_all_length split: if_splits)

lemma length_ParseIP: "ParseIP s = Some a \<Longrightarrow> length a = 16"
  by (auto simp: ParseIP_def parse_v6_def v4_in_v6_def dest: length_parse_v4 split: if_splits option.splits)

lemma SplitHostPort_Join:
  assumes "CHR '':'' \<notin> set port" "CHR ''['' \<notin> set port" "CHR '']'' \<notin> set port"
    and "CHR ''['' \<notin> set host" "CHR '']'' \<notin> set host"
  shows "SplitHostPort (JoinHostPort host port) = Some (host, port)"
proof (cases "CHR '':'' \<in> set host")
  case True
  have i: "last_index_of ((''['' @ host @ '']'') @ CHR '':'' # port) '':'' = Some (length host + 2)"
    using last_index_of_char_append [OF assms(1), of "''['' @ host @ '']''"] by simp
  have e: "index_of ((''['' @ host) @ CHR '']'' # '':'' @ port) '']'' = Some (length host + 1)"
    using index_of_char_append [of "CHR '']''" "''['' @ host"] assms(5) by simp
  show ?thesis
    using True assms i e by (simp add: SplitHostPort_def JoinHostPort_def contains_char)
next
  case False
  have i: "last_index_of (host @ CHR '':'' # port) '':'' = Some (length host)"
    using last_index_of_char_append [OF assms(1)] by simp
  have h: "\<not> has_prefix (host @ CHR '':'' # port) ''[''"
    using assms(4) by (cases host) auto
  show ?thesis
    using False assms i h by (simp add: SplitHostPort_def JoinHostPort_def contains_char)
qed

end
