(* ===== verification/DnsCache.thy ===== *)
theory DnsCache
  imports Prelude NetIp Base64
begin

text \<open>
  The DNS cache, \<open>dns/cache.go\<close>: host addresses with a time to live, the address orders used by
  the dialers, and the ECH configurations fetched through HTTPS records. The system resolver
  and the DNS servers are parameters: a lookup's answer is an argument. Each \<open>time.Now()\<close> is an
  argument: \<open>now\<close> for the expiry check, \<open>now'\<close> when the entry is written.
\<close>

section \<open>Addresses\<close>

record Entry =
  en_IPs :: "ip list"
  ExpiresAt :: time
  LookupAt :: time

definition IsExpired :: "time \<Rightarrow> Entry \<Rightarrow> bool" where
  "IsExpired now e \<longleftrightarrow> now > ExpiresAt e"

record dns_cache =
  dc_entries :: "(string, Entry) gomap"
  defaultTTL :: duration
  minTTL :: duration
  preferIPv4 :: bool

definition NewCache :: dns_cache where
  "NewCache = \<lparr>dc_entries = [], defaultTTL = 5 * minute, minTTL = 30 * second, preferIPv4 = False\<rparr>"

definition SetPreferIPv4 :: "bool \<Rightarrow> dns_cache \<Rightarrow> dns_cache" where
  "SetPreferIPv4 prefer c = c\<lparr>preferIPv4 := prefer\<rparr>"

datatype dns_error = ResolverError string | NoAddresses string

type_synonym resolver_answer = "dns_error + ip list"

definition dns_lookup :: "resolver_answer \<Rightarrow> string \<Rightarrow> resolver_answer" where
  "dns_lookup answer host = (case ParseIP host of Some a \<Rightarrow> Inr [a] | None \<Rightarrow> answer)"

definition Resolve ::
  "time \<Rightarrow> time \<Rightarrow> resolver_answer \<Rightarrow> string \<Rightarrow> dns_cache \<Rightarrow> (dns_error + ip list) \<times> dns_cache" where
  "Resolve now now' answer host c =
     (let entry = map_of (dc_entries c) host in
      case entry of
        Some e \<Rightarrow>
          if \<not> IsExpired now e then (Inr (en_IPs e), c)
          else (case dns_lookup answer host of
                  Inl err \<Rightarrow> (Inr (en_IPs e), c)
                | Inr ips \<Rightarrow>
                    (Inr ips, c\<lparr>dc_entries := AList.update host
                       \<lparr>en_IPs = ips, ExpiresAt = now' + defaultTTL c, LookupAt = now'\<rparr> (dc_entries c)\<rparr>))
      | None \<Rightarrow>
          (case dns_lookup answer host of
             Inl err \<Rightarrow> (Inl err, c)
           | Inr ips \<Rightarrow>
               (Inr ips, c\<lparr>dc_entries := AList.update host
                  \<lparr>en_IPs = ips, ExpiresAt = now' + defaultTTL c, LookupAt = now'\<rparr> (dc_entries c)\<rparr>)))"

definition is_v4 :: "ip \<Rightarrow> bool" where
  "is_v4 a \<longleftrightarrow> To4 a \<noteq> None"

text \<open>The first address of the preferred family, else the first address.\<close>

definition pick_one :: "bool \<Rightarrow> ip list \<Rightarrow> ip" where
  "pick_one prefer4 ips =
     (case (if prefer4 then find is_v4 ips else find (\<lambda>a. \<not> is_v4 a \<and> To16 a \<noteq> None) ips) of
        Some a \<Rightarrow> a
      | None \<Rightarrow> hd ips)"

definition with_addresses ::
  "string \<Rightarrow> (ip list \<Rightarrow> 'a) \<Rightarrow> (dns_error + ip list) \<times> dns_cache \<Rightarrow> (dns_error + 'a) \<times> dns_cache" where
  "with_addresses host f r =
     (case r of
        (Inl err, c) \<Rightarrow> (Inl err, c)
      | (Inr ips, c) \<Rightarrow> (if ips = [] then Inl (NoAddresses host) else Inr (f ips), c))"

definition ResolveOne ::
  "time \<Rightarrow> time \<Rightarrow> resolver_answer \<Rightarrow> string \<Rightarrow> dns_cache \<Rightarrow> (dns_error + ip) \<times> dns_cache" where
  "ResolveOne now now' answer host c =
     with_addresses host (pick_one (preferIPv4 c)) (Resolve now now' answer host c)"

text \<open>The loop over both families: one of the first, then one of the second, while any is left.\<close>

fun interleave :: "'a list \<Rightarrow> 'a list \<Rightarrow> 'a list" where
  "interleave [] ys = ys"
| "interleave xs [] = xs"
| "interleave (x # xs) (y # ys) = x # y # interleave xs ys"

definition sort_families :: "bool \<Rightarrow> ip list \<Rightarrow> ip list" where
  "sort_families prefer4 ips =
     (let ipv4 = filter is_v4 ips; ipv6 = filter (\<lambda>a. \<not> is_v4 a) ips
      in if prefer4 then interleave ipv4 ipv6 else interleave ipv6 ipv4)"

definition ResolveAllSorted ::
  "time \<Rightarrow> time \<Rightarrow> resolver_answer \<Rightarrow> string \<Rightarrow> dns_cache \<Rightarrow> (dns_error + ip list) \<times> dns_cache" where
  "ResolveAllSorted now now' answer host c =
     with_addresses host (sort_families (preferIPv4 c)) (Resolve now now' answer host c)"

definition ResolveIPv6First ::
  "time \<Rightarrow> time \<Rightarrow> resolver_answer \<Rightarrow> string \<Rightarrow> dns_cache \<Rightarrow> (dns_error + (ip list \<times> ip list)) \<times> dns_cache" where
  "ResolveIPv6First now now' answer host c =
     with_addresses host (\<lambda>ips. (filter (\<lambda>a. \<not> is_v4 a) ips, filter is_v4 ips)) (Resolve now now' answer host c)"

definition Invalidate :: "string \<Rightarrow> dns_cache \<Rightarrow> dns_cache" where
  "Invalidate host c = c\<lparr>dc_entries := AList.delete host (dc_entries c)\<rparr>"

definition dns_Clear :: "dns_cache \<Rightarrow> dns_cache" where
  "dns_Clear c = c\<lparr>dc_entries := []\<rparr>"

definition SetTTL :: "duration \<Rightarrow> dns_cache \<Rightarrow> dns_cache" where
  "SetTTL ttl c = c\<lparr>defaultTTL := (if ttl < minTTL c then minTTL c else ttl)\<rparr>"

definition Stats :: "time \<Rightarrow> dns_cache \<Rightarrow> nat \<times> nat" where
  "Stats now c = (length (dc_entries c), length (filter (\<lambda>(h, e). IsExpired now e) (dc_entries c)))"

definition Cleanup :: "time \<Rightarrow> dns_cache \<Rightarrow> dns_cache" where
  "Cleanup now c = c\<lparr>dc_entries := filter (\<lambda>(h, e). \<not> IsExpired now e) (dc_entries c)\<rparr>"

section \<open>ECH configurations\<close>

record ECHEntry =
  ConfigList :: "byte list"
  ech_ExpiresAt :: time

record ech_state =
  echCache :: "(string, ECHEntry) gomap"
  echDNSServers :: "string list"

definition default_ech_servers :: "string list" where
  "default_ech_servers = [''8.8.8.8:53'', ''1.1.1.1:53'', ''9.9.9.9:53'']"

definition SetECHDNSServers :: "string list \<Rightarrow> ech_state \<Rightarrow> ech_state" where
  "SetECHDNSServers servers s = s\<lparr>echDNSServers := (if servers = [] then default_ech_servers else servers)\<rparr>"

definition GetECHDNSServers :: "ech_state \<Rightarrow> string list" where
  "GetECHDNSServers s = echDNSServers s"

text \<open>
  What a server answers: an exchange error, or a response code and the answers. An answer that
  is an HTTPS record carries a time to live and its parameters; \<open>Some ech\<close> is an ECH parameter.
\<close>

datatype dns_answer = HTTPS "32 word" "byte list option list" | OtherRR

datatype dns_response = ExchangeError string | Response nat "dns_answer list"

fun find_ech_param :: "byte list option list \<Rightarrow> byte list option" where
  "find_ech_param [] = None"
| "find_ech_param (kv # kvs) =
     (case kv of Some ech \<Rightarrow> if length ech > 0 then Some ech else find_ech_param kvs | None \<Rightarrow> find_ech_param kvs)"

fun find_ech :: "dns_answer list \<Rightarrow> (byte list \<times> 32 word) option" where
  "find_ech [] = None"
| "find_ech (OtherRR # rest) = find_ech rest"
| "find_ech (HTTPS ttl kvs # rest) =
     (case find_ech_param kvs of Some ech \<Rightarrow> Some (ech, ttl) | None \<Rightarrow> find_ech rest)"

text \<open>The loop over the servers; \<open>lastErr\<close> is the last exchange error.\<close>

fun query_loop ::
  "(string \<Rightarrow> dns_response) \<Rightarrow> string option \<Rightarrow> string list \<Rightarrow> string + (byte list option \<times> 32 word)" where
  "query_loop exchange lastErr [] = (case lastErr of None \<Rightarrow> Inr (None, 0) | Some e \<Rightarrow> Inl e)"
| "query_loop exchange lastErr (server # servers) =
     (case exchange server of
        ExchangeError e \<Rightarrow> query_loop exchange (Some e) servers
      | Response rcode answers \<Rightarrow>
          if rcode \<noteq> 0 then query_loop exchange lastErr servers
          else case find_ech answers of
              Some (ech, ttl) \<Rightarrow> Inr (Some ech, ttl)
            | None \<Rightarrow> Inr (None, 300))"

definition queryECHFromDNS ::
  "(string \<Rightarrow> dns_response) \<Rightarrow> ech_state \<Rightarrow> string + (byte list option \<times> 32 word)" where
  "queryECHFromDNS exchange s = query_loop exchange None (GetECHDNSServers s)"

text \<open>The error result of \<open>FetchECHConfigs\<close> is always nil; a nil list is \<open>None\<close>.\<close>

definition FetchECHConfigs ::
  "time \<Rightarrow> time \<Rightarrow> (string \<Rightarrow> dns_response) \<Rightarrow> string \<Rightarrow> ech_state \<Rightarrow> byte list option \<times> ech_state" where
  "FetchECHConfigs now now' exchange hostname s =
     (let entry = map_of (echCache s) hostname;
          query = (case queryECHFromDNS exchange s of
              Inl err \<Rightarrow> ((case entry of Some e \<Rightarrow> Some (ConfigList e) | None \<Rightarrow> None), s)
            | Inr (None, ttl) \<Rightarrow> (None, s)
            | Inr (Some ech, ttl) \<Rightarrow>
                (Some ech, s\<lparr>echCache := AList.update hostname
                   \<lparr>ConfigList = ech, ech_ExpiresAt = now' + uint ttl * second\<rparr> (echCache s)\<rparr>))
      in case entry of
           Some e \<Rightarrow> if now < ech_ExpiresAt e then (Some (ConfigList e), s) else query
         | None \<Rightarrow> query)"

definition FetchECHConfigsBase64 ::
  "time \<Rightarrow> time \<Rightarrow> (string \<Rightarrow> dns_response) \<Rightarrow> string \<Rightarrow> ech_state \<Rightarrow> string \<times> ech_state" where
  "FetchECHConfigsBase64 now now' exchange hostname s =
     (case FetchECHConfigs now now' exchange hostname s of
        (None, s1) \<Rightarrow> ('''', s1)
      | (Some configs, s1) \<Rightarrow> (encodeBase64 configs, s1))"

section \<open>The contract of a cache in front of a source\<close>

text \<open>
  Both caches are of one kind: a fresh entry is returned without asking, a result is either the
  source's answer or the entry (a stale one when the source fails), only answers are stored,
  and the other operations only remove entries. \<open>answers r k v\<close>: the source can answer \<open>v\<close> to the
  request \<open>r\<close> for the key \<open>k\<close>.
\<close>

text \<open>A run: fetches (\<open>Inl\<close>) and other operations (\<open>Inr\<close>), with the result of each.\<close>

fun cache_run ::
  "('req \<Rightarrow> 'k \<Rightarrow> 's \<Rightarrow> 'v option \<times> 's) \<Rightarrow> ('op \<Rightarrow> 's \<Rightarrow> 's) \<Rightarrow> ('req \<times> 'k + 'op) list \<Rightarrow> 's \<Rightarrow> 'v option list \<times> 's"
where
  "cache_run fetch other [] s = ([], s)"
| "cache_run fetch other (Inr op # qs) s = (let (vs, s') = cache_run fetch other qs (other op s) in (None # vs, s'))"
| "cache_run fetch other (Inl (r, k) # qs) s =
     (let (v, s1) = fetch r k s; (vs, s') = cache_run fetch other qs s1 in (v # vs, s'))"

locale caching_fetch =
  fixes lookup :: "'s \<Rightarrow> 'k \<Rightarrow> 'e option"
    and val :: "'e \<Rightarrow> 'v"
    and fetch :: "'req \<Rightarrow> 'k \<Rightarrow> 's \<Rightarrow> 'v option \<times> 's"
    and answers :: "'req \<Rightarrow> 'k \<Rightarrow> 'v \<Rightarrow> bool"
    and fresh :: "'req \<Rightarrow> 'e \<Rightarrow> bool"
    and other :: "'op \<Rightarrow> 's \<Rightarrow> 's"
    and wf :: "'s \<Rightarrow> bool"
  assumes wf_fetch: "wf s \<Longrightarrow> fetch r k s = (x, s') \<Longrightarrow> wf s'"
    and wf_other: "wf s \<Longrightarrow> wf (other op s)"
    and hit: "lookup s k = Some e \<Longrightarrow> fresh r e \<Longrightarrow> fetch r k s = (Some (val e), s)"
    and result: "fetch r k s = (Some v, s') \<Longrightarrow> answers r k v \<or> (\<exists>e. lookup s k = Some e \<and> v = val e)"
    and stored: "fetch r k s = (x, s') \<Longrightarrow> lookup s' k' = Some e \<Longrightarrow>
      lookup s k' = Some e \<or> (k' = k \<and> answers r k (val e))"
    and removed: "wf s \<Longrightarrow> lookup (other op s) k = Some e \<Longrightarrow> lookup s k = Some e"
begin

lemma provenance_from:
  "wf s \<Longrightarrow> cache_run fetch other qs s = (vs, s') \<Longrightarrow> i < length qs \<Longrightarrow> qs ! i = Inl (r, k) \<Longrightarrow> vs ! i = Some v \<Longrightarrow>
   (\<exists>e. lookup s k = Some e \<and> v = val e) \<or> (\<exists>j \<le> i. \<exists>r'. qs ! j = Inl (r', k) \<and> answers r' k v)"
proof (induction qs arbitrary: s vs i)
  case (Cons q qs)
  let ?later = "\<lambda>i. \<exists>j \<le> i. \<exists>r'. qs ! j = Inl (r', k) \<and> answers r' k v"
  have later: ?case if "i = Suc i'" "?later i'" for i'
  proof -
    from that obtain j r' where "j \<le> i'" "qs ! j = Inl (r', k)" "answers r' k v" by blast
    then have "Suc j \<le> i \<and> (q # qs) ! Suc j = Inl (r', k)" by (simp add: that)
    with \<open>answers r' k v\<close> show ?thesis by blast
  qed
  show ?case
  proof (cases q)
    case (Inr op)
    then obtain i' where i: "i = Suc i'" using Cons.prems by (cases i) auto
    obtain vs1 where r: "cache_run fetch other qs (other op s) = (vs1, s')" "vs = None # vs1"
      using Cons.prems(2) Inr by (auto split: prod.splits)
    have "(\<exists>e. lookup (other op s) k = Some e \<and> v = val e) \<or> ?later i'"
      using Cons.IH [OF wf_other [OF Cons.prems(1)] r(1)] Cons.prems i r(2) by simp
    then show ?thesis using later [OF i] removed [OF Cons.prems(1)] by blast
  next
    case (Inl rk)
    obtain r0 k0 where rk: "q = Inl (r0, k0)" using Inl by (cases rk) auto
    obtain v0 s0 vs1 where f: "fetch r0 k0 s = (v0, s0)" and r: "cache_run fetch other qs s0 = (vs1, s')" "vs = v0 # vs1"
      using Cons.prems(2) rk by (auto split: prod.splits)
    show ?thesis
    proof (cases i)
      case 0
      then have "r0 = r" "k0 = k" "fetch r k s = (Some v, s0)" using Cons.prems rk r f by simp_all
      with result [OF this(3)] 0 rk show ?thesis by auto
    next
      case (Suc i')
      have "(\<exists>e. lookup s0 k = Some e \<and> v = val e) \<or> ?later i'"
        using Cons.IH [OF wf_fetch [OF Cons.prems(1) f] r(1)] Cons.prems Suc r(2) by simp
      then consider (old) e where "lookup s k = Some e" "v = val e" | (now) "k = k0" "answers r0 k v" | (later) "?later i'"
        using stored [OF f] by blast
      then show ?thesis
      proof cases
        case now
        then have "(q # qs) ! 0 = Inl (r0, k)" using rk by simp
        with now show ?thesis by blast
      qed (use later [OF Suc] in blast)+
    qed
  qed
qed simp

lemma provenance:
  assumes "wf s" "\<And>k. lookup s k = None" "cache_run fetch other qs s = (vs, s')" "i < length qs" "qs ! i = Inl (r, k)" "vs ! i = Some v"
  shows "\<exists>j \<le> i. \<exists>r'. qs ! j = Inl (r', k) \<and> answers r' k v"
  using provenance_from [OF assms(1,3-6)] assms(2) by simp

end

context caching_fetch begin

lemma run_wf: "wf s \<Longrightarrow> cache_run fetch other qs s = (vs, s') \<Longrightarrow> wf s'"
proof (induction qs arbitrary: s vs)
  case (Cons q qs)
  then show ?case
    by (cases q) (auto split: prod.splits dest: wf_other, metis wf_fetch)
qed simp

end

section \<open>Both caches keep the contract\<close>

record dns_request =
  rq_now :: time
  rq_now' :: time
  rq_answer :: resolver_answer

datatype dns_op = DnsInvalidate string | DnsClear | DnsCleanup time | DnsSetTTL duration | DnsPrefer bool

fun dns_other :: "dns_op \<Rightarrow> dns_cache \<Rightarrow> dns_cache" where
  "dns_other (DnsInvalidate h) c = Invalidate h c"
| "dns_other DnsClear c = dns_Clear c"
| "dns_other (DnsCleanup now) c = Cleanup now c"
| "dns_other (DnsSetTTL t) c = SetTTL t c"
| "dns_other (DnsPrefer b) c = SetPreferIPv4 b c"

definition ok_value :: "'e + 'a \<Rightarrow> 'a option" where
  "ok_value r = (case r of Inl _ \<Rightarrow> None | Inr v \<Rightarrow> Some v)"

definition resolve_request :: "dns_request \<Rightarrow> string \<Rightarrow> dns_cache \<Rightarrow> ip list option \<times> dns_cache" where
  "resolve_request r host c =
     (let (v, c') = Resolve (rq_now r) (rq_now' r) (rq_answer r) host c in (ok_value v, c'))"

definition resolver_gives :: "dns_request \<Rightarrow> string \<Rightarrow> ip list \<Rightarrow> bool" where
  "resolver_gives r host ips \<longleftrightarrow> dns_lookup (rq_answer r) host = Inr ips"

definition entry_ok :: "dns_cache \<Rightarrow> string \<Rightarrow> Entry option" where
  "entry_ok c host = map_of (dc_entries c) host"



text \<open>Distinct hosts, and every entry lives for at least the minimum of 30 seconds.\<close>

definition dns_wf :: "dns_cache \<Rightarrow> bool" where
  "dns_wf c \<longleftrightarrow> map_wf (dc_entries c) \<and> minTTL c = 30 * second \<and> defaultTTL c \<ge> minTTL c \<and>
     (\<forall>h e. map_of (dc_entries c) h = Some e \<longrightarrow> ExpiresAt e - LookupAt e \<ge> minTTL c)"

lemma dns_wf_insert:
  assumes "dns_wf c"
  shows "dns_wf (c\<lparr>dc_entries := AList.update h \<lparr>en_IPs = ips, ExpiresAt = t + defaultTTL c, LookupAt = t\<rparr> (dc_entries c)\<rparr>)"
  using assms by (auto simp: dns_wf_def split: if_splits)

lemma dns_wf_Resolve: "dns_wf c \<Longrightarrow> dns_wf (snd (Resolve now now' answer host c))"
  by (auto simp: Resolve_def Let_def dns_wf_insert split: option.splits sum.splits)

lemma dns_wf_other: "dns_wf c \<Longrightarrow> dns_wf (dns_other op c)"
  by (cases op) (auto simp: dns_wf_def Invalidate_def dns_Clear_def Cleanup_def SetTTL_def
      SetPreferIPv4_def map_of_filter_val split: if_splits option.splits)

interpretation dns_fetch: caching_fetch entry_ok en_IPs resolve_request resolver_gives
  "\<lambda>r e. \<not> IsExpired (rq_now r) e" dns_other dns_wf
proof (unfold_locales, goal_cases)
  case (1 s r k x s')
  then show ?case using dns_wf_Resolve [OF 1(1)] by (auto simp: resolve_request_def split: prod.splits) (metis snd_conv)
next
  case (6 s op k e)
  then show ?case
    by (cases op) (auto simp: entry_ok_def dns_wf_def Invalidate_def dns_Clear_def Cleanup_def SetTTL_def
        SetPreferIPv4_def map_of_filter_val split: if_splits option.splits)
qed (auto simp: dns_wf_other entry_ok_def resolve_request_def resolver_gives_def Resolve_def ok_value_def Let_def
    split: prod.splits option.splits sum.splits if_splits)

record ech_request =
  eq_now :: time
  eq_now' :: time
  eq_exchange :: "string \<Rightarrow> dns_response"

definition ech_gives :: "ech_request \<Rightarrow> string \<Rightarrow> byte list \<Rightarrow> bool" where
  "ech_gives r host ech \<longleftrightarrow>
     (\<exists>server answers ttl. eq_exchange r server = Response 0 answers \<and> find_ech answers = Some (ech, ttl))"

definition ech_fetch :: "ech_request \<Rightarrow> string \<Rightarrow> ech_state \<Rightarrow> byte list option \<times> ech_state" where
  "ech_fetch r host s = FetchECHConfigs (eq_now r) (eq_now' r) (eq_exchange r) host s"

lemma query_loop_gives:
  "query_loop exchange lastErr servers = Inr (Some ech, ttl) \<Longrightarrow>
   \<exists>server answers ttl. exchange server = Response 0 answers \<and> find_ech answers = Some (ech, ttl)"
  by (induction exchange lastErr servers rule: query_loop.induct)
    (auto split: option.splits dns_response.splits if_splits)

interpretation ech_fetches: caching_fetch "\<lambda>s h. map_of (echCache s) h" ConfigList ech_fetch ech_gives
  "\<lambda>r e. eq_now r < ech_ExpiresAt e" SetECHDNSServers "\<lambda>_. True"
proof (unfold_locales, goal_cases)
  case (4 r k s v s')
  then show ?case
    by (auto simp: ech_fetch_def FetchECHConfigs_def queryECHFromDNS_def ech_gives_def Let_def
      split: option.splits sum.splits prod.splits if_splits) (blast dest: query_loop_gives)+
next
  case (5 r k s x s' k' e)
  then show ?case
    by (auto simp: ech_fetch_def FetchECHConfigs_def queryECHFromDNS_def ech_gives_def Let_def
      split: option.splits sum.splits prod.splits if_splits) (blast dest: query_loop_gives)+
qed (auto simp: ech_fetch_def FetchECHConfigs_def SetECHDNSServers_def)

section \<open>Properties\<close>

lemma dns_wf_New [simp]: "dns_wf NewCache"
  by (simp add: dns_wf_def NewCache_def)

text \<open>C37.
  Answers do not cross hosts. In any sequence of resolutions, invalidations, clean-ups and
  settings on a new cache, the addresses a resolution of a host returns are what the resolver
  (or the literal address) gave to that resolution or to an earlier one of the same host.\<close>

theorem resolve_provenance:
  assumes "cache_run resolve_request dns_other qs NewCache = (vs, c)"
    and "i < length qs" and "qs ! i = Inl (r, host)" and "vs ! i = Some ips"
  shows "\<exists>j \<le> i. \<exists>r'. qs ! j = Inl (r', host) \<and> dns_lookup (rq_answer r') host = Inr ips"
  using dns_fetch.provenance [OF _ _ assms] by (simp add: entry_ok_def NewCache_def [of ] resolver_gives_def dns_wf_def)

theorem resolve_provenance_witness:
  "\<exists>c. cache_run resolve_request dns_other
      [Inl (\<lparr>rq_now = 0, rq_now' = 1, rq_answer = Inr [[1, 2, 3, 4]]\<rparr>, ''a.test''),
       Inl (\<lparr>rq_now = 9, rq_now' = 9, rq_answer = Inl (ResolverError ''down'')\<rparr>, ''a.test'')] NewCache =
      ([Some [[1, 2, 3, 4]], Some [[1, 2, 3, 4]]], c) \<and>
    (\<exists>j \<le> 1. \<exists>r'. [Inl (\<lparr>rq_now = 0, rq_now' = 1, rq_answer = Inr [[1, 2, 3, 4]]\<rparr>, ''a.test''),
       Inl (\<lparr>rq_now = 9, rq_now' = 9, rq_answer = Inl (ResolverError ''down'')\<rparr>, ''a.test'') :: dns_request \<times> string + dns_op] ! j =
      Inl (r', ''a.test'') \<and> dns_lookup (rq_answer r') ''a.test'' = Inr [[1, 2, 3, 4]])"
proof -
  let ?qs = "[Inl (\<lparr>rq_now = 0, rq_now' = 1, rq_answer = Inr [[1, 2, 3, 4]]\<rparr>, ''a.test''),
       Inl (\<lparr>rq_now = 9, rq_now' = 9, rq_answer = Inl (ResolverError ''down'')\<rparr>, ''a.test'')]
     :: (dns_request \<times> string + dns_op) list"
  have p: "ParseIP ''a.test'' = None" by code_simp
  have r: "fst (cache_run resolve_request dns_other ?qs NewCache) = [Some [[1, 2, 3, 4]], Some [[1, 2, 3, 4]]]"
    by (simp add: resolve_request_def Resolve_def NewCache_def dns_lookup_def p ok_value_def IsExpired_def)
  then obtain c where c: "cache_run resolve_request dns_other ?qs NewCache = ([Some [[1, 2, 3, 4]], Some [[1, 2, 3, 4]]], c)"
    by (metis prod.collapse)
  show ?thesis
    using resolve_provenance [OF c, of 1] c by auto
qed

text \<open>
  Entries live for at least 30 seconds: after any sequence of operations every entry expires no
  earlier than 30 seconds after its lookup, whatever time to live was configured.\<close>

theorem entries_live_min_ttl:
  assumes "map_of (dc_entries (snd (cache_run resolve_request dns_other qs NewCache))) host = Some e"
  shows "ExpiresAt e - LookupAt e \<ge> 30 * second"
proof -
  obtain vs c where c: "cache_run resolve_request dns_other qs NewCache = (vs, c)" by fastforce
  with dns_fetch.run_wf [OF dns_wf_New c] assms show ?thesis by (auto simp: dns_wf_def)
qed

theorem entries_live_min_ttl_witness:
  "\<exists>e. map_of (dc_entries (snd (cache_run resolve_request dns_other
      [Inr (DnsSetTTL 5), Inl (\<lparr>rq_now = 0, rq_now' = 1, rq_answer = Inr [[1, 2, 3, 4]]\<rparr>, ''a.test'')] NewCache)))
     ''a.test'' = Some e \<and> ExpiresAt e - LookupAt e \<ge> 30 * second"
proof -
  have p: "ParseIP ''a.test'' = None" by code_simp
  have "\<exists>e. map_of (dc_entries (snd (cache_run resolve_request dns_other
      [Inr (DnsSetTTL 5), Inl (\<lparr>rq_now = 0, rq_now' = 1, rq_answer = Inr [[1, 2, 3, 4]]\<rparr>, ''a.test'')] NewCache)))
     ''a.test'' = Some e"
    by (simp add: resolve_request_def Resolve_def NewCache_def dns_lookup_def p SetTTL_def)
  then show ?thesis using entries_live_min_ttl by blast
qed

lemma mset_interleave: "mset (interleave xs ys) = mset xs + mset ys"
  by (induction xs ys rule: interleave.induct) auto

lemma filter_interleave:
  "\<forall>x \<in> set xs. P x \<Longrightarrow> \<forall>y \<in> set ys. \<not> P y \<Longrightarrow>
   filter P (interleave xs ys) = xs \<and> filter (\<lambda>x. \<not> P x) (interleave xs ys) = ys"
  by (induction xs ys rule: interleave.induct) auto

lemma nth_interleave:
  "i < length xs \<Longrightarrow> i < length ys \<Longrightarrow> interleave xs ys ! (2 * i) = xs ! i \<and> interleave xs ys ! (2 * i + 1) = ys ! i"
proof (induction xs ys arbitrary: i rule: interleave.induct)
  case (3 x xs y ys)
  then show ?case by (cases i) auto
qed auto

lemma find_filter: "find P xs = (case filter P xs of [] \<Rightarrow> None | x # _ \<Rightarrow> Some x)"
  by (induction xs) auto

lemma hd_interleave: "hd (interleave xs ys) = (case xs of [] \<Rightarrow> hd ys | x # _ \<Rightarrow> x)"
  by (cases xs; cases ys) auto

lemma mset_filters: "mset (filter P xs) + mset (filter (\<lambda>x. \<not> P x) xs) = mset xs"
  by (induction xs) auto

lemma pick_one_sorted:
  assumes "ips \<noteq> []" "\<forall>a \<in> set ips. To16 a \<noteq> None"
  shows "pick_one p ips = hd (sort_families p ips)"
proof -
  have f: "filter (\<lambda>a. \<not> is_v4 a \<and> (\<exists>y. To16 a = Some y)) ips = filter (\<lambda>a. \<not> is_v4 a) ips"
    using assms(2) by (auto intro: filter_cong)
  have e: "filter P ips = [] \<Longrightarrow> filter (\<lambda>a. \<not> P a) ips = ips" for P :: "ip \<Rightarrow> bool"
    by (simp add: filter_empty_conv)
  show ?thesis
    using e [of is_v4] e [of "\<lambda>a. \<not> is_v4 a"]
    by (cases p) (auto simp: pick_one_def sort_families_def Let_def find_filter f hd_interleave split: list.splits)
qed

text \<open>
  \<open>ResolveAllSorted\<close> returns the resolved addresses, each once, alternating between the
  families from the preferred one for as long as both have addresses left and keeping the
  resolver's order inside each family; \<open>ResolveOne\<close> returns its first address.\<close>

theorem families_interleaved:
  assumes "Resolve now now' answer host c = (Inr ips, c')" and "ips \<noteq> []"
    and "\<forall>a \<in> set ips. To16 a \<noteq> None"
  shows "\<exists>res. ResolveAllSorted now now' answer host c = (Inr res, c') \<and>
    ResolveOne now now' answer host c = (Inr (hd res), c') \<and> mset res = mset ips \<and>
    filter is_v4 res = filter is_v4 ips \<and> filter (\<lambda>a. \<not> is_v4 a) res = filter (\<lambda>a. \<not> is_v4 a) ips \<and>
    (\<forall>i. i < length (filter is_v4 ips) \<and> i < length (filter (\<lambda>a. \<not> is_v4 a) ips) \<longrightarrow>
       is_v4 (res ! (2 * i)) = preferIPv4 c \<and> is_v4 (res ! (2 * i + 1)) = (\<not> preferIPv4 c))"
proof -
  let ?v4 = "filter is_v4 ips" and ?v6 = "filter (\<lambda>a. \<not> is_v4 a) ips"
  let ?res = "sort_families (preferIPv4 c) ips"
  have res: "ResolveAllSorted now now' answer host c = (Inr ?res, c')"
    "ResolveOne now now' answer host c = (Inr (hd ?res), c')"
    using assms pick_one_sorted [OF assms(2,3)]
    by (simp_all add: ResolveAllSorted_def ResolveOne_def with_addresses_def)
  have m: "mset ?res = mset ips"
    using mset_filters [of is_v4 ips] by (simp add: sort_families_def Let_def mset_interleave add.commute)
  have s: "?res = (if preferIPv4 c then interleave ?v4 ?v6 else interleave ?v6 ?v4)"
    by (simp add: sort_families_def Let_def)
  have g: "filter is_v4 (interleave ?v4 ?v6) = ?v4 \<and> filter (\<lambda>a. \<not> is_v4 a) (interleave ?v4 ?v6) = ?v6"
    by (rule filter_interleave) auto
  have h: "filter (\<lambda>a. \<not> is_v4 a) (interleave ?v6 ?v4) = ?v6 \<and> filter (\<lambda>a. \<not> \<not> is_v4 a) (interleave ?v6 ?v4) = ?v4"
    by (rule filter_interleave) auto
  have f: "filter is_v4 ?res = ?v4 \<and> filter (\<lambda>a. \<not> is_v4 a) ?res = ?v6"
    unfolding s using g h by (simp only: not_not if_True if_False split: if_splits) simp
  have "is_v4 (?res ! (2 * i)) = preferIPv4 c \<and> is_v4 (?res ! (2 * i + 1)) = (\<not> preferIPv4 c)"
    if "i < length ?v4" "i < length ?v6" for i
  proof -
    have "is_v4 (?v4 ! i)" "\<not> is_v4 (?v6 ! i)" using nth_mem [OF that(1)] nth_mem [OF that(2)] by simp_all
    with nth_interleave [OF that] nth_interleave [OF that(2,1)] show ?thesis
      unfolding s by (cases "preferIPv4 c") simp_all
  qed
  with res m f show ?thesis by blast
qed

theorem families_interleaved_witness:
  "Resolve 0 0 (Inr [[1, 2, 3, 4], replicate 16 7]) ''a.test'' NewCache =
     (Inr [[1, 2, 3, 4], replicate 16 7], snd (Resolve 0 0 (Inr [[1, 2, 3, 4], replicate 16 7]) ''a.test'' NewCache)) \<and>
   (\<exists>res c'. ResolveAllSorted 0 0 (Inr [[1, 2, 3, 4], replicate 16 7]) ''a.test'' NewCache = (Inr res, c') \<and>
      mset res = mset [[1, 2, 3, 4], replicate 16 7])"
proof -
  let ?ips = "[[1, 2, 3, 4], replicate 16 7] :: ip list"
  have p: "ParseIP ''a.test'' = None" by code_simp
  have r: "Resolve 0 0 (Inr ?ips) ''a.test'' NewCache = (Inr ?ips, snd (Resolve 0 0 (Inr ?ips) ''a.test'' NewCache))"
    by (simp add: Resolve_def NewCache_def dns_lookup_def p)
  show ?thesis using families_interleaved [OF r] r by (auto simp: To16_def)
qed

text \<open>
  ECH configurations do not cross hosts: a configuration returned for a host was published by
  a server in this or an earlier query for that host.\<close>

theorem ech_provenance:
  assumes "cache_run ech_fetch SetECHDNSServers qs \<lparr>echCache = [], echDNSServers = default_ech_servers\<rparr> = (vs, s)"
    and "i < length qs" and "qs ! i = Inl (r, host)" and "vs ! i = Some ech"
  shows "\<exists>j \<le> i. \<exists>r' server answers ttl. qs ! j = Inl (r', host) \<and>
    eq_exchange r' server = Response 0 answers \<and> find_ech answers = Some (ech, ttl)"
  using ech_fetches.provenance [OF _ _ assms] by (simp add: ech_gives_def)

theorem ech_provenance_witness:
  "\<exists>s. cache_run ech_fetch SetECHDNSServers
      [Inl (\<lparr>eq_now = 0, eq_now' = 0, eq_exchange = (\<lambda>_. Response 0 [HTTPS 60 [Some [1]]])\<rparr>, ''a.test'')]
      \<lparr>echCache = [], echDNSServers = default_ech_servers\<rparr> = ([Some [1]], s) \<and>
    find_ech [HTTPS 60 [Some [1]]] = Some ([1], 60)"
proof -
  let ?r = "\<lparr>eq_now = 0, eq_now' = 0, eq_exchange = (\<lambda>_. Response 0 [HTTPS 60 [Some [1]]])\<rparr>"
  have "fst (cache_run ech_fetch SetECHDNSServers [Inl (?r, ''a.test'')]
      \<lparr>echCache = [], echDNSServers = default_ech_servers\<rparr>) = [Some [1]]"
    by (simp add: ech_fetch_def FetchECHConfigs_def queryECHFromDNS_def GetECHDNSServers_def default_ech_servers_def)
  then obtain s where s: "cache_run ech_fetch SetECHDNSServers [Inl (?r, ''a.test'')]
      \<lparr>echCache = [], echDNSServers = default_ech_servers\<rparr> = ([Some [1]], s)"
    by (metis prod.collapse)
  show ?thesis
    using ech_provenance [OF s, of 0] s by simp
qed

text \<open>
  The negative time to live of 300 seconds is not used: a successful query that finds no
  configuration stores nothing, so that the next call asks again.
\<close>

lemma ech_negative_answer_not_cached:
  assumes "map_of (echCache s) host = None"
    and "queryECHFromDNS exchange s = Inr (None, ttl)"
  shows "FetchECHConfigs now now' exchange host s = (None, s)"
  using assms by (simp add: FetchECHConfigs_def)

end
