(* ===== verification/Akamai.thy ===== *)
theory Akamai
  imports Prelude
begin

text \<open>
  The Akamai HTTP/2 fingerprint parser, \<open>fingerprint/akamai.go\<close>: four fields separated by bars,
  \<open>SETTINGS|WINDOW_UPDATE|PRIORITY|PSEUDO_HEADER_ORDER\<close>. A Go error is the left value of a sum.
\<close>

record HTTP2Settings =
  HeaderTableSize :: "32 word"
  EnablePush :: bool
  MaxConcurrentStreams :: "32 word"
  InitialWindowSize :: "32 word"
  MaxFrameSize :: "32 word"
  MaxHeaderListSize :: "32 word"
  ConnectionWindowUpdate :: "32 word"
  StreamWeight :: "16 word"
  StreamExclusive :: bool
  NoRFC7540Priorities :: bool

definition empty_settings :: HTTP2Settings where
  "empty_settings =
     \<lparr>HeaderTableSize = 0, EnablePush = False, MaxConcurrentStreams = 0, InitialWindowSize = 0,
      MaxFrameSize = 0, MaxHeaderListSize = 0, ConnectionWindowUpdate = 0, StreamWeight = 0,
      StreamExclusive = False, NoRFC7540Priorities = False\<rparr>"

datatype akamai_error =
    FieldCount nat | InvalidPair string | InvalidId string | InvalidValue string
  | InvalidWindowUpdate string | InvalidWeight string | UnknownPseudo string

section \<open>The parser\<close>

text \<open>\<open>strings.SplitN(s, ":", 2)\<close>: \<open>None\<close> when the slice has one element.\<close>

definition split_pair :: "char \<Rightarrow> string \<Rightarrow> (string \<times> string) option" where
  "split_pair d s = (case index_of s [d] of None \<Rightarrow> None | Some i \<Rightarrow> Some (take i s, drop (i + 1) s))"

definition apply_setting :: "nat \<Rightarrow> nat \<Rightarrow> HTTP2Settings \<Rightarrow> HTTP2Settings" where
  "apply_setting sid v s =
     (if sid = 1 then s\<lparr>HeaderTableSize := of_nat v\<rparr>
      else if sid = 2 then s\<lparr>EnablePush := (v \<noteq> 0)\<rparr>
      else if sid = 3 then s\<lparr>MaxConcurrentStreams := of_nat v\<rparr>
      else if sid = 4 then s\<lparr>InitialWindowSize := of_nat v\<rparr>
      else if sid = 5 then s\<lparr>MaxFrameSize := of_nat v\<rparr>
      else if sid = 6 then s\<lparr>MaxHeaderListSize := of_nat v\<rparr>
      else if sid = 8 then s
      else if sid = 9 then s\<lparr>NoRFC7540Priorities := (v \<noteq> 0)\<rparr>
      else s)"

fun settings_loop :: "string list \<Rightarrow> HTTP2Settings \<Rightarrow> akamai_error + HTTP2Settings" where
  "settings_loop [] s = Inr s"
| "settings_loop (pair0 # rest) s =
     (let pair = trim_space pair0 in
      if pair = '''' then settings_loop rest s
      else case split_pair CHR '':'' pair of
          None \<Rightarrow> Inl (InvalidPair pair)
        | Some (k, v) \<Rightarrow>
            (case parse_uint 16 (trim_space k) of
               None \<Rightarrow> Inl (InvalidId k)
             | Some sid \<Rightarrow>
                 (case parse_uint 32 (trim_space v) of
                    None \<Rightarrow> Inl (InvalidValue v)
                  | Some n \<Rightarrow> settings_loop rest (apply_setting sid n s))))"

definition pseudo_name :: "string \<Rightarrow> string option" where
  "pseudo_name ch =
     (if ch = ''m'' then Some '':method''
      else if ch = ''a'' then Some '':authority''
      else if ch = ''s'' then Some '':scheme''
      else if ch = ''p'' then Some '':path''
      else None)"

fun pseudo_loop :: "string list \<Rightarrow> akamai_error + string list" where
  "pseudo_loop [] = Inr []"
| "pseudo_loop (ch0 # rest) =
     (let ch = trim_space ch0 in
      case pseudo_name ch of
        None \<Rightarrow> Inl (UnknownPseudo ch)
      | Some h \<Rightarrow> (case pseudo_loop rest of Inl e \<Rightarrow> Inl e | Inr hs \<Rightarrow> Inr (h # hs)))"

definition parse_window_update :: "string \<Rightarrow> HTTP2Settings \<Rightarrow> akamai_error + HTTP2Settings" where
  "parse_window_update p s =
     (if p = '''' then Inr s
      else case parse_uint 32 (trim_space p) of
          None \<Rightarrow> Inl (InvalidWindowUpdate p)
        | Some w \<Rightarrow> Inr (s\<lparr>ConnectionWindowUpdate := of_nat w\<rparr>))"

definition parse_weight :: "string \<Rightarrow> HTTP2Settings \<Rightarrow> akamai_error + HTTP2Settings" where
  "parse_weight p s =
     (if p = '''' then Inr s
      else case parse_uint 16 (trim_space p) of
          None \<Rightarrow> Inl (InvalidWeight p)
        | Some w \<Rightarrow> Inr (if w > 0 then s\<lparr>StreamWeight := of_nat w, StreamExclusive := True\<rparr> else s))"

definition ParseAkamai :: "string \<Rightarrow> akamai_error + (HTTP2Settings \<times> string list)" where
  "ParseAkamai akamai =
     (case split_on CHR ''|'' akamai of
        [p0, p1, p2, p3] \<Rightarrow>
          (case (if p0 = '''' then Inr empty_settings else settings_loop (split_on CHR '';'' p0) empty_settings) of
             Inl e \<Rightarrow> Inl e
           | Inr s0 \<Rightarrow>
               (case parse_window_update p1 s0 of
                  Inl e \<Rightarrow> Inl e
                | Inr s1 \<Rightarrow>
                    (case parse_weight p2 s1 of
                       Inl e \<Rightarrow> Inl e
                     | Inr s2 \<Rightarrow>
                         (case (if p3 = '''' then Inr [] else pseudo_loop (split_on CHR '','' (trim_space p3))) of
                            Inl e \<Rightarrow> Inl e
                          | Inr order \<Rightarrow> Inr (s2, order)))))
      | parts \<Rightarrow> Inl (FieldCount (length parts)))"

record AkamaiPresence =
  ap_Settings :: HTTP2Settings
  PseudoOrder :: "string list"
  SeenSettings :: "nat list"
  HasWindowUpdate :: bool
  HasStreamWeight :: bool

definition seen_ids :: "string \<Rightarrow> nat list" where
  "seen_ids p0 =
     concat (map (\<lambda>pair0.
       let pair = trim_space pair0 in
       if pair = '''' then []
       else case split_pair CHR '':'' pair of
           None \<Rightarrow> []
         | Some (k, v) \<Rightarrow> (case parse_uint 16 (trim_space k) of None \<Rightarrow> [] | Some sid \<Rightarrow> [sid]))
       (split_on CHR '';'' p0))"

definition ParseAkamaiDetailed :: "string \<Rightarrow> akamai_error + AkamaiPresence" where
  "ParseAkamaiDetailed akamai =
     (case ParseAkamai akamai of
        Inl e \<Rightarrow> Inl e
      | Inr (settings, order) \<Rightarrow>
          (let parts = split_on CHR ''|'' akamai;
               field = (\<lambda>i. if i < length parts then parts ! i else '''');
               w = trim_space (field 2)
           in Inr \<lparr>ap_Settings = settings, PseudoOrder = order,
                   SeenSettings = (if field 0 = '''' then [] else seen_ids (field 0)),
                   HasWindowUpdate = (trim_space (field 1) \<noteq> ''''),
                   HasStreamWeight = (w \<noteq> '''' \<and> w \<noteq> ''0'')\<rparr>))"

section \<open>Canonical fingerprints\<close>

text \<open>The string of a list of settings, a window update, a weight and an order of pseudo-headers.\<close>

definition setting_string :: "nat \<times> nat \<Rightarrow> string" where
  "setting_string kv = dec_string (fst kv) @ '':'' @ dec_string (snd kv)"

definition akamai_string :: "(nat \<times> nat) list \<Rightarrow> nat \<Rightarrow> nat \<Rightarrow> char list \<Rightarrow> string" where
  "akamai_string settings window weight pseudo =
     join_with ''|'' [join_with '';'' (map setting_string settings), dec_string window, dec_string weight,
       join_with '','' (map (\<lambda>c. [c]) pseudo)]"

lemma not_digit_chars [simp]:
  "\<not> is_digit CHR ''|''" "\<not> is_digit CHR '';''" "\<not> is_digit CHR '':''" "\<not> is_digit CHR '',''"
  "\<not> is_digit CHR '' ''"
  by (simp_all add: is_digit_def)



lemma set_join_with: "set (join_with sep ps) \<subseteq> set sep \<union> \<Union> (set ` set ps)"
  by (induction sep ps rule: join_with.induct) auto

lemma setting_string_chars: "c \<in> set (setting_string kv) \<Longrightarrow> is_digit c \<or> c = CHR '':''"
  using dec_string_digits by (auto simp: setting_string_def list_all_iff)

lemma trim_setting_string [simp]: "trim_space (setting_string kv) = setting_string kv"
  unfolding trim_space_def
  by (rule trim_with_none) (auto dest!: setting_string_chars digit_not_space simp: is_space_def)

lemma split_setting_string [simp]:
  "split_pair CHR '':'' (setting_string kv) = Some (dec_string (fst kv), dec_string (snd kv))"
  using index_of_char_append [of "CHR '':''" "dec_string (fst kv)" "dec_string (snd kv)"]
  by (simp add: split_pair_def setting_string_def)

lemma setting_string_not_Nil [simp]: "setting_string kv \<noteq> []"
  by (simp add: setting_string_def)

definition valid_settings :: "(nat \<times> nat) list \<Rightarrow> bool" where
  "valid_settings kvs \<longleftrightarrow> list_all (\<lambda>(k, v). k < 2 ^ 16 \<and> v < 2 ^ 32) kvs"

lemma settings_loop_print:
  "valid_settings kvs \<Longrightarrow>
   settings_loop (map setting_string kvs) s = Inr (fold (\<lambda>(k, v). apply_setting k v) kvs s)"
  by (induction kvs arbitrary: s) (auto simp: valid_settings_def parse_uint_dec_string Let_def)

lemma seen_ids_print:
  "kvs \<noteq> [] \<Longrightarrow> valid_settings kvs \<Longrightarrow> seen_ids (join_with '';'' (map setting_string kvs)) = map fst kvs"
proof -
  assume kvs: "kvs \<noteq> []" "valid_settings kvs"
  have split: "split_on CHR '';'' (join_with '';'' (map setting_string kvs)) = map setting_string kvs"
    by (rule split_join) (use kvs(1) in \<open>auto dest: setting_string_chars\<close>)
  have "concat (map (\<lambda>pair0.
       let pair = trim_space pair0 in
       if pair = '''' then []
       else case split_pair CHR '':'' pair of
           None \<Rightarrow> []
         | Some (k, v) \<Rightarrow> (case parse_uint 16 (trim_space k) of None \<Rightarrow> [] | Some sid \<Rightarrow> [sid]))
       (map setting_string kvs)) = map fst kvs"
    using kvs(2) by (induction kvs) (auto simp: valid_settings_def parse_uint_dec_string)
  then show ?thesis by (simp add: seen_ids_def split)
qed

definition pseudo_chars :: "char list" where
  "pseudo_chars = ''masp''"

lemma pseudo_char_name:
  "c \<in> set pseudo_chars \<Longrightarrow> trim_space [c] = [c] \<and> pseudo_name [c] \<noteq> None \<and> c \<noteq> CHR ''|'' \<and> c \<noteq> CHR '','' \<and> \<not> is_space c"
proof -
  have "list_all (\<lambda>c. trim_space [c] = [c] \<and> pseudo_name [c] \<noteq> None \<and> c \<noteq> CHR ''|'' \<and> c \<noteq> CHR '','' \<and> \<not> is_space c) pseudo_chars"
    by code_simp
  then show "c \<in> set pseudo_chars \<Longrightarrow> ?thesis" by (simp add: list_all_iff)
qed

lemma pseudo_loop_print:
  "set ps \<subseteq> set pseudo_chars \<Longrightarrow> pseudo_loop (map (\<lambda>c. [c]) ps) = Inr (map (\<lambda>c. the (pseudo_name [c])) ps)"
proof (induction ps)
  case (Cons c ps)
  then have "trim_space [c] = [c]" "pseudo_name [c] \<noteq> None" using pseudo_char_name [of c] by auto
  with Cons show ?case by auto
qed simp

lemma akamai_parts:
  assumes "valid_settings kvs" "set ps \<subseteq> set pseudo_chars"
  shows "split_on CHR ''|'' (akamai_string kvs window weight ps) =
    [join_with '';'' (map setting_string kvs), dec_string window, dec_string weight, join_with '','' (map (\<lambda>c. [c]) ps)]"
  unfolding akamai_string_def
proof (rule split_join)
  fix p assume p: "p \<in> set [join_with '';'' (map setting_string kvs), dec_string window, dec_string weight,
    join_with '','' (map (\<lambda>c. [c]) ps)]"
  have "CHR ''|'' \<notin> set (join_with '';'' (map setting_string kvs))"
    using set_join_with [of "'';''" "map setting_string kvs"] by (fastforce dest: setting_string_chars)
  moreover have "CHR ''|'' \<notin> set (join_with '','' (map (\<lambda>c. [c]) ps))"
    using set_join_with [of "'',''" "map (\<lambda>c. [c]) ps"] assms(2) pseudo_char_name by fastforce
  ultimately show "CHR ''|'' \<notin> set p" using p by auto
qed simp

lemma pseudo_field:
  assumes "set ps \<subseteq> set pseudo_chars" "ps \<noteq> []"
  shows "trim_space (join_with '','' (map (\<lambda>c. [c]) ps)) = join_with '','' (map (\<lambda>c. [c]) ps) \<and>
    split_on CHR '','' (join_with '','' (map (\<lambda>c. [c]) ps)) = map (\<lambda>c. [c]) ps \<and>
    join_with '','' (map (\<lambda>c. [c]) ps) \<noteq> []"
proof -
  have "\<not> is_space c" if "c \<in> set (join_with '','' (map (\<lambda>c. [c]) ps))" for c
    using set_join_with [of "'',''" "map (\<lambda>c. [c]) ps"] that assms(1) pseudo_char_name
    by (fastforce simp: is_space_def)
  moreover have "split_on CHR '','' (join_with '','' (map (\<lambda>c. [c]) ps)) = map (\<lambda>c. [c]) ps"
    by (rule split_join) (use assms pseudo_char_name in fastforce)+
  moreover have "join_with '','' (map (\<lambda>c. [c]) ps) \<noteq> []"
    using assms(2) by (cases ps; cases "tl ps") auto
  ultimately show ?thesis unfolding trim_space_def by (simp add: trim_with_none)
qed

text \<open>
  Parsing inverts printing. On the canonical fingerprint of any settings with 16-bit ids and
  32-bit values, any 32-bit window update, 16-bit weight and order of pseudo-headers, the
  parser returns the settings applied in order (a later value of an sid wins, ids without
  meaning are dropped), the window update, the weight (exclusive when it is positive) and the
  pseudo-headers' names; the detailed parser also reports exactly the ids that occurred.\<close>

theorem parse_akamai_roundtrip:
  assumes "valid_settings kvs" and "window < 2 ^ 32" and "weight < 2 ^ 16" and "set ps \<subseteq> set ''masp''"
  shows "\<exists>s. ParseAkamai (akamai_string kvs window weight ps) = Inr (s, map (\<lambda>c. the (pseudo_name [c])) ps) \<and>
    s = (fold (\<lambda>(k, v). apply_setting k v) kvs empty_settings)
      \<lparr>ConnectionWindowUpdate := of_nat window, StreamWeight := of_nat weight, StreamExclusive := (weight > 0)\<rparr> \<and>
    ParseAkamaiDetailed (akamai_string kvs window weight ps) = Inr
      \<lparr>ap_Settings = s, PseudoOrder = map (\<lambda>c. the (pseudo_name [c])) ps, SeenSettings = map fst kvs,
       HasWindowUpdate = True, HasStreamWeight = (weight > 0)\<rparr>"
proof -
  have ps: "set ps \<subseteq> set pseudo_chars" using assms(4) by (simp add: pseudo_chars_def)
  note parts = akamai_parts [OF assms(1) ps, of window weight]
  let ?s = "fold (\<lambda>(k, v). apply_setting k v) kvs empty_settings"
  let ?j = "join_with '';'' (map setting_string kvs)"
  have j: "?j = [] \<longleftrightarrow> kvs = []" by (cases kvs; cases "tl kvs") auto
  have split: "kvs \<noteq> [] \<Longrightarrow> split_on CHR '';'' ?j = map setting_string kvs"
    by (rule split_join) (auto dest: setting_string_chars)
  have s0: "(if ?j = [] then Inr empty_settings else settings_loop (split_on CHR '';'' ?j) empty_settings) = Inr ?s"
    using split settings_loop_print [OF assms(1)] j by auto
  have w0: "?s\<lparr>ConnectionWindowUpdate := w, StreamWeight := 0, StreamExclusive := False\<rparr> = ?s\<lparr>ConnectionWindowUpdate := w\<rparr>" for w
  proof -
    have "StreamWeight (apply_setting k v s) = StreamWeight s \<and> StreamExclusive (apply_setting k v s) = StreamExclusive s" for k v s
      by (simp add: apply_setting_def)
    then have "StreamWeight (fold (\<lambda>(k, v). apply_setting k v) kvs s) = StreamWeight s \<and>
        StreamExclusive (fold (\<lambda>(k, v). apply_setting k v) kvs s) = StreamExclusive s" for s
      by (induction kvs arbitrary: s) auto
    then show ?thesis by (simp add: empty_settings_def)
  qed
  have p3: "(if join_with '','' (map (\<lambda>c. [c]) ps) = [] then Inr []
      else pseudo_loop (split_on CHR '','' (trim_space (join_with '','' (map (\<lambda>c. [c]) ps))))) =
      Inr (map (\<lambda>c. the (pseudo_name [c])) ps)"
    using pseudo_field [OF ps] pseudo_loop_print [OF ps] by (cases "ps = []") auto
  have parse: "ParseAkamai (akamai_string kvs window weight ps) =
      Inr (?s\<lparr>ConnectionWindowUpdate := of_nat window, StreamWeight := of_nat weight, StreamExclusive := (weight > 0)\<rparr>,
        map (\<lambda>c. the (pseudo_name [c])) ps)"
    using assms(2,3) s0 p3 w0
    by (simp add: ParseAkamai_def parts parse_window_update_def parse_weight_def parse_uint_dec_string)
  have zero: "dec_string weight = ''0'' \<longleftrightarrow> weight = 0"
  proof -
    have "dec_string 0 = ''0''" by code_simp
    then show ?thesis by (metis digits_val_dec_string)
  qed
  have seen: "(if ?j = [] then [] else seen_ids ?j) = map fst kvs"
    using j seen_ids_print [OF _ assms(1)] by auto
  show ?thesis
    using parse seen_ids_print [OF _ assms(1)] j by (simp add: ParseAkamaiDetailed_def parts Let_def zero)
qed

theorem parse_akamai_roundtrip_witness:
  "valid_settings [(1, 64), (3, 100)] \<and>
   (\<exists>s. ParseAkamai ''1:64;3:100|99|0|m,a,s,p'' =
      Inr (s, ['':method'', '':authority'', '':scheme'', '':path'']) \<and> MaxConcurrentStreams s = 100)"
proof -
  have v: "valid_settings [(1, 64), (3, 100)]" by (simp add: valid_settings_def)
  have p: "akamai_string [(1, 64), (3, 100)] 99 0 ''masp'' = ''1:64;3:100|99|0|m,a,s,p''"
    by code_simp
  have n: "map (\<lambda>c. the (pseudo_name [c])) ''masp'' = ['':method'', '':authority'', '':scheme'', '':path'']"
    by code_simp
  obtain s where "ParseAkamai (akamai_string [(1, 64), (3, 100)] 99 0 ''masp'') =
      Inr (s, map (\<lambda>c. the (pseudo_name [c])) ''masp'')"
    and "s = (fold (\<lambda>(k, v). apply_setting k v) [(1, 64), (3, 100)] empty_settings)
      \<lparr>ConnectionWindowUpdate := of_nat 99, StreamWeight := of_nat 0, StreamExclusive := (0 < (0::nat))\<rparr>"
    using parse_akamai_roundtrip [OF v, of 99 0 "''masp''"] by auto
  then show ?thesis using v unfolding p n by (simp add: apply_setting_def)
qed

end
