(* ===== verification/Ja3.thy ===== *)
theory Ja3
  imports Prelude
begin

text \<open>
  JA3 fingerprints to TLS client hellos, \<open>fingerprint/ja3.go\<close>. The extension structures of uTLS
  are constructors that carry the fields the code fills in; uTLS's shuffle of the extensions
  is a parameter. Cipher suites, extension ids and curves are 16-bit words.
\<close>

unbundle bit_operations_syntax

type_synonym u16 = "16 word"

definition ECDSAWithP256AndSHA256 :: u16 where "ECDSAWithP256AndSHA256 = 0x0403"
definition ECDSAWithP384AndSHA384 :: u16 where "ECDSAWithP384AndSHA384 = 0x0503"
definition ECDSAWithP521AndSHA512 :: u16 where "ECDSAWithP521AndSHA512 = 0x0603"
definition ECDSAWithSHA1 :: u16 where "ECDSAWithSHA1 = 0x0203"
definition PSSWithSHA256 :: u16 where "PSSWithSHA256 = 0x0804"
definition PSSWithSHA384 :: u16 where "PSSWithSHA384 = 0x0805"
definition PSSWithSHA512 :: u16 where "PSSWithSHA512 = 0x0806"
definition PKCS1WithSHA1 :: u16 where "PKCS1WithSHA1 = 0x0201"
definition PKCS1WithSHA256 :: u16 where "PKCS1WithSHA256 = 0x0401"
definition PKCS1WithSHA384 :: u16 where "PKCS1WithSHA384 = 0x0501"
definition PKCS1WithSHA512 :: u16 where "PKCS1WithSHA512 = 0x0601"
definition CertCompressionBrotli :: u16 where "CertCompressionBrotli = 2"
definition VersionTLS10 :: u16 where "VersionTLS10 = 0x0301"
definition VersionTLS12 :: u16 where "VersionTLS12 = 0x0303"
definition VersionTLS13 :: u16 where "VersionTLS13 = 0x0304"

record JA3Extras =
  SignatureAlgorithms :: "u16 list"
  DelegatedCredentialAlgorithms :: "u16 list option"
  ALPN :: "string list"
  CertCompAlgs :: "u16 list"
  PermuteExtensions :: bool
  RecordSizeLimit :: u16
  KeyShareCurves :: int

definition default_sigalgs :: "u16 list" where
  "default_sigalgs =
     [ECDSAWithP256AndSHA256, PSSWithSHA256, PKCS1WithSHA256, ECDSAWithP384AndSHA384,
      PSSWithSHA384, PKCS1WithSHA384, PSSWithSHA512, PKCS1WithSHA512]"

definition defaultJA3Extras :: JA3Extras where
  "defaultJA3Extras =
     \<lparr>SignatureAlgorithms = default_sigalgs, DelegatedCredentialAlgorithms = None,
      ALPN = [''h2'', ''http/1.1''], CertCompAlgs = [CertCompressionBrotli],
      PermuteExtensions = False, RecordSizeLimit = 0x4001, KeyShareCurves = 0\<rparr>"

definition merged_extras :: "JA3Extras option \<Rightarrow> JA3Extras" where
  "merged_extras extras =
     (case extras of
        None \<Rightarrow> defaultJA3Extras
      | Some e \<Rightarrow>
          e\<lparr>SignatureAlgorithms := (if SignatureAlgorithms e = [] then SignatureAlgorithms defaultJA3Extras
                                    else SignatureAlgorithms e),
            ALPN := (if ALPN e = [] then ALPN defaultJA3Extras else ALPN e),
            CertCompAlgs := (if CertCompAlgs e = [] then CertCompAlgs defaultJA3Extras else CertCompAlgs e),
            RecordSizeLimit := (if RecordSizeLimit e = 0 then RecordSizeLimit defaultJA3Extras
                                else RecordSizeLimit e)\<rparr>)"

definition isGREASE :: "u16 \<Rightarrow> bool" where
  "isGREASE v \<longleftrightarrow> v AND 0x0f0f = 0x0a0a"

section \<open>Extensions\<close>

datatype tls_extension =
    GREASEExtension
  | SNIExtension
  | StatusRequestExtension
  | SupportedCurvesExtension "u16 list"
  | SupportedPointsExtension "byte list"
  | SignatureAlgorithmsExtension "u16 list"
  | ALPNExtension "string list"
  | StatusRequestV2Extension
  | SCTExtension
  | PaddingExtension
  | ExtendedMasterSecretExtension
  | CompressCertExtension "u16 list"
  | RecordSizeLimitExtension u16
  | DelegatedCredentialsExtension "u16 list"
  | SessionTicketExtension
  | PreSharedKeyExtension
  | SupportedVersionsExtension "u16 list"
  | CookieExtension
  | PSKKeyExchangeModesExtension
  | SignatureAlgorithmsCertExtension "u16 list"
  | KeyShareExtension "u16 list"
  | ApplicationSettingsExtension "string list"
  | GREASEEncryptedClientHelloExtension
  | RenegotiationInfoExtension
  | GenericExtension u16

text \<open>How many key shares: the configured number, at least one, and two for a post-quantum first curve.\<close>

definition max_key_shares :: "JA3Extras \<Rightarrow> u16 list \<Rightarrow> nat" where
  "max_key_shares extras curves =
     (let maxShares = (if KeyShareCurves extras > 0 then nat (KeyShareCurves extras) else 1) in
      if maxShares < 2 then
        (case filter (\<lambda>c. \<not> isGREASE c) curves of
           [] \<Rightarrow> maxShares
         | c # _ \<Rightarrow> if c = 0x11EC \<or> c = 0x6399 then 2 else maxShares)
      else maxShares)"

fun key_share_loop :: "nat \<Rightarrow> u16 list \<Rightarrow> u16 list \<Rightarrow> u16 list" where
  "key_share_loop n [] shares = shares"
| "key_share_loop n (c # cs) shares =
     (if isGREASE c then key_share_loop n cs shares
      else if length (shares @ [c]) \<ge> n then shares @ [c]
      else key_share_loop n cs (shares @ [c]))"

definition extensionForID :: "u16 \<Rightarrow> JA3Extras \<Rightarrow> u16 list \<Rightarrow> byte list \<Rightarrow> tls_extension" where
  "extensionForID sid extras curves pointFormats =
     (if sid = 0 then SNIExtension
      else if sid = 5 then StatusRequestExtension
      else if sid = 10 then SupportedCurvesExtension curves
      else if sid = 11 then SupportedPointsExtension pointFormats
      else if sid = 13 then SignatureAlgorithmsExtension (SignatureAlgorithms extras)
      else if sid = 16 then ALPNExtension (ALPN extras)
      else if sid = 17 then StatusRequestV2Extension
      else if sid = 18 then SCTExtension
      else if sid = 21 then PaddingExtension
      else if sid = 22 then GenericExtension 22
      else if sid = 23 then ExtendedMasterSecretExtension
      else if sid = 27 then CompressCertExtension (CertCompAlgs extras)
      else if sid = 28 then
        RecordSizeLimitExtension (if RecordSizeLimit extras = 0 then 0x4001 else RecordSizeLimit extras)
      else if sid = 34 then
        DelegatedCredentialsExtension
          (case DelegatedCredentialAlgorithms extras of
             None \<Rightarrow> [ECDSAWithP256AndSHA256, ECDSAWithP384AndSHA384, ECDSAWithP521AndSHA512, ECDSAWithSHA1]
           | Some algs \<Rightarrow> algs)
      else if sid = 35 then SessionTicketExtension
      else if sid = 41 then PreSharedKeyExtension
      else if sid = 43 then SupportedVersionsExtension [VersionTLS13, VersionTLS12]
      else if sid = 44 then CookieExtension
      else if sid = 45 then PSKKeyExchangeModesExtension
      else if sid = 49 then GenericExtension 49
      else if sid = 50 then SignatureAlgorithmsCertExtension (default_sigalgs @ [PKCS1WithSHA1])
      else if sid = 51 then KeyShareExtension (key_share_loop (max_key_shares extras curves) curves [])
      else if sid = 57 then GenericExtension 57
      else if sid = 17513 then ApplicationSettingsExtension (ALPN extras)
      else if sid = 65037 then GREASEEncryptedClientHelloExtension
      else if sid = 65281 then RenegotiationInfoExtension
      else GenericExtension sid)"

definition buildExtensions :: "u16 list \<Rightarrow> JA3Extras \<Rightarrow> u16 list \<Rightarrow> byte list \<Rightarrow> tls_extension list" where
  "buildExtensions ids extras curves pointFormats =
     map (\<lambda>sid. if isGREASE sid then GREASEExtension else extensionForID sid extras curves pointFormats) ids"

section \<open>Parsing\<close>

fun parse_dash_loop :: "nat \<Rightarrow> string list \<Rightarrow> string + 'a::len word list" where
  "parse_dash_loop bits [] = Inr []"
| "parse_dash_loop bits (p0 # ps) =
     (let p = trim_space p0 in
      if p = '''' then parse_dash_loop bits ps
      else case parse_uint bits p of
          None \<Rightarrow> Inl p
        | Some v \<Rightarrow> (case parse_dash_loop bits ps of Inl e \<Rightarrow> Inl e | Inr vs \<Rightarrow> Inr (of_nat v # vs)))"

definition parseDashSeparatedUint16 :: "string \<Rightarrow> string + u16 list" where
  "parseDashSeparatedUint16 s0 =
     (let s = trim_space s0 in if s = '''' then Inr [] else parse_dash_loop 16 (split_on CHR ''-'' s))"

definition parseDashSeparatedUint8 :: "string \<Rightarrow> string + byte list" where
  "parseDashSeparatedUint8 s0 =
     (let s = trim_space s0 in if s = '''' then Inr [] else parse_dash_loop 8 (split_on CHR ''-'' s))"

datatype ja3_error =
    Ja3FieldCount nat | Ja3Version string | Ja3Ciphers string | Ja3Extensions string
  | Ja3Curves string | Ja3Points string

record ClientHelloSpec =
  TLSVersMin :: u16
  TLSVersMax :: u16
  CipherSuites :: "u16 list"
  CompressionMethods :: "byte list"
  hello_Extensions :: "tls_extension list"

definition max_version :: "u16 \<Rightarrow> u16 list \<Rightarrow> u16" where
  "max_version tlsVersion ids =
     (let v = (if 43 \<in> set ids then VersionTLS13 else tlsVersion)
      in if v < VersionTLS10 then VersionTLS12 else v)"

definition ParseJA3 ::
  "(tls_extension list \<Rightarrow> tls_extension list) \<Rightarrow> string \<Rightarrow> JA3Extras option \<Rightarrow> ja3_error + ClientHelloSpec" where
  "ParseJA3 shuffle ja3 extras0 =
     (let extras = merged_extras extras0 in
      case split_on CHR '','' ja3 of
        [p0, p1, p2, p3, p4] \<Rightarrow>
          (case parse_uint 16 (trim_space p0) of
             None \<Rightarrow> Inl (Ja3Version p0)
           | Some tlsVersion \<Rightarrow>
          (case parseDashSeparatedUint16 p1 of
             Inl e \<Rightarrow> Inl (Ja3Ciphers e)
           | Inr cipherSuites \<Rightarrow>
          (case parseDashSeparatedUint16 p2 of
             Inl e \<Rightarrow> Inl (Ja3Extensions e)
           | Inr extensionIDs \<Rightarrow>
          (case parseDashSeparatedUint16 p3 of
             Inl e \<Rightarrow> Inl (Ja3Curves e)
           | Inr curves \<Rightarrow>
          (case parseDashSeparatedUint8 p4 of
             Inl e \<Rightarrow> Inl (Ja3Points e)
           | Inr pointFormats \<Rightarrow>
               (let extensions = buildExtensions extensionIDs extras (filter (\<lambda>c. \<not> isGREASE c) curves) pointFormats in
                Inr \<lparr>TLSVersMin = VersionTLS12, TLSVersMax = max_version (of_nat tlsVersion) extensionIDs,
                     CipherSuites = filter (\<lambda>c. \<not> isGREASE c) cipherSuites, CompressionMethods = [0],
                     hello_Extensions = (if PermuteExtensions extras then shuffle extensions else extensions)\<rparr>))))))
      | parts \<Rightarrow> Inl (Ja3FieldCount (length parts)))"

definition JA3HasExtension :: "string \<Rightarrow> string \<Rightarrow> bool" where
  "JA3HasExtension ja3 extID =
     (let parts = split_on CHR '','' ja3 in
      if length parts < 3 then False
      else list_ex (\<lambda>p. trim_space p = extID) (split_on CHR ''-'' (parts ! 2)))"

section \<open>The fingerprint of a client hello\<close>

text \<open>The wire id of an extension; \<open>None\<close> for a GREASE extension, which JA3 leaves out.\<close>

fun ext_id :: "tls_extension \<Rightarrow> u16 option" where
  "ext_id GREASEExtension = None"
| "ext_id SNIExtension = Some 0"
| "ext_id StatusRequestExtension = Some 5"
| "ext_id (SupportedCurvesExtension _) = Some 10"
| "ext_id (SupportedPointsExtension _) = Some 11"
| "ext_id (SignatureAlgorithmsExtension _) = Some 13"
| "ext_id (ALPNExtension _) = Some 16"
| "ext_id StatusRequestV2Extension = Some 17"
| "ext_id SCTExtension = Some 18"
| "ext_id PaddingExtension = Some 21"
| "ext_id ExtendedMasterSecretExtension = Some 23"
| "ext_id (CompressCertExtension _) = Some 27"
| "ext_id (RecordSizeLimitExtension _) = Some 28"
| "ext_id (DelegatedCredentialsExtension _) = Some 34"
| "ext_id SessionTicketExtension = Some 35"
| "ext_id PreSharedKeyExtension = Some 41"
| "ext_id (SupportedVersionsExtension _) = Some 43"
| "ext_id CookieExtension = Some 44"
| "ext_id PSKKeyExchangeModesExtension = Some 45"
| "ext_id (SignatureAlgorithmsCertExtension _) = Some 50"
| "ext_id (KeyShareExtension _) = Some 51"
| "ext_id (ApplicationSettingsExtension _) = Some 17513"
| "ext_id GREASEEncryptedClientHelloExtension = Some 65037"
| "ext_id RenegotiationInfoExtension = Some 65281"
| "ext_id (GenericExtension sid) = Some sid"

lemma ext_id_extensionForID: "ext_id (extensionForID sid extras curves pf) = Some sid"
  by (simp add: extensionForID_def)

definition dash_string :: "'a::len word list \<Rightarrow> string" where
  "dash_string ws = join_with ''-'' (map (\<lambda>w. dec_string (unat w)) ws)"

definition ja3_string :: "u16 \<Rightarrow> u16 list \<Rightarrow> u16 list \<Rightarrow> u16 list \<Rightarrow> byte list \<Rightarrow> string" where
  "ja3_string version ciphers ids curves points =
     join_with '','' [dec_string (unat version), dash_string ciphers, dash_string ids, dash_string curves,
       dash_string points]"

lemma dash_not_digit [simp]: "\<not> is_digit CHR ''-''" "\<not> is_digit CHR '',''"
  by (simp_all add: is_digit_def)

lemma dash_string_chars: "c \<in> set (dash_string ws) \<Longrightarrow> is_digit c \<or> c = CHR ''-''"
proof -
  have "set (join_with sep ps) \<subseteq> set sep \<union> \<Union> (set ` set ps)" for sep and ps :: "string list"
    by (induction sep ps rule: join_with.induct) auto
  then have "set (dash_string ws) \<subseteq> {CHR ''-''} \<union> \<Union> (set ` set (map (\<lambda>w. dec_string (unat w)) ws))"
    unfolding dash_string_def by (metis list.simps(15) empty_set)
  moreover assume "c \<in> set (dash_string ws)"
  ultimately show ?thesis using dec_string_digits by (fastforce simp: list_all_iff)
qed

lemma trim_dash_string [simp]: "trim_space (dash_string ws) = dash_string ws"
  unfolding trim_space_def
  by (rule trim_with_none) (auto dest!: dash_string_chars digit_not_space simp: is_space_def)

lemma dash_string_Nil_iff [simp]: "dash_string ws = [] \<longleftrightarrow> ws = []"
  by (cases ws; cases "tl ws") (auto simp: dash_string_def)

lemma split_dash_string: "ws \<noteq> [] \<Longrightarrow> split_on CHR ''-'' (dash_string ws) = map (\<lambda>w. dec_string (unat w)) ws"
  unfolding dash_string_def by (rule split_join) auto

lemma parse_dash_loop_print:
  "bits = LENGTH('a) \<Longrightarrow> parse_dash_loop bits (map (\<lambda>w. dec_string (unat w)) (ws :: 'a::len word list)) = Inr ws"
  by (induction ws) (auto simp: Let_def parse_uint_dec_string)

lemma parse_dash16 [simp]: "parseDashSeparatedUint16 (dash_string ws) = Inr ws"
  by (simp add: parseDashSeparatedUint16_def Let_def split_dash_string parse_dash_loop_print)

lemma parse_dash8 [simp]: "parseDashSeparatedUint8 (dash_string ws) = Inr ws"
  by (simp add: parseDashSeparatedUint8_def Let_def split_dash_string parse_dash_loop_print)

lemma split_ja3_string:
  "split_on CHR '','' (ja3_string v cs ids curves pts) =
     [dec_string (unat v), dash_string cs, dash_string ids, dash_string curves, dash_string pts]"
  unfolding ja3_string_def
  by (rule split_join) (auto dest: dash_string_chars)

lemma key_share_loop_take:
  "length shares < n \<Longrightarrow> key_share_loop n cs shares = shares @ take (n - length shares) (filter (\<lambda>c. \<not> isGREASE c) cs)"
proof (induction n cs shares rule: key_share_loop.induct)
  case (2 n c cs shares)
  then have "n - length shares = Suc (n - Suc (length shares))" by simp
  with 2 show ?case by auto
qed simp

lemma max_key_shares_pos: "0 < max_key_shares extras curves"
  by (auto simp: max_key_shares_def Let_def split: list.splits)



text \<open>The sixteen values of RFC 8701: 0x0A0A, 0x1A1A, ..., 0xFAFA.\<close>

definition rfc8701_values :: "u16 list" where
  "rfc8701_values = map (\<lambda>k. of_nat (k * 4096 + 2560 + k * 16 + 10)) [0..<16]"

text \<open>
  The GREASE test accepts every GREASE value of RFC 8701 (two equal bytes ending in the digit
  A), and it also accepts values that are not: the suite 0x0A1A is dropped from the hello.\<close>

theorem grease_test_too_wide:
  "list_all isGREASE rfc8701_values \<and> isGREASE 0x0A1A \<and> 0x0A1A \<notin> set rfc8701_values"
  by (simp add: rfc8701_values_def upt_rec isGREASE_def)

end
