(* ===== verification/Socks5.thy ===== *)
theory Socks5
  imports Prelude NetIp
begin

text \<open>
  The SOCKS5 clients: CONNECT over TCP (\<open>proxy/socks5_tcp.go\<close>) and UDP ASSOCIATE
  (\<open>proxy/socks5_udp.go\<close>). A connection is the bytes the peer will send, the messages written so
  far and the number of writes that will succeed. An operation on it returns an error text (the
  message of the Go error) or a value, and the connection. \<open>url.Parse\<close>'s result is an argument,
  and so are the answers of the resolvers and the outcome of dialling.
\<close>

section \<open>Connections\<close>

record conn =
  inp :: "byte list"
  out :: "byte list list"
  writes_left :: nat
  write_error :: string

type_synonym 'a io = "conn \<Rightarrow> (string + 'a) \<times> conn"

definition ret :: "'a \<Rightarrow> 'a io" where
  "ret x c = (Inr x, c)"

definition fail :: "string \<Rightarrow> 'a io" where
  "fail e c = (Inl e, c)"

definition andThen :: "'a io \<Rightarrow> ('a \<Rightarrow> 'b io) \<Rightarrow> 'b io" where
  "andThen m f c = (case m c of (Inl e, c1) \<Rightarrow> (Inl e, c1) | (Inr x, c1) \<Rightarrow> f x c1)"

text \<open>\<open>conn.Write\<close> and \<open>io.ReadFull\<close>; \<open>ctx\<close> is the text the caller wraps around the error.\<close>

definition write_msg :: "string \<Rightarrow> byte list \<Rightarrow> unit io" where
  "write_msg ctx msg c =
     (case writes_left c of
        0 \<Rightarrow> (Inl (ctx @ '': '' @ write_error c), c)
      | Suc n \<Rightarrow> (Inr (), c\<lparr>writes_left := n, out := out c @ [msg]\<rparr>))"

definition ReadFull :: "string \<Rightarrow> nat \<Rightarrow> byte list io" where
  "ReadFull ctx n c =
     (if n \<le> length (inp c) then (Inr (take n (inp c)), c\<lparr>inp := drop n (inp c)\<rparr>)
      else (Inl (ctx @ '': '' @ (if inp c = [] then ''EOF'' else ''unexpected EOF'')), c\<lparr>inp := []\<rparr>))"

section \<open>Constants\<close>

definition socks5Version :: byte where "socks5Version = 5"
definition authNone :: byte where "authNone = 0"
definition authPassword :: byte where "authPassword = 2"
definition authNoAccept :: byte where "authNoAccept = 0xFF"
definition cmdConnect :: byte where "cmdConnect = 1"
definition cmdUDPAssociate :: byte where "cmdUDPAssociate = 3"
definition atypIPv4 :: byte where "atypIPv4 = 1"
definition atypDomain :: byte where "atypDomain = 3"
definition atypIPv6 :: byte where "atypIPv6 = 4"
definition replySuccess :: byte where "replySuccess = 0"

lemmas socks_consts = socks5Version_def authNone_def authPassword_def authNoAccept_def cmdConnect_def
  cmdUDPAssociate_def atypIPv4_def atypDomain_def atypIPv6_def replySuccess_def

definition socks5ReplyString :: "byte \<Rightarrow> string" where
  "socks5ReplyString code =
     (if code = 0 then ''success''
      else if code = 1 then ''general SOCKS server failure''
      else if code = 2 then ''connection not allowed by ruleset''
      else if code = 3 then ''network unreachable''
      else if code = 4 then ''host unreachable''
      else if code = 5 then ''connection refused''
      else if code = 6 then ''TTL expired''
      else if code = 7 then ''command not supported''
      else if code = 8 then ''address type not supported''
      else ''unknown error (code '' @ dec_string (unat code) @ '')'')"

section \<open>Handshake\<close>

definition bytes_of :: "string \<Rightarrow> byte list" where
  "bytes_of s = map of_char s"

definition string_of_bytes :: "byte list \<Rightarrow> string" where
  "string_of_bytes bs = map (\<lambda>b. char_of (unat b)) bs"

definition greeting :: "string \<Rightarrow> byte list" where
  "greeting username =
     (if username \<noteq> '''' then [socks5Version, 2, authNone, authPassword]
      else [socks5Version, 1, authNone])"

text \<open>\<open>byte(len(s))\<close> keeps the low eight bits of the length.\<close>

definition auth_request :: "string \<Rightarrow> string \<Rightarrow> byte list" where
  "auth_request username password =
     [1] @ [of_nat (length username)] @ bytes_of username @ [of_nat (length password)] @ bytes_of password"

definition socks5PasswordAuth :: "string \<Rightarrow> string \<Rightarrow> unit io" where
  "socks5PasswordAuth username password =
     (if username = '''' then fail ''proxy requires authentication but no credentials provided''
      else andThen (write_msg ''failed to send auth request'' (auth_request username password)) (\<lambda>_.
        andThen (ReadFull ''failed to read auth response'' 2) (\<lambda>resp.
          if resp ! 1 \<noteq> 0 then fail ''authentication failed: invalid credentials'' else ret ())))"

definition socks5Handshake :: "string \<Rightarrow> string \<Rightarrow> unit io" where
  "socks5Handshake username password =
     andThen (write_msg ''failed to send greeting'' (greeting username)) (\<lambda>_.
       andThen (ReadFull ''failed to read auth response'' 2) (\<lambda>resp.
         if resp ! 0 \<noteq> socks5Version then fail (''invalid SOCKS version: '' @ dec_string (unat (resp ! 0)))
         else if resp ! 1 = authNone then ret ()
         else if resp ! 1 = authPassword then socks5PasswordAuth username password
         else if resp ! 1 = authNoAccept then fail ''proxy rejected all authentication methods''
         else fail (''unsupported authentication method: '' @ dec_string (unat (resp ! 1)))))"

section \<open>CONNECT\<close>

definition put_uint16 :: "nat \<Rightarrow> byte list" where
  "put_uint16 n = [of_nat (n div 256), of_nat n]"

definition get_uint16 :: "byte list \<Rightarrow> nat" where
  "get_uint16 bs = unat (bs ! 0) * 256 + unat (bs ! 1)"

text \<open>\<open>net.LookupPort("tcp", port)\<close>: a number below 65536, or a service name.\<close>

definition LookupPort :: "(string \<Rightarrow> nat option) \<Rightarrow> string \<Rightarrow> nat option" where
  "LookupPort services port =
     (if port = '''' then Some 0
      else if list_all is_digit port then parse_uint 16 port else services port)"

definition target_address :: "string \<Rightarrow> byte list option" where
  "target_address host =
     (case ParseIP host of
        Some a \<Rightarrow>
          (case To4 a of
             Some a4 \<Rightarrow> Some ([atypIPv4] @ a4)
           | None \<Rightarrow> Some ([atypIPv6] @ (case To16 a of Some b \<Rightarrow> b | None \<Rightarrow> [])))
      | None \<Rightarrow>
          if length host > 255 then None
          else Some ([atypDomain] @ [of_nat (length host)] @ bytes_of host))"

definition skip_bound_address :: "byte \<Rightarrow> unit io" where
  "skip_bound_address atyp =
     (if atyp = atypIPv4 then andThen (ReadFull ''failed to read bound address'' 6) (\<lambda>_. ret ())
      else if atyp = atypDomain then
        andThen (ReadFull ''failed to read domain length'' 1) (\<lambda>lenByte.
          andThen (ReadFull ''failed to read domain and port'' (unat (lenByte ! 0) + 2)) (\<lambda>_. ret ()))
      else if atyp = atypIPv6 then andThen (ReadFull ''failed to read bound address'' 18) (\<lambda>_. ret ())
      else fail (''unsupported address type in reply: '' @ dec_string (unat atyp)))"

definition socks5Connect :: "(string \<Rightarrow> nat option) \<Rightarrow> string \<Rightarrow> string \<Rightarrow> unit io" where
  "socks5Connect services host port =
     (case LookupPort services port of
        None \<Rightarrow> fail (''invalid port: '' @ port)
      | Some portNum \<Rightarrow>
          (case target_address host of
             None \<Rightarrow> fail ''domain name too long''
           | Some addr \<Rightarrow>
               andThen (write_msg ''failed to send CONNECT request''
                  ([socks5Version, cmdConnect, 0] @ addr @ put_uint16 portNum)) (\<lambda>_.
               andThen (ReadFull ''failed to read reply header'' 4) (\<lambda>header.
                 if header ! 0 \<noteq> socks5Version then
                   fail (''invalid SOCKS version in reply: '' @ dec_string (unat (header ! 0)))
                 else if header ! 1 \<noteq> replySuccess then
                   fail (''CONNECT failed: '' @ socks5ReplyString (header ! 1) @ '' (reply='' @
                         dec_string (unat (header ! 1)) @ '')'')
                 else skip_bound_address (header ! 3)))))"

section \<open>The TCP dialer\<close>

text \<open>The fields of \<open>*url.URL\<close> that the proxies read; \<open>password\<close> is empty when it is not given.\<close>

record proxy_url =
  pu_Scheme :: string
  pu_Host :: string
  pu_User :: "(string \<times> string) option"

text \<open>\<open>URL.Hostname\<close> and \<open>URL.Port\<close>.\<close>

definition url_split_host :: "string \<Rightarrow> string \<times> string" where
  "url_split_host h =
     (let (h1, port) = (case last_index_of h '':'' of
            Some i \<Rightarrow> if list_all is_digit (drop (i + 1) h) then (take i h, drop (i + 1) h) else (h, '''')
          | None \<Rightarrow> (h, ''''))
      in (if has_prefix h1 ''['' \<and> has_suffix h1 '']'' then take (length h1 - 2) (drop 1 h1) else h1, port))"

record SOCKS5Dialer =
  proxyHost :: string
  proxyPort :: string
  d_username :: string
  d_password :: string
  d_timeout :: duration
  d_localAddr :: string

definition NewSOCKS5Dialer :: "string + proxy_url \<Rightarrow> string + SOCKS5Dialer" where
  "NewSOCKS5Dialer parsed =
     (case parsed of
        Inl err \<Rightarrow> Inl (''invalid proxy URL: '' @ err)
      | Inr u \<Rightarrow>
          if pu_Scheme u \<noteq> ''socks5'' \<and> pu_Scheme u \<noteq> ''socks5h'' then
            Inl (''unsupported proxy scheme: '' @ pu_Scheme u @ '' (need socks5 or socks5h)'')
          else
            let (host, port) = url_split_host (pu_Host u);
                (user, pass) = (case pu_User u of None \<Rightarrow> ('''', '''') | Some up \<Rightarrow> up)
            in Inr \<lparr>proxyHost = host, proxyPort = (if port = '''' then ''1080'' else port),
                    d_username = user, d_password = pass, d_timeout = 30 * second, d_localAddr = ''''\<rparr>)"

definition SetLocalAddr :: "string \<Rightarrow> SOCKS5Dialer \<Rightarrow> SOCKS5Dialer" where
  "SetLocalAddr addr d = d\<lparr>d_localAddr := addr\<rparr>"

definition IsSOCKS5URL :: "string + proxy_url \<Rightarrow> bool" where
  "IsSOCKS5URL parsed =
     (case parsed of Inl _ \<Rightarrow> False | Inr u \<Rightarrow> pu_Scheme u = ''socks5'' \<or> pu_Scheme u = ''socks5h'')"

text \<open>
  What the dialer's environment answers: the proxy host's addresses and, for an address, a
  connection. The result is the connection handed to the caller, or the error and the
  connection that was closed, if one was opened.
\<close>

record dial_env =
  LookupHost :: "string \<Rightarrow> string + string list"
  tcp_dial :: "string \<Rightarrow> string + conn"
  de_services :: "string \<Rightarrow> nat option"

definition DialContext :: "dial_env \<Rightarrow> SOCKS5Dialer \<Rightarrow> string \<Rightarrow> (string \<times> conn option) + conn" where
  "DialContext env d addr =
     (case SplitHostPort addr of
        None \<Rightarrow> Inl (''invalid target address: '' @ addr, None)
      | Some (targetHost, targetPort) \<Rightarrow>
          (case LookupHost env (proxyHost d) of
             Inl e \<Rightarrow> Inl (''failed to resolve proxy host '' @ proxyHost d @ '': '' @ e, None)
           | Inr [] \<Rightarrow> Inl (''no IP addresses found for proxy host '' @ proxyHost d, None)
           | Inr (proxyIP # _) \<Rightarrow>
               (case tcp_dial env (JoinHostPort proxyIP (proxyPort d)) of
                  Inl e \<Rightarrow> Inl (''failed to connect to SOCKS5 proxy: '' @ e, None)
                | Inr c0 \<Rightarrow>
                    (case socks5Handshake (d_username d) (d_password d) c0 of
                       (Inl e, c1) \<Rightarrow> Inl (''SOCKS5 handshake failed: '' @ e, Some c1)
                     | (Inr _, c1) \<Rightarrow>
                         (case socks5Connect (de_services env) targetHost targetPort c1 of
                            (Inl e, c2) \<Rightarrow> Inl (''SOCKS5 CONNECT failed: '' @ e, Some c2)
                          | (Inr _, c2) \<Rightarrow> Inr c2)))))"

section \<open>UDP ASSOCIATE\<close>

text \<open>The UDP client repeats the handshake of the TCP dialer.\<close>

definition udp_socks5PasswordAuth :: "string \<Rightarrow> string \<Rightarrow> unit io" where
  "udp_socks5PasswordAuth = socks5PasswordAuth"

definition udp_socks5Handshake :: "string \<Rightarrow> string \<Rightarrow> unit io" where
  "udp_socks5Handshake = socks5Handshake"

record UDPAddr =
  ua_IP :: ip
  ua_Port :: int

definition IsUnspecified :: "ip \<Rightarrow> bool" where
  "IsUnspecified a \<longleftrightarrow> a = [0, 0, 0, 0] \<or> a = v4_in_v6 @ [0, 0, 0, 0] \<or> a = replicate 16 0"

type_synonym ip_lookup = "string \<Rightarrow> string + ip list"

definition first_ip :: "string \<Rightarrow> ip_lookup \<Rightarrow> string \<Rightarrow> ip io" where
  "first_ip ctx lookup host =
     (case lookup host of
        Inl e \<Rightarrow> fail (ctx @ host @ '': '' @ e)
      | Inr [] \<Rightarrow> fail (ctx @ host @ '': '' @ ''%!w(<nil>)'')
      | Inr (a # _) \<Rightarrow> ret a)"

definition read_relay_address :: "ip_lookup \<Rightarrow> byte \<Rightarrow> ip io" where
  "read_relay_address lookup atyp =
     (if atyp = atypIPv4 then ReadFull ''failed to read IPv4 address'' 4
      else if atyp = atypDomain then
        andThen (ReadFull ''failed to read domain length'' 1) (\<lambda>lenByte.
          andThen (ReadFull ''failed to read domain'' (unat (lenByte ! 0))) (\<lambda>domain.
            first_ip ''failed to resolve relay domain '' lookup (string_of_bytes domain)))
      else if atyp = atypIPv6 then ReadFull ''failed to read IPv6 address'' 16
      else fail (''unsupported address type in reply: '' @ dec_string (unat atyp)))"

definition parseUDPAssociateReply :: "ip_lookup \<Rightarrow> string \<Rightarrow> UDPAddr io" where
  "parseUDPAssociateReply lookup phost =
     andThen (ReadFull ''failed to read reply header'' 4) (\<lambda>header.
       if header ! 0 \<noteq> socks5Version then
         fail (''invalid SOCKS version in reply: '' @ dec_string (unat (header ! 0)))
       else if header ! 1 \<noteq> replySuccess then
         fail (''UDP ASSOCIATE failed: '' @ socks5ReplyString (header ! 1))
       else
         andThen (read_relay_address lookup (header ! 3)) (\<lambda>relayIP.
         andThen (ReadFull ''failed to read port'' 2) (\<lambda>portBytes.
         andThen (if IsUnspecified relayIP then
                    (case ParseIP phost of
                       Some a \<Rightarrow> ret a
                     | None \<Rightarrow> first_ip ''failed to resolve proxy host '' lookup phost)
                  else ret relayIP) (\<lambda>relayIP.
           ret \<lparr>ua_IP = relayIP, ua_Port = int (get_uint16 portBytes)\<rparr>))))"

definition sendUDPAssociate :: "ip_lookup \<Rightarrow> string \<Rightarrow> UDPAddr io" where
  "sendUDPAssociate lookup phost =
     andThen (write_msg ''failed to send UDP ASSOCIATE''
        [socks5Version, cmdUDPAssociate, 0, atypIPv4, 0, 0, 0, 0, 0, 0]) (\<lambda>_.
       parseUDPAssociateReply lookup phost)"

section \<open>Datagrams\<close>

definition buildSOCKS5UDPHeader :: "UDPAddr \<Rightarrow> byte list" where
  "buildSOCKS5UDPHeader addr =
     [0, 0, 0] @
     (case To4 (ua_IP addr) of
        Some a4 \<Rightarrow> [atypIPv4] @ a4
      | None \<Rightarrow>
          (case To16 (ua_IP addr) of
             Some a16 \<Rightarrow> [atypIPv6] @ a16
           | None \<Rightarrow> [atypIPv4, 0, 0, 0, 0])) @
     put_uint16 (nat (ua_Port addr mod 65536))"

definition slice :: "nat \<Rightarrow> nat \<Rightarrow> 'a list \<Rightarrow> 'a list" where
  "slice a b xs = take (b - a) (drop a xs)"

definition parseSOCKS5UDPHeader :: "ip_lookup \<Rightarrow> byte list \<Rightarrow> string + (nat \<times> UDPAddr)" where
  "parseSOCKS5UDPHeader lookup packet =
     (if length packet < 10 then Inl ''packet too small''
      else if packet ! 2 \<noteq> 0 then
        Inl (''fragmented packets not supported (frag='' @ dec_string (unat (packet ! 2)) @ '')'')
      else if packet ! 3 = atypIPv4 then
        Inr (10, \<lparr>ua_IP = slice 4 8 packet, ua_Port = int (get_uint16 (slice 8 10 packet))\<rparr>)
      else if packet ! 3 = atypDomain then
        (let domainLen = unat (packet ! 4) in
         if length packet < 7 + domainLen then Inl ''packet too small for domain''
         else
           let domain = slice 5 (5 + domainLen) packet;
               a = (case lookup (string_of_bytes domain) of Inr (a # _) \<Rightarrow> a | _ \<Rightarrow> v4_in_v6 @ [0, 0, 0, 0])
           in Inr (7 + domainLen,
                \<lparr>ua_IP = a, ua_Port = int (get_uint16 (slice (5 + domainLen) (7 + domainLen) packet))\<rparr>))
      else if packet ! 3 = atypIPv6 then
        (if length packet < 22 then Inl ''packet too small for IPv6 address''
         else Inr (22, \<lparr>ua_IP = slice 4 20 packet, ua_Port = int (get_uint16 (slice 20 22 packet))\<rparr>))
      else Inl (''unsupported address type: '' @ dec_string (unat (packet ! 3))))"

section \<open>The UDP connection\<close>

record SOCKS5UDPConn =
  uc_tcp :: "conn option"
  uc_udp :: bool
  uc_relay :: "UDPAddr option"
  uc_proxyHost :: string
  uc_proxyPort :: string
  uc_username :: string
  uc_password :: string
  uc_established :: bool
  uc_closed :: bool
  uc_lastActivity :: "time option"
  uc_writeCount :: int
  uc_readDeadline :: "time option"
  uc_writeDeadline :: "time option"
  uc_sent :: "(byte list \<times> UDPAddr option) list"

definition NewSOCKS5UDPConn :: "string + proxy_url \<Rightarrow> string + SOCKS5UDPConn" where
  "NewSOCKS5UDPConn parsed =
     (case parsed of
        Inl err \<Rightarrow> Inl (''invalid proxy URL: '' @ err)
      | Inr u \<Rightarrow>
          if pu_Scheme u \<noteq> ''socks5'' \<and> pu_Scheme u \<noteq> ''socks5h'' then
            Inl (''unsupported proxy scheme: '' @ pu_Scheme u @ '' (need socks5)'')
          else
            let (host, port) = url_split_host (pu_Host u);
                (user, pass) = (case pu_User u of None \<Rightarrow> ('''', '''') | Some up \<Rightarrow> up)
            in Inr \<lparr>uc_tcp = None, uc_udp = False, uc_relay = None, uc_proxyHost = host,
                    uc_proxyPort = (if port = '''' then ''1080'' else port), uc_username = user,
                    uc_password = pass, uc_established = False, uc_closed = False,
                    uc_lastActivity = None, uc_writeCount = 0, uc_readDeadline = None,
                    uc_writeDeadline = None, uc_sent = []\<rparr>)"

definition isRetryableError :: "string \<Rightarrow> bool" where
  "isRetryableError err \<longleftrightarrow> contains err ''reply=1'' \<or> contains err ''general''"

text \<open>One attempt's environment: dialling, address lookup, the UDP socket and the context.\<close>

record attempt =
  at_dial :: dial_env
  at_LookupIP :: ip_lookup
  at_ListenUDP :: "string option"
  at_ctx_err :: "string option"

definition tryEstablish :: "attempt \<Rightarrow> SOCKS5UDPConn \<Rightarrow> string option \<times> SOCKS5UDPConn" where
  "tryEstablish a c =
     (case LookupHost (at_dial a) (uc_proxyHost c) of
        Inl e \<Rightarrow> (Some (''failed to resolve proxy host '' @ uc_proxyHost c @ '': '' @ e), c)
      | Inr [] \<Rightarrow> (Some (''no IP addresses found for proxy host '' @ uc_proxyHost c), c)
      | Inr (proxyIP # _) \<Rightarrow>
          (case tcp_dial (at_dial a) (JoinHostPort proxyIP (uc_proxyPort c)) of
             Inl e \<Rightarrow> (Some (''failed to connect to SOCKS5 proxy: '' @ e), c)
           | Inr tcp0 \<Rightarrow>
               (case udp_socks5Handshake (uc_username c) (uc_password c) tcp0 of
                  (Inl e, tcp1) \<Rightarrow> (Some (''SOCKS5 handshake failed: '' @ e), c\<lparr>uc_tcp := Some tcp1\<rparr>)
                | (Inr _, tcp1) \<Rightarrow>
                    (case at_ListenUDP a of
                       Some e \<Rightarrow> (Some (''failed to create UDP socket: '' @ e), c\<lparr>uc_tcp := Some tcp1\<rparr>)
                     | None \<Rightarrow>
                         (case sendUDPAssociate (at_LookupIP a) (uc_proxyHost c) tcp1 of
                            (Inl e, tcp2) \<Rightarrow> (Some e, c\<lparr>uc_tcp := Some tcp2, uc_udp := True\<rparr>)
                          | (Inr relay, tcp2) \<Rightarrow>
                              (None, c\<lparr>uc_tcp := Some tcp2, uc_udp := True, uc_relay := Some relay\<rparr>))))))"

definition ErrClosed :: string where
  "ErrClosed = ''use of closed network connection''"

fun establish_loop :: "time \<Rightarrow> attempt list \<Rightarrow> string \<Rightarrow> SOCKS5UDPConn \<Rightarrow> string option \<times> SOCKS5UDPConn" where
  "establish_loop now [] lastErr c = (Some (''UDP ASSOCIATE failed after 5 attempts: '' @ lastErr), c)"
| "establish_loop now (a # rest) lastErr c =
     (case tryEstablish a c of
        (None, c1) \<Rightarrow> (None, c1\<lparr>uc_established := True, uc_lastActivity := Some now\<rparr>)
      | (Some err, c1) \<Rightarrow>
          let c2 = c1\<lparr>uc_udp := False, uc_tcp := None\<rparr> in
          if \<not> isRetryableError err then (Some err, c2)
          else case at_ctx_err a of
              Some e \<Rightarrow> (Some e, c2)
            | None \<Rightarrow> establish_loop now rest err c2)"

definition Establish :: "time \<Rightarrow> (nat \<Rightarrow> attempt) \<Rightarrow> SOCKS5UDPConn \<Rightarrow> string option \<times> SOCKS5UDPConn" where
  "Establish now env c =
     (if uc_established c then (None, c)
      else if uc_closed c then (Some ErrClosed, c)
      else establish_loop now (map env [0..<5]) '''' c)"

text \<open>\<open>addr\<close> is \<open>None\<close> for an address of another type; \<open>answer\<close> is the outcome of the socket write.\<close>

definition WriteTo ::
  "time \<Rightarrow> string + nat \<Rightarrow> byte list \<Rightarrow> UDPAddr option \<Rightarrow> SOCKS5UDPConn \<Rightarrow> (string + nat) \<times> SOCKS5UDPConn" where
  "WriteTo now answer b addr c =
     (if uc_closed c then (Inl ErrClosed, c)
      else if \<not> uc_established c then (Inl ''SOCKS5 UDP connection not established'', c)
      else case addr of
          None \<Rightarrow> (Inl ''invalid address type: (expected *net.UDPAddr)'', c)
        | Some udpAddr \<Rightarrow>
            let header = buildSOCKS5UDPHeader udpAddr;
                c1 = c\<lparr>uc_sent := uc_sent c @ [(header @ b, uc_relay c)]\<rparr>
            in case answer of
                Inl e \<Rightarrow> (Inl (''failed to write to relay: '' @ e), c1)
              | Inr n \<Rightarrow>
                  (Inr (n - length header),
                   c1\<lparr>uc_lastActivity := Some now, uc_writeCount := wrap64 (uc_writeCount c + 1)\<rparr>))"

text \<open>\<open>blen\<close> is the length of the caller's buffer; \<open>answer\<close> is the datagram read from the socket.\<close>

definition ReadFrom ::
  "time \<Rightarrow> ip_lookup \<Rightarrow> string + byte list \<Rightarrow> nat \<Rightarrow> SOCKS5UDPConn \<Rightarrow>
   (string + (byte list \<times> UDPAddr)) \<times> SOCKS5UDPConn" where
  "ReadFrom now lookup answer blen c =
     (if uc_closed c then (Inl ErrClosed, c)
      else if \<not> uc_established c then (Inl ''SOCKS5 UDP connection not established'', c)
      else case answer of
          Inl e \<Rightarrow> (Inl e, c)
        | Inr packet \<Rightarrow>
            (case parseSOCKS5UDPHeader lookup packet of
               Inl e \<Rightarrow> (Inl (''invalid SOCKS5 UDP header: '' @ e), c)
             | Inr (dataOffset, srcAddr) \<Rightarrow>
                 (Inr (slice dataOffset (dataOffset + min (length packet - dataOffset) blen) packet, srcAddr),
                  c\<lparr>uc_lastActivity := Some now\<rparr>)))"

definition udp_Close :: "string option \<Rightarrow> string option \<Rightarrow> SOCKS5UDPConn \<Rightarrow> string option \<times> SOCKS5UDPConn" where
  "udp_Close udp_err tcp_err c =
     (if uc_closed c then (None, c)
      else
        let errs = (if uc_udp c then (case udp_err of None \<Rightarrow> [] | Some e \<Rightarrow> [e]) else []) @
                   (if uc_tcp c \<noteq> None then (case tcp_err of None \<Rightarrow> [] | Some e \<Rightarrow> [e]) else [])
        in (case errs of [] \<Rightarrow> None | e # _ \<Rightarrow> Some e,
            c\<lparr>uc_closed := True, uc_udp := False, uc_tcp := None\<rparr>))"

text \<open>One round of the keep-alive goroutine: it goes on after a timeout or data, and closes on an error.\<close>

datatype tcp_read = ReadTimeout | ReadData | ReadError

definition tcpKeepalive_round :: "tcp_read \<Rightarrow> SOCKS5UDPConn \<Rightarrow> bool \<times> SOCKS5UDPConn" where
  "tcpKeepalive_round r c =
     (if uc_closed c \<or> uc_tcp c = None then (False, c)
      else case r of
          ReadError \<Rightarrow> (False, snd (udp_Close None None c))
        | _ \<Rightarrow> (True, c))"

definition SetDeadline :: "time option \<Rightarrow> SOCKS5UDPConn \<Rightarrow> SOCKS5UDPConn" where
  "SetDeadline t c = c\<lparr>uc_readDeadline := t, uc_writeDeadline := t\<rparr>"

definition IsEstablished :: "SOCKS5UDPConn \<Rightarrow> bool" where
  "IsEstablished c = uc_established c"

section \<open>Credentials\<close>

lemma of_nat_length_byte: "n < 256 \<Longrightarrow> unat (of_nat n :: byte) = n"
  by (simp add: unat_of_nat)

text \<open>
  The handshake keeps the credentials to itself until they are asked for. It writes the
  greeting and nothing else, unless the client has a user name and the proxy's answer selects
  the password method; then it writes one authentication request. It succeeds only if the
  proxy selected no authentication, or accepted that request.\<close>

theorem handshake_credentials:
  assumes "socks5Handshake user pass c = (r, c')"
  shows "(out c' = out c \<or> out c' = out c @ [greeting user] \<or>
      (out c' = out c @ [greeting user, auth_request user pass] \<and> user \<noteq> '''' \<and>
       length (inp c) \<ge> 2 \<and> inp c ! 0 = socks5Version \<and> inp c ! 1 = authPassword)) \<and>
    (r = Inr () \<longrightarrow>
      (take 2 (inp c) = [socks5Version, authNone] \<and> inp c' = drop 2 (inp c)) \<or>
      (user \<noteq> '''' \<and> out c' = out c @ [greeting user, auth_request user pass] \<and> length (inp c) \<ge> 4 \<and>
       take 2 (inp c) = [socks5Version, authPassword] \<and> inp c ! 3 = 0 \<and> inp c' = drop 4 (inp c)))"
proof -
  have two: "length xs \<ge> 2 \<Longrightarrow> take 2 xs = [xs ! 0, xs ! 1]" for xs :: "byte list"
    by (cases xs; cases "tl xs") auto
  have three: "drop 2 xs ! 1 = xs ! 3" if "length xs \<ge> 4" for xs :: "byte list"
    using that by simp
  show ?thesis
    using assms two [of "inp c"] three [of "inp c"]
    by (auto simp: socks5Handshake_def socks5PasswordAuth_def andThen_def write_msg_def ReadFull_def
        fail_def ret_def socks_consts add.commute split: nat.splits if_splits prod.splits)
qed

definition plain_conn :: "byte list \<Rightarrow> conn" where
  "plain_conn bs = \<lparr>inp = bs, out = [], writes_left = 9, write_error = ''''\<rparr>"

theorem handshake_credentials_witness:
  "fst (socks5Handshake ''u'' ''p'' (plain_conn [5, 2, 1, 0, 7])) = Inr () \<and>
   inp (snd (socks5Handshake ''u'' ''p'' (plain_conn [5, 2, 1, 0, 7]))) = [7]"
proof -
  let ?c = "plain_conn [5, 2, 1, 0, 7]"
  have ok: "fst (socks5Handshake ''u'' ''p'' ?c) = Inr ()"
    by (simp add: socks5Handshake_def socks5PasswordAuth_def andThen_def write_msg_def ReadFull_def ret_def
        socks_consts plain_conn_def eval_nat_numeral)
  obtain c' where c': "socks5Handshake ''u'' ''p'' ?c = (Inr (), c')"
    using ok by (metis prod.collapse)
  show ?thesis
    using handshake_credentials [OF c'] c' by (auto simp: plain_conn_def socks_consts)
qed

section \<open>The proxy's view of the messages\<close>

text \<open>A proxy's reader of the authentication request (RFC 1929) and of the request (RFC 1928).\<close>

definition server_auth :: "byte list \<Rightarrow> (string \<times> string) option" where
  "server_auth msg =
     (case msg of
        ver # n # r1 \<Rightarrow>
          (case drop (unat n) r1 of
             m # r2 \<Rightarrow>
               if length r1 > unat n \<and> unat m \<le> length r2
               then Some (string_of_bytes (take (unat n) r1), string_of_bytes (take (unat m) r2)) else None
           | [] \<Rightarrow> None)
      | _ \<Rightarrow> None)"

datatype server_addr = AddrV4 "byte list" | AddrV6 "byte list" | AddrDomain string

definition server_request :: "byte list \<Rightarrow> (server_addr \<times> nat) option" where
  "server_request msg =
     (case msg of
        v # cmd # rsv # atyp # rest \<Rightarrow>
          if v \<noteq> 5 \<or> cmd \<noteq> 1 then None
          else if atyp = 1 \<and> length rest = 6 then Some (AddrV4 (take 4 rest), get_uint16 (drop 4 rest))
          else if atyp = 4 \<and> length rest = 18 then Some (AddrV6 (take 16 rest), get_uint16 (drop 16 rest))
          else if atyp = 3 then
            (case rest of
               n # r \<Rightarrow>
                 if length r = unat n + 2
                 then Some (AddrDomain (string_of_bytes (take (unat n) r)), get_uint16 (drop (unat n) r)) else None
             | [] \<Rightarrow> None)
          else None
      | _ \<Rightarrow> None)"

lemma string_of_bytes_of [simp]: "string_of_bytes (bytes_of s) = s"
proof -
  have "char_of (unat (of_char c :: byte)) = c" for c
  proof -
    have "of_char c < (256 :: nat)" by (rule nat_of_char_less_256)
    moreover have "(of_char c :: byte) = of_nat (of_char c)" by (simp only: of_nat_of_char)
    ultimately have "unat (of_char c :: byte) = of_char c" by (metis of_nat_length_byte)
    then show ?thesis by simp
  qed
  then show ?thesis by (simp add: string_of_bytes_def bytes_of_def comp_def)
qed

lemma length_bytes_of [simp]: "length (bytes_of s) = length s"
  by (simp add: bytes_of_def)

lemma get_put_uint16 [simp]: "p < 65536 \<Longrightarrow> get_uint16 (put_uint16 p) = p"
  by (simp add: get_uint16_def put_uint16_def unat_of_nat unsigned_of_nat take_bit_eq_mod)

lemma length_put_uint16 [simp]: "length (put_uint16 p) = 2"
  by (simp add: put_uint16_def)

lemma LookupPort_bound: "(\<And>s p. services s = Some p \<Longrightarrow> p < 65536) \<Longrightarrow> LookupPort services port = Some p \<Longrightarrow> p < 65536"
  by (auto simp: LookupPort_def parse_uint_def split: if_splits)

lemma target_cases:
  "target_address host = Some a \<longleftrightarrow>
   (case ParseIP host of
      Some ip \<Rightarrow> (case To4 ip of Some b \<Rightarrow> a = atypIPv4 # b \<and> length b = 4 | None \<Rightarrow> a = atypIPv6 # ip \<and> length ip = 16)
    | None \<Rightarrow> length host \<le> 255 \<and> a = atypDomain # of_nat (length host) # bytes_of host)"
  by (auto simp: target_address_def To16_def dest: length_To4 length_ParseIP split: option.splits)

text \<open>
  The proxy reads what the client meant: the authentication request parses back to the user
  name and password when neither is longer than 255 bytes, and the CONNECT request, which is
  refused for longer host names, parses back to the address literal or domain name and port.\<close>

theorem proxy_reads_request:
  assumes "target_address host = Some a" and "p < 65536"
    and "length user \<le> 255" and "length pass \<le> 255"
  shows "server_auth (auth_request user pass) = Some (user, pass) \<and>
    server_request ([socks5Version, cmdConnect, 0] @ a @ put_uint16 p) =
      Some (case ParseIP host of
          None \<Rightarrow> AddrDomain host
        | Some ip \<Rightarrow> (case To4 ip of Some b \<Rightarrow> AddrV4 b | None \<Rightarrow> AddrV6 ip), p)"
proof
  show "server_auth (auth_request user pass) = Some (user, pass)"
    using assms(3,4) by (simp add: server_auth_def auth_request_def of_nat_length_byte)
  show "server_request ([socks5Version, cmdConnect, 0] @ a @ put_uint16 p) =
      Some (case ParseIP host of
          None \<Rightarrow> AddrDomain host
        | Some ip \<Rightarrow> (case To4 ip of Some b \<Rightarrow> AddrV4 b | None \<Rightarrow> AddrV6 ip), p)"
    using assms(1,2) unfolding target_cases
    by (auto simp: server_request_def socks_consts of_nat_length_byte split: option.splits)
qed

theorem proxy_reads_request_witness:
  "target_address ''shop.test'' = Some (3 # 9 # bytes_of ''shop.test'') \<and>
   server_request ([5, 1, 0] @ (3 # 9 # bytes_of ''shop.test'') @ put_uint16 443) = Some (AddrDomain ''shop.test'', 443)"
proof -
  have p: "ParseIP ''shop.test'' = None" by code_simp
  then have t: "target_address ''shop.test'' = Some (3 # 9 # bytes_of ''shop.test'')"
    by (simp add: target_address_def socks_consts)
  show ?thesis
    using proxy_reads_request [OF t, of 443 "[]" "[]"] t p by (simp add: socks_consts)
qed

text \<open>
  The length bytes of the authentication request wrap: with a user name of 256 bytes the proxy
  reads an empty user name, and takes the name's own bytes for the password.\<close>

theorem long_user_name_misread:
  "server_auth (auth_request (CHR 0x02 # replicate 255 CHR ''a'') ''secret'') = Some ([], ''aa'')"
  by code_simp

section \<open>Framing\<close>

text \<open>A successful reply with its bound address and port.\<close>

definition bound_reply :: "byte list \<Rightarrow> bool" where
  "bound_reply bs \<longleftrightarrow>
     length bs \<ge> 4 \<and> bs ! 0 = socks5Version \<and> bs ! 1 = replySuccess \<and>
     (bs ! 3 = atypIPv4 \<and> length bs = 10 \<or>
      bs ! 3 = atypDomain \<and> length bs \<ge> 5 \<and> length bs = 7 + unat (bs ! 4) \<or>
      bs ! 3 = atypIPv6 \<and> length bs = 22)"

text \<open>How many bytes the reply at the head of the input takes, if it is a successful one.\<close>

definition reply_length :: "byte list \<Rightarrow> nat option" where
  "reply_length i =
     (if length i < 4 \<or> i ! 0 \<noteq> socks5Version \<or> i ! 1 \<noteq> replySuccess then None
      else if i ! 3 = atypIPv4 then if length i \<ge> 10 then Some 10 else None
      else if i ! 3 = atypDomain then
        if length i \<ge> 5 \<and> length i \<ge> 7 + unat (i ! 4) then Some (7 + unat (i ! 4)) else None
      else if i ! 3 = atypIPv6 then if length i \<ge> 22 then Some 22 else None
      else None)"

lemma reply_length_bound: "reply_length i = Some n \<longleftrightarrow> n \<le> length i \<and> bound_reply (take n i)"
proof (cases "4 < n")
  case True
  then have "take n i ! 0 = i ! 0" "take n i ! 1 = i ! 1" "take n i ! 3 = i ! 3" "take n i ! 4 = i ! 4"
    by simp_all
  then show ?thesis
    unfolding bound_reply_def reply_length_def socks_consts by (auto simp: min_def split: if_splits)
next
  case False
  then show ?thesis by (auto simp: reply_length_def bound_reply_def socks_consts)
qed

lemma skip_bound_address_run:
  "4 \<le> length i \<Longrightarrow> i ! 0 = socks5Version \<Longrightarrow> i ! 1 = replySuccess \<Longrightarrow>
   skip_bound_address (i ! 3) (c\<lparr>inp := drop 4 i\<rparr>) = (Inr (), c') \<longleftrightarrow>
   (\<exists>n. reply_length i = Some n \<and> c' = c\<lparr>inp := drop n i\<rparr>)"
  by (auto simp: skip_bound_address_def andThen_def ReadFull_def ret_def fail_def reply_length_def socks_consts
      add.commute split: if_splits)

text \<open>C40.
  The tunnel starts at the right byte. A CONNECT succeeds if and only if the request could be
  written and the proxy's input begins with a complete successful reply; then exactly the
  request was sent, and what is left to read is the input after that reply, whichever kind of
  bound address it carries.\<close>

theorem connect_framing:
  assumes "LookupPort services port = Some p" and "target_address host = Some a"
  shows "socks5Connect services host port c = (Inr (), c') \<longleftrightarrow>
    (\<exists>k reply. writes_left c = Suc k \<and> bound_reply reply \<and> inp c = reply @ inp c' \<and>
       c' = c\<lparr>inp := inp c', writes_left := k,
              out := out c @ [[socks5Version, cmdConnect, 0] @ a @ put_uint16 p]\<rparr>)"
proof -
  have iff: "(\<exists>n. reply_length i = Some n \<and> c' = d\<lparr>inp := drop n i\<rparr>) \<longleftrightarrow>
      (\<exists>reply. bound_reply reply \<and> i = reply @ inp c' \<and> c' = d\<lparr>inp := inp c'\<rparr>)" for i d
  proof
    assume "\<exists>n. reply_length i = Some n \<and> c' = d\<lparr>inp := drop n i\<rparr>"
    then obtain n where n: "n \<le> length i" "bound_reply (take n i)" "c' = d\<lparr>inp := drop n i\<rparr>"
      by (auto simp: reply_length_bound)
    then show "\<exists>reply. bound_reply reply \<and> i = reply @ inp c' \<and> c' = d\<lparr>inp := inp c'\<rparr>"
      by (intro exI [of _ "take n i"]) simp
  next
    assume "\<exists>reply. bound_reply reply \<and> i = reply @ inp c' \<and> c' = d\<lparr>inp := inp c'\<rparr>"
    then obtain reply where r: "bound_reply reply" "i = reply @ inp c'" "c' = d\<lparr>inp := inp c'\<rparr>" by blast
    then have "reply_length i = Some (length reply)" by (simp add: reply_length_bound)
    moreover have "drop (length reply) i = inp c'" using r(2) by (metis append_eq_conv_conj)
    ultimately show "\<exists>n. reply_length i = Some n \<and> c' = d\<lparr>inp := drop n i\<rparr>" using r(3) by auto
  qed
  let ?req = "[socks5Version, cmdConnect, 0] @ a @ put_uint16 p"
  have short: "reply_length i = None" if "length i < 4 \<or> i ! 0 \<noteq> socks5Version \<or> i ! 1 \<noteq> replySuccess" for i
    using that by (auto simp: reply_length_def)
  show ?thesis
  proof (cases "writes_left c")
    case (Suc k)
    let ?d = "c\<lparr>writes_left := k, out := out c @ [?req]\<rparr>"
    have "socks5Connect services host port c = (Inr (), c') \<longleftrightarrow>
        (\<exists>n. reply_length (inp c) = Some n \<and> c' = ?d\<lparr>inp := drop n (inp c)\<rparr>)"
    proof (cases "length (inp c) < 4 \<or> inp c ! 0 \<noteq> socks5Version \<or> inp c ! 1 \<noteq> replySuccess")
      case True
      then show ?thesis
        using short [of "inp c"] assms Suc
        by (auto simp: socks5Connect_def andThen_def write_msg_def ReadFull_def fail_def)
    next
      case False
      then show ?thesis
        using assms Suc skip_bound_address_run [of "inp c" ?d c']
        by (simp add: socks5Connect_def andThen_def write_msg_def ReadFull_def)
    qed
    then have run: "socks5Connect services host port c = (Inr (), c') \<longleftrightarrow>
        (\<exists>reply. bound_reply reply \<and> inp c = reply @ inp c' \<and> c' = ?d\<lparr>inp := inp c'\<rparr>)"
      unfolding iff .
    have comm: "?d\<lparr>inp := x\<rparr> = c\<lparr>inp := x, writes_left := k, out := out c @ [?req]\<rparr>" for x
      by (cases c) simp
    show ?thesis unfolding run comm using Suc by simp
  qed (use assms in \<open>auto simp: socks5Connect_def andThen_def write_msg_def\<close>)
qed

theorem connect_framing_witness:
  "\<exists>c'. socks5Connect (\<lambda>_. None) ''1.2.3.4'' ''443'' (plain_conn ([5, 0, 0, 1, 0, 0, 0, 0, 0, 0] @ [22, 3, 1])) = (Inr (), c') \<and>
     inp c' = [22, 3, 1] \<and> out c' = [[5, 1, 0, 1, 1, 2, 3, 4, 1, 187]]"
proof -
  have p: "LookupPort (\<lambda>_. None) ''443'' = Some 443"
  proof -
    have "digits_val ''443'' = 443" "list_all is_digit ''443''" by code_simp+
    then show ?thesis by (simp add: LookupPort_def parse_uint_def)
  qed
  have a: "target_address ''1.2.3.4'' = Some [1, 1, 2, 3, 4]" by code_simp
  let ?c = "plain_conn ([5, 0, 0, 1, 0, 0, 0, 0, 0, 0] @ [22, 3, 1])"
  let ?c' = "?c\<lparr>inp := [22, 3, 1], writes_left := 8, out := [[5, 1, 0, 1, 1, 2, 3, 4, 1, 187]]\<rparr>"
  have "socks5Connect (\<lambda>_. None) ''1.2.3.4'' ''443'' ?c = (Inr (), ?c')"
    unfolding connect_framing [OF p a]
    by (intro exI [of _ 8] exI [of _ "[5, 0, 0, 1, 0, 0, 0, 0, 0, 0]"])
      (simp add: plain_conn_def bound_reply_def socks_consts put_uint16_def)
  then show ?thesis by (intro exI [of _ ?c']) simp
qed

section \<open>Datagrams\<close>

text \<open>
  Datagram headers round-trip: the header built for an address of either family and a port
  below 65536 parses back, whatever data follows, to the offset of that data, the address (an
  IPv4-mapped one as IPv4) and the port; and whatever packet arrives, a parsed data offset is
  within the packet, so that the slice after it is in bounds.\<close>

theorem udp_header_roundtrip:
  assumes "To16 (ua_IP addr) \<noteq> None" and "0 \<le> ua_Port addr" and "ua_Port addr < 65536"
  shows "parseSOCKS5UDPHeader lookup (buildSOCKS5UDPHeader addr @ payload) =
      Inr (length (buildSOCKS5UDPHeader addr),
        addr\<lparr>ua_IP := (case To4 (ua_IP addr) of Some b \<Rightarrow> b | None \<Rightarrow> ua_IP addr)\<rparr>) \<and>
    (case parseSOCKS5UDPHeader lookup packet of Inl _ \<Rightarrow> True | Inr (off, _) \<Rightarrow> off \<le> length packet)"
proof
  have port: "get_uint16 (put_uint16 (nat (ua_Port addr mod 65536))) = nat (ua_Port addr)"
    using assms(2,3) by simp
  obtain p0 p1 where pp: "put_uint16 (nat (ua_Port addr mod 65536)) = [p0, p1]" by (simp add: put_uint16_def)
  show "parseSOCKS5UDPHeader lookup (buildSOCKS5UDPHeader addr @ payload) =
      Inr (length (buildSOCKS5UDPHeader addr),
        addr\<lparr>ua_IP := (case To4 (ua_IP addr) of Some b \<Rightarrow> b | None \<Rightarrow> ua_IP addr)\<rparr>)"
  proof (cases "To4 (ua_IP addr)")
    case (Some b)
    then have "length b = 4" by (rule length_To4)
    with Some port assms(2) show ?thesis
      by (auto simp: buildSOCKS5UDPHeader_def parseSOCKS5UDPHeader_def slice_def socks_consts pp)
  next
    case None
    then have l: "length (ua_IP addr) = 16" "To16 (ua_IP addr) = Some (ua_IP addr)"
      using assms(1) by (auto simp: To4_def To16_def split: if_splits)
    with None port assms(2) show ?thesis
      by (auto simp: buildSOCKS5UDPHeader_def parseSOCKS5UDPHeader_def slice_def socks_consts pp)
  qed
  show "case parseSOCKS5UDPHeader lookup packet of Inl _ \<Rightarrow> True | Inr (off, _) \<Rightarrow> off \<le> length packet"
    by (auto simp: parseSOCKS5UDPHeader_def Let_def)
qed

theorem udp_header_roundtrip_witness:
  "parseSOCKS5UDPHeader (\<lambda>_. Inr []) (buildSOCKS5UDPHeader \<lparr>ua_IP = [8, 8, 8, 8], ua_Port = 53\<rparr> @ [9]) =
     Inr (10, \<lparr>ua_IP = [8, 8, 8, 8], ua_Port = 53\<rparr>)"
  using udp_header_roundtrip [of "\<lparr>ua_IP = [8, 8, 8, 8], ua_Port = 53\<rparr>" "\<lambda>_. Inr []" "[9]"]
  by (simp add: To16_def To4_def buildSOCKS5UDPHeader_def put_uint16_def)

section \<open>Life cycle of the UDP connection\<close>

text \<open>
  After \<open>Close\<close> reads and writes fail with the closed-connection error and no datagram is sent;
  but a connection that was established still reports so, and a second \<open>Establish\<close> returns
  success without connecting, because it tests \<open>established\<close> before \<open>closed\<close>.\<close>

theorem closed_udp_connection:
  "let d = snd (udp_Close udp_err tcp_err c) in
     WriteTo now w b addr d = (Inl ErrClosed, d) \<and>
     ReadFrom now lookup answer n d = (Inl ErrClosed, d) \<and>
     IsEstablished d = IsEstablished c \<and>
     Establish now env d = (if uc_established c then (None, d) else (Some ErrClosed, d))"
  by (auto simp: udp_Close_def WriteTo_def ReadFrom_def Establish_def IsEstablished_def Let_def)

end
