(* ===== verification/ConnPool.thy ===== *)
theory ConnPool
  imports Prelude NetIp Base64 Socks5
begin

text \<open>
  The HTTP/2 connection pool, \<open>pool/pool.go\<close>: per-host pools and their manager, the Happy
  Eyeballs dialer, and the pool's own proxy clients. Connections have an identity; whether an
  HTTP/2 connection can take a request is an argument. \<open>HostPool.GetConn\<close> releases its mutex
  while it dials, so it is two steps, \<open>GetConn_begin\<close> and \<open>GetConn_finish\<close>, around the creation.
\<close>

section \<open>Connections and host pools\<close>

record Conn =
  c_id :: nat
  c_CreatedAt :: time
  c_LastUsedAt :: time
  c_UseCount :: int
  c_closed :: bool

definition Conn_IsHealthy :: "(nat \<Rightarrow> bool) \<Rightarrow> Conn \<Rightarrow> bool" where
  "Conn_IsHealthy can_take c \<longleftrightarrow> \<not> c_closed c \<and> can_take (c_id c)"

definition Conn_Age :: "time \<Rightarrow> Conn \<Rightarrow> duration" where
  "Conn_Age now c = now - c_CreatedAt c"

definition Conn_IdleTime :: "time \<Rightarrow> Conn \<Rightarrow> duration" where
  "Conn_IdleTime now c = now - c_LastUsedAt c"

definition Conn_MarkUsed :: "time \<Rightarrow> Conn \<Rightarrow> Conn" where
  "Conn_MarkUsed now c = c\<lparr>c_LastUsedAt := now, c_UseCount := wrap64 (c_UseCount c + 1)\<rparr>"

record HostPool =
  hp_host :: string
  hp_sniHost :: string
  hp_port :: string
  hp_connections :: "Conn list"
  hp_closing :: "nat list"
  hp_maxConns :: int
  hp_maxIdleTime :: duration
  hp_maxConnAge :: duration
  hp_connectTimeout :: duration
  hp_proxyURL :: string
  hp_localAddr :: string
  hp_echConfig :: "byte list"
  hp_echConfigDomain :: string

definition NewHostPoolWithConfig :: "string \<Rightarrow> string \<Rightarrow> string \<Rightarrow> string \<Rightarrow> HostPool" where
  "NewHostPoolWithConfig host sniHost port proxyURL =
     \<lparr>hp_host = host, hp_sniHost = (if sniHost = '''' then host else sniHost), hp_port = port,
      hp_connections = [], hp_closing = [], hp_maxConns = 0, hp_maxIdleTime = 90 * second,
      hp_maxConnAge = 5 * minute, hp_connectTimeout = 30 * second, hp_proxyURL = proxyURL,
      hp_localAddr = '''', hp_echConfig = [], hp_echConfigDomain = ''''\<rparr>"

definition SetMaxConns :: "int \<Rightarrow> HostPool \<Rightarrow> HostPool" where
  "SetMaxConns n p = p\<lparr>hp_maxConns := n\<rparr>"

definition SetECHConfig :: "byte list \<Rightarrow> HostPool \<Rightarrow> HostPool" where
  "SetECHConfig ech p = p\<lparr>hp_echConfig := ech\<rparr>"

definition SetECHConfigDomain :: "string \<Rightarrow> HostPool \<Rightarrow> HostPool" where
  "SetECHConfigDomain d p = p\<lparr>hp_echConfigDomain := d\<rparr>"

definition usable :: "time \<Rightarrow> (nat \<Rightarrow> bool) \<Rightarrow> HostPool \<Rightarrow> Conn \<Rightarrow> bool" where
  "usable now can_take p c \<longleftrightarrow>
     Conn_IsHealthy can_take c \<and> Conn_IdleTime now c < hp_maxIdleTime p \<and> Conn_Age now c < hp_maxConnAge p"

text \<open>The loop that looks for a usable connection and moves it to the end.\<close>

fun take_usable :: "(Conn \<Rightarrow> bool) \<Rightarrow> Conn list \<Rightarrow> (Conn \<times> Conn list) option" where
  "take_usable ok [] = None"
| "take_usable ok (c # cs) =
     (if ok c then Some (c, cs) else map_option (\<lambda>(d, ds). (d, c # ds)) (take_usable ok cs))"

datatype get_result = Reused nat | NoConnections | MustCreate

definition GetConn_begin :: "time \<Rightarrow> (nat \<Rightarrow> bool) \<Rightarrow> HostPool \<Rightarrow> get_result \<times> HostPool" where
  "GetConn_begin now can_take p =
     (case take_usable (usable now can_take p) (hp_connections p) of
        Some (c, rest) \<Rightarrow> (Reused (c_id c), p\<lparr>hp_connections := rest @ [Conn_MarkUsed now c]\<rparr>)
      | None \<Rightarrow>
          let keep = (\<lambda>c. Conn_IsHealthy can_take c \<and> Conn_Age now c < hp_maxConnAge p);
              p1 = p\<lparr>hp_connections := filter keep (hp_connections p),
                     hp_closing := hp_closing p @ map c_id (filter (\<lambda>c. \<not> keep c) (hp_connections p))\<rparr>
          in if hp_maxConns p > 0 \<and> int (length (hp_connections p1)) \<ge> hp_maxConns p
             then (NoConnections, p1) else (MustCreate, p1))"

definition new_conn :: "time \<Rightarrow> nat \<Rightarrow> Conn" where
  "new_conn now i = \<lparr>c_id = i, c_CreatedAt = now, c_LastUsedAt = now, c_UseCount = 0, c_closed = False\<rparr>"

definition GetConn_finish :: "time \<Rightarrow> nat \<Rightarrow> HostPool \<Rightarrow> HostPool" where
  "GetConn_finish now i p = p\<lparr>hp_connections := hp_connections p @ [new_conn now i]\<rparr>"

datatype pool_error = ErrNoConnections | ErrPoolClosed | ErrCreate string

text \<open>\<open>GetConn\<close> of a caller that is alone: \<open>created\<close> is the outcome of \<open>createConn\<close>.\<close>

definition GetConn ::
  "time \<Rightarrow> time \<Rightarrow> (nat \<Rightarrow> bool) \<Rightarrow> string + nat \<Rightarrow> HostPool \<Rightarrow> (pool_error + nat) \<times> HostPool" where
  "GetConn now now' can_take created p =
     (case GetConn_begin now can_take p of
        (Reused i, p1) \<Rightarrow> (Inr i, p1)
      | (NoConnections, p1) \<Rightarrow> (Inl ErrNoConnections, p1)
      | (MustCreate, p1) \<Rightarrow>
          (case created of
             Inl e \<Rightarrow> (Inl (ErrCreate e), p1)
           | Inr i \<Rightarrow> (Inr i, GetConn_finish now' i p1)))"

definition CloseIdle :: "time \<Rightarrow> (nat \<Rightarrow> bool) \<Rightarrow> HostPool \<Rightarrow> HostPool" where
  "CloseIdle now can_take p =
     (let drop_it = (\<lambda>c. Conn_IdleTime now c > hp_maxIdleTime p \<or> Conn_Age now c > hp_maxConnAge p \<or>
                         \<not> Conn_IsHealthy can_take c)
      in p\<lparr>hp_connections := filter (\<lambda>c. \<not> drop_it c) (hp_connections p),
           hp_closing := hp_closing p @ map c_id (filter drop_it (hp_connections p))\<rparr>)"

definition HostPool_Close :: "HostPool \<Rightarrow> HostPool" where
  "HostPool_Close p =
     p\<lparr>hp_connections := [], hp_closing := hp_closing p @ map c_id (hp_connections p)\<rparr>"

definition HostPool_Stats :: "(nat \<Rightarrow> bool) \<Rightarrow> HostPool \<Rightarrow> nat \<times> nat \<times> int" where
  "HostPool_Stats can_take p =
     (length (hp_connections p), length (filter (Conn_IsHealthy can_take) (hp_connections p)),
      foldl (\<lambda>n c. wrap64 (n + c_UseCount c)) 0 (hp_connections p))"

section \<open>The manager\<close>

record Manager =
  m_pools :: "(string, HostPool) gomap"
  m_closed :: bool
  m_maxConnsPerHost :: int
  m_proxyURL :: string
  m_connectTo :: "(string, string) gomap"
  m_echConfig :: "byte list"
  m_echConfigDomain :: string

definition NewManagerWithProxy :: "string \<Rightarrow> Manager" where
  "NewManagerWithProxy proxyURL =
     \<lparr>m_pools = [], m_closed = False, m_maxConnsPerHost = 0, m_proxyURL = proxyURL, m_connectTo = [],
      m_echConfig = [], m_echConfigDomain = ''''\<rparr>"

definition new_pool_for :: "string \<Rightarrow> string \<Rightarrow> string \<Rightarrow> Manager \<Rightarrow> HostPool" where
  "new_pool_for host connectHost port m =
     (let p0 = NewHostPoolWithConfig connectHost (if connectHost \<noteq> host then host else '''') port (m_proxyURL m);
          p1 = (if m_maxConnsPerHost m > 0 then SetMaxConns (m_maxConnsPerHost m) p0 else p0);
          p2 = (if m_echConfig m \<noteq> [] then SetECHConfig (m_echConfig m) p1 else p1)
      in if m_echConfigDomain m \<noteq> '''' then SetECHConfigDomain (m_echConfigDomain m) p2 else p2)"

definition GetPool :: "string \<Rightarrow> string \<Rightarrow> Manager \<Rightarrow> (pool_error + HostPool) \<times> Manager" where
  "GetPool host port0 m =
     (let port = (if port0 = '''' then ''443'' else port0);
          connectHost = (case map_of (m_connectTo m) host of Some t \<Rightarrow> t | None \<Rightarrow> host);
          key = JoinHostPort connectHost port
      in if m_closed m then (Inl ErrPoolClosed, m)
         else case map_of (m_pools m) key of
             Some p \<Rightarrow> (Inr p, m)
           | None \<Rightarrow>
               let p = new_pool_for host connectHost port m
               in (Inr p, m\<lparr>m_pools := AList.update key p (m_pools m)\<rparr>))"

definition SetMaxConnsPerHost :: "int \<Rightarrow> Manager \<Rightarrow> Manager" where
  "SetMaxConnsPerHost n m = m\<lparr>m_maxConnsPerHost := n\<rparr>"

definition SetConnectTo :: "string \<Rightarrow> string \<Rightarrow> Manager \<Rightarrow> Manager" where
  "SetConnectTo requestHost connectHost m =
     m\<lparr>m_connectTo := AList.update requestHost connectHost (m_connectTo m)\<rparr>"

definition Manager_SetECHConfig :: "byte list \<Rightarrow> Manager \<Rightarrow> Manager" where
  "Manager_SetECHConfig ech m = m\<lparr>m_echConfig := ech\<rparr>"

definition Manager_SetECHConfigDomain :: "string \<Rightarrow> Manager \<Rightarrow> Manager" where
  "Manager_SetECHConfigDomain d m = m\<lparr>m_echConfigDomain := d\<rparr>"

text \<open>The clean-up drops idle connections and then the pools without connections.\<close>

definition Manager_cleanup :: "time \<Rightarrow> (nat \<Rightarrow> bool) \<Rightarrow> Manager \<Rightarrow> Manager" where
  "Manager_cleanup now can_take m =
     m\<lparr>m_pools := filter (\<lambda>(k, p). hp_connections p \<noteq> [])
          (map (\<lambda>(k, p). (k, CloseIdle now can_take p)) (m_pools m))\<rparr>"

definition Manager_Close :: "Manager \<Rightarrow> Manager" where
  "Manager_Close m = (if m_closed m then m else m\<lparr>m_closed := True, m_pools := []\<rparr>)"

definition CloseAllPools :: "Manager \<Rightarrow> Manager" where
  "CloseAllPools m = m\<lparr>m_pools := []\<rparr>"

definition SetProxy :: "string \<Rightarrow> Manager \<Rightarrow> Manager" where
  "SetProxy proxyURL m = (CloseAllPools m)\<lparr>m_proxyURL := proxyURL\<rparr>"

section \<open>Happy Eyeballs\<close>

text \<open>
  What happens while the dialer waits: an attempt ends, the 250 ms timer fires (it matters only
  while the fallback addresses wait), or the context ends. Attempts that ended are not pending.
\<close>

datatype dial_event = Dialed ip "string + nat" | Timer | CtxDone string

definition filter_family :: "string \<Rightarrow> ip list \<Rightarrow> ip list" where
  "filter_family localAddr ips =
     (if localAddr = '''' then ips
      else case ParseIP localAddr of
          None \<Rightarrow> ips
        | Some l \<Rightarrow> filter (\<lambda>a. (To4 a = None) = (To4 l = None)) ips)"

text \<open>The last loop: \<open>started\<close> results are awaited.\<close>

fun await_results :: "nat \<Rightarrow> string option \<Rightarrow> dial_event list \<Rightarrow> (string + nat) option" where
  "await_results 0 lastErr evs =
     Some (Inl (case lastErr of Some e \<Rightarrow> e | None \<Rightarrow> ''all connection attempts failed''))"
| "await_results (Suc n) lastErr [] = None"
| "await_results (Suc n) lastErr (ev # evs) =
     (case ev of
        Dialed a (Inr c) \<Rightarrow> Some (Inr c)
      | Dialed a (Inl e) \<Rightarrow> await_results n (Some e) evs
      | CtxDone e \<Rightarrow> Some (Inl e)
      | Timer \<Rightarrow> await_results (Suc n) lastErr evs)"

text \<open>
  The result of the dialer on the events it receives in order, and the addresses it dialled;
  no result means that it still waits. The first wait is skipped when there is no fallback.
\<close>

definition dialHappyEyeballs ::
  "string \<Rightarrow> ip list \<Rightarrow> ip list \<Rightarrow> dial_event list \<Rightarrow> (string + nat) option \<times> ip list" where
  "dialHappyEyeballs localAddr preferred0 fallback0 evs =
     (let preferred = filter_family localAddr preferred0; fallback = filter_family localAddr fallback0 in
      if length preferred + length fallback = 0 then (Some (Inl ''no IP addresses available''), [])
      else if fallback = [] then (await_results (length preferred) None evs, preferred)
      else case evs of
          [] \<Rightarrow> (None, preferred)
        | Dialed a (Inr c) # _ \<Rightarrow> (Some (Inr c), preferred)
        | CtxDone e # _ \<Rightarrow> (Some (Inl e), preferred)
        | Dialed a (Inl e) # rest \<Rightarrow>
            (await_results (length preferred - 1 + length fallback) None rest, preferred @ fallback)
        | Timer # rest \<Rightarrow>
            (await_results (length preferred + length fallback) None rest, preferred @ fallback))"

section \<open>Proxy URLs\<close>

record proxyConfig =
  px_Scheme :: string
  px_Host :: string
  px_Port :: string
  px_Username :: string
  px_Password :: string

definition hasScheme :: "string \<Rightarrow> bool" where
  "hasScheme url \<longleftrightarrow> index_of url ''://'' \<noteq> None"

definition split_at_first :: "string \<Rightarrow> string \<Rightarrow> (string \<times> string) option" where
  "split_at_first s sep =
     (case index_of s sep of None \<Rightarrow> None | Some i \<Rightarrow> Some (take i s, drop (i + length sep) s))"

definition split_at_last :: "string \<Rightarrow> string \<Rightarrow> (string \<times> string) option" where
  "split_at_last s sep =
     (case last_index_of s sep of None \<Rightarrow> None | Some i \<Rightarrow> Some (take i s, drop (i + length sep) s))"

definition default_proxy_port :: "string \<Rightarrow> string" where
  "default_proxy_port scheme =
     (if scheme = ''http'' then ''80'' else if scheme = ''https'' then ''443''
      else if scheme = ''socks5'' \<or> scheme = ''socks5h'' then ''1080'' else '''')"

definition parseProxyURL :: "string \<Rightarrow> proxyConfig" where
  "parseProxyURL url0 =
     (let url = (if hasScheme url0 then url0 else ''http://'' @ url0);
          (scheme, rest) = (case split_at_first url ''://'' of Some sr \<Rightarrow> sr | None \<Rightarrow> (''http'', url));
          (username, password, rest1) = (case split_at_first rest ''@'' of
              Some (userInfo, r) \<Rightarrow>
                (case split_at_first userInfo '':'' of
                   Some (u, p) \<Rightarrow> (u, p, r)
                 | None \<Rightarrow> (userInfo, '''', r))
            | None \<Rightarrow> ('''', '''', rest));
          (host, port) = (case split_at_last rest1 '':'' of Some hp \<Rightarrow> hp | None \<Rightarrow> (rest1, ''''))
      in \<lparr>px_Scheme = scheme, px_Host = host,
          px_Port = (if port = '''' then default_proxy_port scheme else port),
          px_Username = username, px_Password = password\<rparr>)"

definition proxyConfig_Addr :: "proxyConfig \<Rightarrow> string" where
  "proxyConfig_Addr p = JoinHostPort (px_Host p) (px_Port p)"

section \<open>The pool's proxy clients\<close>

text \<open>
  A stream delivers its bytes in pieces; one \<open>Read\<close> returns at most one piece and at most the
  length of its buffer. Writes are taken to succeed.
\<close>

record stream =
  pieces :: "byte list list"
  sent :: "byte list list"

definition read_some :: "nat \<Rightarrow> stream \<Rightarrow> (string + byte list) \<times> stream" where
  "read_some n s =
     (case pieces s of
        [] \<Rightarrow> (Inl ''EOF'', s)
      | p # ps \<Rightarrow>
          (Inr (take n p), s\<lparr>pieces := (if length p \<le> n then ps else drop n p # ps)\<rparr>))"

definition send :: "byte list \<Rightarrow> stream \<Rightarrow> stream" where
  "send msg s = s\<lparr>sent := sent s @ [msg]\<rparr>"

text \<open>The buffer after a read: what was read, over zeros.\<close>

definition buffer :: "nat \<Rightarrow> byte list \<Rightarrow> byte list" where
  "buffer n bs = bs @ replicate (n - length bs) 0"

definition parsePort :: "string \<Rightarrow> int option" where
  "parsePort port =
     foldl (\<lambda>acc c. case acc of
         None \<Rightarrow> None
       | Some p \<Rightarrow> if is_digit c then Some (wrap64 (p * 10 + int (digit_val c))) else None) (Some 0) port"

definition pool_socks5Auth :: "proxyConfig \<Rightarrow> stream \<Rightarrow> (string + unit) \<times> stream" where
  "pool_socks5Auth px s =
     (case read_some 2 (send (auth_request (px_Username px) (px_Password px)) s) of
        (Inl e, s1) \<Rightarrow> (Inl (''SOCKS5 auth response failed: '' @ e), s1)
      | (Inr r, s1) \<Rightarrow>
          if buffer 2 r ! 1 \<noteq> 0 then (Inl ''SOCKS5 authentication failed'', s1) else (Inr (), s1))"

definition pool_connect_request :: "string \<Rightarrow> string \<Rightarrow> byte list" where
  "pool_connect_request host port =
     (let n = (case parsePort port of Some p \<Rightarrow> p | None \<Rightarrow> 0) in
      (case ParseIP host of
         Some a \<Rightarrow>
           (case To4 a of Some a4 \<Rightarrow> [5, 1, 0, 1] @ a4 | None \<Rightarrow> [5, 1, 0, 4] @ a)
       | None \<Rightarrow> [5, 1, 0, 3, of_nat (length host)] @ bytes_of host) @
      [of_int (n div 256), of_int n])"

definition pool_socks5_connect :: "string \<Rightarrow> string \<Rightarrow> stream \<Rightarrow> (string + unit) \<times> stream" where
  "pool_socks5_connect host port s =
     (case read_some 10 (send (pool_connect_request host port) s) of
        (Inl e, s1) \<Rightarrow> (Inl (''SOCKS5 connect response failed: '' @ e), s1)
      | (Inr r, s1) \<Rightarrow>
          let resp = buffer 10 r in
          if resp ! 0 \<noteq> 5 then (Inl ''SOCKS5: invalid version in response'', s1)
          else if resp ! 1 \<noteq> 0 then
            (Inl (''SOCKS5 connect failed with code: '' @ dec_string (unat (resp ! 1))), s1)
          else (Inr (), s1))"

text \<open>The protocol part of \<open>dialSOCKS5Proxy\<close>, after the TCP connection to the proxy.\<close>

definition dialSOCKS5Proxy :: "proxyConfig \<Rightarrow> string \<Rightarrow> string \<Rightarrow> stream \<Rightarrow> (string + unit) \<times> stream" where
  "dialSOCKS5Proxy px host port s =
     (let methods = (if px_Username px \<noteq> '''' then [5, 2, 0, 2] else [5, 1, 0]) in
      case read_some 2 (send methods s) of
        (Inl e, s1) \<Rightarrow> (Inl (''SOCKS5 auth response failed: '' @ e), s1)
      | (Inr r, s1) \<Rightarrow>
          let resp = buffer 2 r in
          if resp ! 0 \<noteq> 5 then (Inl (''SOCKS5: invalid version: '' @ dec_string (unat (resp ! 0))), s1)
          else if resp ! 1 = 0 then pool_socks5_connect host port s1
          else if resp ! 1 = 2 then
            (case pool_socks5Auth px s1 of
               (Inl e, s2) \<Rightarrow> (Inl e, s2)
             | (Inr _, s2) \<Rightarrow> pool_socks5_connect host port s2)
          else if resp ! 1 = 0xFF then (Inl ''SOCKS5: no acceptable auth methods'', s1)
          else (Inl (''SOCKS5: unsupported auth method: '' @ dec_string (unat (resp ! 1))), s1))"

definition isHTTP200 :: "string \<Rightarrow> bool" where
  "isHTTP200 response \<longleftrightarrow>
     length response \<ge> 12 \<and> response ! 9 = CHR ''2'' \<and> response ! 10 = CHR ''0'' \<and> response ! 11 = CHR ''0''"

definition getFirstLine :: "string \<Rightarrow> string" where
  "getFirstLine s = takeWhile (\<lambda>c. c \<noteq> CHR 0x0D \<and> c \<noteq> CHR 0x0A) s"

definition crlf :: string where
  "crlf = [CHR 0x0D, CHR 0x0A]"

definition http_connect_request :: "proxyConfig \<Rightarrow> string \<Rightarrow> string \<Rightarrow> string" where
  "http_connect_request px host port =
     (let target = JoinHostPort host port in
      ''CONNECT '' @ target @ '' HTTP/1.1'' @ crlf @ ''Host: '' @ target @ crlf @
      (if px_Username px \<noteq> '''' then
         ''Proxy-Authorization: Basic '' @
           encodeBase64 (bytes_of (px_Username px @ '':'' @ px_Password px)) @ crlf
       else '''') @ crlf)"

text \<open>The protocol part of \<open>dialHTTPProxy\<close>: one read of at most 4096 bytes is the response.\<close>

definition dialHTTPProxy :: "proxyConfig \<Rightarrow> string \<Rightarrow> string \<Rightarrow> stream \<Rightarrow> (string + unit) \<times> stream" where
  "dialHTTPProxy px host port s =
     (case read_some 4096 (send (bytes_of (http_connect_request px host port)) s) of
        (Inl e, s1) \<Rightarrow> (Inl (''failed to read CONNECT response: '' @ e), s1)
      | (Inr r, s1) \<Rightarrow>
          let response = string_of_bytes r in
          if \<not> isHTTP200 response then (Inl (''proxy CONNECT failed: '' @ getFirstLine response), s1)
          else (Inr (), s1))"

section \<open>A pool with its callers\<close>

text \<open>
  The pool with the next fresh identity and the number of callers that are dialling. Every
  connection is created by one of them.
\<close>

record pool_run =
  pr_pool :: HostPool
  pr_next :: nat
  pr_dialing :: nat

datatype pool_op =
    PoolBegin time "nat \<Rightarrow> bool"
  | PoolFinish time
  | PoolDialFailed
  | PoolCloseIdle time "nat \<Rightarrow> bool"
  | PoolClose

fun pool_step :: "pool_op \<Rightarrow> pool_run \<Rightarrow> pool_run" where
  "pool_step (PoolBegin now can_take) r =
     (case GetConn_begin now can_take (pr_pool r) of
        (MustCreate, p) \<Rightarrow> r\<lparr>pr_pool := p, pr_dialing := pr_dialing r + 1\<rparr>
      | (_, p) \<Rightarrow> r\<lparr>pr_pool := p\<rparr>)"
| "pool_step (PoolFinish now) r =
     (if pr_dialing r = 0 then r
      else r\<lparr>pr_pool := GetConn_finish now (pr_next r) (pr_pool r), pr_next := pr_next r + 1,
             pr_dialing := pr_dialing r - 1\<rparr>)"
| "pool_step PoolDialFailed r = r\<lparr>pr_dialing := pr_dialing r - 1\<rparr>"
| "pool_step (PoolCloseIdle now can_take) r = r\<lparr>pr_pool := CloseIdle now can_take (pr_pool r)\<rparr>"
| "pool_step PoolClose r = r\<lparr>pr_pool := HostPool_Close (pr_pool r)\<rparr>"

definition conn_ids :: "HostPool \<Rightarrow> nat list" where
  "conn_ids p = map c_id (hp_connections p)"

definition pool_ok :: "pool_run \<Rightarrow> bool" where
  "pool_ok r \<longleftrightarrow>
     distinct (conn_ids (pr_pool r)) \<and> set (conn_ids (pr_pool r)) \<inter> set (hp_closing (pr_pool r)) = {} \<and>
     (\<forall>i \<in> set (conn_ids (pr_pool r)) \<union> set (hp_closing (pr_pool r)). i < pr_next r)"

definition start_run :: "HostPool \<Rightarrow> pool_run" where
  "start_run p = \<lparr>pr_pool = p, pr_next = 0, pr_dialing = 0\<rparr>"

lemma take_usable_Some:
  "take_usable ok cs = Some (c, rest) \<Longrightarrow> ok c \<and> (\<exists>a b. cs = a @ c # b \<and> rest = a @ b)"
proof (induction cs arbitrary: rest)
  case (Cons d cs)
  show ?case
  proof (cases "ok d")
    case True
    with Cons.prems show ?thesis by (auto intro: exI [of _ "[]"])
  next
    case False
    with Cons.prems obtain r where r: "take_usable ok cs = Some (c, r)" "rest = d # r" by auto
    with Cons.IH obtain a b where "ok c" "cs = a @ c # b" "r = a @ b" by blast
    with r(2) show ?thesis by (auto intro: exI [of _ "d # a"])
  qed
qed simp

lemma take_usable_None: "take_usable ok cs = None \<longleftrightarrow> (\<forall>c \<in> set cs. \<not> ok c)"
  by (induction cs) auto

text \<open>What a caller sees of the first step.\<close>

lemma GetConn_begin_cases:
  assumes "GetConn_begin now can_take p = (r, p')"
  obtains (reused) a c b where "r = Reused (c_id c)" "usable now can_take p c" "hp_connections p = a @ c # b"
      "p' = p\<lparr>hp_connections := a @ b @ [Conn_MarkUsed now c]\<rparr>"
    | (other) keep where "r = NoConnections \<or> (r = MustCreate \<and> (hp_maxConns p \<le> 0 \<or> int (length (hp_connections p')) < hp_maxConns p))"
      "p' = p\<lparr>hp_connections := filter keep (hp_connections p),
              hp_closing := hp_closing p @ map c_id (filter (\<lambda>c. \<not> keep c) (hp_connections p))\<rparr>"
proof (cases "take_usable (usable now can_take p) (hp_connections p)")
  case None
  with assms show thesis
    by (intro other [of "\<lambda>c. Conn_IsHealthy can_take c \<and> Conn_Age now c < hp_maxConnAge p"])
      (auto simp: GetConn_begin_def Let_def not_le split: if_splits)
next
  case (Some cr)
  then obtain c rest where cr: "take_usable (usable now can_take p) (hp_connections p) = Some (c, rest)"
    by (cases cr) auto
  from take_usable_Some [OF cr] obtain a b where "usable now can_take p c" "hp_connections p = a @ c # b" "rest = a @ b"
    by blast
  with assms cr show thesis by (intro reused [of c a b]) (auto simp: GetConn_begin_def)
qed

lemma mark_id [simp]: "c_id (Conn_MarkUsed now c) = c_id c"
  by (simp add: Conn_MarkUsed_def)

lemma ids_partition:
  "distinct (map c_id cs) \<Longrightarrow>
   distinct (map c_id (filter keep cs)) \<and>
   set (map c_id (filter keep cs)) \<inter> set (map c_id (filter (\<lambda>c. \<not> keep c) cs)) = {} \<and>
   set (map c_id (filter keep cs)) \<union> set (map c_id (filter (\<lambda>c. \<not> keep c) cs)) = set (map c_id cs)"
  by (induction cs) auto

lemma pool_ok_drop:
  assumes "pool_ok r"
  shows "pool_ok (r\<lparr>pr_pool := (pr_pool r)\<lparr>hp_connections := filter keep (hp_connections (pr_pool r)),
      hp_closing := hp_closing (pr_pool r) @ map c_id (filter (\<lambda>c. \<not> keep c) (hp_connections (pr_pool r)))\<rparr>\<rparr>)"
  using assms ids_partition [of "hp_connections (pr_pool r)" keep]
  unfolding pool_ok_def conn_ids_def by auto

lemma pool_ok_dialing [simp]: "pool_ok (r\<lparr>pr_dialing := n\<rparr>) = pool_ok r"
  by (simp add: pool_ok_def)

lemma pool_ok_step: "pool_ok r \<Longrightarrow> pool_ok (pool_step op r)"
proof (cases op)
  case (PoolBegin now can_take)
  assume ok: "pool_ok r"
  obtain res p' where b: "GetConn_begin now can_take (pr_pool r) = (res, p')" by fastforce
  have "pool_ok (r\<lparr>pr_pool := p'\<rparr>)"
    using b
  proof (cases rule: GetConn_begin_cases)
    case (reused a c d)
    with ok show ?thesis by (auto simp: pool_ok_def conn_ids_def)
  next
    case (other keep)
    with pool_ok_drop [OF ok] show ?thesis by simp
  qed
  moreover have "r\<lparr>pr_pool := p', pr_dialing := n\<rparr> = (r\<lparr>pr_pool := p'\<rparr>)\<lparr>pr_dialing := n\<rparr>" for n by simp
  ultimately show ?thesis by (auto simp: PoolBegin b split: get_result.splits)
next
  case (PoolCloseIdle now can_take)
  assume "pool_ok r"
  from pool_ok_drop [OF this, of "\<lambda>c. \<not> (Conn_IdleTime now c > hp_maxIdleTime (pr_pool r) \<or>
      Conn_Age now c > hp_maxConnAge (pr_pool r) \<or> \<not> Conn_IsHealthy can_take c)"]
  show ?thesis by (simp add: PoolCloseIdle CloseIdle_def Let_def)
next
  case PoolClose
  assume "pool_ok r"
  from pool_ok_drop [OF this, of "\<lambda>_. False"] show ?thesis by (simp add: PoolClose HostPool_Close_def)
next
  case (PoolFinish now)
  assume "pool_ok r"
  then show ?thesis
    by (auto simp: PoolFinish pool_ok_def conn_ids_def GetConn_finish_def new_conn_def less_SucI)
qed simp

interpretation pool_machine:
  started_machine pool_step "\<lambda>_. True" pool_ok "start_run (NewHostPoolWithConfig h s p u)" for h s p u
  by unfold_locales (simp_all add: pool_ok_step, simp add: pool_ok_def start_run_def NewHostPoolWithConfig_def conn_ids_def)

text \<open>
  A connection that was given up is never handed out again. However the callers' steps, failed
  dials, idle clean-ups and closes interleave, a connection that \<open>GetConn\<close> reuses is not one
  scheduled for closing, it is open and can take a request, it has been idle for less than
  the limit and is younger than the age limit, and it is marked as used now.\<close>

theorem pool_reuse_safe:
  assumes "r = fold pool_step ops (start_run (NewHostPoolWithConfig host sni port proxy))"
    and "GetConn_begin now can_take (pr_pool r) = (Reused i, p')"
  shows "i \<notin> set (hp_closing p') \<and>
    (\<exists>c \<in> set (hp_connections (pr_pool r)). c_id c = i \<and> \<not> c_closed c \<and> can_take i \<and>
       now - c_LastUsedAt c < hp_maxIdleTime (pr_pool r) \<and> now - c_CreatedAt c < hp_maxConnAge (pr_pool r) \<and>
       last (hp_connections p') = c\<lparr>c_LastUsedAt := now, c_UseCount := wrap64 (c_UseCount c + 1)\<rparr>)"
proof -
  have "list_all (\<lambda>_. True) ops" by (simp add: list_all_iff)
  then have ok: "pool_ok r" unfolding assms(1) by (rule pool_machine.reach_inv)
  from assms(2) show ?thesis
  proof (cases rule: GetConn_begin_cases)
    case (reused a c b)
    with ok show ?thesis
      by (auto simp: pool_ok_def conn_ids_def usable_def Conn_IsHealthy_def Conn_IdleTime_def Conn_Age_def
          Conn_MarkUsed_def)
  qed auto
qed

theorem pool_reuse_safe_witness:
  "fst (GetConn_begin 5 (\<lambda>_. True)
      (pr_pool (fold pool_step [PoolBegin 1 (\<lambda>_. True), PoolFinish 2]
         (start_run (NewHostPoolWithConfig ''a.test'' [] ''443'' []))))) = Reused 0 \<and>
   (\<exists>p' :: HostPool. 0 \<notin> set (hp_closing p') \<and> last (hp_connections p') =
     \<lparr>c_id = 0, c_CreatedAt = 2, c_LastUsedAt = 5, c_UseCount = wrap64 1, c_closed = False\<rparr>)"
proof -
  define r where "r = fold pool_step [PoolBegin 1 (\<lambda>_. True), PoolFinish 2]
         (start_run (NewHostPoolWithConfig ''a.test'' [] ''443'' []))"
  have c: "hp_connections (pr_pool r) = [new_conn 2 0]"
    by (simp add: r_def start_run_def NewHostPoolWithConfig_def GetConn_begin_def GetConn_finish_def)
  have g: "fst (GetConn_begin 5 (\<lambda>_. True) (pr_pool r)) = Reused 0"
    by (simp add: r_def start_run_def NewHostPoolWithConfig_def GetConn_begin_def GetConn_finish_def new_conn_def
        usable_def Conn_IsHealthy_def Conn_IdleTime_def Conn_Age_def)
  then obtain p' where p': "GetConn_begin 5 (\<lambda>_. True) (pr_pool r) = (Reused 0, p')" by (metis prod.collapse)
  from pool_reuse_safe [OF r_def p'] c have "0 \<notin> set (hp_closing p') \<and> last (hp_connections p') =
      (new_conn 2 0)\<lparr>c_LastUsedAt := 5, c_UseCount := wrap64 (c_UseCount (new_conn 2 0) + 1)\<rparr>" by simp
  moreover have "(new_conn 2 0)\<lparr>c_LastUsedAt := 5, c_UseCount := wrap64 (c_UseCount (new_conn 2 0) + 1)\<rparr> =
     \<lparr>c_id = 0, c_CreatedAt = 2, c_LastUsedAt = 5, c_UseCount = wrap64 1, c_closed = False\<rparr>"
    by (simp add: new_conn_def)
  ultimately have "0 \<notin> set (hp_closing p') \<and> last (hp_connections p') =
     \<lparr>c_id = 0, c_CreatedAt = 2, c_LastUsedAt = 5, c_UseCount = wrap64 1, c_closed = False\<rparr>"
    by simp
  then have t: "\<exists>p' :: HostPool. 0 \<notin> set (hp_closing p') \<and> last (hp_connections p') =
     \<lparr>c_id = 0, c_CreatedAt = 2, c_LastUsedAt = 5, c_UseCount = wrap64 1, c_closed = False\<rparr>"
    by (rule exI)
  show ?thesis using conjI [OF g t] unfolding r_def .
qed

text \<open>A caller that finishes its dial before the next one begins.\<close>

fun sequential :: "pool_op list \<Rightarrow> bool" where
  "sequential [] = True"
| "sequential (PoolBegin now ct # PoolFinish now' # ops) = sequential ops"
| "sequential (PoolBegin now ct # PoolDialFailed # ops) = sequential ops"
| "sequential (PoolCloseIdle now ct # ops) = sequential ops"
| "sequential (PoolClose # ops) = sequential ops"
| "sequential _ = False"

definition within_limit :: "int \<Rightarrow> pool_run \<Rightarrow> bool" where
  "within_limit n r \<longleftrightarrow>
     pr_dialing r = 0 \<and> hp_maxConns (pr_pool r) = n \<and> int (length (hp_connections (pr_pool r))) \<le> n"

lemma int_filter_le: "int (length xs) \<le> n \<Longrightarrow> int (length (filter P xs)) \<le> n"
  by (rule order_trans [OF of_nat_mono [OF length_filter_le]])

lemma begin_limit:
  assumes "0 < n" "within_limit n r"
  shows "let r' = pool_step (PoolBegin now can_take) r in
    hp_maxConns (pr_pool r') = n \<and>
    (pr_dialing r' = 0 \<and> int (length (hp_connections (pr_pool r'))) \<le> n \<or>
     pr_dialing r' = 1 \<and> int (length (hp_connections (pr_pool r'))) < n)"
proof -
  obtain res p' where b: "GetConn_begin now can_take (pr_pool r) = (res, p')" by fastforce
  then show ?thesis
  proof (cases rule: GetConn_begin_cases)
    case (reused a c d)
    with b assms show ?thesis by (simp add: within_limit_def Let_def)
  next
    case (other keep)
    have l: "int (length (hp_connections p')) \<le> n" "hp_maxConns p' = n"
      using assms(2) other(2) by (simp_all add: within_limit_def int_filter_le)
    from other(1) show ?thesis
      using b assms l by (auto simp: within_limit_def Let_def other(2))
  qed
qed

lemma sequential_limit:
  "0 < n \<Longrightarrow> sequential ops \<Longrightarrow> within_limit n r \<Longrightarrow> within_limit n (fold pool_step ops r)"
proof (induction ops arbitrary: r rule: sequential.induct)
  case (2 now ct now' ops)
  have "within_limit n (pool_step (PoolFinish now') (pool_step (PoolBegin now ct) r))"
    using begin_limit [OF "2.prems"(1,3), of now ct]
    by (auto simp: Let_def within_limit_def GetConn_finish_def simp del: pool_step.simps(1))
  with 2 show ?case by simp
next
  case (3 now ct ops)
  have "within_limit n (pool_step PoolDialFailed (pool_step (PoolBegin now ct) r))"
    using begin_limit [OF "3.prems"(1,3), of now ct]
    by (auto simp: Let_def within_limit_def simp del: pool_step.simps(1))
  with 3 show ?case by simp
next
  case (4 now ct ops)
  have "within_limit n (pool_step (PoolCloseIdle now ct) r)"
    using "4.prems"(3) by (simp add: within_limit_def CloseIdle_def Let_def int_filter_le)
  with 4 show ?case by simp
next
  case (5 ops)
  have "within_limit n (pool_step PoolClose r)"
    using "5.prems"(1,3) by (auto simp: within_limit_def HostPool_Close_def)
  with 5 show ?case by simp
qed auto

text \<open>
  The connection limit holds for one caller at a time: if every dial ends before the next
  \<open>GetConn\<close> begins, a pool with a positive limit never holds more connections than the limit.
  With two callers at once it does not: both pass the check before either has added its
  connection, and a limit of one ends with two connections.\<close>

theorem pool_limit_sequential:
  assumes "0 < n" and "sequential ops"
  shows "int (length (hp_connections (pr_pool (fold pool_step ops
      (start_run (SetMaxConns n (NewHostPoolWithConfig host sni port proxy))))))) \<le> n \<and>
    length (hp_connections (pr_pool (fold pool_step
      [PoolBegin 0 (\<lambda>_. True), PoolBegin 0 (\<lambda>_. True), PoolFinish 1, PoolFinish 1]
      (start_run (SetMaxConns 1 (NewHostPoolWithConfig host sni port proxy)))))) = 2"
proof
  have "within_limit n (start_run (SetMaxConns n (NewHostPoolWithConfig host sni port proxy)))"
    using assms(1) by (simp add: within_limit_def start_run_def SetMaxConns_def NewHostPoolWithConfig_def)
  from sequential_limit [OF assms this]
  show "int (length (hp_connections (pr_pool (fold pool_step ops
      (start_run (SetMaxConns n (NewHostPoolWithConfig host sni port proxy))))))) \<le> n"
    by (simp add: within_limit_def)
  show "length (hp_connections (pr_pool (fold pool_step
      [PoolBegin 0 (\<lambda>_. True), PoolBegin 0 (\<lambda>_. True), PoolFinish 1, PoolFinish 1]
      (start_run (SetMaxConns 1 (NewHostPoolWithConfig host sni port proxy)))))) = 2"
    by (simp add: start_run_def SetMaxConns_def NewHostPoolWithConfig_def GetConn_begin_def GetConn_finish_def)
qed

theorem pool_limit_sequential_witness:
  "sequential [PoolBegin 0 (\<lambda>_. True), PoolFinish 1, PoolBegin 2 (\<lambda>_. False), PoolFinish 3] \<and>
   int (length (hp_connections (pr_pool (fold pool_step
      [PoolBegin 0 (\<lambda>_. True), PoolFinish 1, PoolBegin 2 (\<lambda>_. False), PoolFinish 3]
      (start_run (SetMaxConns 1 (NewHostPoolWithConfig ''a.test'' [] ''443'' []))))))) \<le> 1"
proof -
  have s: "sequential [PoolBegin 0 (\<lambda>_. True), PoolFinish 1, PoolBegin 2 (\<lambda>_. False), PoolFinish 3]" by simp
  show ?thesis
    by (rule conjI [OF s]) (rule pool_limit_sequential [OF zero_less_one s, THEN conjunct1])
qed

section \<open>The manager's pools\<close>

datatype manager_op =
    MgrGetPool string string
  | MgrSetConnectTo string string
  | MgrSetMaxConns int
  | MgrSetECH "byte list"
  | MgrSetECHDomain string
  | MgrCleanup time "nat \<Rightarrow> bool"
  | MgrClose
  | MgrCloseAll
  | MgrSetProxy string

fun manager_step :: "manager_op \<Rightarrow> Manager \<Rightarrow> Manager" where
  "manager_step (MgrGetPool h p) m = snd (GetPool h p m)"
| "manager_step (MgrSetConnectTo a b) m = SetConnectTo a b m"
| "manager_step (MgrSetMaxConns n) m = SetMaxConnsPerHost n m"
| "manager_step (MgrSetECH e) m = Manager_SetECHConfig e m"
| "manager_step (MgrSetECHDomain d) m = Manager_SetECHConfigDomain d m"
| "manager_step (MgrCleanup now ct) m = Manager_cleanup now ct m"
| "manager_step MgrClose m = Manager_Close m"
| "manager_step MgrCloseAll m = CloseAllPools m"
| "manager_step (MgrSetProxy u) m = SetProxy u m"

text \<open>A host and a port without the characters that \<open>JoinHostPort\<close> gives a meaning.\<close>

definition plain_target :: "string \<Rightarrow> string \<Rightarrow> bool" where
  "plain_target host port \<longleftrightarrow> set host \<inter> set ''[]'' = {} \<and> set port \<inter> set '':[]'' = {}"

fun direct_op :: "manager_op \<Rightarrow> bool" where
  "direct_op (MgrGetPool h p) = plain_target h p"
| "direct_op (MgrSetConnectTo a b) = False"
| "direct_op _ = True"

text \<open>Every pool is the pool of its key's host, with that host's name for TLS and the current proxy.\<close>

definition serves :: "Manager \<Rightarrow> string \<Rightarrow> HostPool \<Rightarrow> bool" where
  "serves m key p \<longleftrightarrow>
     JoinHostPort (hp_host p) (hp_port p) = key \<and> plain_target (hp_host p) (hp_port p) \<and>
     hp_sniHost p = hp_host p \<and> hp_proxyURL p = m_proxyURL m"

definition manager_ok :: "Manager \<Rightarrow> bool" where
  "manager_ok m \<longleftrightarrow> m_connectTo m = [] \<and> map_wf (m_pools m) \<and>
     (\<forall>key p. map_of (m_pools m) key = Some p \<longrightarrow> serves m key p)"

lemma new_pool_fields [simp]:
  "hp_host (new_pool_for host t port m) = t" "hp_port (new_pool_for host t port m) = port"
  "hp_sniHost (new_pool_for host t port m) = (if t \<noteq> host then if host = '''' then t else host else t)"
  "hp_proxyURL (new_pool_for host t port m) = m_proxyURL m"
  by (simp_all add: new_pool_for_def Let_def NewHostPoolWithConfig_def SetMaxConns_def SetECHConfig_def
      SetECHConfigDomain_def)

lemma manager_ok_same_pools:
  "manager_ok m \<Longrightarrow> m_pools m' = m_pools m \<Longrightarrow> m_connectTo m' = m_connectTo m \<Longrightarrow> m_proxyURL m' = m_proxyURL m \<Longrightarrow>
   manager_ok m'"
  by (simp add: manager_ok_def serves_def)

lemma manager_ok_connectTo: "manager_ok m \<Longrightarrow> m_connectTo m = []"
  by (simp add: manager_ok_def)

lemma manager_ok_empty: "m_pools m = [] \<Longrightarrow> m_connectTo m = [] \<Longrightarrow> manager_ok m"
  by (simp add: manager_ok_def)

lemma plain_443: "plain_target h p \<Longrightarrow> plain_target h (if p = '''' then ''443'' else p)"
  by (auto simp: plain_target_def)

lemma CloseIdle_fields [simp]:
  "hp_host (CloseIdle now ct p) = hp_host p" "hp_port (CloseIdle now ct p) = hp_port p"
  "hp_sniHost (CloseIdle now ct p) = hp_sniHost p" "hp_proxyURL (CloseIdle now ct p) = hp_proxyURL p"
  by (simp_all add: CloseIdle_def Let_def)

lemma manager_ok_step: "manager_ok m \<Longrightarrow> direct_op op \<Longrightarrow> manager_ok (manager_step op m)"
proof (cases op)
  case (MgrGetPool h p)
  assume ok: "manager_ok m" and d: "direct_op op"
  let ?port = "if p = '''' then ''443'' else p"
  have "plain_target h ?port" using d plain_443 by (simp add: MgrGetPool)
  then have new: "serves m (JoinHostPort h ?port) (new_pool_for h h ?port m)" by (simp add: serves_def)
  show ?thesis
    using ok new
    by (auto simp: MgrGetPool GetPool_def Let_def manager_ok_def serves_def split: option.splits if_splits)
next
  case (MgrCleanup now ct)
  assume ok: "manager_ok m"
  let ?M = "map (\<lambda>(k, p). (k, CloseIdle now ct p)) (m_pools m)"
  have wf: "map_wf ?M" using ok by (simp add: manager_ok_def map_wf_map_snd)
  have "serves m k p" if "map_of (filter (\<lambda>(k, p). hp_connections p \<noteq> []) ?M) k = Some p" for k p
    using that ok
    by (auto simp: map_of_filter_val [OF wf] map_of_map_snd manager_ok_def serves_def split: option.splits if_splits)
  with ok wf show ?thesis by (simp add: MgrCleanup Manager_cleanup_def manager_ok_def serves_def)
next
  case (MgrSetConnectTo a b)
  assume "direct_op op"
  then show ?thesis by (simp add: MgrSetConnectTo)
qed (auto simp: Manager_Close_def CloseAllPools_def SetProxy_def SetMaxConnsPerHost_def Manager_SetECHConfig_def
    Manager_SetECHConfigDomain_def manager_ok_connectTo
    intro: manager_ok_same_pools manager_ok_empty)

interpretation manager_machine: started_machine manager_step direct_op manager_ok "NewManagerWithProxy u" for u
  by (unfold_locales, rule manager_ok_step, assumption, assumption)
    (simp add: manager_ok_empty NewManagerWithProxy_def)

lemma JoinHostPort_inj:
  assumes "plain_target h p" "plain_target h' p'" "JoinHostPort h p = JoinHostPort h' p'"
  shows "h = h' \<and> p = p'"
proof -
  have "plain_target h p \<Longrightarrow> SplitHostPort (JoinHostPort h p) = Some (h, p)" for h p
    by (rule SplitHostPort_Join) (auto simp: plain_target_def)
  from this [OF assms(1)] this [OF assms(2)] show ?thesis unfolding assms(3) by simp
qed

text \<open>
  A request goes to its own host. After any operations without domain fronting, in any order,
  the pool the manager gives for a host and a port dials that host and port, presents that
  host's name in TLS and uses the proxy that was set last; after \<open>Close\<close> there is no pool.\<close>

theorem get_pool_serves_host:
  assumes "list_all direct_op ops" and "plain_target host port" and "port \<noteq> ''''"
  shows "let m = fold manager_step ops (NewManagerWithProxy proxy) in
    (case fst (GetPool host port m) of
       Inr p \<Rightarrow> \<not> m_closed m \<and> hp_host p = host \<and> hp_port p = port \<and> hp_sniHost p = host \<and>
         hp_proxyURL p = m_proxyURL m
     | Inl e \<Rightarrow> m_closed m \<and> e = ErrPoolClosed)"
proof -
  let ?m = "fold manager_step ops (NewManagerWithProxy proxy)"
  have ok: "manager_ok ?m" using assms(1) by (rule manager_machine.reach_inv)
  have old: "serves ?m (JoinHostPort host port) p \<Longrightarrow> hp_host p = host \<and> hp_port p = port" for p
    using JoinHostPort_inj [OF assms(2)] unfolding serves_def by metis
  have none: "m_connectTo ?m = []" using ok by (simp add: manager_ok_def)
  show ?thesis
  proof (cases "m_closed ?m \<or> map_of (m_pools ?m) (JoinHostPort host port) = None")
    case True
    with assms(3) none show ?thesis by (auto simp: GetPool_def Let_def)
  next
    case False
    then obtain p where p: "map_of (m_pools ?m) (JoinHostPort host port) = Some p" "\<not> m_closed ?m" by blast
    then have "serves ?m (JoinHostPort host port) p" using ok by (simp add: manager_ok_def)
    with old [OF this] p assms(3) none show ?thesis by (simp add: GetPool_def Let_def serves_def)
  qed
qed

theorem get_pool_serves_host_witness:
  "list_all direct_op [MgrGetPool ''a.test'' ''443'', MgrSetProxy ''p''] \<and>
   (case fst (GetPool ''b.test'' ''443''
       (fold manager_step [MgrGetPool ''a.test'' ''443'', MgrSetProxy ''p''] (NewManagerWithProxy ''''))) of
      Inr p \<Rightarrow> hp_sniHost p = ''b.test'' | Inl e \<Rightarrow> e = ErrPoolClosed)"
proof -
  have ops: "list_all direct_op [MgrGetPool ''a.test'' ''443'', MgrSetProxy ''p'']"
    and t: "plain_target ''b.test'' ''443''" "''443'' \<noteq> ''''"
    by (auto simp: plain_target_def)
  from get_pool_serves_host [OF ops t, of "''''"] ops show ?thesis
    by (auto simp only: Let_def split: sum.splits)
qed

text \<open>
  Domain fronting mixes up hosts: two request hosts mapped to one target share one pool, and the
  second gets connections whose TLS server name is the first host's.\<close>

theorem fronted_hosts_share_pool:
  "let m = fold manager_step [MgrSetConnectTo ''a.test'' ''cdn.test'', MgrSetConnectTo ''b.test'' ''cdn.test'',
       MgrGetPool ''a.test'' ''443''] (NewManagerWithProxy '''') in
   map_option hp_sniHost (case fst (GetPool ''b.test'' ''443'' m) of Inr p \<Rightarrow> Some p | Inl _ \<Rightarrow> None) = Some ''a.test''"
  by code_simp

text \<open>
  \<open>SetProxy\<close> is two critical sections: the pools are closed, and then the proxy is set. A pool
  that is made in between keeps the old proxy, here none.
\<close>

lemma set_proxy_race:
  "let m = CloseAllPools (NewManagerWithProxy '''');
       m1 = snd (GetPool ''a.test'' ''443'' m);
       m2 = m1\<lparr>m_proxyURL := ''socks5://proxy.test''\<rparr> in
   map_option hp_proxyURL (case fst (GetPool ''a.test'' ''443'' m2) of Inr p \<Rightarrow> Some p | Inl _ \<Rightarrow> None) = Some ''''"
  by code_simp

section \<open>Happy Eyeballs\<close>

text \<open>Events before a success: failures and ticks of the timer.\<close>

fun is_failure :: "dial_event \<Rightarrow> bool" where
  "is_failure (Dialed a (Inl e)) = True"
| "is_failure _ = False"

fun is_tick :: "dial_event \<Rightarrow> bool" where
  "is_tick Timer = True"
| "is_tick _ = False"

lemma await_results_success:
  "list_all (\<lambda>ev. is_failure ev \<or> is_tick ev) pre \<Longrightarrow> length (filter is_failure pre) < n \<Longrightarrow>
   await_results n lastErr (pre @ Dialed a (Inr c) # post) = Some (Inr c)"
proof (induction pre arbitrary: n lastErr)
  case Nil
  then show ?case by (cases n) auto
next
  case (Cons ev pre)
  then obtain m where n: "n = Suc m" by (cases n) auto
  show ?case
  proof (cases ev)
    case (Dialed b r)
    with Cons n show ?thesis by (cases r) auto
  qed (use Cons n in auto)
qed

lemma await_results_from:
  "await_results n lastErr evs = Some (Inr c) \<Longrightarrow> \<exists>a. Dialed a (Inr c) \<in> set evs"
  by (induction n lastErr evs rule: await_results.induct) (auto split: dial_event.splits sum.splits)

text \<open>
  The dialer returns the first connection. If every address answers once and the context does
  not end, the first attempt that succeeds is the result, whatever failed before it; a
  connection that is returned comes from an attempt's event; only filtered addresses are
  dialled, and the fallback addresses not before a preferred attempt failed or the timer
  fired.\<close>

theorem happy_eyeballs_first_success:
  assumes "list_all (\<lambda>ev. is_failure ev \<or> is_tick ev) pre"
    and "length (filter is_failure pre) < length (filter_family la pref) + length (filter_family la fb)"
    and "filter_family la pref \<noteq> [] \<or> (\<exists>rest. pre = Timer # rest)"
  shows "fst (dialHappyEyeballs la pref fb (pre @ Dialed a (Inr c) # post)) = Some (Inr c) \<and>
    (\<forall>evs d. fst (dialHappyEyeballs la pref fb evs) = Some (Inr d) \<longrightarrow> (\<exists>b. Dialed b (Inr d) \<in> set evs)) \<and>
    (\<forall>evs. set (snd (dialHappyEyeballs la pref fb evs)) \<subseteq> set (filter_family la pref @ filter_family la fb)) \<and>
    (\<forall>ev evs. is_failure ev \<or> is_tick ev \<or> set (snd (dialHappyEyeballs la pref fb (ev # evs))) \<subseteq> set (filter_family la pref))"
proof (intro conjI allI impI)
  let ?p = "filter_family la pref" and ?f = "filter_family la fb"
  show "fst (dialHappyEyeballs la pref fb (pre @ Dialed a (Inr c) # post)) = Some (Inr c)"
  proof (cases "?f = []")
    case True
    with assms await_results_success [OF assms(1), of "length ?p" None a c post] show ?thesis
      by (auto simp: dialHappyEyeballs_def Let_def)
  next
    case f: False
    show ?thesis
    proof (cases pre)
      case Nil
      with f assms(2) show ?thesis by (simp add: dialHappyEyeballs_def Let_def)
    next
      case (Cons ev rest)
      have r: "list_all (\<lambda>ev. is_failure ev \<or> is_tick ev) rest" using assms(1) Cons by simp
      show ?thesis
      proof (cases ev)
        case (Dialed b e)
        then obtain x where e: "e = Inl x" using assms(1) Cons by (cases e) auto
        have "length (filter is_failure rest) < length ?p - 1 + length ?f"
          using assms(2,3) Cons Dialed e by (cases ?p) auto
        with await_results_success [OF r this, of None a c post] f Cons Dialed e show ?thesis
          by (simp add: dialHappyEyeballs_def Let_def)
      next
        case Timer
        with await_results_success [OF r, of "length ?p + length ?f" None a c post] f Cons assms(2) show ?thesis
          by (simp add: dialHappyEyeballs_def Let_def)
      qed (use assms(1) Cons in auto)
    qed
  qed
next
  fix evs d
  assume "fst (dialHappyEyeballs la pref fb evs) = Some (Inr d)"
  then show "\<exists>b. Dialed b (Inr d) \<in> set evs"
    by (auto simp: dialHappyEyeballs_def Let_def dest!: await_results_from
        split: if_splits list.splits dial_event.splits sum.splits)
qed (auto simp: dialHappyEyeballs_def Let_def split: list.splits dial_event.splits sum.splits)

theorem happy_eyeballs_first_success_witness:
  "fst (dialHappyEyeballs '''' [replicate 16 1] [[1, 2, 3, 4]]
     ([Timer, Dialed (replicate 16 1) (Inl ''unreachable'')] @ Dialed [1, 2, 3, 4] (Inr 7) # [])) = Some (Inr 7)"
proof -
  have "filter_family '''' ips = ips" for ips by (simp add: filter_family_def)
  then show ?thesis
    by (intro happy_eyeballs_first_success [THEN conjunct1]) simp_all
qed

section \<open>Proxy URLs and proxy clients\<close>

lemma index_of_sub_append: "d \<notin> set p \<Longrightarrow> index_of (p @ (d # sub) @ t) (d # sub) = Some (length p)"
proof (induction p)
  case Nil
  then show ?case using has_prefix_append [of "d # sub" t] by simp
qed auto

lemma split_at_first_sub: "d \<notin> set p \<Longrightarrow> split_at_first (p @ (d # sub) @ t) (d # sub) = Some (p, t)"
proof -
  assume "d \<notin> set p"
  then have "index_of (p @ (d # sub) @ t) (d # sub) = Some (length p)" by (rule index_of_sub_append)
  then show ?thesis unfolding split_at_first_def by simp
qed

lemma split_at_first_char: "d \<notin> set p \<Longrightarrow> split_at_first (p @ d # t) [d] = Some (p, t)"
  using split_at_first_sub [of d p "[]" t] by simp

lemma split_at_first_none: "d \<notin> set s \<Longrightarrow> split_at_first s [d] = None"
  using index_of_char_None [THEN iffD2, of d s] by (simp add: split_at_first_def)

lemma split_at_last_char: "d \<notin> set t \<Longrightarrow> split_at_last (p @ d # t) [d] = Some (p, t)"
  by (simp add: split_at_last_def last_index_of_char_append)

definition proxy_url_string :: "string \<Rightarrow> (string \<times> string) option \<Rightarrow> string \<Rightarrow> string \<Rightarrow> string" where
  "proxy_url_string scheme user host port =
     scheme @ ''://'' @ (case user of None \<Rightarrow> '''' | Some (u, p) \<Rightarrow> u @ '':'' @ p @ ''@'') @ host @ '':'' @ port"

text \<open>
  Parsing a proxy URL returns its parts: the scheme, the user name and password (empty without
  them), the host, IPv6 in brackets included, and the port; provided that the at sign occurs
  in none of the parts and the colon only in the password and the host.\<close>

theorem proxy_url_roundtrip:
  assumes "CHR '':'' \<notin> set scheme" and "CHR ''@'' \<notin> set host \<union> set port" and "CHR '':'' \<notin> set port"
    and "port \<noteq> ''''" and "\<forall>(u, p) \<in> set_option user. CHR '':'' \<notin> set u \<and> CHR ''@'' \<notin> set u \<union> set p"
  shows "parseProxyURL (proxy_url_string scheme user host port) =
    \<lparr>px_Scheme = scheme, px_Host = host, px_Port = port,
     px_Username = (case user of None \<Rightarrow> '''' | Some (u, p) \<Rightarrow> u),
     px_Password = (case user of None \<Rightarrow> '''' | Some (u, p) \<Rightarrow> p)\<rparr>"
proof -
  let ?rest = "(case user of None \<Rightarrow> '''' | Some (u, p) \<Rightarrow> u @ '':'' @ p @ ''@'') @ host @ '':'' @ port"
  have s: "split_at_first (scheme @ ''://'' @ ?rest) ''://'' = Some (scheme, ?rest)"
    using split_at_first_sub [OF assms(1), of "''//''" ?rest] by simp
  then have h: "hasScheme (scheme @ ''://'' @ ?rest)"
    by (auto simp: hasScheme_def split_at_first_def split: option.splits)
  have hp: "split_at_last (host @ '':'' @ port) '':'' = Some (host, port)"
    using split_at_last_char [OF assms(3)] by simp
  show ?thesis
  proof (cases user)
    case None
    then have "split_at_first (host @ '':'' @ port) ''@'' = None"
      using assms(2) by (intro split_at_first_none) auto
    with s h hp None assms(4) show ?thesis by (simp add: parseProxyURL_def proxy_url_string_def)
  next
    case (Some up)
    obtain u p where up: "user = Some (u, p)" using Some by (cases up) auto
    have at: "split_at_first ((u @ '':'' @ p) @ CHR ''@'' # host @ '':'' @ port) ''@'' = Some (u @ '':'' @ p, host @ '':'' @ port)"
      by (rule split_at_first_char) (use assms(5) up in auto)
    have c: "split_at_first (u @ CHR '':'' # p) '':'' = Some (u, p)"
      by (rule split_at_first_char) (use assms(5) up in auto)
    show ?thesis using s h hp at c up assms(4) by (simp add: parseProxyURL_def proxy_url_string_def)
  qed
qed

theorem proxy_url_roundtrip_witness:
  "parseProxyURL (proxy_url_string ''socks5'' (Some (''u'', ''p:q'')) ''[::1]'' ''1080'') =
     \<lparr>px_Scheme = ''socks5'', px_Host = ''[::1]'', px_Port = ''1080'', px_Username = ''u'', px_Password = ''p:q''\<rparr>"
  using proxy_url_roundtrip [of "''socks5''" "''[::1]''" "''1080''" "Some (''u'', ''p:q'')"] by simp

text \<open>
  Three inputs outside those conditions are misread: a password with an at sign is cut there, a
  bracketed IPv6 host without a port is cut at its last colon, and a slash after the port stays
  in the port.
\<close>

lemma proxy_url_misread:
  "px_Host (parseProxyURL ''http://u:p@q@h.test:80'') = ''q@h.test''"
  "px_Host (parseProxyURL ''http://[::1]'') = ''[:''"
  "px_Port (parseProxyURL ''http://h.test:80/'') = ''80/''"
  by code_simp+

text \<open>
  The pool's own SOCKS5 client reads ten bytes of the reply whatever its address type: after a
  reply with an IPv6 address twelve bytes of the reply are left and are taken for the server's
  TLS data; the other client consumes the whole reply on the same bytes. A greeting answer
  split into two pieces makes it ignore the chosen method, because one \<open>Read\<close> is not \<open>ReadFull\<close>.\<close>

theorem pool_socks5_reply_left_over:
  "let reply = [5, 0, 0, 4] @ replicate 18 7; px = parseProxyURL ''socks5://p.test'' in
   dialSOCKS5Proxy px ''1.2.3.4'' ''443'' \<lparr>pieces = [[5, 0], reply @ [22]], sent = []\<rparr> =
     (Inr (), \<lparr>pieces = [replicate 12 7 @ [22]], sent = [[5, 1, 0], pool_connect_request ''1.2.3.4'' ''443'']\<rparr>) \<and>
   inp (snd (socks5Connect (\<lambda>_. None) ''1.2.3.4'' '''' (plain_conn (reply @ [22])))) = [22] \<and>
   fst (dialSOCKS5Proxy px ''1.2.3.4'' ''443'' \<lparr>pieces = [[5], [0xFF], [5, 0, 0, 1, 0, 0, 0, 0, 0, 0]], sent = []\<rparr>) =
     Inl ''SOCKS5: invalid version in response''"
  by code_simp

end
