(* ===== verification/GoUrl.thy ===== *)
theory GoUrl
  imports NetIp
begin

text \<open>
  The part of Go's \<open>net/url\<close> package that the sources use: \<open>Parse\<close>, \<open>Hostname\<close>, \<open>Port\<close>,
  \<open>EscapedPath\<close>, \<open>ResolveReference\<close> and \<open>String\<close>. Every error of the library is \<open>None\<close>. The
  content of a bracketed host is checked with \<open>ParseIP\<close> up to a zone.
\<close>

record URL =
  u_Scheme :: string
  u_Opaque :: string
  u_User :: "(string \<times> string option) option"
  u_Host :: string
  u_Path :: string
  u_RawPath :: string
  u_OmitHost :: bool
  u_ForceQuery :: bool
  u_RawQuery :: string
  u_Fragment :: string
  u_RawFragment :: string

definition empty_url :: URL where
  "empty_url = \<lparr>u_Scheme = '''', u_Opaque = '''', u_User = None, u_Host = '''', u_Path = '''', u_RawPath = '''',
     u_OmitHost = False, u_ForceQuery = False, u_RawQuery = '''', u_Fragment = '''', u_RawFragment = ''''\<rparr>"

section \<open>Percent encoding\<close>

datatype encoding = EncPath | EncUserPassword | EncHost | EncZone | EncFragment

definition is_alpha :: "char \<Rightarrow> bool" where
  "is_alpha c \<longleftrightarrow> (let n = of_char c :: nat in (97 \<le> n \<and> n \<le> 122) \<or> (65 \<le> n \<and> n \<le> 90))"

definition shouldEscape :: "char \<Rightarrow> encoding \<Rightarrow> bool" where
  "shouldEscape c mode =
     (if is_alpha c \<or> is_digit c then False
      else if mode \<in> {EncHost, EncZone} \<and> c \<in> set ''!$&()*+,;=:[]<>'' \<union> {CHR 0x27, CHR 0x22} then False
      else if c \<in> set ''-_.~'' then False
      else if c \<in> set ''$&+,/:;=?@'' then
        (case mode of
           EncPath \<Rightarrow> c = CHR ''?''
         | EncUserPassword \<Rightarrow> c \<in> set ''@/?:''
         | EncFragment \<Rightarrow> False
         | _ \<Rightarrow> True)
      else \<not> (mode = EncFragment \<and> c \<in> set ''!()*''))"

fun unescape :: "encoding \<Rightarrow> string \<Rightarrow> string option" where
  "unescape mode [] = Some []"
| "unescape mode (c # s) =
     (if c = CHR ''%'' then
        (case s of
           h # l # rest \<Rightarrow>
             (case (hex_val h, hex_val l) of
                (Some a, Some b) \<Rightarrow>
                  if (mode = EncHost \<and> a < 8 \<and> \<not> (h = CHR ''2'' \<and> l = CHR ''5'')) \<or>
                     (mode = EncZone \<and> \<not> (h = CHR ''2'' \<and> l = CHR ''5'') \<and> a * 16 + b \<noteq> 32 \<and>
                      shouldEscape (char_of (a * 16 + b)) EncHost)
                  then None
                  else map_option ((#) (char_of (a * 16 + b))) (unescape mode rest)
              | _ \<Rightarrow> None)
         | _ \<Rightarrow> None)
      else if mode \<in> {EncHost, EncZone} \<and> of_char c < (128 :: nat) \<and> shouldEscape c mode then None
      else map_option ((#) c) (unescape mode s))"

definition upper_hex :: "nat \<Rightarrow> char" where
  "upper_hex d = (if d < 10 then char_of (48 + d) else char_of (55 + d))"

definition escape_url :: "encoding \<Rightarrow> string \<Rightarrow> string" where
  "escape_url mode s =
     concat (map (\<lambda>c. if shouldEscape c mode
                      then [CHR ''%'', upper_hex (of_char c div 16), upper_hex (of_char c mod 16)] else [c]) s)"

definition validEncoded :: "encoding \<Rightarrow> string \<Rightarrow> bool" where
  "validEncoded mode s =
     list_all (\<lambda>c. c \<in> set ''!$&()*+,;=:@[]%'' \<or> c = CHR 0x27 \<or> \<not> shouldEscape c mode) s"

definition EscapedPath :: "URL \<Rightarrow> string" where
  "EscapedPath u =
     (if u_RawPath u \<noteq> '''' \<and> validEncoded EncPath (u_RawPath u) \<and> unescape EncPath (u_RawPath u) = Some (u_Path u)
      then u_RawPath u
      else if u_Path u = ''*'' then ''*'' else escape_url EncPath (u_Path u))"

definition EscapedFragment :: "URL \<Rightarrow> string" where
  "EscapedFragment u =
     (if u_RawFragment u \<noteq> '''' \<and> validEncoded EncFragment (u_RawFragment u) \<and>
         unescape EncFragment (u_RawFragment u) = Some (u_Fragment u)
      then u_RawFragment u else escape_url EncFragment (u_Fragment u))"

definition setPath :: "string \<Rightarrow> URL \<Rightarrow> URL option" where
  "setPath p u =
     (case unescape EncPath p of
        None \<Rightarrow> None
      | Some path \<Rightarrow> Some (u\<lparr>u_Path := path, u_RawPath := (if escape_url EncPath path = p then '''' else p)\<rparr>))"

definition setFragment :: "string \<Rightarrow> URL \<Rightarrow> URL option" where
  "setFragment f u =
     (case unescape EncFragment f of
        None \<Rightarrow> None
      | Some frag \<Rightarrow> Some (u\<lparr>u_Fragment := frag, u_RawFragment := (if escape_url EncFragment frag = f then '''' else f)\<rparr>))"

section \<open>Parsing\<close>

text \<open>\<open>strings.Cut(s, sep)\<close> for a one-character separator.\<close>

definition cut_at :: "char \<Rightarrow> string \<Rightarrow> string \<times> string" where
  "cut_at d s = (case index_of s [d] of None \<Rightarrow> (s, '''') | Some i \<Rightarrow> (take i s, drop (i + 1) s))"

text \<open>\<open>getScheme\<close>: no scheme is the empty one, a leading colon is an error.\<close>

fun scheme_loop :: "string \<Rightarrow> string \<Rightarrow> string \<Rightarrow> (string \<times> string) option" where
  "scheme_loop raw acc [] = Some ('''', raw)"
| "scheme_loop raw acc (c # s) =
     (if is_alpha c then scheme_loop raw (acc @ [c]) s
      else if is_digit c \<or> c \<in> set ''+-.'' then
        (if acc = '''' then Some ('''', raw) else scheme_loop raw (acc @ [c]) s)
      else if c = CHR '':'' then (if acc = '''' then None else Some (acc, s))
      else Some ('''', raw))"

definition getScheme :: "string \<Rightarrow> (string \<times> string) option" where
  "getScheme raw = scheme_loop raw '''' raw"

definition validOptionalPort :: "string \<Rightarrow> bool" where
  "validOptionalPort p \<longleftrightarrow> p = '''' \<or> (hd p = CHR '':'' \<and> list_all is_digit (tl p))"

definition valid_bracketed :: "string \<Rightarrow> bool" where
  "valid_bracketed h \<longleftrightarrow> contains h '':'' \<and> ParseIP (fst (cut_at CHR ''%'' h)) \<noteq> None"

definition parseHost :: "string \<Rightarrow> string option" where
  "parseHost host =
     (case last_index_of host ''['' of
        Some a \<Rightarrow>
          (case last_index_of host '']'' of
             None \<Rightarrow> None
           | Some b \<Rightarrow>
               let colonPort = drop (b + 1) host;
                   hostname = take (b - (a + 1)) (drop (a + 1) host);
                   plain = (case index_of hostname ''%25'' of
                       None \<Rightarrow> unescape EncHost hostname
                     | Some z \<Rightarrow>
                         (case (unescape EncHost (take z hostname), unescape EncZone (drop z hostname)) of
                            (Some h, Some zn) \<Rightarrow> Some (h @ zn)
                          | _ \<Rightarrow> None)) in
               if \<not> validOptionalPort colonPort then None
               else case plain of
                   Some h \<Rightarrow> if valid_bracketed h then Some (''['' @ h @ '']'' @ colonPort) else None
                 | None \<Rightarrow> None)
      | None \<Rightarrow>
          (case index_of host '':'' of
             Some i \<Rightarrow> if validOptionalPort (drop i host) then unescape EncHost host else None
           | None \<Rightarrow> unescape EncHost host))"

definition validUserinfo :: "string \<Rightarrow> bool" where
  "validUserinfo s = list_all (\<lambda>c. is_alpha c \<or> is_digit c \<or> c \<in> set ''-._:~!$&()*+,;=%@'' \<or> c = CHR 0x27) s"

definition parse_user :: "string \<Rightarrow> (string \<times> string option) option" where
  "parse_user ui =
     (if \<not> validUserinfo ui then None
      else if \<not> contains ui '':'' then map_option (\<lambda>n. (n, None)) (unescape EncUserPassword ui)
      else case (unescape EncUserPassword (fst (cut_at CHR '':'' ui)), unescape EncUserPassword (snd (cut_at CHR '':'' ui))) of
          (Some n, Some p) \<Rightarrow> Some (n, Some p)
        | _ \<Rightarrow> None)"

definition parseAuthority :: "string \<Rightarrow> ((string \<times> string option) option \<times> string) option" where
  "parseAuthority a =
     (case last_index_of a ''@'' of
        None \<Rightarrow> map_option (\<lambda>h. (None, h)) (parseHost a)
      | Some i \<Rightarrow>
          (case (parseHost (drop (i + 1) a), parse_user (take i a)) of
             (Some h, Some u) \<Rightarrow> Some (Some u, h)
           | _ \<Rightarrow> None))"

definition is_ctl :: "char \<Rightarrow> bool" where
  "is_ctl c \<longleftrightarrow> of_char c < (32 :: nat) \<or> of_char c = (127 :: nat)"

definition split_query :: "string \<Rightarrow> URL \<Rightarrow> string \<times> URL" where
  "split_query rest u =
     (if has_suffix rest ''?'' \<and> CHR ''?'' \<notin> set (butlast rest) then (butlast rest, u\<lparr>u_ForceQuery := True\<rparr>)
      else (fst (cut_at CHR ''?'' rest), u\<lparr>u_RawQuery := snd (cut_at CHR ''?'' rest)\<rparr>))"

definition parse_rest :: "string \<Rightarrow> URL \<Rightarrow> URL option" where
  "parse_rest rest u =
     (if \<not> has_prefix rest ''/'' \<and> u_Scheme u \<noteq> '''' then Some (u\<lparr>u_Opaque := rest\<rparr>)
      else if \<not> has_prefix rest ''/'' \<and> contains (fst (cut_at CHR ''/'' rest)) '':'' then None
      else if (u_Scheme u \<noteq> '''' \<or> \<not> has_prefix rest ''///'') \<and> has_prefix rest ''//'' then
        (let after = drop 2 rest;
             i = (case index_of after ''/'' of None \<Rightarrow> length after | Some i \<Rightarrow> i) in
         case parseAuthority (take i after) of
           None \<Rightarrow> None
         | Some (user, host) \<Rightarrow> setPath (drop i after) (u\<lparr>u_User := user, u_Host := host\<rparr>))
      else setPath rest (if u_Scheme u \<noteq> '''' \<and> has_prefix rest ''/'' then u\<lparr>u_OmitHost := True\<rparr> else u))"

definition parse_no_fragment :: "string \<Rightarrow> URL option" where
  "parse_no_fragment raw =
     (if list_ex is_ctl raw then None
      else if raw = ''*'' then Some (empty_url\<lparr>u_Path := ''*''\<rparr>)
      else case getScheme raw of
          None \<Rightarrow> None
        | Some (scheme, rest0) \<Rightarrow>
            (let (rest, u) = split_query rest0 (empty_url\<lparr>u_Scheme := to_lower scheme\<rparr>) in parse_rest rest u))"

definition Parse :: "string \<Rightarrow> URL option" where
  "Parse raw =
     (let (body, frag) = cut_at CHR ''#'' raw in
      case parse_no_fragment body of
        None \<Rightarrow> None
      | Some u \<Rightarrow> if frag = '''' then Some u else setFragment frag u)"

definition split_host_port :: "string \<Rightarrow> string \<times> string" where
  "split_host_port hp =
     (let (host, port) =
        (case last_index_of hp '':'' of
           Some i \<Rightarrow> if validOptionalPort (drop i hp) then (take i hp, drop (i + 1) hp) else (hp, '''')
         | None \<Rightarrow> (hp, '''')) in
      if has_prefix host ''['' \<and> has_suffix host '']'' then (butlast (tl host), port) else (host, port))"

definition Hostname :: "URL \<Rightarrow> string" where
  "Hostname u = fst (split_host_port (u_Host u))"

definition Port :: "URL \<Rightarrow> string" where
  "Port u = snd (split_host_port (u_Host u))"

section \<open>References and printing\<close>

text \<open>
  The loop of \<open>resolvePath\<close> over the elements of the path: \<open>dst\<close> is the text after the leading
  slash, \<open>first\<close> whether the next element starts it.
\<close>

fun resolve_loop :: "string list \<Rightarrow> string \<Rightarrow> bool \<Rightarrow> string" where
  "resolve_loop [] dst first = dst"
| "resolve_loop (e # es) dst first =
     (if e = ''.'' then resolve_loop es dst False
      else if e = ''..'' then
        (case last_index_of dst ''/'' of
           None \<Rightarrow> resolve_loop es '''' True
         | Some i \<Rightarrow> resolve_loop es (take i dst) first)
      else resolve_loop es ((if first then dst else dst @ ''/'') @ e) False)"

definition resolvePath :: "string \<Rightarrow> string \<Rightarrow> string" where
  "resolvePath base ref =
     (let full = (if ref = '''' then base
                  else if hd ref \<noteq> CHR ''/'' then
                    (case last_index_of base ''/'' of None \<Rightarrow> ref | Some i \<Rightarrow> take (i + 1) base @ ref)
                  else ref) in
      if full = '''' then ''''
      else let elems = split_on CHR ''/'' full;
               r = ''/'' @ resolve_loop elems '''' True @ (if last elems \<in> {''.'', ''..''} then ''/'' else '''') in
           if has_prefix r ''//'' then tl r else r)"

definition with_path :: "string \<Rightarrow> URL \<Rightarrow> URL" where
  "with_path p u = (case setPath p u of Some u' \<Rightarrow> u' | None \<Rightarrow> u)"

definition ResolveReference :: "URL \<Rightarrow> URL \<Rightarrow> URL" where
  "ResolveReference u ref =
     (let url = (if u_Scheme ref = '''' then ref\<lparr>u_Scheme := u_Scheme u\<rparr> else ref) in
      if u_Scheme ref \<noteq> '''' \<or> u_Host ref \<noteq> '''' \<or> u_User ref \<noteq> None
      then with_path (resolvePath (EscapedPath ref) '''') url
      else if u_Opaque ref \<noteq> '''' then url\<lparr>u_User := None, u_Host := '''', u_Path := ''''\<rparr>
      else
        let url1 = (if u_Path ref = '''' \<and> \<not> u_ForceQuery ref \<and> u_RawQuery ref = ''''
                    then (if u_Fragment ref = ''''
                          then url\<lparr>u_RawQuery := u_RawQuery u, u_Fragment := u_Fragment u, u_RawFragment := u_RawFragment u\<rparr>
                          else url\<lparr>u_RawQuery := u_RawQuery u\<rparr>)
                    else url) in
        if u_Path ref = '''' \<and> u_Opaque u \<noteq> ''''
        then url1\<lparr>u_Opaque := u_Opaque u, u_User := None, u_Host := '''', u_Path := ''''\<rparr>
        else with_path (resolvePath (EscapedPath u) (EscapedPath ref)) (url1\<lparr>u_Host := u_Host u, u_User := u_User u\<rparr>))"

definition user_string :: "string \<times> string option \<Rightarrow> string" where
  "user_string ui =
     escape_url EncUserPassword (fst ui) @
     (case snd ui of None \<Rightarrow> '''' | Some p \<Rightarrow> '':'' @ escape_url EncUserPassword p)"

definition URL_String :: "URL \<Rightarrow> string" where
  "URL_String u =
     (let scheme = (if u_Scheme u \<noteq> '''' then u_Scheme u @ '':'' else '''');
          path = EscapedPath u;
          authority =
            (if (u_Scheme u \<noteq> '''' \<or> u_Host u \<noteq> '''' \<or> u_User u \<noteq> None) \<and>
                \<not> (u_OmitHost u \<and> u_Host u = '''' \<and> u_User u = None)
             then (if u_Host u \<noteq> '''' \<or> u_Path u \<noteq> '''' \<or> u_User u \<noteq> None then ''//'' else '''') @
                  (case u_User u of None \<Rightarrow> '''' | Some ui \<Rightarrow> user_string ui @ ''@'') @
                  escape_url EncHost (u_Host u)
             else '''');
          slash = (if path \<noteq> '''' \<and> hd path \<noteq> CHR ''/'' \<and> u_Host u \<noteq> '''' then ''/'' else '''');
          dot = (if scheme @ authority @ slash = '''' \<and> contains (fst (cut_at CHR ''/'' path)) '':'' then ''./'' else '''');
          body = (if u_Opaque u \<noteq> '''' then u_Opaque u else authority @ slash @ dot @ path)
      in scheme @ body @
         (if u_ForceQuery u \<or> u_RawQuery u \<noteq> '''' then ''?'' @ u_RawQuery u else '''') @
         (if u_Fragment u \<noteq> '''' then ''#'' @ EscapedFragment u else ''''))"

end
