(* ===== verification/TransportErrors.thy ===== *)
theory TransportErrors
  imports Prelude
begin

text \<open>
  The error values of the transport, \<open>transport/errors.go\<close>: the categories, \<open>TransportError\<close> and
  its constructors, the classification of a raw error by type and text, and the predicates
  clients use. A Go error is a value of \<open>go_error\<close>; \<open>error_text\<close> is \<open>Error()\<close>, \<open>unwrap\<close> is
  \<open>Unwrap()\<close>, \<open>errors_is\<close> and the functions \<open>as_\<dots>\<close> are \<open>errors.Is\<close> and \<open>errors.As\<close>.
\<close>

section \<open>Values\<close>

datatype category =
    ErrConnection | ErrTLS | ErrDNS | ErrTimeout | ErrProxy | ErrProtocol | ErrRequest | ErrResponse
  | ErrClosed | ErrALPNMismatch

text \<open>
  \<open>TextError\<close> is an error of any other type; \<open>WrapText\<close> one that wraps another
  (\<open>fmt.Errorf\<close> with \<open>%w\<close>); \<open>NetError\<close> a \<open>net.Error\<close> with the results of \<open>Timeout()\<close> and
  \<open>Temporary()\<close> and what it wraps; \<open>DNSError\<close> a \<open>*net.DNSError\<close>.
\<close>

datatype go_error =
    Category category
  | TextError string
  | WrapText string go_error
  | NetError string bool bool "go_error option"
  | DNSError string bool bool
  | ALPNMismatchError (alpn_Expected: string) (alpn_Negotiated: string) (alpn_TLSConn: nat)
      (alpn_Host: string) (alpn_Port: string)
  | TransportError (te_Op: string) (te_Host: string) (te_Port: string) (te_Protocol: string)
      (te_Cause: "go_error option") (te_Category: "category option") (te_Retryable: bool)

fun category_text :: "category \<Rightarrow> string" where
  "category_text ErrConnection = ''connection error''"
| "category_text ErrTLS = ''TLS error''"
| "category_text ErrDNS = ''DNS error''"
| "category_text ErrTimeout = ''timeout error''"
| "category_text ErrProxy = ''proxy error''"
| "category_text ErrProtocol = ''protocol error''"
| "category_text ErrRequest = ''request error''"
| "category_text ErrResponse = ''response error''"
| "category_text ErrClosed = ''transport closed''"
| "category_text ErrALPNMismatch = ''ALPN mismatch''"

text \<open>\<open>TransportError.Error\<close>, with the text of the cause given.\<close>

definition transport_error_text :: "string \<Rightarrow> string \<Rightarrow> string \<Rightarrow> string \<Rightarrow> string option \<Rightarrow> string" where
  "transport_error_text op host port protocol cause =
     op @
     (if host \<noteq> '''' then '' '' @ host @
        (if port \<noteq> '''' \<and> port \<noteq> ''443'' \<and> port \<noteq> ''80'' then '':'' @ port else '''') else '''') @
     (if protocol \<noteq> '''' then '' ['' @ protocol @ '']'' else '''') @
     (case cause of None \<Rightarrow> '''' | Some t \<Rightarrow> '': '' @ t)"

fun error_text :: "go_error \<Rightarrow> string" where
  "error_text (Category c) = category_text c"
| "error_text (TextError t) = t"
| "error_text (WrapText t e) = t @ '': '' @ error_text e"
| "error_text (NetError t timeout temporary inner) = t"
| "error_text (DNSError t timeout temporary) = t"
| "error_text (ALPNMismatchError expected negotiated conn host port) =
     ''ALPN mismatch: expected '' @ expected @ '', got '' @ negotiated"
| "error_text (TransportError op host port protocol cause cat retryable) =
     transport_error_text op host port protocol (map_option error_text cause)"

fun unwrap :: "go_error \<Rightarrow> go_error option" where
  "unwrap (WrapText t e) = Some e"
| "unwrap (NetError t timeout temporary inner) = inner"
| "unwrap (ALPNMismatchError expected negotiated conn host port) = Some (Category ErrALPNMismatch)"
| "unwrap (TransportError op host port protocol cause cat retryable) = cause"
| "unwrap _ = None"

text \<open>\<open>errors.Is\<close> against a category: the error itself, its \<open>Is\<close> method, then what it wraps.\<close>

fun errors_is :: "go_error \<Rightarrow> category \<Rightarrow> bool" where
  "errors_is (Category c) target = (c = target)"
| "errors_is (WrapText t e) target = errors_is e target"
| "errors_is (NetError t timeout temporary inner) target =
     (case inner of None \<Rightarrow> False | Some e \<Rightarrow> errors_is e target)"
| "errors_is (ALPNMismatchError expected negotiated conn host port) target = (target = ErrALPNMismatch)"
| "errors_is (TransportError op host port protocol cause cat retryable) target =
     (cat = Some target \<or> (case cause of None \<Rightarrow> False | Some e \<Rightarrow> errors_is e target))"
| "errors_is _ target = False"

fun as_transport :: "go_error \<Rightarrow> go_error option" where
  "as_transport (TransportError op host port protocol cause cat retryable) =
     Some (TransportError op host port protocol cause cat retryable)"
| "as_transport (WrapText t e) = as_transport e"
| "as_transport (NetError t timeout temporary inner) = (case inner of None \<Rightarrow> None | Some e \<Rightarrow> as_transport e)"
| "as_transport _ = None"

fun as_alpn :: "go_error \<Rightarrow> go_error option" where
  "as_alpn (ALPNMismatchError expected negotiated conn host port) =
     Some (ALPNMismatchError expected negotiated conn host port)"
| "as_alpn (WrapText t e) = as_alpn e"
| "as_alpn (NetError t timeout temporary inner) = (case inner of None \<Rightarrow> None | Some e \<Rightarrow> as_alpn e)"
| "as_alpn (TransportError op host port protocol cause cat retryable) =
     (case cause of None \<Rightarrow> None | Some e \<Rightarrow> as_alpn e)"
| "as_alpn _ = None"

section \<open>Classification of a raw error\<close>

text \<open>The type assertions \<open>err.(net.Error)\<close> and \<open>err.(*net.DNSError)\<close> look at the outermost error only.\<close>

fun net_timeout :: "go_error \<Rightarrow> bool" where
  "net_timeout (NetError t timeout temporary inner) = timeout"
| "net_timeout (DNSError t timeout temporary) = timeout"
| "net_timeout _ = False"

fun net_temporary :: "go_error \<Rightarrow> bool" where
  "net_temporary (NetError t timeout temporary inner) = temporary"
| "net_temporary (DNSError t timeout temporary) = temporary"
| "net_temporary _ = False"

fun is_dns_error :: "go_error \<Rightarrow> bool" where
  "is_dns_error (DNSError t timeout temporary) = True"
| "is_dns_error _ = False"

definition contains_any :: "string \<Rightarrow> string list \<Rightarrow> bool" where
  "contains_any s subs = list_ex (contains s) subs"

definition categorizeError :: "go_error \<Rightarrow> category" where
  "categorizeError err =
     (let errStr = to_lower (error_text err) in
      if net_timeout err then ErrTimeout
      else if is_dns_error err then ErrDNS
      else if contains_any errStr [''tls'', ''certificate'', ''x509'', ''handshake''] then ErrTLS
      else if contains_any errStr [''connection refused'', ''connection reset'', ''broken pipe'',
          ''no route to host'', ''network is unreachable''] then ErrConnection
      else if contains errStr ''proxy'' then ErrProxy
      else if contains_any errStr [''protocol'', ''http2'', ''alpn''] then ErrProtocol
      else ErrConnection)"

definition isRetryableError :: "go_error option \<Rightarrow> bool" where
  "isRetryableError cause =
     (case cause of
        None \<Rightarrow> False
      | Some err \<Rightarrow>
          net_timeout err \<or> net_temporary err \<or>
          contains_any (to_lower (error_text err)) [''connection reset'', ''connection refused'', ''broken pipe''] \<or>
          is_dns_error err \<or> contains (to_lower (error_text err)) ''eof'')"

section \<open>Constructors\<close>

definition NewConnectionError :: "string \<Rightarrow> string \<Rightarrow> string \<Rightarrow> string \<Rightarrow> go_error option \<Rightarrow> go_error" where
  "NewConnectionError op host port protocol cause =
     TransportError op host port protocol cause (Some ErrConnection) (isRetryableError cause)"

definition NewTLSError :: "string \<Rightarrow> string \<Rightarrow> string \<Rightarrow> string \<Rightarrow> go_error option \<Rightarrow> go_error" where
  "NewTLSError op host port protocol cause = TransportError op host port protocol cause (Some ErrTLS) False"

definition NewDNSError :: "string \<Rightarrow> go_error option \<Rightarrow> go_error" where
  "NewDNSError host cause = TransportError ''dns_resolve'' host '''' '''' cause (Some ErrDNS) True"

definition NewTimeoutError :: "string \<Rightarrow> string \<Rightarrow> string \<Rightarrow> string \<Rightarrow> go_error option \<Rightarrow> go_error" where
  "NewTimeoutError op host port protocol cause = TransportError op host port protocol cause (Some ErrTimeout) True"

definition NewProxyError :: "string \<Rightarrow> string \<Rightarrow> string \<Rightarrow> go_error option \<Rightarrow> go_error" where
  "NewProxyError op host port cause = TransportError op host port '''' cause (Some ErrProxy) False"

definition NewProtocolError :: "string \<Rightarrow> string \<Rightarrow> string \<Rightarrow> go_error option \<Rightarrow> go_error" where
  "NewProtocolError host port protocol cause =
     TransportError ''protocol_negotiation'' host port protocol cause (Some ErrProtocol) False"

definition NewRequestError :: "string \<Rightarrow> string \<Rightarrow> string \<Rightarrow> string \<Rightarrow> go_error option \<Rightarrow> go_error" where
  "NewRequestError op host port protocol cause =
     TransportError op host port protocol cause (Some ErrRequest) (isRetryableError cause)"

text \<open>\<open>WrapError\<close> of a non-nil error (of nil it returns nil).\<close>

definition WrapError :: "string \<Rightarrow> string \<Rightarrow> string \<Rightarrow> string \<Rightarrow> go_error \<Rightarrow> go_error" where
  "WrapError op host port protocol cause =
     (if as_transport cause \<noteq> None then cause
      else TransportError op host port protocol (Some cause) (Some (categorizeError cause))
             (isRetryableError (Some cause)))"

section \<open>Predicates\<close>

definition category_is :: "go_error \<Rightarrow> category \<Rightarrow> bool" where
  "category_is te c \<longleftrightarrow> te_Category te = Some c"

definition IsTimeout :: "go_error \<Rightarrow> bool" where
  "IsTimeout err = (case as_transport err of Some te \<Rightarrow> category_is te ErrTimeout | None \<Rightarrow> net_timeout err)"

definition IsTLSError :: "go_error \<Rightarrow> bool" where
  "IsTLSError err =
     (case as_transport err of Some te \<Rightarrow> category_is te ErrTLS
      | None \<Rightarrow> contains (to_lower (error_text err)) ''tls'')"

definition IsDNSError :: "go_error \<Rightarrow> bool" where
  "IsDNSError err = (case as_transport err of Some te \<Rightarrow> category_is te ErrDNS | None \<Rightarrow> is_dns_error err)"

definition IsConnectionError :: "go_error \<Rightarrow> bool" where
  "IsConnectionError err = (case as_transport err of Some te \<Rightarrow> category_is te ErrConnection | None \<Rightarrow> False)"

definition IsProxyError :: "go_error \<Rightarrow> bool" where
  "IsProxyError err =
     (case as_transport err of Some te \<Rightarrow> category_is te ErrProxy
      | None \<Rightarrow> contains (to_lower (error_text err)) ''proxy'')"

text \<open>HTTP status codes as errors.\<close>

definition IsClientError :: "int \<Rightarrow> bool" where
  "IsClientError status \<longleftrightarrow> status \<ge> 400 \<and> status < 500"

definition IsServerError :: "int \<Rightarrow> bool" where
  "IsServerError status \<longleftrightarrow> status \<ge> 500"

definition HTTPError_IsRetryable :: "int \<Rightarrow> bool" where
  "HTTPError_IsRetryable status \<longleftrightarrow> status \<in> {408, 425, 429, 500, 502, 503, 504}"

section \<open>Wrapping keeps the classification\<close>

lemma errors_is_alpn: "as_alpn e \<noteq> None \<Longrightarrow> errors_is e ErrALPNMismatch"
  by (induction e) (auto split: option.splits)

lemma as_transport_is_transport:
  "as_transport e = Some te \<Longrightarrow> \<exists>op h p pr c cat r. te = TransportError op h p pr c cat r"
  by (induction e) (auto split: option.splits)

lemma category_in_errors_is:
  "as_transport e = Some te \<Longrightarrow> te_Category te = Some c \<Longrightarrow> errors_is e c"
  by (induction e) (auto split: option.splits)

lemma WrapError_transport: "as_transport (WrapError op h p pr e) \<noteq> None"
  by (simp add: WrapError_def)

lemma WrapError_idem: "WrapError op h p pr (WrapError op' h' p' pr' e) = WrapError op' h' p' pr' e"
  using WrapError_transport by (simp add: WrapError_def [of op h p pr])

lemma WrapError_alpn: "as_alpn (WrapError op h p pr e) = as_alpn e"
  by (simp add: WrapError_def)

text \<open>The categories a raw error can get, and when a raw error counts as retryable.\<close>

lemma categorizeError_range:
  "categorizeError e \<in> {ErrTimeout, ErrDNS, ErrTLS, ErrConnection, ErrProxy, ErrProtocol}"
  by (simp add: categorizeError_def Let_def)

text \<open>
  Wrapping a raw transport failure keeps what is known about it: the wrapped error matches its
  category under \<open>errors.Is\<close>, the client predicates agree with the category, timeouts and DNS
  failures are always retryable, wrapping again changes nothing, and a mismatch of the
  negotiated protocol, which the fallback to HTTP/1.1 looks for, is still found in it.\<close>

theorem wrap_error_classifies:
  assumes "as_transport e = None"
  shows "let w = WrapError op h p pr e in
    errors_is w (categorizeError e) \<and>
    (IsTimeout w \<longleftrightarrow> net_timeout e) \<and>
    (IsDNSError w \<longleftrightarrow> is_dns_error e \<and> \<not> net_timeout e) \<and>
    (IsTLSError w \<longleftrightarrow> categorizeError e = ErrTLS) \<and>
    (IsProxyError w \<longleftrightarrow> categorizeError e = ErrProxy) \<and>
    (IsConnectionError w \<longleftrightarrow> categorizeError e = ErrConnection) \<and>
    (IsTimeout w \<or> IsDNSError w \<longrightarrow> te_Retryable w) \<and>
    WrapError op' h' p' pr' w = w \<and>
    as_alpn w = as_alpn e"
  using assms
  by (auto simp: Let_def WrapError_def IsTimeout_def IsDNSError_def IsTLSError_def IsProxyError_def
      IsConnectionError_def category_is_def categorizeError_def isRetryableError_def)

theorem wrap_error_classifies_witness:
  "let w = WrapError ''roundtrip'' ''a.test'' ''443'' ''h2'' (DNSError ''lookup a.test: no such host'' False False) in
   IsDNSError w \<and> te_Retryable w \<and> \<not> IsTimeout w"
  using wrap_error_classifies [of "DNSError ''lookup a.test: no such host'' False False" "''roundtrip''" "''a.test''" "''443''" "''h2''"]
  by (simp add: Let_def)

text \<open>
  Classification by text: a refused connection to a host whose name contains the letters
  \<open>tls\<close> is reported as a TLS failure, and a DNS failure that a dialer wrapped is not one.
\<close>

lemma host_name_decides_category:
  "categorizeError (NetError ''dial tcp tls.test:443: connection refused'' False False None) = ErrTLS \<and>
   categorizeError (NetError ''dial tcp: lookup a.test: no such host'' False False
     (Some (DNSError ''lookup a.test: no such host'' False False))) = ErrConnection"
  by code_simp

end
