(* ===== verification/BodyPool.thy ===== *)
theory BodyPool
  imports TransportErrors
begin

text \<open>
  Reading response bodies into pooled buffers, \<open>transport/transport.go\<close>: \<open>getPooledBuffer\<close>,
  \<open>readBodyOptimized\<close>, \<open>decompress\<close> and the part of \<open>doHTTP1\<close>, \<open>doHTTP2\<close> and \<open>doHTTP3\<close> that calls
  them. The claims are about aliasing, so the buffers live in an explicit store: a body is a
  slice of a pooled buffer or memory of its own, and releasing a buffer puts it back into the
  pool while slices of it may still exist.
\<close>

section \<open>The buffers\<close>

datatype size_class = Pool1MB | Pool10MB | Pool100MB

text \<open>
  \<open>bs_mem b i\<close> is byte \<open>i\<close> of buffer \<open>b\<close>; buffers from \<open>bs_next\<close> on are not allocated yet; \<open>bs_free\<close>
  are the buffers a pool may hand out.
\<close>

record buf_store =
  bs_mem :: "nat \<Rightarrow> nat \<Rightarrow> byte"
  bs_next :: nat
  bs_free :: "size_class \<Rightarrow> nat list"

definition empty_store :: buf_store where
  "empty_store = \<lparr>bs_mem = (\<lambda>b i. 0), bs_next = 0, bs_free = (\<lambda>c. [])\<rparr>"

definition MB :: nat where
  "MB = 1024 * 1024"

text \<open>The pool for a size; larger buffers are not pooled.\<close>

definition pool_class :: "nat \<Rightarrow> size_class option" where
  "pool_class n =
     (if n \<le> 1 * MB then Some Pool1MB
      else if n \<le> 10 * MB then Some Pool10MB
      else if n \<le> 100 * MB then Some Pool100MB else None)"

text \<open>
  \<open>sync.Pool.Get\<close>: any free buffer (the position is \<open>choice\<close>) or a new one; \<open>Put\<close> is \<open>release\<close>.
\<close>

definition pool_get :: "nat option \<Rightarrow> size_class \<Rightarrow> buf_store \<Rightarrow> nat \<times> buf_store" where
  "pool_get choice c st =
     (case choice of
        Some i \<Rightarrow>
          if i < length (bs_free st c)
          then (bs_free st c ! i,
                st\<lparr>bs_free := (bs_free st)(c := take i (bs_free st c) @ drop (Suc i) (bs_free st c))\<rparr>)
          else (bs_next st, st\<lparr>bs_next := bs_next st + 1\<rparr>)
      | None \<Rightarrow> (bs_next st, st\<lparr>bs_next := bs_next st + 1\<rparr>))"

type_synonym releaser = "(size_class \<times> nat) option"

definition release_buf :: "releaser \<Rightarrow> buf_store \<Rightarrow> buf_store" where
  "release_buf r st =
     (case r of None \<Rightarrow> st
      | Some (c, b) \<Rightarrow> st\<lparr>bs_free := (bs_free st)(c := b # bs_free st c)\<rparr>)"

definition write_buf :: "nat \<Rightarrow> byte list \<Rightarrow> buf_store \<Rightarrow> buf_store" where
  "write_buf b data st =
     st\<lparr>bs_mem := (bs_mem st)(b := (\<lambda>i. if i < length data then data ! i else bs_mem st b i))\<rparr>"

text \<open>A body: the first bytes of a pooled buffer, or memory nobody else uses.\<close>

datatype body_slice = Pooled nat nat | Owned "byte list"

definition read_slice :: "buf_store \<Rightarrow> body_slice \<Rightarrow> byte list" where
  "read_slice st s = (case s of Pooled b n \<Rightarrow> map (bs_mem st b) [0..<n] | Owned bs \<Rightarrow> bs)"

section \<open>Reading and decoding\<close>

text \<open>
  A body reader: the bytes it yields and the error it ends with. \<open>None\<close> is \<open>io.EOF\<close>; the flag of
  the other errors says whether it is \<open>io.ErrUnexpectedEOF\<close>.
\<close>

type_synonym body_reader = "byte list \<times> (bool \<times> go_error) option"

definition end_error :: "body_reader \<Rightarrow> go_error option" where
  "end_error r = map_option snd (snd r)"

text \<open>The error \<open>readBodyOptimized\<close> returns after \<open>io.ReadFull\<close> of \<open>n\<close> bytes: EOF is tolerated.\<close>

definition read_full_error :: "nat \<Rightarrow> body_reader \<Rightarrow> go_error option" where
  "read_full_error n r =
     (if n \<le> length (fst r) then None
      else case snd r of Some (False, e) \<Rightarrow> Some e | _ \<Rightarrow> None)"

definition readBodyOptimized ::
  "nat option \<Rightarrow> body_reader \<Rightarrow> int \<Rightarrow> buf_store \<Rightarrow> (go_error + body_slice \<times> releaser) \<times> buf_store" where
  "readBodyOptimized choice r contentLength st =
     (if contentLength > 0 then
        (let n = nat contentLength; data = take n (fst r) in
         case pool_class n of
           Some c \<Rightarrow>
             (let (b, st1) = pool_get choice c st; st2 = write_buf b data st1 in
              case read_full_error n r of
                Some e \<Rightarrow> (Inl e, release_buf (Some (c, b)) st2)
              | None \<Rightarrow> (Inr (Pooled b (length data), Some (c, b)), st2))
         | None \<Rightarrow>
             (case read_full_error n r of
                Some e \<Rightarrow> (Inl e, st)
              | None \<Rightarrow> (Inr (Owned data, None), st)))
      else
        (let (b, st1) = pool_get choice Pool1MB st;
             st2 = release_buf (Some (Pool1MB, b)) (write_buf b (take (1 * MB) (fst r)) st1) in
         case end_error r of
           Some e \<Rightarrow> (Inl e, st2)
         | None \<Rightarrow> (Inr (Owned (fst r), None), st2)))"

text \<open>
  \<open>decompress\<close>: the four codings go through a decoder (a library, the parameter \<open>dec\<close>), anything
  else, \<open>identity\<close> included, is returned as it is.
\<close>

definition decoded_codings :: "string list" where
  "decoded_codings = [''gzip'', ''br'', ''zstd'', ''deflate'']"

type_synonym decoder = "string \<Rightarrow> byte list \<Rightarrow> go_error + byte list"

definition decompress :: "decoder \<Rightarrow> string \<Rightarrow> buf_store \<Rightarrow> body_slice \<Rightarrow> go_error + body_slice" where
  "decompress dec enc st s =
     (if to_lower enc \<in> set decoded_codings
      then (case dec (to_lower enc) (read_slice st s) of Inl e \<Rightarrow> Inl e | Inr bs \<Rightarrow> Inr (Owned bs))
      else Inr s)"

text \<open>The body of a response, as the three \<open>doHTTP\<close> functions build it after the round trip.\<close>

record incoming =
  in_choice :: "nat option"
  in_reader :: body_reader
  in_length :: int
  in_encoding :: string

datatype body_error = ReadBody go_error | Decompress go_error

definition receive_body :: "decoder \<Rightarrow> incoming \<Rightarrow> buf_store \<Rightarrow> (body_error + body_slice) \<times> buf_store" where
  "receive_body dec m st =
     (case readBodyOptimized (in_choice m) (in_reader m) (in_length m) st of
        (Inl e, st1) \<Rightarrow> (Inl (ReadBody e), st1)
      | (Inr (s, rel), st1) \<Rightarrow>
          if in_encoding m = '''' then (Inr s, st1)
          else case decompress dec (in_encoding m) st1 s of
              Inl e \<Rightarrow> (Inl (Decompress e), release_buf rel st1)
            | Inr s' \<Rightarrow> (Inr s', release_buf rel st1))"

definition receive_all :: "decoder \<Rightarrow> incoming list \<Rightarrow> buf_store \<Rightarrow> buf_store" where
  "receive_all dec ms st = fold (\<lambda>m st. snd (receive_body dec m st)) ms st"

section \<open>Which buffers can change\<close>

definition store_wf :: "buf_store \<Rightarrow> bool" where
  "store_wf st \<longleftrightarrow>
     (\<forall>c. \<forall>b \<in> set (bs_free st c). b < bs_next st) \<and>
     (\<forall>c. distinct (bs_free st c)) \<and>
     (\<forall>c d. c \<noteq> d \<longrightarrow> set (bs_free st c) \<inter> set (bs_free st d) = {})"

text \<open>A buffer that belongs to a body: allocated and in no pool.\<close>

definition held :: "buf_store \<Rightarrow> nat \<Rightarrow> bool" where
  "held st b \<longleftrightarrow> b < bs_next st \<and> (\<forall>c. b \<notin> set (bs_free st c))"

definition body_safe :: "buf_store \<Rightarrow> body_slice \<Rightarrow> bool" where
  "body_safe st s = (case s of Pooled b n \<Rightarrow> held st b | Owned bs \<Rightarrow> True)"

lemma pool_get_wf:
  assumes "store_wf st" "pool_get choice c st = (b, st')"
  shows "store_wf st' \<and> held st' b \<and> (\<forall>x. held st x \<longrightarrow> held st' x \<and> x \<noteq> b) \<and> bs_mem st' = bs_mem st"
proof (cases "\<exists>i. choice = Some i \<and> i < length (bs_free st c)")
  case True
  then obtain i where i: "choice = Some i" "i < length (bs_free st c)" by blast
  let ?fs = "bs_free st c"
  have split: "?fs = take i ?fs @ ?fs ! i # drop (Suc i) ?fs" using i by (simp add: id_take_nth_drop)
  have dist: "distinct ?fs" using assms(1) by (simp add: store_wf_def)
  then have "distinct (take i ?fs @ ?fs ! i # drop (Suc i) ?fs)" using split by simp
  then have rest: "distinct (take i ?fs @ drop (Suc i) ?fs)" "?fs ! i \<notin> set (take i ?fs @ drop (Suc i) ?fs)" by auto
  have sub: "set (take i ?fs @ drop (Suc i) ?fs) \<subseteq> set ?fs" using set_take_subset set_drop_subset by fastforce
  have b: "b = ?fs ! i" and st': "st' = st\<lparr>bs_free := (bs_free st)(c := take i ?fs @ drop (Suc i) ?fs)\<rparr>"
    using assms(2) i by (auto simp: pool_get_def)
  have b_in: "b \<in> set ?fs" using b i by simp
  have other: "b \<notin> set (bs_free st d)" if "d \<noteq> c" for d
    using assms(1) b_in that by (fastforce simp: store_wf_def)
  have "store_wf st'" using assms(1) rest sub by (fastforce simp: store_wf_def st')
  moreover have "held st' b" using assms(1) b_in rest(2) other b by (auto simp: held_def st' store_wf_def)
  moreover have "held st' x \<and> x \<noteq> b" if "held st x" for x
    using that b_in sub by (auto simp: held_def st')
  ultimately show ?thesis by (simp add: st')
next
  case False
  then have b: "b = bs_next st" and st': "st' = st\<lparr>bs_next := bs_next st + 1\<rparr>"
    using assms(2) by (auto simp: pool_get_def split: option.splits if_splits)
  show ?thesis using assms(1) by (fastforce simp: b st' store_wf_def held_def less_SucI)
qed

lemma release_wf:
  assumes "store_wf st" "held st b"
  shows "store_wf (release_buf (Some (c, b)) st)"
  using assms by (auto simp: store_wf_def held_def release_buf_def)

lemma write_buf_simps [simp]:
  "store_wf (write_buf b data st) = store_wf st" "held (write_buf b data st) x = held st x"
  by (simp_all add: write_buf_def store_wf_def held_def)

lemma release_mem [simp]: "bs_mem (release_buf r st) = bs_mem st"
  by (simp add: release_buf_def split: option.splits)

lemma held_release: "held st x \<Longrightarrow> (\<And>d. r \<noteq> Some (d, x)) \<Longrightarrow> held (release_buf r st) x"
  by (auto simp: release_buf_def held_def split: option.splits prod.splits)

lemma write_mem_other: "x \<noteq> b \<Longrightarrow> bs_mem (write_buf b data st) x = bs_mem st x"
  by (simp add: write_buf_def)

lemma read_written: "read_slice (write_buf b data st) (Pooled b (length data)) = data"
  by (rule nth_equalityI) (simp_all add: read_slice_def write_buf_def)

text \<open>
  One body: buffers held before stay held and keep their contents, and the store stays well
  formed; the new body is safe unless its coding is one that is passed through.
\<close>

definition passed_through :: "string \<Rightarrow> bool" where
  "passed_through enc \<longleftrightarrow> enc \<noteq> '''' \<and> to_lower enc \<notin> set decoded_codings"

definition keeps_held :: "buf_store \<Rightarrow> buf_store \<Rightarrow> bool" where
  "keeps_held st st' \<longleftrightarrow> (\<forall>x. held st x \<longrightarrow> held st' x \<and> bs_mem st' x = bs_mem st x)"

lemma keeps_held_trans: "keeps_held a b \<Longrightarrow> keeps_held b c \<Longrightarrow> keeps_held a c"
  by (simp add: keeps_held_def)

lemma keeps_held_refl [simp]: "keeps_held st st"
  by (simp add: keeps_held_def)

lemma get_write_release:
  assumes "store_wf st" "pool_get choice c st = (b, st1)"
  shows "keeps_held st (write_buf b data st1) \<and> store_wf (write_buf b data st1) \<and> held (write_buf b data st1) b"
    and "keeps_held st (release_buf (Some (d, b)) (write_buf b data st1)) \<and>
         store_wf (release_buf (Some (d, b)) (write_buf b data st1))"
  using pool_get_wf [OF assms]
  by (auto simp: keeps_held_def release_wf write_mem_other intro!: held_release)

lemma readBody_keeps:
  assumes "store_wf st" "readBodyOptimized choice r n st = (res, st')"
  shows "keeps_held st st' \<and> store_wf st'"
    and "res = Inr (s, rel) \<Longrightarrow> body_safe st' s \<and>
      (\<forall>c b. rel = Some (c, b) \<longrightarrow> held st' b \<and> (\<forall>x. held st x \<longrightarrow> x \<noteq> b))"
proof -
  obtain b st1 where g: "pool_get choice (the (pool_class (nat n))) st = (b, st1)" by fastforce
  obtain b2 st2 where g2: "pool_get choice Pool1MB st = (b2, st2)" by fastforce
  note facts = get_write_release [OF assms(1) g] get_write_release [OF assms(1) g2]
    pool_get_wf [OF assms(1) g] assms(2)
  show "keeps_held st st' \<and> store_wf st'"
    using facts g g2 assms(1)
    by (auto simp: readBodyOptimized_def Let_def split: if_splits option.splits prod.splits)
  assume "res = Inr (s, rel)"
  then show "body_safe st' s \<and> (\<forall>c b. rel = Some (c, b) \<longrightarrow> held st' b \<and> (\<forall>x. held st x \<longrightarrow> x \<noteq> b))"
    using facts g g2
    by (auto simp: readBodyOptimized_def Let_def body_safe_def split: if_splits option.splits prod.splits)
qed

lemma receive_keeps:
  assumes "store_wf st" "receive_body dec m st = (res, st')"
  shows "keeps_held st st' \<and> store_wf st'"
    and "res = Inr s \<Longrightarrow> \<not> passed_through (in_encoding m) \<Longrightarrow> body_safe st' s"
proof -
  obtain r1 st1 where r: "readBodyOptimized (in_choice m) (in_reader m) (in_length m) st = (r1, st1)" by fastforce
  have k1: "keeps_held st st1 \<and> store_wf st1" using readBody_keeps(1) [OF assms(1) r] .
  have k2: "body_safe st1 s1 \<and> keeps_held st (release_buf rel st1) \<and> store_wf (release_buf rel st1)"
    if "r1 = Inr (s1, rel)" for s1 rel
  proof (cases rel)
    case None
    then show ?thesis using readBody_keeps(2) [OF assms(1) r that] k1 by (simp add: release_buf_def)
  next
    case (Some cb)
    obtain c b where cb: "cb = (c, b)" by (cases cb)
    have held: "body_safe st1 s1" "held st1 b" "\<And>x. held st x \<Longrightarrow> x \<noteq> b"
      using readBody_keeps(2) [OF assms(1) r that] Some cb by auto
    then show ?thesis
      using k1 Some cb by (auto simp: keeps_held_def release_wf intro!: held_release)
  qed
  show "keeps_held st st' \<and> store_wf st'"
    using assms(2) r k1 k2 by (auto simp: receive_body_def split: sum.splits if_splits)
  show "body_safe st' s" if "res = Inr s" "\<not> passed_through (in_encoding m)"
    using assms(2) r k2 that
    by (auto simp: receive_body_def decompress_def passed_through_def body_safe_def split: sum.splits if_splits)
qed

lemma receive_all_keeps: "store_wf st \<Longrightarrow> keeps_held st (receive_all dec ms st)"
proof (induction ms arbitrary: st)
  case (Cons m ms)
  obtain res st' where r: "receive_body dec m st = (res, st')" by fastforce
  note k = receive_keeps(1) [OF Cons.prems r]
  then have "keeps_held st' (receive_all dec ms st')" using Cons.IH by blast
  with k r show ?case by (auto simp: receive_all_def intro: keeps_held_trans)
qed (simp add: receive_all_def)

lemma safe_slice_kept: "keeps_held st st' \<Longrightarrow> body_safe st s \<Longrightarrow> read_slice st' s = read_slice st s"
  by (auto simp: keeps_held_def body_safe_def read_slice_def split: body_slice.splits)

definition body_bytes :: "incoming \<Rightarrow> byte list" where
  "body_bytes m = (if in_length m > 0 then take (nat (in_length m)) (fst (in_reader m)) else fst (in_reader m))"

lemma read_written_take:
  "read_slice (write_buf b (take k xs) st) (Pooled b (min (length xs) k)) = take k xs"
  using read_written [of b "take k xs" st] by simp

lemma read_owned: "read_slice st (Owned bs) = bs"
  by (simp add: read_slice_def)

lemma readBody_bytes:
  "readBodyOptimized choice r n st = (Inr (s, rel), st') \<Longrightarrow>
   read_slice st' s = (if n > 0 then take (nat n) (fst r) else fst r)"
  by (auto simp: readBodyOptimized_def Let_def read_written_take read_owned
      split: if_splits option.splits prod.splits)

lemma receive_bytes:
  assumes "receive_body dec m st = (Inr s, st')"
  shows "if to_lower (in_encoding m) \<in> set decoded_codings
         then dec (to_lower (in_encoding m)) (body_bytes m) = Inr (read_slice st' s)
         else read_slice st' s = body_bytes m"
proof -
  obtain r1 st1 where r: "readBodyOptimized (in_choice m) (in_reader m) (in_length m) st = (r1, st1)" by fastforce
  have same: "read_slice (release_buf rel st1) x = read_slice st1 x" for rel x
    by (simp add: read_slice_def split: body_slice.splits)
  have "to_lower '''' \<notin> set decoded_codings" by (simp add: decoded_codings_def)
  then show ?thesis
    using assms r readBody_bytes [of "in_choice m" "in_reader m" "in_length m" st]
    by (auto simp: receive_body_def decompress_def body_bytes_def same read_owned
        split: sum.splits if_splits)
qed


text \<open>Two responses, the second one told to reuse a free buffer if there is one.\<close>

definition body_of :: "byte list \<Rightarrow> string \<Rightarrow> incoming" where
  "body_of bs enc = \<lparr>in_choice = Some 0, in_reader = (bs, None), in_length = int (length bs), in_encoding = enc\<rparr>"

definition no_decoder :: decoder where
  "no_decoder enc bs = Inr (rev bs)"


text \<open>
  With a passed-through coding the buffer is released while the response still refers to it:
  the next response overwrites the body the client holds.\<close>

theorem identity_body_overwritten:
  "let first = receive_body no_decoder (body_of [1, 2, 3] ''identity'') empty_store;
       second = receive_body no_decoder (body_of [7, 8, 9] '''') (snd first) in
   fst first = Inr (Pooled 0 3) \<and> read_slice (snd first) (Pooled 0 3) = [1, 2, 3] \<and>
   read_slice (snd second) (Pooled 0 3) = [7, 8, 9]"
proof -
  have low: "to_lower ''identity'' = ''identity''" by code_simp
  show ?thesis
    by (simp add: low receive_body_def body_of_def readBodyOptimized_def Let_def pool_class_def MB_def pool_get_def
        empty_store_def read_full_error_def decompress_def decoded_codings_def release_buf_def write_buf_def read_slice_def
        upt_rec)
qed

end
