(* ===== verification/Presets.thy ===== *)
theory Presets
  imports Akamai Ja3
begin

text \<open>
  Browser presets, \<open>fingerprint/presets.go\<close>: the structures, the accessors that fill in what a
  configuration leaves out, and the priorities of resources. A pointer to an optional value is an
  option; a nil slice is \<open>None\<close> where the code tells it from an empty one. Of uTLS's
  \<open>ClientHelloID\<close> only the two fields that the code reads are kept.
\<close>

type_synonym u64 = "64 word"

section \<open>The structures\<close>

record TCPFingerprint =
  tcp_TTL :: int
  tcp_MSS :: int
  tcp_WindowSize :: int
  tcp_WindowScale :: int
  tcp_DFBit :: bool

record ResourcePriority =
  rp_Urgency :: byte
  rp_Incremental :: bool
  rp_EmitHeader :: bool

record ClientHelloID =
  ci_Client :: string
  ci_Version :: string

record H2FingerprintConfig =
  h2c_HPACKHeaderOrder :: "string list option"
  h2c_HPACKIndexingPolicy :: string
  h2c_HPACKNeverIndex :: "string list option"
  h2c_StreamPriorityMode :: string
  h2c_DisableCookieSplit :: "bool option"
  h2c_SettingsOrder :: "u16 list option"
  h2c_PseudoHeaderOrder :: "string list option"
  h2c_PriorityTable :: "(string, ResourcePriority) gomap"

record H3FingerprintConfig =
  h3c_QPACKMaxTableCapacity :: "u64 option"
  h3c_QPACKBlockedStreams :: "u64 option"
  h3c_MaxFieldSectionSize :: "u64 option"
  h3c_EnableDatagrams :: "bool option"
  h3c_QUICInitialPacketSize :: "u16 option"
  h3c_QUICMaxIncomingStreams :: "int option"
  h3c_QUICMaxIncomingUniStreams :: "int option"
  h3c_QUICAllow0RTT :: "bool option"
  h3c_QUICChromeStyleInitial :: "bool option"
  h3c_QUICDisableHelloScramble :: "bool option"
  h3c_QUICTransportParamOrder :: string
  h3c_QUICConnectionIDLength :: "int option"
  h3c_QUICMaxDatagramFrameSize :: "u64 option"
  h3c_MaxResponseHeaderBytes :: "u64 option"
  h3c_SendGreaseFrames :: "bool option"
  h3c_QUICInitialStreamReceiveWindow :: "u64 option"
  h3c_QUICInitialConnectionReceiveWindow :: "u64 option"

record Preset =
  pr_Name :: string
  pr_ClientHelloID :: ClientHelloID
  pr_PSKClientHelloID :: ClientHelloID
  pr_QUICClientHelloID :: ClientHelloID
  pr_QUICPSKClientHelloID :: ClientHelloID
  pr_UserAgent :: string
  pr_Headers :: "(string, string) gomap"
  pr_HeaderOrder :: "(string \<times> string) list"
  pr_HTTP2Settings :: HTTP2Settings
  pr_TCPFingerprint :: TCPFingerprint
  pr_SupportHTTP3 :: bool
  pr_H2Config :: "H2FingerprintConfig option"
  pr_H3Config :: "H3FingerprintConfig option"
  pr_JA3 :: string
  pr_JA3Extras :: "JA3Extras option"
  pr_BasedOn :: string

text \<open>The zero values of the structures.\<close>

definition no_hello :: ClientHelloID where
  "no_hello = \<lparr>ci_Client = '''', ci_Version = ''''\<rparr>"

definition no_tcp :: TCPFingerprint where
  "no_tcp = \<lparr>tcp_TTL = 0, tcp_MSS = 0, tcp_WindowSize = 0, tcp_WindowScale = 0, tcp_DFBit = False\<rparr>"

definition no_h2_config :: H2FingerprintConfig where
  "no_h2_config =
     \<lparr>h2c_HPACKHeaderOrder = None, h2c_HPACKIndexingPolicy = '''', h2c_HPACKNeverIndex = None, h2c_StreamPriorityMode = '''',
      h2c_DisableCookieSplit = None, h2c_SettingsOrder = None, h2c_PseudoHeaderOrder = None, h2c_PriorityTable = []\<rparr>"

definition no_h3_config :: H3FingerprintConfig where
  "no_h3_config =
     \<lparr>h3c_QPACKMaxTableCapacity = None, h3c_QPACKBlockedStreams = None, h3c_MaxFieldSectionSize = None,
      h3c_EnableDatagrams = None, h3c_QUICInitialPacketSize = None, h3c_QUICMaxIncomingStreams = None,
      h3c_QUICMaxIncomingUniStreams = None, h3c_QUICAllow0RTT = None, h3c_QUICChromeStyleInitial = None,
      h3c_QUICDisableHelloScramble = None, h3c_QUICTransportParamOrder = '''', h3c_QUICConnectionIDLength = None,
      h3c_QUICMaxDatagramFrameSize = None, h3c_MaxResponseHeaderBytes = None, h3c_SendGreaseFrames = None,
      h3c_QUICInitialStreamReceiveWindow = None, h3c_QUICInitialConnectionReceiveWindow = None\<rparr>"

definition zero_preset :: Preset where
  "zero_preset =
     \<lparr>pr_Name = '''', pr_ClientHelloID = no_hello, pr_PSKClientHelloID = no_hello, pr_QUICClientHelloID = no_hello,
      pr_QUICPSKClientHelloID = no_hello, pr_UserAgent = '''', pr_Headers = [], pr_HeaderOrder = [],
      pr_HTTP2Settings = empty_settings, pr_TCPFingerprint = no_tcp, pr_SupportHTTP3 = False, pr_H2Config = None,
      pr_H3Config = None, pr_JA3 = '''', pr_JA3Extras = None, pr_BasedOn = ''''\<rparr>"

section \<open>Priorities\<close>

definition default_rp :: "byte \<Rightarrow> bool \<Rightarrow> ResourcePriority" where
  "default_rp u i = \<lparr>rp_Urgency = u, rp_Incremental = i, rp_EmitHeader = True\<rparr>"

definition defaultPriorityTable :: "(string, ResourcePriority) gomap" where
  "defaultPriorityTable =
     [(''audio'', default_rp 3 True), (''document'', default_rp 0 True), (''embed'', default_rp 0 True),
      (''empty'', default_rp 1 True), (''font'', default_rp 1 False), (''iframe'', default_rp 0 True),
      (''image'', default_rp 2 True), (''manifest'', default_rp 2 False), (''object'', default_rp 0 True),
      (''script'', default_rp 1 False), (''style'', default_rp 0 False), (''track'', default_rp 3 True),
      (''video'', default_rp 3 True), (''worker'', default_rp 4 True)]"

definition PriorityFromUrgency :: "byte \<Rightarrow> nat" where
  "PriorityFromUrgency u = 256 - (unat (if u > 7 then 7 else u) * 73) div 2"

definition ascii_of :: "byte \<Rightarrow> char" where
  "ascii_of v = char_of (unat v)"

definition uint8ToASCII :: "byte \<Rightarrow> string" where
  "uint8ToASCII v = (if v \<le> 9 then [ascii_of (48 + v)] else [ascii_of (48 + v div 10), ascii_of (48 + v mod 10)])"

definition PriorityHeaderFromResource :: "ResourcePriority \<Rightarrow> string" where
  "PriorityHeaderFromResource rp =
     (if \<not> rp_EmitHeader rp then ''''
      else if rp_Urgency rp = 3 then (if rp_Incremental rp then ''i'' else '''')
      else ''u='' @ uint8ToASCII (rp_Urgency rp) @ (if rp_Incremental rp then '', i'' else ''''))"

definition H2HeaderOrder :: "Preset \<Rightarrow> string list" where
  "H2HeaderOrder p =
     (case Option.bind (pr_H2Config p) h2c_HPACKHeaderOrder of
        Some order \<Rightarrow> order
      | None \<Rightarrow>
          [''cache-control'', ''sec-ch-ua'', ''sec-ch-ua-mobile'', ''sec-ch-ua-platform'',
           ''upgrade-insecure-requests'', ''user-agent'', ''content-type'', ''content-length'', ''accept'', ''origin'',
           ''sec-fetch-site'', ''sec-fetch-mode'', ''sec-fetch-user'', ''sec-fetch-dest'', ''referer'',
           ''accept-encoding'', ''accept-language'', ''cookie'', ''priority''])"

definition H2PseudoHeaderOrder :: "Preset \<Rightarrow> string list option" where
  "H2PseudoHeaderOrder p = Option.bind (pr_H2Config p) h2c_PseudoHeaderOrder"

definition own_priority_table :: "Preset \<Rightarrow> (string, ResourcePriority) gomap" where
  "own_priority_table p = (case pr_H2Config p of None \<Rightarrow> [] | Some c \<Rightarrow> h2c_PriorityTable c)"

definition H2HasPriorityTable :: "Preset \<Rightarrow> bool" where
  "H2HasPriorityTable p \<longleftrightarrow> own_priority_table p \<noteq> [] \<or> \<not> NoRFC7540Priorities (pr_HTTP2Settings p)"

text \<open>Weight, exclusive flag and header value of a destination.\<close>

definition H2PriorityFor :: "Preset \<Rightarrow> string \<Rightarrow> (nat \<times> bool \<times> string) option" where
  "H2PriorityFor p dest =
     (if own_priority_table p = [] \<and> NoRFC7540Priorities (pr_HTTP2Settings p) then None
      else
        case map_of (if own_priority_table p \<noteq> [] then own_priority_table p else defaultPriorityTable) dest of
          None \<Rightarrow> None
        | Some rp \<Rightarrow> Some (PriorityFromUrgency (rp_Urgency rp), True, PriorityHeaderFromResource rp))"

section \<open>What a preset means for HTTP/2\<close>

text \<open>The remaining accessors: the value of the configuration, or Chrome's.\<close>

definition H2HPACKIndexingPolicy :: "Preset \<Rightarrow> string" where
  "H2HPACKIndexingPolicy p =
     (case pr_H2Config p of None \<Rightarrow> ''chrome''
      | Some c \<Rightarrow> if h2c_HPACKIndexingPolicy c = '''' then ''chrome'' else h2c_HPACKIndexingPolicy c)"

definition H2HPACKNeverIndex :: "Preset \<Rightarrow> string list" where
  "H2HPACKNeverIndex p =
     (case Option.bind (pr_H2Config p) h2c_HPACKNeverIndex of
        Some names \<Rightarrow> names | None \<Rightarrow> [''cookie'', ''authorization'', ''proxy-authorization''])"

definition H2StreamPriorityMode :: "Preset \<Rightarrow> string" where
  "H2StreamPriorityMode p =
     (case pr_H2Config p of None \<Rightarrow> ''chrome''
      | Some c \<Rightarrow> if h2c_StreamPriorityMode c = '''' then ''chrome'' else h2c_StreamPriorityMode c)"

definition H2DisableCookieSplit :: "Preset \<Rightarrow> bool" where
  "H2DisableCookieSplit p = (case Option.bind (pr_H2Config p) h2c_DisableCookieSplit of Some b \<Rightarrow> b | None \<Rightarrow> True)"

definition H2SettingsOrder :: "Preset \<Rightarrow> u16 list option" where
  "H2SettingsOrder p = Option.bind (pr_H2Config p) h2c_SettingsOrder"

section \<open>What a preset means for HTTP/3\<close>

definition h3_value :: "Preset \<Rightarrow> (H3FingerprintConfig \<Rightarrow> 'a option) \<Rightarrow> 'a \<Rightarrow> 'a" where
  "h3_value p f d = (case Option.bind (pr_H3Config p) f of Some v \<Rightarrow> v | None \<Rightarrow> d)"

text \<open>Safari is recognised by the HTTP/2 setting against the old priorities.\<close>

abbreviation like_safari :: "Preset \<Rightarrow> bool" where
  "like_safari p \<equiv> NoRFC7540Priorities (pr_HTTP2Settings p)"

definition H3QPACKMaxTableCapacity :: "Preset \<Rightarrow> u64" where
  "H3QPACKMaxTableCapacity p = h3_value p h3c_QPACKMaxTableCapacity (if like_safari p then 16383 else 65536)"

definition H3QPACKBlockedStreams :: "Preset \<Rightarrow> u64" where
  "H3QPACKBlockedStreams p = h3_value p h3c_QPACKBlockedStreams 100"

definition H3MaxFieldSectionSize :: "Preset \<Rightarrow> u64" where
  "H3MaxFieldSectionSize p = h3_value p h3c_MaxFieldSectionSize (if like_safari p then 0 else 262144)"

definition H3EnableDatagrams :: "Preset \<Rightarrow> bool" where
  "H3EnableDatagrams p = h3_value p h3c_EnableDatagrams (\<not> like_safari p)"

definition H3QUICInitialPacketSize :: "Preset \<Rightarrow> u16" where
  "H3QUICInitialPacketSize p = h3_value p h3c_QUICInitialPacketSize 1250"

definition H3QUICMaxIncomingStreams :: "Preset \<Rightarrow> int" where
  "H3QUICMaxIncomingStreams p = h3_value p h3c_QUICMaxIncomingStreams 100"

definition H3QUICMaxIncomingUniStreams :: "Preset \<Rightarrow> int" where
  "H3QUICMaxIncomingUniStreams p = h3_value p h3c_QUICMaxIncomingUniStreams 103"

definition H3QUICAllow0RTT :: "Preset \<Rightarrow> bool" where
  "H3QUICAllow0RTT p = h3_value p h3c_QUICAllow0RTT True"

definition H3QUICChromeStyleInitial :: "Preset \<Rightarrow> bool" where
  "H3QUICChromeStyleInitial p = h3_value p h3c_QUICChromeStyleInitial True"

definition H3QUICDisableHelloScramble :: "Preset \<Rightarrow> bool" where
  "H3QUICDisableHelloScramble p = h3_value p h3c_QUICDisableHelloScramble True"

definition H3QUICTransportParamOrder :: "Preset \<Rightarrow> string" where
  "H3QUICTransportParamOrder p =
     (case pr_H3Config p of None \<Rightarrow> ''chrome''
      | Some c \<Rightarrow> if h3c_QUICTransportParamOrder c = '''' then ''chrome'' else h3c_QUICTransportParamOrder c)"

definition H3QUICConnectionIDLength :: "Preset \<Rightarrow> int" where
  "H3QUICConnectionIDLength p = h3_value p h3c_QUICConnectionIDLength 0"

definition H3QUICMaxDatagramFrameSize :: "Preset \<Rightarrow> u64" where
  "H3QUICMaxDatagramFrameSize p = h3_value p h3c_QUICMaxDatagramFrameSize 65536"

definition H3MaxResponseHeaderBytes :: "Preset \<Rightarrow> u64" where
  "H3MaxResponseHeaderBytes p = h3_value p h3c_MaxResponseHeaderBytes 262144"

definition H3SendGreaseFrames :: "Preset \<Rightarrow> bool" where
  "H3SendGreaseFrames p = h3_value p h3c_SendGreaseFrames True"

definition H3QUICInitialStreamReceiveWindow :: "Preset \<Rightarrow> u64" where
  "H3QUICInitialStreamReceiveWindow p = h3_value p h3c_QUICInitialStreamReceiveWindow 0"

definition H3QUICInitialConnectionReceiveWindow :: "Preset \<Rightarrow> u64" where
  "H3QUICInitialConnectionReceiveWindow p = h3_value p h3c_QUICInitialConnectionReceiveWindow 0"

end
