(* ===== verification/Headers.thy ===== *)
theory Headers
  imports BodyPool Presets
begin

text \<open>
  The headers of an outgoing request: \<open>applyPresetHeaders\<close> and its helpers in
  \<open>transport/transport.go\<close>. \<open>http.Header\<close> belongs to a fork of \<open>net/http\<close> outside the repository; what the code
  relies on is that \<open>Set\<close>, \<open>Add\<close>, \<open>Del\<close> and \<open>Get\<close> work on a map under a canonical form of the
  key, the parameter \<open>canon\<close>.
\<close>

section \<open>Header maps\<close>

type_synonym header = "(string, string list) gomap"

definition hset :: "(string \<Rightarrow> string) \<Rightarrow> string \<Rightarrow> string \<Rightarrow> header \<Rightarrow> header" where
  "hset canon k v h = AList.update (canon k) [v] h"

definition hvalues :: "header \<Rightarrow> string \<Rightarrow> string list" where
  "hvalues h k = (case map_of h k of None \<Rightarrow> [] | Some vs \<Rightarrow> vs)"

definition hadd :: "(string \<Rightarrow> string) \<Rightarrow> string \<Rightarrow> string \<Rightarrow> header \<Rightarrow> header" where
  "hadd canon k v h = AList.update (canon k) (hvalues h (canon k) @ [v]) h"

definition hdel :: "(string \<Rightarrow> string) \<Rightarrow> string \<Rightarrow> header \<Rightarrow> header" where
  "hdel canon k h = AList.delete (canon k) h"

text \<open>\<open>Header.Get\<close> and the recurring \<open>if v := h[k]; len(v) > 0 { v[0] }\<close>.\<close>

definition first_value :: "header \<Rightarrow> string \<Rightarrow> string" where
  "first_value h k = (case hvalues h k of [] \<Rightarrow> '''' | v # vs \<Rightarrow> v)"

definition hget :: "(string \<Rightarrow> string) \<Rightarrow> header \<Rightarrow> string \<Rightarrow> string" where
  "hget canon h k = first_value h (canon k)"

section \<open>What kind of request it is\<close>

definition headerVal :: "header \<Rightarrow> string \<Rightarrow> string" where
  "headerVal h name =
     (case find (\<lambda>(k, v). to_lower k = to_lower name \<and> v \<noteq> []) h of
        None \<Rightarrow> '''' | Some (k, v) \<Rightarrow> hd v)"

definition isAPIAcceptValue :: "string \<Rightarrow> bool" where
  "isAPIAcceptValue accept =
     (let lower = to_lower accept in
      contains_any lower [''application/json'', ''application/xml'', ''text/plain'', ''application/octet-stream''] \<or>
      lower = ''*/*'')"

definition isFormContentTypeValue :: "string \<Rightarrow> bool" where
  "isFormContentTypeValue ct =
     (let lower = to_lower ct in
      has_prefix lower ''application/x-www-form-urlencoded'' \<or> has_prefix lower ''multipart/form-data'')"

definition isAPIContentTypeValue :: "string \<Rightarrow> bool" where
  "isAPIContentTypeValue ct =
     (let lower = to_lower ct in
      list_ex (has_prefix lower)
        [''application/json'', ''application/xml'', ''application/octet-stream'', ''application/grpc'',
         ''application/x-protobuf'', ''text/plain''] \<or>
      (has_prefix lower ''application/'' \<and> \<not> isFormContentTypeValue lower))"

definition upper_char :: "char \<Rightarrow> char" where
  "upper_char c =
     (if of_char c \<ge> (97::nat) \<and> of_char c \<le> (122::nat) then char_of (of_char c - (32::nat)) else c)"

definition to_upper :: "string \<Rightarrow> string" where
  "to_upper s = map upper_char s"

definition sniffXHRMode :: "string \<Rightarrow> header \<Rightarrow> bool" where
  "sniffXHRMode method0 userHeaders =
     (let method = to_upper method0;
          mode = to_lower (headerVal userHeaders ''Sec-Fetch-Mode'');
          dest = headerVal userHeaders ''Sec-Fetch-Dest'';
          accept = headerVal userHeaders ''Accept'';
          ct = headerVal userHeaders ''Content-Type'' in
      if mode \<in> {''cors'', ''no-cors'', ''websocket''} then True
      else if mode = ''navigate'' then False
      else if dest \<noteq> '''' then to_lower dest \<noteq> ''document''
      else if accept \<noteq> '''' \<and> isAPIAcceptValue accept then True
      else if method \<in> {''GET'', ''HEAD'', ''OPTIONS'', ''''} then False
      else if method = ''DELETE'' then True
      else if ct \<noteq> '''' \<and> isFormContentTypeValue ct then False
      else if ct \<noteq> '''' \<and> isAPIContentTypeValue ct then True
      else True)"

definition isChromePreset :: "string \<Rightarrow> bool" where
  "isChromePreset name \<longleftrightarrow> has_prefix name ''chrome-'' \<or> has_prefix name ''Chrome''"

section \<open>Applying a preset\<close>

definition or_default :: "string \<Rightarrow> string \<Rightarrow> string" where
  "or_default v d = (if v \<noteq> '''' then v else d)"

definition preset_base :: "(string \<Rightarrow> string) \<Rightarrow> Preset \<Rightarrow> header \<Rightarrow> header" where
  "preset_base canon p h =
     hset canon ''User-Agent'' (pr_UserAgent p)
       (fold (\<lambda>(k, v). hset canon k v) (if pr_HeaderOrder p \<noteq> [] then pr_HeaderOrder p else pr_Headers p) h)"

definition xhr_headers :: "(string \<Rightarrow> string) \<Rightarrow> header \<Rightarrow> header \<Rightarrow> header" where
  "xhr_headers canon user h =
     (let h1 = hset canon ''Sec-Fetch-Mode'' (or_default (headerVal user ''Sec-Fetch-Mode'') ''cors'') h;
          h2 = hset canon ''Sec-Fetch-Dest'' (or_default (headerVal user ''Sec-Fetch-Dest'') ''empty'') h1;
          h3 = hset canon ''Sec-Fetch-Site'' (or_default (headerVal user ''Sec-Fetch-Site'') ''cross-site'') h2;
          h4 = hdel canon ''Sec-Fetch-User'' h3;
          h5 = hdel canon ''sec-fetch-user'' h4;
          h6 = hdel canon ''Upgrade-Insecure-Requests'' h5;
          h7 = hdel canon ''upgrade-insecure-requests'' h6;
          h8 = (if headerVal user ''Accept'' = '''' then hset canon ''Accept'' ''*/*'' h7 else h7);
          h9 = (if hget canon h8 ''Priority'' \<noteq> '''' then hset canon ''Priority'' ''u=1, i'' h8 else h8)
      in if hget canon h9 ''priority'' \<noteq> '''' then hset canon ''priority'' ''u=1, i'' h9 else h9)"

definition priority_headers :: "(string \<Rightarrow> string) \<Rightarrow> Preset \<Rightarrow> string \<Rightarrow> header \<Rightarrow> header" where
  "priority_headers canon p protocol h =
     (if (protocol = ''h2'' \<or> protocol = ''h3'') \<and> H2HasPriorityTable p then
        (case H2PriorityFor p (hget canon h ''Sec-Fetch-Dest'') of
           None \<Rightarrow> h
         | Some (w, x, hv) \<Rightarrow>
             if hv = '''' then hdel canon ''priority'' (hdel canon ''Priority'' h)
             else let h1 = hset canon ''Priority'' hv h in
                  if map_of h1 ''priority'' \<noteq> None then AList.update ''priority'' [hv] h1 else h1)
      else h)"

definition preset_headers :: "(string \<Rightarrow> string) \<Rightarrow> Preset \<Rightarrow> string \<Rightarrow> string \<Rightarrow> header \<Rightarrow> header \<Rightarrow> header" where
  "preset_headers canon p protocol method user h =
     (let h1 = preset_base canon p h;
          h2 = (if sniffXHRMode method user then xhr_headers canon user h1 else h1);
          h3 = priority_headers canon p protocol h2
      in if protocol = ''h1'' \<and> isChromePreset (pr_Name p)
         then hdel canon ''priority'' (hdel canon ''Priority'' h3) else h3)"

text \<open>
  \<open>HeaderOrderKey\<close> and \<open>PHeaderOrderKey\<close> are keys of the fork under which a request carries its
  header order; the model keeps the two orders beside the header map.
\<close>

record ordered_header =
  oh_header :: header
  oh_order :: "string list"
  oh_pseudo :: "string list"

definition pseudo_order :: "Preset \<Rightarrow> string list \<Rightarrow> string list" where
  "pseudo_order p custom =
     (if custom \<noteq> [] then custom
      else case H2PseudoHeaderOrder p of
          Some order \<Rightarrow> order
        | None \<Rightarrow>
            if NoRFC7540Priorities (pr_HTTP2Settings p)
            then ['':method'', '':scheme'', '':path'', '':authority'']
            else ['':method'', '':authority'', '':scheme'', '':path''])"

definition applyPresetHeaders ::
  "(string \<Rightarrow> string) \<Rightarrow> Preset \<Rightarrow> string list \<Rightarrow> string list \<Rightarrow> bool \<Rightarrow> string \<Rightarrow> string \<Rightarrow> header \<Rightarrow> header \<Rightarrow>
   ordered_header" where
  "applyPresetHeaders canon p customOrder customPseudo tlsOnly protocol method user h =
     \<lparr>oh_header = (if tlsOnly then hset canon ''User-Agent'' '''' h
                   else preset_headers canon p protocol method user h),
      oh_order = (if customOrder \<noteq> [] then customOrder else H2HeaderOrder p),
      oh_pseudo = pseudo_order p customPseudo\<rparr>"

text \<open>The loop over the caller's headers: the first value replaces, the others are added.\<close>

definition set_user_header :: "(string \<Rightarrow> string) \<Rightarrow> string \<times> string list \<Rightarrow> header \<Rightarrow> header" where
  "set_user_header canon kv h =
     (case snd kv of [] \<Rightarrow> h | v # vs \<Rightarrow> fold (hadd canon (fst kv)) vs (hset canon (fst kv) v h))"

definition user_headers :: "(string \<Rightarrow> string) \<Rightarrow> header \<Rightarrow> header \<Rightarrow> header" where
  "user_headers canon user h = fold (set_user_header canon) user h"

definition buildHeadersMap :: "header \<Rightarrow> header" where
  "buildHeadersMap h = fold (\<lambda>(k, vs). AList.update (to_lower k) vs) h []"

section \<open>The caller's headers win\<close>

lemma hvalues_update [simp]: "hvalues (AList.update k vs h) x = (if x = k then vs else hvalues h x)"
  by (simp add: hvalues_def)

lemma hvalues_add: "hvalues (fold (hadd canon k) vs h) x = hvalues h x @ (if x = canon k then vs else [])"
  by (induction vs arbitrary: h) (auto simp: hadd_def)

lemma hvalues_set_user:
  "hvalues (set_user_header canon (k, vs) h) x = (if x = canon k \<and> vs \<noteq> [] then vs else hvalues h x)"
  by (cases vs) (auto simp: set_user_header_def hset_def hvalues_add)

lemma hvalues_user_headers:
  "distinct (map (canon \<circ> fst) user) \<Longrightarrow>
   hvalues (user_headers canon user h) x =
     (case find (\<lambda>(k, vs). canon k = x \<and> vs \<noteq> []) user of Some (k, vs) \<Rightarrow> vs | None \<Rightarrow> hvalues h x)"
proof (induction user arbitrary: h)
  case (Cons kv user)
  obtain k vs where kv: "kv = (k, vs)" by (cases kv)
  have none: "find (\<lambda>(k, vs). canon k = x \<and> vs \<noteq> []) user = None" if "x = canon k"
    using Cons.prems that by (force simp: kv find_None_iff)
  show ?case
    using Cons none by (auto simp: kv user_headers_def hvalues_set_user split: option.splits)
qed (simp add: user_headers_def)

end
