(* ===== verification/Transport.thy ===== *)
theory Transport
  imports GoUrl Headers
begin

text \<open>
  The transport that sessions and clients send requests through, \<open>transport/transport.go\<close>: which
  protocol and which proxy a request takes (\<open>Do\<close>, \<open>doAuto\<close>, \<open>raceH3H2\<close>), how one request is built
  and its response read (\<open>doHTTP1\<close>, \<open>doHTTP2\<close>, \<open>doHTTP3\<close>), and the setters that rebuild the three
  protocol transports. Those transports drive libraries outside the repository; they appear
  here as what they were built with (proxy and configuration), and their round trips and
  connection attempts are fields of the record \<open>net\<close>, on a state that stands for the network.
\<close>

section \<open>Requests and responses\<close>

datatype Protocol = ProtocolAuto | ProtocolHTTP1 | ProtocolHTTP2 | ProtocolHTTP3

fun Protocol_String :: "Protocol \<Rightarrow> string" where
  "Protocol_String ProtocolAuto = ''auto''"
| "Protocol_String ProtocolHTTP1 = ''h1''"
| "Protocol_String ProtocolHTTP2 = ''h2''"
| "Protocol_String ProtocolHTTP3 = ''h3''"

record request =
  rq_Method :: string
  rq_URL :: string
  rq_Headers :: header
  rq_Body :: "byte list"
  rq_BodyReader :: "nat option"
  rq_Timeout :: duration
  rq_TLSOnly :: "bool option"

record redirect_info =
  ri_StatusCode :: int
  ri_URL :: string
  ri_Headers :: header

record response =
  rs_StatusCode :: int
  rs_Headers :: header
  rs_Body :: body_slice
  rs_FinalURL :: string
  rs_Protocol :: string
  rs_History :: "redirect_info list"

definition GetHeader :: "response \<Rightarrow> string \<Rightarrow> string" where
  "GetHeader r key = first_value (rs_Headers r) (to_lower key)"

definition GetHeaders :: "response \<Rightarrow> string \<Rightarrow> string list" where
  "GetHeaders r key = hvalues (rs_Headers r) (to_lower key)"

section \<open>Configuration and state\<close>

record ProxyConfig =
  px_URL :: string
  px_Username :: string
  px_Password :: string
  px_TCPProxy :: string
  px_UDPProxy :: string

definition url_proxy :: "string \<Rightarrow> ProxyConfig" where
  "url_proxy u = \<lparr>px_URL = u, px_Username = '''', px_Password = '''', px_TCPProxy = '''', px_UDPProxy = ''''\<rparr>"

record TransportConfig =
  tc_ConnectTo :: "(string, string) gomap"
  tc_ECHConfig :: "byte list"
  tc_ECHConfigDomain :: string
  tc_TLSOnly :: bool
  tc_LocalAddr :: string
  tc_CustomH2Settings :: "HTTP2Settings option"
  tc_CustomPseudoOrder :: "string list"
  tc_CustomTCPFingerprint :: "TCPFingerprint option"

definition empty_config :: TransportConfig where
  "empty_config =
     \<lparr>tc_ConnectTo = [], tc_ECHConfig = [], tc_ECHConfigDomain = '''', tc_TLSOnly = False, tc_LocalAddr = '''',
      tc_CustomH2Settings = None, tc_CustomPseudoOrder = [], tc_CustomTCPFingerprint = None\<rparr>"

text \<open>The HTTP/1 and HTTP/2 transports, and the three ways an HTTP/3 transport is built.\<close>

record tcp_transport =
  tt_proxy :: "ProxyConfig option"
  tt_config :: "TransportConfig option"
  tt_insecure :: bool

datatype h3_path = H3Direct | H3Socks5 ProxyConfig | H3Masque ProxyConfig

record h3_transport =
  h3_path :: h3_path
  h3_config :: "TransportConfig option"
  h3_insecure :: bool
  h3_disableECH :: bool

record transport =
  tr_h1 :: tcp_transport
  tr_h2 :: tcp_transport
  tr_h3 :: h3_transport
  tr_preset :: Preset
  tr_timeout :: duration
  tr_protocol :: Protocol
  tr_proxy :: "ProxyConfig option"
  tr_config :: "TransportConfig option"
  tr_protocolSupport :: "(string, Protocol) gomap"
  tr_insecureSkipVerify :: bool
  tr_h3ProxyError :: "string option"
  tr_customHeaderOrder :: "string list"
  tr_customPseudoOrder :: "string list"
  tr_tlsOnly :: bool

section \<open>Proxy URLs\<close>

definition IsSOCKS5Proxy :: "string \<Rightarrow> bool" where
  "IsSOCKS5Proxy proxyURL =
     (case Parse proxyURL of None \<Rightarrow> False | Some u \<Rightarrow> u_Scheme u = ''socks5'' \<or> u_Scheme u = ''socks5h'')"

definition IsMASQUEProxy :: "string \<Rightarrow> bool" where
  "IsMASQUEProxy proxyURL =
     (case Parse proxyURL of
        None \<Rightarrow> False
      | Some u \<Rightarrow>
          u_Scheme u = ''masque'' \<or>
          (u_Scheme u = ''https'' \<and> contains_any (to_lower (u_Path u)) [''masque'', ''connect-udp'']))"

definition SupportsQUIC :: "string \<Rightarrow> bool" where
  "SupportsQUIC proxyURL \<longleftrightarrow> IsSOCKS5Proxy proxyURL \<or> IsMASQUEProxy proxyURL"

section \<open>Construction\<close>

text \<open>
  The outcome of setting up a SOCKS5 or MASQUE transport for a proxy URL at the moment of the
  call (\<open>None\<close> is success), and the preset registry.
\<close>

record set_up =
  su_preset :: "string \<Rightarrow> Preset"
  su_socks5 :: "string \<Rightarrow> string option"
  su_masque :: "string \<Rightarrow> string option"

definition direct_h3 :: "TransportConfig option \<Rightarrow> h3_transport" where
  "direct_h3 config = \<lparr>h3_path = H3Direct, h3_config = config, h3_insecure = False, h3_disableECH = False\<rparr>"

definition new_tcp :: "ProxyConfig option \<Rightarrow> TransportConfig option \<Rightarrow> tcp_transport" where
  "new_tcp px config = \<lparr>tt_proxy = px, tt_config = config, tt_insecure = False\<rparr>"

text \<open>
  The chain of tests on the UDP proxy URL: the transport built and the value of \<open>h3ProxyError\<close>.
  \<open>px\<close> is the proxy configuration handed to the constructor.
\<close>

definition build_h3 :: "set_up \<Rightarrow> TransportConfig option \<Rightarrow> ProxyConfig \<Rightarrow> string \<Rightarrow> h3_transport \<times> string option" where
  "build_h3 su config px url =
     (if url = '''' then (direct_h3 config, None)
      else if IsSOCKS5Proxy url then
        (case su_socks5 su url of
           Some e \<Rightarrow> (direct_h3 config, Some (''SOCKS5 UDP proxy initialization failed: '' @ e))
         | None \<Rightarrow> ((direct_h3 config)\<lparr>h3_path := H3Socks5 px\<rparr>, None))
      else if IsMASQUEProxy url then
        (case su_masque su url of
           Some e \<Rightarrow> (direct_h3 config, Some (''MASQUE proxy initialization failed: '' @ e))
         | None \<Rightarrow> ((direct_h3 config)\<lparr>h3_path := H3Masque px\<rparr>, None))
      else (direct_h3 config, Some ''HTTP proxy does not support HTTP/3 (QUIC requires UDP)''))"

definition merge_tcp_fingerprint :: "TCPFingerprint \<Rightarrow> TCPFingerprint \<Rightarrow> TCPFingerprint" where
  "merge_tcp_fingerprint fp base =
     \<lparr>tcp_TTL = (if tcp_TTL fp > 0 then tcp_TTL fp else tcp_TTL base),
      tcp_MSS = (if tcp_MSS fp > 0 then tcp_MSS fp else tcp_MSS base),
      tcp_WindowSize = (if tcp_WindowSize fp > 0 then tcp_WindowSize fp else tcp_WindowSize base),
      tcp_WindowScale = (if tcp_WindowScale fp > 0 then tcp_WindowScale fp else tcp_WindowScale base),
      tcp_DFBit = (if tcp_DFBit fp then True else tcp_DFBit base)\<rparr>"

definition custom_preset :: "TransportConfig option \<Rightarrow> Preset \<Rightarrow> Preset" where
  "custom_preset config p =
     (case config of
        None \<Rightarrow> p
      | Some c \<Rightarrow>
          (let p1 = (case tc_CustomH2Settings c of None \<Rightarrow> p | Some s \<Rightarrow> p\<lparr>pr_HTTP2Settings := s\<rparr>) in
           case tc_CustomTCPFingerprint c of
             None \<Rightarrow> p1
           | Some fp \<Rightarrow> p1\<lparr>pr_TCPFingerprint := merge_tcp_fingerprint fp (pr_TCPFingerprint p1)\<rparr>))"

definition tcp_url :: "ProxyConfig \<Rightarrow> string" where
  "tcp_url px = (if px_TCPProxy px = '''' then px_URL px else px_TCPProxy px)"

definition udp_url :: "ProxyConfig \<Rightarrow> string" where
  "udp_url px = (if px_UDPProxy px = '''' then px_URL px else px_UDPProxy px)"

definition NewTransportWithConfig ::
  "set_up \<Rightarrow> string \<Rightarrow> ProxyConfig option \<Rightarrow> TransportConfig option \<Rightarrow> transport" where
  "NewTransportWithConfig su presetName proxy config =
     (let preset = custom_preset config (su_preset su presetName);
          tcpURL = (case proxy of None \<Rightarrow> '''' | Some px \<Rightarrow> tcp_url px);
          udpURL = (case proxy of None \<Rightarrow> '''' | Some px \<Rightarrow> udp_url px);
          tcpProxy = (if tcpURL \<noteq> '''' then Some (url_proxy tcpURL) else None);
          (h3, err) = build_h3 su config (url_proxy udpURL) udpURL
      in \<lparr>tr_h1 = new_tcp tcpProxy config, tr_h2 = new_tcp tcpProxy config, tr_h3 = h3,
          tr_preset = preset, tr_timeout = 30 * second, tr_protocol = ProtocolAuto, tr_proxy = proxy,
          tr_config = config, tr_protocolSupport = [], tr_insecureSkipVerify = False,
          tr_h3ProxyError = err, tr_customHeaderOrder = [],
          tr_customPseudoOrder = (case config of None \<Rightarrow> [] | Some c \<Rightarrow> tc_CustomPseudoOrder c),
          tr_tlsOnly = (case config of None \<Rightarrow> False | Some c \<Rightarrow> tc_TLSOnly c)\<rparr>)"

section \<open>Setters\<close>

definition SetProtocol :: "Protocol \<Rightarrow> transport \<Rightarrow> transport" where
  "SetProtocol p t = t\<lparr>tr_protocol := p\<rparr>"

definition SetInsecureSkipVerify :: "bool \<Rightarrow> transport \<Rightarrow> transport" where
  "SetInsecureSkipVerify skip t =
     t\<lparr>tr_insecureSkipVerify := skip, tr_h1 := (tr_h1 t)\<lparr>tt_insecure := skip\<rparr>,
       tr_h2 := (tr_h2 t)\<lparr>tt_insecure := skip\<rparr>, tr_h3 := (tr_h3 t)\<lparr>h3_insecure := skip\<rparr>\<rparr>"

definition SetDisableECH :: "bool \<Rightarrow> transport \<Rightarrow> transport" where
  "SetDisableECH disable t = t\<lparr>tr_h3 := (tr_h3 t)\<lparr>h3_disableECH := disable\<rparr>\<rparr>"

text \<open>Both rebuilding setters apply \<open>insecureSkipVerify\<close> again at their end.\<close>

definition reapply_insecure :: "transport \<Rightarrow> transport" where
  "reapply_insecure t =
     (if tr_insecureSkipVerify t
      then t\<lparr>tr_h1 := (tr_h1 t)\<lparr>tt_insecure := True\<rparr>, tr_h2 := (tr_h2 t)\<lparr>tt_insecure := True\<rparr>,
             tr_h3 := (tr_h3 t)\<lparr>h3_insecure := True\<rparr>\<rparr>
      else t)"

definition Transport_SetProxy :: "set_up \<Rightarrow> ProxyConfig option \<Rightarrow> transport \<Rightarrow> transport" where
  "Transport_SetProxy su proxy t =
     (let tcpProxy = (case proxy of
            Some px \<Rightarrow> if px_TCPProxy px \<noteq> '''' then Some (url_proxy (px_TCPProxy px)) else proxy
          | None \<Rightarrow> None);
          udpURL = (case proxy of Some px \<Rightarrow> udp_url px | None \<Rightarrow> '''');
          (h3, err) = build_h3 su None (url_proxy udpURL) udpURL
      in reapply_insecure
           (t\<lparr>tr_proxy := proxy, tr_h3ProxyError := err, tr_h1 := new_tcp tcpProxy (tr_config t),
              tr_h2 := new_tcp tcpProxy (tr_config t), tr_h3 := h3\<rparr>))"

definition SetPreset :: "set_up \<Rightarrow> string \<Rightarrow> transport \<Rightarrow> transport" where
  "SetPreset su presetName t =
     (let p0 = su_preset su presetName;
          preset = (case Option.bind (tr_config t) tc_CustomH2Settings of
              None \<Rightarrow> p0 | Some s \<Rightarrow> p0\<lparr>pr_HTTP2Settings := s\<rparr>);
          tcpProxy = (case tr_proxy t of
            Some px \<Rightarrow> if px_TCPProxy px \<noteq> '''' then Some (url_proxy (px_TCPProxy px)) else Some px
          | None \<Rightarrow> None);
          h3 = (case tr_proxy t of
            Some px \<Rightarrow> fst (build_h3 su None px (px_URL px))
          | None \<Rightarrow> direct_h3 None)
      in reapply_insecure
           (t\<lparr>tr_preset := preset, tr_h1 := new_tcp tcpProxy (tr_config t),
              tr_h2 := new_tcp tcpProxy (tr_config t), tr_h3 := h3\<rparr>))"

definition SetTimeout :: "duration \<Rightarrow> transport \<Rightarrow> transport" where
  "SetTimeout d t = t\<lparr>tr_timeout := d\<rparr>"

text \<open>
  A change of the configuration, and of the copies (or the shared object) the protocol
  transports hold; a missing configuration is created.
\<close>

definition upd_config :: "(TransportConfig \<Rightarrow> TransportConfig) \<Rightarrow> TransportConfig option \<Rightarrow> TransportConfig option" where
  "upd_config f c = Some (f (case c of None \<Rightarrow> empty_config | Some c \<Rightarrow> c))"

definition SetConnectTo :: "string \<Rightarrow> string \<Rightarrow> transport \<Rightarrow> transport" where
  "SetConnectTo requestHost connectHost t =
     (let f = (\<lambda>c. c\<lparr>tc_ConnectTo := AList.update requestHost connectHost (tc_ConnectTo c)\<rparr>) in
      t\<lparr>tr_config := upd_config f (tr_config t),
        tr_h1 := (tr_h1 t)\<lparr>tt_config := upd_config f (tt_config (tr_h1 t))\<rparr>,
        tr_h2 := (tr_h2 t)\<lparr>tt_config := upd_config f (tt_config (tr_h2 t))\<rparr>,
        tr_h3 := (tr_h3 t)\<lparr>h3_config := upd_config f (h3_config (tr_h3 t))\<rparr>\<rparr>)"

definition Transport_SetECHConfig :: "byte list \<Rightarrow> transport \<Rightarrow> transport" where
  "Transport_SetECHConfig ech t =
     (let f = (\<lambda>c. c\<lparr>tc_ECHConfig := ech\<rparr>) in
      t\<lparr>tr_config := upd_config f (tr_config t),
        tr_h2 := (tr_h2 t)\<lparr>tt_config := upd_config f (tt_config (tr_h2 t))\<rparr>,
        tr_h3 := (tr_h3 t)\<lparr>h3_config := upd_config f (h3_config (tr_h3 t))\<rparr>\<rparr>)"

definition Transport_SetECHConfigDomain :: "string \<Rightarrow> transport \<Rightarrow> transport" where
  "Transport_SetECHConfigDomain domain t =
     (let f = (\<lambda>c. c\<lparr>tc_ECHConfigDomain := domain\<rparr>) in
      t\<lparr>tr_config := upd_config f (tr_config t),
        tr_h2 := (tr_h2 t)\<lparr>tt_config := upd_config f (tt_config (tr_h2 t))\<rparr>,
        tr_h3 := (tr_h3 t)\<lparr>h3_config := upd_config f (h3_config (tr_h3 t))\<rparr>\<rparr>)"

definition SetHeaderOrder :: "string list \<Rightarrow> transport \<Rightarrow> transport" where
  "SetHeaderOrder order t = t\<lparr>tr_customHeaderOrder := map to_lower order\<rparr>"

definition GetHeaderOrder :: "transport \<Rightarrow> string list" where
  "GetHeaderOrder t =
     (if tr_customHeaderOrder t \<noteq> [] then tr_customHeaderOrder t
      else map fst (pr_HeaderOrder (tr_preset t)))"

definition ClearProtocolCache :: "transport \<Rightarrow> transport" where
  "ClearProtocolCache t = t\<lparr>tr_protocolSupport := []\<rparr>"

text \<open>\<open>Refresh\<close> closes connections of the protocol transports, which are not part of this state.\<close>

definition RefreshWithProtocol :: "Protocol \<Rightarrow> transport \<Rightarrow> transport" where
  "RefreshWithProtocol p t = ClearProtocolCache (SetProtocol p t)"

definition GetConnectHost :: "TransportConfig option \<Rightarrow> string \<Rightarrow> string" where
  "GetConnectHost c requestHost =
     (case Option.bind c (\<lambda>c. map_of (tc_ConnectTo c) requestHost) of
        None \<Rightarrow> requestHost | Some h \<Rightarrow> h)"

text \<open>\<open>GetECHConfig\<close>; \<open>fetch\<close> is \<open>dns.FetchECHConfigs\<close>.\<close>

definition GetECHConfig :: "(string \<Rightarrow> byte list) \<Rightarrow> TransportConfig option \<Rightarrow> string \<Rightarrow> byte list" where
  "GetECHConfig fetch c targetHost =
     (case c of
        None \<Rightarrow> fetch targetHost
      | Some c \<Rightarrow>
          if tc_ECHConfig c \<noteq> [] then tc_ECHConfig c
          else if tc_ECHConfigDomain c \<noteq> '''' then fetch (tc_ECHConfigDomain c)
          else fetch targetHost)"

section \<open>One exchange\<close>

text \<open>The way a connection leaves the machine, and one attempt to use the network.\<close>

datatype via = Direct | Proxied string

datatype hop = HopH1 via | HopH2 via | HopH3 via | HopH1Conn via | ConnectH2 via | ConnectH3 via

fun hop_via :: "hop \<Rightarrow> via" where
  "hop_via (HopH1 v) = v"
| "hop_via (HopH2 v) = v"
| "hop_via (HopH3 v) = v"
| "hop_via (HopH1Conn v) = v"
| "hop_via (ConnectH2 v) = v"
| "hop_via (ConnectH3 v) = v"

definition tcp_via :: "tcp_transport \<Rightarrow> via" where
  "tcp_via tt =
     (case tt_proxy tt of
        None \<Rightarrow> Direct
      | Some px \<Rightarrow> if px_URL px \<noteq> '''' then Proxied (px_URL px) else Direct)"

definition h3_via :: "h3_transport \<Rightarrow> via" where
  "h3_via h =
     (case h3_path h of H3Direct \<Rightarrow> Direct | H3Socks5 px \<Rightarrow> Proxied (px_URL px) | H3Masque px \<Rightarrow> Proxied (px_URL px))"

datatype body_source = NoBody | BodyBytes "byte list" | BodyReader nat

record http_request =
  hq_Method :: string
  hq_URL :: string
  hq_Header :: ordered_header
  hq_Body :: body_source

record http_response =
  hp_StatusCode :: int
  hp_Header :: header
  hp_Body :: body_reader
  hp_ContentLength :: int
  hp_choice :: "nat option"

text \<open>
  The first event that the select of the race between HTTP/3 and HTTP/2 takes: a connected
  protocol, a protocol mismatch, the six-second timer (with a mismatch that is pending by then)
  or the end of the caller's context.
\<close>

datatype race_event =
    RaceWinner Protocol | RaceMismatch go_error | RaceTimer "go_error option" | RaceCancelled go_error

record 'w net =
  nt_canon :: "string \<Rightarrow> string"
  nt_newRequest :: "string \<Rightarrow> string \<Rightarrow> go_error option"
  nt_roundTrip :: "hop \<Rightarrow> duration \<Rightarrow> http_request \<Rightarrow> 'w \<Rightarrow> (go_error + http_response) \<times> 'w"
  nt_race :: "string \<Rightarrow> string \<Rightarrow> 'w \<Rightarrow> race_event \<times> 'w"
  nt_decode :: decoder

record 'w world =
  wd_net :: 'w
  wd_bufs :: buf_store
  wd_log :: "hop list"

type_synonym 'w reply = "(go_error + response) \<times> 'w world"

definition request_body :: "string \<Rightarrow> request \<Rightarrow> body_source" where
  "request_body method req =
     (case rq_BodyReader req of
        Some r \<Rightarrow> BodyReader r
      | None \<Rightarrow>
          if rq_Body req \<noteq> [] then BodyBytes (rq_Body req)
          else if method \<in> {''POST'', ''PUT'', ''PATCH''} then BodyBytes [] else NoBody)"

definition effective_tls_only :: "transport \<Rightarrow> request \<Rightarrow> bool" where
  "effective_tls_only t req = (case rq_TLSOnly req of None \<Rightarrow> tr_tlsOnly t | Some b \<Rightarrow> b)"

definition request_header :: "(string \<Rightarrow> string) \<Rightarrow> transport \<Rightarrow> string \<Rightarrow> string \<Rightarrow> request \<Rightarrow> ordered_header" where
  "request_header canon t protocol method req =
     (let oh = applyPresetHeaders canon (tr_preset t) (tr_customHeaderOrder t) (tr_customPseudoOrder t)
                 (effective_tls_only t req) protocol method (rq_Headers req) []
      in oh\<lparr>oh_header := user_headers canon (rq_Headers req) (oh_header oh)\<rparr>)"

definition outgoing :: "'w net \<Rightarrow> transport \<Rightarrow> request \<Rightarrow> string \<Rightarrow> string \<Rightarrow> http_request" where
  "outgoing nt t req protocol method =
     \<lparr>hq_Method = method, hq_URL = rq_URL req, hq_Header = request_header (nt_canon nt) t protocol method req,
      hq_Body = request_body method req\<rparr>"

text \<open>The common part of the four functions after the round trip: body, coding, response.\<close>

definition read_response ::
  "'w net \<Rightarrow> string \<Rightarrow> string \<Rightarrow> string \<Rightarrow> string \<Rightarrow> http_response \<Rightarrow> 'w world \<Rightarrow> 'w reply" where
  "read_response nt protocol host port finalURL hp w =
     (case receive_body (nt_decode nt)
             \<lparr>in_choice = hp_choice hp, in_reader = hp_Body hp, in_length = hp_ContentLength hp,
              in_encoding = hget (nt_canon nt) (hp_Header hp) ''Content-Encoding''\<rparr> (wd_bufs w) of
        (Inl (ReadBody e), bufs') \<Rightarrow>
          (Inl (NewRequestError ''read_body'' host port protocol (Some e)), w\<lparr>wd_bufs := bufs'\<rparr>)
      | (Inl (Decompress e), bufs') \<Rightarrow>
          (Inl (NewRequestError ''decompress'' host port protocol (Some e)), w\<lparr>wd_bufs := bufs'\<rparr>)
      | (Inr s, bufs') \<Rightarrow>
          (Inr \<lparr>rs_StatusCode = hp_StatusCode hp, rs_Headers = buildHeadersMap (hp_Header hp), rs_Body = s,
                rs_FinalURL = finalURL, rs_Protocol = protocol, rs_History = []\<rparr>, w\<lparr>wd_bufs := bufs'\<rparr>))"

text \<open>The common part of the four functions, after the URL has been taken apart.\<close>

definition exchange ::
  "'w net \<Rightarrow> transport \<Rightarrow> request \<Rightarrow> string \<Rightarrow> hop \<Rightarrow> string \<Rightarrow> string \<Rightarrow> string \<Rightarrow> 'w world \<Rightarrow> 'w reply" where
  "exchange nt t req protocol hop host port finalURL w =
     (let timeout = (if rq_Timeout req > 0 then rq_Timeout req else tr_timeout t);
          method = (if rq_Method req = '''' then ''GET'' else rq_Method req) in
      case nt_newRequest nt method (rq_URL req) of
        Some e \<Rightarrow> (Inl (NewRequestError ''create_request'' host port protocol (Some e)), w)
      | None \<Rightarrow>
          (case nt_roundTrip nt hop timeout (outgoing nt t req protocol method) (wd_net w) of
             (Inl e, net') \<Rightarrow>
               (Inl (WrapError ''roundtrip'' host port protocol e), w\<lparr>wd_net := net', wd_log := wd_log w @ [hop]\<rparr>)
           | (Inr hp, net') \<Rightarrow>
               read_response nt protocol host port finalURL hp (w\<lparr>wd_net := net', wd_log := wd_log w @ [hop]\<rparr>)))"

definition url_port :: "URL \<Rightarrow> string \<Rightarrow> string" where
  "url_port u dflt = (if Port u = '''' then dflt else Port u)"

text \<open>\<open>url.Error\<close> of a failed \<open>Parse\<close>; its text is not modelled.\<close>

definition parse_error :: go_error where
  "parse_error = TextError ''parse''"

definition doHTTP1 :: "'w net \<Rightarrow> transport \<Rightarrow> request \<Rightarrow> 'w world \<Rightarrow> 'w reply" where
  "doHTTP1 nt t req w =
     (case Parse (rq_URL req) of
        None \<Rightarrow> (Inl (NewRequestError ''parse_url'' '''' '''' ''h1'' (Some parse_error)), w)
      | Some u \<Rightarrow>
          exchange nt t req ''h1'' (HopH1 (tcp_via (tr_h1 t))) (Hostname u)
            (url_port u (if u_Scheme u = ''https'' then ''443'' else ''80'')) (rq_URL req) w)"

text \<open>Over the TLS connection that an HTTP/2 attempt opened and that negotiated HTTP/1.1.\<close>

definition doHTTP1WithTLSConn :: "'w net \<Rightarrow> transport \<Rightarrow> request \<Rightarrow> go_error \<Rightarrow> 'w world \<Rightarrow> 'w reply" where
  "doHTTP1WithTLSConn nt t req alpnErr w =
     (case Parse (rq_URL req) of
        None \<Rightarrow> (Inl (NewRequestError ''parse_url'' '''' '''' ''h1'' (Some parse_error)), w)
      | Some u \<Rightarrow>
          exchange nt t req ''h1'' (HopH1Conn (tcp_via (tr_h2 t))) (alpn_Host alpnErr) (alpn_Port alpnErr)
            (URL_String u) w)"

definition scheme_error :: "string \<Rightarrow> go_error" where
  "scheme_error protocol =
     NewProtocolError '''' '''' protocol
       (Some (TransportError ''scheme_check'' '''' '''' '''' (Some (Category ErrProtocol)) (Some ErrProtocol) False))"

definition doHTTP2 :: "'w net \<Rightarrow> transport \<Rightarrow> request \<Rightarrow> 'w world \<Rightarrow> 'w reply" where
  "doHTTP2 nt t req w =
     (case Parse (rq_URL req) of
        None \<Rightarrow> (Inl (NewRequestError ''parse_url'' '''' '''' ''h2'' (Some parse_error)), w)
      | Some u \<Rightarrow>
          if u_Scheme u \<noteq> ''https'' then (Inl (scheme_error ''h2''), w)
          else exchange nt t req ''h2'' (HopH2 (tcp_via (tr_h2 t))) (Hostname u) (url_port u ''443'') (rq_URL req) w)"

definition doHTTP3 :: "'w net \<Rightarrow> transport \<Rightarrow> request \<Rightarrow> 'w world \<Rightarrow> 'w reply" where
  "doHTTP3 nt t req w =
     (case Parse (rq_URL req) of
        None \<Rightarrow> (Inl (NewRequestError ''parse_url'' '''' '''' ''h3'' (Some parse_error)), w)
      | Some u \<Rightarrow>
          if u_Scheme u \<noteq> ''https'' then (Inl (scheme_error ''h3''), w)
          else exchange nt t req ''h3'' (HopH3 (h3_via (tr_h3 t))) (Hostname u) (url_port u ''443'') (rq_URL req) w)"

section \<open>Choosing the protocol\<close>

text \<open>
  The fallback the code repeats: HTTP/2, on a protocol mismatch HTTP/1.1 over the same
  connection, on any other error HTTP/1.1 over a new one. The second result is the protocol used.
\<close>

definition h2_then_h1 :: "'w net \<Rightarrow> transport \<Rightarrow> request \<Rightarrow> 'w world \<Rightarrow> 'w reply \<times> Protocol" where
  "h2_then_h1 nt t req w =
     (case doHTTP2 nt t req w of
        (Inr r, w1) \<Rightarrow> ((Inr r, w1), ProtocolHTTP2)
      | (Inl e, w1) \<Rightarrow>
          (case as_alpn e of
             Some a \<Rightarrow> (doHTTP1WithTLSConn nt t req a w1, ProtocolHTTP1)
           | None \<Rightarrow> (doHTTP1 nt t req w1, ProtocolHTTP1)))"

definition raceH3H2 :: "'w net \<Rightarrow> transport \<Rightarrow> request \<Rightarrow> 'w world \<Rightarrow> 'w reply \<times> Protocol" where
  "raceH3H2 nt t req w =
     (case Parse (rq_URL req) of
        None \<Rightarrow> ((Inl parse_error, w), ProtocolHTTP2)
      | Some u \<Rightarrow>
          (let (ev, net') = nt_race nt (Hostname u) (url_port u ''443'') (wd_net w);
               w1 = w\<lparr>wd_net := net',
                      wd_log := wd_log w @ [ConnectH3 (h3_via (tr_h3 t)), ConnectH2 (tcp_via (tr_h2 t))]\<rparr> in
           case ev of
             RaceWinner p \<Rightarrow>
               if p = ProtocolHTTP3 then (doHTTP3 nt t req w1, ProtocolHTTP3) else h2_then_h1 nt t req w1
           | RaceMismatch a \<Rightarrow> (doHTTP1WithTLSConn nt t req a w1, ProtocolHTTP1)
           | RaceTimer (Some a) \<Rightarrow> (doHTTP1WithTLSConn nt t req a w1, ProtocolHTTP1)
           | RaceTimer None \<Rightarrow> h2_then_h1 nt t req w1
           | RaceCancelled e \<Rightarrow> ((Inl e, w1), ProtocolHTTP2)))"

definition url_host :: "string \<Rightarrow> string" where
  "url_host s = (case Parse s of None \<Rightarrow> '''' | Some u \<Rightarrow> Hostname u)"

definition remember :: "string \<Rightarrow> Protocol \<Rightarrow> transport \<Rightarrow> transport" where
  "remember host p t = t\<lparr>tr_protocolSupport := AList.update host p (tr_protocolSupport t)\<rparr>"

text \<open>The last resort of \<open>doAuto\<close>, and the step after a protocol mismatch.\<close>

definition auto_h1 :: "'w net \<Rightarrow> transport \<Rightarrow> request \<Rightarrow> 'w world \<Rightarrow> 'w reply \<times> transport" where
  "auto_h1 nt t req w =
     (case doHTTP1 nt t req w of
        (Inr r, w1) \<Rightarrow> ((Inr r, w1), remember (url_host (rq_URL req)) ProtocolHTTP1 t)
      | (Inl e, w1) \<Rightarrow> ((Inl e, w1), t))"

definition auto_conn :: "'w net \<Rightarrow> transport \<Rightarrow> request \<Rightarrow> go_error \<Rightarrow> 'w world \<Rightarrow> 'w reply \<times> transport" where
  "auto_conn nt t req a w =
     (case doHTTP1WithTLSConn nt t req a w of
        (Inr r, w1) \<Rightarrow> ((Inr r, w1), remember (url_host (rq_URL req)) ProtocolHTTP1 t)
      | (Inl e, w1) \<Rightarrow> ((Inl e, w1), t))"

definition auto_first :: "'w net \<Rightarrow> transport \<Rightarrow> request \<Rightarrow> 'w world \<Rightarrow> 'w reply \<times> Protocol" where
  "auto_first nt t req w =
     (if pr_SupportHTTP3 (tr_preset t) then raceH3H2 nt t req w
      else (doHTTP2 nt t req w, ProtocolHTTP2))"

definition doAuto :: "'w net \<Rightarrow> transport \<Rightarrow> request \<Rightarrow> 'w world \<Rightarrow> 'w reply \<times> transport" where
  "doAuto nt t req w =
     (let host = url_host (rq_URL req);
          unknown =
            (case auto_first nt t req w of
               ((Inr r, w1), p) \<Rightarrow> ((Inr r, w1), remember host p t)
             | ((Inl e, w1), p) \<Rightarrow>
                 (case as_alpn e of Some a \<Rightarrow> auto_conn nt t req a w1 | None \<Rightarrow> auto_h1 nt t req w1)) in
      case map_of (tr_protocolSupport t) host of
        Some ProtocolHTTP3 \<Rightarrow> (doHTTP3 nt t req w, t)
      | Some ProtocolHTTP2 \<Rightarrow> (fst (h2_then_h1 nt t req w), t)
      | Some ProtocolHTTP1 \<Rightarrow> (doHTTP1 nt t req w, t)
      | _ \<Rightarrow> unknown)"

definition is_proxied :: "transport \<Rightarrow> bool" where
  "is_proxied t \<longleftrightarrow>
     (case tr_proxy t of
        None \<Rightarrow> False
      | Some px \<Rightarrow> px_URL px \<noteq> '''' \<or> px_TCPProxy px \<noteq> '''' \<or> px_UDPProxy px \<noteq> '''')"

definition effective_proxy_url :: "transport \<Rightarrow> string" where
  "effective_proxy_url t =
     (case tr_proxy t of
        None \<Rightarrow> ''''
      | Some px \<Rightarrow>
          if px_URL px \<noteq> '''' then px_URL px
          else if px_TCPProxy px \<noteq> '''' then px_TCPProxy px else px_UDPProxy px)"

text \<open>The branch of \<open>Do\<close> for a transport with a proxy.\<close>

definition do_proxied :: "'w net \<Rightarrow> transport \<Rightarrow> request \<Rightarrow> 'w world \<Rightarrow> 'w reply" where
  "do_proxied nt t req w =
     (case tr_protocol t of
        ProtocolHTTP1 \<Rightarrow> doHTTP1 nt t req w
      | ProtocolHTTP2 \<Rightarrow> doHTTP2 nt t req w
      | ProtocolHTTP3 \<Rightarrow>
          (case tr_h3ProxyError t of
             Some e \<Rightarrow> (Inl (TextError e), w)
           | None \<Rightarrow>
               if \<not> SupportsQUIC (effective_proxy_url t)
               then (Inl (TextError ''HTTP/3 requires a SOCKS5 or MASQUE proxy (current proxy does not support UDP)''), w)
               else doHTTP3 nt t req w)
      | ProtocolAuto \<Rightarrow>
          if tr_h3ProxyError t = None \<and> SupportsQUIC (effective_proxy_url t) then
            (case doHTTP3 nt t req w of
               (Inr r, w1) \<Rightarrow> (Inr r, w1)
             | (Inl e, w1) \<Rightarrow> fst (h2_then_h1 nt t req w1))
          else fst (h2_then_h1 nt t req w))"

definition Transport_Do :: "'w net \<Rightarrow> transport \<Rightarrow> request \<Rightarrow> 'w world \<Rightarrow> 'w reply \<times> transport" where
  "Transport_Do nt t req w =
     (case Parse (rq_URL req) of
        None \<Rightarrow> ((Inl (NewRequestError ''parse_url'' '''' '''' '''' (Some parse_error)), w), t)
      | Some u \<Rightarrow>
          if u_Scheme u = ''http'' then (doHTTP1 nt t req w, t)
          else if is_proxied t then (do_proxied nt t req w, t)
          else case tr_protocol t of
              ProtocolHTTP1 \<Rightarrow> (doHTTP1 nt t req w, t)
            | ProtocolHTTP2 \<Rightarrow> (doHTTP2 nt t req w, t)
            | ProtocolHTTP3 \<Rightarrow> (doHTTP3 nt t req w, t)
            | ProtocolAuto \<Rightarrow> doAuto nt t req w)"

section \<open>Which routes a request can take\<close>

definition appends :: "(hop \<Rightarrow> bool) \<Rightarrow> 'w world \<Rightarrow> 'w world \<Rightarrow> bool" where
  "appends P w w' \<longleftrightarrow> (\<exists>new. wd_log w' = wd_log w @ new \<and> list_all P new)"

lemma appends_refl [simp, intro]: "appends P w w"
  by (simp add: appends_def)

lemma appends_trans: "appends P u v \<Longrightarrow> appends P v w \<Longrightarrow> appends P u w"
  by (auto simp: appends_def)

lemma log_read_response [simp]: "wd_log (snd (read_response nt protocol host port final hp w)) = wd_log w"
  unfolding read_response_def by (simp split: prod.split sum.split body_error.split)

lemma appends_exchange: "P h \<Longrightarrow> appends P w (snd (exchange nt t req protocol h host port final w))"
  unfolding exchange_def Let_def by (simp add: appends_def split: option.split prod.split sum.split)

text \<open>The hops of a transport: each protocol transport has one way out.\<close>

definition routes_ok :: "(via \<Rightarrow> bool) \<Rightarrow> transport \<Rightarrow> bool" where
  "routes_ok Q t \<longleftrightarrow> Q (tcp_via (tr_h1 t)) \<and> Q (tcp_via (tr_h2 t))"

lemma appends_h1: "routes_ok Q t \<Longrightarrow> appends (\<lambda>h. Q (hop_via h)) w (snd (doHTTP1 nt t req w))"
  by (auto simp: doHTTP1_def routes_ok_def intro!: appends_exchange split: option.splits)

lemma appends_h1_conn: "routes_ok Q t \<Longrightarrow> appends (\<lambda>h. Q (hop_via h)) w (snd (doHTTP1WithTLSConn nt t req a w))"
  by (auto simp: doHTTP1WithTLSConn_def routes_ok_def intro!: appends_exchange split: option.splits)

lemma appends_h2: "routes_ok Q t \<Longrightarrow> appends (\<lambda>h. Q (hop_via h)) w (snd (doHTTP2 nt t req w))"
  by (auto simp: doHTTP2_def routes_ok_def intro!: appends_exchange split: option.splits)

lemma appends_h3: "Q (h3_via (tr_h3 t)) \<Longrightarrow> appends (\<lambda>h. Q (hop_via h)) w (snd (doHTTP3 nt t req w))"
  by (auto simp: doHTTP3_def intro!: appends_exchange split: option.splits)

lemma appends_h2_h1:
  assumes "routes_ok Q t"
  shows "appends (\<lambda>h. Q (hop_via h)) w (snd (fst (h2_then_h1 nt t req w)))"
proof -
  obtain res w1 where h2: "doHTTP2 nt t req w = (res, w1)" by fastforce
  then have "appends (\<lambda>h. Q (hop_via h)) w w1" using appends_h2 [OF assms, of w nt req] by simp
  note first = appends_trans [OF this]
  show ?thesis
    using h2 \<open>appends (\<lambda>h. Q (hop_via h)) w w1\<close>
    by (auto simp: h2_then_h1_def intro!: first [OF appends_h1 [OF assms]] first [OF appends_h1_conn [OF assms]]
        split: sum.splits option.splits)
qed

definition proxied_wf :: "transport \<Rightarrow> bool" where
  "proxied_wf t \<longleftrightarrow>
     is_proxied t \<and> routes_ok (\<lambda>v. v \<noteq> Direct) t \<and> (tr_h3ProxyError t = None \<longrightarrow> h3_via (tr_h3 t) \<noteq> Direct)"

lemma appends_proxied:
  assumes "proxied_wf t"
  shows "appends (\<lambda>h. hop_via h \<noteq> Direct) w (snd (do_proxied nt t req w))"
proof -
  have routes: "routes_ok (\<lambda>v. v \<noteq> Direct) t" using assms by (simp add: proxied_wf_def)
  note tcp = appends_h1 [OF routes] appends_h2 [OF routes] appends_h2_h1 [OF routes]
  obtain res w1 where h3: "doHTTP3 nt t req w = (res, w1)" by fastforce
  have quic: "appends (\<lambda>h. hop_via h \<noteq> Direct) w w1" if "tr_h3ProxyError t = None"
    using appends_h3 [of "\<lambda>v. v \<noteq> Direct" t w nt req] assms that by (simp add: h3 proxied_wf_def)
  have fallback: "appends (\<lambda>h. hop_via h \<noteq> Direct) w (snd (fst (h2_then_h1 nt t req w1)))" if "tr_h3ProxyError t = None"
    using appends_trans [OF quic [OF that] tcp(3)] .
  show ?thesis
    using tcp quic fallback h3 by (auto simp: do_proxied_def split: Protocol.splits option.splits sum.splits)
qed

lemma appends_Do:
  assumes "proxied_wf t"
  shows "appends (\<lambda>h. hop_via h \<noteq> Direct) w (snd (fst (Transport_Do nt t req w)))"
  using assms appends_proxied [OF assms] appends_h1 [of "\<lambda>v. v \<noteq> Direct" t w nt req]
  by (auto simp: Transport_Do_def proxied_wf_def split: option.splits)

section \<open>The transport as a machine\<close>

datatype 'w transport_op =
    OpSetProtocol Protocol
  | OpSetInsecure bool
  | OpSetDisableECH bool
  | OpSetProxy set_up "ProxyConfig option"
  | OpSetPreset set_up string
  | OpSetTimeout duration
  | OpSetConnectTo string string
  | OpSetECH "byte list"
  | OpSetECHDomain string
  | OpSetHeaderOrder "string list"
  | OpRefreshWith Protocol
  | OpDo "'w net" request "'w world"

fun transport_step :: "'w transport_op \<Rightarrow> transport \<Rightarrow> transport" where
  "transport_step (OpSetProtocol p) t = SetProtocol p t"
| "transport_step (OpSetInsecure b) t = SetInsecureSkipVerify b t"
| "transport_step (OpSetDisableECH b) t = SetDisableECH b t"
| "transport_step (OpSetProxy su px) t = Transport_SetProxy su px t"
| "transport_step (OpSetPreset su name) t = SetPreset su name t"
| "transport_step (OpSetTimeout d) t = SetTimeout d t"
| "transport_step (OpSetConnectTo a b) t = SetConnectTo a b t"
| "transport_step (OpSetECH e) t = Transport_SetECHConfig e t"
| "transport_step (OpSetECHDomain d) t = Transport_SetECHConfigDomain d t"
| "transport_step (OpSetHeaderOrder hs) t = SetHeaderOrder hs t"
| "transport_step (OpRefreshWith p) t = RefreshWithProtocol p t"
| "transport_step (OpDo nt req w) t = snd (Transport_Do nt t req w)"

text \<open>A proxy configuration that names a proxy for TCP and for UDP.\<close>

definition full_proxy :: "ProxyConfig \<Rightarrow> bool" where
  "full_proxy px \<longleftrightarrow> tcp_url px \<noteq> '''' \<and> udp_url px \<noteq> ''''"

fun keeps_proxy :: "'w transport_op \<Rightarrow> bool" where
  "keeps_proxy (OpSetProxy su px) = (case px of None \<Rightarrow> False | Some p \<Rightarrow> full_proxy p)"
| "keeps_proxy (OpSetPreset su name) = False"
| "keeps_proxy _ = True"

lemma build_h3_via:
  "url \<noteq> '''' \<Longrightarrow> snd (build_h3 su config (url_proxy url) url) = None \<Longrightarrow>
   h3_via (fst (build_h3 su config (url_proxy url) url)) \<noteq> Direct"
  by (auto simp: build_h3_def h3_via_def url_proxy_def split: if_splits option.splits)

lemma tcp_via_new [simp]:
  "tcp_via (new_tcp (Some px) config) = (if px_URL px \<noteq> '''' then Proxied (px_URL px) else Direct)"
  "tcp_via (new_tcp None config) = Direct"
  by (simp_all add: tcp_via_def new_tcp_def)

lemma px_URL_url_proxy [simp]: "px_URL (url_proxy u) = u"
  by (simp add: url_proxy_def)

lemma full_proxy_some: "full_proxy px \<Longrightarrow> px_URL px \<noteq> '''' \<or> px_TCPProxy px \<noteq> ''''"
  by (auto simp: full_proxy_def tcp_url_def split: if_splits)

lemma proxied_wf_new: "full_proxy px \<Longrightarrow> proxied_wf (NewTransportWithConfig su name (Some px) config)"
  using full_proxy_some [of px] build_h3_via [of "udp_url px" su config]
  by (auto simp: NewTransportWithConfig_def proxied_wf_def routes_ok_def full_proxy_def is_proxied_def
      Let_def case_prod_beta)

lemma reapply_fields [simp]:
  "tr_proxy (reapply_insecure t) = tr_proxy t" "tr_h3ProxyError (reapply_insecure t) = tr_h3ProxyError t"
  "tcp_via (tr_h1 (reapply_insecure t)) = tcp_via (tr_h1 t)" "tcp_via (tr_h2 (reapply_insecure t)) = tcp_via (tr_h2 t)"
  "h3_via (tr_h3 (reapply_insecure t)) = h3_via (tr_h3 t)"
  by (simp_all add: reapply_insecure_def tcp_via_def h3_via_def)

lemma is_proxied_reapply [simp]: "is_proxied (reapply_insecure t) = is_proxied t"
  by (simp add: is_proxied_def)

lemma proxied_wf_set_proxy: "full_proxy px \<Longrightarrow> proxied_wf (Transport_SetProxy su (Some px) t)"
  using full_proxy_some [of px] build_h3_via [of "udp_url px" su None]
  by (auto simp: Transport_SetProxy_def proxied_wf_def routes_ok_def full_proxy_def is_proxied_def
      Let_def case_prod_beta)

text \<open>The other operations leave the routes alone; \<open>Do\<close> changes the remembered protocols only.\<close>

definition same_routes :: "transport \<Rightarrow> transport \<Rightarrow> bool" where
  "same_routes t t' \<longleftrightarrow>
     tr_proxy t' = tr_proxy t \<and> tr_h3ProxyError t' = tr_h3ProxyError t \<and>
     tcp_via (tr_h1 t') = tcp_via (tr_h1 t) \<and> tcp_via (tr_h2 t') = tcp_via (tr_h2 t) \<and>
     h3_via (tr_h3 t') = h3_via (tr_h3 t)"

lemma same_routes_wf: "same_routes t t' \<Longrightarrow> proxied_wf t \<Longrightarrow> proxied_wf t'"
  by (simp add: same_routes_def proxied_wf_def routes_ok_def is_proxied_def)

lemma remember_routes [simp]: "same_routes t (remember host p t)"
  by (simp add: same_routes_def remember_def)

lemma same_routes_refl [simp]: "same_routes t t"
  by (simp add: same_routes_def)

lemma auto_routes: "same_routes t (snd (auto_h1 nt t req w))" "same_routes t (snd (auto_conn nt t req a w))"
  by (simp_all add: auto_h1_def auto_conn_def split: sum.splits prod.splits)

lemma doAuto_routes: "same_routes t (snd (doAuto nt t req w))"
  unfolding doAuto_def Let_def
  by (simp add: auto_routes split: option.split Protocol.split prod.split sum.split)

lemma Do_routes: "same_routes t (snd (Transport_Do nt t req w))"
  unfolding Transport_Do_def by (simp add: doAuto_routes split: option.split Protocol.split)

lemma setter_routes:
  "same_routes t (SetProtocol p t)" "same_routes t (SetInsecureSkipVerify b t)" "same_routes t (SetDisableECH b t)"
  "same_routes t (SetTimeout d t)" "same_routes t (SetConnectTo x y t)" "same_routes t (Transport_SetECHConfig e t)"
  "same_routes t (Transport_SetECHConfigDomain d' t)" "same_routes t (SetHeaderOrder hs t)"
  "same_routes t (RefreshWithProtocol p t)"
  by (simp_all add: same_routes_def SetProtocol_def SetInsecureSkipVerify_def SetDisableECH_def SetTimeout_def
      SetConnectTo_def Transport_SetECHConfig_def Transport_SetECHConfigDomain_def SetHeaderOrder_def
      RefreshWithProtocol_def ClearProtocolCache_def tcp_via_def h3_via_def Let_def)

lemma proxied_wf_step: "proxied_wf t \<Longrightarrow> keeps_proxy op \<Longrightarrow> proxied_wf (transport_step op t)"
  by (cases op) (auto intro: same_routes_wf setter_routes Do_routes proxied_wf_set_proxy split: option.splits)

interpretation proxied: op_machine transport_step keeps_proxy proxied_wf
  by unfold_locales (rule proxied_wf_step)

text \<open>A network for concrete runs: round trips over the hops in \<open>down\<close> fail, the others answer 200.\<close>

definition ok_response :: http_response where
  "ok_response = \<lparr>hp_StatusCode = 200, hp_Header = [], hp_Body = ([], None), hp_ContentLength = 0, hp_choice = None\<rparr>"

definition test_net :: "hop list \<Rightarrow> race_event \<Rightarrow> unit net" where
  "test_net down ev =
     \<lparr>nt_canon = (\<lambda>k. k), nt_newRequest = (\<lambda>m u. None),
      nt_roundTrip = (\<lambda>hop d hq w. if hop \<in> set down then (Inl (TextError ''down''), w) else (Inr ok_response, w)),
      nt_race = (\<lambda>h p w. (ev, w)), nt_decode = no_decoder\<rparr>"

definition start_world :: "unit world" where
  "start_world = \<lparr>wd_net = (), wd_bufs = empty_store, wd_log = []\<rparr>"

definition get_request :: "string \<Rightarrow> header \<Rightarrow> request" where
  "get_request url hs =
     \<lparr>rq_Method = ''GET'', rq_URL = url, rq_Headers = hs, rq_Body = [], rq_BodyReader = None, rq_Timeout = 0,
      rq_TLSOnly = None\<rparr>"

definition empty_preset :: Preset where
  "empty_preset =
     \<lparr>pr_Name = ''chrome-1'', pr_ClientHelloID = no_hello, pr_PSKClientHelloID = no_hello,
      pr_QUICClientHelloID = no_hello, pr_QUICPSKClientHelloID = no_hello, pr_UserAgent = ''UA'', pr_Headers = [], pr_HeaderOrder = [(''accept'', ''*/*'')],
      pr_HTTP2Settings = empty_settings\<lparr>NoRFC7540Priorities := True\<rparr>,
      pr_TCPFingerprint = \<lparr>tcp_TTL = 0, tcp_MSS = 0, tcp_WindowSize = 0, tcp_WindowScale = 0, tcp_DFBit = False\<rparr>,
      pr_SupportHTTP3 = True, pr_H2Config = None, pr_H3Config = None, pr_JA3 = '''', pr_JA3Extras = None, pr_BasedOn = ''''\<rparr>"

definition plain_set_up :: set_up where
  "plain_set_up = \<lparr>su_preset = (\<lambda>n. empty_preset), su_socks5 = (\<lambda>u. None), su_masque = (\<lambda>u. None)\<rparr>"

text \<open>C18.
  Once a proxy is configured for TCP and for UDP, no request leaves the machine directly: this
  holds for every protocol setting, for both outcomes of setting up the HTTP/3 proxy, through
  all fallbacks between protocols and after any sequence of the transport's operations that
  keeps such a proxy (a change of preset excepted).\<close>

theorem proxied_never_direct:
  assumes "full_proxy px" "list_all keeps_proxy ops"
  shows "let t = fold transport_step ops (NewTransportWithConfig su name (Some px) config);
             w' = snd (fst (Transport_Do nt t req w)) in
    \<exists>new. wd_log w' = wd_log w @ new \<and> (\<forall>h \<in> set new. hop_via h \<noteq> Direct)"
proof -
  have "proxied_wf (fold transport_step ops (NewTransportWithConfig su name (Some px) config))"
    using proxied.run_inv [OF proxied_wf_new] assms by blast
  from appends_Do [OF this, of w nt req] show ?thesis
    by (auto simp: Let_def appends_def list_all_iff)
qed

lemma log_exchange:
  "nt_newRequest nt (if rq_Method req = '''' then ''GET'' else rq_Method req) (rq_URL req) = None \<Longrightarrow>
   wd_log (snd (exchange nt t req protocol h host port final w)) = wd_log w @ [h]"
  unfolding exchange_def Let_def by (simp split: prod.split sum.split)

theorem proxied_never_direct_witness:
  "let px = url_proxy ''socks5://p.test:1080'';
       t = fold transport_step
             [OpSetProtocol ProtocolHTTP2, OpSetProxy plain_set_up (Some px),
              OpDo (test_net [] (RaceTimer None)) (get_request ''http://x.test/'' []) start_world]
             (NewTransportWithConfig plain_set_up ''chrome'' (Some px) None) in
   full_proxy px \<and>
   (\<exists>new. wd_log (snd (fst (Transport_Do (test_net [] (RaceTimer None)) t (get_request ''https://a.test/'' []) start_world))) = new \<and>
      list_all (\<lambda>h. hop_via h \<noteq> Direct) new)"
  using proxied_never_direct [of "url_proxy ''socks5://p.test:1080''"
      "[OpSetProtocol ProtocolHTTP2, OpSetProxy plain_set_up (Some (url_proxy ''socks5://p.test:1080'')),
        OpDo (test_net [] (RaceTimer None)) (get_request ''http://x.test/'' []) start_world]"
      plain_set_up "''chrome''" None "test_net [] (RaceTimer None)" "get_request ''https://a.test/'' []" start_world]
  by (simp add: Let_def full_proxy_def tcp_url_def udp_url_def url_proxy_def start_world_def list_all_iff)

text \<open>
  With a proxy for TCP only, the scheme of its URL decides: an HTTP proxy is used for every
  attempt, but with a SOCKS5 proxy the first attempt is HTTP/3 outside the proxy. And after a
  change of preset an HTTP/3 transport that had its own UDP proxy is a direct one.
\<close>

definition tcp_only :: "string \<Rightarrow> ProxyConfig" where
  "tcp_only u = (url_proxy '''')\<lparr>px_TCPProxy := u\<rparr>"

definition udp_only :: "string \<Rightarrow> ProxyConfig" where
  "udp_only u = (url_proxy '''')\<lparr>px_UDPProxy := u\<rparr>"

definition auto_log :: "hop list \<Rightarrow> transport \<Rightarrow> hop list" where
  "auto_log down t =
     wd_log (snd (fst (Transport_Do (test_net down (RaceTimer None)) t (get_request ''https://a.test/'' []) start_world)))"

lemma url_a_test: "map_option u_Scheme (Parse ''https://a.test/'') = Some ''https''"
  by code_simp

lemma quic_proxy_urls:
  "\<not> SupportsQUIC ''http://p.test:8080''" "SupportsQUIC ''socks5://p.test:1080''" "IsSOCKS5Proxy ''socks5://p.test:1080''"
  by code_simp+

lemma test_read: "\<exists>r bufs. read_response (test_net down ev) p h po f ok_response w = (Inr r, w\<lparr>wd_bufs := bufs\<rparr>)"
  by (simp add: read_response_def receive_body_def readBodyOptimized_def ok_response_def hget_def first_value_def
      hvalues_def pool_get_def end_error_def Let_def) blast

lemma test_exchange:
  "\<exists>r w'. exchange (test_net [] ev) t req protocol hop host port final w = (Inr r, w') \<and> wd_log w' = wd_log w @ [hop]"
proof -
  let ?w = "w\<lparr>wd_net := wd_net w, wd_log := wd_log w @ [hop]\<rparr>"
  obtain r bufs where "read_response (test_net [] ev) protocol host port final ok_response ?w = (Inr r, ?w\<lparr>wd_bufs := bufs\<rparr>)"
    using test_read by blast
  then show ?thesis by (simp add: exchange_def Let_def) (simp add: test_net_def)
qed

lemma test_run_h2:
  assumes "Parse ''https://a.test/'' = Some u" "u_Scheme u = ''https''"
  shows "\<exists>r w'. doHTTP2 (test_net [] ev) t (get_request ''https://a.test/'' []) w = (Inr r, w') \<and>
    wd_log w' = wd_log w @ [HopH2 (tcp_via (tr_h2 t))]"
  using assms test_exchange by (simp add: doHTTP2_def get_request_def)

lemma test_run_h3:
  assumes "Parse ''https://a.test/'' = Some u" "u_Scheme u = ''https''"
  shows "\<exists>r w'. doHTTP3 (test_net [] ev) t (get_request ''https://a.test/'' []) w = (Inr r, w') \<and>
    wd_log w' = wd_log w @ [HopH3 (h3_via (tr_h3 t))]"
  using assms test_exchange by (simp add: doHTTP3_def get_request_def)

lemma auto_log_proxied:
  assumes "is_proxied t" "tr_protocol t = ProtocolAuto"
  shows "auto_log [] t =
    (if tr_h3ProxyError t = None \<and> SupportsQUIC (effective_proxy_url t) then [HopH3 (h3_via (tr_h3 t))]
     else [HopH2 (tcp_via (tr_h2 t))])"
proof -
  obtain u where u: "Parse ''https://a.test/'' = Some u" "u_Scheme u = ''https''"
    using url_a_test by (auto simp: map_option_case split: option.splits)
  obtain r2 w2 where h2: "doHTTP2 (test_net [] (RaceTimer None)) t (get_request ''https://a.test/'' []) start_world = (Inr r2, w2)"
      "wd_log w2 = [HopH2 (tcp_via (tr_h2 t))]"
    using test_run_h2 [OF u, of "RaceTimer None" t start_world] by (auto simp: start_world_def)
  obtain r3 w3 where h3: "doHTTP3 (test_net [] (RaceTimer None)) t (get_request ''https://a.test/'' []) start_world = (Inr r3, w3)"
      "wd_log w3 = [HopH3 (h3_via (tr_h3 t))]"
    using test_run_h3 [OF u, of "RaceTimer None" t start_world] by (auto simp: start_world_def)
  have "rq_URL (get_request ''https://a.test/'' []) = ''https://a.test/''" by (simp add: get_request_def)
  then show ?thesis
    using assms u h2 h3 by (simp add: auto_log_def Transport_Do_def do_proxied_def h2_then_h1_def)
qed

text \<open>
  A proxy for TCP only: whether HTTP/3 goes around it depends on the scheme of its URL. With an
  HTTP proxy the request is sent through the proxy over HTTP/2; with a SOCKS5 proxy the first
  attempt is HTTP/3 directly from the client's address. A separate UDP proxy is used, until the
  preset is changed: from then on HTTP/3 is direct as well.\<close>

theorem tcp_only_socks_leaks_quic:
  "let start = (\<lambda>px. NewTransportWithConfig plain_set_up ''chrome'' (Some px) None) in
   auto_log [] (start (tcp_only ''http://p.test:8080'')) = [HopH2 (Proxied ''http://p.test:8080'')] \<and>
   auto_log [] (start (tcp_only ''socks5://p.test:1080'')) = [HopH3 Direct] \<and>
   auto_log [] (start (udp_only ''socks5://p.test:1080'')) = [HopH3 (Proxied ''socks5://p.test:1080'')] \<and>
   auto_log [] (SetPreset plain_set_up ''chrome'' (start (udp_only ''socks5://p.test:1080''))) = [HopH3 Direct]"
proof -
  note fields = is_proxied_def effective_proxy_url_def NewTransportWithConfig_def SetPreset_def build_h3_def
    tcp_only_def udp_only_def url_proxy_def tcp_url_def udp_url_def plain_set_up_def direct_h3_def h3_via_def
    tcp_via_def new_tcp_def reapply_insecure_def Let_def
  show ?thesis
    unfolding Let_def
    using quic_proxy_urls by (intro conjI; subst auto_log_proxied) (simp_all add: fields)
qed

section \<open>What the transport remembers and sends\<close>

lemma protocol_read_response:
  "read_response nt protocol host port final hp w = (Inr r, w') \<Longrightarrow> rs_Protocol r = protocol"
  by (auto simp: read_response_def split: prod.splits sum.splits body_error.splits)

lemma protocol_exchange:
  "exchange nt t req protocol h host port final w = (Inr r, w') \<Longrightarrow> rs_Protocol r = protocol"
  unfolding exchange_def Let_def
  by (auto dest: protocol_read_response split: option.splits prod.splits sum.splits)

lemma protocol_results:
  "doHTTP1 nt t req w = (Inr r, w') \<Longrightarrow> rs_Protocol r = ''h1''"
  "doHTTP1WithTLSConn nt t req a w = (Inr r, w') \<Longrightarrow> rs_Protocol r = ''h1''"
  "doHTTP2 nt t req w = (Inr r, w') \<Longrightarrow> rs_Protocol r = ''h2''"
  "doHTTP3 nt t req w = (Inr r, w') \<Longrightarrow> rs_Protocol r = ''h3''"
  by (auto simp: doHTTP1_def doHTTP1WithTLSConn_def doHTTP2_def doHTTP3_def dest: protocol_exchange
      split: option.splits if_splits)

lemma protocol_h2_h1: "h2_then_h1 nt t req w = ((Inr r, w'), p) \<Longrightarrow> rs_Protocol r = Protocol_String p \<and> p \<noteq> ProtocolAuto"
  unfolding h2_then_h1_def by (auto dest: protocol_results split: prod.splits sum.splits option.splits)

lemma protocol_first: "auto_first nt t req w = ((Inr r, w'), p) \<Longrightarrow> rs_Protocol r = Protocol_String p \<and> p \<noteq> ProtocolAuto"
  unfolding auto_first_def raceH3H2_def Let_def
  by (auto dest: protocol_results protocol_h2_h1 split: if_splits option.splits prod.splits race_event.splits)

definition learned :: "transport \<Rightarrow> request \<Rightarrow> response \<Rightarrow> transport \<Rightarrow> bool" where
  "learned t req r t' \<longleftrightarrow>
     (\<exists>p. p \<noteq> ProtocolAuto \<and> rs_Protocol r = Protocol_String p \<and> t' = remember (url_host (rq_URL req)) p t)"

lemma learned_first: "auto_first nt t req w = ((Inr r, w'), p) \<Longrightarrow> learned t req r (remember (url_host (rq_URL req)) p t)"
  using protocol_first by (fastforce simp: learned_def)

lemma learned_h1: "auto_h1 nt t req w = ((Inr r, w'), t') \<Longrightarrow> learned t req r t'"
  by (auto simp: auto_h1_def learned_def dest!: protocol_results split: prod.splits sum.splits
      intro: exI [of _ ProtocolHTTP1])

lemma learned_conn: "auto_conn nt t req a w = ((Inr r, w'), t') \<Longrightarrow> learned t req r t'"
  by (auto simp: auto_conn_def learned_def dest!: protocol_results split: prod.splits sum.splits
      intro: exI [of _ ProtocolHTTP1])

lemma doAuto_known:
  assumes "map_of (tr_protocolSupport t) (url_host (rq_URL req)) = Some p"
  shows "p = ProtocolHTTP3 \<Longrightarrow> doAuto nt t req w = (doHTTP3 nt t req w, t)"
    and "p = ProtocolHTTP1 \<Longrightarrow> doAuto nt t req w = (doHTTP1 nt t req w, t)"
  using assms by (simp_all add: doAuto_def)

text \<open>
  What the transport remembers is what happened: when the automatic mode first reaches a host,
  the protocol it stores for that host is the one the response came over (HTTP/2, HTTP/3, or
  HTTP/1.1 after a fallback), it is never \<open>auto\<close>, nothing is stored for another host, and from
  then on a host remembered for HTTP/3 or HTTP/1.1 is tried with that protocol alone.\<close>

theorem auto_learns_protocol:
  assumes "doAuto nt t req w = ((Inr r, w'), t')" "map_of (tr_protocolSupport t) (url_host (rq_URL req)) = None"
  shows "\<exists>p. p \<noteq> ProtocolAuto \<and> rs_Protocol r = Protocol_String p \<and>
    map_of (tr_protocolSupport t') = (map_of (tr_protocolSupport t))(url_host (rq_URL req) \<mapsto> p) \<and>
    (p \<noteq> ProtocolHTTP2 \<longrightarrow>
      (\<forall>nt2 req2 w2. url_host (rq_URL req2) = url_host (rq_URL req) \<longrightarrow>
        doAuto nt2 t' req2 w2 = ((if p = ProtocolHTTP3 then doHTTP3 else doHTTP1) nt2 t' req2 w2, t')))"
proof -
  obtain res w1 p1 where first: "auto_first nt t req w = ((res, w1), p1)" by (metis prod.exhaust)
  have "learned t req r t'"
  proof (cases res)
    case (Inl e)
    then show ?thesis
      using assms first learned_h1 [of nt t req w1 r w' t']
        learned_conn [of nt t req _ w1 r w' t']
      by (cases "as_alpn e") (simp_all add: doAuto_def Let_def)
  next
    case (Inr r1)
    then show ?thesis
      using assms first learned_first [of nt t req w r1 w1 p1] by (simp add: doAuto_def Let_def)
  qed
  then obtain p where p: "p \<noteq> ProtocolAuto" "rs_Protocol r = Protocol_String p"
      and t': "t' = remember (url_host (rq_URL req)) p t" by (auto simp: learned_def)
  have "map_of (tr_protocolSupport t') = (map_of (tr_protocolSupport t))(url_host (rq_URL req) \<mapsto> p)"
    by (simp add: t' remember_def)
  moreover have "doAuto nt2 t' req2 w2 = ((if p = ProtocolHTTP3 then doHTTP3 else doHTTP1) nt2 t' req2 w2, t')"
    if "p \<noteq> ProtocolHTTP2" "url_host (rq_URL req2) = url_host (rq_URL req)" for nt2 :: "'b net" and req2 w2
    using doAuto_known [of t' req2 p] calculation p(1) that by (cases p) simp_all
  ultimately show ?thesis
    using p by (intro exI [of _ p]) simp
qed

text \<open>
  The caller's headers, given under different canonical names, reach the network unchanged,
  whatever the preset sets for the same names.
\<close>

lemma header_request:
  assumes "distinct (map (nt_canon nt \<circ> fst) (rq_Headers req))" "(k, vs) \<in> set (rq_Headers req)" "vs \<noteq> []"
  shows "hvalues (oh_header (hq_Header (outgoing nt t req protocol method))) (nt_canon nt k) = vs"
proof -
  have inj: "k' = k \<and> vs' = vs"
    if "(k', vs') \<in> set (rq_Headers req)" "nt_canon nt k' = nt_canon nt k" for k' vs'
  proof -
    have "inj_on (nt_canon nt \<circ> fst) (set (rq_Headers req))" using assms(1) by (simp add: distinct_map)
    from inj_onD [OF this, of "(k', vs')" "(k, vs)"] show ?thesis using that assms(2) by simp
  qed
  have "find (\<lambda>(k', vs'). nt_canon nt k' = nt_canon nt k \<and> vs' \<noteq> []) (rq_Headers req) = Some (k, vs)"
  proof (cases "find (\<lambda>(k', vs'). nt_canon nt k' = nt_canon nt k \<and> vs' \<noteq> []) (rq_Headers req)")
    case None
    then show ?thesis using assms(2,3) by (auto simp: find_None_iff)
  next
    case (Some kv)
    then have "kv \<in> set (rq_Headers req) \<and> nt_canon nt (fst kv) = nt_canon nt k"
      unfolding find_Some_iff by (metis (mono_tags, lifting) case_prod_unfold nth_mem)
    then show ?thesis using inj [of "fst kv" "snd kv"] Some by (simp add: prod_eq_iff)
  qed
  then show ?thesis
    using assms(1) by (simp add: outgoing_def request_header_def Let_def hvalues_user_headers)
qed

text \<open>
  The caller's headers win: every header of a request that is not empty reaches the round trip
  with exactly the caller's values, over every protocol, whatever the preset and the detection
  of scripted requests set for the same name; the order lists are the caller's when given.\<close>

theorem user_headers_win:
  assumes "distinct (map (nt_canon nt \<circ> fst) (rq_Headers req))" "(k, vs) \<in> set (rq_Headers req)" "vs \<noteq> []"
  shows "let hq = outgoing nt t req protocol method in
    hvalues (oh_header (hq_Header hq)) (nt_canon nt k) = vs \<and>
    hq_URL hq = rq_URL req \<and>
    (tr_customHeaderOrder t \<noteq> [] \<longrightarrow> oh_order (hq_Header hq) = tr_customHeaderOrder t) \<and>
    (tr_customPseudoOrder t \<noteq> [] \<longrightarrow> oh_pseudo (hq_Header hq) = tr_customPseudoOrder t)"
  using header_request [OF assms]
  by (simp add: Let_def outgoing_def request_header_def applyPresetHeaders_def pseudo_order_def)

theorem user_headers_win_witness:
  "let nt = test_net [] (RaceTimer None);
       t = SetHeaderOrder [''Accept''] (NewTransportWithConfig plain_set_up ''chrome'' None None);
       hq = outgoing nt t (get_request ''https://a.test/'' [(''accept'', [''text/html'', ''a/b'']), (''x'', [''1''])]) ''h2'' ''GET'' in
   hvalues (oh_header (hq_Header hq)) ''accept'' = [''text/html'', ''a/b''] \<and> oh_order (hq_Header hq) = [''accept'']"
proof -
  have "to_lower ''Accept'' = ''accept''" by code_simp
  moreover have "nt_canon (test_net [] (RaceTimer None)) = (\<lambda>k. k)" by (simp add: test_net_def)
  ultimately show ?thesis
    using user_headers_win [of "test_net [] (RaceTimer None)"
        "get_request ''https://a.test/'' [(''accept'', [''text/html'', ''a/b'']), (''x'', [''1''])]" "''accept''"
        "[''text/html'', ''a/b'']" "SetHeaderOrder [''Accept''] (NewTransportWithConfig plain_set_up ''chrome'' None None)"
        "''h2''" "''GET''"]
    by (simp add: Let_def get_request_def SetHeaderOrder_def)
qed

theorem auto_learns_protocol_witness:
  "\<exists>r w' t'. doAuto (test_net [] (RaceWinner ProtocolHTTP2)) (NewTransportWithConfig plain_set_up ''chrome'' None None)
       (get_request ''https://a.test/'' []) start_world = ((Inr r, w'), t') \<and>
     (\<exists>p. rs_Protocol r = Protocol_String p \<and> map_of (tr_protocolSupport t') (url_host ''https://a.test/'') = Some p)"
proof -
  let ?t = "NewTransportWithConfig plain_set_up ''chrome'' None None"
  let ?q = "get_request ''https://a.test/'' []"
  let ?nt = "test_net [] (RaceWinner ProtocolHTTP2)"
  obtain u where u: "Parse ''https://a.test/'' = Some u" "u_Scheme u = ''https''"
    using url_a_test by (auto simp: map_option_case split: option.splits)
  have fields: "map_of (tr_protocolSupport ?t) x = None" "pr_SupportHTTP3 (tr_preset ?t)" for x
    by (simp_all add: NewTransportWithConfig_def build_h3_def custom_preset_def plain_set_up_def empty_preset_def Let_def)
  define w1 where "w1 = start_world\<lparr>wd_net := (), wd_log := wd_log start_world @
      [ConnectH3 (h3_via (tr_h3 ?t)), ConnectH2 (tcp_via (tr_h2 ?t))]\<rparr>"
  obtain r w' where "doHTTP2 ?nt ?t ?q w1 = (Inr r, w')"
    using test_run_h2 [OF u, of "RaceWinner ProtocolHTTP2" ?t w1] by blast
  then have "raceH3H2 ?nt ?t ?q start_world = ((Inr r, w'), ProtocolHTTP2)"
    using u by (simp add: raceH3H2_def get_request_def h2_then_h1_def w1_def) (simp add: test_net_def Let_def h2_then_h1_def)
  then have run: "doAuto ?nt ?t ?q start_world = ((Inr r, w'), remember (url_host (rq_URL ?q)) ProtocolHTTP2 ?t)"
    using fields by (simp add: doAuto_def Let_def auto_first_def)
  moreover have "rq_URL ?q = ''https://a.test/''" by (simp add: get_request_def)
  ultimately show ?thesis
    using auto_learns_protocol [OF run fields(1)] by fastforce
qed

end
