(* ===== verification/SessionText.thy ===== *)
theory SessionText
  imports GoUrl CookieJar
begin

text \<open>
  The string functions of a session, \<open>session/session.go\<close>: splitting and trimming, the parts of
  a URL, origins, redirect targets, and the \<open>Set-Cookie\<close> parser. \<open>time.Parse\<close> depends on the
  machine's time zone names; it is the parameter \<open>parse_time\<close>, a function of layout and text.
\<close>

section \<open>Splitting and trimming\<close>

text \<open>
  \<open>string(s[i])\<close> converts a byte to the UTF-8 text of the code point with its number, which has two
  bytes from 128 on.
\<close>

definition rune_text :: "char \<Rightarrow> string" where
  "rune_text c =
     (let n = of_char c :: nat in if n < 128 then [c] else [char_of (192 + n div 64), char_of (128 + n mod 64)])"

text \<open>The loops over a separator: a last piece that is empty is dropped.\<close>

fun split_loop :: "char \<Rightarrow> string \<Rightarrow> string \<Rightarrow> string list" where
  "split_loop d current [] = (if current \<noteq> '''' then [current] else [])"
| "split_loop d current (c # s) =
     (if c = d then current # split_loop d '''' s else split_loop d (current @ rune_text c) s)"

definition splitBySemicolon :: "string \<Rightarrow> string list" where
  "splitBySemicolon s = split_loop CHR '';'' '''' s"

definition splitByComma :: "string \<Rightarrow> string list" where
  "splitByComma s = split_loop CHR '','' '''' s"

definition splitByNewline :: "string \<Rightarrow> string list" where
  "splitByNewline s = split_loop (CHR 0x0A) '''' (filter (\<lambda>c. c \<noteq> CHR 0x0D) s)"

definition blank :: "char \<Rightarrow> bool" where
  "blank c \<longleftrightarrow> c = CHR '' '' \<or> c = CHR 0x09"

definition go_trim :: "string \<Rightarrow> string" where
  "go_trim s = trim_with blank s"

text \<open>A comma followed by a blank and a digit belongs to a date.\<close>

fun split_cookies_loop :: "string \<Rightarrow> string \<Rightarrow> string list" where
  "split_cookies_loop current [] = (if current \<noteq> '''' then [go_trim current] else [])"
| "split_cookies_loop current (c # s) =
     (if c = CHR '','' then
        (if length s > 3 \<and> hd s = CHR '' '' \<and> is_digit (s ! 1)
         then split_cookies_loop (current @ '','') s
         else go_trim current # split_cookies_loop '''' s)
      else split_cookies_loop (current @ rune_text c) s)"

definition splitCookies :: "string \<Rightarrow> string list" where
  "splitCookies s = split_cookies_loop '''' s"

text \<open>\<open>parseIntSimple\<close> reads digits until the first other character, in 64-bit arithmetic.\<close>

definition int_digits :: "string \<Rightarrow> int" where
  "int_digits s = foldl (\<lambda>n c. wrap64 (n * 10 + int (digit_val c))) 0 (takeWhile is_digit s)"

definition parseIntSimple :: "string \<Rightarrow> int" where
  "parseIntSimple s =
     (if has_prefix s ''-'' then wrap64 (- int_digits (tl s)) else int_digits s)"

section \<open>Parts of a URL\<close>

definition after_scheme :: "string \<Rightarrow> string" where
  "after_scheme url = (case index_of url ''://'' of None \<Rightarrow> url | Some i \<Rightarrow> drop (i + 3) url)"

definition extractHost :: "string \<Rightarrow> string" where
  "extractHost url =
     (let rest = after_scheme url;
          host = (case index_of rest ''/'' of None \<Rightarrow> rest | Some i \<Rightarrow> take i rest) in
      if has_prefix host ''['' then
        (case index_of host '']'' of None \<Rightarrow> host | Some i \<Rightarrow> drop 1 (take i host))
      else (case index_of host '':'' of None \<Rightarrow> host | Some i \<Rightarrow> take i host))"

definition cut_before :: "char \<Rightarrow> string \<Rightarrow> string" where
  "cut_before d s = (case index_of s [d] of None \<Rightarrow> s | Some i \<Rightarrow> take i s)"

definition extractPath :: "string \<Rightarrow> string" where
  "extractPath url =
     (let rest = after_scheme url in
      case index_of rest ''/'' of
        None \<Rightarrow> ''/''
      | Some i \<Rightarrow> cut_before CHR ''#'' (cut_before CHR ''?'' (drop i rest)))"

definition isSecureURL :: "string \<Rightarrow> bool" where
  "isSecureURL url \<longleftrightarrow> has_prefix url ''https://''"

definition default_port :: "string \<Rightarrow> string" where
  "default_port scheme = (if scheme = ''https'' then ''443'' else if scheme = ''http'' then ''80'' else '''')"

definition parseOrigin :: "string \<Rightarrow> string \<times> string \<times> string" where
  "parseOrigin url =
     (case Parse url of
        None \<Rightarrow> ('''', '''', '''')
      | Some u \<Rightarrow>
          if u_Scheme u = '''' then ('''', '''', '''')
          else let scheme = to_lower (u_Scheme u) in
            (scheme, to_lower (Hostname u), if Port u = '''' then default_port scheme else Port u))"

definition sameOrigin :: "string \<Rightarrow> string \<Rightarrow> bool" where
  "sameOrigin a b \<longleftrightarrow>
     (let (as, ah, ap) = parseOrigin a; (bs, bh, bp) = parseOrigin b in
      as \<noteq> '''' \<and> bs \<noteq> '''' \<and> as = bs \<and> ah = bh \<and> ap = bp)"

definition isSchemeDowngrade :: "string \<Rightarrow> string \<Rightarrow> bool" where
  "isSchemeDowngrade a b \<longleftrightarrow> fst (parseOrigin a) = ''https'' \<and> fst (parseOrigin b) = ''http''"

definition move_query :: "URL \<Rightarrow> URL" where
  "move_query u =
     (if u_RawQuery u = '''' then
        (case index_of (u_Path u) ''?'' of
           None \<Rightarrow> u
         | Some i \<Rightarrow> u\<lparr>u_RawQuery := drop (i + 1) (u_Path u), u_Path := take i (u_Path u), u_RawPath := ''''\<rparr>)
      else u)"

definition resolveURL :: "string \<Rightarrow> string \<Rightarrow> string" where
  "resolveURL base ref =
     (if has_prefix ref ''http://'' \<or> has_prefix ref ''https://'' then ref
      else case (Parse base, Parse ref) of
          (Some b, Some r) \<Rightarrow> URL_String (ResolveReference b (move_query r))
        | _ \<Rightarrow> ref)"

definition isRedirectStatus :: "int \<Rightarrow> bool" where
  "isRedirectStatus code \<longleftrightarrow> code = 301 \<or> code = 302 \<or> code = 303 \<or> code = 307 \<or> code = 308"

lemma sameOrigin_trans: "sameOrigin a b \<Longrightarrow> sameOrigin b c \<Longrightarrow> sameOrigin a c"
  by (auto simp: sameOrigin_def split: prod.splits)

lemma sameOrigin_no_downgrade: "sameOrigin a b \<Longrightarrow> \<not> isSchemeDowngrade a b"
  by (auto simp: sameOrigin_def isSchemeDowngrade_def split: prod.splits)

section \<open>\<open>Set-Cookie\<close>\<close>

type_synonym time_parser = "string \<Rightarrow> string \<Rightarrow> time option"

definition http_date_layouts :: "string list" where
  "http_date_layouts =
     [''Mon, 02 Jan 2006 15:04:05 MST'', ''Mon, 02 Jan 2006 15:04:05 -0700'', ''Monday, 02-Jan-06 15:04:05 MST'',
      ''Mon Jan _2 15:04:05 2006'']"

definition parseHTTPDate :: "time_parser \<Rightarrow> string \<Rightarrow> time option" where
  "parseHTTPDate parse_time s =
     (case filter (\<lambda>l. parse_time l s \<noteq> None) http_date_layouts of
        [] \<Rightarrow> None | l # ls \<Rightarrow> parse_time l s)"

definition empty_cookie :: CookieData where
  "empty_cookie =
     \<lparr>cd_Name = '''', cd_Value = '''', cd_Domain = '''', cd_HostOnly = False, cd_Path = '''', cd_Expires = None,
      cd_MaxAge = 0, cd_Secure = False, cd_HttpOnly = False, cd_SameSite = '''', cd_CreatedAt = 0\<rparr>"

definition same_site :: "string \<Rightarrow> string" where
  "same_site v =
     (let l = to_lower v in
      if l = ''strict'' then ''Strict'' else if l = ''lax'' then ''Lax'' else if l = ''none'' then ''None'' else v)"

text \<open>One \<open>name=value\<close> attribute, and one attribute of the line.\<close>

definition named_attr :: "time_parser \<Rightarrow> string \<Rightarrow> string \<Rightarrow> CookieData \<Rightarrow> CookieData" where
  "named_attr parse_time attrName attrValue c =
     (if attrName = ''domain'' then c\<lparr>cd_Domain := attrValue\<rparr>
      else if attrName = ''path'' then c\<lparr>cd_Path := attrValue\<rparr>
      else if attrName = ''expires'' then
        (case parseHTTPDate parse_time attrValue of None \<Rightarrow> c | Some t \<Rightarrow> c\<lparr>cd_Expires := Some t\<rparr>)
      else if attrName = ''max-age'' then c\<lparr>cd_MaxAge := parseIntSimple attrValue\<rparr>
      else if attrName = ''samesite'' then c\<lparr>cd_SameSite := same_site attrValue\<rparr>
      else c)"

definition cookie_attr :: "time_parser \<Rightarrow> string \<Rightarrow> CookieData \<Rightarrow> CookieData" where
  "cookie_attr parse_time part c =
     (let attr = go_trim part; lower = to_lower attr in
      if attr = '''' then c
      else if lower = ''secure'' then c\<lparr>cd_Secure := True\<rparr>
      else if lower = ''httponly'' then c\<lparr>cd_HttpOnly := True\<rparr>
      else case index_of attr ''='' of
          None \<Rightarrow> c
        | Some i \<Rightarrow> named_attr parse_time (to_lower (go_trim (take i attr))) (go_trim (drop (i + 1) attr)) c)"

text \<open>One line of the header: the cookie, or nothing when it has no name.\<close>

definition parse_set_cookie :: "time_parser \<Rightarrow> string \<Rightarrow> CookieData option" where
  "parse_set_cookie parse_time line0 =
     (let line = go_trim line0; parts = splitBySemicolon line in
      case parts of
        [] \<Rightarrow> None
      | p # attrs \<Rightarrow>
          (let firstPart = go_trim p in
           case index_of firstPart ''='' of
             None \<Rightarrow> None
           | Some i \<Rightarrow>
               (let name = go_trim (take i firstPart); val = go_trim (drop (i + 1) firstPart) in
                if name = '''' then None
                else Some (fold (cookie_attr parse_time) attrs (empty_cookie\<lparr>cd_Name := name, cd_Value := val\<rparr>)))))"

section \<open>A cookie line read back\<close>

text \<open>The grammar of a \<open>Set-Cookie\<close> line, and what each attribute means.\<close>

datatype cookie_av =
    ADomain string | APath string | AMaxAge nat | ASameSite string | ASecure | AHttpOnly

fun print_av :: "cookie_av \<Rightarrow> string" where
  "print_av (ADomain d) = '' Domain='' @ d"
| "print_av (APath p) = '' Path='' @ p"
| "print_av (AMaxAge n) = '' Max-Age='' @ dec_string n"
| "print_av (ASameSite s) = '' SameSite='' @ s"
| "print_av ASecure = '' Secure''"
| "print_av AHttpOnly = '' HttpOnly''"

definition print_set_cookie :: "string \<Rightarrow> string \<Rightarrow> cookie_av list \<Rightarrow> string" where
  "print_set_cookie name v avs = join_with '';'' ((name @ ''='' @ v) # map print_av avs)"

fun mean_av :: "cookie_av \<Rightarrow> CookieData \<Rightarrow> CookieData" where
  "mean_av (ADomain d) c = c\<lparr>cd_Domain := d\<rparr>"
| "mean_av (APath p) c = c\<lparr>cd_Path := p\<rparr>"
| "mean_av (AMaxAge n) c = c\<lparr>cd_MaxAge := int n\<rparr>"
| "mean_av (ASameSite s) c = c\<lparr>cd_SameSite := same_site s\<rparr>"
| "mean_av ASecure c = c\<lparr>cd_Secure := True\<rparr>"
| "mean_av AHttpOnly c = c\<lparr>cd_HttpOnly := True\<rparr>"

definition mean_set_cookie :: "string \<Rightarrow> string \<Rightarrow> cookie_av list \<Rightarrow> CookieData" where
  "mean_set_cookie name v avs = fold mean_av avs (empty_cookie\<lparr>cd_Name := name, cd_Value := v\<rparr>)"

text \<open>Text that a line can hold: ASCII without a semicolon, and no blank at either end.\<close>

definition cookie_text :: "string \<Rightarrow> bool" where
  "cookie_text s \<longleftrightarrow> list_all (\<lambda>c. of_char c < (128::nat) \<and> c \<noteq> CHR '';'') s \<and>
     (s = [] \<or> \<not> blank (hd s) \<and> \<not> blank (last s))"

definition cookie_name :: "string \<Rightarrow> bool" where
  "cookie_name s \<longleftrightarrow> s \<noteq> '''' \<and> cookie_text s \<and> CHR ''='' \<notin> set s"

fun av_ok :: "cookie_av \<Rightarrow> bool" where
  "av_ok (ADomain d) = cookie_text d"
| "av_ok (APath p) = cookie_text p"
| "av_ok (AMaxAge n) = (n < 2 ^ 63)"
| "av_ok (ASameSite s) = cookie_text s"
| "av_ok _ = True"

lemma split_loop_piece:
  "list_all (\<lambda>c. of_char c < (128::nat) \<and> c \<noteq> d) p \<Longrightarrow>
   split_loop d current (p @ s) = split_loop d (current @ p) s"
  by (induction p arbitrary: current) (auto simp: rune_text_def Let_def)

lemma split_loop_join:
  assumes "ps \<noteq> []" "last ps \<noteq> []" "list_all (list_all (\<lambda>c. of_char c < (128::nat) \<and> c \<noteq> d)) ps"
  shows "split_loop d '''' (join_with [d] ps) = ps"
  using assms
proof (induction ps rule: list_nonempty_induct)
  case (single p)
  then show ?case using split_loop_piece [of d p "''''" "''''"] by simp
next
  case (cons p ps)
  then obtain q qs where ps: "ps = q # qs" by (cases ps) auto
  have "split_loop d '''' (join_with [d] (p # ps)) = p # split_loop d '''' (join_with [d] ps)"
    using split_loop_piece [of d p "''''"] cons.prems by (simp add: ps)
  with cons show ?case by (simp add: ps)
qed

lemma go_trim_id: "s = [] \<or> \<not> blank (hd s) \<and> \<not> blank (last s) \<Longrightarrow> go_trim s = s"
  unfolding go_trim_def by (rule trim_with_id)

lemma go_trim_text: "cookie_text s \<Longrightarrow> go_trim s = s"
  by (auto simp: cookie_text_def intro!: go_trim_id)

lemma go_trim_blank: "go_trim (CHR '' '' # s) = go_trim s"
  by (simp add: go_trim_def trim_with_def blank_def)

lemma eq_in_lower: "CHR ''='' \<in> set s \<Longrightarrow> CHR ''='' \<in> set (to_lower s)"
proof (induction s)
  case (Cons c s)
  have "lower_char CHR ''='' = CHR ''=''" by code_simp
  then show ?case using Cons by (auto simp: to_lower_def)
qed simp

lemma cookie_attr_pair:
  assumes "CHR ''='' \<notin> set k" "k \<noteq> []" "\<not> blank (hd k)" "\<not> blank (last k)" "cookie_text v"
  shows "cookie_attr parse_time (CHR '' '' # k @ CHR ''='' # v) c = named_attr parse_time (to_lower k) v c"
proof -
  let ?a = "k @ CHR ''='' # v"
  have "\<not> blank CHR ''=''" by (simp add: blank_def)
  then have trim: "go_trim (CHR '' '' # ?a) = ?a"
    using assms by (cases v) (simp_all add: go_trim_blank go_trim_id cookie_text_def)
  have eq: "CHR ''='' \<in> set (to_lower ?a)" by (rule eq_in_lower) simp
  have "CHR ''='' \<notin> set ''secure''" "CHR ''='' \<notin> set ''httponly''" by simp_all
  with eq have "to_lower ?a \<noteq> ''secure''" "to_lower ?a \<noteq> ''httponly''" by metis+
  then show ?thesis
    using assms(1,2) go_trim_id [of k] assms(3,4)
    unfolding cookie_attr_def trim Let_def by (simp add: index_of_char_append go_trim_text [OF assms(5)])
qed

lemma int_digits_dec: "n < 2 ^ 63 \<Longrightarrow> int_digits (dec_string n) = int n"
proof -
  have "foldl (\<lambda>n c. wrap64 (n * 10 + int (digit_val c))) 0 s = int (digits_val s)"
    if "digits_val s < 2 ^ 63" for s
    using that
  proof (induction s rule: rev_induct)
    case (snoc c s)
    then have "digits_val s < 2 ^ 63" by simp
    moreover have "wrap64 (int (digits_val (s @ [c]))) = int (digits_val (s @ [c]))"
      using snoc.prems by (intro wrap64_id) simp_all
    ultimately show ?case using snoc by simp
  qed simp
  moreover have "takeWhile is_digit (dec_string n) = dec_string n"
    using dec_string_digits [of n] by (metis list_all_iff takeWhile_eq_all_conv)
  ultimately show "n < 2 ^ 63 \<Longrightarrow> ?thesis" unfolding int_digits_def by (metis digits_val_dec_string)
qed

lemma parseIntSimple_dec: "n < 2 ^ 63 \<Longrightarrow> parseIntSimple (dec_string n) = int n"
  using dec_string_digits [of n] int_digits_dec [of n]
  by (cases "dec_string n") (auto simp: parseIntSimple_def is_digit_def)

lemma dec_string_text: "cookie_text (dec_string n)"
proof -
  have "is_digit c \<Longrightarrow> of_char c < (128::nat) \<and> c \<noteq> CHR '';'' \<and> \<not> blank c" for c
    by (auto simp: is_digit_def blank_def)
  then show ?thesis
    using dec_string_digits [of n] by (cases "dec_string n") (auto simp: cookie_text_def list_all_iff)
qed

lemma attr_names:
  "to_lower ''Domain'' = ''domain''" "to_lower ''Path'' = ''path''" "to_lower ''Max-Age'' = ''max-age''"
  "to_lower ''SameSite'' = ''samesite''"
  by code_simp+

lemma cookie_attr_flag:
  "cookie_attr parse_time '' Secure'' c = c\<lparr>cd_Secure := True\<rparr>"
  "cookie_attr parse_time '' HttpOnly'' c = c\<lparr>cd_HttpOnly := True\<rparr>"
proof -
  have "go_trim '' Secure'' = ''Secure''" "to_lower ''Secure'' = ''secure''"
    "go_trim '' HttpOnly'' = ''HttpOnly''" "to_lower ''HttpOnly'' = ''httponly''" by code_simp+
  then show "cookie_attr parse_time '' Secure'' c = c\<lparr>cd_Secure := True\<rparr>"
    "cookie_attr parse_time '' HttpOnly'' c = c\<lparr>cd_HttpOnly := True\<rparr>"
    unfolding cookie_attr_def Let_def by simp_all
qed

lemma cookie_attr_print: "av_ok av \<Longrightarrow> cookie_attr parse_time (print_av av) c = mean_av av c"
  using cookie_attr_pair [of "''Domain''", unfolded attr_names] cookie_attr_pair [of "''Path''", unfolded attr_names]
    cookie_attr_pair [of "''Max-Age''", unfolded attr_names] cookie_attr_pair [of "''SameSite''", unfolded attr_names]
  by (cases av) (simp_all add: blank_def dec_string_text cookie_attr_flag named_attr_def parseIntSimple_dec)

lemma cookie_attrs_print:
  "list_all av_ok avs \<Longrightarrow> fold (cookie_attr parse_time) (map print_av avs) c = fold mean_av avs c"
  by (induction avs arbitrary: c) (simp_all add: cookie_attr_print)

lemma print_av_piece:
  "av_ok av \<Longrightarrow> list_all (\<lambda>c. of_char c < (128::nat) \<and> c \<noteq> CHR '';'') (print_av av) \<and> print_av av \<noteq> [] \<and>
   \<not> blank (last (print_av av))"
  using dec_string_text [of "case av of AMaxAge n \<Rightarrow> n | _ \<Rightarrow> 0"]
  by (cases av) (auto simp: cookie_text_def blank_def split: if_splits)

lemma set_cookie_read:
  assumes "cookie_name name" "cookie_text v" "list_all av_ok avs"
  shows "parse_set_cookie parse_time (print_set_cookie name v avs) = Some (mean_set_cookie name v avs)"
proof -
  let ?p = "name @ CHR ''='' # v" and ?line = "print_set_cookie name v avs"
  let ?ps = "?p # map print_av avs"
  have line: "?line = join_with '';'' ?ps" by (simp add: print_set_cookie_def)
  have not_blank: "\<not> blank CHR ''=''" by (simp add: blank_def)
  have pieces: "list_all (list_all (\<lambda>c. of_char c < (128::nat) \<and> c \<noteq> CHR '';'')) ?ps"
    using assms print_av_piece by (auto simp: cookie_name_def cookie_text_def list_all_iff)
  have first: "go_trim ?p = ?p" "hd ?p = hd name" "\<not> blank (hd name)" "\<not> blank (last ?p)"
    using assms(1,2) not_blank by (cases v; auto simp: cookie_name_def cookie_text_def intro!: go_trim_id)+
  have last: "last ?ps \<noteq> []" "\<not> blank (last (last ?ps))"
    using first(4) assms(3) print_av_piece [of "last avs"] by (auto simp: last_map list_all_iff)
  have ends: "?line \<noteq> []" "hd ?line = hd name" "last ?line = last (last ?ps)"
  proof -
    have "join_with [d] (q # qs) \<noteq> [] \<and> hd (join_with [d] (q # qs)) = hd q \<and>
        (last (q # qs) \<noteq> [] \<longrightarrow> last (join_with [d] (q # qs)) = last (last (q # qs)))" if "q \<noteq> []" for d q and qs :: "string list"
      using that
    proof (induction qs arbitrary: q rule: list.induct)
      case (Cons x xs)
      then show ?case by (cases "x = []"; cases xs) auto
    qed simp
    then show "?line \<noteq> []" "hd ?line = hd name" "last ?line = last (last ?ps)"
      using first last assms(1) unfolding line by (auto simp: cookie_name_def)
  qed
  have "go_trim ?line = ?line" using ends first(3) last(2) by (intro go_trim_id) simp
  moreover have "splitBySemicolon ?line = ?ps"
    unfolding splitBySemicolon_def line using split_loop_join [OF _ last(1) pieces] by simp
  moreover have "index_of ?p ''='' = Some (length name)" "go_trim name = name" "go_trim v = v"
    using assms(1,2) by (auto simp: cookie_name_def index_of_char_append go_trim_text)
  ultimately show ?thesis
    using assms(1,3) first(1)
    by (simp add: parse_set_cookie_def Let_def mean_set_cookie_def cookie_attrs_print cookie_name_def)
qed

text \<open>
  \<open>Set-Cookie\<close> lines are read as RFC 6265 writes them: for every name, value and list of
  attributes that a line can hold in ASCII, parsing the printed line gives the cookie with that
  name, that value (inner equals signs included) and exactly those attributes, a later attribute
  overriding an earlier one, and \<open>Max-Age\<close> as the number it denotes.\<close>

theorem set_cookie_roundtrip:
  assumes "cookie_name name" "cookie_text v" "list_all av_ok avs"
  shows "parse_set_cookie parse_time (print_set_cookie name v avs) = Some (mean_set_cookie name v avs)"
  using assms by (rule set_cookie_read)

theorem set_cookie_roundtrip_witness:
  "parse_set_cookie (\<lambda>l s. None) ''sid=a=b; Domain=x.test; Max-Age=60; Secure'' =
     Some (empty_cookie\<lparr>cd_Name := ''sid'', cd_Value := ''a=b'', cd_Domain := ''x.test'', cd_MaxAge := 60, cd_Secure := True\<rparr>)"
proof -
  have "print_set_cookie ''sid'' ''a=b'' [ADomain ''x.test'', AMaxAge 60, ASecure] = ''sid=a=b; Domain=x.test; Max-Age=60; Secure''"
    "mean_set_cookie ''sid'' ''a=b'' [ADomain ''x.test'', AMaxAge 60, ASecure] =
      empty_cookie\<lparr>cd_Name := ''sid'', cd_Value := ''a=b'', cd_Domain := ''x.test'', cd_MaxAge := 60, cd_Secure := True\<rparr>"
    by code_simp+
  moreover have "cookie_name ''sid''" "cookie_text ''a=b''" "list_all av_ok [ADomain ''x.test'', AMaxAge 60, ASecure]"
    by (simp_all add: cookie_name_def cookie_text_def blank_def)
  ultimately show ?thesis
    using set_cookie_roundtrip [of "''sid''" "''a=b''" "[ADomain ''x.test'', AMaxAge 60, ASecure]" "\<lambda>l s. None"] by simp
qed

text \<open>
  Outside ASCII the value is not kept: each byte from 128 on becomes two, so that the letter e
  with an acute accent, bytes C3 A9, comes back as four bytes.\<close>

lemma cookie_value_reencoded:
  "map_option cd_Value (parse_set_cookie (\<lambda>l s. None) (''a='' @ [CHR 0xC3, CHR 0xA9])) =
     Some [CHR 0xC3, CHR 0x83, CHR 0xC2, CHR 0xA9]"
  by code_simp

section \<open>Which host a URL names\<close>

text \<open>
  The session finds the host of a URL by cutting strings, the transport with \<open>url.Parse\<close>. They
  agree on plain URLs: scheme, host name, optional port, then nothing or a path.
\<close>

definition host_char :: "char \<Rightarrow> bool" where
  "host_char c \<longleftrightarrow> is_alpha c \<or> is_digit c \<or> c = CHR ''-'' \<or> c = CHR ''.''"

definition plain_url :: "string \<Rightarrow> string \<Rightarrow> string \<Rightarrow> string \<Rightarrow> bool" where
  "plain_url scheme host port rest \<longleftrightarrow>
     scheme \<in> {''http'', ''https''} \<and> list_all host_char host \<and> validOptionalPort port \<and>
     (rest = '''' \<or> has_prefix rest ''/'')"

lemma host_char_not:
  "host_char c \<Longrightarrow> c \<notin> {CHR '':'', CHR ''/'', CHR ''['', CHR ''@'', CHR ''%'', CHR ''?'', CHR ''#''}"
  by (auto simp: host_char_def is_alpha_def is_digit_def Let_def)

lemma authority_chars:
  assumes "list_all host_char host" "validOptionalPort port"
  shows "set (host @ port) \<inter> {CHR ''/'', CHR ''['', CHR ''@'', CHR ''%'', CHR ''?'', CHR ''#''} = {}" "CHR '':'' \<notin> set host"
    "\<forall>c \<in> set (host @ port). host_char c \<or> c = CHR '':''"
proof -
  have port: "\<forall>c \<in> set port. host_char c \<or> c = CHR '':''"
    using assms(2) by (cases port) (auto simp: validOptionalPort_def list_all_iff host_char_def)
  have host: "\<forall>c \<in> set host. host_char c" using assms(1) by (simp add: list_all_iff)
  show "CHR '':'' \<notin> set host" using host host_char_not by blast
  show all: "\<forall>c \<in> set (host @ port). host_char c \<or> c = CHR '':''" using port host by auto
  have "c \<notin> {CHR ''/'', CHR ''['', CHR ''@'', CHR ''%'', CHR ''?'', CHR ''#''}" if "host_char c \<or> c = CHR '':''" for c
    using that host_char_not [of c] by auto
  then show "set (host @ port) \<inter> {CHR ''/'', CHR ''['', CHR ''@'', CHR ''%'', CHR ''?'', CHR ''#''} = {}"
    using all by blast
qed

lemma unescape_plain:
  assumes "\<forall>c \<in> set s. host_char c \<or> c = CHR '':''"
  shows "unescape EncHost s = Some s"
  using assms
proof (induction s)
  case (Cons c s)
  have "c \<noteq> CHR ''%''" "\<not> shouldEscape c EncHost"
    using Cons.prems host_char_not [of c] by (auto simp: shouldEscape_def host_char_def)
  then show ?case using Cons by simp
qed simp

lemma parseAuthority_plain:
  assumes "list_all host_char host" "validOptionalPort port"
  shows "parseAuthority (host @ port) = Some (None, host @ port)"
proof -
  note chars = authority_chars [OF assms]
  have none: "last_index_of (host @ port) ''['' = None" "last_index_of (host @ port) ''@'' = None"
    using chars(1) by (auto simp: last_index_of_char_None)
  have "validOptionalPort (drop i (host @ port))" if "index_of (host @ port) '':'' = Some i" for i
  proof (cases port)
    case Nil
    then show ?thesis using that chars(2) index_of_char_None [of host "CHR '':''"] by simp
  next
    case (Cons c cs)
    then have "index_of (host @ port) '':'' = Some (length host)"
      using assms(2) chars(2) by (auto simp: validOptionalPort_def index_of_char_append)
    then show ?thesis using that assms(2) by simp
  qed
  then have "parseHost (host @ port) = Some (host @ port)"
    using unescape_plain [OF chars(3)] by (simp add: parseHost_def none split: option.split)
  then show ?thesis by (simp add: parseAuthority_def none)
qed

lemma Hostname_plain:
  assumes "list_all host_char host" "validOptionalPort port" "u_Host u = host @ port"
  shows "Hostname u = host"
proof -
  note chars = authority_chars [OF assms(1,2)]
  have bracket: "\<not> has_prefix host ''[''"
    using chars(1) by (cases host) auto
  show ?thesis
  proof (cases port)
    case Nil
    then show ?thesis
      using chars(2) bracket by (simp add: Hostname_def split_host_port_def assms(3) last_index_of_char_None [THEN iffD2])
  next
    case (Cons c cs)
    then have "c = CHR '':''" "list_all is_digit cs" "CHR '':'' \<notin> set cs"
      using assms(2) by (auto simp: validOptionalPort_def digit_not_in is_digit_def)
    then show ?thesis
      using bracket Cons assms(2) last_index_of_char_append [of "CHR '':''" cs host]
      by (simp add: Hostname_def split_host_port_def assms(3))
  qed
qed

lemma cut_at_after: "d \<notin> set s \<Longrightarrow> fst (cut_at d (s @ t)) = s @ fst (cut_at d t)"
  by (induction s) (auto simp: cut_at_def split: option.splits)

lemma split_query_after:
  assumes "CHR ''?'' \<notin> set s" "t = '''' \<or> has_prefix t ''/''"
  shows "\<exists>t' u'. split_query (s @ t) u = (s @ t', u') \<and> (t' = '''' \<or> has_prefix t' ''/'') \<and> u_Scheme u' = u_Scheme u"
proof (cases "has_suffix (s @ t) ''?'' \<and> CHR ''?'' \<notin> set (butlast (s @ t))")
  case True
  then have "t \<noteq> ''''" using assms(1) by (cases s rule: rev_cases) (auto simp: has_suffix_def)
  then have "butlast (s @ t) = s @ butlast t" by (simp add: butlast_append)
  moreover have "butlast t = '''' \<or> has_prefix (butlast t) ''/''" using assms(2) \<open>t \<noteq> ''''\<close> by (cases t) auto
  ultimately show ?thesis using True by (simp add: split_query_def)
next
  case False
  have "fst (cut_at CHR ''?'' t) = '''' \<or> has_prefix (fst (cut_at CHR ''?'' t)) ''/''"
    using assms(2) by (cases t) (auto simp: cut_at_def split: option.split)
  then show ?thesis using False by (auto simp: split_query_def cut_at_after [OF assms(1)])
qed

lemma setPath_host: "setPath p u = Some u' \<Longrightarrow> u_Host u' = u_Host u"
  by (auto simp: setPath_def split: option.splits)

lemma parse_no_fragment_plain:
  assumes "scheme \<in> {''http'', ''https''}" "list_all host_char host" "validOptionalPort port" "t = '''' \<or> has_prefix t ''/''"
    and "parse_no_fragment (scheme @ ''://'' @ host @ port @ t) = Some u"
  shows "u_Host u = host @ port"
proof -
  note chars = authority_chars [OF assms(2,3)]
  let ?s = "''//'' @ host @ port"
  have q: "CHR ''?'' \<notin> set ?s" using chars(1) by auto
  have scheme: "getScheme (scheme @ ''://'' @ host @ port @ t) = Some (scheme, ?s @ t)" "to_lower scheme = scheme"
    using assms(1) by (auto simp: getScheme_def is_alpha_def is_digit_def lower_char_def)
  obtain t' u0 where split: "split_query (?s @ t) (empty_url\<lparr>u_Scheme := scheme\<rparr>) = (?s @ t', u0)"
    and t': "t' = '''' \<or> has_prefix t' ''/''" and u0: "u_Scheme u0 = scheme"
    using split_query_after [OF q assms(4), of "empty_url\<lparr>u_Scheme := scheme\<rparr>"] by auto
  have "scheme @ ''://'' @ host @ port @ t \<noteq> ''*''" using assms(1) by auto
  with assms(5) have rest: "parse_rest (?s @ t') u0 = Some u"
    using split scheme(2) unfolding parse_no_fragment_def scheme(1) by (auto split: if_splits)
  have "(case index_of ((host @ port) @ t') ''/'' of None \<Rightarrow> length ((host @ port) @ t') | Some i \<Rightarrow> i) = length (host @ port)"
  proof (cases t')
    case Nil
    then show ?thesis using chars(1) by (auto simp: index_of_char_None [THEN iffD2])
  next
    case (Cons c cs)
    then have "c = CHR ''/''" using t' by simp
    then show ?thesis using chars(1) Cons index_of_char_append [of "CHR ''/''" "host @ port" cs] by auto
  qed
  then have idx: "(case index_of (host @ port @ t') ''/'' of None \<Rightarrow> length (host @ port @ t') | Some i \<Rightarrow> i) = length (host @ port)"
    by (simp only: append_assoc)
  have drop2: "drop 2 (?s @ t') = host @ port @ t'" by simp
  have "scheme \<noteq> ''''" using assms(1) by auto
  with rest show ?thesis
    using parseAuthority_plain [OF assms(2,3)] unfolding parse_rest_def u0 Let_def drop2 idx
    by (auto dest!: setPath_host)
qed

lemma setFragment_host: "setFragment f u = Some u' \<Longrightarrow> u_Host u' = u_Host u"
  by (auto simp: setFragment_def split: option.splits)

lemma after_scheme_plain:
  "scheme \<in> {''http'', ''https''} \<Longrightarrow> after_scheme (scheme @ ''://'' @ s) = s"
  by (auto simp: after_scheme_def)

text \<open>
  The host that cookies, hints and cache entries are kept under is the host the request goes
  to: on every plain URL that \<open>url.Parse\<close> accepts, whatever its port, path, query and
  fragment, cutting the string finds exactly the \<open>Hostname\<close> of the parsed URL.\<close>

theorem session_host_agrees:
  assumes "plain_url scheme host port rest" "Parse (scheme @ ''://'' @ host @ port @ rest) = Some u"
  shows "extractHost (scheme @ ''://'' @ host @ port @ rest) = Hostname u \<and> Hostname u = host"
proof -
  note p = assms(1) [unfolded plain_url_def]
  have scheme: "scheme \<in> {''http'', ''https''}" and hp: "list_all host_char host" "validOptionalPort port"
    and rest: "rest = '''' \<or> has_prefix rest ''/''" using p by auto
  note chars = authority_chars [OF hp]
  let ?s = "scheme @ ''://'' @ host @ port"
  have hash: "CHR ''#'' \<notin> set ?s" using chars(1) scheme by auto
  obtain body frag where cut: "cut_at CHR ''#'' (?s @ rest) = (body, frag)" by fastforce
  have body: "body = ?s @ fst (cut_at CHR ''#'' rest)" using cut_at_after [OF hash, of rest] cut by simp
  have t: "fst (cut_at CHR ''#'' rest) = '''' \<or> has_prefix (fst (cut_at CHR ''#'' rest)) ''/''"
    using rest by (cases rest) (auto simp: cut_at_def split: option.split)
  obtain u0 where u0: "parse_no_fragment body = Some u0" "u_Host u = u_Host u0"
    using assms(2) cut by (auto simp: Parse_def setFragment_host split: option.splits if_splits)
  have "u_Host u = host @ port"
    using parse_no_fragment_plain [OF scheme hp t, of u0] u0 body by simp
  then have "Hostname u = host" by (rule Hostname_plain [OF hp])
  moreover have "extractHost (scheme @ ''://'' @ host @ port @ rest) = host"
  proof -
    let ?h = "case index_of ((host @ port) @ rest) ''/'' of None \<Rightarrow> (host @ port) @ rest | Some i \<Rightarrow> take i ((host @ port) @ rest)"
    have h: "?h = host @ port"
    proof (cases rest)
      case Nil
      then show ?thesis using chars(1) by (auto simp: index_of_char_None [THEN iffD2])
    next
      case (Cons c cs)
      then have "c = CHR ''/''" using rest by simp
      then show ?thesis using chars(1) Cons index_of_char_append [of "CHR ''/''" "host @ port" cs] by auto
    qed
    have bracket: "\<not> has_prefix (host @ port) ''[''"
      using chars(1) by (cases "host @ port") auto
    have "(case index_of (host @ port) '':'' of None \<Rightarrow> host @ port | Some i \<Rightarrow> take i (host @ port)) = host"
    proof (cases port)
      case (Cons c cs)
      then have "c = CHR '':''" using hp(2) by (simp add: validOptionalPort_def)
      then show ?thesis using Cons index_of_char_append [OF chars(2)] by simp
    qed (use chars(2) in \<open>simp add: index_of_char_None [THEN iffD2]\<close>)
    moreover have "after_scheme (scheme @ ''://'' @ host @ port @ rest) = (host @ port) @ rest"
      using after_scheme_plain [OF scheme, of "(host @ port) @ rest"] by simp
    ultimately show ?thesis using bracket unfolding extractHost_def Let_def by (simp only: h if_False)
  qed
  ultimately show ?thesis by simp
qed

theorem session_host_agrees_witness:
  "\<exists>u. Parse ''https://a.test:8443/x?y#z'' = Some u \<and> extractHost ''https://a.test:8443/x?y#z'' = Hostname u"
proof -
  have "plain_url ''https'' ''a.test'' '':8443'' ''/x?y#z''" "Parse ''https://a.test:8443/x?y#z'' \<noteq> None" by code_simp+
  then obtain u where "plain_url ''https'' ''a.test'' '':8443'' ''/x?y#z''" "Parse ''https://a.test:8443/x?y#z'' = Some u" by auto
  then show ?thesis using session_host_agrees [of "''https''" "''a.test''" "'':8443''" "''/x?y#z''" u] by simp
qed

text \<open>
  Outside them they do not agree. With user information the session takes the user for the host;
  without a path it takes the query for a part of it.\<close>

lemma host_confused:
  "map_option Hostname (Parse ''https://bank.test:x@evil.test/'') = Some ''evil.test''"
  "extractHost ''https://bank.test:x@evil.test/'' = ''bank.test''"
  "map_option Hostname (Parse ''https://evil.test?.bank.test/'') = Some ''evil.test''"
  "extractHost ''https://evil.test?.bank.test/'' = ''evil.test?.bank.test''"
  by code_simp+

definition bank_jar :: jar where
  "bank_jar =
     (case parse_set_cookie (\<lambda>l s. None) ''sid=1; Domain=bank.test'' of
        None \<Rightarrow> NewCookieJar
      | Some c \<Rightarrow> jar_Set 1 (extractHost ''https://bank.test/'') c True NewCookieJar)"

definition sent_cookies :: "string \<Rightarrow> jar \<Rightarrow> string" where
  "sent_cookies url j = BuildCookieHeader 2 (extractHost url) (extractPath url) (isSecureURL url) j"

text \<open>CX.
  Cookies of one site can be sent to another through the address of the request. A cookie that
  \<open>bank.test\<close> sets for its own domain is attached to requests for
  \<open>https://bank.test:x@evil.test/\<close> and \<open>https://evil.test?.bank.test/\<close>, both of which go to
  \<open>evil.test\<close>; a redirect can name such an address.\<close>

theorem cookies_sent_elsewhere:
  "sent_cookies ''https://bank.test:x@evil.test/'' bank_jar = ''sid=1'' \<and>
   sent_cookies ''https://evil.test?.bank.test/'' bank_jar = ''sid=1'' \<and>
   sent_cookies ''https://evil.test/'' bank_jar = '''' \<and>
   map_option Hostname (Parse ''https://bank.test:x@evil.test/'') = Some ''evil.test'' \<and>
   map_option Hostname (Parse ''https://evil.test?.bank.test/'') = Some ''evil.test''"
  by code_simp

end
