(* ===== verification/Session.thy ===== *)
theory Session
  imports SessionText Transport
begin

text \<open>
  A session, \<open>session/session.go\<close>: \<open>requestWithRedirects\<close> with its cookies, cache validators,
  client hints, retries and redirects, the setters, and the parts of a session that are saved.
  The transport is the one of theory \<open>Transport\<close>. The cookie jar is a component of its own beside
  the session, since forked sessions share it. The mutex is released while the transport works;
  the model runs one request at a time.
\<close>

section \<open>Configuration and state\<close>

record AuthConfig =
  au_Type :: string
  au_Username :: string
  au_Password :: string
  au_Token :: string

text \<open>No code of the session reads \<open>BaseURL\<close>, \<open>Timeout\<close>, \<open>DisableKeepAlives\<close> and \<open>Auth\<close>.\<close>

record SessionConfig =
  cf_Preset :: string
  cf_BaseURL :: string
  cf_Proxy :: string
  cf_TCPProxy :: string
  cf_UDPProxy :: string
  cf_Timeout :: int
  cf_FollowRedirects :: bool
  cf_MaxRedirects :: int
  cf_RetryEnabled :: bool
  cf_MaxRetries :: int
  cf_RetryWaitMin :: int
  cf_RetryWaitMax :: int
  cf_RetryOnStatus :: "int list"
  cf_InsecureSkipVerify :: bool
  cf_DisableKeepAlives :: bool
  cf_DisableHTTP3 :: bool
  cf_ForceHTTP1 :: bool
  cf_ForceHTTP2 :: bool
  cf_ForceHTTP3 :: bool
  cf_PreferIPv4 :: bool
  cf_LocalAddress :: string
  cf_ConnectTo :: "(string, string) gomap"
  cf_ECHConfigDomain :: string
  cf_TLSOnly :: bool
  cf_QuicIdleTimeout :: int
  cf_KeyLogFile :: string
  cf_DisableECH :: bool
  cf_EnableSpeculativeTLS :: bool
  cf_SwitchProtocol :: string
  cf_WithoutCookieJar :: bool
  cf_Auth :: "AuthConfig option"

record cacheEntry =
  ce_etag :: string
  ce_lastModified :: string

record session =
  ss_ID :: string
  ss_CreatedAt :: time
  ss_LastUsed :: time
  ss_RequestCount :: int
  ss_Config :: SessionConfig
  ss_transport :: transport
  ss_cacheEntries :: "(string, cacheEntry) gomap"
  ss_clientHints :: "(string, string list) gomap"
  ss_refreshed :: bool
  ss_switchProtocol :: Protocol
  ss_active :: bool

text \<open>
  What a session asks of its surroundings: the network, the clock, a wait that the caller's
  context may end, random numbers and \<open>time.Parse\<close>.
\<close>

record 'w surroundings =
  su_net :: "'w net"
  su_now :: "'w \<Rightarrow> time"
  su_wait :: "duration \<Rightarrow> 'w \<Rightarrow> go_error option \<times> 'w"
  su_rand :: "'w \<Rightarrow> int \<times> 'w"
  su_time :: time_parser

text \<open>\<open>sx_sent\<close> records the requests handed to the transport; the program does not read it.\<close>

record 'w state =
  sx_session :: session
  sx_jar :: jar
  sx_world :: "'w world"
  sx_sent :: "request list"

definition ErrSessionClosed :: go_error where
  "ErrSessionClosed = TextError ''session is closed''"

section \<open>What a response leaves behind\<close>

definition extractCookies :: "time_parser \<Rightarrow> time \<Rightarrow> header \<Rightarrow> string \<Rightarrow> jar \<Rightarrow> jar" where
  "extractCookies parse_time now headers requestURL j =
     (let lines = (case map_of headers ''set-cookie'' of Some vs \<Rightarrow> vs | None \<Rightarrow> hvalues headers ''Set-Cookie'') in
      fold (\<lambda>line j.
          case parse_set_cookie parse_time line of
            None \<Rightarrow> j
          | Some c \<Rightarrow> jar_Set now (extractHost requestURL) c (isSecureURL requestURL) j) lines j)"

definition either_header :: "header \<Rightarrow> string \<Rightarrow> string \<Rightarrow> string" where
  "either_header h k1 k2 = or_default (first_value h k1) (first_value h k2)"

definition storeCacheHeaders :: "string \<Rightarrow> header \<Rightarrow> session \<Rightarrow> session" where
  "storeCacheHeaders url headers s =
     (let etag = either_header headers ''etag'' ''ETag'';
          lastModified = either_header headers ''last-modified'' ''Last-Modified'' in
      if etag = '''' \<and> lastModified = '''' then s
      else s\<lparr>ss_cacheEntries := AList.update url \<lparr>ce_etag = etag, ce_lastModified = lastModified\<rparr> (ss_cacheEntries s)\<rparr>)"

definition accepted_hints :: "string \<Rightarrow> string list" where
  "accepted_hints acceptCH =
     remdups (filter (\<lambda>h. h \<noteq> '''') (map (\<lambda>h. go_trim (to_lower h)) (splitByComma acceptCH)))"

definition parseAcceptCH :: "string \<Rightarrow> header \<Rightarrow> session \<Rightarrow> session" where
  "parseAcceptCH host headers s =
     (let acceptCH = either_header headers ''accept-ch'' ''Accept-CH''; hints = accepted_hints acceptCH in
      if acceptCH = '''' \<or> hints = [] then s
      else s\<lparr>ss_clientHints := AList.update host hints (ss_clientHints s)\<rparr>)"

section \<open>What a request carries\<close>

record platformInfo =
  pi_Arch :: string
  pi_Bitness :: string
  pi_FullVersionList :: string
  pi_Model :: string
  pi_PlatformVersion :: string
  pi_Wow64 :: string

definition quoted :: "string \<Rightarrow> string" where
  "quoted s = [CHR 0x22] @ s @ [CHR 0x22]"

definition brands :: "(string \<times> string) list \<Rightarrow> string" where
  "brands bs = join_with '', '' (map (\<lambda>(b, v). quoted b @ '';v='' @ quoted v) bs)"

definition full_version_list :: "string \<Rightarrow> string" where
  "full_version_list name =
     (if contains name ''chrome-131''
      then brands [(''Google Chrome'', ''131.0.6778.86''), (''Chromium'', ''131.0.6778.86''), (''Not_A Brand'', ''24.0.0.0'')]
      else if contains name ''chrome-133''
      then brands [(''Google Chrome'', ''133.0.6943.98''), (''Chromium'', ''133.0.6943.98''), (''Not_A Brand'', ''24.0.0.0'')]
      else if contains name ''chrome-141''
      then brands [(''Google Chrome'', ''141.0.7254.112''), (''Chromium'', ''141.0.7254.112''), (''Not_A Brand'', ''24.0.0.0'')]
      else if contains name ''chrome-143''
      then brands [(''Google Chrome'', ''143.0.7312.86''), (''Chromium'', ''143.0.7312.86''), (''Not A(Brand'', ''24.0.0.0'')]
      else if contains name ''chrome-144''
      then brands [(''Not(A:Brand'', ''8.0.0.0''), (''Chromium'', ''144.0.7559.132''), (''Google Chrome'', ''144.0.7559.132'')]
      else brands [(''Not:A-Brand'', ''99.0.0.0''), (''Google Chrome'', ''145.0.7632.75''), (''Chromium'', ''145.0.7632.75'')])"

definition session_preset :: "SessionConfig \<Rightarrow> string" where
  "session_preset cfg = or_default (cf_Preset cfg) ''chrome-latest''"

definition getPlatform :: "session \<Rightarrow> platformInfo" where
  "getPlatform s =
     (let name = session_preset (ss_Config s) in
      \<lparr>pi_Arch = quoted ''x86'', pi_Bitness = quoted ''64'', pi_FullVersionList = full_version_list name,
       pi_Model = quoted '''',
       pi_PlatformVersion = (if contains name ''windows'' then quoted ''15.0.0''
         else if contains name ''macos'' then quoted ''14.5.0'' else quoted ''6.5.0''),
       pi_Wow64 = ''?0''\<rparr>)"

definition hint_values :: "platformInfo \<Rightarrow> (string \<times> string \<times> string) list" where
  "hint_values p =
     [(''sec-ch-ua-arch'', ''Sec-Ch-Ua-Arch'', pi_Arch p),
      (''sec-ch-ua-bitness'', ''Sec-Ch-Ua-Bitness'', pi_Bitness p),
      (''sec-ch-ua-full-version-list'', ''Sec-Ch-Ua-Full-Version-List'', pi_FullVersionList p),
      (''sec-ch-ua-model'', ''Sec-Ch-Ua-Model'', pi_Model p),
      (''sec-ch-ua-platform-version'', ''Sec-Ch-Ua-Platform-Version'', pi_PlatformVersion p),
      (''sec-ch-ua-wow64'', ''Sec-Ch-Ua-Wow64'', pi_Wow64 p)]"

definition put_header :: "string \<Rightarrow> string \<Rightarrow> header \<Rightarrow> header" where
  "put_header k v h = AList.update k [v] h"

definition applyClientHints :: "session \<Rightarrow> string \<Rightarrow> header \<Rightarrow> header" where
  "applyClientHints s host h =
     (case map_of (ss_clientHints s) host of
        None \<Rightarrow> h
      | Some hints \<Rightarrow>
          if hints = [] then h
          else fold (\<lambda>(name, header, v) h. if name \<in> set hints \<and> v \<noteq> '''' then put_header header v h else h)
                 (hint_values (getPlatform s)) h)"

text \<open>The block under the mutex at the start of a request: usage, refresh and cache validators.\<close>

definition begin_request :: "time \<Rightarrow> session \<Rightarrow> session" where
  "begin_request now s = s\<lparr>ss_LastUsed := now, ss_RequestCount := ss_RequestCount s + 1\<rparr>"

definition validator_headers :: "session \<Rightarrow> string \<Rightarrow> header \<Rightarrow> header" where
  "validator_headers s url h0 =
     (let h = (if ss_refreshed s then put_header ''cache-control'' ''max-age=0'' h0 else h0) in
      case map_of (ss_cacheEntries s) url of
        None \<Rightarrow> h
      | Some e \<Rightarrow>
          (let h1 = (if ce_etag e \<noteq> '''' then put_header ''If-None-Match'' (ce_etag e) h else h) in
           if ce_lastModified e \<noteq> '''' then put_header ''If-Modified-Since'' (ce_lastModified e) h1 else h1))"

definition cookie_headers :: "string \<Rightarrow> string \<Rightarrow> header \<Rightarrow> header" where
  "cookie_headers origCookie sessionCookies h =
     (if sessionCookies \<noteq> '''' then
        (if origCookie \<noteq> '''' then put_header ''Cookie'' (origCookie @ ''; '' @ sessionCookies) h
         else put_header ''Cookie'' sessionCookies h)
      else if origCookie \<noteq> '''' then put_header ''Cookie'' origCookie h else h)"

section \<open>Retries\<close>

record retry_plan =
  rt_max :: int
  rt_waitMin :: duration
  rt_waitMax :: duration
  rt_status :: "int list"

definition millisecond :: duration where
  "millisecond = 1000000"

definition retry_plan_of :: "SessionConfig \<Rightarrow> retry_plan" where
  "retry_plan_of cfg =
     (if cf_RetryEnabled cfg \<and> cf_MaxRetries cfg > 0
      then \<lparr>rt_max = cf_MaxRetries cfg,
            rt_waitMin = (if cf_RetryWaitMin cfg > 0 then wrap64 (cf_RetryWaitMin cfg * millisecond) else 500 * millisecond),
            rt_waitMax = (if cf_RetryWaitMax cfg > 0 then wrap64 (cf_RetryWaitMax cfg * millisecond) else 10 * second),
            rt_status = (if cf_RetryOnStatus cfg \<noteq> [] then cf_RetryOnStatus cfg else [429, 500, 502, 503, 504])\<rparr>
      else \<lparr>rt_max = 0, rt_waitMin = 500 * millisecond, rt_waitMax = 10 * second, rt_status = []\<rparr>)"

text \<open>
  \<open>time.Duration(float64(w) * 0.25)\<close>: the conversion truncates towards zero. It is exact for
  durations up to 2^53 nanoseconds, 104 days; the rounding of longer ones is not modelled.
\<close>

definition quarter :: "int \<Rightarrow> int" where
  "quarter x = (if x \<ge> 0 then x div 4 else - ((- x) div 4))"

text \<open>\<open>retryWaitMin * time.Duration(1<<uint(attempt))\<close>, capped, in 64-bit arithmetic.\<close>

definition backoff :: "retry_plan \<Rightarrow> nat \<Rightarrow> duration" where
  "backoff p attempt =
     (let w = wrap64 (rt_waitMin p * wrap64 (2 ^ attempt)) in if w > rt_waitMax p then rt_waitMax p else w)"

text \<open>\<open>randInt64\<close> of a random 63-bit number \<open>v\<close>, and the wait with its jitter.\<close>

definition randInt64 :: "int \<Rightarrow> int \<Rightarrow> int" where
  "randInt64 v n = (if n \<le> 0 then 0 else v mod n)"

definition jittered :: "int \<Rightarrow> duration \<Rightarrow> duration" where
  "jittered v w = wrap64 (w - quarter w + randInt64 v (wrap64 (quarter w * 2)))"

definition should_retry :: "retry_plan \<Rightarrow> (go_error + response) \<Rightarrow> bool" where
  "should_retry p res = (case res of Inl e \<Rightarrow> True | Inr r \<Rightarrow> rs_StatusCode r \<in> set (rt_status p))"

definition learn_response :: "'w surroundings \<Rightarrow> string \<Rightarrow> header \<Rightarrow> 'w state \<Rightarrow> 'w state" where
  "learn_response su url hs st =
     st\<lparr>sx_jar := (if cf_WithoutCookieJar (ss_Config (sx_session st)) then sx_jar st
                    else extractCookies (su_time su) (su_now su (wd_net (sx_world st))) hs url (sx_jar st)),
        sx_session := parseAcceptCH (extractHost url) hs (sx_session st)\<rparr>"

definition learn_result :: "'w surroundings \<Rightarrow> string \<Rightarrow> (go_error + response) \<Rightarrow> 'w state \<Rightarrow> 'w state" where
  "learn_result su url res st = (case res of Inl e \<Rightarrow> st | Inr r \<Rightarrow> learn_response su url (rs_Headers r) st)"

text \<open>One attempt: cookies, hints, the transport. The result has the headers as they were left.\<close>

definition attempt_once ::
  "'w surroundings \<Rightarrow> request \<Rightarrow> string \<Rightarrow> 'w state \<Rightarrow> (go_error + response) \<times> header \<times> 'w state" where
  "attempt_once su req origCookie st =
     (let s = sx_session st; url = rq_URL req;
          h1 = (if cf_WithoutCookieJar (ss_Config s) then rq_Headers req
                else cookie_headers origCookie
                       (BuildCookieHeader (su_now su (wd_net (sx_world st))) (extractHost url) (extractPath url)
                          (isSecureURL url) (sx_jar st)) (rq_Headers req));
          h2 = applyClientHints s (extractHost url) h1;
          req2 = req\<lparr>rq_Headers := h2\<rparr>;
          ((res, w'), t') = Transport_Do (su_net su) (ss_transport s) req2 (sx_world st)
      in (res, h2, st\<lparr>sx_session := s\<lparr>ss_transport := t'\<rparr>, sx_world := w', sx_sent := sx_sent st @ [req2]\<rparr>))"

text \<open>
  The loop over the attempts; \<open>left\<close> is the number of retries left. It ends with the last result,
  or with the error of the caller's context when that ends during a wait.
\<close>

fun attempt_loop ::
  "'w surroundings \<Rightarrow> retry_plan \<Rightarrow> string \<Rightarrow> nat \<Rightarrow> nat \<Rightarrow> request \<Rightarrow> 'w state \<Rightarrow>
   (go_error + (go_error + response)) \<times> header \<times> 'w state" where
  "attempt_loop su p origCookie left attempt req st =
     (let (res, h, st1) = attempt_once su req origCookie st in
      if rt_max p = 0 then (Inr res, h, st1)
      else
        let st2 = learn_result su (rq_URL req) res st1 in
        case left of
          0 \<Rightarrow> (Inr res, h, st2)
        | Suc left' \<Rightarrow>
            if \<not> should_retry p res then (Inr res, h, st2)
            else
              let (v, net1) = su_rand su (wd_net (sx_world st2));
                  (ended, net2) = su_wait su (jittered v (backoff p attempt)) net1;
                  st3 = st2\<lparr>sx_world := (sx_world st2)\<lparr>wd_net := net2\<rparr>\<rparr> in
              case ended of
                Some e \<Rightarrow> (Inl e, h, st3)
              | None \<Rightarrow> attempt_loop su p origCookie left' (Suc attempt) (req\<lparr>rq_Headers := h\<rparr>) st3)"

declare attempt_loop.simps [simp del]

section \<open>Redirects\<close>

definition max_redirects :: "SessionConfig \<Rightarrow> int" where
  "max_redirects cfg = (if cf_MaxRedirects cfg > 0 then cf_MaxRedirects cfg else 10)"

definition redirect_method :: "int \<Rightarrow> string \<Rightarrow> string" where
  "redirect_method status m =
     (if status = 303 \<or> ((status = 301 \<or> status = 302) \<and> m = ''POST'') then ''GET'' else m)"

definition dropped_header :: "string \<Rightarrow> string \<Rightarrow> string \<Rightarrow> string \<Rightarrow> string \<Rightarrow> bool" where
  "dropped_header oldMethod newMethod oldURL newURL k \<longleftrightarrow>
     (newMethod \<noteq> oldMethod \<and> k \<in> {''Content-Type'', ''Content-Length'', ''content-type'', ''content-length''}) \<or>
     k = ''Cookie'' \<or> k = ''cookie'' \<or>
     (isSchemeDowngrade oldURL newURL \<and> to_lower k = ''referer'') \<or>
     ((\<not> sameOrigin oldURL newURL \<or> isSchemeDowngrade oldURL newURL) \<and>
        (to_lower k = ''authorization'' \<or> to_lower k = ''proxy-authorization''))"

definition redirect_request :: "request \<Rightarrow> int \<Rightarrow> string \<Rightarrow> request" where
  "redirect_request req status location =
     (let newURL = resolveURL (rq_URL req) location; newMethod = redirect_method status (rq_Method req) in
      \<lparr>rq_Method = newMethod, rq_URL = newURL,
       rq_Headers = filter (\<lambda>(k, v). \<not> dropped_header (rq_Method req) newMethod (rq_URL req) newURL k) (rq_Headers req),
       rq_Body = (if status = 307 \<or> status = 308 then rq_Body req else []),
       rq_BodyReader = None, rq_Timeout = 0, rq_TLSOnly = None\<rparr>)"

datatype hop_outcome = Final "go_error + response" | Follow request redirect_info

definition after_response ::
  "SessionConfig \<Rightarrow> request \<Rightarrow> int \<Rightarrow> redirect_info list \<Rightarrow> response \<Rightarrow> hop_outcome" where
  "after_response cfg req redirectCount history r =
     (let location = either_header (rs_Headers r) ''Location'' ''location'' in
      if isRedirectStatus (rs_StatusCode r) \<and> cf_FollowRedirects cfg then
        (if redirectCount \<ge> max_redirects cfg then Final (Inl (TextError ''too many redirects''))
         else if location = '''' then Final (Inr (r\<lparr>rs_History := history\<rparr>))
         else Follow (redirect_request req (rs_StatusCode r) location)
                \<lparr>ri_StatusCode = rs_StatusCode r, ri_URL = rq_URL req, ri_Headers = rs_Headers r\<rparr>)
      else Final (Inr (r\<lparr>rs_History := history\<rparr>)))"

text \<open>One call of \<open>requestWithRedirects\<close> up to its tail call, with the headers as it leaves them.\<close>

definition request_hop ::
  "'w surroundings \<Rightarrow> request \<Rightarrow> int \<Rightarrow> redirect_info list \<Rightarrow> 'w state \<Rightarrow> hop_outcome \<times> header \<times> 'w state" where
  "request_hop su req redirectCount history st =
     (if \<not> ss_active (sx_session st) then (Final (Inl ErrSessionClosed), rq_Headers req, st)
      else
        let s = begin_request (su_now su (wd_net (sx_world st))) (sx_session st);
            h = validator_headers s (rq_URL req) (rq_Headers req);
            p = retry_plan_of (ss_Config s) in
        case attempt_loop su p (first_value h ''Cookie'') (nat (rt_max p)) 0 (req\<lparr>rq_Headers := h\<rparr>)
               (st\<lparr>sx_session := s\<rparr>) of
          (Inl e, h', st1) \<Rightarrow> (Final (Inl e), h', st1)
        | (Inr (Inl e), h', st1) \<Rightarrow> (Final (Inl e), h', st1)
        | (Inr (Inr r), h', st1) \<Rightarrow>
            (let st2 = learn_response su (rq_URL req) (rs_Headers r) st1;
                 st3 = st2\<lparr>sx_session := storeCacheHeaders (rq_URL req) (rs_Headers r) (sx_session st2)\<rparr> in
             (after_response (ss_Config (sx_session st3)) (req\<lparr>rq_Headers := h'\<rparr>) redirectCount history r, h', st3)))"

section \<open>The configuration does not change under a request\<close>

lemma config_parseAcceptCH [simp]: "ss_Config (parseAcceptCH host hs s) = ss_Config s"
  by (simp add: parseAcceptCH_def Let_def)

lemma config_storeCacheHeaders [simp]: "ss_Config (storeCacheHeaders url hs s) = ss_Config s"
  by (simp add: storeCacheHeaders_def Let_def)

lemma config_learn [simp]: "ss_Config (sx_session (learn_response su url hs st)) = ss_Config (sx_session st)"
  by (simp add: learn_response_def)

lemma config_attempt_once:
  "attempt_once su req c st = (res, h, st') \<Longrightarrow> ss_Config (sx_session st') = ss_Config (sx_session st)"
  by (auto simp: attempt_once_def Let_def split: prod.splits)

text \<open>One round of the loop, with the results of its calls named.\<close>

lemma attempt_loop_0:
  assumes "attempt_once su req c st = (res1, h1, st1)"
  shows "attempt_loop su p c 0 attempt req st =
    (Inr res1, h1, if rt_max p = 0 then st1 else learn_result su (rq_URL req) res1 st1)"
  by (subst attempt_loop.simps) (simp add: assms Let_def)

lemma attempt_loop_Suc:
  assumes "attempt_once su req c st = (res1, h1, st1)" "st2 = learn_result su (rq_URL req) res1 st1"
    and "su_rand su (wd_net (sx_world st2)) = (v, net1)"
    and "su_wait su (jittered v (backoff p attempt)) net1 = (ended, net2)"
  shows "attempt_loop su p c (Suc left) attempt req st =
      (if rt_max p = 0 then (Inr res1, h1, st1)
       else if \<not> should_retry p res1 then (Inr res1, h1, st2)
       else case ended of
           Some e \<Rightarrow> (Inl e, h1, st2\<lparr>sx_world := (sx_world st2)\<lparr>wd_net := net2\<rparr>\<rparr>)
         | None \<Rightarrow> attempt_loop su p c left (Suc attempt) (req\<lparr>rq_Headers := h1\<rparr>)
                     (st2\<lparr>sx_world := (sx_world st2)\<lparr>wd_net := net2\<rparr>\<rparr>))"
  by (subst attempt_loop.simps) (simp add: assms(1,3,4) Let_def flip: assms(2) split: option.split)

text \<open>
  What every attempt, every response and every wait keeps, the loop keeps: the rule by which the
  properties of the loop are proved. \<open>I k\<close> speaks of the headers of the request and the state
  after \<open>k\<close> attempts.
\<close>

lemma attempt_loop_inv:
  assumes once: "\<And>k h st res h' st'. I k h st \<Longrightarrow> attempt_once su (req\<lparr>rq_Headers := h\<rparr>) c st = (res, h', st') \<Longrightarrow> I (Suc k) h' st'"
    and learn: "\<And>k h st hs. I k h st \<Longrightarrow> I k h (learn_response su (rq_URL req) hs st)"
    and net: "\<And>k h st n. I k h st \<Longrightarrow> I k h (st\<lparr>sx_world := (sx_world st)\<lparr>wd_net := n\<rparr>\<rparr>)"
  shows "I k h0 st \<Longrightarrow> attempt_loop su p c left attempt (req\<lparr>rq_Headers := h0\<rparr>) st = (res, h, st') \<Longrightarrow>
    \<exists>n. n \<le> Suc left \<and> I (k + n) h st'"
proof (induction left arbitrary: k attempt h0 st)
  case 0
  obtain res1 h1 st1 where a: "attempt_once su (req\<lparr>rq_Headers := h0\<rparr>) c st = (res1, h1, st1)" by (metis prod_cases3)
  have "I (Suc k) h1 (learn_result su (rq_URL req) res1 st1)" "I (Suc k) h1 st1"
    using once [OF 0(1) a] learn by (auto simp: learn_result_def split: sum.splits)
  then show ?case
    using 0(2) by (intro exI [of _ 1]) (auto simp: attempt_loop_0 [OF a] split: if_splits)
next
  case (Suc left)
  obtain res1 h1 st1 where a: "attempt_once su (req\<lparr>rq_Headers := h0\<rparr>) c st = (res1, h1, st1)" by (metis prod_cases3)
  define st2 where "st2 = learn_result su (rq_URL (req\<lparr>rq_Headers := h0\<rparr>)) res1 st1"
  have I1: "I (Suc k) h1 st1" "I (Suc k) h1 st2"
    using once [OF Suc.prems(1) a] learn by (auto simp: st2_def learn_result_def split: sum.splits)
  obtain v net1 where v: "su_rand su (wd_net (sx_world st2)) = (v, net1)" by fastforce
  obtain ended net2 where e: "su_wait su (jittered v (backoff p attempt)) net1 = (ended, net2)" by fastforce
  note loop = attempt_loop_Suc [OF a st2_def v e]
  show ?case
  proof (cases "rt_max p = 0 \<or> \<not> should_retry p res1 \<or> ended \<noteq> None")
    case True
    then have "I (Suc k) h st'"
      using Suc.prems(2) I1 net [OF I1(2), of net2] unfolding loop by (auto split: if_splits option.splits)
    then show ?thesis by (intro exI [of _ 1]) simp
  next
    case False
    then obtain n where "n \<le> Suc left" "I (Suc k + n) h st'"
      using Suc.prems(2) Suc.IH [OF net [OF I1(2)]] unfolding loop by fastforce
    then show ?thesis by (intro exI [of _ "Suc n"]) simp
  qed
qed

lemma attempt_loop_counts:
  assumes "attempt_loop su p c left attempt req st = (res, h, st')" "I 0 (rq_Headers req) st"
    and "\<And>k h st res h' st'. I k h st \<Longrightarrow> attempt_once su (req\<lparr>rq_Headers := h\<rparr>) c st = (res, h', st') \<Longrightarrow> I (Suc k) h' st'"
    and "\<And>k h st hs. I k h st \<Longrightarrow> I k h (learn_response su (rq_URL req) hs st)"
    and "\<And>k h st n. I k h st \<Longrightarrow> I k h (st\<lparr>sx_world := (sx_world st)\<lparr>wd_net := n\<rparr>\<rparr>)"
  shows "\<exists>n. n \<le> Suc left \<and> I n h st'"
proof -
  have "req\<lparr>rq_Headers := rq_Headers req\<rparr> = req" by simp
  then show ?thesis
    using attempt_loop_inv [of I su req c 0 "rq_Headers req" st p left attempt res h st'] assms by simp
qed

lemma attempt_loop_keeps:
  assumes "attempt_loop su p c left attempt req st = (res, h, st')" "I (rq_Headers req) st"
    and "\<And>h st res h' st'. I h st \<Longrightarrow> attempt_once su (req\<lparr>rq_Headers := h\<rparr>) c st = (res, h', st') \<Longrightarrow> I h' st'"
    and "\<And>h st hs. I h st \<Longrightarrow> I h (learn_response su (rq_URL req) hs st)"
    and "\<And>h st n. I h st \<Longrightarrow> I h (st\<lparr>sx_world := (sx_world st)\<lparr>wd_net := n\<rparr>\<rparr>)"
  shows "I h st'"
  using attempt_loop_counts [of su p c left attempt req st res h st' "\<lambda>k. I"] assms by blast

lemma config_attempt_loop:
  assumes "attempt_loop su p c left attempt req st = (res, h, st')"
  shows "ss_Config (sx_session st') = ss_Config (sx_session st)"
  by (rule attempt_loop_keeps [where I = "\<lambda>h x. ss_Config (sx_session x) = ss_Config (sx_session st)", OF assms])
    (auto dest: config_attempt_once)

lemma config_request_hop:
  assumes "request_hop su req n history st = (out, h, st')"
  shows "ss_Config (sx_session st') = ss_Config (sx_session st)"
  using assms
  by (auto simp: request_hop_def Let_def begin_request_def dest!: config_attempt_loop split: if_splits prod.splits sum.splits)

lemma after_response_Follow:
  "after_response cfg req n history r = Follow req' info \<Longrightarrow> n < max_redirects cfg"
  by (auto simp: after_response_def Let_def split: if_splits)

lemma hop_Follow:
  assumes "request_hop su req n history st = (Follow req' info, h, st')"
  shows "n < max_redirects (ss_Config (sx_session st))"
proof -
  note config = config_request_hop [OF assms]
  have "n < max_redirects (ss_Config (sx_session st'))"
    using assms unfolding request_hop_def Let_def
    by (auto dest!: after_response_Follow split: if_splits prod.splits sum.splits)
  then show ?thesis using config by simp
qed

lemma hop_measure:
  assumes "request_hop su req n history st = (Follow req' info, h, st')"
  shows "nat (max_redirects (ss_Config (sx_session st')) - (n + 1)) < nat (max_redirects (ss_Config (sx_session st)) - n)"
  using config_request_hop [OF assms] hop_Follow [OF assms] by simp

text \<open>
  The whole request. It returns for every network: each redirect that is followed uses up one of
  the \<open>max_redirects\<close> of the configuration. The headers returned are those of the caller's map.
\<close>

function requestWithRedirects ::
  "'w surroundings \<Rightarrow> request \<Rightarrow> int \<Rightarrow> redirect_info list \<Rightarrow> 'w state \<Rightarrow> (go_error + response) \<times> header \<times> 'w state" where
  "requestWithRedirects su req redirectCount history st =
     (case request_hop su req redirectCount history st of
        (Final res, h, st') \<Rightarrow> (res, h, st')
      | (Follow req' info, h, st') \<Rightarrow>
          (case requestWithRedirects su req' (redirectCount + 1) (history @ [info]) st' of
             (res, h', st'') \<Rightarrow> (res, h, st'')))"
  by pat_completeness auto
termination
  by (relation "measure (\<lambda>(su, req, n, history, st). nat (max_redirects (ss_Config (sx_session st)) - n))")
    (auto dest!: hop_measure [OF sym])

declare requestWithRedirects.simps [simp del]

definition Session_Request :: "'w surroundings \<Rightarrow> request \<Rightarrow> 'w state \<Rightarrow> (go_error + response) \<times> header \<times> 'w state" where
  "Session_Request su req st = requestWithRedirects su req 0 [] st"

definition session_get :: "string \<Rightarrow> header \<Rightarrow> request" where
  "session_get url headers =
     \<lparr>rq_Method = ''GET'', rq_URL = url, rq_Headers = headers, rq_Body = [], rq_BodyReader = None, rq_Timeout = 0,
      rq_TLSOnly = None\<rparr>"

definition Session_Get :: "'w surroundings \<Rightarrow> string \<Rightarrow> header \<Rightarrow> 'w state \<Rightarrow> (go_error + response) \<times> header \<times> 'w state" where
  "Session_Get su url headers st = Session_Request su (session_get url headers) st"

definition Session_Post ::
  "'w surroundings \<Rightarrow> string \<Rightarrow> byte list \<Rightarrow> header \<Rightarrow> 'w state \<Rightarrow> (go_error + response) \<times> header \<times> 'w state" where
  "Session_Post su url body headers st =
     Session_Request su ((session_get url headers)\<lparr>rq_Method := ''POST'', rq_Body := body\<rparr>) st"

section \<open>Credentials across redirects\<close>

definition credential_key :: "string \<Rightarrow> bool" where
  "credential_key k \<longleftrightarrow> to_lower k = ''authorization'' \<or> to_lower k = ''proxy-authorization''"

definition credentials :: "header \<Rightarrow> header" where
  "credentials h = filter (\<lambda>(k, v). credential_key k) h"

lemma credentials_put: "\<not> credential_key k \<Longrightarrow> credentials (put_header k v h) = credentials h"
proof (induction h)
  case (Cons e h)
  then show ?case by (cases e) (auto simp: put_header_def credentials_def)
qed (simp add: put_header_def credentials_def)

lemma session_keys:
  "\<not> credential_key ''cache-control''" "\<not> credential_key ''If-None-Match''" "\<not> credential_key ''If-Modified-Since''"
  "\<not> credential_key ''Cookie''"
  "(name, k, v) \<in> set (hint_values p) \<Longrightarrow> \<not> credential_key k"
  "k \<in> {''Content-Type'', ''Content-Length'', ''content-type'', ''content-length'', ''Cookie'', ''cookie''} \<Longrightarrow> \<not> credential_key k"
  by (auto simp: credential_key_def hint_values_def lower_char_def)

lemma credentials_hints: "credentials (applyClientHints s host h) = credentials h"
proof -
  have "credentials (fold (\<lambda>(name, k, v) h. if name \<in> set hints \<and> v \<noteq> '''' then put_header k v h else h) vs h) = credentials h"
    if "set vs \<subseteq> set (hint_values p)" for hints vs p h
    using that
  proof (induction vs arbitrary: h)
    case (Cons e vs)
    obtain name k v where e: "e = (name, k, v)" by (cases e)
    then have "\<not> credential_key k" using Cons.prems session_keys(5) by auto
    then show ?case using Cons by (simp add: e credentials_put)
  qed simp
  note this [OF subset_refl]
  then show ?thesis by (simp add: applyClientHints_def split: option.split)
qed

lemma credentials_validators: "credentials (validator_headers s url h) = credentials h"
  by (simp add: validator_headers_def Let_def credentials_put session_keys split: option.split)

lemma credentials_cookie: "credentials (cookie_headers orig sc h) = credentials h"
  by (simp add: cookie_headers_def credentials_put session_keys)

lemma attempt_once_sent:
  assumes "attempt_once su req c st = (res, h, st')"
  shows "sx_sent st' = sx_sent st @ [req\<lparr>rq_Headers := h\<rparr>] \<and> credentials h = credentials (rq_Headers req)"
  using assms by (auto simp: attempt_once_def Let_def credentials_hints credentials_cookie split: prod.splits)

lemma sent_learn [simp]: "sx_sent (learn_response su url hs st) = sx_sent st"
  by (simp add: learn_response_def)

text \<open>
  All requests of one hop go to its URL with the credentials of its headers, and there are at
  most as many as the plan for retries allows.
\<close>

definition hop_sent :: "request \<Rightarrow> request list \<Rightarrow> bool" where
  "hop_sent req new \<longleftrightarrow>
     (\<forall>r \<in> set new. rq_URL r = rq_URL req \<and> credentials (rq_Headers r) = credentials (rq_Headers req))"

definition max_attempts :: "SessionConfig \<Rightarrow> nat" where
  "max_attempts cfg = Suc (nat (rt_max (retry_plan_of cfg)))"

lemma loop_sent:
  assumes "attempt_loop su p c left attempt req st = (res, h, st')"
  shows "\<exists>new. sx_sent st' = sx_sent st @ new \<and> length new \<le> Suc left \<and> hop_sent req new \<and>
    credentials h = credentials (rq_Headers req)"
proof -
  let ?I = "\<lambda>k h x. credentials h = credentials (rq_Headers req) \<and>
    (\<exists>new. sx_sent x = sx_sent st @ new \<and> length new = k \<and> hop_sent req new)"
  have "\<exists>n. n \<le> Suc left \<and> ?I n h st'"
  proof (rule attempt_loop_counts [where I = ?I, OF assms])
    fix k h1 st1 res1 h2 st2
    assume I: "?I k h1 st1" and once: "attempt_once su (req\<lparr>rq_Headers := h1\<rparr>) c st1 = (res1, h2, st2)"
    from I obtain new where new: "sx_sent st1 = sx_sent st @ new" "length new = k" "hop_sent req new" by blast
    from attempt_once_sent [OF once] I new
    have "sx_sent st2 = sx_sent st @ (new @ [req\<lparr>rq_Headers := h2\<rparr>])" "credentials h2 = credentials (rq_Headers req)"
      by simp_all
    with new(2,3) show "?I (Suc k) h2 st2" by (auto simp: hop_sent_def intro!: exI [of _ "new @ [req\<lparr>rq_Headers := h2\<rparr>]"])
  qed (auto simp: hop_sent_def)
  then show ?thesis by auto
qed

lemma request_hop_sent:
  assumes "request_hop su req n history st = (out, h, st')"
  shows "\<exists>new. sx_sent st' = sx_sent st @ new \<and> length new \<le> max_attempts (ss_Config (sx_session st)) \<and> hop_sent req new \<and>
    credentials h = credentials (rq_Headers req)"
proof (cases "ss_active (sx_session st)")
  case False
  then show ?thesis using assms by (auto simp: request_hop_def hop_sent_def)
next
  case True
  let ?s = "begin_request (su_now su (wd_net (sx_world st))) (sx_session st)"
  let ?h = "validator_headers ?s (rq_URL req) (rq_Headers req)"
  let ?p = "retry_plan_of (ss_Config ?s)"
  obtain res1 h1 st1 where loop: "attempt_loop su ?p (first_value ?h ''Cookie'') (nat (rt_max ?p)) 0 (req\<lparr>rq_Headers := ?h\<rparr>)
      (st\<lparr>sx_session := ?s\<rparr>) = (res1, h1, st1)" by (metis prod_cases3)
  have cfg: "ss_Config ?s = ss_Config (sx_session st)" by (simp add: begin_request_def)
  from loop_sent [OF loop] have "\<exists>new. sx_sent st1 = sx_sent st @ new \<and> length new \<le> max_attempts (ss_Config (sx_session st)) \<and>
      hop_sent req new \<and> credentials h1 = credentials (rq_Headers req)"
    by (simp add: hop_sent_def credentials_validators max_attempts_def cfg)
  moreover have "sx_sent st' = sx_sent st1" "h = h1"
    using assms True loop by (auto simp: request_hop_def Let_def split: sum.splits)
  ultimately show ?thesis by simp
qed

lemma redirect_credentials_cut:
  "credentials (rq_Headers (redirect_request req status location)) =
     (if sameOrigin (rq_URL req) (resolveURL (rq_URL req) location) then credentials (rq_Headers req) else [])"
proof -
  have "dropped_header m1 m2 u1 u2 k \<longleftrightarrow> \<not> sameOrigin u1 u2" if "credential_key k" for m1 m2 u1 u2 k
  proof -
    have "k \<notin> {''Content-Type'', ''Content-Length'', ''content-type'', ''content-length'', ''Cookie'', ''cookie''}"
      using that session_keys(6) by blast
    then show ?thesis
      using that sameOrigin_no_downgrade [of u1 u2] by (auto simp: dropped_header_def credential_key_def)
  qed
  then have "credentials (filter (\<lambda>(k, v). \<not> dropped_header m1 m2 u1 u2 k) h) =
      (if sameOrigin u1 u2 then credentials h else [])" for m1 m2 u1 u2 h
    by (induction h) (auto simp: credentials_def)
  then show ?thesis by (simp add: redirect_request_def Let_def)
qed

lemma after_response_request:
  "after_response cfg req n history r = Follow req' info \<Longrightarrow>
   \<exists>location. req' = redirect_request req (rs_StatusCode r) location"
  by (auto simp: after_response_def Let_def split: if_splits)

lemma Follow_request:
  assumes "request_hop su req n history st = (Follow req' info, h, st')"
  shows "\<exists>status location. req' = redirect_request (req\<lparr>rq_Headers := h\<rparr>) status location"
  using assms unfolding request_hop_def Let_def
  by (auto dest!: after_response_request split: if_splits prod.splits sum.splits)

lemma redirects_sent:
  "requestWithRedirects su req n history st = (res, h, st') \<Longrightarrow>
   \<exists>new. sx_sent st' = sx_sent st @ new \<and>
     length new \<le> (nat (max_redirects (ss_Config (sx_session st)) - n) + 1) * max_attempts (ss_Config (sx_session st)) \<and>
     (\<forall>r \<in> set new. credentials (rq_Headers r) = [] \<or>
        (credentials (rq_Headers r) = credentials (rq_Headers req) \<and>
         (rq_URL r = rq_URL req \<or> sameOrigin (rq_URL req) (rq_URL r))))"
proof (induction su req n history st arbitrary: res h st' rule: requestWithRedirects.induct)
  case (1 su req n history st)
  obtain out h1 st1 where hop: "request_hop su req n history st = (out, h1, st1)" by (metis prod_cases3)
  from request_hop_sent [OF hop] obtain new where
    new: "sx_sent st1 = sx_sent st @ new" "length new \<le> max_attempts (ss_Config (sx_session st))" "hop_sent req new"
    and cred: "credentials h1 = credentials (rq_Headers req)" by blast
  show ?case
  proof (cases out)
    case (Final r)
    then have "st' = st1" using 1(2) hop by (subst (asm) requestWithRedirects.simps) simp
    moreover have "max_attempts (ss_Config (sx_session st)) \<le>
        (nat (max_redirects (ss_Config (sx_session st)) - n) + 1) * max_attempts (ss_Config (sx_session st))" by simp
    ultimately show ?thesis using new by (auto simp: hop_sent_def)
  next
    case (Follow req' info)
    note hop' = hop [unfolded Follow]
    obtain res2 h2 st2 where rest: "requestWithRedirects su req' (n + 1) (history @ [info]) st1 = (res2, h2, st2)"
      by (metis prod_cases3)
    have st': "st' = st2" using 1(2) hop' rest by (subst (asm) requestWithRedirects.simps) simp
    from 1(1) [OF hop' [symmetric] refl refl rest] obtain more where
      more: "sx_sent st2 = sx_sent st1 @ more"
        "length more \<le> (nat (max_redirects (ss_Config (sx_session st1)) - (n + 1)) + 1) * max_attempts (ss_Config (sx_session st1))"
        "\<forall>r \<in> set more. credentials (rq_Headers r) = [] \<or>
           (credentials (rq_Headers r) = credentials (rq_Headers req') \<and> (rq_URL r = rq_URL req' \<or> sameOrigin (rq_URL req') (rq_URL r)))"
      by blast
    from Follow_request [OF hop'] obtain status location where
      req': "req' = redirect_request (req\<lparr>rq_Headers := h1\<rparr>) status location" by blast
    then have url: "rq_URL req' = resolveURL (rq_URL req) location" by (simp add: redirect_request_def Let_def)
    have cred': "credentials (rq_Headers req') = (if sameOrigin (rq_URL req) (rq_URL req') then credentials (rq_Headers req) else [])"
      using redirect_credentials_cut [of "req\<lparr>rq_Headers := h1\<rparr>" status location] cred url by (simp add: req')
    have "\<forall>r \<in> set more. credentials (rq_Headers r) = [] \<or>
        (credentials (rq_Headers r) = credentials (rq_Headers req) \<and> (rq_URL r = rq_URL req \<or> sameOrigin (rq_URL req) (rq_URL r)))"
      using more(3) cred' sameOrigin_trans by (auto split: if_splits)
    moreover have "length new + length more \<le>
        (nat (max_redirects (ss_Config (sx_session st)) - n) + 1) * max_attempts (ss_Config (sx_session st))"
    proof -
      let ?k = "nat (max_redirects (ss_Config (sx_session st)) - n)" and ?a = "max_attempts (ss_Config (sx_session st))"
      have "nat (max_redirects (ss_Config (sx_session st)) - (n + 1)) + 1 = ?k"
        using hop_Follow [OF hop'] by simp
      then have "length more \<le> ?k * ?a" using more(2) config_request_hop [OF hop'] by simp
      with new(2) show ?thesis by simp
    qed
    ultimately show ?thesis using new more(1) st' by (auto simp: hop_sent_def)
  qed
qed

section \<open>A network of fixed answers, for concrete runs\<close>

definition fixed_net :: "(string \<Rightarrow> int \<times> header) \<Rightarrow> unit net" where
  "fixed_net f =
     \<lparr>nt_canon = (\<lambda>k. k), nt_newRequest = (\<lambda>m u. None),
      nt_roundTrip = (\<lambda>hop d hq w.
        (Inr \<lparr>hp_StatusCode = fst (f (hq_URL hq)), hp_Header = snd (f (hq_URL hq)), hp_Body = ([], None),
              hp_ContentLength = 0, hp_choice = None\<rparr>, w)),
      nt_race = (\<lambda>h p w. (RaceTimer None, w)), nt_decode = no_decoder\<rparr>"

definition fixed_surroundings :: "(string \<Rightarrow> int \<times> header) \<Rightarrow> unit surroundings" where
  "fixed_surroundings f =
     \<lparr>su_net = fixed_net f, su_now = (\<lambda>w. 5), su_wait = (\<lambda>d w. (None, w)), su_rand = (\<lambda>w. (0, w)), su_time = (\<lambda>l s. None)\<rparr>"

definition fixed_response :: "(string \<Rightarrow> int \<times> header) \<Rightarrow> string \<Rightarrow> response" where
  "fixed_response f url =
     \<lparr>rs_StatusCode = fst (f url), rs_Headers = buildHeadersMap (snd (f url)), rs_Body = Owned [], rs_FinalURL = url,
      rs_Protocol = ''h2'', rs_History = []\<rparr>"

definition h2_mode :: "transport \<Rightarrow> bool" where
  "h2_mode t \<longleftrightarrow> tr_protocol t = ProtocolHTTP2 \<and> \<not> is_proxied t"

definition https_url :: "string \<Rightarrow> bool" where
  "https_url url \<longleftrightarrow> map_option u_Scheme (Parse url) = Some ''https''"

lemma fixed_Do:
  assumes "h2_mode t" "https_url (rq_URL req)" "hget (\<lambda>k. k) (snd (f (rq_URL req))) ''Content-Encoding'' = ''''"
  shows "\<exists>w'. Transport_Do (fixed_net f) t req w = ((Inr (fixed_response f (rq_URL req)), w'), t)"
proof -
  obtain u where u: "Parse (rq_URL req) = Some u" "u_Scheme u = ''https''"
    using assms(2) by (auto simp: https_url_def map_option_case split: option.splits)
  have "Transport_Do (fixed_net f) t req w = (doHTTP2 (fixed_net f) t req w, t)"
    using assms(1) u by (simp add: Transport_Do_def h2_mode_def)
  also have "\<exists>w'. doHTTP2 (fixed_net f) t req w = (Inr (fixed_response f (rq_URL req)), w')"
    using u assms(3)
    by (simp add: doHTTP2_def exchange_def Let_def)
      (simp add: fixed_net_def outgoing_def read_response_def receive_body_def readBodyOptimized_def
        pool_get_def end_error_def Let_def fixed_response_def)
  ultimately show ?thesis by simp
qed

definition ready :: "session \<Rightarrow> bool" where
  "ready s \<longleftrightarrow> ss_active s \<and> h2_mode (ss_transport s) \<and> \<not> cf_RetryEnabled (ss_Config s)"

lemma ready_learn [simp]:
  "ready (parseAcceptCH host hs s) = ready s" "ready (storeCacheHeaders url hs s) = ready s"
  by (simp_all add: ready_def parseAcceptCH_def storeCacheHeaders_def Let_def)

lemma fixed_attempt:
  assumes "h2_mode (ss_transport (sx_session st))" "https_url (rq_URL req)"
    and "hget (\<lambda>k. k) (snd (f (rq_URL req))) ''Content-Encoding'' = ''''"
  shows "\<exists>h w'. attempt_once (fixed_surroundings f) req c st =
      (Inr (fixed_response f (rq_URL req)), h, st\<lparr>sx_world := w', sx_sent := sx_sent st @ [req\<lparr>rq_Headers := h\<rparr>]\<rparr>)"
proof -
  let ?su = "fixed_surroundings f" and ?s = "sx_session st" and ?url = "rq_URL req"
  let ?h = "applyClientHints ?s (extractHost ?url)
    (if cf_WithoutCookieJar (ss_Config ?s) then rq_Headers req
     else cookie_headers c (BuildCookieHeader (su_now ?su (wd_net (sx_world st))) (extractHost ?url) (extractPath ?url)
       (isSecureURL ?url) (sx_jar st)) (rq_Headers req))"
  obtain w' where "Transport_Do (fixed_net f) (ss_transport ?s) (req\<lparr>rq_Headers := ?h\<rparr>) (sx_world st) =
      ((Inr (fixed_response f ?url), w'), ss_transport ?s)"
    using fixed_Do [of "ss_transport ?s" "req\<lparr>rq_Headers := ?h\<rparr>" f "sx_world st"] assms by auto
  moreover have "su_net ?su = fixed_net f" by (simp add: fixed_surroundings_def)
  ultimately have "attempt_once ?su req c st =
      (Inr (fixed_response f ?url), ?h, st\<lparr>sx_world := w', sx_sent := sx_sent st @ [req\<lparr>rq_Headers := ?h\<rparr>]\<rparr>)"
    by (simp add: attempt_once_def Let_def)
  then show ?thesis by blast
qed

text \<open>One hop of a session without retries against such a network.\<close>

lemma fixed_hop:
  assumes "ready (sx_session st)" "https_url (rq_URL req)" "hget (\<lambda>k. k) (snd (f (rq_URL req))) ''Content-Encoding'' = ''''"
  shows "\<exists>h st'. request_hop (fixed_surroundings f) req n history st =
      (after_response (ss_Config (sx_session st)) (req\<lparr>rq_Headers := h\<rparr>) n history (fixed_response f (rq_URL req)), h, st') \<and>
    ready (sx_session st') \<and> ss_Config (sx_session st') = ss_Config (sx_session st) \<and>
    sx_sent st' = sx_sent st @ [req\<lparr>rq_Headers := h\<rparr>] \<and> credentials h = credentials (rq_Headers req)"
proof -
  let ?s = "begin_request 5 (sx_session st)"
  let ?h = "validator_headers ?s (rq_URL req) (rq_Headers req)"
  let ?su = "fixed_surroundings f"
  have now: "su_now ?su = (\<lambda>w. 5)" by (simp add: fixed_surroundings_def)
  have s: "h2_mode (ss_transport ?s)" "ss_Config ?s = ss_Config (sx_session st)" "ss_active ?s" "ss_active (sx_session st)"
    and plan: "rt_max (retry_plan_of (ss_Config (sx_session st))) = 0"
    using assms(1) by (simp_all add: ready_def begin_request_def retry_plan_of_def)
  obtain h w' where once: "attempt_once ?su (req\<lparr>rq_Headers := ?h\<rparr>) (first_value ?h ''Cookie'') (st\<lparr>sx_session := ?s\<rparr>) =
      (Inr (fixed_response f (rq_URL req)), h,
       st\<lparr>sx_session := ?s, sx_world := w', sx_sent := sx_sent st @ [req\<lparr>rq_Headers := h\<rparr>]\<rparr>)"
    using fixed_attempt [of "st\<lparr>sx_session := ?s\<rparr>" "req\<lparr>rq_Headers := ?h\<rparr>" f "first_value ?h ''Cookie''"] s(1) assms(2,3)
    by auto
  from attempt_once_sent [OF once] have cred: "credentials h = credentials (rq_Headers req)"
    by (simp add: credentials_validators)
  have active: "ready ?s" using assms(1) by (simp add: ready_def begin_request_def)
  show ?thesis
    using active cred
    by (simp add: request_hop_def Let_def now s plan attempt_loop_0 [OF once] learn_response_def)
qed

section \<open>Properties of redirects\<close>

text \<open>C6.
  Credentials stay with their origin. Whatever the servers answer, every request that a session
  sends for a call carries either the caller's own \<open>Authorization\<close> and
  \<open>Proxy-Authorization\<close> headers, unchanged and to a URL of the same origin as the caller's, or none
  of them: they do not come back either once a redirect has left the origin. The caller's own
  headers keep their credentials as they were.\<close>

theorem redirect_credentials:
  assumes "Session_Request su req st = (res, h, st')"
  shows "\<exists>new. sx_sent st' = sx_sent st @ new \<and>
    (\<forall>r \<in> set new. credentials (rq_Headers r) = [] \<or>
       (credentials (rq_Headers r) = credentials (rq_Headers req) \<and>
        (rq_URL r = rq_URL req \<or> sameOrigin (rq_URL req) (rq_URL r))))"
  using redirects_sent [OF assms [unfolded Session_Request_def]] by blast

text \<open>C7.
  A call always returns, and with a bounded number of exchanges: for every network, random source
  and clock, whatever the servers answer, at most \<open>max_redirects + 1\<close> hops of at most
  \<open>MaxRetries + 1\<close> attempts each are handed to the transport; without the retry option, one per hop.\<close>

theorem request_bounded:
  "\<exists>res h st' new. Session_Request su req st = (res, h, st') \<and> sx_sent st' = sx_sent st @ new \<and>
     length new \<le> (nat (max_redirects (ss_Config (sx_session st))) + 1) *
       (if cf_RetryEnabled (ss_Config (sx_session st)) then nat (cf_MaxRetries (ss_Config (sx_session st))) + 1 else 1)"
proof -
  obtain res h st' where run: "Session_Request su req st = (res, h, st')" by (metis prod_cases3)
  have "max_attempts cfg = (if cf_RetryEnabled cfg then nat (cf_MaxRetries cfg) + 1 else 1)" for cfg
    by (simp add: max_attempts_def retry_plan_of_def)
  then show ?thesis
    using redirects_sent [OF run [unfolded Session_Request_def]] run by auto
qed

definition plain_config :: SessionConfig where
  "plain_config =
     \<lparr>cf_Preset = '''', cf_BaseURL = '''', cf_Proxy = '''', cf_TCPProxy = '''', cf_UDPProxy = '''', cf_Timeout = 0, cf_FollowRedirects = True,
      cf_MaxRedirects = 0, cf_RetryEnabled = False, cf_MaxRetries = 0, cf_RetryWaitMin = 0, cf_RetryWaitMax = 0,
      cf_RetryOnStatus = [], cf_InsecureSkipVerify = False, cf_DisableKeepAlives = False, cf_DisableHTTP3 = False, cf_ForceHTTP1 = False,
      cf_ForceHTTP2 = True, cf_ForceHTTP3 = False, cf_PreferIPv4 = False, cf_LocalAddress = '''', cf_ConnectTo = [],
      cf_ECHConfigDomain = '''', cf_TLSOnly = False, cf_QuicIdleTimeout = 0, cf_KeyLogFile = '''', cf_DisableECH = False,
      cf_EnableSpeculativeTLS = False, cf_SwitchProtocol = '''', cf_WithoutCookieJar = False, cf_Auth = None\<rparr>"

definition plain_session :: session where
  "plain_session =
     \<lparr>ss_ID = ''s'', ss_CreatedAt = 0, ss_LastUsed = 0, ss_RequestCount = 0, ss_Config = plain_config,
      ss_transport = SetProtocol ProtocolHTTP2 (NewTransportWithConfig plain_set_up ''chrome'' None None),
      ss_cacheEntries = [], ss_clientHints = [], ss_refreshed = False, ss_switchProtocol = ProtocolAuto,
      ss_active = True\<rparr>"

definition plain_state :: "unit state" where
  "plain_state = \<lparr>sx_session = plain_session, sx_jar = NewCookieJar, sx_world = start_world, sx_sent = []\<rparr>"

lemma ready_plain: "ready plain_session"
  by (simp add: ready_def plain_session_def plain_config_def h2_mode_def is_proxied_def SetProtocol_def
      NewTransportWithConfig_def Let_def split: prod.split)

definition moved :: "string \<Rightarrow> string \<Rightarrow> string \<Rightarrow> int \<times> header" where
  "moved a b url = (if url = a then (302, [(''Location'', [b])]) else (200, []))"

lemma location_lower: "lower_char CHR ''L'' = CHR ''l''" "lower_char CHR ''o'' = CHR ''o''" "lower_char CHR ''c'' = CHR ''c''"
  "lower_char CHR ''a'' = CHR ''a''" "lower_char CHR ''t'' = CHR ''t''" "lower_char CHR ''i'' = CHR ''i''" "lower_char CHR ''n'' = CHR ''n''"
  by code_simp+

lemma moved_hop:
  "rs_StatusCode (fixed_response (moved a b) url) = (if url = a then 302 else 200)"
  "either_header (rs_Headers (fixed_response (moved a b) url)) ''Location'' ''location'' = (if url = a then b else '''')"
  by (simp_all add: fixed_response_def moved_def either_header_def buildHeadersMap_def first_value_def hvalues_def
      or_default_def location_lower)

lemma moved_run:
  assumes "ready (sx_session st)" "https_url (rq_URL req)" "https_url b" "b \<noteq> rq_URL req" "b \<noteq> ''''"
    and "resolveURL (rq_URL req) b = b" "cf_FollowRedirects (ss_Config (sx_session st))"
  shows "\<exists>res h st' r2. Session_Request (fixed_surroundings (moved (rq_URL req) b)) req st = (res, h, st') \<and>
    sx_sent st' = sx_sent st @ [req\<lparr>rq_Headers := h\<rparr>, r2] \<and> rq_URL r2 = b \<and> credentials h = credentials (rq_Headers req)"
proof -
  let ?f = "moved (rq_URL req) b"
  have enc: "hget (\<lambda>k. k) (snd (?f url)) ''Content-Encoding'' = ''''" for url
    by (simp add: moved_def hget_def first_value_def hvalues_def)
  obtain h st1 where hop1: "request_hop (fixed_surroundings ?f) req 0 [] st =
      (after_response (ss_Config (sx_session st)) (req\<lparr>rq_Headers := h\<rparr>) 0 [] (fixed_response ?f (rq_URL req)), h, st1)"
    and st1: "ready (sx_session st1)" "ss_Config (sx_session st1) = ss_Config (sx_session st)"
      "sx_sent st1 = sx_sent st @ [req\<lparr>rq_Headers := h\<rparr>]" "credentials h = credentials (rq_Headers req)"
    using fixed_hop [OF assms(1,2), of ?f 0 "[]"] enc by blast
  define req2 where "req2 = redirect_request (req\<lparr>rq_Headers := h\<rparr>) 302 b"
  have url2: "rq_URL req2 = b" by (simp add: req2_def redirect_request_def Let_def assms(6))
  have max: "max_redirects cfg > 0" for cfg by (simp add: max_redirects_def)
  then obtain info where after1: "after_response (ss_Config (sx_session st)) (req\<lparr>rq_Headers := h\<rparr>) 0 [] (fixed_response ?f (rq_URL req)) =
      Follow req2 info"
    using assms(5,7) by (simp add: after_response_def moved_hop isRedirectStatus_def req2_def not_le)
  obtain h2 st2 where hop2: "request_hop (fixed_surroundings ?f) req2 1 [info] st1 =
      (after_response (ss_Config (sx_session st1)) (req2\<lparr>rq_Headers := h2\<rparr>) 1 [info] (fixed_response ?f (rq_URL req2)), h2, st2)"
    and st2: "sx_sent st2 = sx_sent st1 @ [req2\<lparr>rq_Headers := h2\<rparr>]"
    using fixed_hop [OF st1(1), of req2 ?f 1 "[info]"] enc assms(3) url2 by auto
  have after2: "\<exists>r. after_response (ss_Config (sx_session st1)) (req2\<lparr>rq_Headers := h2\<rparr>) 1 [info] (fixed_response ?f (rq_URL req2)) = Final r"
    using assms(4) by (simp add: after_response_def moved_hop isRedirectStatus_def url2)
  then obtain r where r: "after_response (ss_Config (sx_session st1)) (req2\<lparr>rq_Headers := h2\<rparr>) 1 [info] (fixed_response ?f (rq_URL req2)) = Final r" ..
  have "requestWithRedirects (fixed_surroundings ?f) req2 1 [info] st1 = (r, h2, st2)"
    by (subst requestWithRedirects.simps) (simp add: hop2 r)
  then have "Session_Request (fixed_surroundings ?f) req st = (r, h, st2)"
    unfolding Session_Request_def by (subst requestWithRedirects.simps) (simp add: hop1 after1)
  then show ?thesis using st1(3,4) st2 url2 by (intro exI [of _ r] exI [of _ h] exI [of _ st2] exI) auto
qed

definition secret_request :: request where
  "secret_request = get_request ''https://a.test/'' [(''Authorization'', [''secret'']), (''Accept'', [''*/*''])]"

lemma auth_urls:
  "https_url ''https://a.test/''" "https_url ''https://b.test/''"
  "resolveURL ''https://a.test/'' ''https://b.test/'' = ''https://b.test/''" "\<not> sameOrigin ''https://a.test/'' ''https://b.test/''"
  "credentials (rq_Headers secret_request) = [(''Authorization'', [''secret''])]"
  by code_simp+

lemma auth_run:
  "\<exists>res h st' r2. Session_Request (fixed_surroundings (moved ''https://a.test/'' ''https://b.test/'')) secret_request plain_state = (res, h, st') \<and>
    sx_sent st' = [secret_request\<lparr>rq_Headers := h\<rparr>, r2] \<and> rq_URL r2 = ''https://b.test/'' \<and>
    credentials h = [(''Authorization'', [''secret''])]"
proof -
  have url: "rq_URL secret_request = ''https://a.test/''" by (simp add: secret_request_def get_request_def)
  have st: "sx_session plain_state = plain_session" "sx_sent plain_state = []" "cf_FollowRedirects (ss_Config plain_session)"
    by (simp_all add: plain_state_def plain_session_def plain_config_def)
  show ?thesis
    using moved_run [of plain_state secret_request "''https://b.test/''"] ready_plain auth_urls
    by (simp add: url st)
qed

theorem redirect_credentials_witness:
  "\<exists>res h st' r1 r2. Session_Request (fixed_surroundings (moved ''https://a.test/'' ''https://b.test/'')) secret_request plain_state = (res, h, st') \<and>
     sx_sent st' = [r1, r2] \<and> credentials (rq_Headers r1) = [(''Authorization'', [''secret''])] \<and>
     rq_URL r2 = ''https://b.test/'' \<and> credentials (rq_Headers r2) = []"
proof -
  obtain res h st' r2 where run: "Session_Request (fixed_surroundings (moved ''https://a.test/'' ''https://b.test/'')) secret_request plain_state =
      (res, h, st')" "sx_sent st' = [secret_request\<lparr>rq_Headers := h\<rparr>, r2]"
      "rq_URL r2 = ''https://b.test/''" "credentials h = [(''Authorization'', [''secret''])]"
    using auth_run by blast
  moreover have "credentials (rq_Headers r2) = []"
    using redirect_credentials [OF run(1)] run(2,3) auth_urls(4)
    by (auto simp: plain_state_def secret_request_def get_request_def)
  ultimately show ?thesis by auto
qed

section \<open>What happens to the caller's header map\<close>

text \<open>The headers of one attempt.\<close>

definition sent_headers :: "'w surroundings \<Rightarrow> request \<Rightarrow> string \<Rightarrow> 'w state \<Rightarrow> header" where
  "sent_headers su req origCookie st =
     (let s = sx_session st; url = rq_URL req in
      applyClientHints s (extractHost url)
        (if cf_WithoutCookieJar (ss_Config s) then rq_Headers req
         else cookie_headers origCookie
                (BuildCookieHeader (su_now su (wd_net (sx_world st))) (extractHost url) (extractPath url)
                   (isSecureURL url) (sx_jar st)) (rq_Headers req)))"

lemma attempt_once_headers: "attempt_once su req c st = (res, h, st') \<Longrightarrow> h = sent_headers su req c st"
  by (auto simp: attempt_once_def sent_headers_def Let_def split: prod.splits)

definition hop_start :: "'w surroundings \<Rightarrow> 'w state \<Rightarrow> 'w state" where
  "hop_start su st = st\<lparr>sx_session := begin_request (su_now su (wd_net (sx_world st))) (sx_session st)\<rparr>"

lemma hop_once:
  assumes "request_hop su req n history st = (out, h, st')" "ss_active (sx_session st)" "\<not> cf_RetryEnabled (ss_Config (sx_session st))"
  shows "let h0 = validator_headers (sx_session (hop_start su st)) (rq_URL req) (rq_Headers req) in
    h = sent_headers su (req\<lparr>rq_Headers := h0\<rparr>) (first_value h0 ''Cookie'') (hop_start su st) \<and>
    sx_sent st' = sx_sent st @ [req\<lparr>rq_Headers := h\<rparr>]"
proof -
  let ?s = "sx_session (hop_start su st)"
  let ?h = "validator_headers ?s (rq_URL req) (rq_Headers req)"
  have s: "?s = begin_request (su_now su (wd_net (sx_world st))) (sx_session st)" by (simp add: hop_start_def)
  have plan: "rt_max (retry_plan_of (ss_Config ?s)) = 0" using assms(3) by (simp add: s begin_request_def retry_plan_of_def)
  obtain res1 h1 st1 where once: "attempt_once su (req\<lparr>rq_Headers := ?h\<rparr>) (first_value ?h ''Cookie'') (hop_start su st) = (res1, h1, st1)"
    by (metis prod_cases3)
  have start: "st\<lparr>sx_session := ?s\<rparr> = hop_start su st" by (simp add: hop_start_def)
  have "h = h1" "sx_sent st' = sx_sent st1"
    using assms(1,2) unfolding request_hop_def Let_def s [symmetric]
    by (auto simp: plan start attempt_loop_0 [OF once] split: sum.splits)
  then show ?thesis
    using attempt_once_headers [OF once] attempt_once_sent [OF once] by (simp add: Let_def hop_start_def)
qed

lemma first_value_put: "first_value (put_header k v h) k' = (if k' = k then v else first_value h k')"
  by (simp add: put_header_def first_value_def hvalues_def)

lemma hints_keep_cookie: "first_value (applyClientHints s host h) ''Cookie'' = first_value h ''Cookie''"
proof -
  have "first_value (fold (\<lambda>(name, k, v) h. if name \<in> set hints \<and> v \<noteq> '''' then put_header k v h else h) vs h) ''Cookie'' =
      first_value h ''Cookie''" if "set vs \<subseteq> set (hint_values p)" for hints vs p h
    using that
  proof (induction vs arbitrary: h)
    case (Cons e vs)
    obtain name k v where e: "e = (name, k, v)" by (cases e)
    then have "k \<noteq> ''Cookie''" using Cons.prems by (auto simp: hint_values_def)
    then show ?case using Cons by (simp add: e first_value_put)
  qed simp
  note this [OF subset_refl]
  then show ?thesis by (simp add: applyClientHints_def split: option.split)
qed

lemma validators_keep_cookie: "first_value (validator_headers s url h) ''Cookie'' = first_value h ''Cookie''"
  by (simp add: validator_headers_def first_value_put Let_def split: option.split)

definition jar_cookies :: "'w surroundings \<Rightarrow> string \<Rightarrow> 'w state \<Rightarrow> string" where
  "jar_cookies su url st =
     BuildCookieHeader (su_now su (wd_net (sx_world st))) (extractHost url) (extractPath url) (isSecureURL url) (sx_jar st)"

lemma sent_cookie:
  assumes "\<not> cf_WithoutCookieJar (ss_Config (sx_session st))"
  shows "first_value (sent_headers su (req\<lparr>rq_Headers := h0\<rparr>) (first_value h0 ''Cookie'') st) ''Cookie'' =
    (let ck = jar_cookies su (rq_URL req) st; old = first_value h0 ''Cookie'' in
     if ck = '''' then old else if old = '''' then ck else old @ ''; '' @ ck)"
  using assms
  by (simp add: sent_headers_def Let_def hints_keep_cookie cookie_headers_def first_value_put jar_cookies_def)

lemma request_first_hop:
  assumes "Session_Request su req st = (res, h, st')" "ss_active (sx_session st)" "\<not> cf_RetryEnabled (ss_Config (sx_session st))"
    and "\<not> cf_WithoutCookieJar (ss_Config (sx_session st))"
  shows "first_value h ''Cookie'' =
      (let ck = jar_cookies su (rq_URL req) st; old = first_value (rq_Headers req) ''Cookie'' in
       if ck = '''' then old else if old = '''' then ck else old @ ''; '' @ ck)"
    "\<exists>more. sx_sent st' = sx_sent st @ req\<lparr>rq_Headers := h\<rparr> # more"
proof -
  obtain out h1 st1 where hop: "request_hop su req 0 [] st = (out, h1, st1)" by (metis prod_cases3)
  have h: "h = h1" and st': "\<exists>more. sx_sent st' = sx_sent st1 @ more"
    using assms(1) hop redirects_sent unfolding Session_Request_def
    by (subst (asm) (1 2) requestWithRedirects.simps, fastforce split: hop_outcome.splits prod.splits)+
  note once = hop_once [OF hop assms(2,3), unfolded Let_def]
  have start: "\<not> cf_WithoutCookieJar (ss_Config (sx_session (hop_start su st)))"
    "jar_cookies su url (hop_start su st) = jar_cookies su url st" for url
    using assms(4) by (simp_all add: hop_start_def begin_request_def jar_cookies_def)
  show "first_value h ''Cookie'' =
      (let ck = jar_cookies su (rq_URL req) st; old = first_value (rq_Headers req) ''Cookie'' in
       if ck = '''' then old else if old = '''' then ck else old @ ''; '' @ ck)"
    using once sent_cookie [OF start(1), of su "validator_headers (sx_session (hop_start su st)) (rq_URL req) (rq_Headers req)" req]
    unfolding h by (simp add: start(2) validators_keep_cookie)
  show "\<exists>more. sx_sent st' = sx_sent st @ req\<lparr>rq_Headers := h\<rparr> # more"
    using once st' unfolding h by auto
qed

text \<open>
  A caller's header map collects cookies. \<open>Request\<close> writes the session's cookies for the address into
  the map it was given, so that a caller who passes the same map again, to the same session or
  another, to any address, sends those cookies there: the first request of the second call starts its
  \<open>Cookie\<close> header with them.\<close>

theorem caller_map_collects_cookies:
  assumes "Session_Request su (session_get url hs) st = (res, h, st')" "Session_Request su2 (session_get url2 h) st2 = (res2, h2, st2')"
    and "first_value hs ''Cookie'' = ''''" "jar_cookies su url st = ck" "ck \<noteq> ''''"
    and "\<forall>s \<in> {sx_session st, sx_session st2}. ss_active s \<and> \<not> cf_RetryEnabled (ss_Config s) \<and> \<not> cf_WithoutCookieJar (ss_Config s)"
  shows "\<exists>r more. sx_sent st2' = sx_sent st2 @ r # more \<and> rq_URL r = url2 \<and> has_prefix (first_value (rq_Headers r) ''Cookie'') ck"
proof -
  have s: "ss_active (sx_session st)" "\<not> cf_RetryEnabled (ss_Config (sx_session st))" "\<not> cf_WithoutCookieJar (ss_Config (sx_session st))"
    and s2: "ss_active (sx_session st2)" "\<not> cf_RetryEnabled (ss_Config (sx_session st2))" "\<not> cf_WithoutCookieJar (ss_Config (sx_session st2))"
    using assms(6) by simp_all
  have q: "rq_URL (session_get u k) = u" "rq_Headers (session_get u k) = k" for u k by (simp_all add: session_get_def)
  have first: "first_value h ''Cookie'' = ck"
    using request_first_hop(1) [OF assms(1) s] assms(3,4,5) by (simp add: q Let_def)
  have "has_prefix (first_value h2 ''Cookie'') ck"
    using request_first_hop(1) [OF assms(2) s2] first assms(5) by (simp add: q Let_def has_prefix_def)
  then show ?thesis
    using request_first_hop(2) [OF assms(2) s2] by (fastforce simp: session_get_def)
qed

definition jar_a :: jar where
  "jar_a = jar_Set 1 ''a.test'' (empty_cookie\<lparr>cd_Name := ''sid'', cd_Value := ''1''\<rparr>) True NewCookieJar"

theorem caller_map_collects_cookies_witness:
  "let su = fixed_surroundings (\<lambda>u. (200, []));
       (res, h, st') = Session_Get su ''https://a.test/'' [] (plain_state\<lparr>sx_jar := jar_a\<rparr>);
       (res2, h2, st2') = Session_Get su ''https://b.test/'' h plain_state in
   \<exists>r more. sx_sent st2' = r # more \<and> rq_URL r = ''https://b.test/'' \<and> has_prefix (first_value (rq_Headers r) ''Cookie'') ''sid=1''"
proof -
  let ?su = "fixed_surroundings (\<lambda>u. (200, []))" and ?st = "plain_state\<lparr>sx_jar := jar_a\<rparr>"
  have "BuildCookieHeader 5 (extractHost ''https://a.test/'') (extractPath ''https://a.test/'') (isSecureURL ''https://a.test/'') jar_a = ''sid=1''"
    by code_simp
  then have ck: "jar_cookies ?su ''https://a.test/'' ?st = ''sid=1''"
    by (simp add: jar_cookies_def fixed_surroundings_def)
  obtain res h st' where 1: "Session_Request ?su (session_get ''https://a.test/'' []) ?st = (res, h, st')" by (metis prod_cases3)
  obtain res2 h2 st2' where 2: "Session_Request ?su (session_get ''https://b.test/'' h) plain_state = (res2, h2, st2')" by (metis prod_cases3)
  have "\<forall>s \<in> {sx_session ?st, sx_session plain_state}. ss_active s \<and> \<not> cf_RetryEnabled (ss_Config s) \<and> \<not> cf_WithoutCookieJar (ss_Config s)"
    and empty: "sx_sent plain_state = []" "first_value [] ''Cookie'' = ''''"
    by (simp_all add: plain_state_def plain_session_def plain_config_def first_value_def hvalues_def)
  with caller_map_collects_cookies [OF 1 2 _ ck] have "\<exists>r more. sx_sent st2' = r # more \<and> rq_URL r = ''https://b.test/'' \<and>
      has_prefix (first_value (rq_Headers r) ''Cookie'') ''sid=1''" by simp
  then show ?thesis by (simp add: Session_Get_def 1 2)
qed

section \<open>Waiting between attempts\<close>

text \<open>
  The wait before a retry doubles from the minimum up to the maximum, give or take a quarter: as long
  as the doubled wait fits 64 bits and the maximum is below 104 days, the wait before attempt
  \<open>k + 1\<close> is positive and lies between three quarters and five quarters of
  \<open>min (waitMin * 2^k) waitMax\<close>, whatever the random source returns.\<close>

theorem retry_wait_bounds:
  assumes "rt_waitMin p \<ge> 4" "rt_waitMax p \<ge> 4" "rt_waitMax p < 2 ^ 53" "rt_waitMin p * 2 ^ k < 2 ^ 63"
  shows "let w = min (rt_waitMin p * 2 ^ k) (rt_waitMax p); d = jittered v (backoff p k) in
    0 < d \<and> 3 * w \<le> 4 * d \<and> 4 * d < 5 * w"
proof -
  let ?w = "min (rt_waitMin p * 2 ^ k) (rt_waitMax p)"
  have one: "(1::int) \<le> 2 ^ k" by simp
  have "(4::int) * 2 ^ k \<le> rt_waitMin p * 2 ^ k" using assms(1) by simp
  then have "(2::int) ^ k < 2 ^ 63" "rt_waitMin p * 2 ^ k \<ge> 4" using assms(4) one by linarith+
  then have "wrap64 (2 ^ k) = 2 ^ k" "wrap64 (rt_waitMin p * 2 ^ k) = rt_waitMin p * 2 ^ k" and w: "4 \<le> ?w" "?w < 2 ^ 62"
    using assms one by (auto intro!: wrap64_id intro: order_trans [of _ 0])
  then have b: "backoff p k = ?w" by (simp add: backoff_def Let_def)
  have "0 < jittered v w \<and> 3 * w \<le> 4 * jittered v w \<and> 4 * jittered v w < 5 * w" if w: "4 \<le> w" "w < 2 ^ 62" for w
  proof -
    have d: "w div 4 * 4 \<le> w" "0 < w div 4" using w by linarith+
    have q: "quarter w = w div 4" "wrap64 (quarter w * 2) = w div 4 * 2"
      using w d by (simp_all add: quarter_def wrap64_id)
    have r: "0 \<le> randInt64 v (w div 4 * 2)" "randInt64 v (w div 4 * 2) < w div 4 * 2"
      using d by (simp_all add: randInt64_def)
    have "jittered v w = w - w div 4 + randInt64 v (w div 4 * 2)"
    proof -
      have "- (2 ^ 63) \<le> w - w div 4 + randInt64 v (w div 4 * 2)" "w - w div 4 + randInt64 v (w div 4 * 2) < 2 ^ 63"
        using w d r by simp_all
      then show ?thesis unfolding jittered_def q(2) unfolding q(1) by (rule wrap64_id)
    qed
    then show ?thesis using d r w by linarith
  qed
  from this [OF w] show ?thesis unfolding Let_def b .
qed

theorem retry_wait_bounds_witness:
  "let p = retry_plan_of (plain_config\<lparr>cf_RetryEnabled := True, cf_MaxRetries := 5\<rparr>); d = jittered 123456789012 (backoff p 3) in
   0 < d \<and> 3 * 4000000000 \<le> 4 * d \<and> 4 * d < 5 * 4000000000"
proof -
  let ?p = "retry_plan_of (plain_config\<lparr>cf_RetryEnabled := True, cf_MaxRetries := 5\<rparr>)"
  have "rt_waitMin ?p = 500000000" "rt_waitMax ?p = 10000000000"
    by (simp_all add: retry_plan_of_def plain_config_def millisecond_def)
  then show ?thesis using retry_wait_bounds [of ?p 3 123456789012] by (simp add: Let_def)
qed

text \<open>
  Outside those bounds the product overflows: with the standard half second the wait before the
  36th retry is a negative duration, and from the 64th it is nothing, so that the client retries at once.\<close>

lemma backoff_overflows:
  "backoff (retry_plan_of (plain_config\<lparr>cf_RetryEnabled := True, cf_MaxRetries := 99\<rparr>)) 35 < 0 \<and>
   backoff (retry_plan_of (plain_config\<lparr>cf_RetryEnabled := True, cf_MaxRetries := 99\<rparr>)) 64 = 0"
  by (simp add: backoff_def retry_plan_of_def plain_config_def millisecond_def wrap64_def Let_def)

section \<open>A cookie that is set comes back\<close>

definition host_only :: "cookie_av list \<Rightarrow> bool" where
  "host_only avs \<longleftrightarrow> list_all (\<lambda>a. case a of ADomain d \<Rightarrow> False | _ \<Rightarrow> True) avs"

lemma mean_fields:
  "cd_Name (mean_set_cookie n v avs) = n" "cd_Value (mean_set_cookie n v avs) = v" "cd_Expires (mean_set_cookie n v avs) = None"
  "host_only avs \<Longrightarrow> cd_Domain (mean_set_cookie n v avs) = ''''"
proof -
  have one: "cd_Name (mean_av a c) = cd_Name c" "cd_Value (mean_av a c) = cd_Value c" "cd_Expires (mean_av a c) = cd_Expires c" for a c
    by (cases a; simp)+
  have "cd_Name (fold mean_av avs c) = cd_Name c" "cd_Value (fold mean_av avs c) = cd_Value c" "cd_Expires (fold mean_av avs c) = cd_Expires c" for c
    by (induction avs arbitrary: c) (simp_all add: one)
  then show "cd_Name (mean_set_cookie n v avs) = n" "cd_Value (mean_set_cookie n v avs) = v" "cd_Expires (mean_set_cookie n v avs) = None"
    by (simp_all add: mean_set_cookie_def empty_cookie_def)
  have "host_only avs \<Longrightarrow> cd_Domain (fold mean_av avs c) = cd_Domain c" for c
    by (induction avs arbitrary: c) (auto simp: host_only_def split: cookie_av.splits)
  then show "host_only avs \<Longrightarrow> cd_Domain (mean_set_cookie n v avs) = ''''"
    by (simp add: mean_set_cookie_def empty_cookie_def)
qed

definition stored_path :: "CookieData \<Rightarrow> string" where
  "stored_path c = (if has_prefix (cd_Path c) ''/'' then cd_Path c else ''/'')"



end
