(* ===== verification/SessionLife.thy ===== *)
theory SessionLife
  imports Session
begin

text \<open>
  The life of a session: its creation, settings, refresh and end in \<open>session/session.go\<close>, forks in
  \<open>session/fork.go\<close>. The identifier is what \<open>generateID\<close> returned. Whether the key log file can be
  opened is the parameter \<open>keylog\<close>; the DNS preference for IPv4 and the TLS session caches, which a
  fork shares with its parent, are not part of the transport's state here. The session keeps the
  pointer to the configuration it was given; the model gives each session a configuration of its own.
\<close>

section \<open>Creation\<close>

record SessionOptions =
  so_SessionCacheBackend :: bool
  so_CustomJA3 :: string
  so_CustomH2Settings :: "HTTP2Settings option"
  so_CustomPseudoOrder :: "string list"
  so_CustomTCPFingerprint :: "TCPFingerprint option"

definition zero_config :: SessionConfig where
  "zero_config =
     \<lparr>cf_Preset = '''', cf_BaseURL = '''', cf_Proxy = '''', cf_TCPProxy = '''', cf_UDPProxy = '''', cf_Timeout = 0, cf_FollowRedirects = False,
      cf_MaxRedirects = 0, cf_RetryEnabled = False, cf_MaxRetries = 0, cf_RetryWaitMin = 0, cf_RetryWaitMax = 0,
      cf_RetryOnStatus = [], cf_InsecureSkipVerify = False, cf_DisableKeepAlives = False, cf_DisableHTTP3 = False, cf_ForceHTTP1 = False,
      cf_ForceHTTP2 = False, cf_ForceHTTP3 = False, cf_PreferIPv4 = False, cf_LocalAddress = '''', cf_ConnectTo = [],
      cf_ECHConfigDomain = '''', cf_TLSOnly = False, cf_QuicIdleTimeout = 0, cf_KeyLogFile = '''', cf_DisableECH = False,
      cf_EnableSpeculativeTLS = False, cf_SwitchProtocol = '''', cf_WithoutCookieJar = False, cf_Auth = None\<rparr>"

definition needs_config :: "SessionConfig \<Rightarrow> bool \<Rightarrow> bool" where
  "needs_config c keylog \<longleftrightarrow>
     cf_ConnectTo c \<noteq> [] \<or> cf_ECHConfigDomain c \<noteq> '''' \<or> cf_TLSOnly c \<or> cf_QuicIdleTimeout c > 0 \<or>
     cf_LocalAddress c \<noteq> '''' \<or> keylog \<or> cf_EnableSpeculativeTLS c"

definition options_need_config :: "SessionOptions option \<Rightarrow> bool" where
  "options_need_config opts =
     (case opts of
        None \<Rightarrow> False
      | Some o' \<Rightarrow> so_SessionCacheBackend o' \<or> so_CustomJA3 o' \<noteq> '''' \<or> so_CustomH2Settings o' \<noteq> None \<or>
          so_CustomPseudoOrder o' \<noteq> [] \<or> so_CustomTCPFingerprint o' \<noteq> None)"

definition config_of_session :: "SessionConfig \<Rightarrow> TransportConfig" where
  "config_of_session c =
     empty_config\<lparr>tc_ConnectTo := cf_ConnectTo c, tc_ECHConfigDomain := cf_ECHConfigDomain c,
       tc_TLSOnly := cf_TLSOnly c, tc_LocalAddr := cf_LocalAddress c\<rparr>"

definition with_options :: "SessionOptions option \<Rightarrow> TransportConfig \<Rightarrow> TransportConfig" where
  "with_options opts tc =
     (case opts of
        None \<Rightarrow> tc
      | Some o' \<Rightarrow> tc\<lparr>tc_CustomH2Settings := so_CustomH2Settings o', tc_CustomPseudoOrder := so_CustomPseudoOrder o',
          tc_CustomTCPFingerprint := so_CustomTCPFingerprint o'\<rparr>)"

definition session_proxy :: "SessionConfig \<Rightarrow> ProxyConfig option" where
  "session_proxy c =
     (if cf_Proxy c \<noteq> '''' \<or> cf_TCPProxy c \<noteq> '''' \<or> cf_UDPProxy c \<noteq> ''''
      then Some ((url_proxy (cf_Proxy c))\<lparr>px_TCPProxy := cf_TCPProxy c, px_UDPProxy := cf_UDPProxy c\<rparr>)
      else None)"

definition forced_protocol :: "SessionConfig \<Rightarrow> Protocol option" where
  "forced_protocol c =
     (if cf_ForceHTTP1 c then Some ProtocolHTTP1
      else if cf_ForceHTTP2 c then Some ProtocolHTTP2
      else if cf_ForceHTTP3 c then Some ProtocolHTTP3
      else if cf_DisableHTTP3 c then Some ProtocolHTTP2 else None)"

definition configure_transport :: "SessionConfig \<Rightarrow> transport \<Rightarrow> transport" where
  "configure_transport c t0 =
     (let t1 = (if cf_InsecureSkipVerify c then SetInsecureSkipVerify True t0 else t0);
          t2 = (case forced_protocol c of None \<Rightarrow> t1 | Some p \<Rightarrow> SetProtocol p t1)
      in if cf_DisableECH c then SetDisableECH True t2 else t2)"

datatype session_error = InvalidProtocol string | NoHTTP3 string | SessionClosed

definition parseProtocol :: "string \<Rightarrow> session_error + Protocol" where
  "parseProtocol proto =
     (if proto \<in> {''h1'', ''http1'', ''1''} then Inr ProtocolHTTP1
      else if proto \<in> {''h2'', ''http2'', ''2''} then Inr ProtocolHTTP2
      else if proto \<in> {''h3'', ''http3'', ''3''} then Inr ProtocolHTTP3
      else if proto \<in> {''auto'', ''''} then Inr ProtocolAuto
      else Inl (InvalidProtocol proto))"

definition switch_of :: "SessionConfig \<Rightarrow> Protocol" where
  "switch_of c =
     (if cf_SwitchProtocol c \<noteq> '''' then (case parseProtocol (cf_SwitchProtocol c) of Inl e \<Rightarrow> ProtocolAuto | Inr p \<Rightarrow> p)
      else ProtocolAuto)"

definition fresh_session :: "string \<Rightarrow> time \<Rightarrow> SessionConfig \<Rightarrow> transport \<Rightarrow> session" where
  "fresh_session ident now c t =
     \<lparr>ss_ID = ident, ss_CreatedAt = now, ss_LastUsed = now, ss_RequestCount = 0, ss_Config = c, ss_transport = t,
      ss_cacheEntries = [], ss_clientHints = [], ss_refreshed = False, ss_switchProtocol = switch_of c, ss_active = True\<rparr>"

definition given_config :: "SessionConfig option \<Rightarrow> SessionConfig" where
  "given_config config =
     (case config of None \<Rightarrow> zero_config\<lparr>cf_Preset := ''chrome-latest'', cf_Timeout := 30\<rparr> | Some c \<Rightarrow> c)"

text \<open>\<open>id0\<close> is the argument, \<open>newid\<close> what \<open>generateID\<close> returns. The jar is a new one.\<close>

definition NewSessionWithOptions ::
  "set_up \<Rightarrow> (string \<Rightarrow> bool) \<Rightarrow> time \<Rightarrow> string \<Rightarrow> string \<Rightarrow> SessionConfig option \<Rightarrow> SessionOptions option \<Rightarrow> session" where
  "NewSessionWithOptions su keylog now newid id0 config opts =
     (let c = given_config config;
          keys = (cf_KeyLogFile c \<noteq> '''' \<and> keylog (cf_KeyLogFile c));
          tc = (if needs_config c keys \<or> options_need_config opts then Some (with_options opts (config_of_session c)) else None);
          t = NewTransportWithConfig su (session_preset c) (session_proxy c) tc
      in fresh_session (or_default id0 newid) now c (configure_transport c t))"

definition NewSession ::
  "set_up \<Rightarrow> (string \<Rightarrow> bool) \<Rightarrow> time \<Rightarrow> string \<Rightarrow> string \<Rightarrow> SessionConfig option \<Rightarrow> session" where
  "NewSession su keylog now newid id0 config = NewSessionWithOptions su keylog now newid id0 config None"

section \<open>Settings, refresh and end\<close>

definition IsActive :: "session \<Rightarrow> bool" where
  "IsActive s = ss_active s"

definition Session_Close :: "session \<Rightarrow> session" where
  "Session_Close s = (if \<not> ss_active s then s else s\<lparr>ss_active := False\<rparr>)"

text \<open>The transport's \<open>Refresh\<close> closes its connections only.\<close>

definition Session_Refresh :: "session \<Rightarrow> session" where
  "Session_Refresh s =
     (if \<not> ss_active s then s
      else s\<lparr>ss_refreshed := True,
             ss_transport := (if ss_switchProtocol s \<noteq> ProtocolAuto
                              then RefreshWithProtocol (ss_switchProtocol s) (ss_transport s) else ss_transport s)\<rparr>)"

definition Session_RefreshWithProtocol :: "set_up \<Rightarrow> string \<Rightarrow> session \<Rightarrow> (session_error + unit) \<times> session" where
  "Session_RefreshWithProtocol su proto s =
     (case parseProtocol proto of
        Inl e \<Rightarrow> (Inl e, s)
      | Inr p \<Rightarrow>
          if p = ProtocolHTTP3 \<and> \<not> pr_SupportHTTP3 (su_preset su (cf_Preset (ss_Config s)))
          then (Inl (NoHTTP3 (cf_Preset (ss_Config s))), s)
          else if \<not> ss_active s then (Inl SessionClosed, s)
          else (Inr (), s\<lparr>ss_refreshed := True, ss_switchProtocol := p,
                         ss_transport := RefreshWithProtocol p (ss_transport s)\<rparr>))"

definition Touch :: "time \<Rightarrow> session \<Rightarrow> session" where
  "Touch now s = s\<lparr>ss_LastUsed := now\<rparr>"

definition ClearCache :: "session \<Rightarrow> session" where
  "ClearCache s = s\<lparr>ss_cacheEntries := []\<rparr>"

definition IdleTime :: "time \<Rightarrow> session \<Rightarrow> duration" where
  "IdleTime now s = now - ss_LastUsed s"

definition Session_SetProxy :: "set_up \<Rightarrow> string \<Rightarrow> session \<Rightarrow> session" where
  "Session_SetProxy su url s =
     s\<lparr>ss_transport := Transport_SetProxy su (if url \<noteq> '''' then Some (url_proxy url) else None) (ss_transport s),
       ss_Config := (ss_Config s)\<lparr>cf_Proxy := url, cf_TCPProxy := '''', cf_UDPProxy := ''''\<rparr>\<rparr>"

definition SetTCPProxy :: "set_up \<Rightarrow> string \<Rightarrow> session \<Rightarrow> session" where
  "SetTCPProxy su url s =
     s\<lparr>ss_transport := Transport_SetProxy su
         (Some ((url_proxy '''')\<lparr>px_TCPProxy := url, px_UDPProxy := cf_UDPProxy (ss_Config s)\<rparr>)) (ss_transport s),
       ss_Config := (ss_Config s)\<lparr>cf_TCPProxy := url, cf_Proxy := ''''\<rparr>\<rparr>"

definition SetUDPProxy :: "set_up \<Rightarrow> string \<Rightarrow> session \<Rightarrow> session" where
  "SetUDPProxy su url s =
     s\<lparr>ss_transport := Transport_SetProxy su
         (Some ((url_proxy '''')\<lparr>px_TCPProxy := cf_TCPProxy (ss_Config s), px_UDPProxy := url\<rparr>)) (ss_transport s),
       ss_Config := (ss_Config s)\<lparr>cf_UDPProxy := url, cf_Proxy := ''''\<rparr>\<rparr>"

definition GetProxy :: "session \<Rightarrow> string" where
  "GetProxy s = or_default (cf_Proxy (ss_Config s)) (cf_TCPProxy (ss_Config s))"

definition GetTCPProxy :: "session \<Rightarrow> string" where
  "GetTCPProxy s = or_default (cf_TCPProxy (ss_Config s)) (cf_Proxy (ss_Config s))"

definition GetUDPProxy :: "session \<Rightarrow> string" where
  "GetUDPProxy s = or_default (cf_UDPProxy (ss_Config s)) (cf_Proxy (ss_Config s))"

definition Session_SetHeaderOrder :: "string list \<Rightarrow> session \<Rightarrow> session" where
  "Session_SetHeaderOrder order s = s\<lparr>ss_transport := SetHeaderOrder order (ss_transport s)\<rparr>"

definition Session_GetHeaderOrder :: "session \<Rightarrow> string list" where
  "Session_GetHeaderOrder s = GetHeaderOrder (ss_transport s)"

text \<open>The cookie methods of the session are those of its jar.\<close>

definition Session_SetCookies :: "time \<Rightarrow> CookieState list \<Rightarrow> jar \<Rightarrow> jar" where
  "Session_SetCookies now cs j =
     fold (\<lambda>c. jar_SetSimple now (cs_Name c) (cs_Value c) (cs_Domain c) (cs_Path c) (cs_Secure c) (cs_HttpOnly c)
            (cs_SameSite c) (cs_MaxAge c) (cs_Expires c)) cs j"

section \<open>Forks\<close>

definition forkOne :: "set_up \<Rightarrow> time \<Rightarrow> string \<Rightarrow> session \<Rightarrow> session" where
  "forkOne su now newid s =
     (let c = ss_Config s;
          tc = (case tr_config (ss_transport s) of
                  Some parent \<Rightarrow> Some parent
                | None \<Rightarrow> if needs_config c False then Some (config_of_session c) else None);
          t = NewTransportWithConfig su (session_preset c) (session_proxy c) tc
      in (fresh_session newid now c (configure_transport c t))
           \<lparr>ss_cacheEntries := ss_cacheEntries s, ss_clientHints := ss_clientHints s\<rparr>)"

text \<open>\<open>ids\<close> yields the identifiers of the forks; \<open>None\<close> is the nil slice.\<close>

definition Fork :: "set_up \<Rightarrow> time \<Rightarrow> (nat \<Rightarrow> string) \<Rightarrow> int \<Rightarrow> session \<Rightarrow> session list option" where
  "Fork su now ids n s =
     (if \<not> ss_active s \<or> n \<le> 0 then None else Some (map (\<lambda>i. forkOne su now (ids i) s) [0..<nat n]))"

section \<open>The session as a machine\<close>

datatype 'w session_op =
    SetsProxy string
  | SetsTCPProxy string
  | SetsUDPProxy string
  | SetsHeaderOrder "string list"
  | Refreshes
  | RefreshesWith string
  | Touches time
  | ClearsCache
  | Closes
  | Requests "'w surroundings" request
  | TheJar "jar \<Rightarrow> jar"

definition on_session :: "(session \<Rightarrow> session) \<Rightarrow> 'w state \<Rightarrow> 'w state" where
  "on_session f st = st\<lparr>sx_session := f (sx_session st)\<rparr>"

fun session_step :: "set_up \<Rightarrow> 'w session_op \<Rightarrow> 'w state \<Rightarrow> 'w state" where
  "session_step su (SetsProxy u) st = on_session (Session_SetProxy su u) st"
| "session_step su (SetsTCPProxy u) st = on_session (SetTCPProxy su u) st"
| "session_step su (SetsUDPProxy u) st = on_session (SetUDPProxy su u) st"
| "session_step su (SetsHeaderOrder hs) st = on_session (Session_SetHeaderOrder hs) st"
| "session_step su Refreshes st = on_session Session_Refresh st"
| "session_step su (RefreshesWith p) st = on_session (\<lambda>s. snd (Session_RefreshWithProtocol su p s)) st"
| "session_step su (Touches now) st = on_session (Touch now) st"
| "session_step su ClearsCache st = on_session ClearCache st"
| "session_step su Closes st = on_session Session_Close st"
| "session_step su (Requests surr req) st = snd (snd (Session_Request surr req st))"
| "session_step su (TheJar f) st = st\<lparr>sx_jar := f (sx_jar st)\<rparr>"

section \<open>What a request keeps\<close>

text \<open>
  An invariant of a request: every attempt keeps it, and it speaks only of the transport, the
  configuration, the session's end and the traces, which the bookkeeping around the attempts does
  not touch.
\<close>

definition kept_view :: "'w state \<Rightarrow> (transport \<times> SessionConfig \<times> bool \<times> Protocol) \<times> hop list \<times> request list" where
  "kept_view st =
     (let s = sx_session st in
      ((ss_transport s, ss_Config s, ss_active s, ss_switchProtocol s), wd_log (sx_world st), sx_sent st))"

lemma view_learn [simp]: "kept_view (learn_response surr url hs st) = kept_view st"
  by (simp add: kept_view_def learn_response_def parseAcceptCH_def Let_def)

lemma view_net [simp]: "kept_view (st\<lparr>sx_world := (sx_world st)\<lparr>wd_net := n\<rparr>\<rparr>) = kept_view st"
  by (simp add: kept_view_def Let_def)

lemma view_begin [simp]: "kept_view (st\<lparr>sx_session := begin_request now (sx_session st)\<rparr>) = kept_view st"
  by (simp add: kept_view_def begin_request_def Let_def)

lemma view_store [simp]:
  "kept_view (st\<lparr>sx_session := storeCacheHeaders url hs (sx_session st)\<rparr>) = kept_view st"
  by (simp add: kept_view_def storeCacheHeaders_def Let_def)

lemma redirects_keep:
  assumes "requestWithRedirects su req n history st = (res, h, st')" "I st"
    and "\<And>req n history st out h st'. request_hop su req n history st = (out, h, st') \<Longrightarrow> I st \<Longrightarrow> I st'"
  shows "I st'"
  using assms
proof (induction su req n history st arbitrary: res h st' rule: requestWithRedirects.induct)
  case (1 su req n history st)
  note hops = 1(4)
  obtain out h1 st1 where hop: "request_hop su req n history st = (out, h1, st1)" by (metis prod_cases3)
  note I1 = hops [OF hop 1(3)]
  show ?case
  proof (cases out)
    case (Final r)
    then show ?thesis using 1(2) hop I1 by (subst (asm) requestWithRedirects.simps) simp
  next
    case (Follow req' info)
    note hop' = hop [unfolded Follow]
    obtain res2 h2 st2 where rest: "requestWithRedirects su req' (n + 1) (history @ [info]) st1 = (res2, h2, st2)"
      by (metis prod_cases3)
    have "I st2" by (rule 1(1) [OF hop' [symmetric] refl refl rest I1]) (rule hops)
    moreover have "st' = st2" using 1(2) hop' rest by (subst (asm) requestWithRedirects.simps) simp
    ultimately show ?thesis by simp
  qed
qed

locale request_invariant =
  fixes surr :: "'w surroundings" and I :: "'w state \<Rightarrow> bool"
  assumes attempt: "I st \<Longrightarrow> attempt_once surr req c st = (res, h, st') \<Longrightarrow> I st'"
    and unseen: "I st \<Longrightarrow> kept_view st' = kept_view st \<Longrightarrow> I st'"
begin

lemma learned: "I st \<Longrightarrow> I (learn_response surr url hs st)"
  by (rule unseen) simp_all

lemma stored: "I st \<Longrightarrow> I (st\<lparr>sx_session := storeCacheHeaders url hs (sx_session st)\<rparr>)"
  by (rule unseen) simp_all

lemma loop: "attempt_loop surr p c left k req st = (res, h, st') \<Longrightarrow> I st \<Longrightarrow> I st'"
  by (rule attempt_loop_keeps [where I = "\<lambda>h. I"]) (auto intro: attempt learned unseen)

lemma hop:
  assumes "request_hop surr req n history st = (out, h, st')" "I st"
  shows "I st'"
proof (cases "ss_active (sx_session st)")
  case False
  then show ?thesis using assms by (simp add: request_hop_def)
next
  case True
  let ?s = "begin_request (su_now surr (wd_net (sx_world st))) (sx_session st)"
  have "I (st\<lparr>sx_session := ?s\<rparr>)" using assms(2) by (rule unseen) simp
  then show ?thesis
    using assms(1) True loop learned stored
    by (auto simp: request_hop_def Let_def split: prod.splits sum.splits)
qed

lemma request: "Session_Request surr req st = (res, h, st') \<Longrightarrow> I st \<Longrightarrow> I st'"
  unfolding Session_Request_def by (rule redirects_keep) (auto intro: hop)

lemma request_step: "I st \<Longrightarrow> I (snd (snd (Session_Request surr req st)))"
  by (cases "Session_Request surr req st") (auto intro: request)

end

section \<open>Proxies\<close>

text \<open>What the getters report is the way out of the machine that the transport takes.\<close>

definition way :: "string \<Rightarrow> via" where
  "way u = (if u = '''' then Direct else Proxied u)"

definition proxy_true :: "session \<Rightarrow> bool" where
  "proxy_true s \<longleftrightarrow>
     (let t = ss_transport s; tcp = GetTCPProxy s; udp = GetUDPProxy s in
      tcp_via (tr_h1 t) = way tcp \<and> tcp_via (tr_h2 t) = way tcp \<and>
      (case tr_h3ProxyError t of None \<Rightarrow> h3_via (tr_h3 t) = way udp | Some e \<Rightarrow> udp \<noteq> '''') \<and>
      (is_proxied t \<longleftrightarrow> tcp \<noteq> '''' \<or> udp \<noteq> ''''))"

lemma proxy_true_same:
  "proxy_true s \<Longrightarrow> same_routes (ss_transport s) (ss_transport s') \<Longrightarrow> ss_Config s' = ss_Config s \<Longrightarrow> proxy_true s'"
  by (simp add: proxy_true_def same_routes_def GetTCPProxy_def GetUDPProxy_def is_proxied_def Let_def split: option.splits)

lemma same_routes_trans: "same_routes a b \<Longrightarrow> same_routes b c \<Longrightarrow> same_routes a c"
  by (simp add: same_routes_def)

lemma build_h3_way:
  "case snd (build_h3 su config (url_proxy u) u) of
     None \<Rightarrow> h3_via (fst (build_h3 su config (url_proxy u) u)) = way u | Some e \<Rightarrow> u \<noteq> ''''"
  by (auto simp: build_h3_def h3_via_def direct_h3_def way_def split: if_splits option.splits)

lemma configure_routes: "same_routes t (configure_transport c t)"
  by (simp add: configure_transport_def Let_def same_routes_def SetInsecureSkipVerify_def SetProtocol_def SetDisableECH_def
      tcp_via_def h3_via_def split: option.split)

lemma proxy_true_new: "proxy_true (fresh_session i now c (configure_transport c (NewTransportWithConfig su n (session_proxy c) tc)))"
proof -
  let ?t = "NewTransportWithConfig su n (session_proxy c) tc"
  have "proxy_true (fresh_session i now c ?t)"
    using build_h3_way [of su tc "or_default (cf_UDPProxy c) (cf_Proxy c)"]
    by (auto simp: proxy_true_def fresh_session_def NewTransportWithConfig_def session_proxy_def GetTCPProxy_def GetUDPProxy_def
        tcp_url_def udp_url_def or_default_def way_def is_proxied_def case_prod_beta Let_def split: option.splits)
  then show ?thesis by (rule proxy_true_same) (simp_all add: fresh_session_def configure_routes)
qed

lemma proxy_true_fork: "proxy_true (forkOne su now i s)"
proof -
  have "\<exists>tc. forkOne su now i s = (fresh_session i now (ss_Config s) (configure_transport (ss_Config s)
      (NewTransportWithConfig su (session_preset (ss_Config s)) (session_proxy (ss_Config s)) tc)))
        \<lparr>ss_cacheEntries := ss_cacheEntries s, ss_clientHints := ss_clientHints s\<rparr>"
    by (auto simp: forkOne_def Let_def)
  then obtain tc where fork: "forkOne su now i s = (fresh_session i now (ss_Config s) (configure_transport (ss_Config s)
      (NewTransportWithConfig su (session_preset (ss_Config s)) (session_proxy (ss_Config s)) tc)))
        \<lparr>ss_cacheEntries := ss_cacheEntries s, ss_clientHints := ss_clientHints s\<rparr>" by blast
  show ?thesis unfolding fork by (rule proxy_true_same [OF proxy_true_new [where su = su and n = "session_preset (ss_Config s)" and tc = tc and i = i and now = now and c = "ss_Config s"]])
      (simp_all add: fresh_session_def)
qed

lemma url_proxy_fields [simp]: "px_TCPProxy (url_proxy u) = ''''" "px_UDPProxy (url_proxy u) = ''''"
  by (simp_all add: url_proxy_def)

lemma proxy_true_set:
  "proxy_true (Session_SetProxy su u s)" "proxy_true (SetTCPProxy su u s)" "proxy_true (SetUDPProxy su u s)"
  using build_h3_way [of su None u] build_h3_way [of su None "cf_UDPProxy (ss_Config s)"]
  by (auto simp: proxy_true_def Session_SetProxy_def SetTCPProxy_def SetUDPProxy_def Transport_SetProxy_def GetTCPProxy_def GetUDPProxy_def
      udp_url_def or_default_def way_def is_proxied_def case_prod_beta Let_def split: option.splits)

lemma attempt_routes:
  assumes "attempt_once surr req c st = (res, h, st')"
  shows "same_routes (ss_transport (sx_session st)) (ss_transport (sx_session st'))"
proof -
  have "\<exists>r. ss_transport (sx_session st') = snd (Transport_Do (su_net surr) (ss_transport (sx_session st)) r (sx_world st))"
    using assms by (auto simp: attempt_once_def Let_def split: prod.splits) (metis snd_conv)+
  then show ?thesis using Do_routes by metis
qed

interpretation requests_routes: request_invariant surr "\<lambda>st. proxy_true (sx_session st)" for surr
proof unfold_locales
  fix st req c res h st'
  assume "proxy_true (sx_session st)" "attempt_once surr req c st = (res, h, st')"
  then show "proxy_true (sx_session st')"
    using attempt_routes config_attempt_once by (blast intro: proxy_true_same)
next
  fix st st'
  assume "proxy_true (sx_session st)" "kept_view st' = kept_view st"
  then show "proxy_true (sx_session st')"
    by (auto simp: kept_view_def Let_def intro: proxy_true_same)
qed

lemma refresh_routes:
  "proxy_true s \<Longrightarrow> proxy_true (Session_Refresh s)" "proxy_true s \<Longrightarrow> proxy_true (snd (Session_RefreshWithProtocol su p s))"
  "proxy_true s \<Longrightarrow> proxy_true (Session_SetHeaderOrder hs s)" "proxy_true s \<Longrightarrow> proxy_true (Touch now s)"
  "proxy_true s \<Longrightarrow> proxy_true (ClearCache s)" "proxy_true s \<Longrightarrow> proxy_true (Session_Close s)"
  by (auto elim!: proxy_true_same simp: Session_Refresh_def Session_RefreshWithProtocol_def Session_SetHeaderOrder_def
      Touch_def ClearCache_def Session_Close_def setter_routes split: sum.splits)

lemma proxy_true_step:
  "proxy_true (sx_session st) \<Longrightarrow> proxy_true (sx_session (session_step su op st))"
  by (cases op) (simp_all add: on_session_def proxy_true_set refresh_routes requests_routes.request_step)

interpretation session_proxies: op_machine "session_step su" "\<lambda>op. True" "\<lambda>st. proxy_true (sx_session st)" for su
  by unfold_locales (rule proxy_true_step)

text \<open>A state of the surroundings and a new session in it.\<close>

definition start_state :: "session \<Rightarrow> jar \<Rightarrow> 'w world \<Rightarrow> 'w state" where
  "start_state s j w = \<lparr>sx_session = s, sx_jar = j, sx_world = w, sx_sent = []\<rparr>"

lemma proxy_true_run:
  "proxy_true s \<Longrightarrow> proxy_true (sx_session (fold (session_step su) ops (start_state s j w)))"
  by (rule session_proxies.run_inv) (simp_all add: start_state_def list_all_iff)

lemma proxy_true_session: "proxy_true (NewSessionWithOptions su keylog now newid id0 config opts)"
  by (simp add: NewSessionWithOptions_def Let_def proxy_true_new)

text \<open>
  The getters tell the truth: for every configuration a session is created with, and after every
  sequence of its methods, proxy changes, refreshes, redirected and retried requests included,
  \<open>GetTCPProxy\<close> is the proxy that HTTP/1 and HTTP/2 go through, \<open>GetUDPProxy\<close> the one that
  HTTP/3 goes through, unless setting up its tunnel failed, and an empty answer means that the
  requests leave the machine directly. So it is for a fork of the session.\<close>

theorem proxy_getters_true:
  "let s = sx_session (fold (session_step su) ops (start_state (NewSessionWithOptions su keylog now newid id0 config opts) j w));
       good = (\<lambda>s. let t = ss_transport s in
         tcp_via (tr_h1 t) = way (GetTCPProxy s) \<and> tcp_via (tr_h2 t) = way (GetTCPProxy s) \<and>
         (case tr_h3ProxyError t of None \<Rightarrow> h3_via (tr_h3 t) = way (GetUDPProxy s) | Some e \<Rightarrow> GetUDPProxy s \<noteq> ''''))
   in good s \<and> good (forkOne su now2 newid2 s)"
  using proxy_true_run [OF proxy_true_session, of su ops su keylog now newid id0 config opts j w]
    proxy_true_fork [of su now2 newid2 "sx_session (fold (session_step su) ops (start_state (NewSessionWithOptions su keylog now newid id0 config opts) j w))"]
  by (auto simp: proxy_true_def Let_def)

section \<open>No request beside the proxy\<close>

lemma proxy_true_wf: "proxy_true s \<Longrightarrow> GetTCPProxy s \<noteq> '''' \<Longrightarrow> GetUDPProxy s \<noteq> '''' \<Longrightarrow> proxied_wf (ss_transport s)"
  by (auto simp: proxy_true_def proxied_wf_def routes_ok_def way_def Let_def split: option.splits)

lemma attempt_appends:
  assumes "attempt_once surr req c st = (res, h, st')" "proxied_wf (ss_transport (sx_session st))"
  shows "appends (\<lambda>h. hop_via h \<noteq> Direct) (sx_world st) (sx_world st')"
proof -
  have "\<exists>r. sx_world st' = snd (fst (Transport_Do (su_net surr) (ss_transport (sx_session st)) r (sx_world st)))"
    using assms(1) by (auto simp: attempt_once_def Let_def split: prod.splits) (metis fst_conv snd_conv)+
  then show ?thesis using appends_Do [OF assms(2)] by metis
qed

interpretation requests_proxied: request_invariant surr
    "\<lambda>st. proxied_wf (ss_transport (sx_session st)) \<and> appends (\<lambda>h. hop_via h \<noteq> Direct) w0 (sx_world st)" for surr w0
proof unfold_locales
  fix st req c res h st'
  assume I: "proxied_wf (ss_transport (sx_session st)) \<and> appends (\<lambda>h. hop_via h \<noteq> Direct) w0 (sx_world st)"
    and once: "attempt_once surr req c st = (res, h, st')"
  show "proxied_wf (ss_transport (sx_session st')) \<and> appends (\<lambda>h. hop_via h \<noteq> Direct) w0 (sx_world st')"
    using I same_routes_wf [OF attempt_routes [OF once]] attempt_appends [OF once] appends_trans by blast
next
  fix st st' :: "'a state"
  assume "proxied_wf (ss_transport (sx_session st)) \<and> appends (\<lambda>h. hop_via h \<noteq> Direct) w0 (sx_world st)"
    "kept_view st' = kept_view st"
  then show "proxied_wf (ss_transport (sx_session st')) \<and> appends (\<lambda>h. hop_via h \<noteq> Direct) w0 (sx_world st')"
    by (simp add: kept_view_def appends_def Let_def)
qed



section \<open>A closed session stays closed\<close>

interpretation requests_closed: request_invariant surr "\<lambda>st. \<not> ss_active (sx_session st)" for surr
proof unfold_locales
  fix st req c res h st'
  assume "\<not> ss_active (sx_session st)" "attempt_once surr req c st = (res, h, st')"
  then show "\<not> ss_active (sx_session st')" by (auto simp: attempt_once_def Let_def split: prod.splits)
next
  fix st st'
  assume "\<not> ss_active (sx_session st)" "kept_view st' = kept_view st"
  then show "\<not> ss_active (sx_session st')" by (simp add: kept_view_def Let_def)
qed

lemma closed_step: "\<not> ss_active (sx_session st) \<Longrightarrow> \<not> ss_active (sx_session (session_step su op st))"
  by (cases op) (simp_all add: on_session_def Session_SetProxy_def SetTCPProxy_def SetUDPProxy_def Session_SetHeaderOrder_def
      Session_Refresh_def Session_RefreshWithProtocol_def Touch_def ClearCache_def Session_Close_def
      requests_closed.request_step split: sum.split)

interpretation closed_sessions: op_machine "session_step su" "\<lambda>op. True" "\<lambda>st. \<not> ss_active (sx_session st)" for su
  by unfold_locales (rule closed_step)

text \<open>C36.
  \<open>Close\<close> is final. Whatever is called on a closed session, it stays closed; a request on it
  returns \<open>ErrSessionClosed\<close> without contacting anything and without changing the session, the jar
  or the caller's headers, a fork yields nothing, and a refresh with a protocol it would accept fails.\<close>

theorem closed_session_final:
  "let st' = fold (session_step su) ops (on_session Session_Close st) in
     \<not> IsActive (sx_session st') \<and>
     Session_Request surr req st' = (Inl ErrSessionClosed, rq_Headers req, st') \<and>
     Fork su now ids n (sx_session st') = None \<and>
     fst (Session_RefreshWithProtocol su ''h2'' (sx_session st')) = Inl SessionClosed"
proof -
  have "\<not> ss_active (sx_session (on_session Session_Close st))"
    by (simp add: on_session_def Session_Close_def)
  then have closed: "\<not> ss_active (sx_session (fold (session_step su) ops (on_session Session_Close st)))"
    by (rule closed_sessions.run_inv) (simp add: list_all_iff)
  have "Session_Request surr req st' = (Inl ErrSessionClosed, rq_Headers req, st')" if "\<not> ss_active (sx_session st')" for st'
    unfolding Session_Request_def by (subst requestWithRedirects.simps) (simp add: request_hop_def that)
  with closed show ?thesis
    by (simp add: Let_def IsActive_def Fork_def Session_RefreshWithProtocol_def parseProtocol_def)
qed

section \<open>A forced protocol\<close>

fun hop_protocol :: "hop \<Rightarrow> Protocol" where
  "hop_protocol (HopH1 v) = ProtocolHTTP1"
| "hop_protocol (HopH1Conn v) = ProtocolHTTP1"
| "hop_protocol (HopH2 v) = ProtocolHTTP2"
| "hop_protocol (HopH3 v) = ProtocolHTTP3"
| "hop_protocol (ConnectH2 v) = ProtocolHTTP2"
| "hop_protocol (ConnectH3 v) = ProtocolHTTP3"

lemma forced_Do:
  assumes "tr_protocol t = p" "p \<noteq> ProtocolAuto"
  shows "appends (\<lambda>h. hop_protocol h \<in> {p, ProtocolHTTP1}) w (snd (fst (Transport_Do nt t req w)))"
    "tr_protocol (snd (Transport_Do nt t req w)) = p"
proof -
  have h1: "appends (\<lambda>h. hop_protocol h \<in> {p, ProtocolHTTP1}) w (snd (doHTTP1 nt t req w))"
    by (auto simp: doHTTP1_def intro!: appends_exchange split: option.splits)
  have h2: "p = ProtocolHTTP2 \<Longrightarrow> appends (\<lambda>h. hop_protocol h \<in> {p, ProtocolHTTP1}) w (snd (doHTTP2 nt t req w))"
    by (auto simp: doHTTP2_def intro!: appends_exchange split: option.splits)
  have h3: "p = ProtocolHTTP3 \<Longrightarrow> appends (\<lambda>h. hop_protocol h \<in> {p, ProtocolHTTP1}) w (snd (doHTTP3 nt t req w))"
    by (auto simp: doHTTP3_def intro!: appends_exchange split: option.splits)
  show "appends (\<lambda>h. hop_protocol h \<in> {p, ProtocolHTTP1}) w (snd (fst (Transport_Do nt t req w)))"
    "tr_protocol (snd (Transport_Do nt t req w)) = p"
    using h1 h2 h3 assms
    by (auto simp: Transport_Do_def do_proxied_def split: option.splits Protocol.splits)
qed

fun no_switch :: "'w session_op \<Rightarrow> bool" where
  "no_switch (RefreshesWith p) = False"
| "no_switch _ = True"

definition forced_to :: "Protocol \<Rightarrow> session \<Rightarrow> bool" where
  "forced_to p s \<longleftrightarrow> p \<noteq> ProtocolAuto \<and> tr_protocol (ss_transport s) = p \<and> ss_switchProtocol s = ProtocolAuto"

interpretation requests_forced: request_invariant surr
    "\<lambda>st. forced_to p (sx_session st) \<and> appends (\<lambda>h. hop_protocol h \<in> {p, ProtocolHTTP1}) w0 (sx_world st)" for surr p w0
proof unfold_locales
  fix st req c res h st'
  assume I: "forced_to p (sx_session st) \<and> appends (\<lambda>h. hop_protocol h \<in> {p, ProtocolHTTP1}) w0 (sx_world st)"
    and once: "attempt_once surr req c st = (res, h, st')"
  have "\<exists>r. ss_transport (sx_session st') = snd (Transport_Do (su_net surr) (ss_transport (sx_session st)) r (sx_world st)) \<and>
      sx_world st' = snd (fst (Transport_Do (su_net surr) (ss_transport (sx_session st)) r (sx_world st)))"
    "ss_switchProtocol (sx_session st') = ss_switchProtocol (sx_session st)"
    using once by (auto simp: attempt_once_def Let_def split: prod.splits) (metis fst_conv snd_conv)+
  then show "forced_to p (sx_session st') \<and> appends (\<lambda>h. hop_protocol h \<in> {p, ProtocolHTTP1}) w0 (sx_world st')"
    using I forced_Do appends_trans unfolding forced_to_def by metis
next
  fix st st' :: "'a state"
  assume "forced_to p (sx_session st) \<and> appends (\<lambda>h. hop_protocol h \<in> {p, ProtocolHTTP1}) w0 (sx_world st)"
    "kept_view st' = kept_view st"
  then show "forced_to p (sx_session st') \<and> appends (\<lambda>h. hop_protocol h \<in> {p, ProtocolHTTP1}) w0 (sx_world st')"
    by (simp add: kept_view_def appends_def forced_to_def Let_def)
qed

lemma forced_step:
  assumes "forced_to p (sx_session st)" "no_switch op"
  shows "forced_to p (sx_session (session_step su op st))"
  using assms requests_forced.request_step [of p st "sx_world st"]
  by (cases op) (auto simp: on_session_def Session_SetProxy_def SetTCPProxy_def SetUDPProxy_def Session_SetHeaderOrder_def
      Session_Refresh_def Touch_def ClearCache_def Session_Close_def forced_to_def Transport_SetProxy_def reapply_insecure_def
      SetHeaderOrder_def Let_def split: prod.splits)

interpretation forced_sessions: op_machine "session_step su" no_switch "\<lambda>st. forced_to p (sx_session st)" for su p
  by unfold_locales (rule forced_step)

lemma forced_new:
  assumes "forced_protocol (given_config config) = Some p" "switch_of (given_config config) = ProtocolAuto"
  shows "forced_to p (NewSessionWithOptions su keylog now newid id0 config opts)"
proof -
  have "p \<noteq> ProtocolAuto" using assms(1) by (auto simp: forced_protocol_def split: if_splits)
  then show ?thesis
    using assms by (simp add: forced_to_def NewSessionWithOptions_def Let_def fresh_session_def configure_transport_def
        SetProtocol_def SetDisableECH_def)
qed

text \<open>
  A forced protocol is obeyed: \<open>ForceHTTP1\<close> before \<open>ForceHTTP2\<close> before \<open>ForceHTTP3\<close> before
  \<open>DisableHTTP3\<close>. As long as no refresh asks for another one, every attempt of every request uses that
  protocol, or HTTP/1 where the address is plain \<open>http\<close>: there is no race and no fallback, whatever the
  proxies.\<close>

theorem forced_protocol_obeyed:
  assumes "forced_protocol (given_config config) = Some p" "switch_of (given_config config) = ProtocolAuto"
    and "list_all no_switch ops"
    and "st = fold (session_step su) ops (start_state (NewSessionWithOptions su keylog now newid id0 config opts) j w)"
  shows "\<exists>new. wd_log (sx_world (snd (snd (Session_Request surr req st)))) = wd_log (sx_world st) @ new \<and>
     (\<forall>h \<in> set new. hop_protocol h \<in> {p, ProtocolHTTP1})"
proof -
  have "forced_to p (sx_session (start_state (NewSessionWithOptions su keylog now newid id0 config opts) j w))"
    using forced_new [OF assms(1,2)] by (simp add: start_state_def)
  then have "forced_to p (sx_session st)"
    unfolding assms(4) by (rule forced_sessions.run_inv) (rule assms(3))
  then have "appends (\<lambda>h. hop_protocol h \<in> {p, ProtocolHTTP1}) (sx_world st) (sx_world (snd (snd (Session_Request surr req st))))"
    using requests_forced.request_step [of p st "sx_world st" surr req] by simp
  then show ?thesis by (auto simp: appends_def list_all_iff)
qed

theorem forced_protocol_obeyed_witness:
  "let st = fold (session_step plain_set_up) [Refreshes, SetsProxy ''socks5://p.test:1'']
         (start_state (NewSession plain_set_up (\<lambda>f. False) 0 ''i'' '''' (Some plain_config)) NewCookieJar start_world) in
   list_all (\<lambda>h. hop_protocol h \<in> {ProtocolHTTP2, ProtocolHTTP1})
     (wd_log (sx_world (snd (snd (Session_Request (fixed_surroundings (\<lambda>u. (200, []))) (get_request ''https://a.test/'' []) st)))))"
proof -
  define st where "st = fold (session_step plain_set_up) [Refreshes, SetsProxy ''socks5://p.test:1'']
         (start_state (NewSessionWithOptions plain_set_up (\<lambda>f. False) 0 ''i'' '''' (Some plain_config) None) NewCookieJar start_world)"
  have "forced_protocol (given_config (Some plain_config)) = Some ProtocolHTTP2" "switch_of (given_config (Some plain_config)) = ProtocolAuto"
    by (simp_all add: forced_protocol_def given_config_def plain_config_def switch_of_def)
  moreover have "wd_log (sx_world st) = []"
    by (simp add: st_def on_session_def start_state_def start_world_def)
  ultimately have "\<exists>new. wd_log (sx_world (snd (snd (Session_Request (fixed_surroundings (\<lambda>u. (200, []))) (get_request ''https://a.test/'' []) st)))) = new \<and>
     (\<forall>h \<in> set new. hop_protocol h \<in> {ProtocolHTTP2, ProtocolHTTP1})"
    using forced_protocol_obeyed [OF _ _ _ st_def, of ProtocolHTTP2] by simp
  then show ?thesis
    unfolding Let_def NewSession_def st_def [symmetric] by (simp add: list_all_iff)
qed

text \<open>
  A fork starts from the configuration again: the protocol its parent was refreshed to and its
  header order are lost, while the proxies, cache entries and hints are kept.\<close>

lemma fork_loses_refresh:
  "let s = snd (Session_RefreshWithProtocol plain_set_up ''h1'' (Session_SetHeaderOrder [''x''] plain_session));
       f = forkOne plain_set_up 0 ''f'' s in
   tr_protocol (ss_transport s) = ProtocolHTTP1 \<and> Session_GetHeaderOrder s = [''x''] \<and>
   tr_protocol (ss_transport f) = ProtocolHTTP2 \<and> Session_GetHeaderOrder f = [''accept'']"
  by code_simp

text \<open>
  The two ways to name proxies per protocol do not add up: with an HTTP proxy for TCP and a
  SOCKS5 proxy for UDP, forced HTTP/3 is refused, because only the first is asked whether it can
  carry QUIC.\<close>

lemma split_proxies_refuse_h3:
  "let s = SetUDPProxy plain_set_up ''socks5://p.test:3'' (SetTCPProxy plain_set_up ''http://p.test:2'' plain_session);
       t = SetProtocol ProtocolHTTP3 (ss_transport s) in
   tr_h3ProxyError t = None \<and> h3_via (tr_h3 t) = Proxied ''socks5://p.test:3'' \<and>
   (\<forall>w. fst (do_proxied (fixed_net (\<lambda>u. (200, []))) t (get_request ''https://a.test/'' []) w) =
      Inl (TextError ''HTTP/3 requires a SOCKS5 or MASQUE proxy (current proxy does not support UDP)''))"
proof -
  let ?s = "SetUDPProxy plain_set_up ''socks5://p.test:3'' (SetTCPProxy plain_set_up ''http://p.test:2'' plain_session)"
  let ?t = "SetProtocol ProtocolHTTP3 (ss_transport ?s)"
  have "tr_h3ProxyError ?t = None \<and> h3_via (tr_h3 ?t) = Proxied ''socks5://p.test:3'' \<and>
      \<not> SupportsQUIC (effective_proxy_url ?t) \<and> tr_protocol ?t = ProtocolHTTP3" by code_simp
  then show ?thesis unfolding Let_def do_proxied_def by simp
qed

end
