(* ===== verification/SessionSave.thy ===== *)
theory SessionSave
  imports SessionLife TlsCache
begin

text \<open>
  Saved sessions, \<open>session/session.go\<close> and \<open>session/state.go\<close>: what \<open>Marshal\<close> writes and what
  \<open>UnmarshalSession\<close> makes of the three versions of the file. A file is what \<open>encoding/json\<close> reads from
  it for each of the types the code asks for, \<open>None\<close> being an error of the decoder; the text itself and
  the file system are not modelled. The parts of a session that live in its transports, the three TLS
  session caches and the ECH configurations of HTTP/3, are a record of their own.
\<close>

section \<open>State\<close>

definition SessionStateVersion :: int where
  "SessionStateVersion = 5"

record SessionState =
  sv_Version :: int
  sv_CreatedAt :: time
  sv_UpdatedAt :: time
  sv_Config :: "SessionConfig option"
  sv_Cookies :: "(string, CookieState list) gomap"
  sv_TLSSessions :: "(string, TLSSessionState) gomap"
  sv_ECHConfigs :: "(string, string) gomap"

record SessionStateV4 =
  s4_CreatedAt :: time
  s4_Config :: "SessionConfig option"
  s4_Cookies :: "CookieState list"
  s4_TLSSessions :: "(string, TLSSessionState) gomap"
  s4_ECHConfigs :: "(string, string) gomap"

record SessionStateV3 =
  s3_Preset :: string
  s3_ForceHTTP3 :: bool
  s3_ECHConfigDomain :: string
  s3_CreatedAt :: time
  s3_Cookies :: "CookieState list"
  s3_TLSSessions :: "(string, TLSSessionState) gomap"
  s3_ECHConfigs :: "(string, string) gomap"
  s3_Proxy :: string
  s3_TCPProxy :: string
  s3_UDPProxy :: string

record session_file =
  fl_version :: "int option"
  fl_v5 :: "SessionState option"
  fl_v4 :: "SessionStateV4 option"
  fl_v3 :: "SessionStateV3 option"

record 'cs kept_secrets =
  ks_h1 :: "'cs session_cache"
  ks_h2 :: "'cs session_cache"
  ks_h3 :: "'cs session_cache"
  ks_ech :: "(string, byte list) gomap"

definition new_secrets :: "'cs kept_secrets" where
  "new_secrets =
     \<lparr>ks_h1 = NewPersistableSessionCache, ks_h2 = NewPersistableSessionCache, ks_h3 = NewPersistableSessionCache, ks_ech = []\<rparr>"

datatype load_error = BadJson | NewerVersion int | MissingPreset

section \<open>TLS sessions and ECH configurations\<close>

definition with_prefix :: "string \<Rightarrow> (string, 'v) gomap \<Rightarrow> (string, 'v) gomap" where
  "with_prefix p m = map (\<lambda>(k, v). (p @ k, v)) m"

definition exportTLSSessions :: "('cs, 'st) utls \<Rightarrow> 'cs kept_secrets \<Rightarrow> (string, TLSSessionState) gomap" where
  "exportTLSSessions u ks =
     with_prefix ''h1:'' (cache_Export u (ks_h1 ks)) @ with_prefix ''h2:'' (cache_Export u (ks_h2 ks)) @
     with_prefix ''h3:'' (cache_Export u (ks_h3 ks))"

definition tls_group :: "string \<Rightarrow> (string, 'v) gomap \<Rightarrow> (string, 'v) gomap" where
  "tls_group p m =
     map (\<lambda>(k, v). (drop 3 k, v)) (filter (\<lambda>(k, v). length k > 3 \<and> k ! 2 = CHR '':'' \<and> take 2 k = p) m)"

definition import_group ::
  "('cs, 'st) utls \<Rightarrow> time \<Rightarrow> (string, TLSSessionState) gomap \<Rightarrow> 'cs session_cache \<Rightarrow> 'cs session_cache" where
  "import_group u now g c = (if g = [] then c else cache_Import u now g c)"

definition importTLSSessions ::
  "('cs, 'st) utls \<Rightarrow> time \<Rightarrow> (string, TLSSessionState) gomap \<Rightarrow> 'cs kept_secrets \<Rightarrow> 'cs kept_secrets" where
  "importTLSSessions u now m ks =
     ks\<lparr>ks_h1 := import_group u now (tls_group ''h1'' m) (ks_h1 ks),
        ks_h2 := import_group u now (tls_group ''h2'' m) (ks_h2 ks),
        ks_h3 := import_group u now (tls_group ''h3'' m) (ks_h3 ks)\<rparr>"

definition exportECHConfigs :: "'cs kept_secrets \<Rightarrow> (string, string) gomap" where
  "exportECHConfigs ks = map (\<lambda>(h, c). (h, encodeBase64 c)) (ks_ech ks)"

definition importECHConfigs :: "(string, string) gomap \<Rightarrow> 'cs kept_secrets \<Rightarrow> 'cs kept_secrets" where
  "importECHConfigs configs ks =
     ks\<lparr>ks_ech := fold (\<lambda>(h, s) m. case std_DecodeString s of None \<Rightarrow> m | Some c \<Rightarrow> AList.update h c m) configs (ks_ech ks)\<rparr>"

section \<open>Saving and loading\<close>

definition Marshal ::
  "('cs, 'st) utls \<Rightarrow> time \<Rightarrow> session \<Rightarrow> jar \<Rightarrow> 'cs kept_secrets \<Rightarrow> session_file" where
  "Marshal u now s j ks =
     \<lparr>fl_version = Some SessionStateVersion,
      fl_v5 = Some \<lparr>sv_Version = SessionStateVersion, sv_CreatedAt = ss_CreatedAt s, sv_UpdatedAt = now,
        sv_Config = Some (ss_Config s), sv_Cookies = jar_Export now j, sv_TLSSessions = exportTLSSessions u ks,
        sv_ECHConfigs = exportECHConfigs ks\<rparr>,
      fl_v4 = None, fl_v3 = None\<rparr>"

definition saved_config :: "SessionConfig option \<Rightarrow> SessionConfig" where
  "saved_config c = (case c of None \<Rightarrow> zero_config\<lparr>cf_Preset := ''chrome-146''\<rparr> | Some c \<Rightarrow> c)"

definition config_v3 :: "SessionStateV3 \<Rightarrow> SessionConfig" where
  "config_v3 st =
     zero_config\<lparr>cf_Preset := s3_Preset st, cf_ForceHTTP3 := s3_ForceHTTP3 st, cf_ECHConfigDomain := s3_ECHConfigDomain st,
       cf_Proxy := s3_Proxy st, cf_TCPProxy := s3_TCPProxy st, cf_UDPProxy := s3_UDPProxy st\<rparr>"

text \<open>The common end: a new session, the jar filled by \<open>fill\<close>, then ECH configurations and TLS sessions.\<close>

definition restore ::
  "(SessionConfig \<Rightarrow> session) \<Rightarrow> ('cs, 'st) utls \<Rightarrow> time \<Rightarrow> SessionConfig \<Rightarrow> time \<Rightarrow> (jar \<Rightarrow> jar) \<Rightarrow> (string, string) gomap \<Rightarrow>
   (string, TLSSessionState) gomap \<Rightarrow> session \<times> jar \<times> 'cs kept_secrets" where
  "restore new u now c created fill ech tls =
     ((new c)\<lparr>ss_CreatedAt := created\<rparr>, fill NewCookieJar, importTLSSessions u now tls (importECHConfigs ech new_secrets))"

definition UnmarshalSession ::
  "(SessionConfig \<Rightarrow> session) \<Rightarrow> ('cs, 'st) utls \<Rightarrow> time \<Rightarrow> session_file \<Rightarrow> load_error + session \<times> jar \<times> 'cs kept_secrets" where
  "UnmarshalSession new u now f =
     (case fl_version f of
        None \<Rightarrow> Inl BadJson
      | Some v \<Rightarrow>
          if v > SessionStateVersion then Inl (NewerVersion v)
          else if v \<le> 3 then
            (case fl_v3 f of
               None \<Rightarrow> Inl BadJson
             | Some st \<Rightarrow> Inr (restore new u now (config_v3 st) (s3_CreatedAt st) (jar_ImportV4 now (s3_Cookies st))
                 (s3_ECHConfigs st) (s3_TLSSessions st)))
          else if v = 4 then
            (case fl_v4 f of
               None \<Rightarrow> Inl BadJson
             | Some st \<Rightarrow> Inr (restore new u now (saved_config (s4_Config st)) (s4_CreatedAt st) (jar_ImportV4 now (s4_Cookies st))
                 (s4_ECHConfigs st) (s4_TLSSessions st)))
          else
            (case fl_v5 f of
               None \<Rightarrow> Inl BadJson
             | Some st \<Rightarrow> Inr (restore new u now (saved_config (sv_Config st)) (sv_CreatedAt st) (jar_Import now (sv_Cookies st))
                 (sv_ECHConfigs st) (sv_TLSSessions st))))"

definition preset_check :: "string option \<Rightarrow> load_error + unit" where
  "preset_check p = (case p of None \<Rightarrow> Inl MissingPreset | Some n \<Rightarrow> if n = '''' then Inl MissingPreset else Inr ())"

definition ValidateSessionFile :: "session_file \<Rightarrow> load_error + unit" where
  "ValidateSessionFile f =
     (case fl_version f of
        None \<Rightarrow> Inl BadJson
      | Some v \<Rightarrow>
          if v > SessionStateVersion then Inl (NewerVersion v)
          else if v \<le> 3 then
            (case fl_v3 f of None \<Rightarrow> Inl BadJson | Some st \<Rightarrow> preset_check (Some (s3_Preset st)))
          else if v = 4 then
            (case fl_v4 f of None \<Rightarrow> Inl BadJson | Some st \<Rightarrow> preset_check (map_option cf_Preset (s4_Config st)))
          else
            (case fl_v5 f of None \<Rightarrow> Inl BadJson | Some st \<Rightarrow> preset_check (map_option cf_Preset (sv_Config st))))"

section \<open>What comes back\<close>

lemma group_prefix:
  assumes "length q = 2"
  shows "tls_group p (with_prefix (q @ '':'') m) = (if p = q then filter (\<lambda>(k, v). k \<noteq> '''') m else [])"
proof -
  have "length (q @ CHR '':'' # k) > 3 \<longleftrightarrow> k \<noteq> ''''" "(q @ CHR '':'' # k) ! 2 = CHR '':''" "take 2 (q @ CHR '':'' # k) = q"
    "drop 3 (q @ CHR '':'' # k) = k" for k :: string
    using assms by (auto simp: nth_append)
  then show ?thesis by (induction m) (auto simp: tls_group_def with_prefix_def simp del: length_append)
qed

lemma group_append: "tls_group p (a @ b) = tls_group p a @ tls_group p b"
  by (simp add: tls_group_def)

lemma groups:
  "tls_group ''h1'' (exportTLSSessions u ks) = filter (\<lambda>(k, v). k \<noteq> '''') (cache_Export u (ks_h1 ks))"
  "tls_group ''h2'' (exportTLSSessions u ks) = filter (\<lambda>(k, v). k \<noteq> '''') (cache_Export u (ks_h2 ks))"
  "tls_group ''h3'' (exportTLSSessions u ks) = filter (\<lambda>(k, v). k \<noteq> '''') (cache_Export u (ks_h3 ks))"
  by (simp_all add: exportTLSSessions_def group_append group_prefix [of "''h1''", simplified]
      group_prefix [of "''h2''", simplified] group_prefix [of "''h3''", simplified])

definition named :: "'cs session_cache \<Rightarrow> 'cs session_cache" where
  "named c = c\<lparr>sc_sessions := filter (\<lambda>(k, s). k \<noteq> '''') (sc_sessions c)\<rparr>"

lemma export_named: "cache_Export u (named c) = filter (\<lambda>(k, v). k \<noteq> '''') (cache_Export u c)"
proof -
  have "[(k, t). (k, s) \<leftarrow> filter (\<lambda>(k, s). k \<noteq> '''') m, t \<leftarrow> (case export_session u s of None \<Rightarrow> [] | Some t \<Rightarrow> [t])] =
      filter (\<lambda>(k, v). k \<noteq> '''') [(k, t). (k, s) \<leftarrow> m, t \<leftarrow> (case export_session u s of None \<Rightarrow> [] | Some t \<Rightarrow> [t])]" for m
    by (induction m) (auto split: option.split)
  then show ?thesis by (simp add: cache_Export_def named_def)
qed

lemma wf_named: "cache_wf c \<Longrightarrow> cache_wf (named c) \<and> cache_Count (named c) \<le> cache_Count c"
  by (auto intro!: le_trans [OF length_filter_le] simp: cache_wf_def evictable_def named_def cache_Count_def map_wf_filter map_of_filter_val split: option.splits if_splits
      dest: map_of_SomeD)

lemma group_restored:
  assumes "utls_inverse u" "cache_wf c" "cache_Count c \<le> TLSSessionCacheMaxSize"
    and "\<forall>(k, s) \<in> set (sc_sessions c). now - createdAt s \<le> TLSSessionMaxAge" "k \<noteq> ''''"
  shows "map_of (sc_sessions (import_group u now (filter (\<lambda>(k, v). k \<noteq> '''') (cache_Export u c)) NewPersistableSessionCache)) k =
    (case map_of (sc_sessions c) k of Some s \<Rightarrow> if export_session u s = None then None else Some s | None \<Rightarrow> None)"
proof -
  let ?g = "cache_Export u (named c)"
  have "evictIfNeeded (NewPersistableSessionCache :: 'a session_cache) = NewPersistableSessionCache"
    by (rule evict_small) (simp add: NewPersistableSessionCache_def)
  then have "import_group u now ?g NewPersistableSessionCache = cache_Import u now ?g NewPersistableSessionCache"
    by (simp add: import_group_def cache_Import_def)
  moreover have "map_of (sc_sessions (named c)) k = map_of (sc_sessions c) k"
    using assms(2,5) by (simp add: named_def cache_wf_def evictable_def map_of_filter_val split: option.split)
  ultimately show ?thesis
    using cache_restored [OF assms(1), of "named c" now k] wf_named [OF assms(2)] assms(3,4)
    by (auto simp: export_named [symmetric] named_def)
qed

lemma ech_restored:
  "map_wf m \<Longrightarrow> map_of (ks_ech (importECHConfigs (map (\<lambda>(h, c). (h, encodeBase64 c)) m) ks)) h =
     (case map_of m h of Some c \<Rightarrow> Some c | None \<Rightarrow> map_of (ks_ech ks) h)"
proof -
  have "map_of (fold (\<lambda>(h, s) m. case std_DecodeString s of None \<Rightarrow> m | Some c \<Rightarrow> AList.update h c m)
      (map (\<lambda>(h, c). (h, encodeBase64 c)) m) e) h = (case map_of m h of Some c \<Rightarrow> Some c | None \<Rightarrow> map_of e h)"
    if "map_wf m" for e
    using that
    by (induction m arbitrary: e) (auto simp: map_wf_def map_of_eq_None_iff [THEN iffD2] split: option.splits)
  then show "map_wf m \<Longrightarrow> ?thesis" by (simp add: importECHConfigs_def)
qed

text \<open>What a saved session is: caches, jar and ECH table as their operations leave them, and all tickets young.\<close>

definition savable :: "('cs, 'st) utls \<Rightarrow> time \<Rightarrow> jar \<Rightarrow> 'cs kept_secrets \<Rightarrow> bool" where
  "savable u now j ks \<longleftrightarrow>
     utls_inverse u \<and> coherent_jar j \<and> map_wf (ks_ech ks) \<and>
     (\<forall>c \<in> {ks_h1 ks, ks_h2 ks, ks_h3 ks}. cache_wf c \<and> cache_Count c \<le> TLSSessionCacheMaxSize \<and>
        (\<forall>(k, s) \<in> set (sc_sessions c). now - createdAt s \<le> TLSSessionMaxAge))"

definition same_sessions :: "('cs, 'st) utls \<Rightarrow> 'cs session_cache \<Rightarrow> 'cs session_cache \<Rightarrow> bool" where
  "same_sessions u c c' \<longleftrightarrow>
     (\<forall>k. k \<noteq> '''' \<longrightarrow> map_of (sc_sessions c') k =
        (case map_of (sc_sessions c) k of Some s \<Rightarrow> if export_session u s = None then None else Some s | None \<Rightarrow> None))"


definition demo_secrets :: "nat kept_secrets" where
  "demo_secrets = new_secrets\<lparr>ks_h2 := cache_Put 3 ''a:443'' (Some 7) NewPersistableSessionCache, ks_ech := [(''a'', [1, 2])]\<rparr>"

lemma demo_savable: "savable (no_utls\<lparr>state_Bytes := (\<lambda>s. if s < 256 then Some [of_nat s] else None)\<rparr>) 9 NewCookieJar demo_secrets"
proof -
  have N: "cache_wf (NewPersistableSessionCache :: nat session_cache)"
    by (simp add: NewPersistableSessionCache_def cache_wf_def evictable_def)
  have "sc_sessions (cache_Put 3 ''a:443'' (Some (7::nat)) NewPersistableSessionCache) = [(''a:443'', \<lparr>cache_state = Some 7, createdAt = 3\<rparr>)]"
    by (simp add: cache_Put_def NewPersistableSessionCache_def evictIfNeeded_def append_order_def store_session_def moveToEnd_def)
  moreover have "coherent_jar NewCookieJar" using jar_scoped.init_inv .
  ultimately show ?thesis
    using no_utls_inverse N cache_wf_Put [OF N]
    by (simp add: savable_def demo_secrets_def new_secrets_def map_wf_def cache_Count_def TLSSessionMaxAge_def)
      (simp add: NewPersistableSessionCache_def TLSSessionCacheMaxSize_def)
qed


text \<open>
  Older files keep less: what version 3 holds of the configuration is the preset, the ECH domain,
  forced HTTP/3 and the proxies, so that a session of version 3 does not follow redirects.\<close>

lemma v3_does_not_follow: "\<not> cf_FollowRedirects (config_v3 st) \<and> \<not> cf_RetryEnabled (config_v3 st)"
  by (simp add: config_v3_def zero_config_def)

end
