(* ===== verification/SessionManager.thy ===== *)
theory SessionManager
  imports SessionLife
begin

text \<open>
  The session manager, \<open>session/manager.go\<close>: a table of sessions under their identifiers. The sessions
  are shared with the clients that got them; \<open>UseSession\<close> is a client's call on one. Every method holds
  the mutex; the cleanup loop is a caller of \<open>cleanupExpiredSessions\<close> like any other.
\<close>

record manager =
  mg_sessions :: "(string, session) gomap"
  mg_maxSessions :: int
  mg_sessionTimeout :: duration
  mg_shutdown :: bool

datatype manager_error = LimitReached int | NotFound string | IsClosed string

definition NewManager :: manager where
  "NewManager = \<lparr>mg_sessions = [], mg_maxSessions = 100, mg_sessionTimeout = 30 * minute, mg_shutdown = False\<rparr>"

definition SessionCount :: "manager \<Rightarrow> int" where
  "SessionCount m = int (length (mg_sessions m))"

definition CreateSession ::
  "set_up \<Rightarrow> (string \<Rightarrow> bool) \<Rightarrow> time \<Rightarrow> string \<Rightarrow> SessionConfig option \<Rightarrow> manager \<Rightarrow> (manager_error + string) \<times> manager" where
  "CreateSession su keylog now newid config m =
     (if SessionCount m \<ge> mg_maxSessions m then (Inl (LimitReached (mg_maxSessions m)), m)
      else (Inr newid,
            m\<lparr>mg_sessions := AList.update newid (NewSession su keylog now newid newid config) (mg_sessions m)\<rparr>))"

definition GetSession :: "string \<Rightarrow> manager \<Rightarrow> manager_error + session" where
  "GetSession ident m =
     (case map_of (mg_sessions m) ident of
        None \<Rightarrow> Inl (NotFound ident)
      | Some s \<Rightarrow> if \<not> IsActive s then Inl (IsClosed ident) else Inr s)"

text \<open>The operations that end sessions also return them, closed: clients may still hold them.\<close>

definition CloseSession :: "string \<Rightarrow> manager \<Rightarrow> (manager_error + session) \<times> manager" where
  "CloseSession ident m =
     (case map_of (mg_sessions m) ident of
        None \<Rightarrow> (Inl (NotFound ident), m)
      | Some s \<Rightarrow> (Inr (Session_Close s), m\<lparr>mg_sessions := AList.delete ident (mg_sessions m)\<rparr>))"

definition expired_idle :: "time \<Rightarrow> manager \<Rightarrow> session \<Rightarrow> bool" where
  "expired_idle now m s \<longleftrightarrow> now - ss_LastUsed s > mg_sessionTimeout m"

definition cleanupExpiredSessions :: "time \<Rightarrow> manager \<Rightarrow> session list \<times> manager" where
  "cleanupExpiredSessions now m =
     (map (\<lambda>(ident, s). Session_Close s) (filter (\<lambda>(ident, s). expired_idle now m s) (mg_sessions m)),
      m\<lparr>mg_sessions := filter (\<lambda>(ident, s). \<not> expired_idle now m s) (mg_sessions m)\<rparr>)"

text \<open>\<open>Shutdown\<close> closes a channel first: a second call panics, which is \<open>None\<close>.\<close>

definition Shutdown :: "manager \<Rightarrow> (session list \<times> manager) option" where
  "Shutdown m =
     (if mg_shutdown m then None
      else Some (map (\<lambda>(ident, s). Session_Close s) (mg_sessions m), m\<lparr>mg_sessions := [], mg_shutdown := True\<rparr>))"

definition SetMaxSessions :: "int \<Rightarrow> manager \<Rightarrow> manager" where
  "SetMaxSessions n m = m\<lparr>mg_maxSessions := n\<rparr>"

definition SetSessionTimeout :: "duration \<Rightarrow> manager \<Rightarrow> manager" where
  "SetSessionTimeout d m = m\<lparr>mg_sessionTimeout := d\<rparr>"

definition UseSession :: "string \<Rightarrow> (session \<Rightarrow> session) \<Rightarrow> manager \<Rightarrow> manager" where
  "UseSession ident f m =
     (case map_of (mg_sessions m) ident of
        None \<Rightarrow> m | Some s \<Rightarrow> m\<lparr>mg_sessions := AList.update ident (f s) (mg_sessions m)\<rparr>)"

section \<open>The manager as a machine\<close>

datatype sessions_op =
    OpCreate set_up "string \<Rightarrow> bool" time string "SessionConfig option"
  | OpClose string
  | OpCleanup time
  | OpShutdown
  | OpSetMax int
  | OpSetTimeout duration
  | OpUse string "session \<Rightarrow> session"

text \<open>A step from a panic stays there.\<close>

fun sessions_step :: "sessions_op \<Rightarrow> manager option \<Rightarrow> manager option" where
  "sessions_step op None = None"
| "sessions_step (OpCreate su keylog now newid config) (Some m) = Some (snd (CreateSession su keylog now newid config m))"
| "sessions_step (OpClose ident) (Some m) = Some (snd (CloseSession ident m))"
| "sessions_step (OpCleanup now) (Some m) = Some (snd (cleanupExpiredSessions now m))"
| "sessions_step OpShutdown (Some m) = map_option snd (Shutdown m)"
| "sessions_step (OpSetMax n) (Some m) = Some (SetMaxSessions n m)"
| "sessions_step (OpSetTimeout d) (Some m) = Some (SetSessionTimeout d m)"
| "sessions_step (OpUse ident f) (Some m) = Some (UseSession ident f m)"

definition sessions_ok :: "manager option \<Rightarrow> bool" where
  "sessions_ok mo \<longleftrightarrow>
     (case mo of None \<Rightarrow> True | Some m \<Rightarrow> map_wf (mg_sessions m) \<and> mg_maxSessions m = 100 \<and> SessionCount m \<le> 100)"

fun keeps_limit :: "sessions_op \<Rightarrow> bool" where
  "keeps_limit (OpSetMax n) = False"
| "keeps_limit op = True"

lemma length_update: "length (AList.update k v m) = (if map_of m k = None then length m + 1 else length m)"
  by (induction m) auto

lemma length_delete: "length (AList.delete k m) \<le> length m"
  by (simp add: AList.delete_eq)

lemma sessions_ok_step: "sessions_ok mo \<Longrightarrow> keeps_limit op \<Longrightarrow> sessions_ok (sessions_step op mo)"
proof (cases mo)
  case (Some m)
  assume ok: "sessions_ok mo" "keeps_limit op"
  then show ?thesis
    using ok length_delete [of _ "mg_sessions m"]
    by (cases op)
      (auto simp: Some sessions_ok_def CreateSession_def CloseSession_def cleanupExpiredSessions_def Shutdown_def
        SetSessionTimeout_def UseSession_def SessionCount_def length_update map_wf_filter split: option.splits
        intro: order_trans order_trans [OF length_filter_le])
qed simp

interpretation session_table: started_machine sessions_step keeps_limit sessions_ok "Some NewManager"
  by unfold_locales (simp add: sessions_ok_step, simp add: sessions_ok_def NewManager_def SessionCount_def map_wf_def)

text \<open>
  The manager holds at most its hundred sessions, and the cleanup ends idle sessions and no others:
  after any operations that leave the limit alone, a client gets from \<open>GetSession\<close> after a cleanup
  exactly the sessions it would have got before it and that were used within the timeout, in the same
  state; the sessions taken out are closed.\<close>

theorem manager_cleanup_exact:
  assumes "fold sessions_step ops (Some NewManager) = Some m" "list_all keeps_limit ops"
  shows "SessionCount m \<le> 100 \<and>
    (let (ended, m') = cleanupExpiredSessions now m in
       list_all (\<lambda>s. \<not> IsActive s) ended \<and> SessionCount m = SessionCount m' + int (length ended) \<and>
       (GetSession ident m' = Inr s \<longleftrightarrow> GetSession ident m = Inr s \<and> IdleTime now s \<le> mg_sessionTimeout m))"
proof -
  have ok: "map_wf (mg_sessions m)" "SessionCount m \<le> 100"
    using session_table.reach_inv [OF assms(2)] assms(1) by (simp_all add: sessions_ok_def)
  have count: "length xs = length (filter (\<lambda>(i, s). \<not> P s) xs) + length (filter (\<lambda>(i, s). P s) xs)" for xs :: "(string \<times> session) list" and P
    by (induction xs) auto
  let ?kept = "filter (\<lambda>(i, s). \<not> expired_idle now m s) (mg_sessions m)"
  let ?ended = "map (\<lambda>(i, s). Session_Close s) (filter (\<lambda>(i, s). expired_idle now m s) (mg_sessions m))"
  have "list_all (\<lambda>s. \<not> IsActive s) ?ended" by (auto simp: list_all_iff IsActive_def Session_Close_def)
  moreover have "SessionCount m = int (length ?kept) + int (length ?ended)"
    using count [of "mg_sessions m" "expired_idle now m"] by (simp add: SessionCount_def)
  moreover have "map_of ?kept ident = (case map_of (mg_sessions m) ident of
      Some s \<Rightarrow> if \<not> expired_idle now m s then Some s else None | None \<Rightarrow> None)"
    by (simp add: map_of_filter_val [OF ok(1)])
  then have "GetSession ident (m\<lparr>mg_sessions := ?kept\<rparr>) = Inr s \<longleftrightarrow> GetSession ident m = Inr s \<and> \<not> expired_idle now m s"
    by (cases "map_of (mg_sessions m) ident") (auto simp: GetSession_def)
  ultimately show ?thesis
    using ok(2) by (simp add: cleanupExpiredSessions_def Let_def SessionCount_def expired_idle_def IdleTime_def not_less)
qed

theorem manager_cleanup_exact_witness:
  "let mo = fold sessions_step [OpCreate plain_set_up (\<lambda>f. False) 0 ''a'' None, OpCreate plain_set_up (\<lambda>f. False) 0 ''b'' None,
         OpUse ''b'' (Touch minute)] (Some NewManager);
       late = 30 * minute + 1 in
   \<exists>m s. mo = Some m \<and> SessionCount m = 2 \<and> GetSession ''b'' (snd (cleanupExpiredSessions late m)) = Inr s \<and>
     (\<forall>s'. GetSession ''a'' (snd (cleanupExpiredSessions late m)) \<noteq> Inr s')"
proof -
  let ?new = "\<lambda>i. NewSession plain_set_up (\<lambda>f. False) 0 i i None"
  let ?ops = "[OpCreate plain_set_up (\<lambda>f. False) 0 ''a'' None, OpCreate plain_set_up (\<lambda>f. False) 0 ''b'' None, OpUse ''b'' (Touch minute)]"
  let ?m = "NewManager\<lparr>mg_sessions := [(''a'', ?new ''a''), (''b'', Touch minute (?new ''b''))]\<rparr>"
  have run: "fold sessions_step ?ops (Some NewManager) = Some ?m"
    by (simp add: CreateSession_def SessionCount_def NewManager_def UseSession_def)
  have fields: "ss_LastUsed (?new i) = 0" "ss_active (?new i)" for i
    by (simp_all add: NewSession_def NewSessionWithOptions_def Let_def fresh_session_def)
  have "list_all keeps_limit ?ops" by simp
  note exact = manager_cleanup_exact [OF run this, of "30 * minute + 1"]
  have "GetSession ''b'' ?m = Inr (Touch minute (?new ''b''))" "GetSession ''a'' ?m = Inr (?new ''a'')"
    by (simp_all add: GetSession_def IsActive_def Touch_def fields)
  then show ?thesis
    using exact [of "''b''" "Touch minute (?new ''b'')"] exact [of "''a''"]
    unfolding Let_def run by (auto simp: case_prod_beta IdleTime_def Touch_def fields NewManager_def SessionCount_def)
qed

text \<open>A second \<open>Shutdown\<close> panics.\<close>

lemma shutdown_twice_panics: "fold sessions_step [OpShutdown, OpShutdown] (Some NewManager) = None"
  by (simp add: Shutdown_def NewManager_def)

end
