(* ===== verification/Tunnel.thy ===== *)
theory Tunnel
  imports Transport Socks5 Base64
begin

text \<open>
  Tunnels through an HTTP proxy. The first part is \<open>transport/speculative_conn.go\<close>: a \<open>net.Conn\<close> that
  sends the CONNECT request together with the first TLS bytes and strips the proxy's response from
  what it reads. The second part is the dialling of HTTP proxies, as \<open>http1_transport.go\<close> and
  \<open>http2_transport.go\<close> have it.

  A \<open>net.Conn\<close> is a parameter: its \<open>Read\<close> takes the length of the buffer and gives the bytes
  read, the error if there is one, and the connection; \<open>None\<close> is a read that never returns. The
  contract a connection is relied on for is the locale \<open>byte_stream\<close>. \<open>http.ReadResponse\<close> belongs to
  the http library and is the parameter \<open>parse\<close>: the status code and line of a response header.
\<close>

section \<open>Errors\<close>

datatype 'e conn_error =
    ConnError 'e
  | TextError string
  | SpeculativeTLSError (spec_Op: string) (spec_StatusCode: int) (spec_Err: "'e conn_error option")

definition int_string :: "int \<Rightarrow> string" where
  "int_string i = (if i < 0 then ''-'' @ dec_string (nat (- i)) else dec_string (nat i))"

fun conn_error_text :: "('e \<Rightarrow> string) \<Rightarrow> 'e conn_error \<Rightarrow> string" where
  "conn_error_text txt (ConnError e) = txt e"
| "conn_error_text txt (TextError s) = s"
| "conn_error_text txt (SpeculativeTLSError op code err) =
     (if code \<noteq> 0 then ''speculative TLS '' @ op @ '': HTTP '' @ int_string code
      else case err of
          Some e \<Rightarrow> ''speculative TLS '' @ op @ '': '' @ conn_error_text txt e
        | None \<Rightarrow> ''speculative TLS '' @ op @ '' failed'')"

text \<open>\<open>errors.As\<close> along the chain of \<open>Unwrap\<close>: the errors of a connection wrap no such error.\<close>

fun IsSpeculativeTLSError :: "'e conn_error \<Rightarrow> bool" where
  "IsSpeculativeTLSError (SpeculativeTLSError op code err) = True"
| "IsSpeculativeTLSError _ = False"

section \<open>The connection\<close>

type_synonym ('c, 'e) reader = "nat \<Rightarrow> 'c \<Rightarrow> ((string \<times> 'e option) \<times> 'c) option"
type_synonym ('c, 'e) writer = "string \<Rightarrow> 'c \<Rightarrow> (nat \<times> 'e option) \<times> 'c"

record 'c SpeculativeConn =
  sc_Conn :: 'c
  connectRequest :: string
  firstWrite :: bool
  httpResponseDone :: bool
  readBuffer :: string
  headerBuffer :: string

definition NewSpeculativeConn :: "'c \<Rightarrow> string \<Rightarrow> 'c SpeculativeConn" where
  "NewSpeculativeConn conn req =
     \<lparr>sc_Conn = conn, connectRequest = req, firstWrite = False, httpResponseDone = False,
      readBuffer = '''', headerBuffer = ''''\<rparr>"

definition spec_Write :: "('c, 'e) writer \<Rightarrow> string \<Rightarrow> 'c SpeculativeConn \<Rightarrow>
    (nat \<times> 'e conn_error option) \<times> 'c SpeculativeConn" where
  "spec_Write cwrite b c =
     (if firstWrite c then
        (case cwrite b (sc_Conn c) of ((n, e), k) \<Rightarrow> ((n, map_option ConnError e), c\<lparr>sc_Conn := k\<rparr>))
      else
        (case cwrite (connectRequest c @ b) (sc_Conn c) of
           ((n, err), k) \<Rightarrow>
             case err of
               Some e \<Rightarrow> ((0, Some (SpeculativeTLSError ''write'' 0 (Some (ConnError e)))), c\<lparr>sc_Conn := k\<rparr>)
             | None \<Rightarrow> ((length b, None), c\<lparr>sc_Conn := k, firstWrite := True\<rparr>)))"

text \<open>\<open>c.Conn.Read(b)\<close> for a buffer of \<open>n\<close> bytes.\<close>

definition conn_Read :: "('c, 'e) reader \<Rightarrow> ('c SpeculativeConn, 'e conn_error) reader" where
  "conn_Read cread n c =
     (case cread n (sc_Conn c) of
        None \<Rightarrow> None
      | Some ((d, e), k) \<Rightarrow> Some ((d, map_option ConnError e), c\<lparr>sc_Conn := k\<rparr>))"

text \<open>The end of a header, and what \<open>readAndStripHTTPResponse\<close> does once it has been found at \<open>i\<close>.\<close>

definition header_end :: string where
  "header_end = [CHR 0x0D, CHR 0x0A, CHR 0x0D, CHR 0x0A]"

definition header_found :: "('c, 'e) reader \<Rightarrow> (string \<Rightarrow> 'e + int \<times> string) \<Rightarrow> nat \<Rightarrow> nat \<Rightarrow> 'c SpeculativeConn \<Rightarrow>
    ((string \<times> 'e conn_error option) \<times> 'c SpeculativeConn) option" where
  "header_found cread parse n i c =
     (case parse (take (i + 4) (headerBuffer c)) of
        Inl e \<Rightarrow> Some (('''', Some (SpeculativeTLSError ''parse'' 0 (Some (ConnError e)))), c)
      | Inr (code, status) \<Rightarrow>
          if code \<noteq> 200 then Some (('''', Some (SpeculativeTLSError ''status'' code (Some (TextError status)))), c)
          else
            let tlsData = drop (i + 4) (headerBuffer c);
                c1 = c\<lparr>httpResponseDone := True, headerBuffer := ''''\<rparr> in
            if tlsData \<noteq> '''' then Some ((take n tlsData, None), c1\<lparr>readBuffer := readBuffer c1 @ drop n tlsData\<rparr>)
            else conn_Read cread n c1)"

partial_function (option) readAndStripHTTPResponse ::
  "('c, 'e) reader \<Rightarrow> (string \<Rightarrow> 'e + int \<times> string) \<Rightarrow> nat \<Rightarrow> 'c SpeculativeConn \<Rightarrow>
   ((string \<times> 'e conn_error option) \<times> 'c SpeculativeConn) option" where
  "readAndStripHTTPResponse cread parse n c =
     (case cread 8192 (sc_Conn c) of
        None \<Rightarrow> None
      | Some ((d, err), k) \<Rightarrow>
          (case err of
             Some e \<Rightarrow> Some (('''', Some (SpeculativeTLSError ''read'' 0 (Some (ConnError e)))), c\<lparr>sc_Conn := k\<rparr>)
           | None \<Rightarrow>
               let c1 = c\<lparr>sc_Conn := k, headerBuffer := headerBuffer c @ d\<rparr> in
               (case index_of (headerBuffer c1) header_end of
                  None \<Rightarrow>
                    if length (headerBuffer c1) > 16384
                    then Some (('''', Some (SpeculativeTLSError ''parse'' 0
                           (Some (TextError ''HTTP response headers exceed 16KB limit'')))), c1)
                    else readAndStripHTTPResponse cread parse n c1
                | Some i \<Rightarrow> header_found cread parse n i c1)))"

definition spec_Read :: "('c, 'e) reader \<Rightarrow> (string \<Rightarrow> 'e + int \<times> string) \<Rightarrow>
    ('c SpeculativeConn, 'e conn_error) reader" where
  "spec_Read cread parse n c =
     (if httpResponseDone c \<and> readBuffer c = '''' then conn_Read cread n c
      else if readBuffer c \<noteq> '''' then Some ((take n (readBuffer c), None), c\<lparr>readBuffer := drop n (readBuffer c)\<rparr>)
      else if \<not> httpResponseDone c then readAndStripHTTPResponse cread parse n c
      else conn_Read cread n c)"

section \<open>Connections as byte streams\<close>

text \<open>
  What a reader may rely on: a read returns; the bytes it gives are the next ones of the stream, no
  more than asked for and at least one; an error comes only at the end of the stream.
\<close>

definition delivers :: "('c \<Rightarrow> string) \<Rightarrow> ('c \<Rightarrow> bool) \<Rightarrow> nat \<Rightarrow> 'c \<Rightarrow> (string \<times> 'e option) \<times> 'c \<Rightarrow> bool" where
  "delivers stream ok n c r \<longleftrightarrow>
     (case r of ((d, e), c') \<Rightarrow>
        ok c' \<and> stream c = d @ stream c' \<and> length d \<le> n \<and>
        (case e of None \<Rightarrow> 0 < n \<longrightarrow> d \<noteq> [] | Some _ \<Rightarrow> stream c = []))"

lemma delivers_same: "stream a = stream b \<Longrightarrow> delivers stream ok n a r = delivers stream ok n b r"
  unfolding delivers_def by (simp split: prod.split option.split)

locale byte_stream =
  fixes cread :: "nat \<Rightarrow> 'c \<Rightarrow> ((string \<times> 'e option) \<times> 'c) option"
    and stream :: "'c \<Rightarrow> string"
    and ok :: "'c \<Rightarrow> bool"
  assumes read_law: "ok c \<Longrightarrow> \<exists>r. cread n c = Some r \<and> delivers stream ok n c r"

text \<open>Reading with buffers of the lengths \<open>ns\<close>, up to the first error.\<close>

fun reads :: "('c, 'e) reader \<Rightarrow> nat list \<Rightarrow> 'c \<Rightarrow> (string \<times> 'c) option" where
  "reads cread [] c = Some ('''', c)"
| "reads cread (n # ns) c =
     (case cread n c of
        None \<Rightarrow> None
      | Some ((d, Some e), c') \<Rightarrow> Some (d, c')
      | Some ((d, None), c') \<Rightarrow> (case reads cread ns c' of None \<Rightarrow> None | Some (d', c'') \<Rightarrow> Some (d @ d', c'')))"

context byte_stream begin

lemma reads_prefix: "ok c \<Longrightarrow> \<exists>d c'. reads cread ns c = Some (d, c') \<and> stream c = d @ stream c' \<and> ok c'"
proof (induction ns arbitrary: c)
  case (Cons n ns)
  from Cons.prems obtain d e c' where r: "cread n c = Some ((d, e), c')" "delivers stream ok n c ((d, e), c')"
    using read_law [of c n] by auto
  show ?case
  proof (cases e)
    case None
    with r Cons.IH [of c'] show ?thesis by (fastforce simp: delivers_def)
  next
    case (Some err)
    with r show ?thesis by (auto simp: delivers_def)
  qed
qed auto

lemma reads_all:
  "ok c \<Longrightarrow> \<forall>n\<in>set ns. 0 < n \<Longrightarrow> length (stream c) \<le> length ns \<Longrightarrow>
   \<exists>c'. reads cread ns c = Some (stream c, c') \<and> stream c' = [] \<and> ok c'"
proof (induction ns arbitrary: c)
  case (Cons n ns)
  from Cons.prems obtain d e c' where r: "cread n c = Some ((d, e), c')" "delivers stream ok n c ((d, e), c')"
    using read_law [of c n] by auto
  show ?case
  proof (cases e)
    case None
    with r Cons.prems have "d \<noteq> []" "stream c = d @ stream c'" "ok c'" by (auto simp: delivers_def)
    with Cons.IH [of c'] Cons.prems r None show ?thesis by (cases d) fastforce+
  next
    case (Some err)
    with r show ?thesis by (auto simp: delivers_def)
  qed
qed auto

end

section \<open>The tunnel as a byte stream\<close>

text \<open>Searching in a stream of which only a part has arrived.\<close>

lemma index_of_iff:
  "index_of s sub = Some i \<longleftrightarrow>
     i \<le> length s \<and> has_prefix (drop i s) sub \<and> (\<forall>k<i. \<not> has_prefix (drop k s) sub)"
  (is "?l \<longleftrightarrow> ?r")
proof
  assume ?l
  then show ?r using index_of_Some index_of_least by blast
next
  assume r: ?r
  then obtain j where j: "index_of s sub = Some j"
    by (cases "index_of s sub") (auto simp: index_of_None)
  then have "\<not> i < j" "\<not> j < i" using r index_of_Some index_of_least by blast+
  with j show ?l by simp
qed

lemma has_prefix_drop_append:
  "k + length sub \<le> length xs \<Longrightarrow> has_prefix (drop k xs @ ys) sub \<longleftrightarrow> has_prefix (drop k xs) sub"
  by (simp add: has_prefix_def)

lemma has_prefix_length: "has_prefix (drop k xs) sub \<Longrightarrow> k \<le> length xs \<Longrightarrow> k + length sub \<le> length xs"
proof -
  assume p: "has_prefix (drop k xs) sub" and k: "k \<le> length xs"
  have "length (take (length sub) (drop k xs)) = length sub" using p by (simp add: has_prefix_def)
  with k show ?thesis by simp
qed

lemma index_of_append:
  assumes "index_of xs sub = Some i"
  shows "index_of (xs @ ys) sub = Some i"
proof -
  from assms have i: "i \<le> length xs" "has_prefix (drop i xs) sub" "\<forall>k<i. \<not> has_prefix (drop k xs) sub"
    by (auto simp: index_of_iff)
  then have "i + length sub \<le> length xs" using has_prefix_length by blast
  with i show ?thesis by (auto simp: index_of_iff has_prefix_drop_append)
qed

lemma index_of_arrived:
  assumes "index_of (xs @ ys) sub = Some i" "i + length sub \<le> length xs"
  shows "index_of xs sub = Some i"
  using assms by (auto simp: index_of_iff has_prefix_drop_append)

text \<open>
  The bytes the tunnel has still to deliver, and the states in which it delivers them: the response
  header is still to come or has come, its end is within the limit of the code, and it says 200.
\<close>

definition header_ok :: "(string \<Rightarrow> 'e + int \<times> string) \<Rightarrow> string \<Rightarrow> bool" where
  "header_ok parse s =
     (case index_of s header_end of
        None \<Rightarrow> False
      | Some i \<Rightarrow> i + 4 \<le> 16385 \<and> (case parse (take (i + 4) s) of Inl e \<Rightarrow> False | Inr (code, status) \<Rightarrow> code = 200))"

definition after_header :: "string \<Rightarrow> string" where
  "after_header s = (case index_of s header_end of None \<Rightarrow> '''' | Some i \<Rightarrow> drop (i + 4) s)"

definition tunnel_stream :: "('c \<Rightarrow> string) \<Rightarrow> 'c SpeculativeConn \<Rightarrow> string" where
  "tunnel_stream stream c =
     (if httpResponseDone c then readBuffer c @ stream (sc_Conn c)
      else after_header (headerBuffer c @ stream (sc_Conn c)))"

definition tunnel_ok :: "('c \<Rightarrow> bool) \<Rightarrow> ('c \<Rightarrow> string) \<Rightarrow> (string \<Rightarrow> 'e + int \<times> string) \<Rightarrow> 'c SpeculativeConn \<Rightarrow> bool" where
  "tunnel_ok ok stream parse c \<longleftrightarrow>
     ok (sc_Conn c) \<and>
     (httpResponseDone c \<or>
      readBuffer c = '''' \<and> index_of (headerBuffer c) header_end = None \<and>
      header_ok parse (headerBuffer c @ stream (sc_Conn c)))"

lemma length_header_end [simp]: "length header_end = 4"
  by (simp add: header_end_def)

lemma not_arrived:
  assumes "index_of xs header_end = None" "index_of (xs @ ys) header_end = Some i"
  shows "length xs < i + 4"
  using index_of_arrived [OF assms(2)] assms(1) by force

locale http_tunnel = byte_stream cread stream ok
  for cread :: "nat \<Rightarrow> 'c \<Rightarrow> ((string \<times> 'e option) \<times> 'c) option" and stream ok +
  fixes parse :: "string \<Rightarrow> 'e + int \<times> string"
begin

lemma conn_Read_delivers:
  assumes "ok (sc_Conn c)" "httpResponseDone c" "readBuffer c = ''''"
  shows "\<exists>r. conn_Read cread n c = Some r \<and> delivers (tunnel_stream stream) (tunnel_ok ok stream parse) n c r"
proof -
  from assms(1) obtain d e k where "cread n (sc_Conn c) = Some ((d, e), k)" "delivers stream ok n (sc_Conn c) ((d, e), k)"
    using read_law [of "sc_Conn c" n] by auto
  with assms show ?thesis
    by (cases e) (auto simp: conn_Read_def delivers_def tunnel_stream_def tunnel_ok_def)
qed

lemma header_found_delivers:
  assumes "ok (sc_Conn c)" "\<not> httpResponseDone c" "readBuffer c = ''''"
    and "index_of (headerBuffer c) header_end = Some i" "header_ok parse (headerBuffer c @ stream (sc_Conn c))"
  shows "\<exists>r. header_found cread parse n i c = Some r \<and> delivers (tunnel_stream stream) (tunnel_ok ok stream parse) n c r"
proof -
  let ?h = "headerBuffer c" and ?c1 = "c\<lparr>httpResponseDone := True, headerBuffer := ''''\<rparr>"
  have i: "index_of (?h @ stream (sc_Conn c)) header_end = Some i" using assms(4) by (rule index_of_append)
  have len: "i + 4 \<le> length ?h" using assms(4) has_prefix_length [of i ?h header_end] by (simp add: index_of_iff)
  have s: "tunnel_stream stream c = drop (i + 4) ?h @ stream (sc_Conn c)"
    using assms(2) i len by (simp add: tunnel_stream_def after_header_def)
  from assms(5) i len obtain status where p: "parse (take (i + 4) ?h) = Inr (200, status)"
    by (auto simp: header_ok_def split: sum.splits)
  show ?thesis
  proof (cases "drop (i + 4) ?h = ''''")
    case True
    have "\<exists>r. conn_Read cread n ?c1 = Some r \<and> delivers (tunnel_stream stream) (tunnel_ok ok stream parse) n ?c1 r"
      by (rule conn_Read_delivers) (use assms in simp_all)
    moreover have "tunnel_stream stream ?c1 = tunnel_stream stream c"
      using s True assms(3) by (simp add: tunnel_stream_def)
    ultimately have "\<exists>r. conn_Read cread n ?c1 = Some r \<and> delivers (tunnel_stream stream) (tunnel_ok ok stream parse) n c r"
      using delivers_same [of "tunnel_stream stream" ?c1 c] by metis
    with p True show ?thesis by (simp add: header_found_def)
  next
    case False
    with p s assms show ?thesis
      by (auto simp: header_found_def delivers_def tunnel_stream_def tunnel_ok_def Let_def simp del: drop_drop)
  qed
qed

lemma strip_delivers:
  assumes "tunnel_ok ok stream parse c" "\<not> httpResponseDone c"
  shows "\<exists>r. readAndStripHTTPResponse cread parse n c = Some r \<and>
    delivers (tunnel_stream stream) (tunnel_ok ok stream parse) n c r"
  using assms
proof (induction "length (stream (sc_Conn c))" arbitrary: c rule: less_induct)
  case less
  let ?all = "headerBuffer c @ stream (sc_Conn c)"
  from less.prems have ok: "ok (sc_Conn c)" "readBuffer c = ''''" "index_of (headerBuffer c) header_end = None" "header_ok parse ?all"
    by (auto simp: tunnel_ok_def)
  then obtain i where i: "index_of ?all header_end = Some i" "i + 4 \<le> 16385"
    by (auto simp: header_ok_def split: option.splits)
  have more: "stream (sc_Conn c) \<noteq> []" using i(1) ok(3) by auto
  from ok(1) obtain d e k where r: "cread 8192 (sc_Conn c) = Some ((d, e), k)" "delivers stream ok 8192 (sc_Conn c) ((d, e), k)"
    using read_law [of "sc_Conn c" 8192] by auto
  with more have d: "e = None" "d \<noteq> []" "stream (sc_Conn c) = d @ stream k" "ok k"
    by (auto simp: delivers_def split: option.splits)
  let ?c1 = "c\<lparr>sc_Conn := k, headerBuffer := headerBuffer c @ d\<rparr>"
  have all: "headerBuffer ?c1 @ stream (sc_Conn ?c1) = ?all" using d by simp
  have same: "tunnel_stream stream ?c1 = tunnel_stream stream c"
    using less.prems(2) all unfolding tunnel_stream_def by simp
  show ?case
  proof (cases "index_of (headerBuffer ?c1) header_end")
    case None
    then have "length (headerBuffer ?c1) < i + 4" using not_arrived i(1) all by metis
    with i(2) have small: "\<not> length (headerBuffer ?c1) > 16384" by linarith
    have "\<exists>r. readAndStripHTTPResponse cread parse n ?c1 = Some r \<and>
        delivers (tunnel_stream stream) (tunnel_ok ok stream parse) n ?c1 r"
      by (rule less.hyps) (use d ok less.prems(2) None all in \<open>auto simp: tunnel_ok_def\<close>)
    moreover have "readAndStripHTTPResponse cread parse n c = readAndStripHTTPResponse cread parse n ?c1"
      using None small d(1) r(1) by (subst readAndStripHTTPResponse.simps) simp
    ultimately show ?thesis using delivers_same [of "tunnel_stream stream", OF same] by metis
  next
    case (Some j)
    have "\<exists>r. header_found cread parse n j ?c1 = Some r \<and>
        delivers (tunnel_stream stream) (tunnel_ok ok stream parse) n ?c1 r"
      by (rule header_found_delivers) (use d ok less.prems(2) Some all in auto)
    moreover have "readAndStripHTTPResponse cread parse n c = header_found cread parse n j ?c1"
      using Some d(1) r(1) by (subst readAndStripHTTPResponse.simps) simp
    ultimately show ?thesis using delivers_same [of "tunnel_stream stream", OF same] by metis
  qed
qed

lemma spec_Read_delivers:
  assumes "tunnel_ok ok stream parse c"
  shows "\<exists>r. spec_Read cread parse n c = Some r \<and> delivers (tunnel_stream stream) (tunnel_ok ok stream parse) n c r"
proof (cases "httpResponseDone c")
  case False
  with assms strip_delivers [of c n] show ?thesis by (simp add: spec_Read_def tunnel_ok_def)
next
  case fin: True
  show ?thesis
  proof (cases "readBuffer c = ''''")
    case True
    with fin assms conn_Read_delivers [of c n] show ?thesis by (simp add: spec_Read_def tunnel_ok_def)
  next
    case False
    with fin assms show ?thesis
      by (simp add: spec_Read_def delivers_def tunnel_stream_def tunnel_ok_def)
  qed
qed

end

sublocale http_tunnel \<subseteq> tunnel: byte_stream "spec_Read cread parse" "tunnel_stream stream" "tunnel_ok ok stream parse"
  by unfold_locales (rule spec_Read_delivers)

text \<open>
  A TCP connection as the sequence of chunks its peer sends before it closes or fails with an
  error, what has been sent to the peer and how the next writes end: in full, or after some bytes
  with an error.
\<close>

record 'e peer =
  pe_chunks :: "string list"
  pe_end :: 'e
  pe_sent :: string
  pe_writes :: "(nat \<times> 'e) option list"

definition peer_Read :: "('e peer, 'e) reader" where
  "peer_Read n p =
     (case pe_chunks p of
        [] \<Rightarrow> Some (('''', Some (pe_end p)), p)
      | x # xs \<Rightarrow> Some ((take n x, None), p\<lparr>pe_chunks := (if length x \<le> n then xs else drop n x # xs)\<rparr>))"

definition peer_Write :: "('e peer, 'e) writer" where
  "peer_Write b p =
     (case pe_writes p of
        [] \<Rightarrow> ((length b, None), p\<lparr>pe_sent := pe_sent p @ b\<rparr>)
      | None # ws \<Rightarrow> ((length b, None), p\<lparr>pe_sent := pe_sent p @ b, pe_writes := ws\<rparr>)
      | Some (k, e) # ws \<Rightarrow>
          ((length (take k b), Some e), p\<lparr>pe_sent := pe_sent p @ take k b, pe_writes := ws\<rparr>))"

definition peer_stream :: "'e peer \<Rightarrow> string" where
  "peer_stream p = concat (pe_chunks p)"

definition peer_ok :: "'e peer \<Rightarrow> bool" where
  "peer_ok p \<longleftrightarrow> [] \<notin> set (pe_chunks p)"

lemma peer_Read_delivers: "peer_ok p \<Longrightarrow> \<exists>r. peer_Read n p = Some r \<and> delivers peer_stream peer_ok n p r"
  by (cases "pe_chunks p") (auto simp: peer_Read_def peer_ok_def peer_stream_def delivers_def)

interpretation tcp: byte_stream peer_Read peer_stream peer_ok
  by unfold_locales (rule peer_Read_delivers)

interpretation proxied: http_tunnel peer_Read peer_stream peer_ok parse for parse
  by unfold_locales

lemma new_tunnel:
  assumes "peer_ok p" "peer_stream p = h @ body" "index_of h header_end = Some (length h - 4)" "length h \<le> 16385"
    and "parse h = Inr (200, status)"
  shows "tunnel_ok peer_ok peer_stream parse (NewSpeculativeConn p req)"
    and "tunnel_stream peer_stream (NewSpeculativeConn p req) = body"
proof -
  have h: "length h - 4 + 4 = length h"
    using has_prefix_length [of "length h - 4" h header_end] assms(3) by (simp add: index_of_iff)
  have i: "index_of (h @ body) header_end = Some (length h - 4)" using assms(3) by (rule index_of_append)
  show "tunnel_stream peer_stream (NewSpeculativeConn p req) = body"
    using assms(2) i h by (simp add: tunnel_stream_def NewSpeculativeConn_def after_header_def)
  show "tunnel_ok peer_ok peer_stream parse (NewSpeculativeConn p req)"
    using assms i h by (simp add: tunnel_ok_def NewSpeculativeConn_def header_ok_def header_end_def)
qed

text \<open>C13.
  However the proxy's answer and the bytes behind it are cut into segments, and whatever the sizes
  of the caller's buffers: when the response header ends within the first 16385 bytes and says 200,
  every read of the speculative connection returns, and together the reads give exactly the bytes
  behind the header, from the first one to the last.
\<close>
theorem tunnel_delivers_all:
  assumes "[] \<notin> set (pe_chunks p)" "concat (pe_chunks p) = h @ body"
    and "index_of h header_end = Some (length h - 4)" "length h \<le> 16385" "parse h = Inr (200, status)"
    and "\<forall>n\<in>set ns. 0 < n" "length body \<le> length ns"
  shows "\<exists>c'. reads (spec_Read peer_Read parse) ns (NewSpeculativeConn p req) = Some (body, c')"
proof -
  have p: "peer_ok p" "peer_stream p = h @ body" using assms by (auto simp: peer_ok_def peer_stream_def)
  note new = new_tunnel [where parse = parse, OF p assms(3-5), of req]
  from proxied.tunnel.reads_all [OF new(1) assms(6)] assms(7) new(2) show ?thesis by auto
qed

definition status_of :: "string \<Rightarrow> string + int \<times> string" where
  "status_of s = (if has_prefix s ''HTTP/1.1 200'' then Inr (200, ''200 OK'') else Inr (407, ''407''))"

definition example_peer :: "string peer" where
  "example_peer =
     \<lparr>pe_chunks = [''HTTP/1.1 20'', ''0 OK'' @ [CHR 0x0D, CHR 0x0A, CHR 0x0D], CHR 0x0A # ''ab'', ''c''],
      pe_end = ''EOF'', pe_sent = '''', pe_writes = []\<rparr>"

lemma tunnel_delivers_all_witness:
  "\<exists>c'. reads (spec_Read peer_Read status_of) [2, 1, 5] (NewSpeculativeConn example_peer ''CONNECT'') = Some (''abc'', c')"
  by (rule tunnel_delivers_all [where h = "''HTTP/1.1 200 OK'' @ header_end" and status = "''200 OK''"])
    (simp_all add: example_peer_def header_end_def status_of_def has_prefix_def)

section \<open>Nothing is read before the proxy agrees\<close>

text \<open>
  A caller that goes on reading after errors, and the state of the connection after it has got the
  bytes \<open>dl\<close> of a stream \<open>s\<close>.
\<close>

fun read_calls :: "('c, 'e) reader \<Rightarrow> nat list \<Rightarrow> 'c \<Rightarrow> (string \<times> 'c) option" where
  "read_calls cread [] c = Some ('''', c)"
| "read_calls cread (n # ns) c =
     (case cread n c of
        None \<Rightarrow> None
      | Some ((d, e), c') \<Rightarrow> map_option (\<lambda>(d', c''). (d @ d', c'')) (read_calls cread ns c'))"

definition agreed_at :: "(string \<Rightarrow> 'e + int \<times> string) \<Rightarrow> string \<Rightarrow> nat \<Rightarrow> bool" where
  "agreed_at parse s i \<longleftrightarrow>
     index_of s header_end = Some i \<and>
     (case parse (take (i + 4) s) of Inl e \<Rightarrow> False | Inr (code, status) \<Rightarrow> code = 200)"

definition tunnel_got :: "('c \<Rightarrow> bool) \<Rightarrow> ('c \<Rightarrow> string) \<Rightarrow> (string \<Rightarrow> 'e + int \<times> string) \<Rightarrow> string \<Rightarrow> string \<Rightarrow>
    'c SpeculativeConn \<Rightarrow> bool" where
  "tunnel_got ok stream parse s dl c \<longleftrightarrow>
     ok (sc_Conn c) \<and>
     (if httpResponseDone c
      then \<exists>i. agreed_at parse s i \<and> drop (i + 4) s = dl @ readBuffer c @ stream (sc_Conn c)
      else dl = '''' \<and> readBuffer c = '''' \<and> s = headerBuffer c @ stream (sc_Conn c))"

lemma agreed_at_iff:
  "agreed_at parse s i \<longleftrightarrow> index_of s header_end = Some i \<and> (\<exists>status. parse (take (i + 4) s) = Inr (200, status))"
  by (auto simp: agreed_at_def split: sum.splits)

context http_tunnel begin

lemma conn_Read_got:
  assumes "conn_Read cread n c = Some ((d, e), c')" "tunnel_got ok stream parse s dl c" "httpResponseDone c" "readBuffer c = ''''"
  shows "tunnel_got ok stream parse s (dl @ d) c'"
proof -
  from assms(2) have "ok (sc_Conn c)" by (simp add: tunnel_got_def)
  then obtain x k where "cread n (sc_Conn c) = Some ((d, x), k)" "c' = c\<lparr>sc_Conn := k\<rparr>" "stream (sc_Conn c) = d @ stream k" "ok k"
    using assms(1) read_law [of "sc_Conn c" n] by (fastforce simp: conn_Read_def delivers_def)
  with assms(2-4) show ?thesis by (auto simp: tunnel_got_def)
qed

lemma header_found_got:
  assumes "header_found cread parse n i c = Some ((d, e), c')" "tunnel_got ok stream parse s '''' c"
    and "\<not> httpResponseDone c" "index_of (headerBuffer c) header_end = Some i"
  shows "tunnel_got ok stream parse s d c'"
proof -
  let ?h = "headerBuffer c" and ?c1 = "c\<lparr>httpResponseDone := True, headerBuffer := ''''\<rparr>"
  from assms(2,3) have s: "s = ?h @ stream (sc_Conn c)" and ok: "ok (sc_Conn c)" "readBuffer c = ''''"
    by (auto simp: tunnel_got_def)
  have len: "i + 4 \<le> length ?h" using assms(4) has_prefix_length [of i ?h header_end] by (simp add: index_of_iff)
  have at: "index_of s header_end = Some i" "take (i + 4) s = take (i + 4) ?h" "drop (i + 4) s = drop (i + 4) ?h @ stream (sc_Conn c)"
    using index_of_append [OF assms(4)] s len by auto
  show ?thesis
  proof (cases "agreed_at parse s i")
    case False
    with assms(1) at have "d = ''''" "c' = c"
      by (auto simp: header_found_def agreed_at_def split: sum.splits if_splits)
    with assms(2) show ?thesis by simp
  next
    case True
    then obtain status where p: "parse (take (i + 4) ?h) = Inr (200, status)"
      using at by (auto simp: agreed_at_def split: sum.splits)
    show ?thesis
    proof (cases "drop (i + 4) ?h = ''''")
      case none: True
      then have got: "tunnel_got ok stream parse s '''' ?c1"
        using True at ok by (auto simp: tunnel_got_def intro!: exI [of _ i])
      have "conn_Read cread n ?c1 = Some ((d, e), c')"
        using assms(1) p none by (simp add: header_found_def)
      from conn_Read_got [OF this got] ok show ?thesis by simp
    next
      case False
      with assms(1) p ok have "d = take n (drop (i + 4) ?h)" "c' = ?c1\<lparr>readBuffer := drop n (drop (i + 4) ?h)\<rparr>"
        by (auto simp: header_found_def Let_def)
      with True at ok show ?thesis by (auto simp: tunnel_got_def intro!: exI [of _ i] simp del: drop_drop)
    qed
  qed
qed

lemma strip_got:
  assumes ret: "readAndStripHTTPResponse cread parse n c = Some r"
    and got: "tunnel_got ok stream parse s '''' c" "\<not> httpResponseDone c"
  shows "tunnel_got ok stream parse s (fst (fst r)) (snd r)"
proof -
  let ?P = "\<lambda>cr p c r. cr = cread \<longrightarrow> p = parse \<longrightarrow> tunnel_got ok stream parse s '''' c \<longrightarrow> \<not> httpResponseDone c \<longrightarrow>
     tunnel_got ok stream parse s (fst (fst r)) (snd r)"
  have "?P cread parse c r"
  proof (rule readAndStripHTTPResponse.raw_induct [where P = "\<lambda>cr p n c r. ?P cr p c r", OF _ ret], goal_cases)
    case (1 f cr p n c r)
    note IH = 1(1) and eq = 1(2)
    show ?case
    proof (intro impI)
      assume [simp]: "cr = cread" "p = parse" and got: "tunnel_got ok stream parse s '''' c" and nd: "\<not> httpResponseDone c"
      from got have "ok (sc_Conn c)" by (simp add: tunnel_got_def)
      then obtain d err k where x: "cread 8192 (sc_Conn c) = Some ((d, err), k)" and
        law: "stream (sc_Conn c) = d @ stream k" "ok k" "err \<noteq> None \<longrightarrow> stream (sc_Conn c) = []"
        using read_law [of "sc_Conn c" 8192] by (fastforce simp: delivers_def split: option.splits)
      let ?c1 = "c\<lparr>sc_Conn := k, headerBuffer := headerBuffer c @ d\<rparr>"
      have got1: "tunnel_got ok stream parse s '''' ?c1" using got nd law by (auto simp: tunnel_got_def)
      have got2: "err \<noteq> None \<Longrightarrow> tunnel_got ok stream parse s '''' (c\<lparr>sc_Conn := k\<rparr>)"
        using got nd law by (auto simp: tunnel_got_def)
      consider (failed) "err \<noteq> None"
        | (long) "err = None" "index_of (headerBuffer ?c1) header_end = None" "length (headerBuffer ?c1) > 16384"
        | (again) "err = None" "index_of (headerBuffer ?c1) header_end = None" "\<not> length (headerBuffer ?c1) > 16384"
        | (found) i where "err = None" "index_of (headerBuffer ?c1) header_end = Some i"
        by (cases "index_of (headerBuffer ?c1) header_end") auto
      then show "tunnel_got ok stream parse s (fst (fst r)) (snd r)"
      proof cases
        case again
        with x eq have "f cread parse n ?c1 = Some r" by simp
        from IH [OF this] got1 nd show ?thesis by simp
      next
        case (found i)
        with x eq have "header_found cread parse n i ?c1 = Some ((fst (fst r), snd (fst r)), snd r)" by simp
        from header_found_got [OF this got1 _ found(2)] nd show ?thesis by simp
      qed (use x eq got1 got2 in auto)
    qed
  qed
  with got show ?thesis by simp
qed

lemma spec_Read_got:
  assumes "spec_Read cread parse n c = Some ((d, e), c')" "tunnel_got ok stream parse s dl c"
  shows "tunnel_got ok stream parse s (dl @ d) c'"
proof (cases "httpResponseDone c")
  case False
  with assms(2) have "dl = ''''" "readBuffer c = ''''" by (auto simp: tunnel_got_def)
  with assms False strip_got [of n c "((d, e), c')" s] show ?thesis by (simp add: spec_Read_def)
next
  case fin: True
  show ?thesis
  proof (cases "readBuffer c = ''''")
    case True
    with fin assms conn_Read_got [of n c d e c' s dl] show ?thesis by (simp add: spec_Read_def)
  next
    case False
    with fin assms show ?thesis by (auto simp: spec_Read_def tunnel_got_def)
  qed
qed

lemma read_calls_got:
  "read_calls (spec_Read cread parse) ns c = Some (d, c') \<Longrightarrow> tunnel_got ok stream parse s dl c \<Longrightarrow>
   tunnel_got ok stream parse s (dl @ d) c'"
proof (induction ns arbitrary: c d dl)
  case (Cons n ns)
  then obtain d1 e c1 d2 where r: "spec_Read cread parse n c = Some ((d1, e), c1)"
    "read_calls (spec_Read cread parse) ns c1 = Some (d2, c')" "d = d1 @ d2"
    by (auto split: option.splits)
  from Cons.IH [OF r(2) spec_Read_got [OF r(1) Cons.prems(2)]] r(3) show ?case by simp
qed simp

end

context http_tunnel begin

lemma conn_Read_returns: "ok (sc_Conn c) \<Longrightarrow> \<exists>r. conn_Read cread n c = Some r"
  using read_law [of "sc_Conn c" n] by (fastforce simp: conn_Read_def)

lemma strip_returns: "ok (sc_Conn c) \<Longrightarrow> \<exists>r. readAndStripHTTPResponse cread parse n c = Some r"
proof (induction "length (stream (sc_Conn c))" arbitrary: c rule: less_induct)
  case less
  obtain d err k where x: "cread 8192 (sc_Conn c) = Some ((d, err), k)" and
    law: "delivers stream ok 8192 (sc_Conn c) ((d, err), k)"
    using read_law [OF less.prems, of 8192] by auto
  let ?c1 = "c\<lparr>sc_Conn := k, headerBuffer := headerBuffer c @ d\<rparr>"
  have "err = None \<Longrightarrow> \<exists>r. readAndStripHTTPResponse cread parse n ?c1 = Some r"
    by (rule less.hyps) (use law in \<open>auto simp: delivers_def\<close>)
  moreover have "\<exists>r. header_found cread parse n i ?c1 = Some r" for i
    using conn_Read_returns [of "?c1\<lparr>httpResponseDone := True, headerBuffer := ''''\<rparr>" n] law
    by (auto simp: header_found_def delivers_def Let_def split: sum.splits)
  ultimately show ?case using x
    by (subst readAndStripHTTPResponse.simps) (auto simp: Let_def split: option.splits)
qed

lemma spec_Read_returns: "ok (sc_Conn c) \<Longrightarrow> \<exists>r. spec_Read cread parse n c = Some r"
  using conn_Read_returns [of c n] strip_returns [of c n] by (simp add: spec_Read_def)

lemma read_calls_return:
  "tunnel_got ok stream parse s dl c \<Longrightarrow> \<exists>r. read_calls (spec_Read cread parse) ns c = Some r"
proof (induction ns arbitrary: c dl)
  case (Cons n ns)
  then have "ok (sc_Conn c)" by (simp add: tunnel_got_def)
  then obtain d e c' where r: "spec_Read cread parse n c = Some ((d, e), c')"
    using spec_Read_returns [of c n] by auto
  from Cons.IH [OF spec_Read_got [OF r Cons.prems]] r show ?case by auto
qed simp

end

lemma new_tunnel_got: "peer_ok p \<Longrightarrow> tunnel_got peer_ok peer_stream parse (peer_stream p) '''' (NewSpeculativeConn p req)"
  by (simp add: tunnel_got_def NewSpeculativeConn_def)

text \<open>C14.
  Whatever the peer sends and however often the caller reads, also after errors: every read
  returns, and all that the reads ever give is the bytes, in order and without a gap, that follow
  the first complete response header of the stream, and nothing at all unless that header parses
  with status 200. A proxy that refuses, or sends no header, delivers no byte to the TLS client.
\<close>
theorem nothing_before_agreement:
  assumes "[] \<notin> set (pe_chunks p)"
  shows "\<exists>d c'. read_calls (spec_Read peer_Read parse) ns (NewSpeculativeConn p req) = Some (d, c') \<and>
    (d = '''' \<or>
     (\<exists>i status. index_of (concat (pe_chunks p)) header_end = Some i \<and>
        parse (take (i + 4) (concat (pe_chunks p))) = Inr (200, status) \<and>
        has_prefix (drop (i + 4) (concat (pe_chunks p))) d))"
proof -
  have got: "tunnel_got peer_ok peer_stream parse (peer_stream p) '''' (NewSpeculativeConn p req)"
    using assms new_tunnel_got by (simp add: peer_ok_def)
  obtain d c' where r: "read_calls (spec_Read peer_Read parse) ns (NewSpeculativeConn p req) = Some (d, c')"
    using proxied.read_calls_return [OF got] by force
  have "tunnel_got peer_ok peer_stream parse (peer_stream p) d c'"
    using proxied.read_calls_got [OF r got] by simp
  with r show ?thesis
    by (fastforce simp: tunnel_got_def agreed_at_iff peer_stream_def split: if_splits)
qed

definition refusing_peer :: "string peer" where
  "refusing_peer = example_peer\<lparr>pe_chunks := [''HTTP/1.1 407 Denied'' @ header_end @ ''ab'', ''c'']\<rparr>"

lemma nothing_before_agreement_witness:
  "\<exists>d c'. read_calls (spec_Read peer_Read status_of) [2, 1] (NewSpeculativeConn refusing_peer ''CONNECT'') = Some (d, c') \<and>
    (d = '''' \<or>
     (\<exists>i status. index_of (concat (pe_chunks refusing_peer)) header_end = Some i \<and>
        status_of (take (i + 4) (concat (pe_chunks refusing_peer))) = Inr (200, status) \<and>
        has_prefix (drop (i + 4) (concat (pe_chunks refusing_peer))) d))"
  by (rule nothing_before_agreement) (simp add: refusing_peer_def header_end_def)

section \<open>Writing\<close>

fun writes :: "('c, 'e) writer \<Rightarrow> string list \<Rightarrow> 'c SpeculativeConn \<Rightarrow> (nat \<times> 'e conn_error option) list \<times> 'c SpeculativeConn" where
  "writes cwrite [] c = ([], c)"
| "writes cwrite (b # bs) c =
     (let (r, c1) = spec_Write cwrite b c; (rs, c2) = writes cwrite bs c1 in (r # rs, c2))"

lemma writes_after_first:
  "firstWrite c \<Longrightarrow> pe_writes (sc_Conn c) = [] \<Longrightarrow> writes peer_Write bs c = (rs, c') \<Longrightarrow>
   pe_sent (sc_Conn c') = pe_sent (sc_Conn c) @ concat bs \<and> rs = map (\<lambda>b. (length b, None)) bs"
proof (induction bs arbitrary: c rs)
  case (Cons b bs)
  let ?c1 = "c\<lparr>sc_Conn := (sc_Conn c)\<lparr>pe_sent := pe_sent (sc_Conn c) @ b\<rparr>\<rparr>"
  have "spec_Write peer_Write b c = ((length b, None), ?c1)"
    using Cons.prems by (simp add: spec_Write_def peer_Write_def)
  with Cons.prems obtain rs' where "writes peer_Write bs ?c1 = (rs', c')" "rs = (length b, None) # rs'"
    by (auto simp: Let_def split: prod.splits)
  with Cons.IH [of ?c1 rs'] Cons.prems show ?case by simp
qed simp

text \<open>
  On a connection whose writes succeed the peer receives the CONNECT request once, before
  everything the caller writes, and the caller is told the lengths of its own data.
\<close>

lemma request_sent_first:
  assumes "pe_writes p = []" "bs \<noteq> []" "writes peer_Write bs (NewSpeculativeConn p req) = (rs, c')"
  shows "pe_sent (sc_Conn c') = pe_sent p @ req @ concat bs" "rs = map (\<lambda>b. (length b, None)) bs"
proof -
  obtain b bs' where bs: "bs = b # bs'" using assms(2) by (cases bs) auto
  let ?c1 = "(NewSpeculativeConn p req)\<lparr>sc_Conn := p\<lparr>pe_sent := pe_sent p @ req @ b\<rparr>, firstWrite := True\<rparr>"
  have "spec_Write peer_Write b (NewSpeculativeConn p req) = ((length b, None), ?c1)"
    using assms(1) by (simp add: spec_Write_def peer_Write_def NewSpeculativeConn_def)
  moreover obtain rs' where "writes peer_Write bs' ?c1 = (rs', c')" "rs = (length b, None) # rs'"
    using assms(3) bs calculation by (auto simp: Let_def split: prod.splits)
  ultimately show "pe_sent (sc_Conn c') = pe_sent p @ req @ concat bs" "rs = map (\<lambda>b. (length b, None)) bs"
    using writes_after_first [of ?c1 bs' rs' c'] assms(1) bs by auto
qed

text \<open>After a first write that fails the next write sends the request again.\<close>

lemma request_repeated:
  "spec_Write peer_Write b (NewSpeculativeConn (p\<lparr>pe_writes := [Some (k, e)]\<rparr>) req) =
     ((0, Some (SpeculativeTLSError ''write'' 0 (Some (ConnError e)))),
      NewSpeculativeConn (p\<lparr>pe_writes := [], pe_sent := pe_sent p @ take k (req @ b)\<rparr>) req)"
  by (simp add: spec_Write_def peer_Write_def NewSpeculativeConn_def)

section \<open>Dialling an HTTP proxy\<close>

text \<open>
  The dialling code of \<open>HTTP1Transport\<close> and \<open>HTTP2Transport\<close> is the same but for the text of a
  refusal. The resolver, the dialers and what \<open>http.ReadResponse\<close> finds through a \<open>bufio.Reader\<close> on
  the connection are parameters; that last one gives also the bytes left in the reader's buffer.
  Deadlines are not modelled. An error carries the connection it leaves behind.
\<close>

datatype dial_error =
    InvalidProxyURL
  | ProxyLookupFailed string string
  | NoProxyAddresses string
  | ProxyDialFailed string
  | ConnectSendFailed string
  | ConnectReadFailed string
  | ConnectRefused string
  | Socks5Failed string

text \<open>
  A \<open>bufferedConn\<close>: the buffer and the pending error of its \<open>bufio.Reader\<close>, and how many of the two
  readers of its \<open>io.MultiReader(br, conn)\<close> have reported the end of the stream.
\<close>

record 'c bufferedConn =
  bc_buf :: string
  bc_err :: "string option"
  bc_ended :: nat
  bc_conn :: 'c

datatype 'c tunnel =
    PlainConn 'c
  | BufferedConn "'c bufferedConn"
  | Speculative "'c SpeculativeConn"

record 'c dial_env =
  de_lookup :: "string \<Rightarrow> string + string list"
  de_dial :: "string \<Rightarrow> string + 'c"
  de_socks5 :: "string \<Rightarrow> string \<Rightarrow> string + 'c"
  de_write :: "('c, string) writer"
  de_response :: "'c \<Rightarrow> ((string + int \<times> string) \<times> string) \<times> 'c"
  de_close :: "'c \<Rightarrow> 'c"

type_synonym 'c dialed = "(dial_error \<times> 'c option) + 'c tunnel"

definition proxy_port :: "URL \<Rightarrow> string" where
  "proxy_port u = (if Port u = '''' then (if u_Scheme u = ''https'' then ''443'' else ''8080'') else Port u)"

definition getProxyAuth :: "ProxyConfig \<Rightarrow> URL \<Rightarrow> string" where
  "getProxyAuth px u =
     (let username = (case u_User u of Some (n, _) \<Rightarrow> if n \<noteq> '''' then n else px_Username px | None \<Rightarrow> px_Username px);
          password = (case u_User u of Some (_, Some p) \<Rightarrow> p | _ \<Rightarrow> px_Password px) in
      if username = '''' then '''' else encodeBase64 (bytes_of (username @ '':'' @ password)))"

definition eol :: string where
  "eol = [CHR 0x0D, CHR 0x0A]"

definition connect_request :: "string \<Rightarrow> string \<Rightarrow> string" where
  "connect_request target auth =
     ''CONNECT '' @ target @ '' HTTP/1.1'' @ eol @ ''Host: '' @ target @ eol @
     (if auth \<noteq> '''' then ''Proxy-Authorization: Basic '' @ auth @ eol else '''') @
     ''Connection: keep-alive'' @ eol @ eol"

definition h1_refusal :: "int \<Rightarrow> string \<Rightarrow> string" where
  "h1_refusal code status = ''proxy CONNECT failed: '' @ status"

definition h2_refusal :: "int \<Rightarrow> string \<Rightarrow> string" where
  "h2_refusal code status = ''proxy CONNECT failed with status '' @ int_string code @ '': '' @ status"

definition dialHTTPProxyBlocking :: "(int \<Rightarrow> string \<Rightarrow> string) \<Rightarrow> 'c dial_env \<Rightarrow> 'c \<Rightarrow> string \<Rightarrow> 'c dialed" where
  "dialHTTPProxyBlocking refusal env conn req =
     (case de_write env req conn of
        ((_, Some e), k) \<Rightarrow> Inl (ConnectSendFailed e, Some (de_close env k))
      | ((_, None), k) \<Rightarrow>
          (case de_response env k of
             ((Inl e, _), k') \<Rightarrow> Inl (ConnectReadFailed e, Some (de_close env k'))
           | ((Inr (code, status), buffered), k') \<Rightarrow>
               if code \<noteq> 200 then Inl (ConnectRefused (refusal code status), Some (de_close env k'))
               else if buffered \<noteq> '''' then Inr (BufferedConn \<lparr>bc_buf = buffered, bc_err = None, bc_ended = 0, bc_conn = k'\<rparr>)
               else Inr (PlainConn k')))"

text \<open>Parsing the proxy's URL, looking up its host and dialling its first address.\<close>

definition dial_proxy_host :: "'c dial_env \<Rightarrow> ProxyConfig \<Rightarrow> (dial_error \<times> 'c option) + URL \<times> 'c" where
  "dial_proxy_host env px =
     (case Parse (px_URL px) of
        None \<Rightarrow> Inl (InvalidProxyURL, None)
      | Some u \<Rightarrow>
          (case de_lookup env (Hostname u) of
             Inl e \<Rightarrow> Inl (ProxyLookupFailed (Hostname u) e, None)
           | Inr [] \<Rightarrow> Inl (NoProxyAddresses (Hostname u), None)
           | Inr (ip # _) \<Rightarrow>
               (case de_dial env (JoinHostPort ip (proxy_port u)) of
                  Inl e \<Rightarrow> Inl (ProxyDialFailed e, None)
                | Inr c \<Rightarrow> Inr (u, c))))"

definition dialHTTPProxyBlockingFresh ::
  "(int \<Rightarrow> string \<Rightarrow> string) \<Rightarrow> 'c dial_env \<Rightarrow> ProxyConfig \<Rightarrow> string \<Rightarrow> string \<Rightarrow> 'c dialed" where
  "dialHTTPProxyBlockingFresh refusal env px host port =
     (case dial_proxy_host env px of
        Inl e \<Rightarrow> Inl e
      | Inr (u, c) \<Rightarrow> dialHTTPProxyBlocking refusal env c (connect_request (JoinHostPort host port) (getProxyAuth px u)))"

text \<open>\<open>blocked\<close> is the blocklist of proxies that do not support speculation, \<open>enabled\<close> the configuration's switch.\<close>

definition MarkProxyNoSpeculative :: "string \<Rightarrow> string set \<Rightarrow> string set" where
  "MarkProxyNoSpeculative url blocked = insert url blocked"

definition IsProxyNoSpeculative :: "string \<Rightarrow> string set \<Rightarrow> bool" where
  "IsProxyNoSpeculative url blocked \<longleftrightarrow> url \<in> blocked"

definition dialThroughHTTPProxy ::
  "(int \<Rightarrow> string \<Rightarrow> string) \<Rightarrow> bool \<Rightarrow> string set \<Rightarrow> 'c dial_env \<Rightarrow> ProxyConfig \<Rightarrow> string \<Rightarrow> string \<Rightarrow> 'c dialed" where
  "dialThroughHTTPProxy refusal enabled blocked env px host port =
     (case dial_proxy_host env px of
        Inl e \<Rightarrow> Inl e
      | Inr (u, c) \<Rightarrow>
          let req = connect_request (JoinHostPort host port) (getProxyAuth px u) in
          if enabled \<and> \<not> IsProxyNoSpeculative (px_URL px) blocked then Inr (Speculative (NewSpeculativeConn c req))
          else dialHTTPProxyBlocking refusal env c req)"

definition dialThroughProxy ::
  "(int \<Rightarrow> string \<Rightarrow> string) \<Rightarrow> bool \<Rightarrow> string set \<Rightarrow> 'c dial_env \<Rightarrow> ProxyConfig \<Rightarrow> string \<Rightarrow> string \<Rightarrow> 'c dialed" where
  "dialThroughProxy refusal enabled blocked env px host port =
     (if IsSOCKS5Proxy (px_URL px) then
        (case de_socks5 env host port of Inl e \<Rightarrow> Inl (Socks5Failed e, None) | Inr c \<Rightarrow> Inr (PlainConn c))
      else dialThroughHTTPProxy refusal enabled blocked env px host port)"

text \<open>The methods of \<open>HTTP2Transport\<close>.\<close>

definition h2_dialHTTPProxyBlocking :: "'c dial_env \<Rightarrow> 'c \<Rightarrow> string \<Rightarrow> 'c dialed" where
  "h2_dialHTTPProxyBlocking = dialHTTPProxyBlocking h2_refusal"

definition h2_dialHTTPProxyBlockingFresh :: "'c dial_env \<Rightarrow> ProxyConfig \<Rightarrow> string \<Rightarrow> string \<Rightarrow> 'c dialed" where
  "h2_dialHTTPProxyBlockingFresh = dialHTTPProxyBlockingFresh h2_refusal"

definition h2_dialThroughHTTPProxy ::
  "bool \<Rightarrow> string set \<Rightarrow> 'c dial_env \<Rightarrow> ProxyConfig \<Rightarrow> string \<Rightarrow> string \<Rightarrow> 'c dialed" where
  "h2_dialThroughHTTPProxy = dialThroughHTTPProxy h2_refusal"

definition h2_dialThroughProxy ::
  "bool \<Rightarrow> string set \<Rightarrow> 'c dial_env \<Rightarrow> ProxyConfig \<Rightarrow> string \<Rightarrow> string \<Rightarrow> 'c dialed" where
  "h2_dialThroughProxy = dialThroughProxy h2_refusal"

text \<open>
  \<open>bufio.Reader.Read\<close>: buffered bytes first, then the pending error, then one read of the connection,
  into the reader's buffer of 4096 bytes when the caller's is smaller.
\<close>

definition bufio_Read :: "('c, string) reader \<Rightarrow> ('c bufferedConn, string) reader" where
  "bufio_Read cread n b =
     (if bc_buf b \<noteq> '''' then Some ((take n (bc_buf b), None), b\<lparr>bc_buf := drop n (bc_buf b)\<rparr>)
      else if n = 0 \<or> bc_err b \<noteq> None then Some (('''', bc_err b), b\<lparr>bc_err := None\<rparr>)
      else if 4096 \<le> n then
        (case cread n (bc_conn b) of None \<Rightarrow> None | Some ((d, e), k) \<Rightarrow> Some ((d, e), b\<lparr>bc_conn := k\<rparr>))
      else
        (case cread 4096 (bc_conn b) of
           None \<Rightarrow> None
         | Some ((d, e), k) \<Rightarrow>
             if d = '''' then Some (('''', e), b\<lparr>bc_conn := k\<rparr>)
             else Some ((take n d, None), b\<lparr>bc_conn := k, bc_buf := drop n d, bc_err := e\<rparr>)))"

text \<open>\<open>io.MultiReader\<close>; the end of the stream is the error \<open>EOF\<close>.\<close>

definition eof_text :: string where
  "eof_text = ''EOF''"

definition direct_Read :: "('c, string) reader \<Rightarrow> ('c bufferedConn, string) reader" where
  "direct_Read cread n b =
     (case cread n (bc_conn b) of
        None \<Rightarrow> None
      | Some ((d, e), k) \<Rightarrow> Some ((d, e), b\<lparr>bc_conn := k, bc_ended := (if e = Some eof_text then 2 else bc_ended b)\<rparr>))"

definition buffered_Read :: "('c, string) reader \<Rightarrow> ('c bufferedConn, string) reader" where
  "buffered_Read cread n b =
     (if bc_ended b = 0 then
        (case bufio_Read cread n b of
           None \<Rightarrow> None
         | Some ((d, e), b1) \<Rightarrow>
             if e \<noteq> Some eof_text then Some ((d, e), b1)
             else if d \<noteq> '''' then Some ((d, None), b1\<lparr>bc_ended := 1\<rparr>)
             else direct_Read cread n (b1\<lparr>bc_ended := 1\<rparr>))
      else if bc_ended b = 1 then direct_Read cread n b
      else Some (('''', Some eof_text), b))"

fun tunnel_Read :: "('c, string) reader \<Rightarrow> (string \<Rightarrow> string + int \<times> string) \<Rightarrow> ('c tunnel, string conn_error) reader" where
  "tunnel_Read cread parse n (PlainConn c) =
     (case cread n c of None \<Rightarrow> None | Some ((d, e), c') \<Rightarrow> Some ((d, map_option ConnError e), PlainConn c'))"
| "tunnel_Read cread parse n (BufferedConn b) =
     (case buffered_Read cread n b of None \<Rightarrow> None | Some ((d, e), b') \<Rightarrow> Some ((d, map_option ConnError e), BufferedConn b'))"
| "tunnel_Read cread parse n (Speculative s) =
     (case spec_Read cread parse n s of None \<Rightarrow> None | Some (r, s') \<Rightarrow> Some (r, Speculative s'))"

text \<open>The bytes a dialled tunnel has still to deliver.\<close>

fun pending :: "('c \<Rightarrow> string) \<Rightarrow> 'c tunnel \<Rightarrow> string" where
  "pending stream (PlainConn c) = stream c"
| "pending stream (BufferedConn b) = bc_buf b @ stream (bc_conn b)"
| "pending stream (Speculative s) = tunnel_stream stream s"

fun sound :: "('c \<Rightarrow> bool) \<Rightarrow> ('c \<Rightarrow> string) \<Rightarrow> (string \<Rightarrow> string + int \<times> string) \<Rightarrow> 'c tunnel \<Rightarrow> bool" where
  "sound ok stream parse (PlainConn c) = ok c"
| "sound ok stream parse (BufferedConn b) =
     (ok (bc_conn b) \<and> bc_err b = None \<and> (bc_ended b \<noteq> 0 \<longrightarrow> bc_buf b = '''' \<and> stream (bc_conn b) = ''''))"
| "sound ok stream parse (Speculative s) = tunnel_ok ok stream parse s"

locale dialled = http_tunnel cread stream ok parse
  for cread :: "nat \<Rightarrow> 'c \<Rightarrow> ((string \<times> string option) \<times> 'c) option" and stream ok and parse
begin

lemma direct_delivers:
  assumes "ok (bc_conn b)" "bc_err b = None" "bc_buf b = ''''" "bc_ended b \<noteq> 0 \<longrightarrow> stream (bc_conn b) = ''''"
  shows "\<exists>d e b'. direct_Read cread n b = Some ((d, e), b') \<and>
    delivers (pending stream) (sound ok stream parse) n (BufferedConn b) ((d, e), BufferedConn b')"
proof -
  obtain d e k where r: "cread n (bc_conn b) = Some ((d, e), k)" "delivers stream ok n (bc_conn b) ((d, e), k)"
    using read_law [OF assms(1), of n] by auto
  with assms show ?thesis
    by (auto simp: direct_Read_def delivers_def split: option.splits)
qed

lemma bufio_delivers:
  assumes "sound ok stream parse (BufferedConn b)"
  shows "\<exists>d e b'. bufio_Read cread n b = Some ((d, e), b') \<and> bc_ended b' = bc_ended b \<and>
    delivers (pending stream) (sound ok stream parse) n (BufferedConn b) ((d, e), BufferedConn b')"
proof -
  consider (buffered) "bc_buf b \<noteq> ''''" | (nothing) "bc_buf b = ''''" "n = 0"
    | (direct) "bc_buf b = ''''" "n \<noteq> 0" "4096 \<le> n" | (fill) "bc_buf b = ''''" "n \<noteq> 0" "\<not> 4096 \<le> n"
    by blast
  then show ?thesis
  proof cases
    case direct
    obtain d e k where "cread n (bc_conn b) = Some ((d, e), k)" "delivers stream ok n (bc_conn b) ((d, e), k)"
      using assms read_law [of "bc_conn b" n] by auto
    with direct assms show ?thesis by (auto simp: bufio_Read_def delivers_def split: option.splits)
  next
    case fill
    obtain d e k where "cread 4096 (bc_conn b) = Some ((d, e), k)" "delivers stream ok 4096 (bc_conn b) ((d, e), k)"
      using assms read_law [of "bc_conn b" 4096] by auto
    with fill assms show ?thesis by (auto simp: bufio_Read_def delivers_def split: option.splits)
  qed (use assms in \<open>auto simp: bufio_Read_def delivers_def\<close>)
qed

lemma buffered_delivers:
  assumes "sound ok stream parse (BufferedConn b)"
  shows "\<exists>d e b'. buffered_Read cread n b = Some ((d, e), b') \<and>
    delivers (pending stream) (sound ok stream parse) n (BufferedConn b) ((d, e), BufferedConn b')"
proof (cases "bc_ended b = 0")
  case False
  with assms direct_delivers [of b n] show ?thesis
    by (auto simp: buffered_Read_def delivers_def)
next
  case True
  obtain d e b1 where r: "bufio_Read cread n b = Some ((d, e), b1)" "bc_ended b1 = 0" and
    law: "delivers (pending stream) (sound ok stream parse) n (BufferedConn b) ((d, e), BufferedConn b1)"
    using bufio_delivers [OF assms, of n] True by auto
  show ?thesis
  proof (cases "e = Some eof_text")
    case False
    with True r law show ?thesis by (simp add: buffered_Read_def)
  next
    case eof: True
    let ?b2 = "b1\<lparr>bc_ended := 1\<rparr>"
    from law eof have at_end: "d = ''''" "bc_buf b = ''''" "stream (bc_conn b) = ''''" "bc_buf b1 = ''''"
      "stream (bc_conn b1) = ''''" "ok (bc_conn b1)" "bc_err b1 = None"
      by (auto simp: delivers_def)
    then obtain d' e' b' where "direct_Read cread n ?b2 = Some ((d', e'), b')"
      "delivers (pending stream) (sound ok stream parse) n (BufferedConn ?b2) ((d', e'), BufferedConn b')"
      using direct_delivers [of ?b2 n] by auto
    with at_end True r eof show ?thesis
      by (auto simp: buffered_Read_def delivers_def split: option.splits)
  qed
qed

lemma tunnel_Read_delivers:
  assumes "sound ok stream parse t"
  shows "\<exists>r. tunnel_Read cread parse n t = Some r \<and> delivers (pending stream) (sound ok stream parse) n t r"
proof (cases t)
  case (PlainConn c)
  with assms obtain d e k where "cread n c = Some ((d, e), k)" "delivers stream ok n c ((d, e), k)"
    using read_law [of c n] by auto
  with PlainConn show ?thesis by (cases e) (auto simp: delivers_def)
next
  case (BufferedConn b)
  with assms obtain d e b' where "buffered_Read cread n b = Some ((d, e), b')"
    "delivers (pending stream) (sound ok stream parse) n (BufferedConn b) ((d, e), BufferedConn b')"
    using buffered_delivers [of b n] by auto
  with BufferedConn show ?thesis by (cases e) (auto simp: delivers_def)
next
  case (Speculative s)
  with assms obtain d e s' where "spec_Read cread parse n s = Some ((d, e), s')"
    "delivers (tunnel_stream stream) (tunnel_ok ok stream parse) n s ((d, e), s')"
    using spec_Read_delivers [of s n] by auto
  with Speculative show ?thesis by (auto simp: delivers_def split: option.splits)
qed

end

sublocale dialled \<subseteq> whole: byte_stream "tunnel_Read cread parse" "pending stream" "sound ok stream parse"
  by unfold_locales (rule tunnel_Read_delivers)

interpretation dialled_tcp: dialled peer_Read peer_stream peer_ok parse for parse
  by unfold_locales

section \<open>What the dialling code guarantees\<close>

lemma dial_failure_closes:
  "dialThroughHTTPProxy refusal enabled blocked env px host port = Inl (e, Some c) \<Longrightarrow> \<exists>k. c = de_close env k"
  by (auto simp: dialThroughHTTPProxy_def dialHTTPProxyBlocking_def dial_proxy_host_def Let_def
      split: option.splits sum.splits list.splits prod.splits if_splits)

lemma marked_not_speculative:
  "dialThroughProxy refusal enabled (MarkProxyNoSpeculative (px_URL px) blocked) env px host port \<noteq> Inr (Speculative s)"
  by (auto simp: dialThroughProxy_def dialThroughHTTPProxy_def dialHTTPProxyBlocking_def MarkProxyNoSpeculative_def
      IsProxyNoSpeculative_def Let_def split: option.splits sum.splits list.splits prod.splits if_splits)

lemma fresh_not_speculative: "dialHTTPProxyBlockingFresh refusal env px host port \<noteq> Inr (Speculative s)"
  by (auto simp: dialHTTPProxyBlockingFresh_def dialHTTPProxyBlocking_def split: option.splits sum.splits prod.splits if_splits)

text \<open>The credentials in the proxy's URL go before those of the configuration, and the proxy decodes them.\<close>

lemma proxy_auth_decodes:
  assumes "u_User u = Some (n, Some pw)" "n \<noteq> ''''"
  shows "std_DecodeString (getProxyAuth px u) = Some (bytes_of (n @ '':'' @ pw))"
  using assms by (simp add: getProxyAuth_def std_DecodeString_def encode_no_breaks std_quanta_encode)

lemma blocking_tunnel:
  assumes "pe_writes p = []" "de_write env = peer_Write" "peer_ok p" "peer_stream p = s"
    and "\<And>k. peer_stream k = s \<Longrightarrow> peer_ok k \<Longrightarrow>
       \<exists>buf k'. de_response env k = ((Inr (200, status), buf), k') \<and> peer_ok k' \<and> buf @ peer_stream k' = body"
  shows "\<exists>t. dialHTTPProxyBlocking refusal env p req = Inr t \<and> sound peer_ok peer_stream parse t \<and> pending peer_stream t = body"
proof -
  let ?k = "p\<lparr>pe_sent := pe_sent p @ req\<rparr>"
  have w: "peer_Write req p = ((length req, None), ?k)" using assms(1) by (simp add: peer_Write_def)
  have "peer_stream ?k = s" "peer_ok ?k" using assms(3,4) by (auto simp: peer_stream_def peer_ok_def)
  then obtain buf k' where "de_response env ?k = ((Inr (200, status), buf), k')" "peer_ok k'" "buf @ peer_stream k' = body"
    using assms(5) by blast
  with w assms(2) show ?thesis by (cases "buf = ''''") (auto simp: dialHTTPProxyBlocking_def)
qed

text \<open>C15.
  Speculation is transparent. A proxy accepts the connection and answers the CONNECT request with a
  200 header followed by the target's bytes. Then, with speculation switched on or off and for any
  segmentation of the stream, dialling succeeds and the reads of the resulting connection return and
  give exactly the target's bytes. Of the http library it is used that reading the response consumes
  the header and leaves the rest in the reader's buffer or on the connection.
\<close>
theorem speculation_transparent:
  assumes "Parse (px_URL px) = Some u" "de_lookup env (Hostname u) = Inr (ip # ips)"
    and "de_dial env (JoinHostPort ip (proxy_port u)) = Inr p" "de_write env = peer_Write" "pe_writes p = []"
    and "[] \<notin> set (pe_chunks p)" "concat (pe_chunks p) = h @ body"
    and "index_of h header_end = Some (length h - 4)" "length h \<le> 16385" "parse h = Inr (200, status)"
    and "\<And>k. concat (pe_chunks k) = h @ body \<Longrightarrow> [] \<notin> set (pe_chunks k) \<Longrightarrow>
       \<exists>buf k'. de_response env k = ((Inr (200, status), buf), k') \<and> [] \<notin> set (pe_chunks k') \<and>
          buf @ concat (pe_chunks k') = body"
    and "\<forall>n\<in>set ns. 0 < n" "length body \<le> length ns"
  shows "\<exists>t t'. dialThroughHTTPProxy refusal enabled blocked env px host port = Inr t \<and>
    reads (tunnel_Read peer_Read parse) ns t = Some (body, t')"
proof -
  let ?req = "connect_request (JoinHostPort host port) (getProxyAuth px u)"
  have p: "peer_ok p" "peer_stream p = h @ body" using assms(6,7) by (auto simp: peer_ok_def peer_stream_def)
  have blocking: "\<exists>t. dialHTTPProxyBlocking refusal env p ?req = Inr t \<and>
      sound peer_ok peer_stream parse t \<and> pending peer_stream t = body"
    by (rule blocking_tunnel [OF assms(5,4) p])
      (use assms(11) in \<open>simp add: peer_ok_def peer_stream_def\<close>)
  note new = new_tunnel [where parse = parse, OF p assms(8-10), of ?req]
  obtain t where t: "dialThroughHTTPProxy refusal enabled blocked env px host port = Inr t"
    "sound peer_ok peer_stream parse t" "pending peer_stream t = body"
  proof (cases "enabled \<and> \<not> IsProxyNoSpeculative (px_URL px) blocked")
    case True
    with new show ?thesis
      by (intro that [of "Speculative (NewSpeculativeConn p ?req)"])
        (use assms(1-3) in \<open>simp_all add: dialThroughHTTPProxy_def dial_proxy_host_def\<close>)
  next
    case False
    with blocking that show ?thesis using assms(1-3) by (auto simp: dialThroughHTTPProxy_def dial_proxy_host_def)
  qed
  from dialled_tcp.whole.reads_all [OF t(2) assms(12)] assms(13) t(1,3) show ?thesis by auto
qed

text \<open>A reader that takes a response header off the front of the stream, as the http library does.\<close>

definition example_response :: "string peer \<Rightarrow> ((string + int \<times> string) \<times> string) \<times> string peer" where
  "example_response k =
     ((Inr (200, ''200 OK''), after_header (concat (pe_chunks k))), k\<lparr>pe_chunks := []\<rparr>)"

definition example_env :: "string peer dial_env" where
  "example_env =
     \<lparr>de_lookup = (\<lambda>h. Inr [''10.0.0.1'']), de_dial = (\<lambda>a. if a = ''10.0.0.1:8080'' then Inr example_peer else Inl ''refused''),
      de_socks5 = (\<lambda>h p. Inl ''no socks''), de_write = peer_Write, de_response = example_response, de_close = id\<rparr>"

lemma example_url:
  "Parse ''http://px'' = Some (empty_url\<lparr>u_Scheme := ''http'', u_Host := ''px''\<rparr>)"
  by code_simp

lemma example_port: "proxy_port (empty_url\<lparr>u_Scheme := ''http'', u_Host := ''px''\<rparr>) = ''8080''"
  by code_simp

lemma speculation_transparent_witness:
  "\<exists>t t'. dialThroughHTTPProxy h1_refusal True {} example_env (url_proxy ''http://px'') ''h'' ''443'' = Inr t \<and>
    reads (tunnel_Read peer_Read status_of) [2, 1, 5] t = Some (''abc'', t')"
  by (rule speculation_transparent [where h = "''HTTP/1.1 200 OK'' @ header_end" and status = "''200 OK''"
        and u = "empty_url\<lparr>u_Scheme := ''http'', u_Host := ''px''\<rparr>"
        and ip = "''10.0.0.1''" and ips = "[]" and p = example_peer])
    (simp_all add: example_url example_port example_env_def example_response_def example_peer_def status_of_def
      after_header_def header_end_def has_prefix_def JoinHostPort_def contains_def)

end
