(* ===== verification/Http1Wire.thy ===== *)
theory Http1Wire
  imports Tunnel
begin

text \<open>
  What an HTTP/1 connection carries: \<open>writeRequest\<close>, \<open>writeHeadersInOrder\<close> and \<open>writeChunkedBody\<close> of
  \<open>transport/http1_transport.go\<close>. A request body is the sequence of results of its successive reads
  into the 32 KB buffer. The writer is a \<open>bufio.Writer\<close>: what is buffered, what has gone out, and how
  its next flushes end; a write that overflows the buffer is not told apart from the next flush.
  The header order, kept by the http library under a key of its own in the header map, stands
  beside the map, as in the theory \<open>Headers\<close>.
\<close>

section \<open>The writer\<close>

record bufw =
  bw_buf :: string
  bw_sent :: string
  bw_err :: "string option"
  bw_flushes :: "(nat \<times> string) option list"

definition WriteString :: "string \<Rightarrow> bufw \<Rightarrow> bufw" where
  "WriteString s w = (if bw_err w = None then w\<lparr>bw_buf := bw_buf w @ s\<rparr> else w)"

definition Flush :: "bufw \<Rightarrow> string option \<times> bufw" where
  "Flush w =
     (case bw_err w of
        Some e \<Rightarrow> (Some e, w)
      | None \<Rightarrow>
          (case bw_flushes w of
             Some (k, e) # fs \<Rightarrow>
               (Some e, w\<lparr>bw_sent := bw_sent w @ take k (bw_buf w), bw_err := Some e, bw_flushes := fs\<rparr>)
           | fs \<Rightarrow> (None, w\<lparr>bw_sent := bw_sent w @ bw_buf w, bw_buf := '''', bw_flushes := tl fs\<rparr>)))"

section \<open>Requests\<close>

text \<open>The outcome of one \<open>Read\<close>; a body whose list is used up answers \<open>io.EOF\<close>.\<close>

datatype read_end = ReadMore | ReadEOF | ReadFailed string

type_synonym body_reads = "(string \<times> read_end) list"

datatype wire_body = NilBody | NoBodyBody | ReaderBody body_reads

record wire_request =
  wr_Method :: string
  wr_URL :: URL
  wr_Host :: string
  wr_Header :: header
  wr_Order :: "string list"
  wr_ContentLength :: int
  wr_Body :: wire_body

definition RequestURI :: "URL \<Rightarrow> string" where
  "RequestURI u =
     (if u_Opaque u = '''' then (if EscapedPath u = '''' then ''/'' else EscapedPath u)
      else if has_prefix (u_Opaque u) ''//'' then u_Scheme u @ '':'' @ u_Opaque u else u_Opaque u) @
     (if u_ForceQuery u \<or> u_RawQuery u \<noteq> '''' then ''?'' @ u_RawQuery u else '''')"

section \<open>Header keys\<close>

definition token_char :: "char \<Rightarrow> bool" where
  "token_char c \<longleftrightarrow> is_alpha c \<or> is_digit c \<or> c \<in> set ''!#$%&*+-.^_|~'' \<or> c = CHR 0x27 \<or> c = CHR 0x60"

fun canonical_loop :: "bool \<Rightarrow> string \<Rightarrow> string" where
  "canonical_loop upper [] = []"
| "canonical_loop upper (c # s) = (if upper then upper_char c else lower_char c) # canonical_loop (c = CHR ''-'') s"

definition canonicalHeaderKey :: "string \<Rightarrow> string" where
  "canonicalHeaderKey s = (if list_all token_char s then canonical_loop True s else s)"

definition equal_fold :: "string \<Rightarrow> string \<Rightarrow> bool" where
  "equal_fold a b \<longleftrightarrow> to_lower a = to_lower b"

section \<open>Header lines\<close>

definition default_order :: "string list" where
  "default_order =
     [''Connection'', ''Cache-Control'', ''Upgrade-Insecure-Requests'', ''User-Agent'', ''Accept'', ''Accept-Encoding'',
      ''Accept-Language'', ''Cookie'', ''Referer'', ''Origin'', ''Sec-Fetch-Dest'', ''Sec-Fetch-Mode'', ''Sec-Fetch-Site'',
      ''Sec-Fetch-User'', ''Content-Type'', ''Content-Length'', ''Transfer-Encoding'']"

type_synonym lines = "(string \<times> string) list"

definition key_lines :: "string \<Rightarrow> string list \<Rightarrow> lines" where
  "key_lines k vs = map (Pair k) vs"

text \<open>The value of a \<open>Content-Length\<close> line the caller's header does not have, if there is one.\<close>

definition declared_length :: "wire_request \<Rightarrow> string option" where
  "declared_length req =
     (if wr_ContentLength req > 0 then Some (int_string (wr_ContentLength req))
      else if wr_ContentLength req = 0 \<and> wr_Body req \<noteq> NilBody then Some ''0'' else None)"

text \<open>One round of the loop over the header order: the lines and the keys to mark as written.\<close>

definition order_step :: "wire_request \<Rightarrow> bool \<Rightarrow> string \<Rightarrow> lines \<times> string set" where
  "order_step req chunked key =
     (let ck = canonicalHeaderKey key in
      if equal_fold key ''Content-Length'' then
        (if chunked then ([], {})
         else case map_of (wr_Header req) ck of
             Some vs \<Rightarrow> (key_lines ck vs, {ck})
           | None \<Rightarrow>
               (case declared_length req of
                  Some v \<Rightarrow> ([(''Content-Length'', v)], {ck})
                | None \<Rightarrow> ([], {})))
      else if equal_fold key ''Transfer-Encoding'' then
        (if chunked then ([(''Transfer-Encoding'', ''chunked'')], {ck}) else ([], {}))
      else if equal_fold key ''Host'' then ([], {})
      else case map_of (wr_Header req) ck of
          Some vs \<Rightarrow> (key_lines ck vs, {ck})
        | None \<Rightarrow> ([], {}))"

fun order_loop :: "wire_request \<Rightarrow> bool \<Rightarrow> string list \<Rightarrow> string set \<Rightarrow> lines \<times> string set" where
  "order_loop req chunked [] written = ([], written)"
| "order_loop req chunked (k # ks) written =
     (let (ls, new) = order_step req chunked k;
          (rest, w) = order_loop req chunked ks (written \<union> new) in (ls @ rest, w))"

text \<open>The loop over the header map. No key occurs twice in the map.\<close>

definition rest_written :: "bool \<Rightarrow> string set \<Rightarrow> string \<Rightarrow> bool" where
  "rest_written chunked written key \<longleftrightarrow>
     key \<notin> written \<and> \<not> equal_fold key ''Host'' \<and>
     \<not> (chunked \<and> (equal_fold key ''Transfer-Encoding'' \<or> equal_fold key ''Content-Length''))"

fun rest_loop :: "bool \<Rightarrow> header \<Rightarrow> string set \<Rightarrow> lines \<times> string set" where
  "rest_loop chunked [] written = ([], written)"
| "rest_loop chunked ((k, vs) # h) written =
     (if rest_written chunked written k then
        (let (rest, w) = rest_loop chunked h (insert k written) in (key_lines k vs @ rest, w))
      else rest_loop chunked h written)"

definition writeHeadersInOrder :: "wire_request \<Rightarrow> bool \<Rightarrow> lines" where
  "writeHeadersInOrder req chunked =
     (let h = wr_Header req;
          (ordered, w1) = order_loop req chunked (if wr_Order req \<noteq> [] then wr_Order req else default_order) {};
          (rest, w2) = rest_loop chunked h w1;
          len = (if ''Content-Length'' \<notin> w2 \<and> \<not> chunked then
                   (case map_of h ''Content-Length'' of
                      Some vs \<Rightarrow> key_lines ''Content-Length'' vs
                    | None \<Rightarrow> (case declared_length req of Some v \<Rightarrow> [(''Content-Length'', v)] | None \<Rightarrow> []))
                 else []);
          te = (if ''Transfer-Encoding'' \<notin> w2 \<and> chunked then [(''Transfer-Encoding'', ''chunked'')] else []);
          conn = (if map_of h ''Connection'' = None then [(''Connection'', ''keep-alive'')] else [])
      in ordered @ rest @ len @ te @ conn)"

section \<open>Bodies\<close>

fun hex_digit :: "nat \<Rightarrow> char" where
  "hex_digit d = (if d < 10 then char_of (48 + d) else char_of (87 + d))"

fun hex_string :: "nat \<Rightarrow> string" where
  "hex_string n = (if n < 16 then [hex_digit n] else hex_string (n div 16) @ [hex_digit (n mod 16)])"

declare hex_string.simps [simp del]

definition chunk :: "string \<Rightarrow> string" where
  "chunk d = hex_string (length d) @ eol @ d @ eol"

text \<open>The loop of \<open>writeChunkedBody\<close>: the error, the writer and the reads left.\<close>

fun chunk_loop :: "body_reads \<Rightarrow> bufw \<Rightarrow> string option \<times> bufw \<times> body_reads" where
  "chunk_loop [] w = (None, w, [])"
| "chunk_loop ((d, e) # rs) w =
     (let (err, w1) = (if d \<noteq> '''' then Flush (WriteString (chunk d) w) else (None, w)) in
      case err of
        Some x \<Rightarrow> (Some x, w1, rs)
      | None \<Rightarrow>
          (case e of
             ReadEOF \<Rightarrow> (None, w1, [])
           | ReadFailed x \<Rightarrow> (Some x, w1, rs)
           | ReadMore \<Rightarrow> chunk_loop rs w1))"

definition writeChunkedBody :: "body_reads \<Rightarrow> bufw \<Rightarrow> string option \<times> bufw \<times> body_reads" where
  "writeChunkedBody rs w =
     (case chunk_loop rs w of
        (Some x, w1, rs1) \<Rightarrow> (Some x, w1, rs1)
      | (None, w1, rs1) \<Rightarrow> (bw_err w1, WriteString (''0'' @ eol @ eol) w1, rs1))"

text \<open>\<open>io.Copy(conn.bw, req.Body)\<close>.\<close>

fun copy_loop :: "body_reads \<Rightarrow> bufw \<Rightarrow> string option \<times> bufw \<times> body_reads" where
  "copy_loop [] w = (None, w, [])"
| "copy_loop ((d, e) # rs) w =
     (let w1 = WriteString d w in
      case e of
        ReadEOF \<Rightarrow> (None, w1, [])
      | ReadFailed x \<Rightarrow> (Some x, w1, rs)
      | ReadMore \<Rightarrow> copy_loop rs w1)"

section \<open>\<open>writeRequest\<close>\<close>

definition uses_chunked :: "wire_request \<Rightarrow> bool" where
  "uses_chunked req \<longleftrightarrow>
     wr_Body req \<noteq> NilBody \<and> wr_Body req \<noteq> NoBodyBody \<and> wr_ContentLength req \<le> 0 \<and>
     first_value (wr_Header req) ''Content-Length'' = ''''"

definition render_line :: "string \<times> string \<Rightarrow> string" where
  "render_line l = fst l @ '': '' @ snd l @ eol"

definition request_head :: "wire_request \<Rightarrow> string" where
  "request_head req =
     (let uri = RequestURI (wr_URL req);
          host = (if wr_Host req = '''' then u_Host (wr_URL req) else wr_Host req) in
      wr_Method req @ '' '' @ (if uri = '''' then ''/'' else uri) @ '' HTTP/1.1'' @ eol @
      concat (map render_line ((''Host'', host) # writeHeadersInOrder req (uses_chunked req))) @ eol)"

text \<open>The error, the writer and the reads that are left of the body.\<close>

definition writeRequest :: "wire_request \<Rightarrow> bufw \<Rightarrow> string option \<times> bufw \<times> body_reads" where
  "writeRequest req w =
     (let reads = (case wr_Body req of ReaderBody rs \<Rightarrow> rs | _ \<Rightarrow> []) in
      case Flush (WriteString (request_head req) w) of
        (Some e, w1) \<Rightarrow> (Some e, w1, reads)
      | (None, w1) \<Rightarrow>
          if wr_Body req = NilBody then (None, w1, [])
          else
            (case (if uses_chunked req then writeChunkedBody reads w1 else copy_loop reads w1) of
               (Some e, w2, rs) \<Rightarrow> (Some e, w2, rs)
             | (None, w2, rs) \<Rightarrow> (case Flush w2 of (e, w3) \<Rightarrow> (e, w3, rs))))"

section \<open>Which lines are written\<close>

lemma lower_char_code:
  "of_char (lower_char c) = (if 65 \<le> (of_char c :: nat) \<and> of_char c \<le> (90 :: nat) then of_char c + 32 else (of_char c :: nat))"
  by (auto simp: lower_char_def)

lemma upper_char_code:
  "of_char (upper_char c) = (if 97 \<le> (of_char c :: nat) \<and> of_char c \<le> (122 :: nat) then of_char c - 32 else (of_char c :: nat))"
  by (auto simp: upper_char_def)

lemma char_eq_code: "c = d \<longleftrightarrow> of_char c = (of_char d :: nat)"
  by simp

lemma lower_dash: "lower_char c = CHR ''-'' \<longleftrightarrow> c = CHR ''-''"
  unfolding char_eq_code lower_char_code by auto

lemma upper_lower: "upper_char (lower_char c) = upper_char c"
  unfolding char_eq_code upper_char_code lower_char_code by auto

lemma lower_upper: "lower_char (upper_char c) = lower_char c"
  unfolding char_eq_code upper_char_code lower_char_code by auto

lemma token_lower: "token_char (lower_char c) = token_char c"
proof (cases "65 \<le> (of_char c :: nat) \<and> of_char c \<le> (90 :: nat)")
  case True
  then have "is_alpha c" "is_alpha (lower_char c)" by (auto simp: is_alpha_def lower_char_code Let_def)
  then show ?thesis by (simp add: token_char_def)
next
  case False
  then have "lower_char c = c" by (auto simp: lower_char_def)
  then show ?thesis by simp
qed

lemma canonical_loop_lower: "canonical_loop u (to_lower s) = canonical_loop u s"
  by (induction s arbitrary: u) (auto simp: to_lower_def lower_dash upper_lower)

lemma lower_canonical_loop: "to_lower (canonical_loop u s) = to_lower s"
  by (induction s arbitrary: u) (auto simp: to_lower_def lower_upper)

lemma lower_canonical: "to_lower (canonicalHeaderKey s) = to_lower s"
  by (simp add: canonicalHeaderKey_def lower_canonical_loop)

lemma tokens_lower: "list_all token_char (to_lower s) = list_all token_char s"
  by (induction s) (auto simp: to_lower_def token_lower)

lemma equal_fold_canonical:
  assumes "list_all token_char n" "canonicalHeaderKey n = n"
  shows "equal_fold k n \<longleftrightarrow> canonicalHeaderKey k = n"
proof
  assume e: "equal_fold k n"
  then have "list_all token_char k" using assms(1) tokens_lower unfolding equal_fold_def by metis
  moreover have "canonical_loop True k = canonical_loop True n"
    using e canonical_loop_lower unfolding equal_fold_def by metis
  ultimately show "canonicalHeaderKey k = n" using assms by (simp add: canonicalHeaderKey_def)
next
  assume "canonicalHeaderKey k = n"
  then show "equal_fold k n" using lower_canonical unfolding equal_fold_def by metis
qed

lemma fold_special:
  "equal_fold k ''Host'' \<longleftrightarrow> canonicalHeaderKey k = ''Host''"
  "equal_fold k ''Content-Length'' \<longleftrightarrow> canonicalHeaderKey k = ''Content-Length''"
  "equal_fold k ''Transfer-Encoding'' \<longleftrightarrow> canonicalHeaderKey k = ''Transfer-Encoding''"
  by (rule equal_fold_canonical; code_simp)+

text \<open>The values of the lines named \<open>k\<close>, and those a request is to have.\<close>

definition line_values :: "lines \<Rightarrow> string \<Rightarrow> string list" where
  "line_values ls k = map snd (filter (\<lambda>l. fst l = k) ls)"

definition length_values :: "wire_request \<Rightarrow> string list" where
  "length_values req =
     (case map_of (wr_Header req) ''Content-Length'' of
        Some vs \<Rightarrow> vs
      | None \<Rightarrow> (case declared_length req of Some v \<Rightarrow> [v] | None \<Rightarrow> []))"

definition request_values :: "wire_request \<Rightarrow> bool \<Rightarrow> string \<Rightarrow> string list" where
  "request_values req chunked k =
     (if k = ''Host'' then []
      else if k = ''Content-Length'' then (if chunked then [] else length_values req)
      else if k = ''Transfer-Encoding'' then (if chunked then [''chunked''] else hvalues (wr_Header req) k)
      else if k = ''Connection'' \<and> map_of (wr_Header req) k = None then [''keep-alive'']
      else hvalues (wr_Header req) k)"

lemma line_values_simps [simp]:
  "line_values [] k = []" "line_values (a @ b) k = line_values a k @ line_values b k"
  "line_values [(n, v)] k = (if n = k then [v] else [])"
  "line_values (key_lines n vs) k = (if n = k then vs else [])"
  by (auto simp: line_values_def key_lines_def filter_map comp_def)

text \<open>What the loop over the order writes for a key, and whether it marks the key.\<close>

definition ordered_values :: "wire_request \<Rightarrow> bool \<Rightarrow> string \<Rightarrow> string list" where
  "ordered_values req chunked k =
     (if k = ''Host'' then []
      else if k = ''Content-Length'' then (if chunked then [] else length_values req)
      else if k = ''Transfer-Encoding'' then (if chunked then [''chunked''] else [])
      else hvalues (wr_Header req) k)"

definition ordered_marks :: "wire_request \<Rightarrow> bool \<Rightarrow> string \<Rightarrow> bool" where
  "ordered_marks req chunked k \<longleftrightarrow>
     (if k = ''Host'' then False
      else if k = ''Content-Length'' then \<not> chunked \<and> (map_of (wr_Header req) k \<noteq> None \<or> declared_length req \<noteq> None)
      else if k = ''Transfer-Encoding'' then chunked
      else map_of (wr_Header req) k \<noteq> None)"

lemma order_step_values:
  "line_values (fst (order_step req chunked key)) k =
     (if k = canonicalHeaderKey key then ordered_values req chunked k else [])"
  by (auto simp: order_step_def ordered_values_def length_values_def fold_special hvalues_def Let_def split: option.splits)

lemma order_step_marks:
  "snd (order_step req chunked key) =
     (if ordered_marks req chunked (canonicalHeaderKey key) then {canonicalHeaderKey key} else {})"
  by (auto simp: order_step_def ordered_marks_def fold_special Let_def split: option.splits)

lemma order_loop_Cons:
  "fst (order_loop req chunked (key # ks) w) =
     fst (order_step req chunked key) @ fst (order_loop req chunked ks (w \<union> snd (order_step req chunked key)))"
  "snd (order_loop req chunked (key # ks) w) = snd (order_loop req chunked ks (w \<union> snd (order_step req chunked key)))"
  by (simp_all add: Let_def case_prod_beta)

lemma order_loop_values:
  "distinct (map canonicalHeaderKey ks) \<Longrightarrow>
   line_values (fst (order_loop req chunked ks w)) k =
     (if k \<in> canonicalHeaderKey ` set ks then ordered_values req chunked k else [])"
  by (induction ks arbitrary: w) (auto simp: order_step_values order_loop_Cons simp del: order_loop.simps(2))

lemma order_loop_marks:
  "snd (order_loop req chunked ks w) =
     w \<union> {k \<in> canonicalHeaderKey ` set ks. ordered_marks req chunked k}"
  by (induction ks arbitrary: w) (auto simp: order_step_marks order_loop_Cons simp del: order_loop.simps(2))

lemma rest_loop_Cons:
  "fst (rest_loop chunked ((k, vs) # h) w) =
     (if rest_written chunked w k then key_lines k vs @ fst (rest_loop chunked h (insert k w)) else fst (rest_loop chunked h w))"
  "snd (rest_loop chunked ((k, vs) # h) w) =
     (if rest_written chunked w k then snd (rest_loop chunked h (insert k w)) else snd (rest_loop chunked h w))"
  by (simp_all add: Let_def case_prod_beta)

lemma rest_written_insert: "k \<noteq> x \<Longrightarrow> rest_written chunked (insert x w) k = rest_written chunked w k"
  by (simp add: rest_written_def)

lemma rest_loop_values:
  "map_wf h \<Longrightarrow>
   line_values (fst (rest_loop chunked h w)) k = (if rest_written chunked w k then hvalues h k else [])"
proof (induction h arbitrary: w)
  case (Cons kv h)
  obtain x vs where kv: "kv = (x, vs)" by (cases kv)
  with Cons show ?case
    by (auto simp: rest_loop_Cons hvalues_def rest_written_insert simp del: rest_loop.simps(2))
qed (simp add: hvalues_def)

lemma rest_loop_marks:
  "map_wf h \<Longrightarrow>
   snd (rest_loop chunked h w) = w \<union> {k. rest_written chunked w k \<and> map_of h k \<noteq> None}"
proof (induction h arbitrary: w)
  case (Cons kv h)
  obtain x vs where kv: "kv = (x, vs)" by (cases kv)
  with Cons show ?case
    by (auto simp: rest_loop_Cons simp del: rest_loop.simps(2)) (auto simp: rest_written_def)
qed simp

lemma default_order_distinct: "distinct (map canonicalHeaderKey default_order)"
  by code_simp

lemma header_lines_values:
  assumes "distinct (map canonicalHeaderKey (wr_Order req))" "map_wf (wr_Header req)"
    and "\<forall>k. map_of (wr_Header req) k \<noteq> None \<longrightarrow> canonicalHeaderKey k = k"
  shows "line_values (writeHeadersInOrder req chunked) k = request_values req chunked k"
proof -
  let ?h = "wr_Header req" and ?o = "if wr_Order req \<noteq> [] then wr_Order req else default_order"
  define ol where "ol = order_loop req chunked ?o {}"
  define rl where "rl = rest_loop chunked ?h (snd ol)"
  define inorder where "inorder \<longleftrightarrow> k \<in> canonicalHeaderKey ` set ?o"
  have ordered: "line_values (fst ol) k = (if inorder then ordered_values req chunked k else [])"
    unfolding ol_def inorder_def by (rule order_loop_values) (use assms(1) default_order_distinct in simp)
  have rest: "line_values (fst rl) k = (if rest_written chunked (snd ol) k then hvalues ?h k else [])"
    unfolding rl_def using assms(2) by (rule rest_loop_values)
  have w: "k \<in> snd ol \<longleftrightarrow> inorder \<and> ordered_marks req chunked k"
    by (simp add: ol_def inorder_def order_loop_marks)
  have w2: "k \<in> snd rl \<longleftrightarrow> k \<in> snd ol \<or> rest_written chunked (snd ol) k \<and> map_of ?h k \<noteq> None"
    unfolding rl_def using rest_loop_marks [OF assms(2)] by auto
  let ?len = "if ''Content-Length'' \<notin> snd rl \<and> \<not> chunked
     then case map_of ?h ''Content-Length'' of Some vs \<Rightarrow> key_lines ''Content-Length'' vs
        | None \<Rightarrow> (case declared_length req of Some v \<Rightarrow> [(''Content-Length'', v)] | None \<Rightarrow> []) else []"
  let ?te = "if ''Transfer-Encoding'' \<notin> snd rl \<and> chunked then [(''Transfer-Encoding'', ''chunked'')] else []"
  let ?conn = "if map_of ?h ''Connection'' = None then [(''Connection'', ''keep-alive'')] else []"
  have "writeHeadersInOrder req chunked = fst ol @ fst rl @ ?len @ ?te @ ?conn"
    unfolding writeHeadersInOrder_def Let_def case_prod_beta ol_def rl_def by (rule refl)
  then have all: "line_values (writeHeadersInOrder req chunked) k =
      line_values (fst ol) k @ line_values (fst rl) k @ line_values ?len k @ line_values ?te k @ line_values ?conn k"
    by (simp only: line_values_simps)
  have len: "line_values ?len k =
      (if k \<notin> snd rl \<and> \<not> chunked \<and> k = ''Content-Length'' then length_values req else [])"
    by (simp add: length_values_def split: option.split)
  have te: "line_values ?te k =
      (if k \<notin> snd rl \<and> chunked \<and> k = ''Transfer-Encoding'' then [''chunked''] else [])"
    by auto
  have conn: "line_values ?conn k = (if k = ''Connection'' \<and> map_of ?h k = None then [''keep-alive''] else [])"
    by auto
  have special: "canonicalHeaderKey ''Host'' = ''Host''" "canonicalHeaderKey ''Content-Length'' = ''Content-Length''"
    "canonicalHeaderKey ''Transfer-Encoding'' = ''Transfer-Encoding''" by code_simp+
  consider "k = ''Host''" | "k = ''Content-Length''" | "k = ''Transfer-Encoding''"
    | "k \<noteq> ''Host''" "k \<noteq> ''Content-Length''" "k \<noteq> ''Transfer-Encoding''" "map_of ?h k = None"
    | "k \<noteq> ''Host''" "k \<noteq> ''Content-Length''" "k \<noteq> ''Transfer-Encoding''" "map_of ?h k \<noteq> None"
    by blast
  then show ?thesis
  proof cases
    case 1
    with special show ?thesis unfolding all ordered rest len te conn
      by (simp add: ordered_values_def request_values_def rest_written_def fold_special)
  next
    case 2
    have m: "''Content-Length'' \<in> snd ol \<longleftrightarrow> inorder \<and> ordered_marks req chunked ''Content-Length''" using w 2 by simp
    from 2 special show ?thesis unfolding all ordered rest len te conn w2
      by (auto simp: ordered_values_def request_values_def ordered_marks_def rest_written_def fold_special
          length_values_def hvalues_def m split: option.splits)
  next
    case 3
    have m: "''Transfer-Encoding'' \<in> snd ol \<longleftrightarrow> inorder \<and> ordered_marks req chunked ''Transfer-Encoding''" using w 3 by simp
    from 3 special show ?thesis unfolding all ordered rest len te conn w2
      by (auto simp: ordered_values_def request_values_def ordered_marks_def rest_written_def fold_special hvalues_def m
          split: option.splits)
  next
    case 4
    then have a: "(k = ''Host'') = False" "(k = ''Content-Length'') = False" "(k = ''Transfer-Encoding'') = False"
      and hv: "hvalues ?h k = []" by (simp_all add: hvalues_def)
    have "ordered_values req chunked k = []" unfolding ordered_values_def a hv by (simp only: if_False)
    then show ?thesis unfolding all ordered rest len te conn request_values_def a hv
      by (simp only: if_False if_cancel append_Nil append_Nil2 simp_thms)
  next
    case 5
    then have a: "(k = ''Host'') = False" "(k = ''Content-Length'') = False" "(k = ''Transfer-Encoding'') = False"
      and some: "(map_of ?h k = None) = False" and canon: "canonicalHeaderKey k = k" using assms(3) by simp_all
    have ov: "ordered_values req chunked k = hvalues ?h k" unfolding ordered_values_def a by (simp only: if_False)
    have "k \<in> snd ol \<longleftrightarrow> inorder" unfolding w ordered_marks_def a some by (simp only: if_False simp_thms)
    moreover have "rest_written chunked (snd ol) k \<longleftrightarrow> k \<notin> snd ol"
      unfolding rest_written_def fold_special canon a by (simp only: simp_thms)
    ultimately show ?thesis unfolding all ordered rest len te conn request_values_def a some ov
      by (cases inorder) (simp_all only: if_False if_True if_cancel append_Nil append_Nil2 simp_thms)
  qed
qed

text \<open>
  Whatever the header order, it decides only where a header line stands. When the order names no
  header twice, the lines of a request are, name by name, exactly the caller's values in the
  caller's order, except that the caller's Host is left out (a line of its own carries the host), a
  chunked body has one \<open>Transfer-Encoding: chunked\<close> and no \<open>Content-Length\<close> line, any other body has
  the declared length if the caller gave none, and the connection is kept alive unless the caller
  says otherwise. No header is lost or written twice.
\<close>
theorem header_lines_exact:
  assumes "distinct (map canonicalHeaderKey (wr_Order req))" "map_wf (wr_Header req)"
    and "\<forall>k. map_of (wr_Header req) k \<noteq> None \<longrightarrow> canonicalHeaderKey k = k"
  shows "line_values (writeHeadersInOrder req chunked) k = request_values req chunked k"
  using assms by (rule header_lines_values)

definition example_request :: wire_request where
  "example_request =
     \<lparr>wr_Method = ''POST'', wr_URL = empty_url\<lparr>u_Host := ''h'', u_Path := ''/p''\<rparr>, wr_Host = '''',
      wr_Header = [(''Accept'', [''a'', ''b'']), (''Host'', [''evil'']), (''X'', [''1''])],
      wr_Order = [''x'', ''content-length'', ''ACCEPT''], wr_ContentLength = -1,
      wr_Body = ReaderBody [(''ab'', ReadMore), (''c'', ReadEOF)]\<rparr>"

lemma header_lines_exact_witness:
  "line_values (writeHeadersInOrder example_request True) ''Accept'' = [''a'', ''b''] \<and>
   line_values (writeHeadersInOrder example_request True) ''Transfer-Encoding'' = [''chunked'']"
proof -
  have d: "distinct (map canonicalHeaderKey (wr_Order example_request))" "map_wf (wr_Header example_request)"
    by code_simp+
  have c: "\<forall>k. map_of (wr_Header example_request) k \<noteq> None \<longrightarrow> canonicalHeaderKey k = k"
  proof (intro allI impI)
    fix k assume "map_of (wr_Header example_request) k \<noteq> None"
    then have "k \<in> {''Accept'', ''Host'', ''X''}" by (auto simp: example_request_def split: if_splits)
    moreover have "canonicalHeaderKey ''Accept'' = ''Accept''" "canonicalHeaderKey ''Host'' = ''Host''" "canonicalHeaderKey ''X'' = ''X''"
      by code_simp+
    ultimately show "canonicalHeaderKey k = k" by auto
  qed
  note r = header_lines_exact [OF d c]
  show ?thesis unfolding r by (simp add: request_values_def example_request_def hvalues_def)
qed

section \<open>Chunked bodies\<close>

text \<open>The value of a chunk's size line, and a reader of chunked bodies: the body and what follows it.\<close>

definition hex_value :: "string \<Rightarrow> nat" where
  "hex_value s = foldl (\<lambda>n c. n * 16 + (case hex_val c of Some d \<Rightarrow> d | None \<Rightarrow> 0)) 0 s"

definition cut_line :: "string \<Rightarrow> (string \<times> string) option" where
  "cut_line s = (case index_of s eol of None \<Rightarrow> None | Some i \<Rightarrow> Some (take i s, drop (i + 2) s))"

fun dechunk :: "nat \<Rightarrow> string \<Rightarrow> (string \<times> string) option" where
  "dechunk 0 s = None"
| "dechunk (Suc fuel) s =
     (case cut_line s of
        None \<Rightarrow> None
      | Some (sz, s1) \<Rightarrow>
          if sz = '''' \<or> list_ex (\<lambda>c. hex_val c = None) sz then None
          else let n = hex_value sz in
            if n = 0 then (if has_prefix s1 eol then Some ('''', drop 2 s1) else None)
            else if \<not> has_prefix (drop n s1) eol then None
            else map_option (\<lambda>(d, rest). (take n s1 @ d, rest)) (dechunk fuel (drop (n + 2) s1)))"

lemma hex_digit_value: "d < 16 \<Longrightarrow> hex_val (hex_digit d) = Some d"
proof -
  assume "d < 16"
  then show ?thesis by (auto simp: hex_val_def Let_def)
qed

lemma hex_value_snoc: "hex_value (s @ [c]) = hex_value s * 16 + (case hex_val c of Some d \<Rightarrow> d | None \<Rightarrow> 0)"
  by (simp add: hex_value_def)

lemma hex_string_value: "hex_value (hex_string n) = n \<and> list_all (\<lambda>c. hex_val c \<noteq> None) (hex_string n) \<and> hex_string n \<noteq> ''''"
proof (induction n rule: hex_string.induct)
  case (1 n)
  show ?case
  proof (cases "n < 16")
    case True
    then show ?thesis
      using hex_value_snoc [of "''''" "hex_digit n"] hex_digit_value [of n]
      by (subst (1 2 3) hex_string.simps) (simp add: hex_value_def del: hex_digit.simps)
  next
    case False
    then show ?thesis
      using 1 hex_digit_value [of "n mod 16"]
      by (subst (1 2 3) hex_string.simps) (simp add: hex_value_snoc del: hex_digit.simps)
  qed
qed

text \<open>A line without a carriage return ends at the first one.\<close>

lemma cut_line_append: "CHR 0x0D \<notin> set a \<Longrightarrow> cut_line (a @ eol @ b) = Some (a, b)"
proof -
  assume a: "CHR 0x0D \<notin> set a"
  then have "index_of (a @ eol @ b) eol = Some (length a)"
    by (induction a) (auto simp: eol_def has_prefix_def)
  then show ?thesis by (simp add: cut_line_def eol_def)
qed

lemma hex_string_no_return: "CHR 0x0D \<notin> set (hex_string n)"
proof
  assume "CHR 0x0D \<in> set (hex_string n)"
  then have "hex_val (CHR 0x0D) \<noteq> None" using hex_string_value [of n] by (auto simp: list_all_iff)
  then show False by code_simp
qed

lemma dechunk_step:
  assumes "d \<noteq> []"
  shows "dechunk (Suc fuel) (chunk d @ x) = map_option (\<lambda>(b, r). (d @ b, r)) (dechunk fuel x)"
proof -
  have cut: "cut_line (chunk d @ x) = Some (hex_string (length d), d @ eol @ x)"
    using cut_line_append [OF hex_string_no_return, of "length d" "d @ eol @ x"] by (simp add: chunk_def)
  have ok: "hex_string (length d) \<noteq> []" "\<not> list_ex (\<lambda>c. hex_val c = None) (hex_string (length d))"
    "hex_value (hex_string (length d)) = length d"
    using hex_string_value [of "length d"] by (auto simp: list_all_iff list_ex_iff)
  have pre: "drop (length d) (d @ eol @ x) = eol @ x" "has_prefix (eol @ x) eol" "take (length d) (d @ eol @ x) = d"
    "drop (length d + 2) (d @ eol @ x) = x"
    by (simp_all add: has_prefix_def eol_def)
  show ?thesis using assms
    by (simp only: dechunk.simps(2) cut ok pre Let_def option.case prod.case if_False if_True simp_thms length_0_conv)
qed

lemma dechunk_chunks:
  "[] \<notin> set ds \<Longrightarrow>
   dechunk (Suc (length ds)) (concat (map chunk ds) @ ''0'' @ eol @ eol @ rest) = Some (concat ds, rest)"
proof (induction ds)
  case Nil
  have "cut_line (''0'' @ eol @ eol @ rest) = Some (''0'', eol @ rest)" by (rule cut_line_append) simp
  moreover have "hex_value ''0'' = 0" "hex_val (CHR ''0'') = Some 0" by code_simp+
  ultimately show ?case by (simp add: has_prefix_def eol_def)
next
  case (Cons d ds)
  then have "d \<noteq> []" by auto
  from dechunk_step [OF this, of "Suc (length ds)" "concat (map chunk ds) @ ''0'' @ eol @ eol @ rest"] Cons
  show ?case by (simp del: dechunk.simps)
qed

text \<open>What a body yields: its bytes and the error of a read that fails.\<close>

fun body_result :: "body_reads \<Rightarrow> string \<times> string option" where
  "body_result [] = ('''', None)"
| "body_result ((d, e) # rs) =
     (case e of
        ReadEOF \<Rightarrow> (d, None)
      | ReadFailed x \<Rightarrow> (d, Some x)
      | ReadMore \<Rightarrow> (d @ fst (body_result rs), snd (body_result rs)))"

text \<open>A writer on a connection that takes everything, and all that has been written to it.\<close>

definition working :: "bufw \<Rightarrow> bool" where
  "working w \<longleftrightarrow> bw_err w = None \<and> bw_flushes w = []"

definition written :: "bufw \<Rightarrow> string" where
  "written w = bw_sent w @ bw_buf w"

lemma WriteString_working: "working w \<Longrightarrow> working (WriteString s w) \<and> written (WriteString s w) = written w @ s"
  by (simp add: working_def written_def WriteString_def)

lemma Flush_working:
  "working w \<Longrightarrow> fst (Flush w) = None \<and> working (snd (Flush w)) \<and> written (snd (Flush w)) = written w \<and> bw_buf (snd (Flush w)) = ''''"
  by (simp add: working_def written_def Flush_def)

lemma chunk_loop_working:
  "working w \<Longrightarrow> snd (body_result rs) = None \<Longrightarrow>
   \<exists>w' ds. chunk_loop rs w = (None, w', []) \<and> working w' \<and> '''' \<notin> set ds \<and> concat ds = fst (body_result rs) \<and>
     written w' = written w @ concat (map chunk ds)"
proof (induction rs arbitrary: w)
  case (Cons r rs)
  obtain d e where r: "r = (d, e)" by (cases r)
  let ?f = "if d \<noteq> '''' then Flush (WriteString (chunk d) w) else (None, w)"
  let ?ds = "if d \<noteq> '''' then [d] else []"
  have f: "fst ?f = None" "working (snd ?f)" "written (snd ?f) = written w @ concat (map chunk ?ds)"
    using Cons.prems(1) WriteString_working Flush_working by auto
  then obtain w1 where F: "?f = (None, w1)" by (metis prod.collapse)
  then have step: "chunk_loop (r # rs) w =
      (case e of ReadMore \<Rightarrow> chunk_loop rs w1 | ReadEOF \<Rightarrow> (None, w1, []) | ReadFailed x \<Rightarrow> (Some x, w1, rs))"
    unfolding r chunk_loop.simps(2) F by (cases e) (simp_all del: chunk_loop.simps)
  have f1: "working w1" "written w1 = written w @ concat (map chunk ?ds)" using f F by simp_all
  show ?case
  proof (cases e)
    case ReadMore
    with Cons.IH [of w1] f1(1) Cons.prems r obtain w' ds where
      "chunk_loop rs w1 = (None, w', [])" "working w'" "'''' \<notin> set ds" "concat ds = fst (body_result rs)"
      "written w' = written w1 @ concat (map chunk ds)" by auto
    with ReadMore step f1 r show ?thesis by (intro exI [of _ w'] exI [of _ "?ds @ ds"]) auto
  next
    case ReadEOF
    with step f1 r show ?thesis by (intro exI [of _ w1] exI [of _ ?ds]) auto
  qed (use Cons.prems r in simp)
qed (auto intro!: exI [of _ "[]"])

lemma copy_loop_working:
  "working w \<Longrightarrow> snd (body_result rs) = None \<Longrightarrow>
   \<exists>w'. copy_loop rs w = (None, w', []) \<and> working w' \<and> written w' = written w @ fst (body_result rs)"
proof (induction rs arbitrary: w)
  case (Cons r rs)
  obtain d e where r: "r = (d, e)" by (cases r)
  note ws = WriteString_working [OF Cons.prems(1), of d]
  with Cons r show ?case by (cases e) (fastforce simp: Let_def)+
qed auto

section \<open>A server reads the request\<close>

text \<open>
  A server's reader: the request line, the header lines, the body after its framing and the bytes
  behind it. Its loops take at least a byte in every round, so the length of the text is fuel enough.
\<close>

fun read_head :: "nat \<Rightarrow> string \<Rightarrow> (string list \<times> string) option" where
  "read_head 0 s = None"
| "read_head (Suc fuel) s =
     (case cut_line s of
        None \<Rightarrow> None
      | Some (l, s1) \<Rightarrow> if l = '''' then Some ([], s1) else map_option (\<lambda>(ls, r). (l # ls, r)) (read_head fuel s1))"

definition read_field :: "string \<Rightarrow> (string \<times> string) option" where
  "read_field l = (case index_of l '': '' of None \<Rightarrow> None | Some i \<Rightarrow> Some (take i l, drop (i + 2) l))"

definition read_body :: "lines \<Rightarrow> string \<Rightarrow> (string \<times> string) option" where
  "read_body ls s =
     (if line_values ls ''Transfer-Encoding'' \<noteq> [] then dechunk (Suc (length s)) s
      else case line_values ls ''Content-Length'' of
          [] \<Rightarrow> Some ('''', s)
        | v # _ \<Rightarrow> if digits_val v \<le> length s then Some (take (digits_val v) s, drop (digits_val v) s) else None)"

definition server_read :: "string \<Rightarrow> (string \<times> lines \<times> string \<times> string) option" where
  "server_read s =
     (case read_head (Suc (length s)) s of
        Some (rl # fs, rest) \<Rightarrow>
          (case parse_all read_field fs of
             None \<Rightarrow> None
           | Some ls \<Rightarrow> map_option (\<lambda>(b, r). (rl, ls, b, r)) (read_body ls rest))
      | _ \<Rightarrow> None)"

lemma dechunk_mono: "dechunk f s = Some r \<Longrightarrow> f \<le> g \<Longrightarrow> dechunk g s = Some r"
proof (induction f arbitrary: s g r)
  case (Suc f)
  then obtain g' where g: "g = Suc g'" "f \<le> g'" by (cases g) auto
  show ?case
  proof (cases "cut_line s")
    case (Some x)
    obtain l s1 where x: "x = (l, s1)" by (cases x)
    let ?n = "hex_value l"
    show ?thesis
    proof (cases "l = [] \<or> list_ex (\<lambda>c. hex_val c = None) l \<or> ?n = 0 \<or> \<not> has_prefix (drop ?n s1) eol")
      case True
      with Suc.prems Some x g(1) show ?thesis by (simp add: Let_def split: if_splits)
    next
      case False
      with Suc.prems(1) Some x obtain d where "dechunk f (drop (?n + 2) s1) = Some d" "r = (take ?n s1 @ fst d, snd d)"
        by (auto simp: Let_def)
      with Suc.IH [OF _ g(2)] False Some x g(1) show ?thesis by (simp add: Let_def case_prod_beta)
    qed
  qed (use Suc.prems in simp)
qed simp

lemma read_head_mono: "read_head f s = Some r \<Longrightarrow> f \<le> g \<Longrightarrow> read_head g s = Some r"
proof (induction f arbitrary: s g r)
  case (Suc f)
  then obtain g' where g: "g = Suc g'" "f \<le> g'" by (cases g) auto
  show ?case
  proof (cases "cut_line s")
    case (Some x)
    obtain l s1 where x: "x = (l, s1)" by (cases x)
    show ?thesis
    proof (cases "l = []")
      case False
      with Suc.prems(1) Some x obtain d where "read_head f s1 = Some d" "r = (l # fst d, snd d)" by auto
      with Suc.IH [OF _ g(2)] False Some x g(1) show ?thesis by (simp add: case_prod_beta)
    qed (use Suc.prems Some x g(1) in simp)
  qed (use Suc.prems in simp)
qed simp

lemma read_head_lines:
  "\<forall>l \<in> set ls. l \<noteq> '''' \<and> CHR 0x0D \<notin> set l \<Longrightarrow>
   read_head (Suc (length ls)) (concat (map (\<lambda>l. l @ eol) ls) @ eol @ rest) = Some (ls, rest)"
proof (induction ls)
  case Nil
  have "cut_line (eol @ rest) = Some ('''', rest)" using cut_line_append [of "''''" rest] by simp
  then show ?case by simp
next
  case (Cons l ls)
  have "cut_line (l @ eol @ (concat (map (\<lambda>l. l @ eol) ls) @ eol @ rest)) =
      Some (l, concat (map (\<lambda>l. l @ eol) ls) @ eol @ rest)"
    by (rule cut_line_append) (use Cons.prems in simp)
  with Cons show ?case by (simp del: read_head.simps add: read_head.simps(2) [of "Suc (length ls)"])
qed

lemma read_field_line: "CHR '':'' \<notin> set n \<Longrightarrow> read_field (n @ '': '' @ v) = Some (n, v)"
proof -
  assume "CHR '':'' \<notin> set n"
  then have "index_of (n @ '': '' @ v) '': '' = Some (length n)"
    by (induction n) (auto simp: has_prefix_def)
  then show ?thesis by (simp add: read_field_def)
qed

lemma parse_all_map: "(\<And>x. x \<in> set xs \<Longrightarrow> f (g x) = Some x) \<Longrightarrow> parse_all f (map g xs) = Some xs"
  by (induction xs) (simp_all add: parse_all_def)

text \<open>Request heads without line breaks or separators in the wrong places.\<close>

definition clean :: "string \<Rightarrow> bool" where
  "clean s \<longleftrightarrow> CHR 0x0D \<notin> set s"

definition clean_request :: "wire_request \<Rightarrow> bool" where
  "clean_request req \<longleftrightarrow>
     clean (wr_Method req) \<and> clean (RequestURI (wr_URL req)) \<and>
     clean (if wr_Host req = '''' then u_Host (wr_URL req) else wr_Host req) \<and>
     map_wf (wr_Header req) \<and> distinct (map canonicalHeaderKey (wr_Order req)) \<and>
     (\<forall>(k, vs) \<in> set (wr_Header req).
        list_all token_char k \<and> canonicalHeaderKey k = k \<and> list_all clean vs)"

definition request_line :: "wire_request \<Rightarrow> string" where
  "request_line req =
     wr_Method req @ '' '' @ (if RequestURI (wr_URL req) = '''' then ''/'' else RequestURI (wr_URL req)) @ '' HTTP/1.1''"

definition request_fields :: "wire_request \<Rightarrow> lines" where
  "request_fields req =
     (''Host'', if wr_Host req = '''' then u_Host (wr_URL req) else wr_Host req) # writeHeadersInOrder req (uses_chunked req)"

definition field_text :: "string \<times> string \<Rightarrow> string" where
  "field_text l = fst l @ '': '' @ snd l"

lemma request_head_lines:
  "request_head req =
     concat (map (\<lambda>l. l @ eol) (request_line req # map field_text (request_fields req))) @ eol"
proof -
  have r: "render_line = (\<lambda>l. l @ eol) \<circ> field_text"
    by (rule ext) (simp add: render_line_def field_text_def)
  show ?thesis unfolding request_head_def r
    by (simp add: request_line_def request_fields_def Let_def del: map_map flip: map_map)
qed

lemma token_no_return: "list_all token_char n \<Longrightarrow> CHR 0x0D \<notin> set n \<and> CHR '':'' \<notin> set n"
proof -
  assume t: "list_all token_char n"
  have "\<not> token_char (CHR 0x0D)" "\<not> token_char (CHR '':'')" by code_simp+
  with t show ?thesis by (auto simp: list_all_iff)
qed

lemma clean_int_string: "0 \<le> i \<Longrightarrow> clean (int_string i)"
  using sep_notin_dec [of "CHR 0x0D" "nat i"] by (simp add: clean_def int_string_def is_digit_def)

lemma in_line_values: "(n, v) \<in> set ls \<longleftrightarrow> v \<in> set (line_values ls n)"
  by (force simp: line_values_def)

lemma hvalues_in: "v \<in> set (hvalues h k) \<Longrightarrow> \<exists>vs. (k, vs) \<in> set h \<and> v \<in> set vs"
  by (auto simp: hvalues_def split: option.splits intro: map_of_SomeD dest: sym)

lemma clean_values:
  assumes "clean_request req" "v \<in> set (request_values req chunked n)"
  shows "list_all token_char n \<and> clean v"
proof -
  have special: "list_all token_char ''Content-Length''" "list_all token_char ''Transfer-Encoding''" "list_all token_char ''Connection''"
    "clean ''chunked''" "clean ''keep-alive''" "clean ''0''" by code_simp+
  have user: "v \<in> set (hvalues (wr_Header req) n) \<Longrightarrow> list_all token_char n \<and> clean v"
    using assms(1) hvalues_in by (fastforce simp: clean_request_def list_all_iff)
  consider "n = ''Content-Length''" "v \<in> set (length_values req)" | "n = ''Transfer-Encoding''" "v = ''chunked''"
    | "n = ''Connection''" "v = ''keep-alive''" | "v \<in> set (hvalues (wr_Header req) n)"
    using assms(2) unfolding request_values_def by (auto split: if_splits)
  then show ?thesis
  proof cases
    case 1
    then have "v \<in> set (hvalues (wr_Header req) n) \<or> declared_length req = Some v"
      by (auto simp: length_values_def hvalues_def split: option.splits)
    with 1 user special show ?thesis
      by (auto simp: declared_length_def clean_int_string split: if_splits)
  qed (use user special in auto)
qed

definition request_reads :: "wire_request \<Rightarrow> body_reads" where
  "request_reads req = (case wr_Body req of ReaderBody rs \<Rightarrow> rs | _ \<Rightarrow> [])"

definition framed :: "wire_request \<Rightarrow> bool" where
  "framed req \<longleftrightarrow>
     uses_chunked req \<or>
     (map_of (wr_Header req) ''Transfer-Encoding'' = None \<and>
      (length_values req = [dec_string (length (fst (body_result (request_reads req))))] \<or>
       length_values req = [] \<and> fst (body_result (request_reads req)) = ''''))"

lemma dec_zero: "dec_string 0 = ''0''"
  by code_simp

lemma line_values_clean:
  assumes "clean_request req"
  shows "line_values (writeHeadersInOrder req chunked) k = request_values req chunked k"
proof (rule header_lines_values)
  show "\<forall>k. map_of (wr_Header req) k \<noteq> None \<longrightarrow> canonicalHeaderKey k = k"
    using assms by (fastforce simp: clean_request_def dest: map_of_SomeD)
qed (use assms in \<open>simp_all add: clean_request_def\<close>)

lemma fields_clean:
  assumes "clean_request req" "l \<in> set (request_fields req)"
  shows "list_all token_char (fst l)" "clean (snd l)"
proof -
  have host: "list_all token_char ''Host''" by code_simp
  have "l \<in> set (writeHeadersInOrder req (uses_chunked req)) \<Longrightarrow> list_all token_char (fst l) \<and> clean (snd l)"
    using clean_values [OF assms(1)] line_values_clean [OF assms(1)] in_line_values [of "fst l" "snd l"] by simp
  then show "list_all token_char (fst l)" "clean (snd l)"
    using assms host by (auto simp: request_fields_def clean_request_def)
qed

lemma head_read_back:
  assumes "clean_request req"
  shows "read_head (Suc (length (request_head req @ rest))) (request_head req @ rest) =
      Some (request_line req # map field_text (request_fields req), rest)"
    and "parse_all read_field (map field_text (request_fields req)) = Some (request_fields req)"
proof -
  let ?ls = "request_line req # map field_text (request_fields req)"
  have nr: "CHR 0x0D \<notin> set ''/''" "CHR 0x0D \<notin> set '' HTTP/1.1''" "CHR 0x0D \<notin> set '': ''" "CHR 0x0D \<notin> set '' ''" by simp_all
  have line: "request_line req \<noteq> [] \<and> CHR 0x0D \<notin> set (request_line req)"
    using assms nr by (simp add: request_line_def clean_request_def clean_def)
  have field: "field_text l \<noteq> [] \<and> CHR 0x0D \<notin> set (field_text l)" if "l \<in> set (request_fields req)" for l
    using fields_clean [OF assms that] token_no_return [of "fst l"] nr by (simp add: field_text_def clean_def)
  have head: "read_head (Suc (length ?ls)) (concat (map (\<lambda>l. l @ eol) ?ls) @ eol @ rest) = Some (?ls, rest)"
    by (rule read_head_lines) (use line field in auto)
  have "length ls \<le> length (concat (map (\<lambda>l. l @ eol) ls))" for ls by (induction ls) (auto simp: eol_def)
  then have "length ?ls \<le> length (concat (map (\<lambda>l. l @ eol) ?ls))" .
  then have "Suc (length ?ls) \<le> Suc (length (request_head req @ rest))" unfolding request_head_lines by simp
  from read_head_mono [OF head this]
  show "read_head (Suc (length (request_head req @ rest))) (request_head req @ rest) = Some (?ls, rest)"
    unfolding request_head_lines by simp
  have "read_field (field_text l) = Some l" if "l \<in> set (request_fields req)" for l
    using read_field_line [of "fst l" "snd l"] token_no_return [of "fst l"] fields_clean [OF assms that]
    by (simp add: field_text_def)
  then show "parse_all read_field (map field_text (request_fields req)) = Some (request_fields req)"
    by (rule parse_all_map)
qed

lemma field_values:
  assumes "clean_request req" "k \<noteq> ''Host''"
  shows "line_values (request_fields req) k = request_values req (uses_chunked req) k"
proof -
  have "line_values ((''Host'', h) # ls) k = line_values ls k" for h ls
    using assms(2) by (simp add: line_values_def)
  then show ?thesis using line_values_clean [OF assms(1)] by (simp add: request_fields_def)
qed

text \<open>The text of the body as it goes out, and the server's reading of it.\<close>

lemma body_read_back:
  assumes "clean_request req" "working w" "snd (body_result (request_reads req)) = None" "framed req"
    "wr_Body req \<noteq> NilBody"
  shows "\<exists>w' bytes. (if uses_chunked req then writeChunkedBody (request_reads req) w else copy_loop (request_reads req) w) =
      (None, w', []) \<and> working w' \<and> written w' = written w @ bytes \<and>
      read_body (request_fields req) (bytes @ next_bytes) = Some (fst (body_result (request_reads req)), next_bytes)"
proof (cases "uses_chunked req")
  case True
  obtain w1 ds where l: "chunk_loop (request_reads req) w = (None, w1, [])" "working w1" "[] \<notin> set ds"
    "concat ds = fst (body_result (request_reads req))" "written w1 = written w @ concat (map chunk ds)"
    using chunk_loop_working [OF assms(2,3)] by auto
  let ?bytes = "concat (map chunk ds) @ ''0'' @ eol @ eol"
  have "writeChunkedBody (request_reads req) w = (None, WriteString (''0'' @ eol @ eol) w1, [])"
    using l(1,2) by (simp add: writeChunkedBody_def working_def)
  moreover have "working (WriteString (''0'' @ eol @ eol) w1)" "written (WriteString (''0'' @ eol @ eol) w1) = written w @ ?bytes"
    using WriteString_working [OF l(2)] l(5) by simp_all
  moreover have "read_body (request_fields req) (?bytes @ next_bytes) = Some (concat ds, next_bytes)"
  proof -
    have "length ds \<le> length (concat (map chunk ds))" by (induction ds) (auto simp: chunk_def eol_def)
    then have le: "Suc (length ds) \<le> Suc (length (?bytes @ next_bytes))" by simp
    have te: "line_values (request_fields req) ''Transfer-Encoding'' \<noteq> []"
      using field_values [OF assms(1), of "''Transfer-Encoding''"] True by (simp add: request_values_def)
    from dechunk_mono [OF dechunk_chunks [OF l(3)] le, of next_bytes] te show ?thesis
      by (simp add: read_body_def del: dechunk.simps)
  qed
  ultimately show ?thesis using True l(4) by auto
next
  case False
  let ?d = "fst (body_result (request_reads req))"
  have te: "line_values (request_fields req) ''Transfer-Encoding'' = []"
    using field_values [OF assms(1), of "''Transfer-Encoding''"] False assms(4)
    by (simp add: request_values_def framed_def hvalues_def)
  have cl: "line_values (request_fields req) ''Content-Length'' = length_values req"
    using field_values [OF assms(1), of "''Content-Length''"] False by (simp add: request_values_def)
  have "length_values req = [dec_string (length ?d)] \<or> length_values req = [] \<and> ?d = []"
    using assms(4) False by (auto simp: framed_def)
  then have "read_body (request_fields req) (?d @ next_bytes) = Some (?d, next_bytes)"
    using dec_string_digits [of "length ?d"] unfolding read_body_def te cl by auto
  with copy_loop_working [OF assms(2,3)] False show ?thesis by auto
qed

text \<open>C16.
  A server reads back what was sent. For a request whose texts contain no line break, whose order
  names no header twice and whose length, where the body is not chunked, is declared rightly,
  \<open>writeRequest\<close> succeeds on a working connection, has read the whole body, and leaves bytes from
  which a reader of HTTP/1.1 messages takes the method, the target, all header lines and exactly the
  body's bytes; whatever follows on the connection is left untouched, so that the next request on
  a kept connection starts where the server expects it.
\<close>
theorem request_read_back:
  assumes "clean_request req" "working w" "bw_buf w = ''''" "snd (body_result (request_reads req)) = None" "framed req"
  shows "\<exists>w' bytes. writeRequest req w = (None, w', []) \<and> working w' \<and> bw_buf w' = '''' \<and> bw_sent w' = bw_sent w @ bytes \<and>
    server_read (bytes @ next_bytes) = Some (request_line req, request_fields req, fst (body_result (request_reads req)), next_bytes)"
proof -
  let ?d = "fst (body_result (request_reads req))"
  obtain w1 where f: "Flush (WriteString (request_head req) w) = (None, w1)" "working w1" "bw_buf w1 = ''''"
    "bw_sent w1 = bw_sent w @ request_head req"
    using Flush_working WriteString_working [OF assms(2), of "request_head req"] assms(3)
    by (cases "Flush (WriteString (request_head req) w)") (force simp: written_def)
  have read: "server_read (request_head req @ rest) =
      map_option (\<lambda>(b, r). (request_line req, request_fields req, b, r)) (read_body (request_fields req) rest)" for rest
    unfolding server_read_def head_read_back(1) [OF assms(1)] by (simp add: head_read_back(2) [OF assms(1)])
  show ?thesis
  proof (cases "wr_Body req = NilBody")
    case True
    then have "?d = ''''" "\<not> uses_chunked req" by (simp_all add: request_reads_def uses_chunked_def)
    moreover have "read_body (request_fields req) next_bytes = Some (?d, next_bytes)"
    proof -
      have "length_values req = [''0''] \<or> length_values req = []"
        using assms(5) calculation dec_zero by (auto simp: framed_def)
      moreover have "digits_val ''0'' = 0" by code_simp
      ultimately show ?thesis
        using field_values [OF assms(1), of "''Transfer-Encoding''"] field_values [OF assms(1), of "''Content-Length''"]
          \<open>?d = ''''\<close> \<open>\<not> uses_chunked req\<close> assms(5)
        by (auto simp: read_body_def request_values_def framed_def hvalues_def)
    qed
    ultimately show ?thesis using True f read [of next_bytes] by (auto simp: writeRequest_def)
  next
    case False
    obtain w2 bytes where b: "(if uses_chunked req then writeChunkedBody (request_reads req) w1 else copy_loop (request_reads req) w1) =
        (None, w2, [])" "working w2" "written w2 = written w1 @ bytes"
        "read_body (request_fields req) (bytes @ next_bytes) = Some (?d, next_bytes)"
      using body_read_back [OF assms(1) f(2) assms(4,5) False] by blast
    obtain w3 where g: "Flush w2 = (None, w3)" "working w3" "bw_buf w3 = ''''" "written w3 = written w2"
      using Flush_working [OF b(2)] by (cases "Flush w2") auto
    have "writeRequest req w = (None, w3, [])"
      using f(1) b(1) g(1) False by (simp add: writeRequest_def request_reads_def [symmetric])
    moreover have "bw_sent w3 = bw_sent w @ request_head req @ bytes"
      using g b(3) f(3,4) by (simp add: written_def)
    moreover have "server_read ((request_head req @ bytes) @ next_bytes) = Some (request_line req, request_fields req, ?d, next_bytes)"
      using read [of "bytes @ next_bytes"] b(4) by simp
    ultimately show ?thesis using g by blast
  qed
qed

definition fresh_writer :: bufw where
  "fresh_writer = \<lparr>bw_buf = '''', bw_sent = '''', bw_err = None, bw_flushes = []\<rparr>"

lemma request_read_back_witness:
  "\<exists>w' bytes. writeRequest example_request fresh_writer = (None, w', []) \<and> working w' \<and> bw_buf w' = '''' \<and>
    bw_sent w' = bw_sent fresh_writer @ bytes \<and>
    server_read (bytes @ ''GET'') =
      Some (request_line example_request, request_fields example_request, fst (body_result (request_reads example_request)), ''GET'')"
proof (rule request_read_back)
  show "clean_request example_request" by code_simp
  show "working fresh_writer" "bw_buf fresh_writer = ''''" by (simp_all add: working_def fresh_writer_def)
  show "snd (body_result (request_reads example_request)) = None" by code_simp
  show "framed example_request" by (simp add: framed_def uses_chunked_def example_request_def first_value_def hvalues_def)
qed

text \<open>
  A caller's own \<open>Transfer-Encoding\<close> beside a declared length is sent with the length and a body that is
  not chunked, so the server's view of the connection is lost.
\<close>

lemma own_transfer_encoding:
  "let req = example_request\<lparr>wr_Header := [(''Transfer-Encoding'', [''chunked''])], wr_ContentLength := 3\<rparr> in
   line_values (writeHeadersInOrder req (uses_chunked req)) ''Transfer-Encoding'' = [''chunked''] \<and>
   line_values (writeHeadersInOrder req (uses_chunked req)) ''Content-Length'' = [''3''] \<and> \<not> uses_chunked req"
  by code_simp

text \<open>A line break in a header value ends the line, so the value can carry further header lines.\<close>

lemma line_break_adds_line:
  "render_line (''X'', ''a'' @ eol @ ''Authorization: b'') = render_line (''X'', ''a'') @ render_line (''Authorization'', ''b'')"
  by (simp add: render_line_def)

text \<open>A header named twice in the order is written twice.\<close>

lemma order_repeats_line:
  "line_values (writeHeadersInOrder (example_request\<lparr>wr_Order := [''accept'', ''Accept'']\<rparr>) True) ''Accept'' = [''a'', ''b'', ''a'', ''b'']"
  by code_simp

end
