(* ===== verification/Http1Conn.thy ===== *)
theory Http1Conn
  imports Http1Wire Ja3
begin

text \<open>
  How an HTTP/1 connection comes about: \<open>createConn\<close> of \<open>transport/http1_transport.go\<close>, with the
  fallback from speculative to blocking dialling. The DNS cache, the dialers and uTLS (applying a
  client hello to a connection, and the handshake) are parameters. A failure carries the states in
  which the opened connections were left, so that a leak would show. Deadlines, socket options and
  the key log are not modelled.
\<close>

section \<open>Configuration and environment\<close>

record h1_config =
  h1_proxy :: "ProxyConfig option"
  h1_connectTo :: "(string, string) gomap"
  h1_speculative :: bool
  h1_customJA3 :: "(string \<times> JA3Extras option) option"
  h1_insecureSkipVerify :: bool
  h1_localAddr :: string

text \<open>The client hello that is used: built from a JA3 string, or the preset's with its ALPN replaced.\<close>

datatype client_hello = CustomHello ClientHelloSpec | PresetHello

text \<open>
  \<open>he_fresh\<close> is the dialling environment of the fallback, a moment later. \<open>he_handshake\<close> takes the
  hello, the server name, whether certificates go unchecked, and whether the session cache is used.
\<close>

record 'c h1_env =
  he_proxy :: "'c dial_env"
  he_fresh :: "'c dial_env"
  he_resolve :: "string \<Rightarrow> string + ip list"
  he_dial :: "string \<Rightarrow> ip \<Rightarrow> string \<Rightarrow> string + 'c"
  he_shuffle :: "tls_extension list \<Rightarrow> tls_extension list"
  he_apply :: "client_hello \<Rightarrow> 'c tunnel \<Rightarrow> string option"
  he_handshake :: "client_hello \<Rightarrow> string \<Rightarrow> bool \<Rightarrow> bool \<Rightarrow> 'c tunnel \<Rightarrow> string conn_error option \<times> 'c tunnel"

definition getConnectHost :: "h1_config \<Rightarrow> string \<Rightarrow> string" where
  "getConnectHost cfg requestHost =
     (case map_of (h1_connectTo cfg) requestHost of Some h \<Rightarrow> h | None \<Rightarrow> requestHost)"

definition h1_SetConnectTo :: "string \<Rightarrow> string \<Rightarrow> h1_config \<Rightarrow> h1_config" where
  "h1_SetConnectTo requestHost connectHost cfg =
     cfg\<lparr>h1_connectTo := AList.update requestHost connectHost (h1_connectTo cfg)\<rparr>"

definition h1_SetInsecureSkipVerify :: "bool \<Rightarrow> h1_config \<Rightarrow> h1_config" where
  "h1_SetInsecureSkipVerify skip cfg = cfg\<lparr>h1_insecureSkipVerify := skip\<rparr>"

definition h1_SetLocalAddr :: "string \<Rightarrow> h1_config \<Rightarrow> h1_config" where
  "h1_SetLocalAddr addr cfg = cfg\<lparr>h1_localAddr := addr\<rparr>"

section \<open>Raw connections\<close>

definition dial_error_text :: "dial_error \<Rightarrow> string" where
  "dial_error_text e =
     (case e of
        InvalidProxyURL \<Rightarrow> ''invalid proxy URL''
      | ProxyLookupFailed h t \<Rightarrow> ''failed to resolve proxy host '' @ h @ '': '' @ t
      | NoProxyAddresses h \<Rightarrow> ''no IP addresses found for proxy host '' @ h
      | ProxyDialFailed t \<Rightarrow> ''failed to connect to proxy: '' @ t
      | ConnectSendFailed t \<Rightarrow> ''failed to send CONNECT request: '' @ t
      | ConnectReadFailed t \<Rightarrow> ''failed to read CONNECT response: '' @ t
      | ConnectRefused t \<Rightarrow> t
      | Socks5Failed t \<Rightarrow> t)"

text \<open>The addresses of the family of the local address, when there is one.\<close>

definition local_family :: "string \<Rightarrow> ip list \<Rightarrow> string + ip list" where
  "local_family localAddr ips =
     (if localAddr = '''' then Inr ips
      else case ParseIP localAddr of
          None \<Rightarrow> Inr ips
        | Some l \<Rightarrow>
            let v6 = (To4 l = None); filtered = filter (\<lambda>i. (To4 i = None) = v6) ips in
            if filtered = [] then
              Inl (''no '' @ (if v6 then ''IPv6'' else ''IPv4'') @ '' addresses found for host (local address is '' @ localAddr @ '')'')
            else Inr filtered)"

text \<open>The dial loop: the first success, or the last error.\<close>

fun dial_loop :: "(string \<Rightarrow> ip \<Rightarrow> string \<Rightarrow> string + 'c) \<Rightarrow> string \<Rightarrow> ip list \<Rightarrow> string option \<Rightarrow> string option + 'c" where
  "dial_loop dial port [] lastErr = Inl lastErr"
| "dial_loop dial port (i # is) lastErr =
     (case dial (if To4 i = None then ''tcp6'' else ''tcp4'') i port of
        Inr c \<Rightarrow> Inr c
      | Inl e \<Rightarrow> dial_loop dial port is (Some e))"

definition dial_direct :: "'c h1_env \<Rightarrow> h1_config \<Rightarrow> string \<Rightarrow> string \<Rightarrow> string \<Rightarrow> (go_error \<times> 'c list) + 'c tunnel" where
  "dial_direct env cfg host connectHost port =
     (case he_resolve env connectHost of
        Inl e \<Rightarrow> Inl (NewDNSError host (Some (go_error.TextError e)), [])
      | Inr ips \<Rightarrow>
          if ips = [] then Inl (NewDNSError host (Some (go_error.TextError ''no IP addresses found'')), [])
          else case local_family (h1_localAddr cfg) ips of
              Inl e \<Rightarrow> Inl (NewDNSError host (Some (go_error.TextError e)), [])
            | Inr candidates \<Rightarrow>
                (case dial_loop (he_dial env) port candidates None of
                   Inr c \<Rightarrow> Inr (PlainConn c)
                 | Inl (Some e) \<Rightarrow> Inl (NewConnectionError ''dial'' host port ''h1'' (Some (go_error.TextError e)), [])
                 | Inl None \<Rightarrow>
                     Inl (NewConnectionError ''dial'' host port ''h1'' (Some (go_error.TextError ''all connection attempts failed'')), [])))"

definition raw_conn :: "'c h1_env \<Rightarrow> h1_config \<Rightarrow> string set \<Rightarrow> string \<Rightarrow> string \<Rightarrow> (go_error \<times> 'c list) + 'c tunnel" where
  "raw_conn env cfg blocked host port =
     (let connectHost = getConnectHost cfg host in
      case h1_proxy cfg of
        Some px \<Rightarrow>
          if px_URL px \<noteq> '''' then
            (case dialThroughProxy h1_refusal (h1_speculative cfg) blocked (he_proxy env) px connectHost port of
               Inl (e, left) \<Rightarrow>
                 Inl (NewProxyError ''dial_proxy'' host port (Some (go_error.TextError (dial_error_text e))),
                      case left of None \<Rightarrow> [] | Some c \<Rightarrow> [c])
             | Inr t \<Rightarrow> Inr t)
          else dial_direct env cfg host connectHost port
      | None \<Rightarrow> dial_direct env cfg host connectHost port)"

section \<open>TLS\<close>

text \<open>The first ALPN extension is made to offer HTTP/1.1 only.\<close>

fun force_http11 :: "tls_extension list \<Rightarrow> tls_extension list" where
  "force_http11 [] = []"
| "force_http11 (ALPNExtension ps # es) = ALPNExtension [''http/1.1''] # es"
| "force_http11 (e # es) = e # force_http11 es"

definition uses_session_cache :: "h1_config \<Rightarrow> bool" where
  "uses_session_cache cfg =
     (case h1_customJA3 cfg of None \<Rightarrow> True | Some (ja3, extras) \<Rightarrow> ja3 = '''' \<or> JA3HasExtension ja3 ''41'')"

text \<open>The text of a JA3 error, without the quoted part and the reason that \<open>strconv\<close> adds.\<close>

definition ja3_text :: "ja3_error \<Rightarrow> string" where
  "ja3_text e =
     ''ja3: '' @
     (case e of
        Ja3FieldCount n \<Rightarrow> ''expected 5 comma-separated fields, got '' @ dec_string n
      | Ja3Version v \<Rightarrow> ''invalid TLS version''
      | Ja3Ciphers v \<Rightarrow> ''invalid cipher suites''
      | Ja3Extensions v \<Rightarrow> ''invalid extensions''
      | Ja3Curves v \<Rightarrow> ''invalid elliptic curves''
      | Ja3Points v \<Rightarrow> ''invalid point formats'')"

text \<open>The hello for a raw connection, or the operation that failed and its error.\<close>

definition prepare_hello :: "'c h1_env \<Rightarrow> h1_config \<Rightarrow> 'c tunnel \<Rightarrow> (string \<times> string) + client_hello" where
  "prepare_hello env cfg t =
     (case h1_customJA3 cfg of
        Some (ja3, extras) \<Rightarrow>
          if ja3 \<noteq> '''' then
            (case ParseJA3 (he_shuffle env) ja3 extras of
               Inl e \<Rightarrow> Inl (''parse_ja3'', ja3_text e)
             | Inr spec \<Rightarrow>
                 let hello = CustomHello (spec\<lparr>hello_Extensions := force_http11 (hello_Extensions spec)\<rparr>) in
                 (case he_apply env hello t of
                    Some e \<Rightarrow> Inl (''apply_ja3_preset'', e)
                  | None \<Rightarrow> Inr hello))
          else (case he_apply env PresetHello t of Some e \<Rightarrow> Inl (''build_handshake'', e) | None \<Rightarrow> Inr PresetHello)
      | None \<Rightarrow>
          (case he_apply env PresetHello t of Some e \<Rightarrow> Inl (''build_handshake'', e) | None \<Rightarrow> Inr PresetHello))"

text \<open>\<open>rawConn.Close()\<close>: every kind of tunnel closes the connection inside it.\<close>

fun tunnel_conn :: "'c tunnel \<Rightarrow> 'c" where
  "tunnel_conn (PlainConn c) = c"
| "tunnel_conn (BufferedConn b) = bc_conn b"
| "tunnel_conn (Speculative s) = sc_Conn s"

definition close_tunnel :: "'c dial_env \<Rightarrow> 'c tunnel \<Rightarrow> 'c" where
  "close_tunnel env t = de_close env (tunnel_conn t)"

definition handshake :: "'c h1_env \<Rightarrow> h1_config \<Rightarrow> client_hello \<Rightarrow> string \<Rightarrow> 'c tunnel \<Rightarrow> string conn_error option \<times> 'c tunnel" where
  "handshake env cfg hello host t =
     he_handshake env hello host (h1_insecureSkipVerify cfg) (uses_session_cache cfg) t"

section \<open>\<open>createConn\<close>\<close>

text \<open>
  What \<open>createConn\<close> did: the connection with the hello of its TLS layer, if it has one, or the error;
  how the other connections it had opened were left; the blocklist.
\<close>

record 'c created =
  cr_result :: "go_error + 'c tunnel \<times> client_hello option"
  cr_left :: "'c list"
  cr_blocked :: "string set"

definition tls_failed :: "string \<Rightarrow> string \<Rightarrow> string \<Rightarrow> string \<Rightarrow> 'c list \<Rightarrow> string set \<Rightarrow> 'c created" where
  "tls_failed op host port cause left blocked =
     \<lparr>cr_result = Inl (NewTLSError op host port ''h1'' (Some (go_error.TextError cause))), cr_left = left, cr_blocked = blocked\<rparr>"

text \<open>The fallback after a speculative connection has failed; \<open>left\<close> is that connection, closed.\<close>

definition blocking_fallback ::
  "'c h1_env \<Rightarrow> h1_config \<Rightarrow> ProxyConfig \<Rightarrow> string \<Rightarrow> string \<Rightarrow> 'c list \<Rightarrow> string set \<Rightarrow> 'c created" where
  "blocking_fallback env cfg px host port left blocked =
     (case dialHTTPProxyBlockingFresh h1_refusal (he_fresh env) px (getConnectHost cfg host) port of
        Inl (e, c) \<Rightarrow>
          tls_failed ''speculative_fallback_dial'' host port (dial_error_text e)
            (left @ (case c of None \<Rightarrow> [] | Some c \<Rightarrow> [c])) blocked
      | Inr t \<Rightarrow>
          (case prepare_hello env cfg t of
             Inl (op, e) \<Rightarrow> tls_failed op host port e (left @ [close_tunnel (he_fresh env) t]) blocked
           | Inr hello \<Rightarrow>
               (case handshake env cfg hello host t of
                  (Some e, t1) \<Rightarrow>
                    tls_failed ''tls_handshake'' host port (conn_error_text id e) (left @ [close_tunnel (he_fresh env) t1]) blocked
                | (None, t1) \<Rightarrow> \<lparr>cr_result = Inr (t1, Some hello), cr_left = left, cr_blocked = blocked\<rparr>)))"

definition createConn ::
  "'c h1_env \<Rightarrow> h1_config \<Rightarrow> string set \<Rightarrow> string \<Rightarrow> string \<Rightarrow> string \<Rightarrow> 'c created" where
  "createConn env cfg blocked host port scheme =
     (case raw_conn env cfg blocked host port of
        Inl (e, left) \<Rightarrow> \<lparr>cr_result = Inl e, cr_left = left, cr_blocked = blocked\<rparr>
      | Inr t \<Rightarrow>
          if scheme \<noteq> ''https'' then \<lparr>cr_result = Inr (t, None), cr_left = [], cr_blocked = blocked\<rparr>
          else
            (case prepare_hello env cfg t of
               Inl (op, e) \<Rightarrow> tls_failed op host port e [close_tunnel (he_proxy env) t] blocked
             | Inr hello \<Rightarrow>
                 (case handshake env cfg hello host t of
                    (None, t1) \<Rightarrow> \<lparr>cr_result = Inr (t1, Some hello), cr_left = [], cr_blocked = blocked\<rparr>
                  | (Some e, t1) \<Rightarrow>
                      let left = [close_tunnel (he_proxy env) t1] in
                      (case h1_proxy cfg of
                         Some px \<Rightarrow>
                           if IsSpeculativeTLSError e \<and> px_URL px \<noteq> ''''
                           then blocking_fallback env cfg px host port left (MarkProxyNoSpeculative (px_URL px) blocked)
                           else tls_failed ''tls_handshake'' host port (conn_error_text id e) left blocked
                       | None \<Rightarrow> tls_failed ''tls_handshake'' host port (conn_error_text id e) left blocked))))"

section \<open>What it guarantees\<close>

text \<open>No connection leaks, whatever fails.\<close>

lemma fallback_closes:
  assumes "c \<in> set (cr_left (blocking_fallback env cfg px host port left blocked))" "c \<notin> set left"
  shows "\<exists>k. c = de_close (he_fresh env) k"
  using assms
  by (auto simp: blocking_fallback_def tls_failed_def close_tunnel_def dialHTTPProxyBlockingFresh_def
      dialHTTPProxyBlocking_def dial_proxy_host_def
      split: sum.splits option.splits prod.splits if_splits list.splits)

lemma raw_conn_closes:
  assumes "raw_conn env cfg blocked host port = Inl (e, left)" "c \<in> set left"
  shows "\<exists>k. c = de_close (he_proxy env) k"
proof -
  have "dialThroughProxy h1_refusal s blocked (he_proxy env) px ch port = Inl (d, Some c) \<Longrightarrow> \<exists>k. c = de_close (he_proxy env) k"
    for s px ch d using dial_failure_closes by (auto simp: dialThroughProxy_def split: if_splits sum.splits)
  then show ?thesis using assms
    by (fastforce simp: raw_conn_def dial_direct_def Let_def split: option.splits if_splits sum.splits)
qed

lemma createConn_closes:
  assumes "c \<in> set (cr_left (createConn env cfg blocked host port scheme))"
  shows "(\<exists>k. c = de_close (he_proxy env) k) \<or> (\<exists>k. c = de_close (he_fresh env) k)"
proof -
  have fb: "c \<in> set (cr_left (blocking_fallback env cfg px host port [close_tunnel (he_proxy env) t] b)) \<Longrightarrow>
      (\<exists>k. c = de_close (he_proxy env) k) \<or> (\<exists>k. c = de_close (he_fresh env) k)" for px t b
    using fallback_closes [of c env cfg px host port "[close_tunnel (he_proxy env) t]" b] by (auto simp: close_tunnel_def)
  show ?thesis
  proof (cases "raw_conn env cfg blocked host port")
    case (Inl x)
    with assms raw_conn_closes [of env cfg blocked host port "fst x" "snd x" c] show ?thesis
      by (cases x) (auto simp: createConn_def)
  next
    case (Inr t)
    with assms fb show ?thesis
      by (auto simp: createConn_def tls_failed_def close_tunnel_def Let_def split: if_splits sum.splits prod.splits option.splits)
  qed
qed

lemma fallback_handshakes:
  "cr_result (blocking_fallback env cfg px host port left blocked) = Inr (t, h) \<Longrightarrow>
   \<exists>hello t0. h = Some hello \<and> handshake env cfg hello host t0 = (None, t)"
  by (auto simp: blocking_fallback_def tls_failed_def split: sum.splits option.splits prod.splits)

lemma createConn_handshakes:
  "cr_result (createConn env cfg blocked host port ''https'') = Inr (t, h) \<Longrightarrow>
   \<exists>hello t0. h = Some hello \<and> handshake env cfg hello host t0 = (None, t)"
  by (auto simp: createConn_def tls_failed_def Let_def split: sum.splits option.splits prod.splits if_splits)
    (use fallback_handshakes in blast)

text \<open>C20.
  Setting up a connection is safe on every path, through all dialling errors and the fallback from
  speculation: for an \<open>https\<close> request a connection is only returned once a TLS handshake on it has
  succeeded, for the requested host's name (not the one of the connect-to table) and with
  certificate checks as configured; and every other connection that was opened on the way has been
  closed. Nothing is assumed of the network.
\<close>
theorem createConn_safe:
  "(\<forall>t h. cr_result (createConn env cfg blocked host port ''https'') = Inr (t, h) \<longrightarrow>
      (\<exists>hello t0. h = Some hello \<and>
         he_handshake env hello host (h1_insecureSkipVerify cfg) (uses_session_cache cfg) t0 = (None, t))) \<and>
    (\<forall>c \<in> set (cr_left (createConn env cfg blocked host port ''https'')).
       (\<exists>k. c = de_close (he_proxy env) k) \<or> (\<exists>k. c = de_close (he_fresh env) k))"
  using createConn_closes createConn_handshakes [where h = h for h] unfolding handshake_def by metis

text \<open>A proxy that breaks the speculative handshake and then answers the CONNECT request.\<close>

definition example_h1 :: "string peer h1_env" where
  "example_h1 =
     \<lparr>he_proxy = example_env\<lparr>de_close := (\<lambda>p. p\<lparr>pe_chunks := []\<rparr>)\<rparr>,
      he_fresh = example_env\<lparr>de_close := (\<lambda>p. p\<lparr>pe_chunks := []\<rparr>)\<rparr>,
      he_resolve = (\<lambda>h. Inl ''no resolver''), he_dial = (\<lambda>n i p. Inl ''refused''), he_shuffle = id, he_apply = (\<lambda>h t. None),
      he_handshake = (\<lambda>h name skip cache t.
        (case t of Speculative s \<Rightarrow> Some (SpeculativeTLSError ''read'' 0 None) | _ \<Rightarrow> None, t))\<rparr>"

definition example_cfg :: h1_config where
  "example_cfg =
     \<lparr>h1_proxy = Some (url_proxy ''http://px''), h1_connectTo = [], h1_speculative = True, h1_customJA3 = None,
      h1_insecureSkipVerify = False, h1_localAddr = ''''\<rparr>"

lemma fallback_blocked: "cr_blocked (blocking_fallback env cfg px host port left blocked) = blocked"
  by (simp add: blocking_fallback_def tls_failed_def split: sum.split prod.split option.split)

text \<open>
  A proxy on which a speculative handshake failed is marked, and while it is marked connections
  through it are set up with the CONNECT exchange first.
\<close>

lemma raw_conn_marked:
  assumes "h1_proxy cfg = Some px" "px_URL px \<noteq> ''''" "px_URL px \<in> blocked"
  shows "raw_conn env cfg blocked host port \<noteq> Inr (Speculative s)"
proof -
  have "MarkProxyNoSpeculative (px_URL px) blocked = blocked" using assms(3) by (auto simp: MarkProxyNoSpeculative_def)
  then have "dialThroughProxy h1_refusal e blocked en px ch port \<noteq> Inr (Speculative s)" for e en ch
    using marked_not_speculative [of h1_refusal e px blocked] by metis
  with assms show ?thesis by (auto simp: raw_conn_def Let_def split: sum.splits)
qed

lemma speculation_failure_marks:
  assumes "raw_conn env cfg blocked host port = Inr t" "prepare_hello env cfg t = Inr hello"
    and "handshake env cfg hello host t = (Some e, t1)" "IsSpeculativeTLSError e"
    and "h1_proxy cfg = Some px" "px_URL px \<noteq> ''''"
  shows "px_URL px \<in> cr_blocked (createConn env cfg blocked host port ''https'')"
  using assms by (simp add: createConn_def fallback_blocked MarkProxyNoSpeculative_def)

text \<open>The hello built from a JA3 string offers HTTP/1.1 alone when it has one ALPN extension.\<close>

lemma force_http11_offers:
  "length (filter (\<lambda>e. ext_id e = Some 16) es) \<le> 1 \<Longrightarrow> ALPNExtension ps \<in> set (force_http11 es) \<Longrightarrow> ps = [''http/1.1'']"
proof (induction es rule: force_http11.induct)
  case (2 qs es)
  then have "filter (\<lambda>e. ext_id e = Some 16) es = []" by simp
  then have "ALPNExtension ps \<notin> set es" by (auto simp: filter_empty_conv)
  with 2 show ?case by simp
qed (auto split: if_splits)

lemma force_http11_ids: "map ext_id (force_http11 es) = map ext_id es"
  by (induction es rule: force_http11.induct) auto

text \<open>
  Without TLS a refused speculative connection is not noticed when it is set up, so that the proxy is
  not marked: the fallback belongs to the handshake.
\<close>

lemma plain_speculation_unmarked: "cr_blocked (createConn env cfg blocked host port ''http'') = blocked"
  by (auto simp: createConn_def split: sum.splits)

lemma example_not_socks: "IsSOCKS5Proxy ''http://px'' = False"
  by code_simp

lemma example_created:
  "\<exists>t c. cr_result (createConn example_h1 example_cfg {} ''h'' ''443'' ''https'') = Inr (t, Some PresetHello) \<and>
     cr_left (createConn example_h1 example_cfg {} ''h'' ''443'' ''https'') = [c]"
  by (simp add: createConn_def raw_conn_def example_cfg_def dialThroughProxy_def dialThroughHTTPProxy_def dial_proxy_host_def
      example_not_socks example_url example_port example_h1_def example_env_def JoinHostPort_def contains_def
      IsProxyNoSpeculative_def prepare_hello_def handshake_def blocking_fallback_def dialHTTPProxyBlockingFresh_def
      dialHTTPProxyBlocking_def peer_Write_def example_peer_def example_response_def after_header_def header_end_def
      has_prefix_def getConnectHost_def uses_session_cache_def)

lemma createConn_safe_witness:
  "(\<exists>t h. cr_result (createConn example_h1 example_cfg {} ''h'' ''443'' ''https'') = Inr (t, h) \<and>
      (\<exists>hello t0. h = Some hello \<and> he_handshake example_h1 hello ''h'' False True t0 = (None, t))) \<and>
   (\<exists>c \<in> set (cr_left (createConn example_h1 example_cfg {} ''h'' ''443'' ''https'')).
      (\<exists>k. c = de_close (he_proxy example_h1) k) \<or> (\<exists>k. c = de_close (he_fresh example_h1) k))"
proof -
  have cfg: "h1_insecureSkipVerify example_cfg = False" "uses_session_cache example_cfg = True"
    by (simp_all add: example_cfg_def uses_session_cache_def)
  obtain t c where e: "cr_result (createConn example_h1 example_cfg {} ''h'' ''443'' ''https'') = Inr (t, Some PresetHello)"
    "cr_left (createConn example_h1 example_cfg {} ''h'' ''443'' ''https'') = [c]" using example_created by blast
  note safe = createConn_safe [of example_h1 example_cfg "{}" "''h''" "''443''", unfolded cfg]
  have left: "(\<exists>k. c = de_close (he_proxy example_h1) k) \<or> (\<exists>k. c = de_close (he_fresh example_h1) k)"
    using safe e(2) by simp
  have "\<exists>hello t0. Some PresetHello = Some hello \<and> he_handshake example_h1 hello ''h'' False True t0 = (None, t)"
    using safe e(1) by blast
  then show ?thesis using e left by auto
qed

end
