(* ===== verification/Http1Pool.thy ===== *)
theory Http1Pool
  imports Http1Conn
begin

text \<open>
  The HTTP/1 transport, \<open>transport/http1_transport.go\<close>: round trips over pooled connections, the
  bodies that give connections back, and the upkeep of the pool. A connection is a number into a
  store, as the code shares connections by pointer. Two fields of a connection are kept for the
  specification: the key it was dialled for and the proxy it was dialled through. The outcome of
  \<open>createConn\<close>, which the theory \<open>Http1Conn\<close> models, and of reading a response are arguments.
  Connections that the code closes in goroutines are out of the table by then and are closed at once.
\<close>

section \<open>State\<close>

record h1conn =
  hc_host :: string
  hc_port :: string
  hc_route :: string
  hc_proxy :: "ProxyConfig option"
  hc_createdAt :: time
  hc_lastUsedAt :: time
  hc_useCount :: nat
  hc_closed :: bool
  hc_writer :: bufw

record h1_transport =
  ht_cfg :: h1_config
  ht_idle :: "(string, nat list) gomap"
  ht_conns :: "nat \<Rightarrow> h1conn"
  ht_next :: nat
  ht_closed :: bool

definition maxIdleConnsPerHost :: nat where
  "maxIdleConnsPerHost = 6"

definition maxIdleTime :: duration where
  "maxIdleTime = 90 * second"

definition no_conn :: h1conn where
  "no_conn =
     \<lparr>hc_host = '''', hc_port = '''', hc_route = '''', hc_proxy = None, hc_createdAt = 0, hc_lastUsedAt = 0,
      hc_useCount = 0, hc_closed = False, hc_writer = fresh_writer\<rparr>"

definition NewHTTP1Transport :: "h1_config \<Rightarrow> h1_transport" where
  "NewHTTP1Transport cfg = \<lparr>ht_cfg = cfg, ht_idle = [], ht_conns = (\<lambda>i. no_conn), ht_next = 0, ht_closed = False\<rparr>"

definition set_conn :: "nat \<Rightarrow> h1conn \<Rightarrow> h1_transport \<Rightarrow> h1_transport" where
  "set_conn c v t = t\<lparr>ht_conns := (ht_conns t)(c := v)\<rparr>"

text \<open>\<open>http1Conn.close\<close>, for one connection and for several.\<close>

definition close_conn :: "nat \<Rightarrow> h1_transport \<Rightarrow> h1_transport" where
  "close_conn c t = set_conn c ((ht_conns t c)\<lparr>hc_closed := True\<rparr>) t"

definition close_all :: "nat list \<Rightarrow> h1_transport \<Rightarrow> h1_transport" where
  "close_all cs t = fold close_conn cs t"

section \<open>The pool\<close>

definition idle_for :: "string \<Rightarrow> h1_transport \<Rightarrow> nat list" where
  "idle_for key t = (case map_of (ht_idle t) key of None \<Rightarrow> [] | Some cs \<Rightarrow> cs)"

definition set_idle :: "string \<Rightarrow> nat list \<Rightarrow> h1_transport \<Rightarrow> h1_transport" where
  "set_idle key cs t = t\<lparr>ht_idle := AList.update key cs (ht_idle t)\<rparr>"

definition expired :: "time \<Rightarrow> h1_transport \<Rightarrow> nat \<Rightarrow> bool" where
  "expired now t c \<longleftrightarrow> now - hc_lastUsedAt (ht_conns t c) > maxIdleTime"

definition getIdleConn :: "time \<Rightarrow> string \<Rightarrow> h1_transport \<Rightarrow> nat option \<times> h1_transport" where
  "getIdleConn now key t =
     (if idle_for key t = [] then (None, t)
      else let c = last (idle_for key t);
               t1 = set_idle key (butlast (idle_for key t)) t in
           if expired now t1 c then (None, close_conn c t1) else (Some c, t1))"

definition putIdleConn :: "time \<Rightarrow> string \<Rightarrow> nat \<Rightarrow> h1_transport \<Rightarrow> h1_transport" where
  "putIdleConn now key c t =
     (if ht_closed t then close_conn c t
      else
        let cs = idle_for key t;
            (cs1, t1) = (if length cs \<ge> maxIdleConnsPerHost then (tl cs, close_conn (hd cs) t) else (cs, t));
            t2 = set_conn c ((ht_conns t1 c)\<lparr>hc_lastUsedAt := now\<rparr>) t1
        in set_idle key (cs1 @ [c]) t2)"

text \<open>\<open>cleanup\<close>: what stays of every key, and the connections to close.\<close>

definition cleanup_idle :: "time \<Rightarrow> h1_transport \<Rightarrow> (string, nat list) gomap" where
  "cleanup_idle now t =
     filter (\<lambda>(k, cs). cs \<noteq> []) (map (\<lambda>(k, cs). (k, filter (\<lambda>c. \<not> expired now t c) cs)) (ht_idle t))"

definition all_idle :: "h1_transport \<Rightarrow> nat list" where
  "all_idle t = concat (map snd (ht_idle t))"

definition h1_cleanup :: "time \<Rightarrow> h1_transport \<Rightarrow> h1_transport" where
  "h1_cleanup now t = (close_all (filter (expired now t) (all_idle t)) t)\<lparr>ht_idle := cleanup_idle now t\<rparr>"

definition drop_idle :: "h1_transport \<Rightarrow> h1_transport" where
  "drop_idle t = (close_all (all_idle t) t)\<lparr>ht_idle := []\<rparr>"

definition h1_Close :: "h1_transport \<Rightarrow> h1_transport" where
  "h1_Close t = (if ht_closed t then t else drop_idle (t\<lparr>ht_closed := True\<rparr>))"

definition h1_Refresh :: "h1_transport \<Rightarrow> h1_transport" where
  "h1_Refresh t = (if ht_closed t then t else drop_idle t)"

definition h1_SetProxy :: "ProxyConfig option \<Rightarrow> h1_transport \<Rightarrow> h1_transport" where
  "h1_SetProxy px t = (drop_idle t)\<lparr>ht_cfg := (ht_cfg t)\<lparr>h1_proxy := px\<rparr>\<rparr>"

definition h1_GetProxy :: "h1_transport \<Rightarrow> ProxyConfig option" where
  "h1_GetProxy t = h1_proxy (ht_cfg t)"

section \<open>Exchanges\<close>

record h1_resp =
  hr_Header :: header
  hr_ProtoMajor :: int
  hr_ProtoMinor :: int

definition shouldKeepAlive :: "wire_request \<Rightarrow> h1_resp \<Rightarrow> bool" where
  "shouldKeepAlive req resp =
     (if equal_fold (first_value (hr_Header resp) ''Connection'') ''close'' then False
      else if equal_fold (first_value (wr_Header req) ''Connection'') ''close'' then False
      else if hr_ProtoMajor resp = 1 \<and> hr_ProtoMinor resp \<ge> 1 then True
      else to_lower (first_value (hr_Header resp) ''Connection'') = ''keep-alive'')"

text \<open>The request as it is after some of its body has been read.\<close>

definition with_reads :: "body_reads \<Rightarrow> wire_request \<Rightarrow> wire_request" where
  "with_reads rs req = (case wr_Body req of ReaderBody _ \<Rightarrow> req\<lparr>wr_Body := ReaderBody rs\<rparr> | _ \<Rightarrow> req)"

definition doRequest ::
  "time \<Rightarrow> string + h1_resp \<Rightarrow> nat \<Rightarrow> wire_request \<Rightarrow> h1_transport \<Rightarrow> (string + h1_resp) \<times> wire_request \<times> h1_transport" where
  "doRequest now answer c req t =
     (if hc_closed (ht_conns t c) then (Inl ''connection closed'', req, t)
      else
        let (err, w, rs) = writeRequest req (hc_writer (ht_conns t c));
            v = (ht_conns t c)\<lparr>hc_lastUsedAt := now, hc_useCount := hc_useCount (ht_conns t c) + 1, hc_writer := w\<rparr>;
            t1 = set_conn c v t
        in (case err of Some e \<Rightarrow> Inl e | None \<Rightarrow> answer, with_reads rs req, t1))"

text \<open>The body of a response: it gives the connection back once, when it has been read to its end.\<close>

record pooled_body =
  pb_conn :: nat
  pb_key :: string
  pb_keepAlive :: bool
  pb_done :: bool

definition handleClose :: "time \<Rightarrow> pooled_body \<Rightarrow> h1_transport \<Rightarrow> pooled_body \<times> h1_transport" where
  "handleClose now b t =
     (if pb_done b then (b, t)
      else (b\<lparr>pb_done := True\<rparr>,
            if pb_keepAlive b then putIdleConn now (pb_key b) (pb_conn b) t else close_conn (pb_conn b) t))"

text \<open>\<open>Read\<close> with what the inner reader reported, and \<open>Close\<close> with the inner result.\<close>

definition body_Read :: "time \<Rightarrow> read_end \<Rightarrow> pooled_body \<Rightarrow> h1_transport \<Rightarrow> pooled_body \<times> h1_transport" where
  "body_Read now e b t = (if e = ReadEOF then handleClose now b t else (b, t))"

definition body_Close :: "time \<Rightarrow> string option \<Rightarrow> pooled_body \<Rightarrow> h1_transport \<Rightarrow> pooled_body \<times> h1_transport" where
  "body_Close now err b t =
     (case err of
        None \<Rightarrow> handleClose now b t
      | Some e \<Rightarrow> if pb_done b then (b, t) else (b\<lparr>pb_done := True\<rparr>, close_conn (pb_conn b) t))"

section \<open>\<open>RoundTrip\<close>\<close>

definition request_port :: "URL \<Rightarrow> string" where
  "request_port u = (if Port u = '''' then (if u_Scheme u = ''https'' then ''443'' else ''80'') else Port u)"

definition conn_key :: "string \<Rightarrow> string \<Rightarrow> string \<Rightarrow> string" where
  "conn_key scheme host port = scheme @ ''://'' @ host @ '':'' @ port"

text \<open>A new connection in the store, for the outcome of \<open>createConn\<close>.\<close>

definition add_conn :: "time \<Rightarrow> string \<Rightarrow> string \<Rightarrow> string \<Rightarrow> bufw \<Rightarrow> h1_transport \<Rightarrow> nat \<times> h1_transport" where
  "add_conn now key host port w t =
     (ht_next t,
      (set_conn (ht_next t)
         \<lparr>hc_host = host, hc_port = port, hc_route = key, hc_proxy = h1_proxy (ht_cfg t), hc_createdAt = now,
          hc_lastUsedAt = now, hc_useCount = 0, hc_closed = False, hc_writer = w\<rparr> t)\<lparr>ht_next := ht_next t + 1\<rparr>)"

text \<open>What one call meets: the answers on a pooled and on a new connection, and the outcome of dialling.\<close>

record h1_answers =
  an_now :: time
  an_pooled :: "string + h1_resp"
  an_dial :: "go_error + bufw"
  an_new :: "string + h1_resp"

definition closed_error :: "string \<Rightarrow> string \<Rightarrow> go_error" where
  "closed_error op host = TransportError op host '''' ''h1'' (Some (Category category.ErrClosed)) (Some category.ErrClosed) False"

definition new_body :: "nat \<Rightarrow> string \<Rightarrow> wire_request \<Rightarrow> h1_resp \<Rightarrow> pooled_body" where
  "new_body c key req resp = \<lparr>pb_conn = c, pb_key = key, pb_keepAlive = shouldKeepAlive req resp, pb_done = False\<rparr>"

type_synonym h1_reply = "(go_error + h1_resp \<times> pooled_body) \<times> h1_transport"

text \<open>The rest of \<open>RoundTrip\<close>, over a new connection.\<close>

definition fresh_trip :: "h1_answers \<Rightarrow> string \<Rightarrow> string \<Rightarrow> string \<Rightarrow> wire_request \<Rightarrow> h1_transport \<Rightarrow> h1_reply" where
  "fresh_trip a key host port req t =
     (case an_dial a of
        Inl e \<Rightarrow> (Inl e, t)
      | Inr w \<Rightarrow>
          let (c, t1) = add_conn (an_now a) key host port w t in
          (case doRequest (an_now a) (an_new a) c req t1 of
             (Inl e, _, t2) \<Rightarrow> (Inl (WrapError ''request'' host port ''h1'' (go_error.TextError e)), close_conn c t2)
           | (Inr resp, req1, t2) \<Rightarrow> (Inr (resp, new_body c key req1 resp), t2)))"

definition h1_RoundTrip :: "h1_answers \<Rightarrow> wire_request \<Rightarrow> h1_transport \<Rightarrow> h1_reply" where
  "h1_RoundTrip a req t =
     (let host = Hostname (wr_URL req);
          port = request_port (wr_URL req);
          key = conn_key (u_Scheme (wr_URL req)) (getConnectHost (ht_cfg t) host) port in
      if ht_closed t then (Inl (closed_error ''roundtrip'' host), t)
      else
        case getIdleConn (an_now a) key t of
          (None, t1) \<Rightarrow> fresh_trip a key host port req t1
        | (Some c, t1) \<Rightarrow>
            (case doRequest (an_now a) (an_pooled a) c req t1 of
               (Inr resp, req1, t2) \<Rightarrow> (Inr (resp, new_body c key req1 resp), t2)
             | (Inl e, req1, t2) \<Rightarrow> fresh_trip a key host port req1 (close_conn c t2)))"

text \<open>
  \<open>StreamRoundTrip\<close> and \<open>RoundTripWithTLSConn\<close>: a connection of their own, which the body's \<open>Close\<close>
  closes and the pool never sees.
\<close>

type_synonym stream_reply = "(go_error + h1_resp \<times> nat) \<times> h1_transport"

definition own_trip :: "string \<Rightarrow> string \<Rightarrow> string \<Rightarrow> time \<Rightarrow> string + h1_resp \<Rightarrow> nat \<Rightarrow> wire_request \<Rightarrow> h1_transport \<Rightarrow> stream_reply" where
  "own_trip op host port now answer c req t =
     (case doRequest now answer c req t of
        (Inl e, _, t1) \<Rightarrow> (Inl (WrapError op host port ''h1'' (go_error.TextError e)), close_conn c t1)
      | (Inr resp, _, t1) \<Rightarrow> (Inr (resp, c), t1))"

definition StreamRoundTrip :: "h1_answers \<Rightarrow> wire_request \<Rightarrow> h1_transport \<Rightarrow> stream_reply" where
  "StreamRoundTrip a req t =
     (let host = Hostname (wr_URL req); port = request_port (wr_URL req) in
      if ht_closed t then (Inl (closed_error ''stream_roundtrip'' host), t)
      else case an_dial a of
          Inl e \<Rightarrow> (Inl e, t)
        | Inr w \<Rightarrow>
            let (c, t1) = add_conn (an_now a)
                  (conn_key (u_Scheme (wr_URL req)) (getConnectHost (ht_cfg t) host) port) host port w t
            in own_trip ''stream_request'' host port (an_now a) (an_new a) c req t1)"

text \<open>The TLS connection handed over by the caller becomes a new connection; \<open>w\<close> is its writer.\<close>

definition RoundTripWithTLSConn ::
  "time \<Rightarrow> string + h1_resp \<Rightarrow> bufw \<Rightarrow> string \<Rightarrow> string \<Rightarrow> wire_request \<Rightarrow> h1_transport \<Rightarrow> stream_reply" where
  "RoundTripWithTLSConn now answer w host port req t =
     (if ht_closed t then (Inl (closed_error ''roundtrip_with_conn'' host), t)
      else let (c, t1) = add_conn now (conn_key ''https'' host port) host port w t
           in own_trip ''request'' host port now answer c req t1)"

definition stream_Close :: "nat \<Rightarrow> h1_transport \<Rightarrow> h1_transport" where
  "stream_Close c t = close_conn c t"

text \<open>\<open>Stats\<close>: for every key the number of idle connections, their uses, the oldest and the newest time.\<close>

definition h1_Stats :: "h1_transport \<Rightarrow> (string \<times> nat \<times> nat \<times> time option \<times> time option) list" where
  "h1_Stats t =
     map (\<lambda>(k, cs).
       (k, length cs, sum_list (map (\<lambda>c. hc_useCount (ht_conns t c)) cs),
        (if cs = [] then None else Some (Min (set (map (\<lambda>c. hc_createdAt (ht_conns t c)) cs)))),
        (if cs = [] then None else Some (Max (set (map (\<lambda>c. hc_lastUsedAt (ht_conns t c)) cs)))))) (ht_idle t)"

section \<open>Concurrent calls\<close>

text \<open>
  Many calls run at once and hold the locks only inside the operations above. The state below adds
  what is held outside the pool: the connections of running calls with their keys, and the bodies
  handed out. A call is a sequence of the steps, which those of other calls may come between. \<open>Close\<close>
  is two steps, as it sets the flag under one lock and empties the pool under another; \<open>Refresh\<close> may
  pass its check before and empty the pool after. The table of \<open>SetConnectTo\<close> is filled before the
  first request, in \<open>client.NewClient\<close>, and stays as it is.
\<close>

record h1_state =
  st_t :: h1_transport
  st_flight :: "(nat \<times> string) list"
  st_bodies :: "pooled_body list"
  st_draining :: bool

definition h1_start :: "h1_config \<Rightarrow> h1_state" where
  "h1_start cfg = \<lparr>st_t = NewHTTP1Transport cfg, st_flight = [], st_bodies = [], st_draining = False\<rparr>"

inductive h1_step :: "h1_state \<Rightarrow> h1_state \<Rightarrow> bool" where
  take: "getIdleConn now key (st_t s) = (Some c, t) \<Longrightarrow>
    h1_step s (s\<lparr>st_t := t, st_flight := (c, key) # st_flight s\<rparr>)"
| miss: "getIdleConn now key (st_t s) = (None, t) \<Longrightarrow> h1_step s (s\<lparr>st_t := t\<rparr>)"
| dial: "key = conn_key scheme (getConnectHost (ht_cfg (st_t s)) host) port \<Longrightarrow>
    CHR '':'' \<notin> set scheme \<Longrightarrow> CHR '':'' \<notin> set port \<Longrightarrow>
    add_conn now key host port w (st_t s) = (c, t) \<Longrightarrow>
    h1_step s (s\<lparr>st_t := t, st_flight := (c, key) # st_flight s\<rparr>)"
| exchange: "(c, key) \<in> set (st_flight s) \<Longrightarrow> doRequest now answer c req (st_t s) = (res, req1, t) \<Longrightarrow>
    h1_step s (s\<lparr>st_t := t\<rparr>)"
| give_up: "(c, key) \<in> set (st_flight s) \<Longrightarrow>
    h1_step s (s\<lparr>st_t := close_conn c (st_t s), st_flight := remove1 (c, key) (st_flight s)\<rparr>)"
| respond: "(c, key) \<in> set (st_flight s) \<Longrightarrow>
    h1_step s (s\<lparr>st_flight := remove1 (c, key) (st_flight s), st_bodies := new_body c key req resp # st_bodies s\<rparr>)"
| read: "i < length (st_bodies s) \<Longrightarrow> body_Read now e (st_bodies s ! i) (st_t s) = (b, t) \<Longrightarrow>
    h1_step s (s\<lparr>st_t := t, st_bodies := (st_bodies s)[i := b]\<rparr>)"
| close_body: "i < length (st_bodies s) \<Longrightarrow> body_Close now err (st_bodies s ! i) (st_t s) = (b, t) \<Longrightarrow>
    h1_step s (s\<lparr>st_t := t, st_bodies := (st_bodies s)[i := b]\<rparr>)"
| cleanup: "h1_step s (s\<lparr>st_t := h1_cleanup now (st_t s)\<rparr>)"
| close: "\<not> ht_closed (st_t s) \<Longrightarrow> h1_step s (s\<lparr>st_t := (st_t s)\<lparr>ht_closed := True\<rparr>, st_draining := True\<rparr>)"
| drain: "st_draining s \<Longrightarrow> h1_step s (s\<lparr>st_t := drop_idle (st_t s), st_draining := False\<rparr>)"
| refresh: "h1_step s (s\<lparr>st_t := drop_idle (st_t s)\<rparr>)"
| set_proxy: "h1_step s (s\<lparr>st_t := h1_SetProxy px (st_t s)\<rparr>)"

text \<open>
  Every connection that is in use or may be used again, with the key of its holder: a place in the
  pool, a running call, or a body that has not ended.
\<close>

definition idle_keyed :: "(string, nat list) gomap \<Rightarrow> (nat \<times> string) list" where
  "idle_keyed m = concat (map (\<lambda>(k, cs). map (\<lambda>c. (c, k)) cs) m)"

definition body_keyed :: "pooled_body list \<Rightarrow> (nat \<times> string) list" where
  "body_keyed bs = map (\<lambda>b. (pb_conn b, pb_key b)) (filter (\<lambda>b. \<not> pb_done b) bs)"

definition h1_held :: "h1_state \<Rightarrow> (nat \<times> string) list" where
  "h1_held s = idle_keyed (ht_idle (st_t s)) @ st_flight s @ body_keyed (st_bodies s)"

definition h1_usable :: "h1_transport \<Rightarrow> nat \<times> string \<Rightarrow> bool" where
  "h1_usable t p \<longleftrightarrow> fst p < ht_next t \<and> \<not> hc_closed (ht_conns t (fst p)) \<and> hc_route (ht_conns t (fst p)) = snd p"

definition held_ok :: "(nat \<times> string) list \<Rightarrow> h1_transport \<Rightarrow> bool" where
  "held_ok ps t \<longleftrightarrow> distinct (map fst ps) \<and> (\<forall>p \<in> set ps. h1_usable t p)"

definition h1_pool_ok :: "h1_transport \<Rightarrow> bool" where
  "h1_pool_ok t \<longleftrightarrow>
     map_wf (ht_idle t) \<and> (\<forall>(k, cs) \<in> set (ht_idle t). length cs \<le> maxIdleConnsPerHost)"

definition route_ok :: "h1_config \<Rightarrow> h1conn \<Rightarrow> bool" where
  "route_ok cfg v \<longleftrightarrow>
     (\<exists>scheme. CHR '':'' \<notin> set scheme \<and> CHR '':'' \<notin> set (hc_port v) \<and>
        hc_route v = conn_key scheme (getConnectHost cfg (hc_host v)) (hc_port v))"

definition h1_routes_ok :: "h1_transport \<Rightarrow> bool" where
  "h1_routes_ok t \<longleftrightarrow> (\<forall>c < ht_next t. route_ok (ht_cfg t) (ht_conns t c))"

definition held_inv :: "h1_state \<Rightarrow> bool" where
  "held_inv s \<longleftrightarrow> h1_pool_ok (st_t s) \<and> held_ok (h1_held s) (st_t s)"

definition drained :: "h1_state \<Rightarrow> bool" where
  "drained s \<longleftrightarrow> (ht_closed (st_t s) \<and> \<not> st_draining s \<longrightarrow> ht_idle (st_t s) = [])"

definition h1_inv :: "h1_state \<Rightarrow> bool" where
  "h1_inv s \<longleftrightarrow> held_inv s \<and> h1_routes_ok (st_t s) \<and> drained s"

section \<open>Connections have one holder\<close>

lemma held_ok_perm: "mset ps = mset qs \<Longrightarrow> held_ok ps t \<longleftrightarrow> held_ok qs t"
proof -
  assume m: "mset ps = mset qs"
  then have "mset (map fst ps) = mset (map fst qs)" by simp
  then have "distinct (map fst ps) \<longleftrightarrow> distinct (map fst qs)" by (rule mset_eq_imp_distinct_iff)
  then show ?thesis using mset_eq_setD [OF m] by (simp add: held_ok_def)
qed

lemma held_ok_Cons:
  "held_ok (p # ps) t \<longleftrightarrow> fst p \<notin> fst ` set ps \<and> h1_usable t p \<and> held_ok ps t"
  by (auto simp: held_ok_def)

lemma held_ok_drop: "held_ok (ps @ qs) t \<Longrightarrow> held_ok qs t"
  by (simp add: held_ok_def)

text \<open>Operations that change only connections outside, or only fields that do not matter.\<close>

lemma held_ok_same:
  "held_ok ps t \<Longrightarrow> (\<And>p. p \<in> set ps \<Longrightarrow> h1_usable t p \<Longrightarrow> h1_usable t' p) \<Longrightarrow> held_ok ps t'"
  by (simp add: held_ok_def)

lemma usable_close: "h1_usable t p \<Longrightarrow> fst p \<noteq> c \<Longrightarrow> h1_usable (close_conn c t) p"
  by (simp add: h1_usable_def close_conn_def set_conn_def)

lemma held_ok_close:
  assumes "held_ok ((c, k) # ps) t"
  shows "held_ok ps (close_conn c t)"
proof (rule held_ok_same)
  show "held_ok ps t" using assms by (simp add: held_ok_Cons)
  fix p assume "p \<in> set ps" "h1_usable t p"
  then show "h1_usable (close_conn c t) p"
    using assms by (intro usable_close) (auto simp: held_ok_Cons)
qed

lemma usable_close_all: "h1_usable t p \<Longrightarrow> fst p \<notin> set cs \<Longrightarrow> h1_usable (close_all cs t) p"
  unfolding close_all_def by (induction cs arbitrary: t) (auto intro: usable_close)

lemma usable_set:
  "h1_usable t p \<Longrightarrow> hc_closed v = hc_closed (ht_conns t c) \<Longrightarrow> hc_route v = hc_route (ht_conns t c) \<Longrightarrow> h1_usable (set_conn c v t) p"
  by (cases "fst p = c") (auto simp: h1_usable_def set_conn_def)

lemma close_simps [simp]:
  "ht_idle (close_conn c t) = ht_idle t" "ht_closed (close_conn c t) = ht_closed t" "ht_next (close_conn c t) = ht_next t"
  "ht_idle (set_conn c v t) = ht_idle t" "ht_closed (set_conn c v t) = ht_closed t" "ht_next (set_conn c v t) = ht_next t"
  "ht_cfg (close_conn c t) = ht_cfg t" "ht_cfg (set_conn c v t) = ht_cfg t"
  by (simp_all add: close_conn_def set_conn_def)

lemma close_all_simps [simp]:
  "ht_idle (close_all cs t) = ht_idle t" "ht_closed (close_all cs t) = ht_closed t" "ht_next (close_all cs t) = ht_next t"
  "ht_cfg (close_all cs t) = ht_cfg t"
  unfolding close_all_def by (induction cs arbitrary: t) simp_all

lemma set_idle_simps [simp]:
  "ht_conns (set_idle k cs t) = ht_conns t" "ht_next (set_idle k cs t) = ht_next t" "ht_closed (set_idle k cs t) = ht_closed t"
  "ht_idle (set_idle k cs t) = AList.update k cs (ht_idle t)" "h1_usable (set_idle k cs t) p = h1_usable t p"
  by (simp_all add: set_idle_def h1_usable_def)

lemma usable_idle [simp]: "h1_usable (t\<lparr>ht_idle := m\<rparr>) p = h1_usable t p" "h1_usable (t\<lparr>ht_cfg := c\<rparr>) p = h1_usable t p"
  "h1_usable (t\<lparr>ht_closed := b\<rparr>) p = h1_usable t p"
  by (simp_all add: h1_usable_def)

lemma idle_keyed_update:
  "map_wf m \<Longrightarrow>
   mset (idle_keyed (AList.update k cs m)) + mset (map (\<lambda>c. (c, k)) (case map_of m k of None \<Rightarrow> [] | Some old \<Rightarrow> old)) =
   mset (idle_keyed m) + mset (map (\<lambda>c. (c, k)) cs)"
proof (induction m)
  case (Cons kv m)
  obtain x old where kv: "kv = (x, old)" by (cases kv)
  show ?case
  proof (cases "x = k")
    case True
    then show ?thesis by (simp add: kv idle_keyed_def)
  next
    case False
    with Cons kv show ?thesis by (simp add: idle_keyed_def)
  qed
qed (simp add: idle_keyed_def)

lemma idle_keyed_set:
  assumes "map_wf (ht_idle t)"
  shows "mset (idle_keyed (AList.update k cs (ht_idle t))) + mset (map (\<lambda>c. (c, k)) (idle_for k t)) =
    mset (idle_keyed (ht_idle t)) + mset (map (\<lambda>c. (c, k)) cs)"
  using idle_keyed_update [OF assms, of k cs] by (simp add: idle_for_def)

lemma pool_ok_update:
  "h1_pool_ok t \<Longrightarrow> length cs \<le> maxIdleConnsPerHost \<Longrightarrow> h1_pool_ok (set_idle k cs t)"
  by (auto simp: h1_pool_ok_def Ball_def map_wf_in split: if_splits)

lemma idle_for_bound: "h1_pool_ok t \<Longrightarrow> length (idle_for k t) \<le> maxIdleConnsPerHost"
  by (auto simp: h1_pool_ok_def idle_for_def split: option.splits dest: map_of_SomeD)

text \<open>The operations of the pool, next to connections \<open>ps\<close> that others hold.\<close>

lemma getIdleConn_ok:
  assumes "getIdleConn now key t = (r, t')" "h1_pool_ok t" "held_ok (idle_keyed (ht_idle t) @ ps) t"
  shows "h1_pool_ok t' \<and> (case r of None \<Rightarrow> held_ok (idle_keyed (ht_idle t') @ ps) t'
    | Some c \<Rightarrow> held_ok (idle_keyed (ht_idle t') @ (c, key) # ps) t')"
proof (cases "idle_for key t = []")
  case True
  with assms show ?thesis by (auto simp: getIdleConn_def)
next
  case False
  let ?cs = "idle_for key t" and ?t1 = "set_idle key (butlast (idle_for key t)) t"
  have wf: "map_wf (ht_idle t)" using assms(2) by (simp add: h1_pool_ok_def)
  have p1: "h1_pool_ok ?t1"
    by (rule pool_ok_update [OF assms(2)]) (use idle_for_bound [OF assms(2), of key] in simp)
  have "mset (map (\<lambda>c. (c, key)) ?cs) = add_mset (last ?cs, key) (mset (map (\<lambda>c. (c, key)) (butlast ?cs)))"
    using False by (subst append_butlast_last_id [symmetric, OF False]) (simp del: append_butlast_last_id)
  then have "add_mset (last ?cs, key) (mset (idle_keyed (ht_idle ?t1))) = mset (idle_keyed (ht_idle t))"
    using idle_keyed_set [OF wf, of key "butlast ?cs"] by simp
  then have "mset (idle_keyed (ht_idle t) @ ps) = mset ((last ?cs, key) # idle_keyed (ht_idle ?t1) @ ps)" by simp
  from held_ok_perm [OF this] assms(3) have h: "held_ok ((last ?cs, key) # idle_keyed (ht_idle ?t1) @ ps) t" by blast
  show ?thesis
  proof (cases "expired now ?t1 (last ?cs)")
    case True
    then have r: "r = None" "t' = close_conn (last ?cs) ?t1" using assms(1) False by (auto simp: getIdleConn_def Let_def)
    have "held_ok ((last ?cs, key) # idle_keyed (ht_idle ?t1) @ ps) ?t1" using h by (simp add: held_ok_def)
    from held_ok_close [OF this] r p1 show ?thesis by (simp add: h1_pool_ok_def)
  next
    case False
    then have r: "r = Some (last ?cs)" "t' = ?t1" using assms(1) \<open>?cs \<noteq> []\<close> by (auto simp: getIdleConn_def Let_def)
    have "held_ok (idle_keyed (ht_idle ?t1) @ (last ?cs, key) # ps) t"
      using h held_ok_perm [of "idle_keyed (ht_idle ?t1) @ (last ?cs, key) # ps" "(last ?cs, key) # idle_keyed (ht_idle ?t1) @ ps"]
      by simp
    then have "held_ok (idle_keyed (ht_idle ?t1) @ (last ?cs, key) # ps) ?t1" by (simp add: held_ok_def)
    with r p1 show ?thesis by simp
  qed
qed

lemma close_held_ok:
  assumes "h1_pool_ok t" "held_ok (idle_keyed (ht_idle t) @ (c, key) # ps) t"
  shows "h1_pool_ok (close_conn c t) \<and> held_ok (idle_keyed (ht_idle (close_conn c t)) @ ps) (close_conn c t)"
proof -
  have "held_ok ((c, key) # idle_keyed (ht_idle t) @ ps) t"
    using assms(2) held_ok_perm [of "idle_keyed (ht_idle t) @ (c, key) # ps" "(c, key) # idle_keyed (ht_idle t) @ ps"] by simp
  from held_ok_close [OF this] assms(1) show ?thesis by (simp add: h1_pool_ok_def)
qed

lemma putIdleConn_ok:
  assumes "h1_pool_ok t" "held_ok (idle_keyed (ht_idle t) @ (c, key) # ps) t"
  shows "h1_pool_ok (putIdleConn now key c t) \<and>
    held_ok (idle_keyed (ht_idle (putIdleConn now key c t)) @ ps) (putIdleConn now key c t)"
proof (cases "ht_closed t")
  case True
  with close_held_ok [OF assms] show ?thesis by (simp add: putIdleConn_def)
next
  case False
  let ?cs = "idle_for key t"
  let ?full = "length ?cs \<ge> maxIdleConnsPerHost"
  define out where "out = (if ?full then [hd ?cs] else [])"
  define cs1 where "cs1 = (if ?full then tl ?cs else ?cs)"
  define t1 where "t1 = (if ?full then close_conn (hd ?cs) t else t)"
  define t2 where "t2 = set_conn c ((ht_conns t1 c)\<lparr>hc_lastUsedAt := now\<rparr>) t1"
  have put: "putIdleConn now key c t = set_idle key (cs1 @ [c]) t2"
    using False by (simp add: putIdleConn_def t2_def t1_def cs1_def Let_def)
  have ne: "?full \<Longrightarrow> ?cs \<noteq> []" by (auto simp: maxIdleConnsPerHost_def)
  have cs: "?cs = out @ cs1" using ne by (auto simp: out_def cs1_def)
  have wf: "map_wf (ht_idle t)" using assms(1) by (simp add: h1_pool_ok_def)
  have idle2: "ht_idle t2 = ht_idle t" "ht_closed t2 = ht_closed t" by (simp_all add: t2_def t1_def)
  have "mset (idle_keyed (AList.update key (cs1 @ [c]) (ht_idle t))) + mset (map (\<lambda>c. (c, key)) out) =
      add_mset (c, key) (mset (idle_keyed (ht_idle t)))"
    using idle_keyed_set [OF wf, of key "cs1 @ [c]"] unfolding cs by simp
  then have "mset (idle_keyed (ht_idle t) @ (c, key) # ps) =
      mset (map (\<lambda>c. (c, key)) out @ idle_keyed (AList.update key (cs1 @ [c]) (ht_idle t)) @ ps)"
    by (simp add: union_commute flip: union_assoc)
  from held_ok_perm [OF this] assms(2)
  have h: "held_ok (map (\<lambda>c. (c, key)) out @ idle_keyed (AList.update key (cs1 @ [c]) (ht_idle t)) @ ps) t" by blast
  have "held_ok (idle_keyed (AList.update key (cs1 @ [c]) (ht_idle t)) @ ps) t1"
    using h by (auto simp: t1_def out_def intro: held_ok_close)
  then have "held_ok (idle_keyed (AList.update key (cs1 @ [c]) (ht_idle t)) @ ps) t2"
    by (rule held_ok_same) (simp add: t2_def usable_set)
  moreover have "length cs1 < maxIdleConnsPerHost"
    using idle_for_bound [OF assms(1), of key] ne by (auto simp: cs1_def maxIdleConnsPerHost_def)
  moreover have "h1_pool_ok t2" using assms(1) idle2 by (simp add: h1_pool_ok_def)
  ultimately show ?thesis
    using pool_ok_update [of t2 "cs1 @ [c]" key] False idle2 by (simp add: put held_ok_def)
qed

lemma drop_idle_ok:
  assumes "h1_pool_ok t" "held_ok (idle_keyed (ht_idle t) @ ps) t"
  shows "h1_pool_ok (drop_idle t) \<and> held_ok (idle_keyed (ht_idle (drop_idle t)) @ ps) (drop_idle t)"
proof -
  have fst: "map fst (idle_keyed m) = concat (map snd m)" for m
    by (induction m) (auto simp: idle_keyed_def comp_def)
  have "held_ok ps (close_all (all_idle t) t)"
  proof (rule held_ok_same)
    show "held_ok ps t" using assms(2) by (rule held_ok_drop)
    fix p assume "p \<in> set ps" "h1_usable t p"
    moreover have "fst p \<notin> set (all_idle t)"
      using assms(2) \<open>p \<in> set ps\<close> fst [of "ht_idle t"] by (auto simp: held_ok_def all_idle_def)
    ultimately show "h1_usable (close_all (all_idle t) t) p" using usable_close_all by blast
  qed
  with assms(1) show ?thesis by (simp add: drop_idle_def h1_pool_ok_def held_ok_def idle_keyed_def)
qed

lemma cleanup_ok:
  assumes "h1_pool_ok t" "held_ok (idle_keyed (ht_idle t) @ ps) t"
  shows "h1_pool_ok (h1_cleanup now t) \<and> held_ok (idle_keyed (ht_idle (h1_cleanup now t)) @ ps) (h1_cleanup now t)"
proof -
  let ?keep = "\<lambda>c. \<not> expired now t c"
  let ?gone = "filter (expired now t) (all_idle t)"
  have keyed: "idle_keyed (filter (\<lambda>(k, cs). cs \<noteq> []) (map (\<lambda>(k, cs). (k, filter ?keep cs)) m)) =
      filter (\<lambda>p. ?keep (fst p)) (idle_keyed m)" for m
    by (induction m) (auto simp: idle_keyed_def filter_map comp_def)
  let ?new = "idle_keyed (cleanup_idle now t)"
  have new: "?new = filter (\<lambda>p. ?keep (fst p)) (idle_keyed (ht_idle t))" by (simp add: cleanup_idle_def keyed)
  have all: "set (all_idle t) = fst ` set (idle_keyed (ht_idle t))"
    by (force simp: all_idle_def idle_keyed_def)
  have d: "distinct (map fst (idle_keyed (ht_idle t)))" "distinct (map fst ps)"
    "fst ` set (idle_keyed (ht_idle t)) \<inter> fst ` set ps = {}"
    using assms(2) by (auto simp: held_ok_def)
  have "distinct (map fst (filter P qs))" if "distinct (map fst qs)" for P and qs :: "(nat \<times> string) list"
    using that by (induction qs) auto
  then have "held_ok (?new @ ps) t" using assms(2) d by (auto simp: new held_ok_def)
  then have h: "held_ok (?new @ ps) (close_all ?gone t)"
  proof (rule held_ok_same)
    fix p assume p: "p \<in> set (?new @ ps)" "h1_usable t p"
    have "fst p \<notin> set ?gone"
    proof (cases "p \<in> set ?new")
      case True
      then show ?thesis by (simp add: new)
    next
      case False
      with p(1) d(3) all show ?thesis by auto
    qed
    with p(2) show "h1_usable (close_all ?gone t) p" by (rule usable_close_all)
  qed
  have "map_wf (cleanup_idle now t)"
    using assms(1) map_wf_map_snd [of "\<lambda>k cs. filter ?keep cs" "ht_idle t"] by (simp add: cleanup_idle_def h1_pool_ok_def)
  moreover have "\<forall>(k, cs) \<in> set (cleanup_idle now t). length cs \<le> maxIdleConnsPerHost"
    using assms(1) by (fastforce simp: cleanup_idle_def h1_pool_ok_def intro: le_trans [OF length_filter_le])
  ultimately have "h1_pool_ok (h1_cleanup now t)"
    using assms(1) by (simp add: h1_cleanup_def h1_pool_ok_def cleanup_idle_def)
  moreover have "held_ok (?new @ ps) (h1_cleanup now t)"
    using h by (simp add: h1_cleanup_def held_ok_def)
  ultimately show ?thesis by (simp add: h1_cleanup_def)
qed

lemma doRequest_ok:
  assumes "doRequest now answer c req t = (res, req1, t')" "h1_pool_ok t" "held_ok ps t"
  shows "h1_pool_ok t' \<and> held_ok ps t' \<and> ht_idle t' = ht_idle t"
proof -
  have "t' = t \<or> (\<exists>v. t' = set_conn c v t \<and> hc_closed v = hc_closed (ht_conns t c) \<and> hc_route v = hc_route (ht_conns t c))"
    using assms(1) by (auto simp: doRequest_def Let_def split: if_splits prod.splits)
  then show ?thesis using assms(2,3) by (auto simp: h1_pool_ok_def intro: held_ok_same usable_set)
qed

lemma add_conn_ok:
  assumes "add_conn now key host port w t = (c, t')" "h1_pool_ok t" "held_ok ps t"
  shows "h1_pool_ok t' \<and> held_ok ((c, key) # ps) t' \<and> ht_idle t' = ht_idle t"
proof -
  let ?v = "ht_conns t' (ht_next t)"
  have t': "c = ht_next t" "t' = (set_conn (ht_next t) ?v t)\<lparr>ht_next := ht_next t + 1\<rparr>" "\<not> hc_closed ?v" "hc_route ?v = key"
    using assms(1) by (auto simp: add_conn_def set_conn_def)
  have fresh: "c \<notin> fst ` set ps" using assms(3) t'(1) by (force simp: held_ok_def h1_usable_def)
  have "held_ok ps t'"
  proof (rule held_ok_same [OF assms(3)])
    fix p assume "p \<in> set ps" "h1_usable t p"
    with fresh t'(1) show "h1_usable t' p" by (subst t'(2)) (auto simp: h1_usable_def set_conn_def)
  qed
  moreover have "h1_usable t' (c, key)"
    using t'(3,4) unfolding h1_usable_def by (subst t'(2)) (simp add: t'(1))
  moreover have "h1_pool_ok t'" "ht_idle t' = ht_idle t" using assms(2) by (subst t'(2), simp add: h1_pool_ok_def)+
  ultimately show ?thesis using fresh by (simp add: held_ok_Cons)
qed

lemma body_keyed_update:
  assumes "i < length bs" "\<not> pb_done (bs ! i)" "b = (bs ! i)\<lparr>pb_done := True\<rparr>"
  shows "mset (body_keyed bs) = add_mset (pb_conn (bs ! i), pb_key (bs ! i)) (mset (body_keyed (bs[i := b])))"
proof -
  have "bs[i := b] = take i bs @ b # drop (Suc i) bs" using assms(1) by (rule upd_conv_take_nth_drop)
  moreover have "body_keyed bs = body_keyed (take i bs @ bs ! i # drop (Suc i) bs)"
    using id_take_nth_drop [OF assms(1)] by simp
  ultimately show ?thesis using assms(2,3) by (simp add: body_keyed_def)
qed

lemma body_end_ok:
  assumes "i < length bs" "h1_pool_ok t" "held_ok (idle_keyed (ht_idle t) @ fl @ body_keyed bs) t"
    and "(b, t') = (bs ! i, t) \<or>
      \<not> pb_done (bs ! i) \<and> b = (bs ! i)\<lparr>pb_done := True\<rparr> \<and>
      (t' = close_conn (pb_conn (bs ! i)) t \<or> t' = putIdleConn now (pb_key (bs ! i)) (pb_conn (bs ! i)) t)"
  shows "h1_pool_ok t' \<and> held_ok (idle_keyed (ht_idle t') @ fl @ body_keyed (bs[i := b])) t'"
proof (cases "(b, t') = (bs ! i, t)")
  case True
  with assms show ?thesis by simp
next
  case False
  with assms(4) have nd: "\<not> pb_done (bs ! i)" "b = (bs ! i)\<lparr>pb_done := True\<rparr>"
    and t': "t' = close_conn (pb_conn (bs ! i)) t \<or> t' = putIdleConn now (pb_key (bs ! i)) (pb_conn (bs ! i)) t"
    by auto
  let ?p = "(pb_conn (bs ! i), pb_key (bs ! i))"
  have "mset (idle_keyed (ht_idle t) @ fl @ body_keyed bs) =
      mset (idle_keyed (ht_idle t) @ ?p # fl @ body_keyed (bs[i := b]))"
    using body_keyed_update [OF assms(1) nd] by simp
  with assms(3) have h: "held_ok (idle_keyed (ht_idle t) @ ?p # fl @ body_keyed (bs[i := b])) t"
    using held_ok_perm by blast
  from t' close_held_ok [OF assms(2) h] putIdleConn_ok [OF assms(2) h] show ?thesis by auto
qed

lemma held_flight_remove:
  assumes "p \<in> set fl"
  shows "mset (xs @ fl @ ys) = mset (xs @ p # remove1 p fl @ ys)"
  using assms by simp

lemma held_invD:
  assumes "held_inv s"
  shows "h1_pool_ok (st_t s)" "held_ok (idle_keyed (ht_idle (st_t s)) @ st_flight s @ body_keyed (st_bodies s)) (st_t s)"
  using assms by (simp_all add: held_inv_def h1_held_def)

lemma step_held: "h1_step s s' \<Longrightarrow> held_inv s \<Longrightarrow> held_inv s'"
proof (induction rule: h1_step.induct)
  case (take now key s c t)
  note ok = held_invD [OF take.prems]
  with getIdleConn_ok [OF take.hyps ok] show ?case by (simp add: held_inv_def h1_held_def)
next
  case (miss now key s t)
  note ok = held_invD [OF miss.prems]
  with getIdleConn_ok [OF miss.hyps ok] show ?case by (simp add: held_inv_def h1_held_def)
next
  case (dial key scheme s host port now w c t)
  then have "h1_pool_ok (st_t s)" "held_ok (h1_held s) (st_t s)" by (auto simp: held_inv_def)
  with add_conn_ok [OF dial.hyps(4) this] have t: "h1_pool_ok t" "held_ok ((c, key) # h1_held s) t" "ht_idle t = ht_idle (st_t s)" by auto
  have "mset (idle_keyed (ht_idle t) @ ((c, key) # st_flight s) @ body_keyed (st_bodies s)) = mset ((c, key) # h1_held s)"
    by (simp add: h1_held_def t(3))
  with t held_ok_perm [OF this] show ?case by (simp add: held_inv_def h1_held_def)
next
  case (exchange c key s now answer req res req1 t)
  then have "h1_pool_ok (st_t s)" "held_ok (h1_held s) (st_t s)" by (auto simp: held_inv_def)
  with doRequest_ok [OF exchange.hyps(2) this] show ?case by (simp add: held_inv_def h1_held_def)
next
  case (give_up c key s)
  then have "h1_pool_ok (st_t s)" "held_ok (h1_held s) (st_t s)" by (auto simp: held_inv_def)
  with held_ok_perm [OF held_flight_remove [OF give_up.hyps]]
  have "held_ok (idle_keyed (ht_idle (st_t s)) @ (c, key) # remove1 (c, key) (st_flight s) @ body_keyed (st_bodies s)) (st_t s)"
    unfolding h1_held_def by blast
  from close_held_ok [OF \<open>h1_pool_ok (st_t s)\<close> this] show ?case by (simp add: held_inv_def h1_held_def)
next
  case (respond c key s req resp)
  let ?ps = "idle_keyed (ht_idle (st_t s)) @ remove1 (c, key) (st_flight s) @ body_keyed (new_body c key req resp # st_bodies s)"
  have "mset (h1_held s) = mset ?ps"
    using held_flight_remove [OF respond.hyps, of "idle_keyed (ht_idle (st_t s))" "body_keyed (st_bodies s)"]
    by (simp add: h1_held_def body_keyed_def new_body_def)
  with respond.prems held_ok_perm [OF this] show ?case by (simp add: held_inv_def h1_held_def)
next
  case (read i s now e b t)
  note ok = held_invD [OF read.prems]
  have "(b, t) = (st_bodies s ! i, st_t s) \<or> \<not> pb_done (st_bodies s ! i) \<and> b = (st_bodies s ! i)\<lparr>pb_done := True\<rparr> \<and>
      (t = close_conn (pb_conn (st_bodies s ! i)) (st_t s) \<or>
       t = putIdleConn now (pb_key (st_bodies s ! i)) (pb_conn (st_bodies s ! i)) (st_t s))"
    using read.hyps(2) by (auto simp: body_Read_def handleClose_def split: if_splits)
  from body_end_ok [OF read.hyps(1) ok this] show ?case by (simp add: held_inv_def h1_held_def)
next
  case (close_body i s now err b t)
  note ok = held_invD [OF close_body.prems]
  have "(b, t) = (st_bodies s ! i, st_t s) \<or> \<not> pb_done (st_bodies s ! i) \<and> b = (st_bodies s ! i)\<lparr>pb_done := True\<rparr> \<and>
      (t = close_conn (pb_conn (st_bodies s ! i)) (st_t s) \<or>
       t = putIdleConn now (pb_key (st_bodies s ! i)) (pb_conn (st_bodies s ! i)) (st_t s))"
    using close_body.hyps(2) by (auto simp: body_Close_def handleClose_def split: if_splits option.splits)
  from body_end_ok [OF close_body.hyps(1) ok this] show ?case by (simp add: held_inv_def h1_held_def)
next
  case (cleanup s now)
  from cleanup_ok [OF held_invD [OF cleanup.prems]] show ?case by (simp add: held_inv_def h1_held_def)
next
  case (close s)
  then show ?case by (simp add: held_inv_def h1_held_def h1_pool_ok_def held_ok_def)
next
  case (drain s)
  from drop_idle_ok [OF held_invD [OF drain.prems]] show ?case by (simp add: held_inv_def h1_held_def)
next
  case (refresh s)
  from drop_idle_ok [OF held_invD [OF refresh.prems]] show ?case by (simp add: held_inv_def h1_held_def)
next
  case (set_proxy s px)
  note ok = held_invD [OF set_proxy.prems]
  from drop_idle_ok [OF ok] show ?case by (simp add: held_inv_def h1_held_def h1_SetProxy_def h1_pool_ok_def held_ok_def)
qed

text \<open>What the operations leave of the connections' addresses, and of an emptied pool.\<close>

definition h1_same_routes :: "h1_transport \<Rightarrow> h1_transport \<Rightarrow> bool" where
  "h1_same_routes t t' \<longleftrightarrow>
     ht_next t' = ht_next t \<and> h1_connectTo (ht_cfg t') = h1_connectTo (ht_cfg t) \<and>
     (\<forall>c. hc_host (ht_conns t' c) = hc_host (ht_conns t c) \<and> hc_port (ht_conns t' c) = hc_port (ht_conns t c) \<and>
       hc_route (ht_conns t' c) = hc_route (ht_conns t c))"

lemma routes_ok_same: "h1_same_routes t t' \<Longrightarrow> h1_routes_ok t \<Longrightarrow> h1_routes_ok t'"
  by (simp add: h1_same_routes_def h1_routes_ok_def route_ok_def getConnectHost_def)

lemma same_refl: "h1_same_routes t t"
  by (simp add: h1_same_routes_def)

lemma same_trans: "h1_same_routes t t' \<Longrightarrow> h1_same_routes t' t'' \<Longrightarrow> h1_same_routes t t''"
  by (simp add: h1_same_routes_def)

lemma same_close: "h1_same_routes t (close_conn c t)"
  by (simp add: h1_same_routes_def close_conn_def set_conn_def)

lemma same_close_all: "h1_same_routes t (close_all cs t)"
  unfolding close_all_def
  by (induction cs arbitrary: t) (auto intro: same_refl same_trans [OF same_close])

lemma same_idle: "h1_same_routes t t' \<Longrightarrow> h1_same_routes t (t'\<lparr>ht_idle := m\<rparr>)" "h1_same_routes t t' \<Longrightarrow> h1_same_routes t (set_idle k cs t')"
  "h1_same_routes t t' \<Longrightarrow> h1_same_routes t (t'\<lparr>ht_closed := b\<rparr>)"
  by (simp_all add: h1_same_routes_def set_idle_def)

lemma same_set:
  "hc_host v = hc_host (ht_conns t c) \<Longrightarrow> hc_port v = hc_port (ht_conns t c) \<Longrightarrow> hc_route v = hc_route (ht_conns t c) \<Longrightarrow>
   h1_same_routes t (set_conn c v t)"
  by (simp add: h1_same_routes_def set_conn_def)

lemmas same_rules = same_refl same_close same_close_all same_idle

lemma same_drop: "h1_same_routes t (drop_idle t)" "h1_same_routes t (h1_cleanup now t)" "h1_same_routes t (h1_SetProxy px t)"
proof -
  show d: "h1_same_routes t (drop_idle t)" unfolding drop_idle_def by (intro same_rules)
  show "h1_same_routes t (h1_cleanup now t)" unfolding h1_cleanup_def by (intro same_rules)
  from d show "h1_same_routes t (h1_SetProxy px t)" by (simp add: h1_SetProxy_def h1_same_routes_def)
qed

lemma same_get: "getIdleConn now key t = (r, t') \<Longrightarrow> h1_same_routes t t'"
  by (auto simp: getIdleConn_def Let_def h1_same_routes_def close_conn_def set_conn_def set_idle_def split: if_splits)

lemma same_put: "h1_same_routes t (putIdleConn now key c t)"
  by (auto simp: putIdleConn_def Let_def h1_same_routes_def close_conn_def set_conn_def set_idle_def)

lemma same_request: "doRequest now answer c req t = (res, req1, t') \<Longrightarrow> h1_same_routes t t'"
  by (auto simp: doRequest_def Let_def same_refl intro: same_set split: if_splits prod.splits)

lemma same_body:
  "body_Read now e b t = (b', t') \<Longrightarrow> h1_same_routes t t'" "body_Close now err b t = (b', t') \<Longrightarrow> h1_same_routes t t'"
  by (auto simp: body_Read_def body_Close_def handleClose_def same_refl same_close same_put split: if_splits option.splits)

lemma add_routes:
  assumes "add_conn now (conn_key scheme (getConnectHost (ht_cfg t) host) port) host port w t = (c, t')" "h1_routes_ok t"
    and "CHR '':'' \<notin> set scheme" "CHR '':'' \<notin> set port"
  shows "h1_routes_ok t'"
  using assms by (auto simp: add_conn_def h1_routes_ok_def route_ok_def set_conn_def less_Suc_eq)

lemma step_routes: "h1_step s s' \<Longrightarrow> h1_routes_ok (st_t s) \<Longrightarrow> h1_routes_ok (st_t s')"
proof (induction rule: h1_step.induct)
  case (dial key scheme s host port now w c t)
  then show ?case using add_routes [of now scheme "st_t s" host port w c t] by simp
qed (auto elim!: routes_ok_same [rotated] dest: same_get same_request same_body intro: same_close same_drop same_idle same_refl)

lemma drop_idle_simps [simp]: "ht_idle (drop_idle t) = []" "ht_closed (drop_idle t) = ht_closed t"
  by (simp_all add: drop_idle_def)

lemma stays_empty:
  "getIdleConn now key t = (r, t') \<Longrightarrow> ht_idle t = [] \<Longrightarrow> r = None \<and> t' = t"
  "doRequest now answer c req t = (res, req1, t'') \<Longrightarrow> ht_idle t'' = ht_idle t \<and> ht_closed t'' = ht_closed t"
  by (auto simp: getIdleConn_def idle_for_def doRequest_def Let_def split: if_splits prod.splits)

lemma put_closed:
  "ht_closed (putIdleConn now key c t) = ht_closed t"
  "ht_closed t \<Longrightarrow> ht_idle (putIdleConn now key c t) = ht_idle t"
  by (simp_all add: putIdleConn_def Let_def)

lemma get_closed: "getIdleConn now key t = (r, t') \<Longrightarrow> ht_closed t' = ht_closed t"
  by (auto simp: getIdleConn_def Let_def split: if_splits)

lemma closed_body:
  "body_Read now e b t = (b', t') \<Longrightarrow> ht_closed t' = ht_closed t \<and> (ht_closed t \<longrightarrow> ht_idle t' = ht_idle t)"
  "body_Close now err b t = (b', t') \<Longrightarrow> ht_closed t' = ht_closed t \<and> (ht_closed t \<longrightarrow> ht_idle t' = ht_idle t)"
  by (auto simp: body_Read_def body_Close_def handleClose_def put_closed split: if_splits option.splits)

lemma step_drained: "h1_step s s' \<Longrightarrow> drained s \<Longrightarrow> drained s'"
proof (induction rule: h1_step.induct)
  case (cleanup s now)
  then show ?case by (auto simp: drained_def h1_cleanup_def cleanup_idle_def)
qed (auto simp: drained_def h1_SetProxy_def add_conn_def dest: stays_empty get_closed closed_body)

lemma h1_step_inv: "h1_step s s' \<Longrightarrow> h1_inv s \<Longrightarrow> h1_inv s'"
  unfolding h1_inv_def by (blast intro: step_held step_routes step_drained)

lemma h1_start_inv: "h1_inv (h1_start cfg)"
  by (simp add: h1_inv_def held_inv_def drained_def h1_routes_ok_def h1_start_def NewHTTP1Transport_def h1_pool_ok_def held_ok_def
      h1_held_def idle_keyed_def body_keyed_def)

lemma h1_reachable_inv: "h1_step\<^sup>*\<^sup>* (h1_start cfg) s \<Longrightarrow> h1_inv s"
  by (induction rule: rtranclp_induct) (auto intro: h1_start_inv h1_step_inv)

section \<open>Round trips are steps\<close>

text \<open>The state after a round trip: its body is one more body handed out.\<close>

definition after_trip :: "h1_reply \<Rightarrow> h1_state \<Rightarrow> h1_state" where
  "after_trip r s =
     (case fst r of
        Inl e \<Rightarrow> s\<lparr>st_t := snd r\<rparr>
      | Inr (resp, b) \<Rightarrow> s\<lparr>st_t := snd r, st_bodies := b # st_bodies s\<rparr>)"

lemma after_trip_st [simp]: "after_trip r (s\<lparr>st_t := t\<rparr>) = after_trip r s"
  by (simp add: after_trip_def split: sum.split prod.split)

text \<open>One exchange over a connection in flight and the two ways it ends.\<close>

lemma exchange_steps:
  assumes "(c, key) \<in> set (st_flight s)" "doRequest now answer c req (st_t s) = (res, req1, t)"
  shows "h1_step\<^sup>*\<^sup>* s (s\<lparr>st_t := close_conn c t, st_flight := remove1 (c, key) (st_flight s)\<rparr>)"
    and "h1_step\<^sup>*\<^sup>* s (s\<lparr>st_t := t, st_flight := remove1 (c, key) (st_flight s), st_bodies := new_body c key req1 resp # st_bodies s\<rparr>)"
proof -
  have x: "h1_step s (s\<lparr>st_t := t\<rparr>)" using assms by (rule h1_step.exchange)
  have "(c, key) \<in> set (st_flight (s\<lparr>st_t := t\<rparr>))" using assms(1) by simp
  note ends = h1_step.give_up [OF this] h1_step.respond [OF this, of req1 resp]
  from x ends(1) show "h1_step\<^sup>*\<^sup>* s (s\<lparr>st_t := close_conn c t, st_flight := remove1 (c, key) (st_flight s)\<rparr>)"
    by (simp add: converse_rtranclp_into_rtranclp)
  from x ends(2) show "h1_step\<^sup>*\<^sup>* s (s\<lparr>st_t := t, st_flight := remove1 (c, key) (st_flight s), st_bodies := new_body c key req1 resp # st_bodies s\<rparr>)"
    by (simp add: converse_rtranclp_into_rtranclp)
qed

lemma fresh_trip_steps:
  assumes "key = conn_key scheme (getConnectHost (ht_cfg (st_t s)) host) port"
    and "CHR '':'' \<notin> set scheme" "CHR '':'' \<notin> set port"
  shows "h1_step\<^sup>*\<^sup>* s (after_trip (fresh_trip a key host port req (st_t s)) s)"
proof (cases "an_dial a")
  case (Inl e)
  then show ?thesis by (simp add: fresh_trip_def after_trip_def)
next
  case (Inr w)
  obtain c t1 where add: "add_conn (an_now a) key host port w (st_t s) = (c, t1)" by fastforce
  obtain res req1 t2 where do_it: "doRequest (an_now a) (an_new a) c req t1 = (res, req1, t2)" by (cases "doRequest (an_now a) (an_new a) c req t1")
  let ?s1 = "s\<lparr>st_t := t1, st_flight := (c, key) # st_flight s\<rparr>"
  have "h1_step s ?s1" using assms add by (rule h1_step.dial)
  moreover have "h1_step\<^sup>*\<^sup>* ?s1 (after_trip (fresh_trip a key host port req (st_t s)) s)"
  proof (cases res)
    case (Inl e)
    then show ?thesis using exchange_steps(1) [of c key ?s1 "an_now a" "an_new a" req res req1 t2] do_it
      by (simp add: fresh_trip_def after_trip_def Inr add)
  next
    case resp: (Inr resp)
    then show ?thesis using exchange_steps(2) [of c key ?s1 "an_now a" "an_new a" req res req1 t2 resp] do_it
      by (simp add: fresh_trip_def after_trip_def Inr add)
  qed
  ultimately show ?thesis by (rule converse_rtranclp_into_rtranclp)
qed

lemma port_no_colon: "CHR '':'' \<notin> set (request_port u)"
proof -
  have "CHR '':'' \<notin> set p" if "list_all is_digit p" for p
    using that by (auto simp: list_all_iff is_digit_def)
  moreover have "list_all is_digit (Port u)"
    by (auto simp: Port_def split_host_port_def validOptionalPort_def tl_drop drop_Suc Let_def
        split: option.splits if_splits prod.splits)
  ultimately show ?thesis by (simp add: request_port_def)
qed

lemma round_trip_steps:
  assumes "CHR '':'' \<notin> set (u_Scheme (wr_URL req))"
  shows "h1_step\<^sup>*\<^sup>* s (after_trip (h1_RoundTrip a req (st_t s)) s)"
proof (cases "ht_closed (st_t s)")
  case True
  then show ?thesis by (simp add: h1_RoundTrip_def after_trip_def Let_def)
next
  case False
  let ?host = "Hostname (wr_URL req)" and ?port = "request_port (wr_URL req)"
  let ?key = "conn_key (u_Scheme (wr_URL req)) (getConnectHost (ht_cfg (st_t s)) ?host) ?port"
  obtain r t1 where get: "getIdleConn (an_now a) ?key (st_t s) = (r, t1)" by fastforce
  have cfg: "h1_connectTo (ht_cfg t1) = h1_connectTo (ht_cfg (st_t s))" using same_get [OF get] by (simp add: h1_same_routes_def)
  show ?thesis
  proof (cases r)
    case None
    have "h1_step s (s\<lparr>st_t := t1\<rparr>)" using get unfolding None by (rule h1_step.miss)
    moreover have "h1_step\<^sup>*\<^sup>* (s\<lparr>st_t := t1\<rparr>) (after_trip (fresh_trip a ?key ?host ?port req t1) (s\<lparr>st_t := t1\<rparr>))"
      using fresh_trip_steps [of ?key _ "s\<lparr>st_t := t1\<rparr>" ?host ?port a req] assms port_no_colon cfg by (simp add: getConnectHost_def)
    ultimately show ?thesis
      using False get None by (simp add: h1_RoundTrip_def Let_def converse_rtranclp_into_rtranclp)
  next
    case (Some c)
    obtain res req1 t2 where do_it: "doRequest (an_now a) (an_pooled a) c req t1 = (res, req1, t2)" by (cases "doRequest (an_now a) (an_pooled a) c req t1")
    let ?s1 = "s\<lparr>st_t := t1, st_flight := (c, ?key) # st_flight s\<rparr>"
    have start: "h1_step s ?s1" using get unfolding Some by (rule h1_step.take)
    show ?thesis
    proof (cases res)
      case (Inr resp)
      from exchange_steps(2) [of c ?key ?s1 "an_now a" "an_pooled a" req res req1 t2 resp] do_it start show ?thesis
        using False get Some Inr by (simp add: h1_RoundTrip_def Let_def after_trip_def converse_rtranclp_into_rtranclp)
    next
      case (Inl e)
      let ?s2 = "s\<lparr>st_t := close_conn c t2\<rparr>"
      have "h1_step\<^sup>*\<^sup>* ?s1 ?s2"
        using exchange_steps(1) [of c ?key ?s1 "an_now a" "an_pooled a" req res req1 t2] do_it by simp
      moreover have "h1_connectTo (ht_cfg (close_conn c t2)) = h1_connectTo (ht_cfg (st_t s))"
        using same_request [OF do_it] cfg by (simp add: h1_same_routes_def)
      then have "h1_step\<^sup>*\<^sup>* ?s2 (after_trip (fresh_trip a ?key ?host ?port req1 (close_conn c t2)) ?s2)"
        using fresh_trip_steps [of ?key _ ?s2 ?host ?port a req1] assms port_no_colon by (simp add: getConnectHost_def)
      ultimately have "h1_step\<^sup>*\<^sup>* s (after_trip (fresh_trip a ?key ?host ?port req1 (close_conn c t2)) ?s2)"
        using start by (meson converse_rtranclp_into_rtranclp rtranclp_trans)
      then show ?thesis
        using False get Some do_it Inl by (simp add: h1_RoundTrip_def Let_def)
    qed
  qed
qed

section \<open>What every run keeps\<close>

text \<open>C17. Whatever calls run at once, a connection has one holder: it is in the pool once, or one call
uses it, or one body does. Every such connection is open and was dialled for the key it is held under, a
key has at most six idle ones, and when \<open>Close\<close> has ended the pool is empty and stays so.\<close>

theorem one_holder:
  assumes "h1_step\<^sup>*\<^sup>* (h1_start cfg) s"
  shows "distinct (map fst (h1_held s)) \<and>
    (\<forall>(c, key) \<in> set (h1_held s). \<not> hc_closed (ht_conns (st_t s) c) \<and> hc_route (ht_conns (st_t s) c) = key) \<and>
    (\<forall>(key, cs) \<in> set (ht_idle (st_t s)). length cs \<le> maxIdleConnsPerHost) \<and>
    (ht_closed (st_t s) \<and> \<not> st_draining s \<longrightarrow> ht_idle (st_t s) = [])"
  using h1_reachable_inv [OF assms]
  by (auto simp: h1_inv_def held_inv_def held_ok_def h1_usable_def h1_pool_ok_def drained_def)

lemma last_colon:
  assumes "a @ x # p = b @ x # q" "x \<notin> set p" "x \<notin> set q"
  shows "a = b \<and> p = q"
proof -
  have e: "rev p @ x # rev a = rev q @ x # rev b" using arg_cong [OF assms(1), of rev] by simp
  have first: "us = vs \<and> y = z" if "us @ x # y = vs @ x # z" "x \<notin> set us" "x \<notin> set vs" for us vs y z
    using that by (induction us vs rule: list_induct2') auto
  from first [OF e] assms(2,3) show ?thesis by simp
qed

lemma conn_key_inj:
  assumes "conn_key s h p = conn_key s' h' p'"
    and "CHR '':'' \<notin> set s" "CHR '':'' \<notin> set s'" "CHR '':'' \<notin> set p" "CHR '':'' \<notin> set p'"
  shows "s = s' \<and> h = h' \<and> p = p'"
proof -
  have "(s @ ''://'' @ h) @ CHR '':'' # p = (s' @ ''://'' @ h') @ CHR '':'' # p'" using assms(1) by (simp add: conn_key_def)
  from last_colon [OF this assms(4,5)] have p: "p = p'" and h: "s @ CHR '':'' # ''//'' @ h = s' @ CHR '':'' # ''//'' @ h'" by auto
  have "takeWhile (\<lambda>c. c \<noteq> CHR '':'') (s @ CHR '':'' # ''//'' @ h) = s"
    "takeWhile (\<lambda>c. c \<noteq> CHR '':'') (s' @ CHR '':'' # ''//'' @ h') = s'"
    using assms(2,3) by (auto simp: takeWhile_tail intro!: takeWhile_eq_all_conv [THEN iffD2] trans [OF takeWhile_append2])
  with h have "s = s'" by simp
  with h p show ?thesis by simp
qed

text \<open>A successful round trip, and the state it leaves.\<close>

lemma round_trip_body:
  assumes "h1_RoundTrip a req t = (Inr (resp, b), t')"
  shows "pb_key b = conn_key (u_Scheme (wr_URL req)) (getConnectHost (ht_cfg t) (Hostname (wr_URL req))) (request_port (wr_URL req))"
    and "\<not> pb_done b" "\<not> ht_closed t"
  using assms by (auto simp: h1_RoundTrip_def fresh_trip_def new_body_def Let_def split: if_splits sum.splits option.splits prod.splits)

lemma round_trip_inv:
  assumes "h1_inv s" "CHR '':'' \<notin> set (u_Scheme (wr_URL req))" "h1_RoundTrip a req (st_t s) = (Inr (resp, b), t')"
  shows "h1_inv (s\<lparr>st_t := t', st_bodies := b # st_bodies s\<rparr>)"
proof -
  have "h1_inv s'" if "h1_step\<^sup>*\<^sup>* s s'" for s'
    using that assms(1) by (induction rule: rtranclp_induct) (auto intro: h1_step_inv)
  from this [OF round_trip_steps [OF assms(2), of s a]] assms(3) show ?thesis by (simp add: after_trip_def)
qed

lemma round_trip_connect:
  assumes "h1_RoundTrip a req t = (r, t')"
  shows "h1_connectTo (ht_cfg t') = h1_connectTo (ht_cfg t)"
proof -
  have fresh: "h1_connectTo (ht_cfg t') = h1_connectTo (ht_cfg t)"
    if "fresh_trip a key host port req t = (r, t')" for key host port req t
    using that by (auto simp: fresh_trip_def add_conn_def Let_def dest!: same_request
        simp: h1_same_routes_def split: sum.splits prod.splits)
  show ?thesis using assms
    by (auto simp: h1_RoundTrip_def Let_def h1_same_routes_def dest!: same_get same_request fresh
        split: if_splits sum.splits option.splits prod.splits)
qed

text \<open>A round trip of any run is a sequence of the steps of concurrent calls: it leaves the state those
steps leave, with its body among those handed out when it succeeds, so what the steps keep, every
interleaving of round trips keeps.\<close>

theorem round_trip_refines:
  assumes "CHR '':'' \<notin> set (u_Scheme (wr_URL req))" "h1_RoundTrip a req (st_t s) = (r, t')"
  shows "h1_step\<^sup>*\<^sup>* s (case r of Inl e \<Rightarrow> s\<lparr>st_t := t'\<rparr> | Inr (resp, b) \<Rightarrow> s\<lparr>st_t := t', st_bodies := b # st_bodies s\<rparr>)"
  using round_trip_steps [OF assms(1), of s a] assms(2) by (cases r) (auto simp: after_trip_def)

text \<open>C19. Without \<open>SetConnectTo\<close>, the response to a request comes over a connection that was made for the
scheme, host and port of the request's URL, is open, and is used by no other call, no other body and not
by the pool.\<close>

theorem response_from_own_host:
  assumes "h1_step\<^sup>*\<^sup>* (h1_start cfg) s" "h1_connectTo (ht_cfg (st_t s)) = []"
    and "CHR '':'' \<notin> set (u_Scheme (wr_URL req))" "h1_RoundTrip a req (st_t s) = (Inr (resp, b), t')"
  shows "let c = pb_conn b; v = ht_conns t' c in
    hc_host v = Hostname (wr_URL req) \<and> hc_port v = request_port (wr_URL req) \<and>
    hc_route v = conn_key (u_Scheme (wr_URL req)) (hc_host v) (hc_port v) \<and> \<not> hc_closed v \<and>
    c \<notin> set (all_idle t') \<and> c \<notin> fst ` set (st_flight s) \<and> (\<forall>b' \<in> set (st_bodies s). pb_done b' \<or> pb_conn b' \<noteq> c)"
proof -
  let ?s' = "s\<lparr>st_t := t', st_bodies := b # st_bodies s\<rparr>" and ?c = "pb_conn b"
  let ?scheme = "u_Scheme (wr_URL req)" and ?v = "ht_conns t' (pb_conn b)"
  have inv: "h1_inv ?s'" using h1_reachable_inv [OF assms(1)] assms(3,4) by (rule round_trip_inv)
  have key: "pb_key b = conn_key ?scheme (Hostname (wr_URL req)) (request_port (wr_URL req))"
    using round_trip_body(1) [OF assms(4)] assms(2) by (simp add: getConnectHost_def)
  have h1_held: "h1_held ?s' = (idle_keyed (ht_idle t') @ st_flight s) @ (?c, pb_key b) # body_keyed (st_bodies s)"
    using round_trip_body(2) [OF assms(4)] by (simp add: h1_held_def body_keyed_def)
  with inv have u: "h1_usable t' (?c, pb_key b)"
    and d: "?c \<notin> fst ` set (idle_keyed (ht_idle t'))" "?c \<notin> fst ` set (st_flight s)" "?c \<notin> fst ` set (body_keyed (st_bodies s))"
    by (auto simp: h1_inv_def held_inv_def held_ok_def)
  have "h1_connectTo (ht_cfg t') = []"
    using round_trip_connect [OF assms(4)] assms(2) by simp
  moreover have "route_ok (ht_cfg t') ?v" using u inv by (simp add: h1_inv_def h1_routes_ok_def h1_usable_def)
  ultimately obtain scheme where sch: "CHR '':'' \<notin> set scheme" "CHR '':'' \<notin> set (hc_port ?v)"
    "hc_route ?v = conn_key scheme (hc_host ?v) (hc_port ?v)"
    by (auto simp: route_ok_def getConnectHost_def)
  with u key have "conn_key scheme (hc_host ?v) (hc_port ?v) = conn_key ?scheme (Hostname (wr_URL req)) (request_port (wr_URL req))"
    by (simp add: h1_usable_def)
  from conn_key_inj [OF this sch(1) assms(3) sch(2) port_no_colon] sch(3)
  have "hc_host ?v = Hostname (wr_URL req) \<and> hc_port ?v = request_port (wr_URL req) \<and> hc_route ?v = conn_key ?scheme (hc_host ?v) (hc_port ?v)"
    by simp
  moreover have "?c \<notin> set (all_idle t')" using d(1) by (force simp: all_idle_def idle_keyed_def)
  moreover have "\<forall>b' \<in> set (st_bodies s). pb_done b' \<or> pb_conn b' \<noteq> ?c" using d(3) by (auto simp: body_keyed_def image_iff)
  ultimately show ?thesis using u d(2) by (simp add: h1_usable_def)
qed

text \<open>What a successful round trip leaves of the connection, in the pool's store.\<close>

lemma put_then_get:
  assumes "\<not> ht_closed t" "now' - now \<le> maxIdleTime"
  shows "getIdleConn now' key (putIdleConn now key c t) =
    (Some c, set_idle key (butlast (idle_for key (putIdleConn now key c t))) (putIdleConn now key c t))"
proof -
  obtain cs t1 where put: "putIdleConn now key c t = set_idle key (cs @ [c]) (set_conn c ((ht_conns t1 c)\<lparr>hc_lastUsedAt := now\<rparr>) t1)"
    using assms(1) unfolding putIdleConn_def Let_def by (metis (no_types, lifting) case_prod_conv surj_pair)
  have "idle_for key (putIdleConn now key c t) = cs @ [c]" by (simp add: put idle_for_def map_of_update)
  moreover have "\<not> expired now' (set_idle key cs (putIdleConn now key c t)) c"
    using assms(2) by (simp add: expired_def put set_conn_def)
  ultimately show ?thesis by (simp add: getIdleConn_def Let_def)
qed

lemma round_trip_open:
  assumes "h1_RoundTrip a req t = (r, t')"
  shows "ht_closed t' = ht_closed t"
  using assms
  by (auto simp: h1_RoundTrip_def fresh_trip_def add_conn_def Let_def dest!: get_closed stays_empty(2)
      split: if_splits sum.splits option.splits prod.splits)

lemma put_next [simp]: "ht_next (putIdleConn now key c t) = ht_next t"
  using same_put [of t now key c] by (simp add: h1_same_routes_def)

lemma put_cfg: "h1_connectTo (ht_cfg (putIdleConn now key c t)) = h1_connectTo (ht_cfg t)"
  using same_put [of t now key c] by (simp add: h1_same_routes_def)

text \<open>Keep-alive works: when a response allowed it and its body has been read to the end, a request to
the same scheme, host and port within 90 seconds goes over the same connection and nothing is dialled.\<close>

theorem keep_alive_reuse:
  assumes "h1_step\<^sup>*\<^sup>* (h1_start cfg) s" "CHR '':'' \<notin> set (u_Scheme (wr_URL req))"
    and "h1_RoundTrip a req (st_t s) = (Inr (resp, b), t1)" "pb_keepAlive b" "body_Read now ReadEOF b t1 = (b1, t2)"
    and "u_Scheme (wr_URL req2) = u_Scheme (wr_URL req)" "Hostname (wr_URL req2) = Hostname (wr_URL req)"
      "request_port (wr_URL req2) = request_port (wr_URL req)"
    and "an_now a2 - now \<le> maxIdleTime" "fst (writeRequest req2 (hc_writer (ht_conns t2 (pb_conn b)))) = None"
    and "an_pooled a2 = Inr resp2"
  shows "\<exists>b2 t3. h1_RoundTrip a2 req2 t2 = (Inr (resp2, b2), t3) \<and> pb_conn b2 = pb_conn b \<and> ht_next t3 = ht_next t1"
proof -
  let ?c = "pb_conn b" and ?s1 = "s\<lparr>st_t := t1, st_bodies := b # st_bodies s\<rparr>"
  have inv: "h1_inv ?s1" using h1_reachable_inv [OF assms(1)] assms(2,3) by (rule round_trip_inv)
  note body = round_trip_body [OF assms(3)]
  have open_t: "\<not> ht_closed t1" using body(3) round_trip_open [OF assms(3)] by simp
  have t2: "t2 = putIdleConn now (pb_key b) ?c t1" and b1: "b1 = b\<lparr>pb_done := True\<rparr>"
    using assms(4,5) body(2) by (auto simp: body_Read_def handleClose_def)
  let ?s2 = "s\<lparr>st_t := t2, st_bodies := b1 # st_bodies s\<rparr>"
  have "h1_step ?s1 ?s2"
    using h1_step.read [of 0 ?s1 now ReadEOF b1 t2] assms(5) by simp
  with inv have inv2: "h1_inv ?s2" by (auto intro: h1_step_inv)
  let ?t3 = "set_idle (pb_key b) (butlast (idle_for (pb_key b) t2)) t2"
  have get: "getIdleConn (an_now a2) (pb_key b) t2 = (Some ?c, ?t3)"
    using put_then_get [OF open_t assms(9)] by (simp add: t2)
  have "h1_inv (?s2\<lparr>st_t := ?t3, st_flight := (?c, pb_key b) # st_flight s\<rparr>)"
    using h1_step_inv [OF h1_step.take [of "an_now a2" "pb_key b" ?s2] inv2] get by simp
  then have "\<not> hc_closed (ht_conns ?t3 ?c)"
    by (simp add: h1_inv_def held_inv_def h1_held_def held_ok_def h1_usable_def)
  moreover obtain w rs where "writeRequest req2 (hc_writer (ht_conns ?t3 ?c)) = (None, w, rs)"
    using assms(10) by (cases "writeRequest req2 (hc_writer (ht_conns t2 ?c))") auto
  ultimately obtain req3 t3 where do_it: "doRequest (an_now a2) (an_pooled a2) ?c req2 ?t3 = (Inr resp2, req3, t3)" "ht_next t3 = ht_next t1"
    using assms(11) by (simp add: doRequest_def t2)
  have "getConnectHost (ht_cfg t2) = getConnectHost (ht_cfg (st_t s))"
    using round_trip_connect [OF assms(3)] put_cfg [of now "pb_key b" ?c t1] by (simp add: getConnectHost_def t2 fun_eq_iff)
  then have "conn_key (u_Scheme (wr_URL req2)) (getConnectHost (ht_cfg t2) (Hostname (wr_URL req2))) (request_port (wr_URL req2)) = pb_key b"
    using body(1) assms(6-8) by simp
  moreover have "\<not> ht_closed t2" using open_t by (simp add: t2 put_closed)
  ultimately show ?thesis using get do_it by (simp add: h1_RoundTrip_def Let_def new_body_def)
qed

section \<open>Runs\<close>

definition h1_plain_config :: h1_config where
  "h1_plain_config =
     \<lparr>h1_proxy = None, h1_connectTo = [], h1_speculative = False, h1_customJA3 = None, h1_insecureSkipVerify = False, h1_localAddr = ''''\<rparr>"

definition get_from :: "string \<Rightarrow> wire_request" where
  "get_from host =
     \<lparr>wr_Method = ''GET'', wr_URL = empty_url\<lparr>u_Scheme := ''https'', u_Host := host, u_Path := ''/''\<rparr>, wr_Host = '''',
      wr_Header = [], wr_Order = [''A''], wr_ContentLength = 0, wr_Body = NilBody\<rparr>"

definition ok_resp :: h1_resp where
  "ok_resp = \<lparr>hr_Header = [], hr_ProtoMajor = 1, hr_ProtoMinor = 1\<rparr>"

definition answers :: "time \<Rightarrow> h1_answers" where
  "answers now = \<lparr>an_now = now, an_pooled = Inr ok_resp, an_dial = Inr fresh_writer, an_new = Inr ok_resp\<rparr>"

definition first_trip :: h1_reply where
  "first_trip = h1_RoundTrip (answers 0) (get_from ''a'') (NewHTTP1Transport h1_plain_config)"

definition first_body :: pooled_body where
  "first_body = \<lparr>pb_conn = 0, pb_key = ''https://a:443'', pb_keepAlive = True, pb_done = False\<rparr>"

lemma first_trip_body: "first_trip = (Inr (ok_resp, first_body), snd first_trip)"
  by (rule prod_eqI) (code_simp, simp)

lemma plain_reachable: "h1_step\<^sup>*\<^sup>* (h1_start h1_plain_config) (h1_start h1_plain_config)"
  by simp

lemma keep_alive_reuse_witness:
  "\<exists>b2 t3. h1_RoundTrip (answers 10) (get_from ''a'') (snd (body_Read 5 ReadEOF first_body (snd first_trip))) = (Inr (ok_resp, b2), t3) \<and>
    pb_conn b2 = pb_conn first_body \<and> ht_next t3 = ht_next (snd first_trip)"
proof (rule keep_alive_reuse [OF plain_reachable, where req = "get_from ''a''" and a = "answers 0" and now = 5 and resp = ok_resp])
  show "h1_RoundTrip (answers 0) (get_from ''a'') (st_t (h1_start h1_plain_config)) = (Inr (ok_resp, first_body), snd first_trip)"
    using first_trip_body by (simp add: first_trip_def h1_start_def)
  show "body_Read 5 ReadEOF first_body (snd first_trip) =
    (fst (body_Read 5 ReadEOF first_body (snd first_trip)), snd (body_Read 5 ReadEOF first_body (snd first_trip)))" by simp
qed (code_simp | rule refl)+

lemma one_holder_witness: "distinct (map fst (h1_held (h1_start h1_plain_config)))"
  using one_holder [OF plain_reachable] by blast

lemma round_trip_refines_witness:
  "h1_step\<^sup>*\<^sup>* (h1_start h1_plain_config)
     ((h1_start h1_plain_config)\<lparr>st_t := snd first_trip, st_bodies := [first_body]\<rparr>)"
proof -
  have "h1_RoundTrip (answers 0) (get_from ''a'') (st_t (h1_start h1_plain_config)) = (Inr (ok_resp, first_body), snd first_trip)"
    using first_trip_body by (simp add: first_trip_def h1_start_def)
  from round_trip_refines [OF _ this] show ?thesis by (simp add: h1_start_def get_from_def)
qed

lemma response_from_own_host_witness: "hc_host (ht_conns (snd first_trip) 0) = ''a''"
proof -
  have "h1_RoundTrip (answers 0) (get_from ''a'') (st_t (h1_start h1_plain_config)) = (Inr (ok_resp, first_body), snd first_trip)"
    using first_trip_body by (simp add: first_trip_def h1_start_def)
  from response_from_own_host [OF plain_reachable _ _ this]
  have "hc_host (ht_conns (snd first_trip) (pb_conn first_body)) = Hostname (wr_URL (get_from ''a''))"
    by (simp add: Let_def h1_plain_config_def h1_start_def NewHTTP1Transport_def get_from_def)
  moreover have "Hostname (wr_URL (get_from ''a'')) = ''a''" by code_simp
  ultimately show ?thesis by (simp add: first_body_def)
qed

text \<open>
  The key of the pool names the host to connect to and not the host of the request, so two hosts that
  \<open>SetConnectTo\<close> sends to one address share connections: the response for \<open>b\<close> comes over the TLS
  connection whose name and certificate were checked for \<open>a\<close>.
\<close>

definition fronted_config :: h1_config where
  "fronted_config = h1_plain_config\<lparr>h1_connectTo := [(''a'', ''front''), (''b'', ''front'')]\<rparr>"

lemma fronted_hosts_share:
  "let r1 = h1_RoundTrip (answers 0) (get_from ''a'') (NewHTTP1Transport fronted_config);
       b1 = snd (projr (fst r1));
       r2 = h1_RoundTrip (answers 10) (get_from ''b'') (snd (body_Read 5 ReadEOF b1 (snd r1)));
       b2 = snd (projr (fst r2)) in
   Hostname (wr_URL (get_from ''b'')) = ''b'' \<and> hc_host (ht_conns (snd r2) (pb_conn b2)) = ''a'' \<and> ht_next (snd r2) = 1"
  by code_simp

text \<open>
  \<open>SetProxy\<close> closes the idle connections only: one in use goes back to the pool when its body ends, and
  the next request still goes through the old proxy.
\<close>

lemma old_proxy_reused:
  "let r1 = h1_RoundTrip (answers 0) (get_from ''a'') (NewHTTP1Transport h1_plain_config);
       b1 = snd (projr (fst r1));
       t1 = h1_SetProxy (Some (url_proxy ''http://px'')) (snd r1);
       r2 = h1_RoundTrip (answers 10) (get_from ''a'') (snd (body_Read 5 ReadEOF b1 t1));
       b2 = snd (projr (fst r2)) in
   h1_GetProxy (snd r2) = Some (url_proxy ''http://px'') \<and> hc_proxy (ht_conns (snd r2) (pb_conn b2)) = None \<and>
   ht_next (snd r2) = 1"
  by code_simp

text \<open>
  When the server has dropped a pooled connection, the request is sent again over a new one with what
  is left of its body: the whole body has been read by then, so the server gets an empty one.
\<close>

definition post_to :: "string \<Rightarrow> wire_request" where
  "post_to host = (get_from host)\<lparr>wr_Method := ''POST'', wr_ContentLength := -1, wr_Body := ReaderBody [(''ab'', ReadEOF)]\<rparr>"

lemma retry_loses_body:
  "let r1 = h1_RoundTrip (answers 0) (get_from ''a'') (NewHTTP1Transport h1_plain_config);
       b1 = snd (projr (fst r1));
       stale = (answers 10)\<lparr>an_pooled := Inl ''EOF''\<rparr>;
       r2 = h1_RoundTrip stale (post_to ''a'') (snd (body_Read 5 ReadEOF b1 (snd r1)));
       b2 = snd (projr (fst r2));
       sent = (\<lambda>c. bw_sent (hc_writer (ht_conns (snd r2) c))) in
   isl (fst r2) = False \<and> pb_conn b2 = 1 \<and>
   has_suffix (sent 0) (eol @ ''2'' @ eol @ ''ab'' @ eol @ ''0'' @ eol @ eol) \<and>
   has_suffix (sent 1) (eol @ eol @ ''0'' @ eol @ eol)"
  by code_simp

end
