(* ===== verification/ClientCookies.thy ===== *)
theory ClientCookies
  imports GoUrl
begin

text \<open>
  The cookies of the client package, \<open>client/cookie.go\<close> and \<open>client/cookiejar.go\<close>: a second cookie
  jar beside the session's, with rules of its own. Cookies are never changed after they have been
  stored, so that the pointers to them are the cookies themselves. \<open>time.Parse\<close> depends on the
  machine's time zone names; it is the parameter \<open>parse_time\<close>, a function of layout and text.
\<close>

section \<open>Cookies\<close>

record ccookie =
  cc_Name :: string
  cc_Value :: string
  cc_Domain :: string
  cc_Path :: string
  cc_Expires :: "time option"
  cc_MaxAge :: int
  cc_Secure :: bool
  cc_HttpOnly :: bool
  cc_SameSite :: string
  cc_Raw :: string

definition cc_IsExpired :: "time \<Rightarrow> ccookie \<Rightarrow> bool" where
  "cc_IsExpired now c \<longleftrightarrow> cc_MaxAge c < 0 \<or> (case cc_Expires c of None \<Rightarrow> False | Some e \<Rightarrow> now > e)"

definition cc_String :: "ccookie \<Rightarrow> string" where
  "cc_String c = cc_Name c @ ''='' @ cc_Value c"

text \<open>A host without its port, by the last colon.\<close>

definition cut_port :: "string \<Rightarrow> string" where
  "cut_port host = (case last_index_of host '':'' of None \<Rightarrow> host | Some i \<Rightarrow> take i host)"

definition matchesDomain :: "ccookie \<Rightarrow> string \<Rightarrow> bool" where
  "matchesDomain c host0 =
     (let host = to_lower (cut_port host0); domain = to_lower (cc_Domain c) in
      host = domain \<or> (has_prefix domain ''.'' \<and> (host = tl domain \<or> has_suffix host domain)))"

definition matchesPath :: "ccookie \<Rightarrow> string \<Rightarrow> bool" where
  "matchesPath c path0 =
     (if cc_Path c = '''' \<or> cc_Path c = ''/'' then True
      else
        let path = (if path0 = '''' then ''/'' else path0) in
        has_prefix path (cc_Path c) \<and>
        (length path = length (cc_Path c) \<or> path ! length (cc_Path c) = CHR ''/'' \<or> last (cc_Path c) = CHR ''/''))"

definition cc_Matches :: "ccookie \<Rightarrow> URL \<Rightarrow> bool" where
  "cc_Matches c u \<longleftrightarrow>
     matchesDomain c (u_Host u) \<and> matchesPath c (u_Path u) \<and> \<not> (cc_Secure c \<and> u_Scheme u \<noteq> ''https'')"

section \<open>Parsing \<open>Set-Cookie\<close>\<close>

type_synonym cookie_time_parser = "string \<Rightarrow> string \<Rightarrow> time option"

definition expires_layouts :: "string list" where
  "expires_layouts =
     [''Mon, 02 Jan 2006 15:04:05 MST'', ''Mon, 02 Jan 2006 15:04:05 -0700'', ''Mon, 02-Jan-2006 15:04:05 MST'',
      ''Mon, 02 Jan 2006 15:04:05 MST'', ''Monday, 02-Jan-06 15:04:05 MST'', ''Mon Jan 2 15:04:05 2006'']"

fun first_time :: "cookie_time_parser \<Rightarrow> string list \<Rightarrow> string \<Rightarrow> time option" where
  "first_time parse_time [] s = None"
| "first_time parse_time (l # ls) s = (case parse_time l s of Some t \<Rightarrow> Some t | None \<Rightarrow> first_time parse_time ls s)"

definition parseExpires :: "cookie_time_parser \<Rightarrow> string \<Rightarrow> time option" where
  "parseExpires parse_time s = first_time parse_time expires_layouts (trim_space s)"

definition client_parseInt :: "string \<Rightarrow> int" where
  "client_parseInt s0 =
     (let s = trim_space s0;
          negative = has_prefix s ''-'';
          ds = (if negative then tl s else s);
          n = foldl (\<lambda>n c. wrap64 (n * 10 + int (digit_val c))) 0 ds in
      if \<not> list_all is_digit ds then 0 else if negative then wrap64 (- n) else n)"

text \<open>One attribute: its lower-case name and its value, and what it does to the cookie.\<close>

definition split_attr :: "string \<Rightarrow> string \<times> string" where
  "split_attr attr =
     (case index_of attr ''='' of
        Some i \<Rightarrow> (to_lower (trim_space (take i attr)), trim_space (drop (i + 1) attr))
      | None \<Rightarrow> (to_lower attr, ''''))"

definition with_dot :: "string \<Rightarrow> string" where
  "with_dot d = (if has_prefix d ''.'' then d else ''.'' @ d)"

definition apply_attr :: "cookie_time_parser \<Rightarrow> string \<Rightarrow> string \<Rightarrow> ccookie \<Rightarrow> ccookie" where
  "apply_attr parse_time name v c =
     (if name = ''domain'' then (if v = '''' then c else c\<lparr>cc_Domain := with_dot (to_lower v)\<rparr>)
      else if name = ''path'' then (if v = '''' then c else c\<lparr>cc_Path := v\<rparr>)
      else if name = ''expires'' then
        (case parseExpires parse_time v of Some t \<Rightarrow> c\<lparr>cc_Expires := Some t\<rparr> | None \<Rightarrow> c)
      else if name = ''max-age'' then
        (if client_parseInt v \<noteq> 0 \<or> v = ''0'' then c\<lparr>cc_MaxAge := client_parseInt v\<rparr> else c)
      else if name = ''secure'' then c\<lparr>cc_Secure := True\<rparr>
      else if name = ''httponly'' then c\<lparr>cc_HttpOnly := True\<rparr>
      else if name = ''samesite'' then c\<lparr>cc_SameSite := v\<rparr>
      else c)"

definition read_attr :: "cookie_time_parser \<Rightarrow> string \<Rightarrow> ccookie \<Rightarrow> ccookie" where
  "read_attr parse_time part c =
     (let attr = trim_space part in
      if attr = '''' then c else (case split_attr attr of (name, v) \<Rightarrow> apply_attr parse_time name v c))"

definition blank_cookie :: "string \<Rightarrow> string \<Rightarrow> ccookie" where
  "blank_cookie domain raw =
     \<lparr>cc_Name = '''', cc_Value = '''', cc_Domain = domain, cc_Path = ''/'', cc_Expires = None, cc_MaxAge = 0,
      cc_Secure = False, cc_HttpOnly = False, cc_SameSite = '''', cc_Raw = raw\<rparr>"

definition ParseSetCookie :: "cookie_time_parser \<Rightarrow> time \<Rightarrow> string \<Rightarrow> URL option \<Rightarrow> ccookie option" where
  "ParseSetCookie parse_time now header requestURL =
     (if header = '''' then None
      else
        let domain = (case requestURL of None \<Rightarrow> '''' | Some u \<Rightarrow> cut_port (u_Host u));
            parts = split_on CHR '';'' header;
            nameValue = trim_space (hd parts) in
        case index_of nameValue ''='' of
          None \<Rightarrow> None
        | Some i \<Rightarrow>
            let c = (blank_cookie domain header)
                      \<lparr>cc_Name := trim_space (take i nameValue), cc_Value := trim_space (drop (i + 1) nameValue)\<rparr>;
                c1 = fold (read_attr parse_time) (tl parts) c in
            Some (if cc_MaxAge c1 > 0 then c1\<lparr>cc_Expires := Some (now + wrap64 (cc_MaxAge c1 * second))\<rparr> else c1))"

section \<open>The jar\<close>

type_synonym client_jar = "(string, ccookie list) gomap"

definition NewClientJar :: client_jar where
  "NewClientJar = []"

definition domainKey :: "string \<Rightarrow> string" where
  "domainKey domain = trim_prefix (to_lower domain) ''.''"

definition kept_cookies :: "client_jar \<Rightarrow> string \<Rightarrow> ccookie list" where
  "kept_cookies j d = (case map_of j d of None \<Rightarrow> [] | Some cs \<Rightarrow> cs)"

text \<open>One round of the loop of \<open>SetCookies\<close>; \<open>None\<close> is a nil cookie.\<close>

definition set_one :: "time \<Rightarrow> ccookie option \<Rightarrow> client_jar \<Rightarrow> client_jar" where
  "set_one now co j =
     (case co of
        None \<Rightarrow> j
      | Some c \<Rightarrow>
          if cc_Name c = '''' then j
          else
            let d = domainKey (cc_Domain c);
                filtered = filter (\<lambda>e. cc_Name e \<noteq> cc_Name c \<or> cc_Path e \<noteq> cc_Path c) (kept_cookies j d) in
            AList.update d (if cc_IsExpired now c then filtered else filtered @ [c]) j)"

definition cj_SetCookies :: "time \<Rightarrow> ccookie option list \<Rightarrow> client_jar \<Rightarrow> client_jar" where
  "cj_SetCookies now cs j = fold (set_one now) cs j"

definition cj_SetCookiesFromHeaders :: "cookie_time_parser \<Rightarrow> time \<Rightarrow> URL \<Rightarrow> (string, string) gomap \<Rightarrow> client_jar \<Rightarrow> client_jar" where
  "cj_SetCookiesFromHeaders parse_time now u headers j =
     fold (\<lambda>(k, v) j.
       if to_lower k = ''set-cookie'' then
         (case ParseSetCookie parse_time now v (Some u) of None \<Rightarrow> j | Some c \<Rightarrow> cj_SetCookies now [Some c] j)
       else j) headers j"

definition cj_SetCookiesFromHeaderList :: "cookie_time_parser \<Rightarrow> time \<Rightarrow> URL \<Rightarrow> string list \<Rightarrow> client_jar \<Rightarrow> client_jar" where
  "cj_SetCookiesFromHeaderList parse_time now u lines j =
     cj_SetCookies now (filter (\<lambda>c. c \<noteq> None) (map (\<lambda>l. ParseSetCookie parse_time now l (Some u)) lines)) j"

definition cj_SetCookie :: "time \<Rightarrow> URL \<Rightarrow> string \<Rightarrow> string \<Rightarrow> client_jar \<Rightarrow> client_jar" where
  "cj_SetCookie now u name v j =
     cj_SetCookies now [Some ((blank_cookie (u_Host u) '''')\<lparr>cc_Name := name, cc_Value := v\<rparr>)] j"

definition cj_Clear :: "client_jar \<Rightarrow> client_jar" where
  "cj_Clear j = []"

definition cj_ClearDomain :: "string \<Rightarrow> client_jar \<Rightarrow> client_jar" where
  "cj_ClearDomain d j = AList.delete (domainKey d) j"

definition cj_ClearExpired :: "time \<Rightarrow> client_jar \<Rightarrow> client_jar" where
  "cj_ClearExpired now j =
     filter (\<lambda>(d, cs). cs \<noteq> [])
       (map (\<lambda>(d, cs).
         (d, filter (\<lambda>c. cc_MaxAge c \<ge> 0 \<and> (case cc_Expires c of None \<Rightarrow> True | Some e \<Rightarrow> now < e)) cs)) j)"

definition cj_Count :: "client_jar \<Rightarrow> nat" where
  "cj_Count j = sum_list (map (\<lambda>(d, cs). length cs) j)"

definition cj_AllCookies :: "client_jar \<Rightarrow> client_jar" where
  "cj_AllCookies j = j"

text \<open>The stored domains that a host may have cookies of: itself and its parents.\<close>

definition parent_domains :: "string \<Rightarrow> string list" where
  "parent_domains host =
     (let parts = split_on CHR ''.'' host in map (\<lambda>i. join_with ''.'' (drop i parts)) [1..<length parts])"

definition getMatchingDomains :: "string \<Rightarrow> client_jar \<Rightarrow> string list" where
  "getMatchingDomains host j = filter (\<lambda>d. map_of j d \<noteq> None) (host # parent_domains host)"

definition longer_path :: "ccookie \<Rightarrow> ccookie \<Rightarrow> bool" where
  "longer_path a b \<longleftrightarrow> length (cc_Path a) > length (cc_Path b)"

definition sendable :: "time \<Rightarrow> URL \<Rightarrow> ccookie \<Rightarrow> bool" where
  "sendable now u c \<longleftrightarrow>
     \<not> cc_MaxAge c < 0 \<and> \<not> (case cc_Expires c of None \<Rightarrow> False | Some e \<Rightarrow> now > e) \<and> cc_Matches c u"

definition cj_Cookies :: "time \<Rightarrow> URL \<Rightarrow> client_jar \<Rightarrow> ccookie list" where
  "cj_Cookies now u j =
     (let host = to_lower (cut_port (u_Host u)) in
      sort_slice longer_path
        (filter (sendable now u) (concat (map (kept_cookies j) (getMatchingDomains host j)))))"

definition cj_CookieHeader :: "time \<Rightarrow> URL \<Rightarrow> client_jar \<Rightarrow> string" where
  "cj_CookieHeader now u j = join_with ''; '' (map cc_String (cj_Cookies now u j))"

section \<open>Which cookies are sent\<close>

lemma parent_domains_Nil [simp]: "parent_domains [] = []"
  by (simp add: parent_domains_def)

lemma parent_domains_Cons:
  "parent_domains (c # s) = (if c = CHR ''.'' then [s] else []) @ parent_domains s"
proof -
  obtain p ps where s: "split_on CHR ''.'' s = p # ps" by (cases "split_on CHR ''.'' s") auto
  have shift: "map f [Suc 0..<Suc (Suc n)] = f (Suc 0) # map (\<lambda>i. f (Suc i)) [Suc 0..<Suc n]" for f :: "nat \<Rightarrow> string" and n
    by (simp add: upt_conv_Cons map_Suc_upt [symmetric] comp_def del: upt_Suc)
  have join: "join_with ''.'' (p # ps) = s" using join_split [of "CHR ''.''" s] by (simp add: s)
  show ?thesis
  proof (cases "c = CHR ''.''")
    case True
    then show ?thesis
      by (simp add: parent_domains_def s shift join comp_def Let_def del: upt_Suc)
  next
    case False
    have "drop i ((c # p) # ps) = drop i (p # ps)" if "i \<in> set [1..<Suc (length ps)]" for i
    proof -
      have "i \<noteq> 0" using that by (simp del: upt_Suc)
      then show ?thesis by (cases i) simp_all
    qed
    then have "map (\<lambda>i. join_with ''.'' (drop i ((c # p) # ps))) [1..<Suc (length ps)] =
        map (\<lambda>i. join_with ''.'' (drop i (p # ps))) [1..<Suc (length ps)]"
      by (intro map_cong) auto
    then show ?thesis using False by (simp add: parent_domains_def s Let_def del: upt_Suc)
  qed
qed

lemma set_parent_domains: "set (parent_domains host) = {s. \<exists>p. host = p @ ''.'' @ s}"
  by (induction host) (auto simp: parent_domains_Cons Cons_eq_append_conv split: if_splits)

lemma distinct_parent_domains: "distinct (host # parent_domains host)"
proof -
  have shorter: "s \<in> set (parent_domains h) \<Longrightarrow> length s < length h" for s h
    by (auto simp: set_parent_domains)
  have "distinct (parent_domains h)" for h
    by (induction h) (auto simp: parent_domains_Cons dest: shorter)
  then show ?thesis using shorter by fastforce
qed

text \<open>A jar is well formed when every cookie is filed under its own domain's key, at most one per name and path.\<close>

definition cookies_ok :: "string \<Rightarrow> ccookie list \<Rightarrow> bool" where
  "cookies_ok d cs \<longleftrightarrow>
     (\<forall>c \<in> set cs. domainKey (cc_Domain c) = d \<and> cc_Name c \<noteq> '''') \<and>
     distinct (map (\<lambda>c. (cc_Name c, cc_Path c)) cs)"

definition client_jar_ok :: "client_jar \<Rightarrow> bool" where
  "client_jar_ok j \<longleftrightarrow> map_wf j \<and> (\<forall>(d, cs) \<in> set j. cookies_ok d cs)"

lemma jar_cookies_ok: "client_jar_ok j \<Longrightarrow> cookies_ok d (kept_cookies j d)"
  by (auto simp: client_jar_ok_def kept_cookies_def cookies_ok_def split: option.splits dest: map_of_SomeD)

lemma cookies_ok_filter: "cookies_ok d cs \<Longrightarrow> cookies_ok d (filter P cs)"
  by (auto simp: cookies_ok_def distinct_map intro: inj_on_subset)

lemma client_jar_ok_update: "client_jar_ok j \<Longrightarrow> cookies_ok d cs \<Longrightarrow> client_jar_ok (AList.update d cs j)"
  by (auto simp: client_jar_ok_def map_wf_in split: if_splits)

lemma set_one_ok:
  assumes "client_jar_ok j"
  shows "client_jar_ok (set_one now co j)"
proof (cases co)
  case (Some c)
  let ?d = "domainKey (cc_Domain c)"
  let ?f = "filter (\<lambda>e. cc_Name e \<noteq> cc_Name c \<or> cc_Path e \<noteq> cc_Path c) (kept_cookies j ?d)"
  have f: "cookies_ok ?d ?f" using jar_cookies_ok [OF assms] by (rule cookies_ok_filter)
  have new: "(cc_Name c, cc_Path c) \<notin> (\<lambda>e. (cc_Name e, cc_Path e)) ` set ?f" by auto
  have "cookies_ok d (cs @ [c])" if "cookies_ok d cs" "(cc_Name c, cc_Path c) \<notin> (\<lambda>e. (cc_Name e, cc_Path e)) ` set cs"
    "domainKey (cc_Domain c) = d" "cc_Name c \<noteq> ''''" for d cs
    using that by (simp add: cookies_ok_def)
  from this [OF f new] have "cc_Name c \<noteq> '''' \<Longrightarrow> cookies_ok ?d (?f @ [c])" by simp
  with f have ok: "cc_Name c \<noteq> '''' \<Longrightarrow> cookies_ok ?d (if cc_IsExpired now c then ?f else ?f @ [c])" by simp
  show ?thesis
  proof (cases "cc_Name c = ''''")
    case False
    have "set_one now co j = AList.update ?d (if cc_IsExpired now c then ?f else ?f @ [c]) j"
      using False by (simp add: set_one_def Some Let_def)
    with client_jar_ok_update [OF assms ok [OF False]] show ?thesis by simp
  qed (use assms in \<open>simp add: set_one_def Some\<close>)
qed (use assms in \<open>simp add: set_one_def\<close>)

lemma set_cookies_ok: "client_jar_ok j \<Longrightarrow> client_jar_ok (cj_SetCookies now cs j)"
  unfolding cj_SetCookies_def by (rule fold_invariant [where Q = "\<lambda>_. True"]) (auto intro: set_one_ok)

lemma set_headers_ok: "client_jar_ok j \<Longrightarrow> client_jar_ok (cj_SetCookiesFromHeaders parse_time now u hs j)"
  unfolding cj_SetCookiesFromHeaders_def
  by (rule fold_invariant [where Q = "\<lambda>_. True"]) (auto intro: set_cookies_ok split: option.splits)

lemma clear_expired_ok:
  assumes "client_jar_ok j"
  shows "client_jar_ok (cj_ClearExpired now j)"
proof -
  have "map_wf (cj_ClearExpired now j)"
    unfolding cj_ClearExpired_def using assms
    by (intro map_wf_filter) (simp add: client_jar_ok_def map_wf_map_snd)
  with assms show ?thesis by (auto simp: client_jar_ok_def cj_ClearExpired_def intro!: cookies_ok_filter)
qed

interpretation path_order: slice_order longer_path
  by unfold_locales (auto simp: longer_path_def)



text \<open>A cookie that matches a host is filed under the host or one of its parents.\<close>

lemma matching_key:
  assumes "matchesDomain c h"
  shows "domainKey (cc_Domain c) \<in> set (to_lower (cut_port h) # parent_domains (to_lower (cut_port h)))"
proof -
  let ?host = "to_lower (cut_port h)" and ?d = "to_lower (cc_Domain c)"
  have key: "domainKey (cc_Domain c) = trim_prefix ?d ''.''" by (simp add: domainKey_def)
  show ?thesis
  proof (cases "has_prefix ?d ''.''")
    case True
    then obtain d where d: "?d = ''.'' @ d" by (auto simp: has_prefix_iff)
    then have "trim_prefix ?d ''.'' = d" using trim_prefix_append [of "''.''" d] by simp
    moreover have "?host = ''.'' @ d \<or> ?host = d \<or> (\<exists>p. ?host = p @ ''.'' @ d)"
      using assms by (auto simp: matchesDomain_def Let_def d has_suffix_iff)
    ultimately show ?thesis by (auto simp: key set_parent_domains)
  next
    case False
    then show ?thesis using assms by (auto simp: matchesDomain_def Let_def key trim_prefix_def)
  qed
qed

lemma mset_concat_perm:
  assumes "distinct xs" "distinct ys" "set xs = set ys"
  shows "mset (concat (map f xs)) = mset (concat (map f ys))"
proof -
  have "mset xs = mset ys" using assms by (simp add: set_eq_iff_mset_eq_distinct)
  then have "image_mset (\<lambda>x. mset (f x)) (mset xs) = image_mset (\<lambda>x. mset (f x)) (mset ys)" by simp
  moreover have "mset (concat (map f zs)) = sum_mset (image_mset (\<lambda>x. mset (f x)) (mset zs))" for zs
    by (induction zs) auto
  ultimately show ?thesis by simp
qed

text \<open>All cookies of a jar, and those of a list of domains.\<close>

definition stored_cookies :: "client_jar \<Rightarrow> ccookie list" where
  "stored_cookies j = concat (map snd j)"

lemma stored_by_key:
  assumes "map_wf j"
  shows "stored_cookies j = concat (map (kept_cookies j) (map fst j))"
proof -
  have "map (kept_cookies j \<circ> fst) j = map snd j"
    using assms by (auto simp: kept_cookies_def map_wf_in [OF assms])
  then show ?thesis by (simp only: stored_cookies_def map_map)
qed

lemma concat_map_irrelevant: "(\<And>d. d \<in> set ds \<Longrightarrow> \<not> P d \<Longrightarrow> f d = []) \<Longrightarrow> concat (map f (filter P ds)) = concat (map f ds)"
  by (induction ds) auto

lemma cookies_sent:
  assumes "client_jar_ok j"
  shows "mset (cj_Cookies now u j) = mset (filter (sendable now u) (stored_cookies j))"
proof -
  let ?h = "to_lower (cut_port (u_Host u))"
  let ?own = "?h # parent_domains ?h"
  let ?f = "\<lambda>d. filter (sendable now u) (kept_cookies j d)"
  have wf: "map_wf j" using assms by (simp add: client_jar_ok_def)
  have keys: "set (filter (\<lambda>d. d \<in> set ?own) (map fst j)) = set (getMatchingDomains ?h j)"
  proof -
    have "set (filter (\<lambda>d. d \<in> set own) (map fst j)) = set (filter (\<lambda>d. map_of j d \<noteq> None) own)" for own
      by (auto simp: map_of_eq_None_iff)
    then show ?thesis by (simp only: getMatchingDomains_def)
  qed
  have dist: "distinct (getMatchingDomains ?h j)"
    unfolding getMatchingDomains_def by (intro distinct_filter distinct_parent_domains)
  have elsewhere: "?f d = []" if "d \<notin> set ?own" for d
  proof -
    have "\<not> sendable now u c" if "c \<in> set (kept_cookies j d)" for c
    proof
      assume "sendable now u c"
      then have "domainKey (cc_Domain c) \<in> set ?own" by (intro matching_key) (simp add: sendable_def cc_Matches_def)
      moreover have "domainKey (cc_Domain c) = d" using jar_cookies_ok [OF assms, of d] that by (auto simp: cookies_ok_def)
      ultimately show False using \<open>d \<notin> set ?own\<close> by simp
    qed
    then show ?thesis by (simp add: filter_empty_conv)
  qed
  have "mset (cj_Cookies now u j) = mset (concat (map ?f (getMatchingDomains ?h j)))"
    by (simp add: cj_Cookies_def Let_def filter_concat comp_def del: mset_filter)
  also have "\<dots> = mset (concat (map ?f (filter (\<lambda>d. d \<in> set ?own) (map fst j))))"
    using dist wf keys by (intro mset_concat_perm) (simp_all add: map_wf_def)
  also have "concat (map ?f (filter (\<lambda>d. d \<in> set ?own) (map fst j))) = concat (map ?f (map fst j))"
    by (rule concat_map_irrelevant) (rule elsewhere)
  also have "\<dots> = filter (sendable now u) (stored_cookies j)"
    by (simp add: stored_by_key [OF wf] filter_concat comp_def)
  finally show ?thesis .
qed

section \<open>Runs\<close>

datatype client_jar_op =
    SetCookiesOp time "ccookie option list"
  | SetHeadersOp cookie_time_parser time URL "(string, string) gomap"
  | SetHeaderListOp cookie_time_parser time URL "string list"
  | SetCookieOp time URL string string
  | ClearOp
  | ClearDomainOp string
  | ClearExpiredOp time

fun client_jar_step :: "client_jar_op \<Rightarrow> client_jar \<Rightarrow> client_jar" where
  "client_jar_step (SetCookiesOp now cs) j = cj_SetCookies now cs j"
| "client_jar_step (SetHeadersOp parse_time now u hs) j = cj_SetCookiesFromHeaders parse_time now u hs j"
| "client_jar_step (SetHeaderListOp parse_time now u ls) j = cj_SetCookiesFromHeaderList parse_time now u ls j"
| "client_jar_step (SetCookieOp now u n v) j = cj_SetCookie now u n v j"
| "client_jar_step ClearOp j = cj_Clear j"
| "client_jar_step (ClearDomainOp d) j = cj_ClearDomain d j"
| "client_jar_step (ClearExpiredOp now) j = cj_ClearExpired now j"

lemma client_jar_ok_step: "client_jar_ok j \<Longrightarrow> client_jar_ok (client_jar_step op j)"
proof (cases op)
  case (ClearDomainOp d)
  assume ok: "client_jar_ok j"
  have "set (AList.delete (domainKey d) j) \<subseteq> set j" by (auto simp: AList.delete_eq)
  with ok show ?thesis unfolding ClearDomainOp client_jar_ok_def by (auto simp: cj_ClearDomain_def)
qed (auto simp: cj_SetCookiesFromHeaderList_def cj_SetCookie_def cj_Clear_def client_jar_ok_def [of "[]"]
      intro: set_cookies_ok set_headers_ok clear_expired_ok)

interpretation client_jars: started_machine client_jar_step "\<lambda>_. True" client_jar_ok NewClientJar
  by unfold_locales (rule client_jar_ok_step, assumption, simp add: NewClientJar_def client_jar_ok_def)

lemma client_jar_reach: "client_jar_ok (fold client_jar_step ops NewClientJar)"
  by (rule client_jars.reach_inv) (simp add: list_all_iff)

text \<open>C10. Whatever was done to a client's jar, \<open>Cookies\<close> returns exactly the stored cookies that have not
expired and match the URL's host, path and scheme, each as often as it is stored, longer paths first. The
walk over the host and its parents misses none, as a cookie that matches is filed under one of them.\<close>

theorem client_cookies_exact:
  "let j = fold client_jar_step ops NewClientJar in
   mset (cj_Cookies now u j) = mset (filter (sendable now u) (stored_cookies j)) \<and>
   sorted_wrt (\<lambda>a b. length (cc_Path b) \<le> length (cc_Path a)) (cj_Cookies now u j)"
proof -
  have "sorted_slice longer_path (cj_Cookies now u j)" for j
    by (simp add: cj_Cookies_def Let_def path_order.sorted_sort_slice)
  then show ?thesis
    using cookies_sent [OF client_jar_reach] by (simp add: Let_def sorted_slice_def longer_path_def not_less)
qed

text \<open>The table of a client's jar is always well formed: a domain has one entry, the cookies in it have
a name and that domain as their key, and no two of them have the same name and path.\<close>

theorem client_jar_typed:
  "let j = fold client_jar_step ops NewClientJar in
   distinct (map fst j) \<and>
   (\<forall>(d, cs) \<in> set j. (\<forall>c \<in> set cs. domainKey (cc_Domain c) = d \<and> cc_Name c \<noteq> '''') \<and>
     distinct (map (\<lambda>c. (cc_Name c, cc_Path c)) cs))"
  using client_jar_reach [of ops] by (auto simp: Let_def client_jar_ok_def map_wf_def cookies_ok_def)

definition host_url :: "string \<Rightarrow> URL" where
  "host_url h = empty_url\<lparr>u_Scheme := ''https'', u_Host := h, u_Path := ''/''\<rparr>"

lemma client_jar_typed_witness:
  "let j = fold client_jar_step [SetCookieOp 0 (host_url ''a.test'') ''sid'' ''1'', SetCookieOp 0 (host_url ''b.test'') ''sid'' ''2''] NewClientJar in
   length j = 2 \<and> distinct (map fst j) \<and> (\<forall>(d, cs) \<in> set j. \<forall>c \<in> set cs. domainKey (cc_Domain c) = d)"
proof -
  let ?ops = "[SetCookieOp 0 (host_url ''a.test'') ''sid'' ''1'', SetCookieOp 0 (host_url ''b.test'') ''sid'' ''2'']"
  have "length (fold client_jar_step ?ops NewClientJar) = 2"
    by code_simp
  then show ?thesis
    using client_jar_typed [of ?ops] by (auto simp: Let_def simp del: fold_simps)
qed

section \<open>The jar as a map\<close>

text \<open>What the jar is: at most one cookie for every domain, name and path.\<close>

type_synonym cookie_map = "string \<times> string \<times> string \<Rightarrow> ccookie option"

definition by_name :: "ccookie list \<Rightarrow> ((string \<times> string) \<times> ccookie) list" where
  "by_name cs = map (\<lambda>c. ((cc_Name c, cc_Path c), c)) cs"

definition cookie_at :: "client_jar \<Rightarrow> cookie_map" where
  "cookie_at j = (\<lambda>(d, np). map_of (by_name (kept_cookies j d)) np)"

definition spec_one :: "time \<Rightarrow> ccookie option \<Rightarrow> cookie_map \<Rightarrow> cookie_map" where
  "spec_one now co m =
     (case co of
        None \<Rightarrow> m
      | Some c \<Rightarrow>
          if cc_Name c = '''' then m
          else m((domainKey (cc_Domain c), cc_Name c, cc_Path c) := if cc_IsExpired now c then None else Some c))"

definition spec_headers :: "cookie_time_parser \<Rightarrow> time \<Rightarrow> URL \<Rightarrow> string list \<Rightarrow> cookie_map \<Rightarrow> cookie_map" where
  "spec_headers parse_time now u ls m = fold (\<lambda>l. spec_one now (ParseSetCookie parse_time now l (Some u))) ls m"

definition still_valid :: "time \<Rightarrow> ccookie \<Rightarrow> bool" where
  "still_valid now c \<longleftrightarrow> cc_MaxAge c \<ge> 0 \<and> (case cc_Expires c of None \<Rightarrow> True | Some e \<Rightarrow> now < e)"

fun client_spec_step :: "client_jar_op \<Rightarrow> cookie_map \<Rightarrow> cookie_map" where
  "client_spec_step (SetCookiesOp now cs) m = fold (spec_one now) cs m"
| "client_spec_step (SetHeadersOp parse_time now u hs) m =
     spec_headers parse_time now u (map snd (filter (\<lambda>(k, v). to_lower k = ''set-cookie'') hs)) m"
| "client_spec_step (SetHeaderListOp parse_time now u ls) m = spec_headers parse_time now u ls m"
| "client_spec_step (SetCookieOp now u n v) m =
     spec_one now (Some ((blank_cookie (u_Host u) '''')\<lparr>cc_Name := n, cc_Value := v\<rparr>)) m"
| "client_spec_step ClearOp m = (\<lambda>k. None)"
| "client_spec_step (ClearDomainOp d) m = (\<lambda>(k, np). if k = domainKey d then None else m (k, np))"
| "client_spec_step (ClearExpiredOp now) m =
     (\<lambda>k. case m k of None \<Rightarrow> None | Some c \<Rightarrow> if still_valid now c then Some c else None)"

lemma named_filter: "map_of (by_name (filter (\<lambda>e. cc_Name e = n \<longrightarrow> cc_Path e \<noteq> p) cs)) = (map_of (by_name cs))((n, p) := None)"
proof -
  have "by_name (filter (\<lambda>e. cc_Name e = n \<longrightarrow> cc_Path e \<noteq> p) cs) = AList.delete (n, p) (by_name cs)"
    by (auto simp: by_name_def AList.delete_eq filter_map comp_def intro!: map_cong filter_cong)
  then show ?thesis by simp
qed

lemma named_append: "map_of (by_name (cs @ [c])) = [(cc_Name c, cc_Path c) \<mapsto> c] ++ map_of (by_name cs)"
  by (simp add: by_name_def)

lemma jar_cookies_update: "kept_cookies (AList.update d cs j) d' = (if d' = d then cs else kept_cookies j d')"
  by (simp add: kept_cookies_def)

lemma refine_one: "cookie_at (set_one now co j) = spec_one now co (cookie_at j)"
proof (cases "case co of None \<Rightarrow> True | Some c \<Rightarrow> cc_Name c = ''''")
  case True
  then show ?thesis by (auto simp: set_one_def spec_one_def split: option.splits)
next
  case False
  then obtain c where c: "co = Some c" "cc_Name c \<noteq> ''''" by (auto split: option.splits)
  let ?d = "domainKey (cc_Domain c)"
  let ?k = "(cc_Name c, cc_Path c)"
  let ?f = "filter (\<lambda>e. cc_Name e \<noteq> cc_Name c \<or> cc_Path e \<noteq> cc_Path c) (kept_cookies j ?d)"
  let ?new = "if cc_IsExpired now c then ?f else ?f @ [c]"
  have "map_of (by_name ?new) = (map_of (by_name (kept_cookies j ?d)))(?k := if cc_IsExpired now c then None else Some c)"
    by (auto simp: named_append named_filter [of "cc_Name c"] map_add_def fun_eq_iff split: option.splits)
  moreover have "set_one now co j = AList.update ?d ?new j" using c by (simp add: set_one_def Let_def)
  ultimately have "cookie_at (set_one now co j) (d, np) = spec_one now co (cookie_at j) (d, np)" for d np
    using c by (simp add: cookie_at_def jar_cookies_update spec_one_def)
  then show ?thesis by auto
qed

lemma refine_cookies: "cookie_at (cj_SetCookies now cs j) = fold (spec_one now) cs (cookie_at j)"
  unfolding cj_SetCookies_def by (induction cs arbitrary: j) (simp_all add: refine_one)

lemma spec_one_None [simp]: "spec_one now None m = m"
  by (simp add: spec_one_def)

lemma refine_header_list:
  "cookie_at (cj_SetCookiesFromHeaderList parse_time now u ls j) = spec_headers parse_time now u ls (cookie_at j)"
proof -
  have "fold (spec_one now) (filter (\<lambda>c. c \<noteq> None) (map f ls)) m = fold (\<lambda>l. spec_one now (f l)) ls m" for f and m
    by (induction ls arbitrary: m) auto
  then show ?thesis by (simp add: cj_SetCookiesFromHeaderList_def refine_cookies spec_headers_def)
qed

lemma refine_headers:
  "cookie_at (cj_SetCookiesFromHeaders parse_time now u hs j) =
   spec_headers parse_time now u (map snd (filter (\<lambda>(k, v). to_lower k = ''set-cookie'') hs)) (cookie_at j)"
  unfolding cj_SetCookiesFromHeaders_def spec_headers_def
  by (induction hs arbitrary: j) (auto simp: refine_cookies split: option.split)

lemma refine_clear_expired:
  assumes "client_jar_ok j"
  shows "cookie_at (cj_ClearExpired now j) (d, np) =
    (case cookie_at j (d, np) of None \<Rightarrow> None | Some c \<Rightarrow> if still_valid now c then Some c else None)"
proof -
  let ?live = "\<lambda>cs. filter (still_valid now) cs"
  have wf: "map_wf j" using assms by (simp add: client_jar_ok_def)
  have j: "cj_ClearExpired now j = filter (\<lambda>(d, cs). cs \<noteq> []) (map (\<lambda>(d, cs). (d, ?live cs)) j)"
    by (simp add: cj_ClearExpired_def still_valid_def [abs_def])
  have "map_of (filter (\<lambda>(d, cs). cs \<noteq> []) m) d = (case map_of m d of None \<Rightarrow> None | Some cs \<Rightarrow> if cs = [] then None else Some cs)"
    if "map_wf m" for m :: client_jar
    using that by (induction m) (auto split: option.splits)
  from this [of "map (\<lambda>(d, cs). (d, ?live cs)) j"]
  have "kept_cookies (cj_ClearExpired now j) d = ?live (kept_cookies j d)"
    using wf by (auto simp: j kept_cookies_def map_wf_map_snd map_of_map_snd split: option.splits)
  moreover have "map_of (by_name (?live cs)) np = (case map_of (by_name cs) np of None \<Rightarrow> None | Some c \<Rightarrow> if still_valid now c then Some c else None)"
    if "distinct (map (\<lambda>c. (cc_Name c, cc_Path c)) cs)" for cs
    using that
  proof (induction cs)
    case (Cons c cs)
    then have "(cc_Name c, cc_Path c) = np \<Longrightarrow> map_of (by_name cs) np = None"
      by (force simp: map_of_eq_None_iff by_name_def)
    with Cons show ?case by (cases "(cc_Name c, cc_Path c) = np") (auto simp: by_name_def)
  qed (simp add: by_name_def)
  ultimately show ?thesis using jar_cookies_ok [OF assms, of d] by (simp add: cookie_at_def cookies_ok_def)
qed

lemma refine_step:
  assumes "client_jar_ok j"
  shows "cookie_at (client_jar_step op j) = client_spec_step op (cookie_at j)"
proof (cases op)
  case (ClearExpiredOp now)
  then show ?thesis using refine_clear_expired [OF assms] by (auto simp: fun_eq_iff)
next
  case ClearOp
  then show ?thesis by (auto simp: cj_Clear_def cookie_at_def kept_cookies_def by_name_def)
next
  case (ClearDomainOp d)
  then show ?thesis by (auto simp: cj_ClearDomain_def cookie_at_def kept_cookies_def by_name_def fun_eq_iff)
qed (simp_all add: refine_cookies refine_headers refine_header_list cj_SetCookie_def)

text \<open>C11. A client's jar is a map from domain, name and path to a cookie: whatever is done to it, what it
stores is what the same operations do to that map, where setting replaces or, for an expired cookie,
removes exactly one entry.\<close>

theorem client_jar_refines:
  "cookie_at (fold client_jar_step ops NewClientJar) = fold client_spec_step ops (\<lambda>k. None)"
proof (induction ops rule: rev_induct)
  case Nil
  then show ?case by (simp add: cookie_at_def NewClientJar_def kept_cookies_def by_name_def fun_eq_iff)
next
  case (snoc op ops)
  then show ?case using refine_step [OF client_jar_reach, of op ops] by simp
qed

section \<open>Where the rules fall short\<close>

definition after_line :: "string \<Rightarrow> string \<Rightarrow> client_jar" where
  "after_line h line = cj_SetCookiesFromHeaderList (\<lambda>l s. None) 0 (host_url h) [line] NewClientJar"

text \<open>A response may set cookies for a domain it does not belong to.\<close>

lemma foreign_domain_accepted:
  "cj_CookieHeader 0 (host_url ''bank.test'') (after_line ''evil.test'' ''sid=x; Domain=bank.test'') = ''sid=x''"
  by code_simp

text \<open>\<open>Max-Age=0\<close> keeps the cookie, which then never expires, where it should remove it.\<close>

lemma max_age_zero_kept:
  "cj_CookieHeader (10 * hour) (host_url ''a.test'') (after_line ''a.test'' ''sid=x; Max-Age=0'') = ''sid=x''"
  by code_simp

text \<open>An IPv6 address without a port is cut at its last colon, so a cookie goes to other addresses too.\<close>

lemma ipv6_cookie_shared:
  "cj_CookieHeader 0 (host_url ''[2001:db8::2]'') (after_line ''[2001:db8::1]'' ''sid=x'') = ''sid=x''"
  by code_simp

text \<open>\<open>SetCookie\<close> keeps the port in the domain, so for a URL with a port the cookie is never sent.\<close>

lemma own_cookie_lost:
  "cj_CookieHeader 0 (host_url ''a.test:8443'') (cj_SetCookie 0 (host_url ''a.test:8443'') ''n'' ''v'' NewClientJar) = ''''"
  by code_simp

end
