(* ===== verification/ClientUrl.thy ===== *)
theory ClientUrl
  imports GoUrl
begin

text \<open>
  The URL helpers of the client, \<open>client/url.go\<close>, over the query part of Go's \<open>net/url\<close>:
  \<open>QueryEscape\<close>, \<open>ParseQuery\<close> and \<open>Values\<close>. A \<open>Values\<close> map is an association list; its order stands
  for the order of a \<open>range\<close> loop.
\<close>

section \<open>Queries\<close>

definition query_safe :: "char \<Rightarrow> bool" where
  "query_safe c \<longleftrightarrow> is_alpha c \<or> is_digit c \<or> c \<in> set ''-_.~''"

definition escape_char :: "char \<Rightarrow> string" where
  "escape_char c =
     (if query_safe c then [c] else if c = CHR '' '' then ''+''
      else [CHR ''%'', upper_hex (of_char c div 16), upper_hex (of_char c mod 16)])"

definition QueryEscape :: "string \<Rightarrow> string" where
  "QueryEscape s = concat (map escape_char s)"

fun QueryUnescape :: "string \<Rightarrow> string option" where
  "QueryUnescape [] = Some []"
| "QueryUnescape (c # s) =
     (if c = CHR ''%'' then
        (case s of
           h # l # rest \<Rightarrow>
             (case (hex_val h, hex_val l) of
                (Some a, Some b) \<Rightarrow> map_option ((#) (char_of (a * 16 + b))) (QueryUnescape rest)
              | _ \<Rightarrow> None)
         | _ \<Rightarrow> None)
      else map_option ((#) (if c = CHR ''+'' then CHR '' '' else c)) (QueryUnescape s))"

type_synonym url_values = "(string, string list) gomap"

definition values_of :: "url_values \<Rightarrow> string \<Rightarrow> string list" where
  "values_of m k = (case map_of m k of None \<Rightarrow> [] | Some vs \<Rightarrow> vs)"

definition Values_Set :: "string \<Rightarrow> string \<Rightarrow> url_values \<Rightarrow> url_values" where
  "Values_Set k v m = AList.update k [v] m"

definition Values_Add :: "string \<Rightarrow> string \<Rightarrow> url_values \<Rightarrow> url_values" where
  "Values_Add k v m = AList.update k (values_of m k @ [v]) m"

text \<open>\<open>ParseQuery\<close>: the values of the parts that could be read, and whether some could not.\<close>

definition query_part :: "string \<Rightarrow> (string \<times> string) option" where
  "query_part p =
     (if CHR '';'' \<in> set p then None
      else case QueryUnescape (fst (cut_at CHR ''='' p)) of
          None \<Rightarrow> None
        | Some k \<Rightarrow>
            (case QueryUnescape (snd (cut_at CHR ''='' p)) of
               None \<Rightarrow> None
             | Some v \<Rightarrow> Some (k, v)))"

fun query_pairs :: "string list \<Rightarrow> url_values \<Rightarrow> bool \<Rightarrow> url_values \<times> bool" where
  "query_pairs [] m bad = (m, bad)"
| "query_pairs (p # ps) m bad =
     (if p = '''' then query_pairs ps m bad
      else case query_part p of
          None \<Rightarrow> query_pairs ps m True
        | Some (k, v) \<Rightarrow> query_pairs ps (Values_Add k v m) bad)"

definition ParseQuery :: "string \<Rightarrow> url_values \<times> bool" where
  "ParseQuery q = query_pairs (split_on CHR ''&'' q) [] False"

definition string_before :: "string \<Rightarrow> string \<Rightarrow> bool" where
  "string_before a b \<longleftrightarrow> (a, b) \<in> lexord {(x, y). of_char x < (of_char y :: nat)}"

definition pair_text :: "string \<Rightarrow> string \<Rightarrow> string" where
  "pair_text k v = QueryEscape k @ ''='' @ QueryEscape v"

definition Encode :: "url_values \<Rightarrow> string" where
  "Encode m =
     join_with ''&'' (concat (map (\<lambda>k. map (pair_text k) (values_of m k)) (sort_slice string_before (map fst m))))"

section \<open>The URL builder\<close>

record url_builder =
  ub_base :: string
  ub_params :: url_values

definition NewURLBuilder :: "string \<Rightarrow> url_builder" where
  "NewURLBuilder b = \<lparr>ub_base = b, ub_params = []\<rparr>"

definition ub_Param :: "string \<Rightarrow> string \<Rightarrow> url_builder \<Rightarrow> url_builder" where
  "ub_Param k v b = b\<lparr>ub_params := Values_Set k v (ub_params b)\<rparr>"

definition ub_Params :: "(string, string) gomap \<Rightarrow> url_builder \<Rightarrow> url_builder" where
  "ub_Params ps b = fold (\<lambda>(k, v). ub_Param k v) ps b"

definition ub_AddParam :: "string \<Rightarrow> string \<Rightarrow> url_builder \<Rightarrow> url_builder" where
  "ub_AddParam k v b = b\<lparr>ub_params := Values_Add k v (ub_params b)\<rparr>"

text \<open>The loops of \<open>Build\<close> that add the parameters to those of the base.\<close>

definition add_values :: "url_values \<Rightarrow> url_values \<Rightarrow> url_values" where
  "add_values ps m = fold (\<lambda>(k, vs) m. fold (Values_Add k) vs m) ps m"

definition ub_Build :: "url_builder \<Rightarrow> string" where
  "ub_Build b =
     (if ub_params b = [] then ub_base b
      else case Parse (ub_base b) of
          None \<Rightarrow> ub_base b @ ''?'' @ Encode (ub_params b)
        | Some u \<Rightarrow> URL_String (u\<lparr>u_RawQuery := Encode (add_values (ub_params b) (fst (ParseQuery (u_RawQuery u))))\<rparr>))"

text \<open>\<open>sortedEncode\<close> writes the separators while it goes.\<close>

definition sortedEncode :: "url_values \<Rightarrow> string" where
  "sortedEncode m =
     (if m = [] then ''''
      else
        snd (fold (\<lambda>k (i, out).
          (i + 1,
           snd (fold (\<lambda>v (j, out). (j + 1, out @ (if j > 0 then ''&'' else '''') @ pair_text k v)) (values_of m k)
             (0 :: nat, out @ (if i > 0 then ''&'' else ''''))))) (sort_slice string_before (map fst m)) (0 :: nat, '''')))"

definition ub_BuildSorted :: "url_builder \<Rightarrow> string" where
  "ub_BuildSorted b =
     (if ub_params b = [] then ub_base b
      else case Parse (ub_base b) of
          None \<Rightarrow> ub_base b @ ''?'' @ sortedEncode (ub_params b)
        | Some u \<Rightarrow> URL_String (u\<lparr>u_RawQuery := sortedEncode (add_values (ub_params b) (fst (ParseQuery (u_RawQuery u))))\<rparr>))"

definition EncodeParams :: "(string, string) gomap \<Rightarrow> string" where
  "EncodeParams params = (if params = [] then '''' else Encode (fold (\<lambda>(k, v). Values_Set k v) params []))"

definition DecodeParams :: "string \<Rightarrow> (string, string) gomap option" where
  "DecodeParams query =
     (case ParseQuery query of (m, bad) \<Rightarrow>
        if bad then None else Some (map (\<lambda>(k, vs). (k, hd vs)) (filter (\<lambda>(k, vs). vs \<noteq> []) m)))"

section \<open>Redirect targets\<close>

definition JoinURL :: "string \<Rightarrow> string \<Rightarrow> string" where
  "JoinURL base path =
     (if path = '''' then base
      else if has_prefix path ''http://'' \<or> has_prefix path ''https://'' then path
      else case Parse base of
          None \<Rightarrow> base @ ''/'' @ trim_prefix path ''/''
        | Some u \<Rightarrow>
            if has_prefix path ''//'' then u_Scheme u @ '':'' @ path
            else if has_prefix path ''/'' then URL_String (u\<lparr>u_Path := path, u_RawQuery := ''''\<rparr>)
            else
              let dir =
                (if has_suffix (u_Path u) ''/'' then u_Path u
                 else case last_index_of (u_Path u) ''/'' of Some i \<Rightarrow> take (i + 1) (u_Path u) | None \<Rightarrow> ''/'') in
              URL_String (u\<lparr>u_Path := dir @ path, u_RawQuery := ''''\<rparr>))"

section \<open>Parameters come back\<close>

lemma hex_val_upper: "d < 16 \<Longrightarrow> hex_val (upper_hex d) = Some d"
proof -
  assume "d < 16"
  then show ?thesis by (auto simp: hex_val_def upper_hex_def Let_def)
qed

lemma unescape_escape_char: "QueryUnescape (escape_char c @ s) = map_option ((#) c) (QueryUnescape s)"
proof (cases "query_safe c \<or> c = CHR '' ''")
  case True
  then show ?thesis by (auto simp: escape_char_def query_safe_def is_alpha_def is_digit_def)
next
  case False
  have "of_char c < (256 :: nat)" by simp
  then have "of_char c div 16 < (16 :: nat)" "of_char c mod 16 < (16 :: nat)" by (simp_all add: less_mult_imp_div_less)
  moreover have "char_of (of_char c div 16 * 16 + of_char c mod 16 :: nat) = c" by (simp add: div_mult_mod_eq)
  ultimately show ?thesis using False by (simp add: escape_char_def hex_val_upper)
qed

lemma unescape_escape: "QueryUnescape (QueryEscape s) = Some s"
  by (induction s) (auto simp: QueryEscape_def unescape_escape_char)

text \<open>The characters that structure a query do not occur in escaped text.\<close>

lemma upper_hex_safe: "d < 16 \<Longrightarrow> query_safe (upper_hex d)"
  by (auto simp: upper_hex_def query_safe_def is_alpha_def is_digit_def Let_def)

lemma escape_char_text:
  assumes "x \<in> set (escape_char c)"
  shows "x \<noteq> CHR ''&'' \<and> x \<noteq> CHR ''='' \<and> x \<noteq> CHR '';''"
proof -
  have safe: "query_safe y \<Longrightarrow> y \<noteq> CHR ''&'' \<and> y \<noteq> CHR ''='' \<and> y \<noteq> CHR '';''" for y
    by (auto simp: query_safe_def is_alpha_def is_digit_def)
  have "of_char c < (256 :: nat)" by simp
  then have "of_char c div 16 < (16 :: nat)" "of_char c mod 16 < (16 :: nat)" by (simp_all add: less_mult_imp_div_less)
  then show ?thesis using assms safe upper_hex_safe by (auto simp: escape_char_def split: if_splits)
qed

lemma QueryEscape_text:
  "CHR ''&'' \<notin> set (QueryEscape s)" "CHR ''='' \<notin> set (QueryEscape s)" "CHR '';'' \<notin> set (QueryEscape s)"
  using escape_char_text by (auto simp: QueryEscape_def)

lemma cut_pair: "cut_at CHR ''='' (pair_text k v) = (QueryEscape k, QueryEscape v)"
  using index_of_char_append [OF QueryEscape_text(2) [of k], of "QueryEscape v"]
  by (simp add: cut_at_def pair_text_def)

lemma query_part_pair: "query_part (pair_text k v) = Some (k, v)"
  using QueryEscape_text [of k] QueryEscape_text [of v]
  by (simp add: query_part_def cut_pair unescape_escape) (simp add: pair_text_def)

lemma query_loop_pairs:
  "query_pairs (map (\<lambda>(k, v). pair_text k v) kvs) m bad = (fold (\<lambda>(k, v). Values_Add k v) kvs m, bad)"
  by (induction kvs arbitrary: m) (auto simp: query_part_pair, auto simp: pair_text_def)

lemma values_add_other: "values_of (Values_Add k v m) k' = (if k' = k then values_of m k @ [v] else values_of m k')"
  by (simp add: values_of_def Values_Add_def)

lemma values_adds: "values_of (fold (\<lambda>(k, v). Values_Add k v) kvs m) k = values_of m k @ map snd (filter (\<lambda>(k', v). k' = k) kvs)"
  by (induction kvs arbitrary: m) (auto simp: values_add_other)

text \<open>The pairs of a map in the order in which they are written.\<close>

definition sorted_pairs :: "url_values \<Rightarrow> (string \<times> string) list" where
  "sorted_pairs m = concat (map (\<lambda>k. map (Pair k) (values_of m k)) (sort_slice string_before (map fst m)))"

lemma Encode_pairs: "Encode m = join_with ''&'' (map (\<lambda>(k, v). pair_text k v) (sorted_pairs m))"
  by (simp add: Encode_def sorted_pairs_def map_concat comp_def)

lemma pairs_of_key:
  assumes "map_wf m"
  shows "map snd (filter (\<lambda>(k', v). k' = k) (sorted_pairs m)) = values_of m k"
proof -
  have "map snd (filter (\<lambda>(k', v). k' = k) (concat (map (\<lambda>k. map (Pair k) (values_of m k)) ks))) =
      (if k \<in> set ks then values_of m k else [])" if "distinct ks" for ks
    using that by (induction ks) (auto simp: filter_map comp_def filter_empty_conv)
  moreover have "distinct (sort_slice string_before (map fst m))"
    using assms by (metis map_wf_def mset_eq_imp_distinct_iff mset_sort_slice)
  moreover have "k \<notin> set (sort_slice string_before (map fst m)) \<Longrightarrow> values_of m k = []"
    by (simp add: values_of_def set_sort_slice map_of_eq_None_iff [symmetric])
  ultimately show ?thesis by (auto simp: sorted_pairs_def)
qed

lemma query_loop_skip: "query_pairs ([] # ps) m bad = query_pairs ps m bad"
  by simp

text \<open>Query parameters survive encoding: parsing an encoded map gives, without an error, every key its
values in their order, whatever bytes the keys and values contain.\<close>

theorem query_roundtrip:
  assumes "distinct (map fst m)"
  shows "\<not> snd (ParseQuery (Encode m)) \<and> values_of (fst (ParseQuery (Encode m))) k = values_of m k"
proof -
  have "split_on CHR ''&'' (Encode m) = (if sorted_pairs m = [] then [[]] else map (\<lambda>(k, v). pair_text k v) (sorted_pairs m))"
  proof -
    have "CHR ''&'' \<notin> set p" if "p \<in> set (map (\<lambda>(k, v). pair_text k v) (sorted_pairs m))" for p
      using that QueryEscape_text(1) by (auto simp: pair_text_def)
    then have "sorted_pairs m \<noteq> [] \<Longrightarrow> split_on CHR ''&'' (join_with [CHR ''&''] (map (\<lambda>(k, v). pair_text k v) (sorted_pairs m))) =
        map (\<lambda>(k, v). pair_text k v) (sorted_pairs m)" by (intro split_join) simp_all
    then show ?thesis by (simp add: Encode_pairs)
  qed
  then have "ParseQuery (Encode m) = (fold (\<lambda>(k, v). Values_Add k v) (sorted_pairs m) [], False)"
    by (simp add: ParseQuery_def query_loop_pairs del: split_on.simps)
  then show ?thesis
    using pairs_of_key [of m k] assms by (simp add: values_adds map_wf_def) (simp add: values_of_def)
qed

lemma query_roundtrip_witness:
  "values_of (fst (ParseQuery (Encode [(''q&a'', [''x=1 '', ''%'']), ('''', [])]))) ''q&a'' = [''x=1 '', ''%'']"
  using query_roundtrip [of "[(''q&a'', [''x=1 '', ''%'']), ('''', [])]" "''q&a''"] by (simp add: values_of_def)

text \<open>
  The target of a relative redirect is put into the path as it is, so that its query is escaped and
  becomes part of the path; a scheme in capitals is taken for a path.
\<close>

lemma relative_query_escaped:
  "JoinURL ''https://a.test/x'' ''/login?next=1'' = ''https://a.test/login%3Fnext=1''"
  "JoinURL ''https://a.test/x/y'' ''?page=2'' = ''https://a.test/x/%3Fpage=2''"
  "JoinURL ''https://a.test/x'' ''HTTPS://b.test/'' = ''https://a.test/HTTPS://b.test/''"
  by code_simp+

end
