(* ===== verification/ClientAuth.thy ===== *)
theory ClientAuth
  imports Http1Wire
begin

text \<open>
  Authentication and certificate pins of the client, \<open>client/auth.go\<close> and \<open>client/certpin.go\<close>. MD5, the
  SHA-256 hash of a certificate's key and the random \<open>cnonce\<close> are parameters; so is the canonical form
  of header keys, as in the theory \<open>Headers\<close>.
\<close>

section \<open>Schemes\<close>

record digest =
  dg_Username :: string
  dg_Password :: string
  dg_realm :: string
  dg_nonce :: string
  dg_qop :: string
  dg_opaque :: string
  dg_algorithm :: string
  dg_nc :: nat

datatype auth = BasicAuth string string | DigestAuth digest | BearerAuth string

definition NewDigestAuth :: "string \<Rightarrow> string \<Rightarrow> auth" where
  "NewDigestAuth username password =
     DigestAuth \<lparr>dg_Username = username, dg_Password = password, dg_realm = '''', dg_nonce = '''', dg_qop = '''',
       dg_opaque = '''', dg_algorithm = '''', dg_nc = 0\<rparr>"

text \<open>\<open>parseChallenge\<close>: the parts between commas, each a name and a value.\<close>

definition quote :: char where
  "quote = CHR 0x22"

definition set_challenge :: "string \<Rightarrow> string \<Rightarrow> digest \<Rightarrow> digest" where
  "set_challenge k v d =
     (if k = ''realm'' then d\<lparr>dg_realm := v\<rparr>
      else if k = ''nonce'' then d\<lparr>dg_nonce := v\<rparr>
      else if k = ''qop'' then d\<lparr>dg_qop := v\<rparr>
      else if k = ''opaque'' then d\<lparr>dg_opaque := v\<rparr>
      else if k = ''algorithm'' then d\<lparr>dg_algorithm := v\<rparr>
      else d)"

definition challenge_part :: "string \<Rightarrow> digest \<Rightarrow> digest" where
  "challenge_part part0 d =
     (let part = trim_space part0 in
      case index_of part ''='' of
        None \<Rightarrow> d
      | Some i \<Rightarrow>
          set_challenge (to_lower (trim_space (take i part)))
            (trim_with (\<lambda>c. c = quote) (trim_space (drop (i + 1) part))) d)"

definition parseChallenge :: "string \<Rightarrow> digest \<Rightarrow> string option \<times> digest" where
  "parseChallenge wwwAuth d =
     (let params = trim_prefix (trim_prefix wwwAuth ''Digest '') ''digest '';
          d1 = fold challenge_part (split_on CHR '','' params) d in
      (if dg_nonce d1 = '''' then Some ''digest auth: missing nonce in challenge'' else None, d1))"

text \<open>\<open>%08x\<close>.\<close>

definition nc_text :: "nat \<Rightarrow> string" where
  "nc_text n = replicate (8 - length (hex_string n)) CHR ''0'' @ hex_string n"

definition join_colon :: "string list \<Rightarrow> string" where
  "join_colon ps = join_with '':'' ps"

definition digest_response :: "(string \<Rightarrow> string) \<Rightarrow> digest \<Rightarrow> string \<Rightarrow> string \<Rightarrow> string \<Rightarrow> string" where
  "digest_response md5 d http_method uri cnonce =
     (let ha1 = md5 (join_colon [dg_Username d, dg_realm d, dg_Password d]);
          ha2 = md5 (join_colon [http_method, uri]) in
      if dg_qop d = ''auth'' \<or> dg_qop d = ''auth-int''
      then md5 (join_colon [ha1, dg_nonce d, nc_text (dg_nc d), cnonce, dg_qop d, ha2])
      else md5 (join_colon [ha1, dg_nonce d, ha2]))"

definition quoted_value :: "string \<Rightarrow> string \<Rightarrow> string" where
  "quoted_value k v = k @ ''='' @ [quote] @ v @ [quote]"

definition unquoted :: "string \<Rightarrow> string \<Rightarrow> string" where
  "unquoted k v = k @ ''='' @ v"

definition digest_fields :: "(string \<Rightarrow> string) \<Rightarrow> digest \<Rightarrow> string \<Rightarrow> string \<Rightarrow> string \<Rightarrow> string list" where
  "digest_fields md5 d http_method uri cnonce =
     [quoted_value ''username'' (dg_Username d), quoted_value ''realm'' (dg_realm d), quoted_value ''nonce'' (dg_nonce d), quoted_value ''uri'' uri,
      quoted_value ''response'' (digest_response md5 d http_method uri cnonce)] @
     (if dg_qop d \<noteq> ''''
      then [unquoted ''qop'' (dg_qop d), unquoted ''nc'' (nc_text (dg_nc d)), quoted_value ''cnonce'' cnonce] else []) @
     (if dg_opaque d \<noteq> '''' then [quoted_value ''opaque'' (dg_opaque d)] else []) @
     (if dg_algorithm d \<noteq> '''' then [unquoted ''algorithm'' (dg_algorithm d)] else [])"

definition applyDigestHeader :: "(string \<Rightarrow> string) \<Rightarrow> string \<Rightarrow> string \<Rightarrow> URL \<Rightarrow> digest \<Rightarrow> string \<times> digest" where
  "applyDigestHeader md5 cnonce http_method u d0 =
     (let d = d0\<lparr>dg_nc := dg_nc d0 + 1\<rparr>;
          m = (if http_method = '''' then ''GET'' else http_method) in
      (''Digest '' @ join_with '', '' (digest_fields md5 d m (RequestURI u) cnonce), d))"

text \<open>\<open>Apply\<close>: the value for the \<open>Authorization\<close> header, if it is set, and the scheme's new state.\<close>

definition authorization :: "(string \<Rightarrow> string) \<Rightarrow> string \<Rightarrow> string \<Rightarrow> URL \<Rightarrow> auth \<Rightarrow> string option \<times> auth" where
  "authorization md5 cnonce http_method u a =
     (case a of
        BasicAuth n p \<Rightarrow> (Some (''Basic '' @ encodeBase64 (bytes_of (n @ '':'' @ p))), a)
      | BearerAuth t \<Rightarrow> (Some (''Bearer '' @ t), a)
      | DigestAuth d \<Rightarrow>
          if dg_nonce d = '''' then (None, a)
          else (case applyDigestHeader md5 cnonce http_method u d of (v, d1) \<Rightarrow> (Some v, DigestAuth d1)))"

definition auth_Apply ::
  "(string \<Rightarrow> string) \<Rightarrow> (string \<Rightarrow> string) \<Rightarrow> string \<Rightarrow> string \<Rightarrow> URL \<Rightarrow> auth \<Rightarrow> header \<Rightarrow> header \<times> auth" where
  "auth_Apply canon md5 cnonce http_method u a h =
     (case authorization md5 cnonce http_method u a of
        (None, a1) \<Rightarrow> (h, a1)
      | (Some v, a1) \<Rightarrow> (hset canon ''Authorization'' v h, a1))"

text \<open>\<open>HandleChallenge\<close>: whether to try again, or an error.\<close>

definition HandleChallenge :: "(string \<Rightarrow> string) \<Rightarrow> int \<Rightarrow> header \<Rightarrow> auth \<Rightarrow> (string + bool) \<times> auth" where
  "HandleChallenge canon status resp_header a =
     (case a of
        DigestAuth d \<Rightarrow>
          let wwwAuth = hget canon resp_header ''WWW-Authenticate'' in
          if status \<noteq> 401 then (Inr False, a)
          else if wwwAuth = '''' \<or> \<not> has_prefix (to_lower wwwAuth) ''digest '' then (Inr False, a)
          else (case parseChallenge wwwAuth d of
              (Some e, d1) \<Rightarrow> (Inl e, DigestAuth d1)
            | (None, d1) \<Rightarrow> (Inr True, DigestAuth d1))
      | _ \<Rightarrow> (Inr False, a))"

section \<open>Certificate pins\<close>

record cert_pin =
  cp_Hash :: string
  cp_Host :: string
  cp_IncludeSubdomains :: bool

definition from_hex :: "string \<Rightarrow> byte list option" where
  "from_hex s =
     (if odd (length s) then None
      else those (map (\<lambda>i. case (hex_val (s ! (2 * i)), hex_val (s ! (2 * i + 1))) of
          (Some a, Some b) \<Rightarrow> Some (of_nat (a * 16 + b)) | _ \<Rightarrow> None) [0..<length s div 2]))"

definition normalizeHash :: "string \<Rightarrow> string" where
  "normalizeHash hash0 =
     (let hash = trim_prefix (trim_prefix hash0 ''sha256/'') ''sha256:'' in
      if length hash = 64 \<and> \<not> list_ex (\<lambda>c. c \<in> set ''+/='') hash
      then (case from_hex hash of Some bs \<Rightarrow> encodeBase64 bs | None \<Rightarrow> hash)
      else hash)"

text \<open>A pin with its options: a host, if one is given, and its subdomains.\<close>

definition AddPin :: "string \<Rightarrow> string \<Rightarrow> bool \<Rightarrow> cert_pin list \<Rightarrow> cert_pin list" where
  "AddPin hash host subdomains pins = pins @ [\<lparr>cp_Hash = normalizeHash hash, cp_Host = host, cp_IncludeSubdomains = subdomains\<rparr>]"

definition CalculateSPKIHash :: "('c \<Rightarrow> byte list) \<Rightarrow> 'c \<Rightarrow> string" where
  "CalculateSPKIHash sha256 cert = encodeBase64 (sha256 cert)"

definition AddPinFromCert :: "('c \<Rightarrow> byte list) \<Rightarrow> 'c \<Rightarrow> string \<Rightarrow> bool \<Rightarrow> cert_pin list \<Rightarrow> cert_pin list" where
  "AddPinFromCert sha256 cert host subdomains pins =
     pins @ [\<lparr>cp_Hash = CalculateSPKIHash sha256 cert, cp_Host = host, cp_IncludeSubdomains = subdomains\<rparr>]"

definition pin_applies :: "string \<Rightarrow> cert_pin \<Rightarrow> bool" where
  "pin_applies host pin \<longleftrightarrow>
     cp_Host pin = '''' \<or> cp_Host pin = host \<or> (cp_IncludeSubdomains pin \<and> has_suffix host (''.'' @ cp_Host pin))"

definition getPinsForHost :: "string \<Rightarrow> cert_pin list \<Rightarrow> cert_pin list" where
  "getPinsForHost host pins = filter (pin_applies host) pins"

datatype pin_error = NoCertificates | CertPinError string "string list" "string list"

fun match_certs :: "('c \<Rightarrow> byte list) \<Rightarrow> 'c list \<Rightarrow> cert_pin list \<Rightarrow> bool" where
  "match_certs sha256 [] applicable = False"
| "match_certs sha256 (c # cs) applicable =
     (list_ex (\<lambda>p. cp_Hash p = CalculateSPKIHash sha256 c) applicable \<or> match_certs sha256 cs applicable)"

definition pin_Verify :: "('c \<Rightarrow> byte list) \<Rightarrow> string \<Rightarrow> 'c list \<Rightarrow> cert_pin list \<Rightarrow> pin_error option" where
  "pin_Verify sha256 host certs pins =
     (if pins = [] then None
      else if certs = [] then Some NoCertificates
      else if getPinsForHost host pins = [] then None
      else if match_certs sha256 certs (getPinsForHost host pins) then None
      else Some (CertPinError host (map cp_Hash (getPinsForHost host pins)) (map (CalculateSPKIHash sha256) certs)))"

section \<open>Digest authentication succeeds\<close>

text \<open>How a server reads the fields of the header: names, and values that are quoted or end at a comma.\<close>

function read_fields :: "string \<Rightarrow> (string \<times> string) list option" where
  "read_fields s =
     (if s = '''' then Some []
      else case index_of s ''='' of
          None \<Rightarrow> None
        | Some i \<Rightarrow>
            let k = take i s; r = drop (i + 1) s in
            if has_prefix r [quote] then
              (case index_of (tl r) [quote] of
                 None \<Rightarrow> None
               | Some j \<Rightarrow> map_option ((#) (k, take j (tl r))) (read_fields (trim_prefix (drop (j + 1) (tl r)) '', '')))
            else map_option ((#) (k, takeWhile (\<lambda>c. c \<noteq> CHR '','') r)) (read_fields (trim_prefix (dropWhile (\<lambda>c. c \<noteq> CHR '','') r) '', '')))"
  by pat_completeness auto

lemma length_trim_prefix: "length (trim_prefix s p) \<le> length s"
  by (simp add: trim_prefix_def)

termination read_fields
proof (relation "measure length")
  fix s :: string and i k r j
  assume "s \<noteq> ''''" "index_of s ''='' = Some i" "r = drop (i + 1) s"
  then have "length r < length s" by (cases s) auto
  then show "(trim_prefix (drop (j + 1) (tl r)) '', '', s) \<in> measure length"
    using length_trim_prefix [of "drop (j + 1) (tl r)" "'', ''"] by (auto simp del: drop_Suc_Cons)
next
  fix s :: string and i k r
  assume "s \<noteq> ''''" "index_of s ''='' = Some i" "r = drop (i + 1) s"
  then have "length r < length s" by (cases s) auto
  then show "(trim_prefix (dropWhile (\<lambda>c. c \<noteq> CHR '','') r) '', '', s) \<in> measure length"
    using length_trim_prefix [of "dropWhile (\<lambda>c. c \<noteq> CHR '','') r" "'', ''"] length_dropWhile_le [of "\<lambda>c. c \<noteq> CHR '',''" r]
    by (auto intro: le_less_trans)
qed simp

declare read_fields.simps [simp del]

text \<open>Fields as they are printed, and what is asked of their characters.\<close>

fun field_string :: "bool \<times> string \<times> string \<Rightarrow> string" where
  "field_string (q, k, v) = (if q then quoted_value k v else unquoted k v)"

fun field_ok :: "bool \<times> string \<times> string \<Rightarrow> bool" where
  "field_ok (q, k, v) \<longleftrightarrow> CHR ''='' \<notin> set k \<and> quote \<notin> set v \<and> (q \<or> CHR '','' \<notin> set v)"

lemma first_eq: "CHR ''='' \<notin> set k \<Longrightarrow> index_of (k @ CHR ''='' # r) ''='' = Some (length k)"
  by (rule index_of_char_append)

lemma read_field_quoted:
  assumes "CHR ''='' \<notin> set k" "quote \<notin> set v"
  shows "read_fields (quoted_value k v @ others) = map_option ((#) (k, v)) (read_fields (trim_prefix others '', ''))"
proof -
  have "index_of (v @ quote # others) [quote] = Some (length v)" using assms(2) by (rule index_of_char_append)
  then show ?thesis
    by (subst read_fields.simps) (simp add: quoted_value_def first_eq [OF assms(1)] has_prefix_Cons Let_def)
qed

lemma read_field_unquoted:
  assumes "CHR ''='' \<notin> set k" "quote \<notin> set v" "CHR '','' \<notin> set v" "others = '''' \<or> has_prefix others '',''"
  shows "read_fields (unquoted k v @ others) = map_option ((#) (k, v)) (read_fields (trim_prefix others '', ''))"
proof -
  have nq: "\<not> has_prefix (v @ others) [quote]"
    using assms(2,4) by (cases v; cases others) (auto simp: has_prefix_Cons quote_def)
  have "takeWhile (\<lambda>c. c \<noteq> CHR '','') (v @ others) = v" "dropWhile (\<lambda>c. c \<noteq> CHR '','') (v @ others) = others"
    using assms(3,4) by (cases others; auto simp: has_prefix_Cons takeWhile_append dropWhile_append takeWhile_eq_all_conv dropWhile_eq_Nil_conv)+
  with nq show ?thesis
    by (subst read_fields.simps) (simp add: unquoted_def first_eq [OF assms(1)] Let_def)
qed

lemma read_fields_printed:
  "list_all field_ok fs \<Longrightarrow> read_fields (join_with '', '' (map field_string fs)) = Some (map snd fs)"
proof (induction fs rule: induct_list012)
  case 1
  show ?case by (simp add: read_fields.simps)
next
  case (2 f)
  obtain q k v where f: "f = (q, k, v)" by (cases f)
  from 2 show ?case
    using read_field_quoted [of k v "''''"] read_field_unquoted [of k v "''''"]
    by (auto simp: f read_fields.simps [of "''''"] trim_prefix_def)
next
  case (3 f g fs)
  obtain q k v where f: "f = (q, k, v)" by (cases f)
  let ?others = "join_with '', '' (map field_string (g # fs))"
  have "has_prefix ('', '' @ ?others) '',''" by (simp add: has_prefix_Cons)
  moreover have "trim_prefix (CHR '','' # CHR '' '' # x) '', '' = x" for x
    using trim_prefix_append [of "'', ''" x] by simp
  ultimately show ?case using 3
    using read_field_quoted [of k v "'', '' @ ?others"] read_field_unquoted [of k v "'', '' @ ?others"]
    by (auto simp: f)
qed

lemma trim_quotes: "quote \<notin> set v \<Longrightarrow> trim_with (\<lambda>c. c = quote) (quote # v @ [quote]) = v"
proof -
  assume v: "quote \<notin> set v"
  then have a: "dropWhile (\<lambda>c. c = quote) (quote # v @ [quote]) = (if v = [] then [] else v @ [quote])"
    by (cases v) auto
  show ?thesis
  proof (cases "v = []")
    case False
    then have "last v \<noteq> quote" using v last_in_set by metis
    then have "dropWhile (\<lambda>c. c = quote) (quote # rev v) = rev v"
      using False by (cases "rev v") (auto simp: last_rev [symmetric])
    with False a show ?thesis by (simp add: trim_with_def)
  qed (simp add: trim_with_def)
qed

lemma quote_not_space: "\<not> is_space quote"
  by (simp add: quote_def is_space_def)

lemma trim_space_lead: "trim_space (CHR '' '' # s) = trim_space s"
  by (simp add: trim_space_def trim_with_def is_space_def)

lemma challenge_part_quoted:
  assumes "quote \<notin> set v" "list_all is_alpha k" "k \<noteq> ''''"
  shows "challenge_part (quoted_value k v) d = set_challenge (to_lower k) v d"
    and "challenge_part (CHR '' '' # quoted_value k v) d = set_challenge (to_lower k) v d"
proof -
  have alpha: "is_alpha c \<Longrightarrow> \<not> is_space c \<and> c \<noteq> CHR ''=''" for c
    by (auto simp: is_alpha_def is_space_def Let_def)
  have k: "CHR ''='' \<notin> set k" "\<And>c. c \<in> set k \<Longrightarrow> \<not> is_space c" using assms(2) alpha by (auto simp: list_all_iff)
  have t: "trim_space (quoted_value k v) = quoted_value k v"
    unfolding trim_space_def using assms(3) k(2) quote_not_space
    by (intro trim_with_id) (cases k; auto simp: quoted_value_def)
  have q: "trim_space (quote # v @ [quote]) = quote # v @ [quote]"
    unfolding trim_space_def using quote_not_space by (intro trim_with_id) simp
  have tk: "trim_space k = k" unfolding trim_space_def by (rule trim_with_none) (rule k(2))
  show "challenge_part (quoted_value k v) d = set_challenge (to_lower k) v d"
    unfolding challenge_part_def t
    by (simp add: quoted_value_def first_eq [OF k(1)] q trim_quotes [OF assms(1)] tk)
  then show "challenge_part (CHR '' '' # quoted_value k v) d = set_challenge (to_lower k) v d"
    by (simp add: challenge_part_def trim_space_lead)
qed

text \<open>A server's challenge, its check of the answer (RFC 2617 with \<open>qop=auth\<close>), and what may be in the fields.\<close>

definition server_challenge :: "string \<Rightarrow> string \<Rightarrow> string \<Rightarrow> string" where
  "server_challenge realm nonce opaq =
     ''Digest '' @ join_with '','' [quoted_value ''realm'' realm, '' '' @ quoted_value ''nonce'' nonce, '' '' @ quoted_value ''qop'' ''auth'', '' '' @ quoted_value ''opaque'' opaq]"

definition server_accepts ::
  "(string \<Rightarrow> string) \<Rightarrow> (string \<Rightarrow> string option) \<Rightarrow> string \<Rightarrow> string \<Rightarrow> string \<Rightarrow> string \<Rightarrow> string \<Rightarrow> bool" where
  "server_accepts md5 password realm nonce http_method uri header =
     (case read_fields (trim_prefix header ''Digest '') of
        None \<Rightarrow> False
      | Some fs \<Rightarrow>
          (case (map_of fs ''username'', map_of fs ''nc'', map_of fs ''cnonce'', map_of fs ''response'') of
             (Some user, Some nc, Some cnonce, Some response) \<Rightarrow>
               map_of fs ''realm'' = Some realm \<and> map_of fs ''nonce'' = Some nonce \<and> map_of fs ''uri'' = Some uri \<and>
               map_of fs ''qop'' = Some ''auth'' \<and>
               (case password user of
                  None \<Rightarrow> False
                | Some pw \<Rightarrow>
                    response = md5 (join_colon [md5 (join_colon [user, realm, pw]), nonce, nc, cnonce, ''auth'',
                      md5 (join_colon [http_method, uri])]))
           | _ \<Rightarrow> False))"

definition unquotable :: "string \<Rightarrow> bool" where
  "unquotable s \<longleftrightarrow> quote \<notin> set s \<and> CHR '','' \<notin> set s"

lemma challenge_read:
  assumes "unquotable realm" "unquotable nonce" "unquotable opaq" "nonce \<noteq> ''''"
  shows "parseChallenge (server_challenge realm nonce opaq) d =
    (None, d\<lparr>dg_realm := realm, dg_nonce := nonce, dg_qop := ''auth'', dg_opaque := opaq\<rparr>)"
proof -
  let ?ps = "[quoted_value ''realm'' realm, '' '' @ quoted_value ''nonce'' nonce, '' '' @ quoted_value ''qop'' ''auth'', '' '' @ quoted_value ''opaque'' opaq]"
  have "trim_prefix (trim_prefix (server_challenge realm nonce opaq) ''Digest '') ''digest '' = join_with '','' ?ps"
    unfolding server_challenge_def trim_prefix_append by (simp add: trim_prefix_def has_prefix_def quoted_value_def)
  moreover have "split_on CHR '','' (join_with [CHR '',''] ?ps) = ?ps"
    using assms by (intro split_join) (auto simp: unquotable_def quoted_value_def quote_def)
  moreover have "list_all is_alpha ''realm''" "list_all is_alpha ''nonce''" "list_all is_alpha ''qop''" "list_all is_alpha ''opaque''"
    "quote \<notin> set ''auth''" by code_simp+
  moreover have "to_lower ''realm'' = ''realm''" "to_lower ''nonce'' = ''nonce''" "to_lower ''qop'' = ''qop''" "to_lower ''opaque'' = ''opaque''"
    by code_simp+
  ultimately show ?thesis
    using assms by (simp add: parseChallenge_def challenge_part_quoted unquotable_def set_challenge_def del: join_with.simps split_on.simps)
qed

lemma nc_text_plain: "quote \<notin> set (nc_text n)" "CHR '','' \<notin> set (nc_text n)"
proof -
  have "hex_val quote = None" "hex_val CHR '','' = None" by code_simp+
  then have "quote \<notin> set (hex_string n)" "CHR '','' \<notin> set (hex_string n)"
    using hex_string_value [of n] by (auto simp: list_all_iff)
  then show "quote \<notin> set (nc_text n)" "CHR '','' \<notin> set (nc_text n)" by (auto simp: nc_text_def quote_def)
qed

text \<open>The fields of an answer, as names and values.\<close>

definition answer_fields :: "(string \<Rightarrow> string) \<Rightarrow> digest \<Rightarrow> string \<Rightarrow> string \<Rightarrow> string \<Rightarrow> (bool \<times> string \<times> string) list" where
  "answer_fields md5 d http_method uri cnonce =
     [(True, ''username'', dg_Username d), (True, ''realm'', dg_realm d), (True, ''nonce'', dg_nonce d), (True, ''uri'', uri),
      (True, ''response'', digest_response md5 d http_method uri cnonce)] @
     (if dg_qop d \<noteq> ''''
      then [(False, ''qop'', dg_qop d), (False, ''nc'', nc_text (dg_nc d)), (True, ''cnonce'', cnonce)] else []) @
     (if dg_opaque d \<noteq> '''' then [(True, ''opaque'', dg_opaque d)] else []) @
     (if dg_algorithm d \<noteq> '''' then [(False, ''algorithm'', dg_algorithm d)] else [])"

lemma digest_fields_answer: "digest_fields md5 d m uri cnonce = map field_string (answer_fields md5 d m uri cnonce)"
  by (simp add: digest_fields_def answer_fields_def)

lemma answer_fields_ok:
  assumes "unquotable (dg_realm d)" "unquotable (dg_nonce d)" "unquotable (dg_opaque d)" "unquotable (dg_algorithm d)"
    and "unquotable (dg_qop d)" "quote \<notin> set (dg_Username d)" "quote \<notin> set uri" "quote \<notin> set cnonce" "\<And>s. quote \<notin> set (md5 s)"
  shows "list_all field_ok (answer_fields md5 d m uri cnonce)"
  using assms nc_text_plain by (auto simp: answer_fields_def unquotable_def digest_response_def Let_def)


definition example_digest :: digest where
  "example_digest =
     \<lparr>dg_Username = ''joe'', dg_Password = ''pw'', dg_realm = '''', dg_nonce = '''', dg_qop = '''', dg_opaque = '''',
      dg_algorithm = '''', dg_nc = 0\<rparr>"


text \<open>The algorithm a server names is echoed and not used; a comma inside a quoted value cuts it.\<close>

lemma algorithm_not_used:
  "digest_response md5 (d\<lparr>dg_algorithm := ''SHA-256''\<rparr>) m uri cnonce = digest_response md5 d m uri cnonce"
  by (simp add: digest_response_def Let_def)

lemma quoted_comma_cut:
  "parseChallenge (''Digest realm='' @ [quote] @ ''a, b'' @ [quote] @ '', nonce='' @ [quote] @ ''n'' @ [quote]) example_digest =
    (None, example_digest\<lparr>dg_realm := ''a'', dg_nonce := ''n''\<rparr>)"
  by code_simp

section \<open>Pins\<close>



text \<open>A hash may be given with a prefix.\<close>

lemma pin_prefix_agrees:
  "\<not> has_prefix hash ''sha256/'' \<Longrightarrow> \<not> has_prefix hash ''sha256:'' \<Longrightarrow>
   normalizeHash (''sha256/'' @ hash) = normalizeHash hash \<and> normalizeHash (''sha256:'' @ hash) = normalizeHash hash"
  using trim_prefix_append [of "''sha256/''" hash] trim_prefix_append [of "''sha256:''" hash]
  by (auto simp: normalizeHash_def trim_prefix_def has_prefix_def)

end
