(* ===== verification/ClientHeaders.thy ===== *)
theory ClientHeaders
  imports Headers ClientUrl
begin

text \<open>
  The client's requests and the headers it gives them: \<open>Request\<close>, \<open>applyModeHeaders\<close>,
  \<open>applyTLSOnlyHeaders\<close> and their helpers in \<open>client/client.go\<close>, and the request helpers of
  \<open>client/helpers.go\<close>. Header keys and the two header orders are as in the theory \<open>Headers\<close>.
\<close>

section \<open>Requests\<close>

datatype FetchMode = FetchModeNavigate | FetchModeCORS | FetchModeNoCors
datatype FetchSite = FetchSiteAuto | FetchSiteNone | FetchSiteSameOrigin | FetchSiteSameSite | FetchSiteCrossSite
datatype client_protocol = ProtocolAuto | ProtocolHTTP1 | ProtocolHTTP2 | ProtocolHTTP3

text \<open>
  A body is what reading it to its end gives, or the error. Authentication is shared by pointer: it
  is a number, which the theory \<open>Client\<close> looks up. \<open>cq_HasMap\<close> tells an empty header map from \<open>nil\<close>.
\<close>

record client_request =
  cq_Method :: string
  cq_URL :: string
  cq_Headers :: header
  cq_HasMap :: bool
  cq_Body :: "(string + string) option"
  cq_Timeout :: duration
  cq_UserAgent :: string
  cq_ForceProtocol :: client_protocol
  cq_FetchMode :: FetchMode
  cq_FetchSite :: FetchSite
  cq_FetchDest :: string
  cq_Referer :: string
  cq_Auth :: "nat option"
  cq_Params :: "(string, string) gomap"
  cq_FollowRedirects :: "bool option"
  cq_MaxRedirects :: int
  cq_DisableRetry :: bool

text \<open>The entry under the very key, or else the first whose key differs in case only.\<close>

definition getHeaderCaseInsensitive :: "header \<Rightarrow> string \<Rightarrow> string list option" where
  "getHeaderCaseInsensitive h key =
     (case map_of h key of
        Some vs \<Rightarrow> Some vs
      | None \<Rightarrow> map_option snd (find (\<lambda>(k, vs). to_lower k = to_lower key) h))"

definition cq_GetHeader :: "string \<Rightarrow> client_request \<Rightarrow> string" where
  "cq_GetHeader key r = (case getHeaderCaseInsensitive (cq_Headers r) key of Some (v # vs) \<Rightarrow> v | _ \<Rightarrow> '''')"

definition cq_SetHeader :: "string \<Rightarrow> string \<Rightarrow> client_request \<Rightarrow> client_request" where
  "cq_SetHeader key v r = r\<lparr>cq_Headers := AList.update key [v] (cq_Headers r), cq_HasMap := True\<rparr>"

definition cq_AddHeader :: "string \<Rightarrow> string \<Rightarrow> client_request \<Rightarrow> client_request" where
  "cq_AddHeader key v r =
     r\<lparr>cq_Headers := AList.update key (hvalues (cq_Headers r) key @ [v]) (cq_Headers r), cq_HasMap := True\<rparr>"

section \<open>Bodies and their types\<close>

definition isLikelyJSON :: "string \<Rightarrow> bool" where
  "isLikelyJSON body \<longleftrightarrow>
     length body \<ge> 2 \<and>
     ((hd body = CHR ''{'' \<and> last body = CHR ''}'') \<or> (hd body = CHR ''['' \<and> last body = CHR '']''))"

definition isFormEncoded :: "string \<Rightarrow> bool" where
  "isFormEncoded body \<longleftrightarrow>
     body \<noteq> '''' \<and> CHR ''='' \<in> set body \<and> CHR 0x0A \<notin> set body \<and> CHR '' '' \<notin> set body"

definition detectContentType :: "string \<Rightarrow> string" where
  "detectContentType body =
     (let trimmed = trim_space body in
      if body = '''' then ''''
      else if trimmed \<noteq> '''' \<and> (hd trimmed = CHR ''{'' \<or> hd trimmed = CHR ''['') \<and> isLikelyJSON trimmed then ''application/json''
      else if trimmed \<noteq> '''' \<and> hd trimmed = CHR ''<'' \<and>
        (has_prefix trimmed ''<?xml'' \<or> has_prefix trimmed ''<soap'' \<or> has_prefix trimmed ''<SOAP'') then ''application/xml''
      else if trimmed \<noteq> '''' \<and> hd trimmed = CHR ''<'' \<and> contains (take 100 trimmed) ''html'' then ''text/html''
      else if isFormEncoded trimmed then ''application/x-www-form-urlencoded''
      else '''')"

definition has_body_method :: "string \<Rightarrow> bool" where
  "has_body_method m \<longleftrightarrow> m \<in> {''POST'', ''PUT'', ''PATCH''}"

definition normalizeRequest :: "(string \<Rightarrow> string) \<Rightarrow> string \<Rightarrow> nat \<Rightarrow> header \<Rightarrow> header" where
  "normalizeRequest canon method0 bodyLen h =
     (let m = to_upper method0;
          h1 = (if bodyLen > 0 then hset canon ''Content-Length'' (dec_string bodyLen) h
                else if has_body_method m then hset canon ''Content-Length'' ''0'' h else h) in
      if m \<in> {''GET'', ''HEAD'', ''OPTIONS'', ''TRACE''} \<and> bodyLen = 0 then hdel canon ''Content-Length'' h1 else h1)"

definition normalizeRequestWithBody :: "(string \<Rightarrow> string) \<Rightarrow> string \<Rightarrow> string \<Rightarrow> header \<Rightarrow> header" where
  "normalizeRequestWithBody canon method0 body h =
     (let h1 = normalizeRequest canon method0 (length body) h in
      if body \<noteq> '''' \<and> hget canon h1 ''Content-Type'' = '''' \<and> detectContentType body \<noteq> ''''
      then hset canon ''Content-Type'' (detectContentType body) h1 else h1)"

section \<open>What kind of request it is\<close>

definition isAPIAcceptHeader :: "string \<Rightarrow> bool" where
  "isAPIAcceptHeader accept =
     (let lower = to_lower accept in
      contains lower ''application/json'' \<or> contains lower ''application/xml'' \<or> contains lower ''text/plain'' \<or>
      contains lower ''application/octet-stream'' \<or> lower = ''*/*'')"

definition isFormContentType :: "string \<Rightarrow> bool" where
  "isFormContentType ct =
     (let lower = to_lower ct in
      has_prefix lower ''application/x-www-form-urlencoded'' \<or> has_prefix lower ''multipart/form-data'')"

definition isAPIContentType :: "string \<Rightarrow> bool" where
  "isAPIContentType ct =
     (let lower = to_lower ct in
      has_prefix lower ''application/json'' \<or> has_prefix lower ''application/xml'' \<or>
      has_prefix lower ''application/octet-stream'' \<or> has_prefix lower ''application/grpc'' \<or>
      has_prefix lower ''application/x-protobuf'' \<or> has_prefix lower ''text/plain'' \<or>
      (has_prefix lower ''application/'' \<and> \<not> isFormContentType lower))"

text \<open>The recurring \<open>if v, ok := getHeader(...); ok && len(v) > 0\<close>.\<close>

definition user_value :: "header \<Rightarrow> string \<Rightarrow> string option" where
  "user_value h key = (case getHeaderCaseInsensitive h key of Some (v # vs) \<Rightarrow> Some v | _ \<Rightarrow> None)"

definition mode_verdict :: "header \<Rightarrow> bool option" where
  "mode_verdict h =
     (case user_value h ''Sec-Fetch-Mode'' of
        None \<Rightarrow> None
      | Some v \<Rightarrow>
          if to_lower v \<in> {''cors'', ''no-cors'', ''websocket''} then Some True
          else if to_lower v = ''navigate'' then Some False else None)"

definition client_sniffXHRMode :: "string \<Rightarrow> header \<Rightarrow> bool" where
  "client_sniffXHRMode method0 h =
     (let m = to_upper method0 in
      case mode_verdict h of
        Some b \<Rightarrow> b
      | None \<Rightarrow>
          (case user_value h ''Sec-Fetch-Dest'' of
             Some v \<Rightarrow> to_lower v \<noteq> ''document''
           | None \<Rightarrow>
               if (case user_value h ''Accept'' of Some v \<Rightarrow> isAPIAcceptHeader v | None \<Rightarrow> False) then True
               else if m \<in> {''GET'', ''HEAD'', ''OPTIONS'', ''''} then False
               else if m = ''DELETE'' then True
               else (case user_value h ''Content-Type'' of
                   Some ct \<Rightarrow> if isFormContentType ct then False else if isAPIContentType ct then True else True
                 | None \<Rightarrow> True)))"

section \<open>Sites\<close>

definition extractSite :: "string \<Rightarrow> string" where
  "extractSite hostname =
     (if ParseIP hostname \<noteq> None then hostname
      else
        let parts = split_on CHR ''.'' hostname; n = length parts in
        if n \<le> 2 then hostname
        else if length (parts ! (n - 2)) \<le> 3 then join_with ''.'' (drop (n - 3) parts)
        else join_with ''.'' (drop (n - 2) parts))"

text \<open>Without a usable referer: a navigation was typed in, anything else counts as cross-site.\<close>

definition no_referer_site :: "FetchMode \<Rightarrow> string" where
  "no_referer_site mode = (if mode = FetchModeCORS \<or> mode = FetchModeNoCors then ''cross-site'' else ''none'')"

definition referer_site :: "URL \<Rightarrow> string \<Rightarrow> FetchMode \<Rightarrow> string" where
  "referer_site u referer mode =
     (if referer = '''' then no_referer_site mode
      else case Parse referer of
          None \<Rightarrow> no_referer_site mode
        | Some r \<Rightarrow>
            if u_Scheme u = u_Scheme r \<and> u_Host u = u_Host r then ''same-origin''
            else if extractSite (Hostname u) = extractSite (Hostname r) \<and> u_Scheme u = u_Scheme r then ''same-site''
            else ''cross-site'')"

definition detectSecFetchSiteForMode :: "FetchSite \<Rightarrow> URL \<Rightarrow> string \<Rightarrow> FetchMode \<Rightarrow> string" where
  "detectSecFetchSiteForMode site u referer mode =
     (case site of
        FetchSiteNone \<Rightarrow> if mode = FetchModeCORS then referer_site u referer mode else ''none''
      | FetchSiteSameOrigin \<Rightarrow> ''same-origin''
      | FetchSiteSameSite \<Rightarrow> ''same-site''
      | FetchSiteCrossSite \<Rightarrow> ''cross-site''
      | FetchSiteAuto \<Rightarrow> referer_site u referer mode)"

section \<open>Applying a preset\<close>

definition set_if :: "(string \<Rightarrow> string) \<Rightarrow> Preset \<Rightarrow> string \<Rightarrow> string \<Rightarrow> header \<Rightarrow> header" where
  "set_if canon p preset_key key h = (case map_of (pr_Headers p) preset_key of Some v \<Rightarrow> hset canon key v h | None \<Rightarrow> h)"

definition set_or :: "(string \<Rightarrow> string) \<Rightarrow> Preset \<Rightarrow> string \<Rightarrow> string \<Rightarrow> header \<Rightarrow> header" where
  "set_or canon p key d h = hset canon key (case map_of (pr_Headers p) key of Some v \<Rightarrow> v | None \<Rightarrow> d) h"

definition client_hints :: "(string \<Rightarrow> string) \<Rightarrow> Preset \<Rightarrow> header \<Rightarrow> header" where
  "client_hints canon p h =
     set_if canon p ''sec-ch-ua-platform'' ''Sec-Ch-Ua-Platform''
       (set_if canon p ''sec-ch-ua-mobile'' ''Sec-Ch-Ua-Mobile'' (set_if canon p ''sec-ch-ua'' ''Sec-Ch-Ua'' h))"

definition accept_languages :: "(string \<Rightarrow> string) \<Rightarrow> Preset \<Rightarrow> header \<Rightarrow> header" where
  "accept_languages canon p h =
     set_or canon p ''Accept-Language'' ''en-US,en;q=0.9'' (set_or canon p ''Accept-Encoding'' ''gzip, deflate, br, zstd'' h)"

definition applyNavigationModeHeaders :: "(string \<Rightarrow> string) \<Rightarrow> Preset \<Rightarrow> header \<Rightarrow> header" where
  "applyNavigationModeHeaders canon p h =
     (let h1 = set_or canon p ''Accept''
            ''text/html,application/xhtml+xml,application/xml;q=0.9,image/avif,image/webp,image/apng,*/*;q=0.8,application/signed-exchange;v=b3;q=0.7''
            (client_hints canon p h);
          h2 = accept_languages canon p h1;
          h3 = hset canon ''Sec-Fetch-Dest'' ''document'' h2;
          h4 = hset canon ''Sec-Fetch-Mode'' ''navigate'' h3;
          h5 = hset canon ''Sec-Fetch-User'' ''?1'' h4;
          h6 = hset canon ''Upgrade-Insecure-Requests'' ''1'' h5
      in set_if canon p ''TE'' ''TE'' (set_if canon p ''Priority'' ''Priority'' h6))"

definition origin_of :: "URL \<Rightarrow> string" where
  "origin_of u = u_Scheme u @ ''://'' @ u_Host u"

definition applyCORSModeHeaders :: "(string \<Rightarrow> string) \<Rightarrow> Preset \<Rightarrow> client_request \<Rightarrow> URL \<Rightarrow> header \<Rightarrow> header" where
  "applyCORSModeHeaders canon p r u h =
     (let accept = (case user_value (cq_Headers r) ''Accept'' of Some v \<Rightarrow> if v = '''' then ''*/*'' else v | None \<Rightarrow> ''*/*'');
          h1 = accept_languages canon p (hset canon ''Accept'' accept (client_hints canon p h));
          h2 = hset canon ''Sec-Fetch-Mode'' ''cors'' (hset canon ''Sec-Fetch-Dest'' ''empty'' h1);
          h3 = (if cq_Referer r \<noteq> '''' then
                  (case Parse (cq_Referer r) of Some ru \<Rightarrow> hset canon ''Origin'' (origin_of ru) h2 | None \<Rightarrow> h2)
                else hset canon ''Origin'' (origin_of u) h2)
      in hset canon ''Priority'' ''u=1, i'' h3)"

definition applyNoCorsHeaders :: "(string \<Rightarrow> string) \<Rightarrow> Preset \<Rightarrow> client_request \<Rightarrow> header \<Rightarrow> header" where
  "applyNoCorsHeaders canon p r h =
     (let dest = cq_FetchDest r;
          accept =
            (if dest = ''style'' then ''text/css,*/*;q=0.1''
             else if dest = ''image'' then ''image/avif,image/webp,image/apng,image/svg+xml,image/*,*/*;q=0.8'' else ''*/*'');
          h1 = hset canon ''Accept'' accept (client_hints canon p h);
          h2 = hset canon ''Accept-Language'' ''en-US,en;q=0.9'' (hset canon ''Accept-Encoding'' ''gzip, deflate, br, zstd'' h1);
          h3 = hset canon ''Sec-Fetch-Mode'' ''no-cors'' h2
      in hset canon ''Sec-Fetch-Dest'' (if dest \<noteq> '''' then dest else ''empty'') h3)"

definition effective_mode :: "client_request \<Rightarrow> FetchMode" where
  "effective_mode r =
     (if cq_FetchMode r = FetchModeNavigate \<and> client_sniffXHRMode (cq_Method r) (cq_Headers r) then FetchModeCORS
      else cq_FetchMode r)"

definition mode_headers :: "(string \<Rightarrow> string) \<Rightarrow> Preset \<Rightarrow> client_request \<Rightarrow> URL \<Rightarrow> header \<Rightarrow> header" where
  "mode_headers canon p r u h =
     (let h1 = hset canon ''User-Agent'' (if cq_UserAgent r \<noteq> '''' then cq_UserAgent r else pr_UserAgent p) h;
          h2 = hset canon ''Host'' (Hostname u) h1;
          h3 = (if cq_Referer r \<noteq> '''' then hset canon ''Referer'' (cq_Referer r) h2 else h2);
          mode = effective_mode r;
          h4 = hset canon ''Sec-Fetch-Site'' (detectSecFetchSiteForMode (cq_FetchSite r) u (cq_Referer r) mode) h3
      in case mode of
           FetchModeCORS \<Rightarrow> applyCORSModeHeaders canon p r u h4
         | FetchModeNoCors \<Rightarrow> applyNoCorsHeaders canon p r h4
         | FetchModeNavigate \<Rightarrow> applyNavigationModeHeaders canon p h4)"

definition applyModeHeaders ::
  "(string \<Rightarrow> string) \<Rightarrow> Preset \<Rightarrow> string list \<Rightarrow> client_request \<Rightarrow> URL \<Rightarrow> header \<Rightarrow> ordered_header" where
  "applyModeHeaders canon p customOrder r u h =
     \<lparr>oh_header = user_headers canon (cq_Headers r) (mode_headers canon p r u h),
      oh_order = (if customOrder \<noteq> [] then customOrder else H2HeaderOrder p), oh_pseudo = pseudo_order p []\<rparr>"

definition applyTLSOnlyHeaders ::
  "(string \<Rightarrow> string) \<Rightarrow> Preset \<Rightarrow> string list \<Rightarrow> client_request \<Rightarrow> URL \<Rightarrow> header \<Rightarrow> ordered_header" where
  "applyTLSOnlyHeaders canon p customOrder r u h =
     (let h1 = user_headers canon (cq_Headers r) (hset canon ''Host'' (Hostname u) h) in
      \<lparr>oh_header = (if getHeaderCaseInsensitive (cq_Headers r) ''User-Agent'' = None then hset canon ''User-Agent'' '''' h1 else h1),
       oh_order = (if customOrder \<noteq> [] then customOrder else H2HeaderOrder p), oh_pseudo = pseudo_order p []\<rparr>)"

section \<open>What is sent\<close>

text \<open>The names that the modes set beside those of the preset.\<close>

definition mode_names :: "string list" where
  "mode_names =
     [''User-Agent'', ''Host'', ''Referer'', ''Sec-Fetch-Site'', ''Sec-Ch-Ua'', ''Sec-Ch-Ua-Mobile'', ''Sec-Ch-Ua-Platform'',
      ''Accept'', ''Accept-Encoding'', ''Accept-Language'', ''Sec-Fetch-Dest'', ''Sec-Fetch-Mode'', ''Sec-Fetch-User'',
      ''Upgrade-Insecure-Requests'', ''Priority'', ''TE'', ''Origin'']"

lemma mode_names_in:
  "''User-Agent'' \<in> set mode_names" "''Host'' \<in> set mode_names" "''Referer'' \<in> set mode_names"
  "''Sec-Fetch-Site'' \<in> set mode_names" "''Sec-Ch-Ua'' \<in> set mode_names" "''Sec-Ch-Ua-Mobile'' \<in> set mode_names"
  "''Sec-Ch-Ua-Platform'' \<in> set mode_names" "''Accept'' \<in> set mode_names" "''Accept-Encoding'' \<in> set mode_names"
  "''Accept-Language'' \<in> set mode_names" "''Sec-Fetch-Dest'' \<in> set mode_names" "''Sec-Fetch-Mode'' \<in> set mode_names"
  "''Sec-Fetch-User'' \<in> set mode_names" "''Upgrade-Insecure-Requests'' \<in> set mode_names" "''Priority'' \<in> set mode_names"
  "''TE'' \<in> set mode_names" "''Origin'' \<in> set mode_names"
  by (simp_all add: mode_names_def)

lemma hvalues_hset [simp]: "hvalues (hset canon k v h) x = (if x = canon k then [v] else hvalues h x)"
  by (simp add: hset_def)

lemma hvalues_set_if: "x \<noteq> canon key \<Longrightarrow> hvalues (set_if canon p pk key h) x = hvalues h x"
  by (simp add: set_if_def split: option.split)

lemma hvalues_set_or: "x \<noteq> canon key \<Longrightarrow> hvalues (set_or canon p key d h) x = hvalues h x"
  by (simp add: set_or_def)

lemmas mode_defs =
  applyNavigationModeHeaders_def applyCORSModeHeaders_def applyNoCorsHeaders_def client_hints_def accept_languages_def

text \<open> The headers of a request tell one story: by the kind of request, the fetch mode, its destination,
the marks of a navigation by the user and the origin are those of a browser, in every combination of
preset, referer and settings that sets no headers of its own.\<close>

theorem fetch_metadata_coherent:
  assumes "distinct (map canon mode_names)" "cq_Headers r = []"
  shows "let h = oh_header (applyModeHeaders canon p order r u []); v = (\<lambda>k. hvalues h (canon k)) in
    v ''Sec-Fetch-Site'' = [detectSecFetchSiteForMode (cq_FetchSite r) u (cq_Referer r) (effective_mode r)] \<and>
    (case effective_mode r of
       FetchModeNavigate \<Rightarrow>
         v ''Sec-Fetch-Mode'' = [''navigate''] \<and> v ''Sec-Fetch-Dest'' = [''document''] \<and> v ''Sec-Fetch-User'' = [''?1''] \<and>
         v ''Upgrade-Insecure-Requests'' = [''1''] \<and> v ''Origin'' = []
     | FetchModeCORS \<Rightarrow>
         v ''Sec-Fetch-Mode'' = [''cors''] \<and> v ''Sec-Fetch-Dest'' = [''empty''] \<and> v ''Sec-Fetch-User'' = [] \<and>
         v ''Upgrade-Insecure-Requests'' = [] \<and>
         v ''Origin'' = (if cq_Referer r = '''' then [origin_of u]
           else (case Parse (cq_Referer r) of Some ru \<Rightarrow> [origin_of ru] | None \<Rightarrow> []))
     | FetchModeNoCors \<Rightarrow>
         v ''Sec-Fetch-Mode'' = [''no-cors''] \<and>
         v ''Sec-Fetch-Dest'' = [if cq_FetchDest r = '''' then ''empty'' else cq_FetchDest r] \<and> v ''Sec-Fetch-User'' = [] \<and>
         v ''Upgrade-Insecure-Requests'' = [] \<and> v ''Origin'' = [])"
proof -
  have eq: "a \<in> set mode_names \<Longrightarrow> b \<in> set mode_names \<Longrightarrow> canon a = canon b \<longleftrightarrow> a = b" for a b
    using assms(1) by (auto simp: distinct_map inj_on_def)
  have nil: "hvalues [] k = []" for k by (simp add: hvalues_def)
  show ?thesis
    by (cases "effective_mode r")
      (simp_all add: Let_def applyModeHeaders_def mode_headers_def assms(2) user_headers_def mode_defs
        hvalues_set_if hvalues_set_or nil eq mode_names_in split: option.split)
qed

definition plain_request :: "string \<Rightarrow> string \<Rightarrow> client_request" where
  "plain_request m url =
     \<lparr>cq_Method = m, cq_URL = url, cq_Headers = [], cq_HasMap = False, cq_Body = None, cq_Timeout = 0, cq_UserAgent = '''',
      cq_ForceProtocol = ProtocolAuto, cq_FetchMode = FetchModeNavigate, cq_FetchSite = FetchSiteAuto, cq_FetchDest = '''',
      cq_Referer = '''', cq_Auth = None, cq_Params = [], cq_FollowRedirects = None, cq_MaxRedirects = 0, cq_DisableRetry = False\<rparr>"

definition bare_preset :: Preset where
  "bare_preset =
     \<lparr>pr_Name = ''test'', pr_ClientHelloID = no_hello, pr_PSKClientHelloID = no_hello,
      pr_QUICClientHelloID = no_hello, pr_QUICPSKClientHelloID = no_hello, pr_UserAgent = ''agent'', pr_Headers = [], pr_HeaderOrder = [],
      pr_HTTP2Settings = \<lparr>HeaderTableSize = 0, EnablePush = False, MaxConcurrentStreams = 0, InitialWindowSize = 0, MaxFrameSize = 0,
        MaxHeaderListSize = 0, ConnectionWindowUpdate = 0, StreamWeight = 0, StreamExclusive = False, NoRFC7540Priorities = True\<rparr>,
      pr_TCPFingerprint = \<lparr>tcp_TTL = 0, tcp_MSS = 0, tcp_WindowSize = 0, tcp_WindowScale = 0, tcp_DFBit = False\<rparr>,
      pr_SupportHTTP3 = True, pr_H2Config = None, pr_H3Config = None, pr_JA3 = '''', pr_JA3Extras = None, pr_BasedOn = ''''\<rparr>"

lemma mode_names_distinct: "distinct mode_names"
  by code_simp

lemma fetch_metadata_coherent_witness:
  "hvalues (oh_header (applyModeHeaders id bare_preset [] (plain_request ''GET'' '''') empty_url [])) ''Sec-Fetch-Mode'' = [''navigate'']"
proof -
  have "effective_mode (plain_request ''GET'' '''') = FetchModeNavigate" by code_simp
  moreover have "distinct (map id mode_names)" using mode_names_distinct by simp
  ultimately show ?thesis
    using fetch_metadata_coherent [of id "plain_request ''GET'' ''''" bare_preset "[]" empty_url] by (simp add: Let_def plain_request_def)
qed

text \<open>
  A script's request without a referer claims to be cross-site and names the target's own origin,
  which no browser does.
\<close>

lemma cross_site_own_origin:
  "let r = (plain_request ''GET'' '''')\<lparr>cq_FetchMode := FetchModeCORS\<rparr>;
       h = oh_header (applyModeHeaders id bare_preset [] r (empty_url\<lparr>u_Scheme := ''https'', u_Host := ''a.test''\<rparr>) []) in
   hvalues h ''Sec-Fetch-Site'' = [''cross-site''] \<and> hvalues h ''Origin'' = [''https://a.test'']"
  by code_simp

text \<open>A label of three letters before the last is taken for part of a public suffix.\<close>

lemma short_names_split:
  "extractSite ''www.abc.com'' = ''www.abc.com'' \<and> extractSite ''img.abc.com'' = ''img.abc.com'' \<and>
   extractSite ''www.abcd.com'' = extractSite ''img.abcd.com''"
  by code_simp

end
