(* ===== verification/ClientOptions.thy ===== *)
theory ClientOptions
  imports Transport ClientHeaders
begin

text \<open>
  The client's configuration, \<open>client/options.go\<close>: the fields that something reads, the defaults, and
  the options, each a change of the configuration as in the code. \<open>TLSConfig\<close> and
  \<open>DisableKeepAlives\<close>, which nothing reads, are left out with their options.
\<close>

record client_config =
  cg_Preset :: string
  cg_Timeout :: duration
  cg_Proxy :: string
  cg_TCPProxy :: string
  cg_UDPProxy :: string
  cg_FollowRedirects :: bool
  cg_MaxRedirects :: int
  cg_RetryEnabled :: bool
  cg_MaxRetries :: int
  cg_RetryWaitMin :: duration
  cg_RetryWaitMax :: duration
  cg_RetryOnStatus :: "int list"
  cg_InsecureSkipVerify :: bool
  cg_DisableH3 :: bool
  cg_PreferIPv4 :: bool
  cg_ConnectTo :: "(string, string) gomap"
  cg_ECHConfig :: "byte list"
  cg_ECHConfigDomain :: string
  cg_DisableECH :: bool
  cg_ForceProtocol :: client_protocol
  cg_TLSOnly :: bool

definition DefaultConfig :: client_config where
  "DefaultConfig =
     \<lparr>cg_Preset = ''chrome-latest'', cg_Timeout = 30 * second, cg_Proxy = '''', cg_TCPProxy = '''', cg_UDPProxy = '''',
      cg_FollowRedirects = True, cg_MaxRedirects = 10, cg_RetryEnabled = False, cg_MaxRetries = 3,
      cg_RetryWaitMin = 1 * second, cg_RetryWaitMax = 30 * second, cg_RetryOnStatus = [429, 500, 502, 503, 504],
      cg_InsecureSkipVerify = False, cg_DisableH3 = False, cg_PreferIPv4 = False, cg_ConnectTo = [], cg_ECHConfig = [],
      cg_ECHConfigDomain = '''', cg_DisableECH = False, cg_ForceProtocol = client_protocol.ProtocolAuto, cg_TLSOnly = False\<rparr>"

type_synonym client_option = "client_config \<Rightarrow> client_config"

definition WithPreset :: "string \<Rightarrow> client_option" where
  "WithPreset p c = c\<lparr>cg_Preset := p\<rparr>"

definition WithTimeout :: "duration \<Rightarrow> client_option" where
  "WithTimeout t c = c\<lparr>cg_Timeout := t\<rparr>"

definition WithProxy :: "string \<Rightarrow> client_option" where
  "WithProxy p c = c\<lparr>cg_Proxy := p\<rparr>"

definition WithTCPProxy :: "string \<Rightarrow> client_option" where
  "WithTCPProxy p c = c\<lparr>cg_TCPProxy := p\<rparr>"

definition WithUDPProxy :: "string \<Rightarrow> client_option" where
  "WithUDPProxy p c = c\<lparr>cg_UDPProxy := p\<rparr>"

definition WithRedirects :: "bool \<Rightarrow> int \<Rightarrow> client_option" where
  "WithRedirects follow n c = c\<lparr>cg_FollowRedirects := follow, cg_MaxRedirects := n\<rparr>"

definition WithoutRedirects :: client_option where
  "WithoutRedirects c = c\<lparr>cg_FollowRedirects := False\<rparr>"

definition WithRetry :: "int \<Rightarrow> client_option" where
  "WithRetry n c = c\<lparr>cg_RetryEnabled := True, cg_MaxRetries := n\<rparr>"

definition WithoutRetry :: client_option where
  "WithoutRetry c = c\<lparr>cg_RetryEnabled := False, cg_MaxRetries := 0\<rparr>"

definition WithRetryConfig :: "int \<Rightarrow> duration \<Rightarrow> duration \<Rightarrow> int list \<Rightarrow> client_option" where
  "WithRetryConfig n waitMin waitMax retryOnStatus c =
     c\<lparr>cg_RetryEnabled := True, cg_MaxRetries := n, cg_RetryWaitMin := waitMin, cg_RetryWaitMax := waitMax,
       cg_RetryOnStatus := (if retryOnStatus \<noteq> [] then retryOnStatus else cg_RetryOnStatus c)\<rparr>"

definition WithInsecureSkipVerify :: client_option where
  "WithInsecureSkipVerify c = c\<lparr>cg_InsecureSkipVerify := True\<rparr>"

definition WithDisableHTTP3 :: client_option where
  "WithDisableHTTP3 c = c\<lparr>cg_DisableH3 := True\<rparr>"

definition WithForceHTTP1 :: client_option where
  "WithForceHTTP1 c = c\<lparr>cg_ForceProtocol := client_protocol.ProtocolHTTP1, cg_DisableH3 := True\<rparr>"

definition WithForceHTTP2 :: client_option where
  "WithForceHTTP2 c = c\<lparr>cg_ForceProtocol := client_protocol.ProtocolHTTP2, cg_DisableH3 := True\<rparr>"

definition WithForceHTTP3 :: client_option where
  "WithForceHTTP3 c = c\<lparr>cg_ForceProtocol := client_protocol.ProtocolHTTP3\<rparr>"

definition WithTLSOnly :: client_option where
  "WithTLSOnly c = c\<lparr>cg_TLSOnly := True\<rparr>"

definition WithPreferIPv4 :: client_option where
  "WithPreferIPv4 c = c\<lparr>cg_PreferIPv4 := True\<rparr>"

definition WithConnectTo :: "string \<Rightarrow> string \<Rightarrow> client_option" where
  "WithConnectTo requestHost connectHost c = c\<lparr>cg_ConnectTo := AList.update requestHost connectHost (cg_ConnectTo c)\<rparr>"

definition WithECHConfig :: "byte list \<Rightarrow> client_option" where
  "WithECHConfig e c = c\<lparr>cg_ECHConfig := e\<rparr>"

definition WithECHFrom :: "string \<Rightarrow> client_option" where
  "WithECHFrom domain c = c\<lparr>cg_ECHConfigDomain := domain\<rparr>"

definition WithDisableECH :: client_option where
  "WithDisableECH c = c\<lparr>cg_DisableECH := True\<rparr>"

fun protocol_name :: "client_protocol \<Rightarrow> string" where
  "protocol_name client_protocol.ProtocolAuto = ''auto''"
| "protocol_name client_protocol.ProtocolHTTP1 = ''h1''"
| "protocol_name client_protocol.ProtocolHTTP2 = ''h2''"
| "protocol_name client_protocol.ProtocolHTTP3 = ''h3''"

end
