(* ===== verification/Client.thy ===== *)
theory Client
  imports Complex_Main ClientCookies ClientAuth ClientOptions
begin

text \<open>
  The client, \<open>client/client.go\<close>: a second front end beside the session, with a choice of protocol,
  redirects, retries, authentication, pins and decoding of its own. The transports and pools it
  calls are one function of the environment, \<open>ce_trip\<close>, which gets the way a request takes; the
  environment has a state of its own, so that every call may be answered differently. \<open>doOnce\<close> calls
  itself after redirects and after challenges and need not return.
\<close>

section \<open>Data and state\<close>

text \<open>
  What the client sets up its transports and pools with: the preset they imitate, the proxy, empty for
  none, and the settings of the configuration. The ways a request can leave are the HTTP/1
  transport, the HTTP/2 pools, and HTTP/3 through a MASQUE proxy, through a SOCKS proxy or directly.
\<close>

record wire =
  wi_preset :: Preset
  wi_proxy :: string
  wi_skipVerify :: bool
  wi_connectTo :: "(string, string) gomap"
  wi_ECHConfig :: "byte list"
  wi_ECHConfigDomain :: string
  wi_disableECH :: bool
  wi_TLSOnly :: bool

datatype trip_route = TripH1 wire | TripH2 wire | TripMasque wire | TripSocks wire | TripQuic wire

record trip_request =
  tr_Method :: string
  tr_URL :: URL
  tr_Header :: ordered_header
  tr_Body :: "string option"

text \<open>A response: what reading its body gives, and the certificates, where the transport reports them.\<close>

record trip_response =
  tp_StatusCode :: int
  tp_Header :: header
  tp_Body :: "string + string"
  tp_Certs :: "byte list list option"

record hop_info =
  ri_StatusCode :: int
  ri_URL :: string
  ri_Headers :: header

record client_response =
  cp_StatusCode :: int
  cp_Headers :: header
  cp_Body :: string
  cp_FinalURL :: string
  cp_Protocol :: string
  cp_History :: "hop_info list"

datatype client_error =
    InvalidURL
  | OnlyHTTPS
  | BodyReadFailed string
  | CreateRequestFailed
  | HookFailed string
  | TripFailed string
  | H3NeedsProxy
  | H3Disabled "string option"
  | H3Failed string
  | PinFailed pin_error
  | TooManyRedirects int
  | MissingLocation
  | ChallengeFailed string
  | ResponseReadFailed string
  | DecompressFailed string
  | ContextDone string
  | RetriesExhausted int "client_error option"
  | StatusError int
  | NilPointer

text \<open>Hooks may change what they get and report an error, which only counts before the request.\<close>

type_synonym pre_hook = "trip_request \<Rightarrow> string option \<times> trip_request"
type_synonym post_hook = "client_response \<Rightarrow> string option \<times> client_response"

record client =
  cl_preset :: Preset
  cl_config :: client_config
  cl_h1 :: wire
  cl_h2 :: wire
  cl_quic :: "wire option"
  cl_masque :: "wire option"
  cl_socks :: "wire option"
  cl_h3InitError :: "string option"
  cl_auth :: "nat option"
  cl_auths :: "nat \<Rightarrow> auth"
  cl_cookies :: "client_jar option"
  cl_pre :: "pre_hook list"
  cl_post :: "post_hook list"
  cl_pins :: "cert_pin list"
  cl_h3Failures :: "(string, time) gomap"
  cl_h2Failures :: "(string, time) gomap"
  cl_headerOrder :: "string list"

text \<open>
  \<open>ce_masque\<close> and \<open>ce_socks\<close> set up an HTTP/3 transport for a proxy URL, or fail; \<open>ce_decode\<close> are the
  four decoders; \<open>ce_wait\<close> may be cut short by the caller's context.
\<close>

record 'w client_env =
  ce_canon :: "string \<Rightarrow> string"
  ce_md5 :: "string \<Rightarrow> string"
  ce_sha256 :: "byte list \<Rightarrow> byte list"
  ce_parse_time :: cookie_time_parser
  ce_decode :: "string \<Rightarrow> string \<Rightarrow> string + string"
  ce_masque :: "string \<Rightarrow> string option"
  ce_socks :: "string \<Rightarrow> string option"
  ce_now :: "'w \<Rightarrow> time"
  ce_cnonce :: "'w \<Rightarrow> string \<times> 'w"
  ce_rand :: "'w \<Rightarrow> rat \<times> 'w"
  ce_wait :: "duration \<Rightarrow> 'w \<Rightarrow> string option \<times> 'w"
  ce_trip :: "trip_route \<Rightarrow> trip_request \<Rightarrow> 'w \<Rightarrow> (string + trip_response) \<times> 'w"

section \<open>Choosing a protocol\<close>

definition has_h3 :: "client \<Rightarrow> bool" where
  "has_h3 cl \<longleftrightarrow> cl_quic cl \<noteq> None \<or> cl_masque cl \<noteq> None \<or> cl_socks cl \<noteq> None"

definition shouldTryHTTP3 :: "time \<Rightarrow> string \<Rightarrow> client \<Rightarrow> bool" where
  "shouldTryHTTP3 now key cl \<longleftrightarrow>
     has_h3 cl \<and> (case map_of (cl_h3Failures cl) key of None \<Rightarrow> True | Some t \<Rightarrow> \<not> now - t < 5 * minute)"

definition markH3Failed :: "time \<Rightarrow> string \<Rightarrow> client \<Rightarrow> client" where
  "markH3Failed now key cl = cl\<lparr>cl_h3Failures := AList.update key now (cl_h3Failures cl)\<rparr>"

definition markH2Failed :: "time \<Rightarrow> string \<Rightarrow> client \<Rightarrow> client" where
  "markH2Failed now key cl = cl\<lparr>cl_h2Failures := AList.update key now (cl_h2Failures cl)\<rparr>"

definition shouldUseH1 :: "time \<Rightarrow> string \<Rightarrow> client \<Rightarrow> bool \<times> client" where
  "shouldUseH1 now key cl =
     (case map_of (cl_h2Failures cl) key of
        None \<Rightarrow> (False, cl)
      | Some t \<Rightarrow>
          if now - t > 5 * minute then (False, cl\<lparr>cl_h2Failures := AList.delete key (cl_h2Failures cl)\<rparr>) else (True, cl))"

type_synonym 'w sent = "(client_error + trip_response \<times> string) \<times> client \<times> 'w"

text \<open>The three senders. A request whose sending failed may have lost its body; \<open>resetRequestBody\<close> restores it.\<close>

definition client_doHTTP1 :: "'w client_env \<Rightarrow> trip_request \<Rightarrow> client \<Rightarrow> 'w \<Rightarrow> 'w sent" where
  "client_doHTTP1 env tr cl w =
     (case ce_trip env (TripH1 (cl_h1 cl)) tr w of
        (Inl e, w1) \<Rightarrow> (Inl (TripFailed (''HTTP/1.1 request failed: '' @ e)), cl, w1)
      | (Inr resp, w1) \<Rightarrow> (Inr (resp, ''h1''), cl, w1))"

definition client_doHTTP2 :: "'w client_env \<Rightarrow> trip_request \<Rightarrow> client \<Rightarrow> 'w \<Rightarrow> 'w sent" where
  "client_doHTTP2 env tr cl w =
     (case ce_trip env (TripH2 (cl_h2 cl)) tr w of
        (Inl e, w1) \<Rightarrow> (Inl (TripFailed e), cl, w1)
      | (Inr resp, w1) \<Rightarrow> (Inr (resp, ''h2''), cl, w1))"

definition h3_route :: "client \<Rightarrow> trip_route option" where
  "h3_route cl =
     (case cl_masque cl of
        Some p \<Rightarrow> Some (TripMasque p)
      | None \<Rightarrow> (case cl_socks cl of Some p \<Rightarrow> Some (TripSocks p) | None \<Rightarrow> map_option TripQuic (cl_quic cl)))"

text \<open>Without any of the three the code would follow a nil pointer; its callers ask first.\<close>

definition client_doHTTP3 :: "'w client_env \<Rightarrow> trip_request \<Rightarrow> client \<Rightarrow> 'w \<Rightarrow> 'w sent" where
  "client_doHTTP3 env tr cl w =
     (case h3_route cl of
        None \<Rightarrow> (Inl NilPointer, cl, w)
      | Some route \<Rightarrow>
          (case ce_trip env route tr w of
             (Inl e, w1) \<Rightarrow> (Inl (TripFailed e), cl, w1)
           | (Inr resp, w1) \<Rightarrow> (Inr (resp, ''h3''), cl, w1)))"

definition spent :: "trip_request \<Rightarrow> trip_request" where
  "spent tr = tr\<lparr>tr_Body := map_option (\<lambda>b. '''') (tr_Body tr)\<rparr>"

definition resetRequestBody :: "string \<Rightarrow> trip_request \<Rightarrow> trip_request" where
  "resetRequestBody body tr =
     (if body \<noteq> '''' then tr\<lparr>tr_Body := Some body\<rparr>
      else if has_body_method (to_upper (tr_Method tr)) then tr\<lparr>tr_Body := Some ''''\<rparr> else tr)"

definition or_else :: "'w sent \<Rightarrow> (client \<Rightarrow> 'w \<Rightarrow> 'w sent) \<Rightarrow> 'w sent" where
  "or_else r f = (case r of (Inr x, cl, w) \<Rightarrow> (Inr x, cl, w) | (Inl e, cl, w) \<Rightarrow> f cl w)"

text \<open>The \<open>default\<close> case: by what failed lately, and falling back to what is left.\<close>

definition auto_exchange :: "'w client_env \<Rightarrow> string \<Rightarrow> bool \<Rightarrow> string \<Rightarrow> trip_request \<Rightarrow> client \<Rightarrow> 'w \<Rightarrow> 'w sent" where
  "auto_exchange env key useH3 body tr cl0 w =
     (let (useH1, cl) = shouldUseH1 (ce_now env w) key cl0;
          again = resetRequestBody body (spent tr);
          usesQUICProxy = cg_Proxy (cl_config cl) \<noteq> '''' \<and> SupportsQUIC (cg_Proxy (cl_config cl)) in
      if useH1 \<and> \<not> usesQUICProxy then client_doHTTP1 env tr cl w
      else if usesQUICProxy \<and> useH3 then
        or_else (client_doHTTP3 env tr cl w) (\<lambda>cl w.
          or_else (client_doHTTP2 env again (markH3Failed (ce_now env w) key cl) w) (\<lambda>cl w. client_doHTTP1 env again cl w))
      else
        or_else (client_doHTTP2 env tr cl w) (\<lambda>cl w.
          if useH3 then
            or_else (client_doHTTP3 env again cl w) (\<lambda>cl w. client_doHTTP1 env again (markH3Failed (ce_now env w) key cl) w)
          else client_doHTTP1 env again (markH2Failed (ce_now env w) key cl) w))"

definition effective_protocol :: "client_request \<Rightarrow> client \<Rightarrow> client_protocol" where
  "effective_protocol req cl =
     (if cq_ForceProtocol req = ProtocolAuto \<and> cg_ForceProtocol (cl_config cl) \<noteq> ProtocolAuto
      then cg_ForceProtocol (cl_config cl) else cq_ForceProtocol req)"

definition client_exchange ::
  "'w client_env \<Rightarrow> client_request \<Rightarrow> string \<Rightarrow> bool \<Rightarrow> string \<Rightarrow> trip_request \<Rightarrow> client \<Rightarrow> 'w \<Rightarrow> 'w sent" where
  "client_exchange env req key useH3 body tr cl w =
     (case effective_protocol req cl of
        ProtocolHTTP1 \<Rightarrow> client_doHTTP1 env tr cl w
      | ProtocolHTTP3 \<Rightarrow>
          if cg_Proxy (cl_config cl) \<noteq> '''' \<and> \<not> SupportsQUIC (cg_Proxy (cl_config cl)) then (Inl H3NeedsProxy, cl, w)
          else if \<not> has_h3 cl then (Inl (H3Disabled (cl_h3InitError cl)), cl, w)
          else (case client_doHTTP3 env tr cl w of
              (Inl (TripFailed e), cl1, w1) \<Rightarrow> (Inl (H3Failed e), cl1, w1)
            | r \<Rightarrow> r)
      | ProtocolHTTP2 \<Rightarrow> client_doHTTP2 env tr cl w
      | ProtocolAuto \<Rightarrow> auto_exchange env key useH3 body tr cl w)"

section \<open>Preparing a request\<close>

definition remove_empty_port :: "URL \<Rightarrow> URL" where
  "remove_empty_port u = (if has_suffix (u_Host u) '':'' then u\<lparr>u_Host := butlast (u_Host u)\<rparr> else u)"

definition with_header :: "header \<Rightarrow> trip_request \<Rightarrow> trip_request" where
  "with_header h tr = tr\<lparr>tr_Header := (tr_Header tr)\<lparr>oh_header := h\<rparr>\<rparr>"

definition valid_method :: "string \<Rightarrow> bool" where
  "valid_method m \<longleftrightarrow> m \<noteq> '''' \<and> list_all token_char m"

definition target_url :: "client_request \<Rightarrow> string" where
  "target_url req =
     (if cq_Params req \<noteq> [] then ub_Build (ub_Params (cq_Params req) (NewURLBuilder (cq_URL req))) else cq_URL req)"

definition request_method :: "client_request \<Rightarrow> string" where
  "request_method req = (if cq_Method req = '''' then ''GET'' else cq_Method req)"

definition body_bytes_of :: "client_request \<Rightarrow> client_error + string" where
  "body_bytes_of req = (case cq_Body req of None \<Rightarrow> Inr '''' | Some (Inr b) \<Rightarrow> Inr b | Some (Inl e) \<Rightarrow> Inl (BodyReadFailed e))"

definition host_key :: "URL \<Rightarrow> string" where
  "host_key u = Hostname u @ '':'' @ (if Port u = '''' then ''443'' else Port u)"

text \<open>The request of the http library with the headers of the preset and the caller.\<close>

definition base_request :: "'w client_env \<Rightarrow> client \<Rightarrow> client_request \<Rightarrow> URL \<Rightarrow> string \<Rightarrow> trip_request" where
  "base_request env cl req u body =
     (let m = request_method req;
          h0 = normalizeRequestWithBody (ce_canon env) m body [];
          apply_headers = (if cg_TLSOnly (cl_config cl) then applyTLSOnlyHeaders else applyModeHeaders) in
      \<lparr>tr_Method = m, tr_URL = remove_empty_port u,
       tr_Header = apply_headers (ce_canon env) (cl_preset cl) (cl_headerOrder cl) req u h0,
       tr_Body = (if body \<noteq> '''' \<or> has_body_method m then Some body else None)\<rparr>)"

text \<open>Which authentication is used, and one \<open>Apply\<close>; a nonce of the client's own is drawn when it is needed.\<close>

definition auth_of :: "client_request \<Rightarrow> client \<Rightarrow> nat option" where
  "auth_of req cl = (case cq_Auth req of Some i \<Rightarrow> Some i | None \<Rightarrow> cl_auth cl)"

definition needs_cnonce :: "auth \<Rightarrow> bool" where
  "needs_cnonce a = (case a of DigestAuth d \<Rightarrow> dg_nonce d \<noteq> '''' | _ \<Rightarrow> False)"

definition apply_auth :: "'w client_env \<Rightarrow> nat option \<Rightarrow> trip_request \<Rightarrow> client \<Rightarrow> 'w \<Rightarrow> trip_request \<times> client \<times> 'w" where
  "apply_auth env a tr cl w =
     (case a of
        None \<Rightarrow> (tr, cl, w)
      | Some i \<Rightarrow>
          let (cnonce, w1) = (if needs_cnonce (cl_auths cl i) then ce_cnonce env w else ('''', w));
              (h, a1) = auth_Apply (ce_canon env) (ce_md5 env) cnonce (tr_Method tr) (tr_URL tr) (cl_auths cl i) (oh_header (tr_Header tr))
          in (with_header h tr, cl\<lparr>cl_auths := (cl_auths cl)(i := a1)\<rparr>, w1))"

definition add_cookies :: "'w client_env \<Rightarrow> URL \<Rightarrow> client \<Rightarrow> 'w \<Rightarrow> trip_request \<Rightarrow> trip_request" where
  "add_cookies env u cl w tr =
     (case cl_cookies cl of
        None \<Rightarrow> tr
      | Some j \<Rightarrow>
          let line = cj_CookieHeader (ce_now env w) u j in
          if line \<noteq> '''' then with_header (hset (ce_canon env) ''Cookie'' line (oh_header (tr_Header tr))) tr else tr)"

fun RunPreRequest :: "pre_hook list \<Rightarrow> trip_request \<Rightarrow> string option \<times> trip_request" where
  "RunPreRequest [] tr = (None, tr)"
| "RunPreRequest (h # hs) tr = (case h tr of (Some e, tr1) \<Rightarrow> (Some e, tr1) | (None, tr1) \<Rightarrow> RunPreRequest hs tr1)"

fun RunPostResponse :: "post_hook list \<Rightarrow> client_response \<Rightarrow> string option \<times> client_response" where
  "RunPostResponse [] r = (None, r)"
| "RunPostResponse (h # hs) r = (case h r of (Some e, r1) \<Rightarrow> (Some e, r1) | (None, r1) \<Rightarrow> RunPostResponse hs r1)"

text \<open>The loop that copies what is sent into the caller's header map, where it has no entry of its own.\<close>

definition note_sent :: "header \<Rightarrow> client_request \<Rightarrow> client_request" where
  "note_sent h req =
     req\<lparr>cq_HasMap := True,
         cq_Headers := fold (\<lambda>(k, vs) m. if getHeaderCaseInsensitive m k = None then AList.update k vs m else m) h (cq_Headers req)\<rparr>"

section \<open>After the response\<close>

definition check_pins :: "'w client_env \<Rightarrow> client \<Rightarrow> string \<Rightarrow> trip_response \<Rightarrow> pin_error option" where
  "check_pins env cl host resp =
     (case tp_Certs resp of
        None \<Rightarrow> None
      | Some certs \<Rightarrow> if cl_pins cl \<noteq> [] then pin_Verify (ce_sha256 env) host certs (cl_pins cl) else None)"

definition store_cookies :: "'w client_env \<Rightarrow> URL \<Rightarrow> trip_response \<Rightarrow> 'w \<Rightarrow> client \<Rightarrow> client" where
  "store_cookies env u resp w cl =
     (case cl_cookies cl of
        None \<Rightarrow> cl
      | Some j \<Rightarrow>
          let lines = hvalues (tp_Header resp) ''Set-Cookie'' in
          if lines \<noteq> [] then cl\<lparr>cl_cookies := Some (cj_SetCookiesFromHeaderList (ce_parse_time env) (ce_now env w) u lines j)\<rparr>
          else cl)"

definition isRedirect :: "int \<Rightarrow> bool" where
  "isRedirect s \<longleftrightarrow> s = 301 \<or> s = 302 \<or> s = 303 \<or> s = 307 \<or> s = 308"

definition parseOriginClient :: "string \<Rightarrow> string \<times> string \<times> string" where
  "parseOriginClient url =
     (case Parse url of
        None \<Rightarrow> ('''', '''', '''')
      | Some u \<Rightarrow>
          if u_Scheme u = '''' then ('''', '''', '''')
          else
            let scheme = to_lower (u_Scheme u) in
            (scheme, to_lower (Hostname u),
             if Port u = '''' then (if scheme = ''https'' then ''443'' else if scheme = ''http'' then ''80'' else '''') else Port u))"

definition sameOriginClient :: "string \<Rightarrow> string \<Rightarrow> bool" where
  "sameOriginClient a b \<longleftrightarrow>
     (let (as, ah, ap) = parseOriginClient a; (bs, bh, bp) = parseOriginClient b in
      as \<noteq> '''' \<and> bs \<noteq> '''' \<and> as = bs \<and> ah = bh \<and> ap = bp)"

definition isSchemeDowngradeClient :: "string \<Rightarrow> string \<Rightarrow> bool" where
  "isSchemeDowngradeClient a b \<longleftrightarrow> fst (parseOriginClient a) = ''https'' \<and> fst (parseOriginClient b) = ''http''"

definition follows_redirects :: "client_request \<Rightarrow> client \<Rightarrow> bool" where
  "follows_redirects req cl = (case cq_FollowRedirects req of Some b \<Rightarrow> b | None \<Rightarrow> cg_FollowRedirects (cl_config cl))"

definition redirect_limit :: "client_request \<Rightarrow> client \<Rightarrow> int" where
  "redirect_limit req cl = (if cq_MaxRedirects req > 0 then cq_MaxRedirects req else cg_MaxRedirects (cl_config cl))"

definition hop_method :: "int \<Rightarrow> string \<Rightarrow> string" where
  "hop_method status m = (if status = 303 \<or> ((status = 301 \<or> status = 302) \<and> m = ''POST'') then ''GET'' else m)"

definition carried_headers :: "bool \<Rightarrow> bool \<Rightarrow> header \<Rightarrow> header" where
  "carried_headers downgrade cross h =
     filter (\<lambda>(k, vs). \<not> (downgrade \<and> to_lower k = ''referer'') \<and>
       \<not> ((cross \<or> downgrade) \<and> (to_lower k = ''authorization'' \<or> to_lower k = ''proxy-authorization''))) h"

definition hop_request :: "client_request \<Rightarrow> string \<Rightarrow> string \<Rightarrow> int \<Rightarrow> string \<Rightarrow> string \<Rightarrow> client_request" where
  "hop_request req reqURL redirectURL status m body =
     (let downgrade = isSchemeDowngradeClient reqURL redirectURL;
          cross = \<not> sameOriginClient reqURL redirectURL in
      \<lparr>cq_Method = hop_method status m, cq_URL = redirectURL,
       cq_Headers = carried_headers downgrade cross (cq_Headers req), cq_HasMap = (cq_Headers req \<noteq> []),
       cq_Body = (if (status = 307 \<or> status = 308) \<and> body \<noteq> '''' then Some (Inr body) else None),
       cq_Timeout = cq_Timeout req, cq_UserAgent = cq_UserAgent req, cq_ForceProtocol = cq_ForceProtocol req,
       cq_FetchMode = cq_FetchMode req, cq_FetchSite = FetchSiteCrossSite, cq_FetchDest = '''',
       cq_Referer = (if downgrade then '''' else reqURL), cq_Auth = (if downgrade \<or> cross then None else cq_Auth req),
       cq_Params = [], cq_FollowRedirects = cq_FollowRedirects req, cq_MaxRedirects = cq_MaxRedirects req, cq_DisableRetry = True\<rparr>)"

text \<open>The four codings go through a decoder; anything else passes through.\<close>

definition client_decompress :: "'w client_env \<Rightarrow> string \<Rightarrow> string \<Rightarrow> string + string" where
  "client_decompress env data encoding =
     (if to_lower encoding \<in> {''gzip'', ''br'', ''zstd'', ''deflate''} then ce_decode env (to_lower encoding) data else Inr data)"

definition final_response ::
  "'w client_env \<Rightarrow> client \<Rightarrow> string \<Rightarrow> hop_info list \<Rightarrow> trip_response \<Rightarrow> string \<Rightarrow> client_error + client_response" where
  "final_response env cl reqURL hist resp protocol =
     (case tp_Body resp of
        Inl e \<Rightarrow> Inl (ResponseReadFailed e)
      | Inr raw \<Rightarrow>
          (case client_decompress env raw (hget (ce_canon env) (tp_Header resp) ''Content-Encoding'') of
             Inl e \<Rightarrow> Inl (DecompressFailed e)
           | Inr data \<Rightarrow>
               Inr (snd (RunPostResponse (cl_post cl)
                 \<lparr>cp_StatusCode = tp_StatusCode resp, cp_Headers = buildHeadersMap (tp_Header resp), cp_Body = data,
                  cp_FinalURL = reqURL, cp_Protocol = protocol, cp_History = hist\<rparr>))))"

section \<open>One hop\<close>

text \<open>
  What \<open>doOnce\<close> has when it is about to send: the URL as a string and parsed, whether HTTP/3 may be
  tried, the body it read, and the request. The caller's request comes back with the headers that
  were noted in it.
\<close>

record hop_ready =
  rd_URL :: string
  rd_parsed :: URL
  rd_useH3 :: bool
  rd_body :: string
  rd_trip :: trip_request

definition build_trip :: "'w client_env \<Rightarrow> client_request \<Rightarrow> URL \<Rightarrow> string \<Rightarrow> client \<Rightarrow> 'w \<Rightarrow> trip_request \<times> client \<times> 'w" where
  "build_trip env req u body cl w =
     (case apply_auth env (auth_of req cl) (base_request env cl req u body) cl w of
        (tr, cl1, w1) \<Rightarrow> (add_cookies env u cl1 w1 tr, cl1, w1))"

definition prepare_hop :: "'w client_env \<Rightarrow> client_request \<Rightarrow> client \<Rightarrow> 'w \<Rightarrow> (client_error + hop_ready) \<times> client_request \<times> client \<times> 'w" where
  "prepare_hop env req cl w =
     (let reqURL = target_url req in
      case Parse reqURL of
        None \<Rightarrow> (Inl InvalidURL, req, cl, w)
      | Some u \<Rightarrow>
          if u_Scheme u \<noteq> ''https'' then (Inl OnlyHTTPS, req, cl, w)
          else (case body_bytes_of req of
              Inl e \<Rightarrow> (Inl e, req, cl, w)
            | Inr body \<Rightarrow>
                if \<not> valid_method (request_method req) then (Inl CreateRequestFailed, req, cl, w)
                else (case build_trip env req u body cl w of
                    (tr, cl1, w1) \<Rightarrow>
                      (case RunPreRequest (cl_pre cl1) tr of
                         (Some e, tr1) \<Rightarrow> (Inl (HookFailed e), req, cl1, w1)
                       | (None, tr1) \<Rightarrow>
                           (Inr \<lparr>rd_URL = reqURL, rd_parsed = u, rd_useH3 = shouldTryHTTP3 (ce_now env w) (host_key u) cl,
                                 rd_body = body, rd_trip = tr1\<rparr>,
                            note_sent (oh_header (tr_Header tr1)) req, cl1, w1)))))"

datatype outcome =
    Finished "client_error + client_response"
  | Follow client_request "hop_info list"
  | Again

definition redirect_hop :: "'w client_env \<Rightarrow> client_request \<Rightarrow> hop_info list \<Rightarrow> hop_ready \<Rightarrow> trip_response \<Rightarrow> client \<Rightarrow> outcome" where
  "redirect_hop env req hist rd resp cl =
     (let location = hget (ce_canon env) (tp_Header resp) ''Location'';
          redirectURL = JoinURL (rd_URL rd) location;
          info = \<lparr>ri_StatusCode = tp_StatusCode resp, ri_URL = rd_URL rd, ri_Headers = buildHeadersMap (tp_Header resp)\<rparr> in
      if int (length hist) \<ge> redirect_limit req cl then Finished (Inl (TooManyRedirects (redirect_limit req cl)))
      else if location = '''' then Finished (Inl MissingLocation)
      else Follow (hop_request req (rd_URL rd) redirectURL (tp_StatusCode resp) (request_method req) (rd_body rd))
             (hist @ [info]))"

text \<open>
  The answer to a challenge. The second \<open>Apply\<close> works on the request that was already sent, which
  nobody looks at again; what stays of it is that the authentication has counted it.
\<close>

definition challenge_hop ::
  "'w client_env \<Rightarrow> nat \<Rightarrow> hop_ready \<Rightarrow> trip_response \<Rightarrow> client \<Rightarrow> 'w \<Rightarrow> (string + bool) \<times> client \<times> 'w" where
  "challenge_hop env i rd resp cl w =
     (case HandleChallenge (ce_canon env) (tp_StatusCode resp) (tp_Header resp) (cl_auths cl i) of
        (r, a1) \<Rightarrow>
          let cl1 = cl\<lparr>cl_auths := (cl_auths cl)(i := a1)\<rparr> in
          case r of
            Inr True \<Rightarrow> (case apply_auth env (Some i) (rd_trip rd) cl1 w of (tr, cl2, w2) \<Rightarrow> (Inr True, cl2, w2))
          | _ \<Rightarrow> (r, cl1, w))"

definition hop_answer ::
  "'w client_env \<Rightarrow> client_request \<Rightarrow> hop_info list \<Rightarrow> hop_ready \<Rightarrow> trip_response \<Rightarrow> string \<Rightarrow> client \<Rightarrow> 'w
    \<Rightarrow> outcome \<times> client \<times> 'w" where
  "hop_answer env req hist rd resp protocol cl0 w =
     (let cl = store_cookies env (rd_parsed rd) resp w cl0;
          finish = (\<lambda>cl. Finished (final_response env cl (rd_URL rd) hist resp protocol)) in
      if isRedirect (tp_StatusCode resp) \<and> follows_redirects req cl then (redirect_hop env req hist rd resp cl, cl, w)
      else (case auth_of req cl of
          None \<Rightarrow> (finish cl, cl, w)
        | Some i \<Rightarrow>
            if tp_StatusCode resp = 401 then
              (case challenge_hop env i rd resp cl w of
                 (Inl e, cl1, w1) \<Rightarrow> (Finished (Inl (ChallengeFailed e)), cl1, w1)
               | (Inr True, cl1, w1) \<Rightarrow> (Again, cl1, w1)
               | (Inr False, cl1, w1) \<Rightarrow> (finish cl1, cl1, w1))
            else (finish cl, cl, w)))"

definition do_hop ::
  "'w client_env \<Rightarrow> client_request \<Rightarrow> hop_info list \<Rightarrow> client \<Rightarrow> 'w \<Rightarrow> outcome \<times> client_request \<times> client \<times> 'w" where
  "do_hop env req hist cl w =
     (case prepare_hop env req cl w of
        (Inl e, req1, cl1, w1) \<Rightarrow> (Finished (Inl e), req1, cl1, w1)
      | (Inr rd, req1, cl1, w1) \<Rightarrow>
          (case client_exchange env req1 (host_key (rd_parsed rd)) (rd_useH3 rd) (rd_body rd) (rd_trip rd) cl1 w1 of
             (Inl e, cl2, w2) \<Rightarrow> (Finished (Inl e), req1, cl2, w2)
           | (Inr (resp, protocol), cl2, w2) \<Rightarrow>
               (case check_pins env cl2 (Hostname (rd_parsed rd)) resp of
                  Some e \<Rightarrow> (Finished (Inl (PinFailed e)), req1, cl2, w2)
                | None \<Rightarrow>
                    (case hop_answer env req1 hist rd resp protocol cl2 w2 of
                       (r, cl3, w3) \<Rightarrow> (r, req1, cl3, w3)))))"

text \<open>
  \<open>doOnce\<close> is the repetition of hops. \<open>orig\<close> is the header map of the request it was called with: the
  hops before the first redirect write to it, the others have maps of their own.
\<close>

definition top_headers :: "hop_info list \<Rightarrow> header \<Rightarrow> client_request \<Rightarrow> header" where
  "top_headers hist orig req = (if hist = [] then cq_Headers req else orig)"

type_synonym 'w done_result = "(client_error + client_response) \<times> header \<times> client \<times> 'w"

partial_function (option) doOnce ::
  "'w client_env \<Rightarrow> header \<Rightarrow> client_request \<Rightarrow> hop_info list \<Rightarrow> client \<Rightarrow> 'w \<Rightarrow> 'w done_result option" where
  [code]: "doOnce env orig req hist cl w =
     (case do_hop env req hist cl w of
        (Finished r, req1, cl1, w1) \<Rightarrow> Some (r, top_headers hist orig req1, cl1, w1)
      | (Follow req2 hist2, req1, cl1, w1) \<Rightarrow> doOnce env (top_headers hist orig req1) req2 hist2 cl1 w1
      | (Again, req1, cl1, w1) \<Rightarrow> doOnce env (top_headers hist orig req1) req1 hist cl1 w1)"

section \<open>Retries\<close>

text \<open>The wait before an attempt, on rationals: the rounding of the floating point numbers is left out.\<close>

definition to_duration :: "rat \<Rightarrow> duration" where
  "to_duration q = (if q \<ge> 0 then \<lfloor>q\<rfloor> else \<lceil>q\<rceil>)"

definition calculateRetryWait :: "client_config \<Rightarrow> rat \<Rightarrow> nat \<Rightarrow> duration" where
  "calculateRetryWait c r attempt =
     (let wait = of_int (cg_RetryWaitMin c) * 2 ^ (attempt - 1);
          jittered = wait + wait * (2 / 10) * (r * 2 - 1) in
      to_duration (if jittered > of_int (cg_RetryWaitMax c) then of_int (cg_RetryWaitMax c) else jittered))"

definition shouldRetryStatus :: "client_config \<Rightarrow> int \<Rightarrow> bool" where
  "shouldRetryStatus c status \<longleftrightarrow> status \<in> set (cg_RetryOnStatus c)"

text \<open>The copy of the request an attempt works on. The header map is shared where there is one.\<close>

definition attempt_request :: "client \<Rightarrow> client_request \<Rightarrow> string option \<Rightarrow> bool \<Rightarrow> header \<Rightarrow> client_request" where
  "attempt_request cl req body challenged h =
     req\<lparr>cq_Headers := (if cq_HasMap req then h else []),
         cq_Body := (case body of None \<Rightarrow> cq_Body req | Some b \<Rightarrow> Some (Inr b)),
         cq_ForceProtocol :=
           (if challenged \<and> cq_ForceProtocol req = ProtocolAuto \<and> (cl_quic cl \<noteq> None \<or> cl_masque cl \<noteq> None) then ProtocolHTTP3
            else cq_ForceProtocol req)\<rparr>"

definition is_cookie_challenge :: "client_request \<Rightarrow> bool \<Rightarrow> client_response \<Rightarrow> bool" where
  "is_cookie_challenge req challenged r \<longleftrightarrow>
     (cp_StatusCode r = 403 \<or> cp_StatusCode r = 429) \<and> \<not> challenged \<and> cq_ForceProtocol req = ProtocolAuto \<and>
     hvalues (cp_Headers r) ''set-cookie'' \<noteq> []"

definition before_attempt :: "'w client_env \<Rightarrow> client_config \<Rightarrow> nat \<Rightarrow> 'w \<Rightarrow> string option \<times> 'w" where
  "before_attempt env c attempt w =
     (if attempt = 0 then (None, w)
      else case ce_rand env w of (r, w1) \<Rightarrow> ce_wait env (calculateRetryWait c r attempt) w1)"

text \<open>What the loop carries from one attempt to the next.\<close>

record retrying =
  rt_challenged :: bool
  rt_lastResp :: "client_response option"
  rt_lastErr :: "client_error option"

definition out_of_attempts :: "client_config \<Rightarrow> retrying \<Rightarrow> client_error + client_response" where
  "out_of_attempts c rt =
     (case rt_lastResp rt of Some r \<Rightarrow> Inr r | None \<Rightarrow> Inl (RetriesExhausted (cg_MaxRetries c) (rt_lastErr rt)))"

definition judge_attempt ::
  "client_request \<Rightarrow> client_config \<Rightarrow> nat \<Rightarrow> retrying \<Rightarrow> client_error + client_response \<Rightarrow> (client_response + retrying)" where
  "judge_attempt req c attempt rt r =
     (case r of
        Inl e \<Rightarrow> Inr (rt\<lparr>rt_lastErr := Some e\<rparr>)
      | Inr resp \<Rightarrow>
          if is_cookie_challenge req (rt_challenged rt) resp then Inr (rt\<lparr>rt_challenged := True\<rparr>)
          else if shouldRetryStatus c (cp_StatusCode resp) \<and> int attempt < cg_MaxRetries c then
            Inr (rt\<lparr>rt_lastResp := Some resp, rt_lastErr := Some (StatusError (cp_StatusCode resp))\<rparr>)
          else Inl resp)"

fun retry_loop ::
  "'w client_env \<Rightarrow> client_request \<Rightarrow> string option \<Rightarrow> nat \<Rightarrow> nat \<Rightarrow> retrying \<Rightarrow> header \<Rightarrow> client \<Rightarrow> 'w \<Rightarrow> 'w done_result option" where
  "retry_loop env req body 0 attempt rt h cl w = Some (out_of_attempts (cl_config cl) rt, h, cl, w)"
| "retry_loop env req body (Suc n) attempt rt h cl w =
     (case before_attempt env (cl_config cl) attempt w of
        (Some e, w1) \<Rightarrow> Some (Inl (ContextDone e), h, cl, w1)
      | (None, w1) \<Rightarrow>
          (let reqCopy = attempt_request cl req body (rt_challenged rt) h in
           case doOnce env (cq_Headers reqCopy) reqCopy [] cl w1 of
             None \<Rightarrow> None
           | Some (r, h1, cl1, w2) \<Rightarrow>
               (let h2 = (if cq_HasMap req then h1 else h) in
                case judge_attempt req (cl_config cl1) attempt rt r of
                  Inl resp \<Rightarrow> Some (Inr resp, h2, cl1, w2)
                | Inr rt1 \<Rightarrow> retry_loop env req body n (Suc attempt) rt1 h2 cl1 w2)))"

definition no_attempts :: retrying where
  "no_attempts = \<lparr>rt_challenged = False, rt_lastResp = None, rt_lastErr = None\<rparr>"

definition doWithRetry :: "'w client_env \<Rightarrow> client_request \<Rightarrow> client \<Rightarrow> 'w \<Rightarrow> 'w done_result option" where
  "doWithRetry env req cl w =
     (let loop = (\<lambda>body. retry_loop env req body (nat (cg_MaxRetries (cl_config cl) + 1)) 0 no_attempts (cq_Headers req) cl w) in
      case cq_Body req of
        None \<Rightarrow> loop None
      | Some (Inl e) \<Rightarrow> Some (Inl (BodyReadFailed e), cq_Headers req, cl, w)
      | Some (Inr b) \<Rightarrow> loop (Some b))"

text \<open>The result of \<open>Do\<close> with the caller's header map, the client and the environment after it.\<close>

definition client_Do :: "'w client_env \<Rightarrow> client_request \<Rightarrow> client \<Rightarrow> 'w \<Rightarrow> 'w done_result option" where
  "client_Do env req cl w =
     (if cg_RetryEnabled (cl_config cl) \<and> \<not> cq_DisableRetry req then doWithRetry env req cl w
      else doOnce env (cq_Headers req) req [] cl w)"

end
