(* ===== verification/ClientLife.thy ===== *)
theory ClientLife
  imports Client
begin

text \<open>
  Making a client and changing it: \<open>NewClient\<close>, \<open>NewSession\<close> and the setters of \<open>client/client.go\<close>,
  the list operations of \<open>client/hooks.go\<close>, and \<open>Get\<close> and \<open>Post\<close>. What the client keeps of a transport is
  how it was set up; closing one drops it. The preset table is an argument.
\<close>

section \<open>A new client\<close>

definition plain_wire :: "Preset \<Rightarrow> string \<Rightarrow> wire" where
  "plain_wire preset proxy =
     \<lparr>wi_preset = preset, wi_proxy = proxy, wi_skipVerify = False, wi_connectTo = [], wi_ECHConfig = [],
      wi_ECHConfigDomain = '''', wi_disableECH = False, wi_TLSOnly = False\<rparr>"

text \<open>The pool manager of HTTP/2 and the QUIC manager get the settings one by one.\<close>

definition manager_wire :: "client_config \<Rightarrow> Preset \<Rightarrow> string \<Rightarrow> wire" where
  "manager_wire c preset proxy =
     (plain_wire preset proxy)\<lparr>wi_skipVerify := cg_InsecureSkipVerify c, wi_connectTo := cg_ConnectTo c,
       wi_ECHConfig := cg_ECHConfig c, wi_ECHConfigDomain := cg_ECHConfigDomain c\<rparr>"

text \<open>The transports get a \<open>TransportConfig\<close>, whose fields have their zero values where there is none.\<close>

definition transport_wire :: "client_config \<Rightarrow> Preset \<Rightarrow> string \<Rightarrow> wire" where
  "transport_wire c preset proxy = (manager_wire c preset proxy)\<lparr>wi_TLSOnly := cg_TLSOnly c\<rparr>"

definition tcp_proxy :: "client_config \<Rightarrow> string" where
  "tcp_proxy c = (if cg_TCPProxy c = '''' then cg_Proxy c else cg_TCPProxy c)"

definition udp_proxy :: "client_config \<Rightarrow> string" where
  "udp_proxy c = (if cg_UDPProxy c = '''' then cg_Proxy c else cg_UDPProxy c)"

text \<open>The HTTP/3 transport: MASQUE, SOCKS, direct, and the error of the first two.\<close>

type_synonym h3_parts = "wire option \<times> wire option \<times> wire option \<times> string option"

definition new_h3 :: "'w client_env \<Rightarrow> client_config \<Rightarrow> Preset \<Rightarrow> h3_parts" where
  "new_h3 env c preset =
     (let p = udp_proxy c; made = Some (transport_wire c preset p) in
      if cg_DisableH3 c then (None, None, None, None)
      else if p \<noteq> '''' \<and> IsMASQUEProxy p then
        (case ce_masque env p of None \<Rightarrow> (made, None, None, None) | Some e \<Rightarrow> (None, None, None, Some e))
      else if p \<noteq> '''' \<and> IsSOCKS5Proxy p then
        (case ce_socks env p of None \<Rightarrow> (None, made, None, None) | Some e \<Rightarrow> (None, None, None, Some e))
      else if p = '''' then (None, None, Some ((manager_wire c preset '''')\<lparr>wi_disableECH := cg_DisableECH c\<rparr>), None)
      else (None, None, None, None))"

definition apply_options :: "client_option list \<Rightarrow> client_config \<Rightarrow> client_config" where
  "apply_options opts c = fold (\<lambda>f. f) opts c"

definition NewClient ::
  "'w client_env \<Rightarrow> (string \<Rightarrow> Preset) \<Rightarrow> (nat \<Rightarrow> auth) \<Rightarrow> string \<Rightarrow> client_option list \<Rightarrow> client" where
  "NewClient env presets auths presetName opts =
     (let c = apply_options opts (DefaultConfig\<lparr>cg_Preset := presetName\<rparr>);
          preset = presets (cg_Preset c);
          (masque, socks, quic, err) = new_h3 env c preset in
      \<lparr>cl_preset = preset, cl_config = c, cl_h1 = transport_wire c preset (tcp_proxy c),
       cl_h2 = manager_wire c preset (tcp_proxy c), cl_quic = quic, cl_masque = masque, cl_socks = socks,
       cl_h3InitError = err, cl_auth = None, cl_auths = auths,
       cl_cookies = (if cg_RetryEnabled c then Some NewClientJar else None), cl_pre = [], cl_post = [], cl_pins = [],
       cl_h3Failures = [], cl_h2Failures = [], cl_headerOrder = []\<rparr>)"

definition client_NewSession ::
  "'w client_env \<Rightarrow> (string \<Rightarrow> Preset) \<Rightarrow> (nat \<Rightarrow> auth) \<Rightarrow> string \<Rightarrow> client_option list \<Rightarrow> client" where
  "client_NewSession env presets auths presetName opts =
     (NewClient env presets auths presetName (WithRetry 3 # opts))\<lparr>cl_cookies := Some NewClientJar\<rparr>"

section \<open>Setters\<close>

definition cl_SetPreset :: "(string \<Rightarrow> Preset) \<Rightarrow> string \<Rightarrow> client \<Rightarrow> client" where
  "cl_SetPreset presets name cl = cl\<lparr>cl_preset := presets name, cl_h2 := (cl_h2 cl)\<lparr>wi_preset := presets name\<rparr>\<rparr>"

definition cl_SetTimeout :: "duration \<Rightarrow> client \<Rightarrow> client" where
  "cl_SetTimeout t cl = cl\<lparr>cl_config := (cl_config cl)\<lparr>cg_Timeout := t\<rparr>\<rparr>"

definition cl_SetForceProtocol :: "client_protocol \<Rightarrow> client \<Rightarrow> client" where
  "cl_SetForceProtocol p cl = cl\<lparr>cl_config := (cl_config cl)\<lparr>cg_ForceProtocol := p\<rparr>\<rparr>"

definition cl_SetAuth :: "nat option \<Rightarrow> client \<Rightarrow> client" where
  "cl_SetAuth a cl = cl\<lparr>cl_auth := a\<rparr>"

text \<open>A new authentication of the client, at an address \<open>i\<close> that nothing uses.\<close>

definition new_auth :: "nat \<Rightarrow> auth \<Rightarrow> client \<Rightarrow> client" where
  "new_auth i a cl = cl\<lparr>cl_auths := (cl_auths cl)(i := a), cl_auth := Some i\<rparr>"

definition cl_SetBasicAuth :: "nat \<Rightarrow> string \<Rightarrow> string \<Rightarrow> client \<Rightarrow> client" where
  "cl_SetBasicAuth i username password = new_auth i (BasicAuth username password)"

definition cl_SetBearerAuth :: "nat \<Rightarrow> string \<Rightarrow> client \<Rightarrow> client" where
  "cl_SetBearerAuth i token = new_auth i (BearerAuth token)"

definition cl_EnableCookies :: "client \<Rightarrow> client" where
  "cl_EnableCookies cl = (if cl_cookies cl = None then cl\<lparr>cl_cookies := Some NewClientJar\<rparr> else cl)"

definition cl_DisableCookies :: "client \<Rightarrow> client" where
  "cl_DisableCookies cl = cl\<lparr>cl_cookies := None\<rparr>"

definition cl_ClearCookies :: "client \<Rightarrow> client" where
  "cl_ClearCookies cl = cl\<lparr>cl_cookies := map_option cj_Clear (cl_cookies cl)\<rparr>"

definition cl_OnPreRequest :: "pre_hook \<Rightarrow> client \<Rightarrow> client" where
  "cl_OnPreRequest h cl = cl\<lparr>cl_pre := cl_pre cl @ [h]\<rparr>"

definition cl_OnPostResponse :: "post_hook \<Rightarrow> client \<Rightarrow> client" where
  "cl_OnPostResponse h cl = cl\<lparr>cl_post := cl_post cl @ [h]\<rparr>"

definition ClearPreRequest :: "client \<Rightarrow> client" where
  "ClearPreRequest cl = cl\<lparr>cl_pre := []\<rparr>"

definition ClearPostResponse :: "client \<Rightarrow> client" where
  "ClearPostResponse cl = cl\<lparr>cl_post := []\<rparr>"

definition cl_ClearHooks :: "client \<Rightarrow> client" where
  "cl_ClearHooks cl = ClearPostResponse (ClearPreRequest cl)"

definition PinCertificate :: "string \<Rightarrow> string \<Rightarrow> bool \<Rightarrow> client \<Rightarrow> client" where
  "PinCertificate hash host subdomains cl = cl\<lparr>cl_pins := AddPin hash host subdomains (cl_pins cl)\<rparr>"

definition ClearPins :: "client \<Rightarrow> client" where
  "ClearPins cl = cl\<lparr>cl_pins := []\<rparr>"

definition cl_SetHeaderOrder :: "string list \<Rightarrow> client \<Rightarrow> client" where
  "cl_SetHeaderOrder order cl = cl\<lparr>cl_headerOrder := map to_lower order\<rparr>"

definition cl_GetHeaderOrder :: "client \<Rightarrow> string list" where
  "cl_GetHeaderOrder cl =
     (if cl_headerOrder cl \<noteq> [] then cl_headerOrder cl else map fst (pr_HeaderOrder (cl_preset cl)))"

section \<open>Changing the proxies\<close>

definition cl_SetTCPProxy :: "string \<Rightarrow> client \<Rightarrow> client" where
  "cl_SetTCPProxy url cl =
     (let c = cl_config cl;
          c1 = c\<lparr>cg_TCPProxy := url,
            cg_Proxy := (if cg_Proxy c = cg_UDPProxy c \<or> cg_UDPProxy c = '''' then url else cg_Proxy c)\<rparr> in
      cl\<lparr>cl_h2 := (cl_h2 cl)\<lparr>wi_proxy := url\<rparr>, cl_h1 := (cl_h1 cl)\<lparr>wi_proxy := url\<rparr>, cl_config := c1, cl_h2Failures := []\<rparr>)"

text \<open>\<open>SetUDPProxy\<close> makes the HTTP/3 transport again, with few of the settings it was made with.\<close>

definition cl_SetUDPProxy :: "'w client_env \<Rightarrow> string \<Rightarrow> client \<Rightarrow> client" where
  "cl_SetUDPProxy env url cl =
     (let c = cl_config cl;
          c1 = c\<lparr>cg_UDPProxy := url,
            cg_Proxy := (if cg_Proxy c = cg_TCPProxy c \<or> cg_TCPProxy c = '''' then url else cg_Proxy c)\<rparr>;
          made = Some ((plain_wire (cl_preset cl) url)\<lparr>wi_skipVerify := cg_InsecureSkipVerify c\<rparr>);
          cl1 = cl\<lparr>cl_quic := None, cl_masque := None, cl_socks := None, cl_config := c1, cl_h3Failures := []\<rparr> in
      if url \<noteq> '''' \<and> IsMASQUEProxy url then (if ce_masque env url = None then cl1\<lparr>cl_masque := made\<rparr> else cl1)
      else if url \<noteq> '''' \<and> IsSOCKS5Proxy url then (if ce_socks env url = None then cl1\<lparr>cl_socks := made\<rparr> else cl1)
      else if url = '''' then cl1\<lparr>cl_quic := made\<rparr>
      else cl1)"

definition cl_SetProxy :: "'w client_env \<Rightarrow> string \<Rightarrow> client \<Rightarrow> client" where
  "cl_SetProxy env url cl = cl_SetUDPProxy env url (cl_SetTCPProxy url cl)"

definition cl_GetTCPProxy :: "client \<Rightarrow> string" where
  "cl_GetTCPProxy cl = wi_proxy (cl_h2 cl)"

definition cl_GetProxy :: "client \<Rightarrow> string" where
  "cl_GetProxy = cl_GetTCPProxy"

definition cl_GetUDPProxy :: "client \<Rightarrow> string" where
  "cl_GetUDPProxy cl = cg_UDPProxy (cl_config cl)"

section \<open>Requests in one call\<close>

definition bare_request :: "string \<Rightarrow> string \<Rightarrow> header \<Rightarrow> bool \<Rightarrow> (string + string) option \<Rightarrow> client_request" where
  "bare_request m url h has_map body =
     \<lparr>cq_Method = m, cq_URL = url, cq_Headers = h, cq_HasMap = has_map, cq_Body = body, cq_Timeout = 0,
      cq_UserAgent = '''', cq_ForceProtocol = client_protocol.ProtocolAuto, cq_FetchMode = FetchModeNavigate, cq_FetchSite = FetchSiteAuto,
      cq_FetchDest = '''', cq_Referer = '''', cq_Auth = None, cq_Params = [], cq_FollowRedirects = None, cq_MaxRedirects = 0,
      cq_DisableRetry = False\<rparr>"

definition cl_Get :: "'w client_env \<Rightarrow> string \<Rightarrow> header \<Rightarrow> bool \<Rightarrow> client \<Rightarrow> 'w \<Rightarrow> 'w done_result option" where
  "cl_Get env url h has_map = client_Do env (bare_request ''GET'' url h has_map None)"

definition cl_Post ::
  "'w client_env \<Rightarrow> string \<Rightarrow> (string + string) option \<Rightarrow> header \<Rightarrow> bool \<Rightarrow> client \<Rightarrow> 'w \<Rightarrow> 'w done_result option" where
  "cl_Post env url body h has_map = client_Do env (bare_request ''POST'' url h has_map body)"

text \<open>The questions a response answers.\<close>

definition cp_Get :: "string \<Rightarrow> client_response \<Rightarrow> string" where
  "cp_Get key r = (case hvalues (cp_Headers r) (to_lower key) of [] \<Rightarrow> '''' | v # vs \<Rightarrow> v)"

definition cp_IsSuccess :: "client_response \<Rightarrow> bool" where
  "cp_IsSuccess r \<longleftrightarrow> cp_StatusCode r \<ge> 200 \<and> cp_StatusCode r < 300"

definition cp_IsRedirect :: "client_response \<Rightarrow> bool" where
  "cp_IsRedirect r \<longleftrightarrow> cp_StatusCode r \<ge> 300 \<and> cp_StatusCode r < 400"

definition cp_IsClientError :: "client_response \<Rightarrow> bool" where
  "cp_IsClientError r \<longleftrightarrow> cp_StatusCode r \<ge> 400 \<and> cp_StatusCode r < 500"

definition cp_IsServerError :: "client_response \<Rightarrow> bool" where
  "cp_IsServerError r \<longleftrightarrow> cp_StatusCode r \<ge> 500 \<and> cp_StatusCode r < 600"

end
