(* ===== verification/ClientStream.thy ===== *)
theory ClientStream
  imports ClientLife SessionText
begin

text \<open>
  Streams of the client, \<open>client/stream.go\<close>: \<open>DoStream\<close>, which sends one request and hands out the body
  unread, the choice of a decoder, and the reader of server-sent events. A body is what reading it to
  its end gives and the error at the end, if any; opening a decoder may fail after some bytes.
\<close>

section \<open>Requests\<close>

record stream_response =
  st_StatusCode :: int
  st_Headers :: header
  st_FinalURL :: string
  st_Protocol :: string
  st_Body :: "string \<times> string option"

text \<open>\<open>DoStream\<close> prepares its request like \<open>doOnce\<close>, with the headers of the modes always, and no hooks.\<close>

definition stream_trip :: "'w client_env \<Rightarrow> client_request \<Rightarrow> URL \<Rightarrow> string \<Rightarrow> client \<Rightarrow> 'w \<Rightarrow> trip_request \<times> client \<times> 'w" where
  "stream_trip env req u body cl w =
     (let m = request_method req;
          tr0 = \<lparr>tr_Method = m, tr_URL = remove_empty_port u,
            tr_Header = applyModeHeaders (ce_canon env) (cl_preset cl) (cl_headerOrder cl) req u (normalizeRequestWithBody (ce_canon env) m body []),
            tr_Body = (if body \<noteq> '''' \<or> has_body_method m then Some body else None)\<rparr> in
      case apply_auth env (auth_of req cl) tr0 cl w of (tr, cl1, w1) \<Rightarrow> (add_cookies env u cl1 w1 tr, cl1, w1))"

text \<open>The \<open>default\<close> case of the protocols; HTTP/1 is only tried after an earlier failure of HTTP/2 was noted.\<close>

definition stream_auto :: "'w client_env \<Rightarrow> string \<Rightarrow> bool \<Rightarrow> string \<Rightarrow> trip_request \<Rightarrow> client \<Rightarrow> 'w \<Rightarrow> 'w sent" where
  "stream_auto env key useH3 body tr cl w =
     (let again = resetRequestBody body (spent tr);
          first = (if useH3 then
              or_else (client_doHTTP3 env tr cl w)
                (\<lambda>cl w. client_doHTTP2 env again (markH3Failed (ce_now env w) key cl) w)
            else client_doHTTP2 env tr cl w) in
      case first of
        (Inr x, cl1, w1) \<Rightarrow> (Inr x, cl1, w1)
      | (Inl e, cl1, w1) \<Rightarrow>
          (case shouldUseH1 (ce_now env w1) key cl1 of
             (True, cl2) \<Rightarrow> client_doHTTP1 env again (markH2Failed (ce_now env w1) key cl2) w1
           | (False, cl2) \<Rightarrow> (Inl e, cl2, w1)))"

definition stream_exchange ::
  "'w client_env \<Rightarrow> client_request \<Rightarrow> string \<Rightarrow> bool \<Rightarrow> string \<Rightarrow> trip_request \<Rightarrow> client \<Rightarrow> 'w \<Rightarrow> 'w sent" where
  "stream_exchange env req key useH3 body tr cl w =
     (case effective_protocol req cl of
        client_protocol.ProtocolHTTP3 \<Rightarrow>
          if cg_Proxy (cl_config cl) \<noteq> '''' then (Inl H3NeedsProxy, cl, w)
          else if cl_quic cl = None then (Inl (H3Disabled None), cl, w)
          else (case client_doHTTP3 env tr cl w of
              (Inl (TripFailed e), cl1, w1) \<Rightarrow> (Inl (H3Failed e), cl1, w1)
            | r \<Rightarrow> r)
      | client_protocol.ProtocolHTTP2 \<Rightarrow> client_doHTTP2 env tr cl w
      | client_protocol.ProtocolHTTP1 \<Rightarrow> client_doHTTP1 env tr cl w
      | client_protocol.ProtocolAuto \<Rightarrow> stream_auto env key useH3 body tr cl w)"

text \<open>
  \<open>setupDecompressor\<close>: an opened decoder gives its output and error; one that cannot be opened leaves
  the body behind the bytes it took, as do the codings that are not known, among them \<open>deflate\<close>.
\<close>

type_synonym decoder_opener = "string \<Rightarrow> string \<Rightarrow> nat + string \<times> string option"

definition setupDecompressor :: "decoder_opener \<Rightarrow> string \<times> string option \<Rightarrow> string \<Rightarrow> string \<times> string option" where
  "setupDecompressor open_decoder body encoding =
     (if to_lower encoding \<in> {''gzip'', ''br'', ''zstd''} then
        (case open_decoder (to_lower encoding) (fst body) of
           Inl n \<Rightarrow> (drop n (fst body), snd body)
         | Inr res \<Rightarrow> res)
      else body)"

definition DoStream ::
  "'w client_env \<Rightarrow> decoder_opener \<Rightarrow> client_request \<Rightarrow> client \<Rightarrow> 'w \<Rightarrow> (client_error + stream_response) \<times> client \<times> 'w" where
  "DoStream env open_decoder req cl w =
     (let reqURL = target_url req in
      case Parse reqURL of
        None \<Rightarrow> (Inl InvalidURL, cl, w)
      | Some u \<Rightarrow>
          if u_Scheme u \<noteq> ''https'' then (Inl OnlyHTTPS, cl, w)
          else (case body_bytes_of req of
              Inl e \<Rightarrow> (Inl e, cl, w)
            | Inr body \<Rightarrow>
                if \<not> valid_method (request_method req) then (Inl CreateRequestFailed, cl, w)
                else (case stream_trip env req u body cl w of
                    (tr, cl1, w1) \<Rightarrow>
                      (case stream_exchange env req (host_key u) (shouldTryHTTP3 (ce_now env w) (host_key u) cl) body tr cl1 w1 of
                         (Inl e, cl2, w2) \<Rightarrow> (Inl e, cl2, w2)
                       | (Inr (resp, protocol), cl2, w2) \<Rightarrow>
                           (Inr \<lparr>st_StatusCode = tp_StatusCode resp, st_Headers = buildHeadersMap (tp_Header resp),
                              st_FinalURL = reqURL, st_Protocol = protocol,
                              st_Body = setupDecompressor open_decoder
                                (case tp_Body resp of Inl e \<Rightarrow> ('''', Some e) | Inr b \<Rightarrow> (b, None))
                                (hget (ce_canon env) (tp_Header resp) ''Content-Encoding'')\<rparr>,
                            store_cookies env u resp w2 cl2, w2)))))"

section \<open>Lines\<close>

text \<open>
  \<open>bufio.Scanner\<close> over a body: its lines without their ends, and the error behind them. A line that does
  not fit the scanner's buffer of 64 KiB ends it.
\<close>

definition max_line :: nat where
  "max_line = 65536"

definition drop_cr :: "string \<Rightarrow> string" where
  "drop_cr l = (if l \<noteq> '''' \<and> last l = CHR 0x0D then butlast l else l)"

definition raw_lines :: "string \<Rightarrow> string list" where
  "raw_lines s = (let ls = split_on CHR 0x0A s in if last ls = '''' then butlast ls else ls)"

definition fits :: "string \<Rightarrow> bool" where
  "fits l \<longleftrightarrow> length l < max_line"

definition scan_lines :: "string \<times> string option \<Rightarrow> string list \<times> string option" where
  "scan_lines body =
     (let ls = raw_lines (fst body) in
      if list_all fits ls then (map drop_cr ls, snd body)
      else (map drop_cr (takeWhile fits ls), Some ''bufio.Scanner: token too long''))"

section \<open>Server-sent events\<close>

record sse_event =
  ev_Event :: string
  ev_Data :: string
  ev_ID :: string
  ev_Retry :: int

definition blank_event :: sse_event where
  "blank_event = \<lparr>ev_Event = '''', ev_Data = '''', ev_ID = '''', ev_Retry = 0\<rparr>"

definition sse_field :: "string \<Rightarrow> string \<times> string" where
  "sse_field line =
     (case index_of line '':'' of
        None \<Rightarrow> (line, '''')
      | Some i \<Rightarrow>
          let v = drop (i + 1) line in
          (take i line, if v \<noteq> '''' \<and> hd v = CHR '' '' then tl v else v))"

text \<open>One line: the event and the lines of its data so far.\<close>

definition sse_line :: "string \<Rightarrow> sse_event \<times> string list \<Rightarrow> sse_event \<times> string list" where
  "sse_line line st =
     (case st of (ev, ds) \<Rightarrow>
       if has_prefix line '':'' then st
       else case sse_field line of (field, v) \<Rightarrow>
         if field = ''event'' then (ev\<lparr>ev_Event := v\<rparr>, ds)
         else if field = ''data'' then (ev, ds @ [v])
         else if field = ''id'' then (ev\<lparr>ev_ID := v\<rparr>, ds)
         else if field = ''retry'' then (ev\<lparr>ev_Retry := int_digits v\<rparr>, ds)
         else st)"

definition with_data :: "sse_event \<times> string list \<Rightarrow> sse_event" where
  "with_data st = (fst st)\<lparr>ev_Data := join_with [CHR 0x0A] (snd st)\<rparr>"

text \<open>\<open>Next\<close>, on the lines that are left and the error behind them; \<open>None\<close> is the end of the stream.\<close>

fun next_event :: "sse_event \<times> string list \<Rightarrow> string list \<Rightarrow> string option \<Rightarrow> (string option + sse_event) \<times> string list" where
  "next_event st [] err =
     (case err of
        Some e \<Rightarrow> (Inl (Some e), [])
      | None \<Rightarrow> (if snd st \<noteq> [] then Inr (with_data st) else Inl None, []))"
| "next_event st (line # ls) err =
     (if line = '''' then (if snd st \<noteq> [] then (Inr (with_data st), ls) else next_event st ls err)
      else next_event (sse_line line st) ls err)"

definition SSE_Next :: "string list \<times> string option \<Rightarrow> (string option + sse_event) \<times> string list" where
  "SSE_Next s = next_event (blank_event, []) (fst s) (snd s)"

lemma next_event_length:
  "next_event st ls err = (Inr ev, rest) \<Longrightarrow> length rest < length ls \<or> (ls = [] \<and> snd st \<noteq> [] \<and> rest = [])"
  by (induction st ls err rule: next_event.induct) (fastforce split: option.splits if_splits)+

text \<open>\<open>Events\<close>: all events up to the first error, or the end.\<close>

function SSE_Events :: "string list \<times> string option \<Rightarrow> sse_event list" where
  "SSE_Events (ls, err) =
     (case SSE_Next (ls, err) of
        (Inl e, rest) \<Rightarrow> []
      | (Inr ev, rest) \<Rightarrow> ev # SSE_Events (rest, err))"
  by pat_completeness auto
termination
  by (relation "measure (length \<circ> fst)") (auto simp: SSE_Next_def dest!: next_event_length [OF sym])

definition stream_events :: "stream_response \<Rightarrow> sse_event list" where
  "stream_events r = SSE_Events (scan_lines (st_Body r))"

section \<open>Events arrive as they were sent\<close>

text \<open>How a server writes an event: a line for each field that is set and for each line of the data, and an empty line.\<close>

definition field_line :: "string \<Rightarrow> string \<Rightarrow> string" where
  "field_line name v = name @ '': '' @ v"

definition event_lines :: "sse_event \<Rightarrow> string list" where
  "event_lines ev =
     (if ev_Event ev \<noteq> '''' then [field_line ''event'' (ev_Event ev)] else []) @
     (if ev_ID ev \<noteq> '''' then [field_line ''id'' (ev_ID ev)] else []) @
     (if ev_Retry ev \<noteq> 0 then [field_line ''retry'' (dec_string (nat (ev_Retry ev)))] else []) @
     map (field_line ''data'') (split_on CHR 0x0A (ev_Data ev))"

definition line_text :: "string \<Rightarrow> string" where
  "line_text l = l @ [CHR 0x0A]"

definition event_text :: "sse_event \<Rightarrow> string" where
  "event_text ev = concat (map line_text (event_lines ev @ ['''']))"

definition plain_line :: "string \<Rightarrow> bool" where
  "plain_line l \<longleftrightarrow> CHR 0x0A \<notin> set l \<and> CHR 0x0D \<notin> set l"

definition sendable_event :: "sse_event \<Rightarrow> bool" where
  "sendable_event ev \<longleftrightarrow>
     plain_line (ev_Event ev) \<and> plain_line (ev_ID ev) \<and> CHR 0x0D \<notin> set (ev_Data ev) \<and>
     0 \<le> ev_Retry ev \<and> ev_Retry ev < 2 ^ 63 \<and> list_all fits (event_lines ev)"

lemma raw_lines_text:
  assumes "\<forall>l\<in>set ls. CHR 0x0A \<notin> set l"
  shows "raw_lines (concat (map line_text ls)) = ls"
proof -
  have "split_on CHR 0x0A (concat (map line_text ls)) = ls @ ['''']"
    using assms by (induction ls) (simp_all add: line_text_def split_on_append)
  then show ?thesis
    by (simp add: raw_lines_def Let_def)
qed

lemma drop_cr_plain: "plain_line l \<Longrightarrow> drop_cr l = l"
  by (auto simp: drop_cr_def plain_line_def dest: last_in_set)

lemma scan_text:
  assumes "\<forall>l\<in>set ls. plain_line l" "list_all fits ls"
  shows "scan_lines (concat (map line_text ls), err) = (ls, err)"
proof -
  have "map drop_cr ls = ls"
    using assms(1) by (simp add: drop_cr_plain map_idI)
  moreover have "raw_lines (concat (map line_text ls)) = ls"
    using assms(1) by (intro raw_lines_text) (simp add: plain_line_def)
  ultimately show ?thesis
    using assms(2) by (simp add: scan_lines_def)
qed

lemma sse_field_line:
  assumes "CHR '':'' \<notin> set name"
  shows "sse_field (field_line name v) = (name, v)"
proof -
  have "index_of (name @ CHR '':'' # CHR '' '' # v) '':'' = Some (length name)"
    by (rule index_of_char_append [OF assms])
  then show ?thesis
    by (simp add: sse_field_def field_line_def Let_def)
qed

lemma sse_read_fields:
  "sse_line (field_line ''event'' v) (ev, ds) = (ev\<lparr>ev_Event := v\<rparr>, ds)"
  "sse_line (field_line ''id'' v) (ev, ds) = (ev\<lparr>ev_ID := v\<rparr>, ds)"
  "sse_line (field_line ''retry'' v) (ev, ds) = (ev\<lparr>ev_Retry := int_digits v\<rparr>, ds)"
  "sse_line (field_line ''data'' v) (ev, ds) = (ev, ds @ [v])"
  using sse_field_line [of "''event''" v] sse_field_line [of "''id''" v] sse_field_line [of "''retry''" v] sse_field_line [of "''data''" v]
  by (simp_all add: sse_line_def) (simp_all add: field_line_def has_prefix_Cons)

lemma next_event_lines:
  "'''' \<notin> set ls \<Longrightarrow> next_event st (ls @ rest) err = next_event (fold sse_line ls st) rest err"
  by (induction ls arbitrary: st) auto

lemma fold_data: "fold sse_line (map (field_line ''data'') ds) (ev, ds0) = (ev, ds0 @ ds)"
  by (induction ds arbitrary: ds0) (simp_all add: sse_read_fields)

lemma event_lines_plain:
  assumes "sendable_event ev"
  shows "\<forall>l\<in>set (event_lines ev). plain_line l" "'''' \<notin> set (event_lines ev)"
proof -
  have digits: "plain_line (dec_string n)" for n
    using dec_string_digits [of n] by (auto simp: plain_line_def list_all_iff is_digit_def dest!: bspec)
  have data: "plain_line l" if "l \<in> set (split_on CHR 0x0A (ev_Data ev))" for l
    using that assms set_split_on [of l "CHR 0x0A" "ev_Data ev"] by (auto simp: plain_line_def sendable_event_def)
  have "plain_line name \<Longrightarrow> plain_line v \<Longrightarrow> plain_line (field_line name v)" for name v
    by (auto simp: plain_line_def field_line_def)
  then show "\<forall>l\<in>set (event_lines ev). plain_line l"
    using assms digits data by (auto simp: event_lines_def sendable_event_def plain_line_def)
  show "'''' \<notin> set (event_lines ev)"
    by (auto simp: event_lines_def field_line_def)
qed

lemma next_sent_event:
  assumes "sendable_event ev"
  shows "next_event (blank_event, []) (event_lines ev @ '''' # rest) err = (Inr ev, rest)"
proof -
  have retry: "int_digits (dec_string (nat (ev_Retry ev))) = ev_Retry ev"
    using assms int_digits_dec [of "nat (ev_Retry ev)"] by (simp add: sendable_event_def nat_less_iff)
  have "split_on CHR 0x0A (ev_Data ev) \<noteq> []"
    by (simp add: split_on_not_Nil)
  moreover have "fold sse_line (event_lines ev) (blank_event, []) =
      (blank_event\<lparr>ev_Event := ev_Event ev, ev_ID := ev_ID ev, ev_Retry := ev_Retry ev\<rparr>, split_on CHR 0x0A (ev_Data ev))"
    by (simp add: event_lines_def sse_read_fields fold_data retry) (simp add: blank_event_def)
  ultimately show ?thesis
    using join_split [of "CHR 0x0A" "ev_Data ev"] event_lines_plain(2) [OF assms]
    by (cases ev) (simp add: next_event_lines with_data_def blank_event_def)
qed

text \<open>C35. Whatever events a server sends, the reader of the stream gives exactly these, in their order, with the lines
  of their data; also when the body ends in an error behind them.\<close>

theorem sse_roundtrip:
  assumes "\<forall>ev\<in>set evs. sendable_event ev"
  shows "SSE_Events (scan_lines (concat (map event_text evs), err)) = evs"
proof -
  let ?ls = "concat (map (\<lambda>ev. event_lines ev @ ['''']) evs)"
  have as_lines: "concat (map event_text evs) = concat (map line_text ?ls)"
    by (induction evs) (simp_all add: event_text_def)
  have "\<forall>l\<in>set ?ls. plain_line l"
    using assms event_lines_plain(1) by (auto simp: plain_line_def)
  moreover have "list_all fits ?ls"
    using assms by (induction evs) (auto simp: sendable_event_def fits_def max_line_def)
  ultimately have "scan_lines (concat (map event_text evs), err) = (?ls, err)"
    unfolding as_lines by (rule scan_text)
  moreover have "SSE_Events (?ls, err) = evs"
    using assms by (induction evs) (simp_all add: SSE_Next_def next_sent_event split: option.split)
  ultimately show ?thesis
    by simp
qed

lemma sse_roundtrip_witness:
  "SSE_Events (scan_lines (concat (map event_text
     [\<lparr>ev_Event = ''news'', ev_Data = ''one'' @ [CHR 0x0A] @ ''two'', ev_ID = ''7'', ev_Retry = 30\<rparr>, blank_event]), Some ''reset'')) =
   [\<lparr>ev_Event = ''news'', ev_Data = ''one'' @ [CHR 0x0A] @ ''two'', ev_ID = ''7'', ev_Retry = 30\<rparr>, blank_event]"
proof (rule sse_roundtrip)
  have "dec_string 30 = ''30''" "split_on CHR 0x0A (''one'' @ [CHR 0x0A] @ ''two'') = [''one'', ''two'']"
    by code_simp+
  then show "\<forall>ev\<in>set [\<lparr>ev_Event = ''news'', ev_Data = ''one'' @ [CHR 0x0A] @ ''two'', ev_ID = ''7'', ev_Retry = 30\<rparr>, blank_event]. sendable_event ev"
    by (simp add: sendable_event_def plain_line_def event_lines_def field_line_def fits_def max_line_def blank_event_def)
qed

text \<open>The name of an event without data stays for the next one, and an event that is cut off is handed out.\<close>

lemma event_name_stays:
  "SSE_Events ([''event: a'', [], ''data: x'', []], None) = [blank_event\<lparr>ev_Event := ''a'', ev_Data := ''x''\<rparr>]"
  by code_simp

lemma cut_event_delivered: "SSE_Events ([''data: x''], None) = [blank_event\<lparr>ev_Data := ''x''\<rparr>]"
  by code_simp

text \<open>A stream whose HTTP/2 fails does not try HTTP/1, unless HTTP/2 to that host was noted as failing before.\<close>

lemma stream_does_not_fall_back:
  assumes "map_of (cl_h2Failures cl) key = None" "ce_trip env (TripH2 (cl_h2 cl)) tr w = (Inl e, w1)"
  shows "stream_auto env key False body tr cl w = (Inl (TripFailed e), cl, w1)"
  using assms by (simp add: stream_auto_def client_doHTTP2_def shouldUseH1_def)

text \<open>Forced HTTP/3 is refused to streams behind a proxy that it works through for other requests.\<close>

lemma stream_refuses_socks:
  assumes "effective_protocol req cl = client_protocol.ProtocolHTTP3" "cg_Proxy (cl_config cl) = ''socks5://px:1''"
  shows "stream_exchange env req key useH3 body tr cl w = (Inl H3NeedsProxy, cl, w)"
    "cl_socks cl = Some s \<Longrightarrow> cl_masque cl = None \<Longrightarrow> ce_trip env (TripSocks s) tr w = (Inr resp, w1) \<Longrightarrow>
     client_exchange env req key useH3 body tr cl w = (Inr (resp, ''h3''), cl, w1)"
proof -
  have "SupportsQUIC ''socks5://px:1''"
    by code_simp
  then show "stream_exchange env req key useH3 body tr cl w = (Inl H3NeedsProxy, cl, w)"
    "cl_socks cl = Some s \<Longrightarrow> cl_masque cl = None \<Longrightarrow> ce_trip env (TripSocks s) tr w = (Inr resp, w1) \<Longrightarrow>
     client_exchange env req key useH3 body tr cl w = (Inr (resp, ''h3''), cl, w1)"
    using assms by (simp_all add: stream_exchange_def client_exchange_def has_h3_def client_doHTTP3_def h3_route_def)
qed

end
