(* ===== verification/ClientSafety.thy ===== *)
theory ClientSafety
  imports ClientStream
begin

text \<open>
  What the client promises: the ways its requests leave, the protocol that was forced, what a redirect
  carries, that \<open>Do\<close> returns, and that some way that works is found. A world is what the environment
  has seen: a predicate on worlds that some trips keep holds after \<open>Do\<close> if \<open>Do\<close> makes no other trips.
\<close>

section \<open>What a request leaves as it is\<close>

text \<open>The setup of a client: everything but the jar, the counters of the authentications and the two memories.\<close>

definition fixed_part :: "client \<Rightarrow> client" where
  "fixed_part cl = cl\<lparr>cl_auths := (\<lambda>i. BasicAuth '''' ''''), cl_cookies := None, cl_h3Failures := [], cl_h2Failures := []\<rparr>"

lemma fixedD:
  assumes "fixed_part a = fixed_part b"
  shows "cl_config a = cl_config b" "cl_h1 a = cl_h1 b" "cl_h2 a = cl_h2 b" "cl_quic a = cl_quic b" "cl_masque a = cl_masque b"
    "cl_socks a = cl_socks b" "cl_auth a = cl_auth b" "cl_pre a = cl_pre b" "cl_preset a = cl_preset b"
    "cl_pins a = cl_pins b" "cl_headerOrder a = cl_headerOrder b"
  using assms by (cases a; cases b; simp add: fixed_part_def)+

lemma fixed_updates [simp]:
  "fixed_part (cl\<lparr>cl_auths := f\<rparr>) = fixed_part cl" "fixed_part (cl\<lparr>cl_cookies := j\<rparr>) = fixed_part cl"
  "fixed_part (cl\<lparr>cl_h3Failures := m\<rparr>) = fixed_part cl" "fixed_part (cl\<lparr>cl_h2Failures := m\<rparr>) = fixed_part cl"
  by (simp_all add: fixed_part_def)

lemma fixed_marks [simp]:
  "fixed_part (markH3Failed now key cl) = fixed_part cl" "fixed_part (markH2Failed now key cl) = fixed_part cl"
  "fixed_part (store_cookies env u resp w cl) = fixed_part cl"
  by (simp_all add: markH3Failed_def markH2Failed_def store_cookies_def Let_def split: option.split)

lemma fixed_apply_auth: "fixed_part (fst (snd (apply_auth env a tr cl w))) = fixed_part cl"
  by (simp add: apply_auth_def Let_def split: option.split prod.split)

lemma fixed_prepare_hop: "prepare_hop env req cl w = (r, req1, cl1, w1) \<Longrightarrow> fixed_part cl1 = fixed_part cl"
  using fixed_apply_auth [of env "auth_of req cl" _ cl w]
  by (auto simp: prepare_hop_def build_trip_def Let_def split: option.splits sum.splits if_splits prod.splits)
    (metis fst_conv snd_conv)+

text \<open>The senders, \<open>or_else\<close> and \<open>exchange\<close>: they keep the setup, and use only certain routes.\<close>

definition keeps :: "'w client_env \<Rightarrow> (trip_route \<Rightarrow> bool) \<Rightarrow> ('w \<Rightarrow> bool) \<Rightarrow> bool" where
  "keeps env R P \<longleftrightarrow>
     (\<forall>w. P w \<longrightarrow> P (snd (ce_cnonce env w)) \<and> P (snd (ce_rand env w)) \<and> (\<forall>d. P (snd (ce_wait env d w))) \<and>
       (\<forall>route tr. R route \<longrightarrow> P (snd (ce_trip env route tr w))))"

definition same_but_marks :: "client \<Rightarrow> client \<Rightarrow> bool" where
  "same_but_marks a b \<longleftrightarrow> fixed_part a = fixed_part b \<and> cl_auths a = cl_auths b \<and> cl_cookies a = cl_cookies b"

definition sent_ok :: "('w \<Rightarrow> bool) \<Rightarrow> client \<Rightarrow> 'w sent \<Rightarrow> bool" where
  "sent_ok P cl r \<longleftrightarrow> same_but_marks (fst (snd r)) cl \<and> P (snd (snd r))"

lemma same_but_marks_refl [simp]: "same_but_marks cl cl"
  by (simp add: same_but_marks_def)

lemma sent_ok_senders:
  assumes "keeps env R P" "P w"
  shows "R (TripH1 (cl_h1 cl)) \<Longrightarrow> same_but_marks cl cl0 \<Longrightarrow> sent_ok P cl0 (client_doHTTP1 env tr cl w)"
    and "R (TripH2 (cl_h2 cl)) \<Longrightarrow> same_but_marks cl cl0 \<Longrightarrow> sent_ok P cl0 (client_doHTTP2 env tr cl w)"
    and "pred_option R (h3_route cl) \<Longrightarrow> same_but_marks cl cl0 \<Longrightarrow> sent_ok P cl0 (client_doHTTP3 env tr cl w)"
  using assms
  by (auto simp: keeps_def sent_ok_def client_doHTTP1_def client_doHTTP2_def client_doHTTP3_def
      split: option.split prod.split sum.split) (metis snd_conv)+

lemma sent_ok_or_else:
  assumes "sent_ok P cl r" "\<And>cl1 w1. same_but_marks cl1 cl \<Longrightarrow> P w1 \<Longrightarrow> sent_ok P cl (f cl1 w1)"
  shows "sent_ok P cl (or_else r f)"
  using assms by (auto simp: sent_ok_def or_else_def split: prod.splits sum.splits)

section \<open>The ways a request leaves\<close>

fun may_leave :: "client_protocol \<Rightarrow> client \<Rightarrow> trip_route \<Rightarrow> bool" where
  "may_leave client_protocol.ProtocolHTTP1 cl route \<longleftrightarrow> route = TripH1 (cl_h1 cl)"
| "may_leave client_protocol.ProtocolHTTP2 cl route \<longleftrightarrow> route = TripH2 (cl_h2 cl)"
| "may_leave client_protocol.ProtocolHTTP3 cl route \<longleftrightarrow> h3_route cl = Some route"
| "may_leave client_protocol.ProtocolAuto cl route \<longleftrightarrow> route = TripH1 (cl_h1 cl) \<or> route = TripH2 (cl_h2 cl) \<or> h3_route cl = Some route"

lemma fixed_routes:
  assumes "fixed_part a = fixed_part b"
  shows "h3_route a = h3_route b" "may_leave p a = may_leave p b" "effective_protocol req a = effective_protocol req b"
    "has_h3 a = has_h3 b"
proof -
  note eqs = fixedD [OF assms]
  show h3: "h3_route a = h3_route b"
    by (simp add: h3_route_def eqs split: option.split)
  show "may_leave p a = may_leave p b"
    by (cases p) (simp_all add: fun_eq_iff h3 eqs)
  show "effective_protocol req a = effective_protocol req b" "has_h3 a = has_h3 b"
    by (simp_all add: effective_protocol_def has_h3_def eqs)
qed

lemma auto_senders:
  assumes k: "keeps env (may_leave client_protocol.ProtocolAuto cl) P" and f: "same_but_marks cl1 cl" and p: "P w1"
  shows "sent_ok P cl (client_doHTTP1 env tr cl1 w1)" "sent_ok P cl (client_doHTTP2 env tr cl1 w1)" "sent_ok P cl (client_doHTTP3 env tr cl1 w1)"
proof -
  have "fixed_part cl1 = fixed_part cl"
    using f by (simp add: same_but_marks_def)
  note same = fixedD(2,3) [OF this] fixed_routes(1) [OF this]
  show "sent_ok P cl (client_doHTTP1 env tr cl1 w1)" "sent_ok P cl (client_doHTTP2 env tr cl1 w1)" "sent_ok P cl (client_doHTTP3 env tr cl1 w1)"
    using sent_ok_senders [OF k p, of cl1 cl tr] f by (simp_all add: same pred_option_def)
qed

lemma marks_same:
  "same_but_marks (markH3Failed now key cl1) cl \<longleftrightarrow> same_but_marks cl1 cl"
  "same_but_marks (markH2Failed now key cl1) cl \<longleftrightarrow> same_but_marks cl1 cl"
  "same_but_marks (snd (shouldUseH1 now key cl1)) cl \<longleftrightarrow> same_but_marks cl1 cl"
  by (auto simp: same_but_marks_def markH3Failed_def markH2Failed_def shouldUseH1_def split: option.split)

lemma auto_exchange_ok:
  assumes "keeps env (may_leave client_protocol.ProtocolAuto cl) P" "P w"
  shows "sent_ok P cl (auto_exchange env key useH3 body tr cl w)"
proof -
  let ?ok = "\<lambda>f. \<forall>cl1 w1. same_but_marks cl1 cl \<longrightarrow> P w1 \<longrightarrow> sent_ok P cl (f cl1 w1)"
  have h1: "?ok (client_doHTTP1 env tr1)" and h2: "?ok (client_doHTTP2 env tr1)" and h3: "?ok (client_doHTTP3 env tr1)" for tr1
    using auto_senders [OF assms(1)] by blast+
  have mark: "?ok f \<Longrightarrow> ?ok (\<lambda>cl1 w1. f (markH3Failed (ce_now env w1) key cl1) w1)"
    "?ok f \<Longrightarrow> ?ok (\<lambda>cl1 w1. f (markH2Failed (ce_now env w1) key cl1) w1)" for f
    by (simp_all add: marks_same)
  have alt: "?ok f \<Longrightarrow> ?ok g \<Longrightarrow> ?ok (\<lambda>cl1 w1. or_else (f cl1 w1) g)" for f g
    by (simp add: sent_ok_or_else)
  obtain useH1 cl1 where s: "shouldUseH1 (ce_now env w) key cl = (useH1, cl1)"
    by fastforce
  then have cl1: "same_but_marks cl1 cl"
    using marks_same(3) [of "ce_now env w" key cl cl] by simp
  let ?again = "resetRequestBody body (spent tr)"
  have "?ok (\<lambda>cl1 w1. or_else (client_doHTTP3 env tr cl1 w1)
      (\<lambda>cl w. or_else (client_doHTTP2 env ?again (markH3Failed (ce_now env w) key cl) w) (client_doHTTP1 env ?again)))"
    by (intro alt h1 h3 mark(1) [OF h2])
  moreover have "?ok (\<lambda>cl1 w1. or_else (client_doHTTP2 env tr cl1 w1)
      (\<lambda>cl w. or_else (client_doHTTP3 env ?again cl w) (\<lambda>cl w. client_doHTTP1 env ?again (markH3Failed (ce_now env w) key cl) w)))"
    by (intro alt h2 h3 mark(1) [OF h1])
  moreover have "?ok (\<lambda>cl1 w1. or_else (client_doHTTP2 env tr cl1 w1)
      (\<lambda>cl w. client_doHTTP1 env ?again (markH2Failed (ce_now env w) key cl) w))"
    by (intro alt h2 mark(2) [OF h1])
  ultimately show ?thesis
    using h1 cl1 assms(2) by (cases useH3) (simp_all add: auto_exchange_def s Let_def)
qed

lemma exchange_ok:
  assumes "keeps env (may_leave (effective_protocol req cl) cl) P" "P w"
  shows "sent_ok P cl (client_exchange env req key useH3 body tr cl w)"
proof (cases "effective_protocol req cl")
  case ProtocolAuto
  then show ?thesis
    using auto_exchange_ok assms by (simp add: client_exchange_def)
next
  case ProtocolHTTP1
  then show ?thesis
    using sent_ok_senders(1) [OF assms] by (simp add: client_exchange_def)
next
  case ProtocolHTTP2
  then show ?thesis
    using sent_ok_senders(2) [OF assms] by (simp add: client_exchange_def)
next
  case ProtocolHTTP3
  then have "sent_ok P cl (client_doHTTP3 env tr cl w)"
    using sent_ok_senders(3) [OF assms] by (simp add: pred_option_def)
  then show ?thesis
    using ProtocolHTTP3 assms(2) by (auto simp: client_exchange_def sent_ok_def same_but_marks_def split: prod.splits sum.splits client_error.splits)
qed

section \<open>Repeating hops\<close>

lemma fixed_of_apply_auth: "apply_auth env a tr cl w = (tr1, cl1, w1) \<Longrightarrow> fixed_part cl1 = fixed_part cl"
  using fixed_apply_auth [of env a tr cl w] by simp

lemma keeps_apply_auth:
  assumes "apply_auth env a tr cl w = (tr1, cl1, w1)" "keeps env R P" "P w"
  shows "P w1"
  using assms by (auto simp: keeps_def apply_auth_def Let_def split: option.splits prod.splits if_splits)

lemma keeps_prepare_hop:
  assumes "prepare_hop env req cl w = (r, req1, cl1, w1)" "keeps env R P" "P w"
  shows "P w1"
  using assms(1,3)
  by (auto simp: prepare_hop_def build_trip_def Let_def dest: keeps_apply_auth [OF _ assms(2,3)]
      split: option.splits sum.splits if_splits prod.splits)

lemma prepare_hop_request:
  assumes "prepare_hop env req cl w = (r, req1, cl1, w1)"
  obtains h b where "req1 = req\<lparr>cq_HasMap := b, cq_Headers := h\<rparr>"
proof -
  have "req1 = req \<or> (\<exists>h. req1 = note_sent h req)"
    using assms by (auto simp: prepare_hop_def Let_def split: option.splits sum.splits if_splits prod.splits)
  then show ?thesis
    using that [of "cq_Headers req" "cq_HasMap req"] that by (auto simp: note_sent_def)
qed

lemma challenge_hop_frame:
  assumes hop: "challenge_hop env i rd resp cl w = (r, cl1, w1)"
  shows "fixed_part cl1 = fixed_part cl" and "keeps env R P \<Longrightarrow> P w \<Longrightarrow> P w1"
proof -
  obtain x a where h: "HandleChallenge (ce_canon env) (tp_StatusCode resp) (tp_Header resp) (cl_auths cl i) = (x, a)"
    by fastforce
  let ?cl = "cl\<lparr>cl_auths := (cl_auths cl)(i := a)\<rparr>"
  obtain tr cl2 w2 where p: "apply_auth env (Some i) (rd_trip rd) ?cl w = (tr, cl2, w2)"
    by (metis prod_cases3)
  have res: "(cl1, w1) = (if x = Inr True then (cl2, w2) else (?cl, w))"
    using hop by (auto simp: challenge_hop_def h p Let_def split: sum.splits bool.splits)
  show "fixed_part cl1 = fixed_part cl"
    using res fixed_of_apply_auth [OF p] by (simp split: if_splits)
  show "P w1" if "keeps env R P" "P w"
    using res that(2) keeps_apply_auth [OF p that] by (simp split: if_splits)
qed

lemma hop_answer_cases:
  assumes "hop_answer env req hist rd resp p cl w = (r, cl1, w1)"
  obtains (redirect) "r = redirect_hop env req hist rd resp cl1" "cl1 = store_cookies env (rd_parsed rd) resp w cl" "w1 = w"
    | (challenge) i x where "auth_of req cl1 = Some i" "challenge_hop env i rd resp (store_cookies env (rd_parsed rd) resp w cl) w = (x, cl1, w1)"
        "x = Inr True \<Longrightarrow> r = Again" "x \<noteq> Inr True \<Longrightarrow> \<exists>a. r = Finished a"
    | (final) a where "r = Finished a" "cl1 = store_cookies env (rd_parsed rd) resp w cl" "w1 = w"
proof -
  let ?cl = "store_cookies env (rd_parsed rd) resp w cl"
  show ?thesis
  proof (cases "isRedirect (tp_StatusCode resp) \<and> follows_redirects req ?cl")
    case True
    then have "r = redirect_hop env req hist rd resp ?cl \<and> cl1 = ?cl \<and> w1 = w"
      using assms by (auto simp: hop_answer_def Let_def)
    then show ?thesis
      using redirect by blast
  next
    case nored: False
    show ?thesis
    proof (cases "auth_of req ?cl")
      case None
      then have "(\<exists>a. r = Finished a) \<and> cl1 = ?cl \<and> w1 = w"
        using assms nored by (auto simp: hop_answer_def Let_def)
      then show ?thesis
        using final by blast
    next
      case (Some i)
      show ?thesis
      proof (cases "tp_StatusCode resp = 401")
        case False
        then have "(\<exists>a. r = Finished a) \<and> cl1 = ?cl \<and> w1 = w"
          using assms nored Some by (auto simp: hop_answer_def Let_def)
        then show ?thesis
          using final by blast
      next
        case True
        obtain x cl2 w2 where c: "challenge_hop env i rd resp ?cl w = (x, cl2, w2)"
          by (metis prod_cases3)
        have res: "cl1 = cl2 \<and> w1 = w2 \<and> (if x = Inr True then r = Again else (\<exists>a. r = Finished a))"
          using assms nored Some True c by (auto simp: hop_answer_def Let_def split: sum.splits bool.splits)
        have "auth_of req cl2 = Some i"
          using Some fixedD(7) [OF challenge_hop_frame(1) [OF c]] by (simp add: auth_of_def split: option.splits)
        with res c show ?thesis
          using challenge [of i x] by (metis (full_types))
      qed
    qed
  qed
qed

lemma hop_answer_frame:
  assumes "hop_answer env req hist rd resp p cl w = (r, cl1, w1)"
  shows "fixed_part cl1 = fixed_part cl" and "keeps env R P \<Longrightarrow> P w \<Longrightarrow> P w1"
proof -
  show "fixed_part cl1 = fixed_part cl"
    using assms by (cases rule: hop_answer_cases) (auto dest: challenge_hop_frame(1))
  show "P w1" if "keeps env R P" "P w"
    using assms by (cases rule: hop_answer_cases) (auto simp: that(2) dest: challenge_hop_frame(2) [OF _ that])
qed

text \<open>A follow-up request keeps what was forced and what limits redirects.\<close>

definition same_policy :: "client_request \<Rightarrow> client_request \<Rightarrow> bool" where
  "same_policy a b \<longleftrightarrow>
     cq_ForceProtocol a = cq_ForceProtocol b \<and> cq_FollowRedirects a = cq_FollowRedirects b \<and> cq_MaxRedirects a = cq_MaxRedirects b"

lemma redirect_hop_follow:
  assumes "redirect_hop env req hist rd resp cl = Follow req2 hist2"
  shows "same_policy req req2" "length hist2 = Suc (length hist)" "int (length hist) < redirect_limit req cl"
    "req2 = hop_request req (rd_URL rd) (JoinURL (rd_URL rd) (hget (ce_canon env) (tp_Header resp) ''Location'')) (tp_StatusCode resp)
       (request_method req) (rd_body rd)"
  using assms by (auto simp: redirect_hop_def hop_request_def same_policy_def Let_def split: if_splits)

lemma hop_answer_follow:
  assumes "hop_answer env req hist rd resp p cl w = (Follow req2 hist2, cl1, w1)"
  shows "redirect_hop env req hist rd resp cl1 = Follow req2 hist2"
  using assms
proof (cases rule: hop_answer_cases)
  case (challenge i x)
  then show ?thesis
    by (cases "x = Inr True") auto
qed auto

text \<open>What one hop does to the client, to the world and to the request.\<close>

lemma do_hop_cases:
  assumes "do_hop env req hist cl w = (r, req1, cl1, w1)"
  obtains (unsent) e where "r = Finished (Inl e)" "prepare_hop env req cl w = (Inl e, req1, cl1, w1)"
    | (failed) rd cl2 w2 e where "r = Finished (Inl e)" "prepare_hop env req cl w = (Inr rd, req1, cl2, w2)"
        "client_exchange env req1 (host_key (rd_parsed rd)) (rd_useH3 rd) (rd_body rd) (rd_trip rd) cl2 w2 = (Inl e, cl1, w1)"
    | (unpinned) rd cl2 w2 a e where "r = Finished (Inl (PinFailed e))" "prepare_hop env req cl w = (Inr rd, req1, cl2, w2)"
        "client_exchange env req1 (host_key (rd_parsed rd)) (rd_useH3 rd) (rd_body rd) (rd_trip rd) cl2 w2 = (Inr a, cl1, w1)"
    | (answered) rd cl2 w2 resp p cl3 w3 where "prepare_hop env req cl w = (Inr rd, req1, cl2, w2)"
        "client_exchange env req1 (host_key (rd_parsed rd)) (rd_useH3 rd) (rd_body rd) (rd_trip rd) cl2 w2 = (Inr (resp, p), cl3, w3)"
        "check_pins env cl3 (Hostname (rd_parsed rd)) resp = None"
        "hop_answer env req1 hist rd resp p cl3 w3 = (r, cl1, w1)"
  using assms unfolding do_hop_def
  by (auto split: prod.splits sum.splits option.splits)

lemma prepare_hop_policy:
  assumes "prepare_hop env req cl w = (r, req1, cl1, w1)"
  shows "same_policy req req1" "effective_protocol req1 cl1 = effective_protocol req cl" "fixed_part cl1 = fixed_part cl"
proof -
  show f: "fixed_part cl1 = fixed_part cl"
    using fixed_prepare_hop [OF assms] .
  obtain h b where "req1 = req\<lparr>cq_HasMap := b, cq_Headers := h\<rparr>"
    using prepare_hop_request [OF assms] by blast
  then show "same_policy req req1" "effective_protocol req1 cl1 = effective_protocol req cl"
    using fixedD(1) [OF f] by (simp_all add: same_policy_def effective_protocol_def)
qed

lemma do_hop_frame:
  assumes hop: "do_hop env req hist cl w = (r, req1, cl1, w1)"
  shows "same_policy req req1" "fixed_part cl1 = fixed_part cl"
    and "keeps env (may_leave (effective_protocol req cl) cl) P \<Longrightarrow> P w \<Longrightarrow> P w1"
proof -
  let ?send = "\<lambda>rd cl2 w2. client_exchange env req1 (host_key (rd_parsed rd)) (rd_useH3 rd) (rd_body rd) (rd_trip rd) cl2 w2"
  have sent: "sent_ok P cl2 (?send rd cl2 w2)"
    if p: "prepare_hop env req cl w = (x, req1, cl2, w2)" and k: "keeps env (may_leave (effective_protocol req cl) cl) P" "P w" for x rd cl2 w2 P
  proof (rule exchange_ok)
    show "keeps env (may_leave (effective_protocol req1 cl2) cl2) P"
      using k(1) prepare_hop_policy(2) [OF p] fixed_routes(2) [OF prepare_hop_policy(3) [OF p]] by simp
    show "P w2"
      by (rule keeps_prepare_hop [OF p k])
  qed
  have trivial: "keeps env R (\<lambda>w. True)" for R
    by (simp add: keeps_def)
  show "same_policy req req1"
    using hop by (cases rule: do_hop_cases) (auto dest: prepare_hop_policy)
  show "fixed_part cl1 = fixed_part cl"
    using hop
  proof (cases rule: do_hop_cases)
    case (unsent e)
    then show ?thesis
      by (auto dest: prepare_hop_policy)
  next
    case (failed rd cl2 w2 e)
    then show ?thesis
      using sent [OF failed(2) trivial TrueI, of rd] prepare_hop_policy(3) [OF failed(2)] by (simp add: sent_ok_def same_but_marks_def)
  next
    case (unpinned rd cl2 w2 a e)
    then show ?thesis
      using sent [OF unpinned(2) trivial TrueI, of rd] prepare_hop_policy(3) [OF unpinned(2)] by (simp add: sent_ok_def same_but_marks_def)
  next
    case (answered rd cl2 w2 resp p cl3 w3)
    then show ?thesis
      using sent [OF answered(1) trivial TrueI, of rd] prepare_hop_policy(3) [OF answered(1)] hop_answer_frame(1) [OF answered(4)]
      by (simp add: sent_ok_def same_but_marks_def)
  qed
  show "P w1" if k: "keeps env (may_leave (effective_protocol req cl) cl) P" "P w"
    using hop
  proof (cases rule: do_hop_cases)
    case (unsent e)
    then show ?thesis
      using keeps_prepare_hop [OF unsent(2) k] by simp
  next
    case (failed rd cl2 w2 e)
    then show ?thesis
      using sent [OF failed(2) k, of rd] by (simp add: sent_ok_def same_but_marks_def)
  next
    case (unpinned rd cl2 w2 a e)
    then show ?thesis
      using sent [OF unpinned(2) k, of rd] by (simp add: sent_ok_def same_but_marks_def)
  next
    case (answered rd cl2 w2 resp p cl3 w3)
    then show ?thesis
      using sent [OF answered(1) k, of rd] hop_answer_frame(2) [OF answered(4) k(1)] by (simp add: sent_ok_def same_but_marks_def)
  qed
qed

lemma do_hop_follow:
  assumes "do_hop env req hist cl w = (Follow req2 hist2, req1, cl1, w1)"
  shows "same_policy req req2 \<and> length hist2 = Suc (length hist) \<and> int (length hist) < redirect_limit req cl"
  using assms
proof (cases rule: do_hop_cases)
  case (answered rd cl2 w2 resp p cl3 w3)
  note f = redirect_hop_follow [OF hop_answer_follow [OF answered(4)]]
  note pol = do_hop_frame(1,2) [OF assms]
  show ?thesis
    using f(1,2,3) pol(1) fixedD(1) [OF pol(2)] by (simp add: same_policy_def redirect_limit_def split: if_splits)
qed simp_all

text \<open>A property of one hop carries over to the repetition.\<close>

lemma doOnce_induct:
  assumes "doOnce env orig req hist cl w = Some y"
    and finished: "\<And>orig req hist cl w r req1 cl1 w1. do_hop env req hist cl w = (Finished r, req1, cl1, w1) \<Longrightarrow>
      Q orig req hist cl w (r, top_headers hist orig req1, cl1, w1)"
    and follow: "\<And>orig req hist cl w req2 hist2 req1 cl1 w1 y. do_hop env req hist cl w = (Follow req2 hist2, req1, cl1, w1) \<Longrightarrow>
      Q (top_headers hist orig req1) req2 hist2 cl1 w1 y \<Longrightarrow> Q orig req hist cl w y"
    and again: "\<And>orig req hist cl w req1 cl1 w1 y. do_hop env req hist cl w = (Again, req1, cl1, w1) \<Longrightarrow>
      Q (top_headers hist orig req1) req1 hist cl1 w1 y \<Longrightarrow> Q orig req hist cl w y"
  shows "Q orig req hist cl w y"
proof -
  have "e = env \<longrightarrow> Q orig req hist cl w y" if "doOnce e orig req hist cl w = Some y" for e orig req hist cl w y
  proof (rule doOnce.raw_induct [where P = "\<lambda>e orig req hist cl w y. e = env \<longrightarrow> Q orig req hist cl w y", OF _ that])
    fix self e orig req hist cl w y
    assume IH: "\<And>e orig req hist cl w y. self e orig req hist cl w = Some y \<Longrightarrow> e = env \<longrightarrow> Q orig req hist cl w y"
      and body: "(case do_hop e req hist cl w of
        (Finished r, req1, cl1, w1) \<Rightarrow> Some (r, top_headers hist orig req1, cl1, w1)
      | (Follow req2 hist2, req1, cl1, w1) \<Rightarrow> self e (top_headers hist orig req1) req2 hist2 cl1 w1
      | (Again, req1, cl1, w1) \<Rightarrow> self e (top_headers hist orig req1) req1 hist cl1 w1) = Some y"
    show "e = env \<longrightarrow> Q orig req hist cl w y"
    proof
      assume e: "e = env"
      obtain x req1 cl1 w1 where hop: "do_hop env req hist cl w = (x, req1, cl1, w1)"
        by (metis prod_cases4)
      show "Q orig req hist cl w y"
      proof (cases x)
        case (Finished a)
        then show ?thesis
          using body e hop finished by auto
      next
        case (Follow req2 hist2)
        then show ?thesis
          using body e hop follow IH by auto
      next
        case Again
        then show ?thesis
          using body e hop again IH by auto
      qed
    qed
  qed
  then show ?thesis
    using assms(1) by blast
qed

lemma doOnce_frame:
  assumes "doOnce env orig req hist cl w = Some (r, h, cl1, w1)"
  shows "fixed_part cl1 = fixed_part cl"
    and "keeps env (may_leave (effective_protocol req cl) cl) P \<Longrightarrow> P w \<Longrightarrow> P w1"
proof -
  let ?Q = "\<lambda>orig req hist cl w y. fixed_part (fst (snd (snd y))) = fixed_part cl \<and>
    (keeps env (may_leave (effective_protocol req cl) cl) P \<longrightarrow> P w \<longrightarrow> P (snd (snd (snd y))))"
  have carry: "?Q orig req hist cl w y" if hop: "do_hop env req hist cl w = (x, req1, cl1, w1)" and rec: "?Q o2 req2 hist2 cl1 w1 y"
    and pol: "same_policy req req2" for orig req hist cl w x req1 cl1 w1 o2 req2 hist2 y
  proof -
    note f = do_hop_frame [OF hop]
    have "effective_protocol req2 cl1 = effective_protocol req cl"
      using pol fixedD(1) [OF f(2)] by (simp add: effective_protocol_def same_policy_def)
    then show ?thesis
      using rec f(2) f(3) [of P] fixed_routes(2) [OF f(2)] by simp
  qed
  have "?Q orig req hist cl w (r, h, cl1, w1)"
    using assms
  proof (rule doOnce_induct [where Q = ?Q])
    show "?Q orig req hist cl w (r, top_headers hist orig req1, cl1, w1)"
      if "do_hop env req hist cl w = (Finished r, req1, cl1, w1)" for orig req hist cl w r req1 cl1 w1
      using do_hop_frame(2) [OF that] do_hop_frame(3) [OF that, of P] by simp
    show "?Q orig req hist cl w y"
      if "do_hop env req hist cl w = (Follow req2 hist2, req1, cl1, w1)" "?Q (top_headers hist orig req1) req2 hist2 cl1 w1 y"
      for orig req hist cl w req2 hist2 req1 cl1 w1 y
      using carry [OF that] do_hop_follow [OF that(1)] by blast
    show "?Q orig req hist cl w y"
      if "do_hop env req hist cl w = (Again, req1, cl1, w1)" "?Q (top_headers hist orig req1) req1 hist cl1 w1 y"
      for orig req hist cl w req1 cl1 w1 y
      using carry [OF that] do_hop_frame(1) [OF that(1)] by blast
  qed
  then show "fixed_part cl1 = fixed_part cl" "keeps env (may_leave (effective_protocol req cl) cl) P \<Longrightarrow> P w \<Longrightarrow> P w1"
    by simp_all
qed

text \<open>The loop of the retries, and \<open>Do\<close>.\<close>

lemma keeps_before_attempt: "keeps env R P \<Longrightarrow> P w \<Longrightarrow> P (snd (before_attempt env c n w))"
  by (auto simp: keeps_def before_attempt_def split: prod.split) (metis snd_conv)

lemma attempt_request_policy:
  "cq_FollowRedirects (attempt_request cl req body ch h) = cq_FollowRedirects req"
  "cq_MaxRedirects (attempt_request cl req body ch h) = cq_MaxRedirects req"
  "cq_ForceProtocol req \<noteq> client_protocol.ProtocolAuto \<Longrightarrow> cq_ForceProtocol (attempt_request cl req body ch h) = cq_ForceProtocol req"
  "\<not> ch \<Longrightarrow> cq_ForceProtocol (attempt_request cl req body ch h) = cq_ForceProtocol req"
  by (simp_all add: attempt_request_def)

lemma keeps_mono: "keeps env R P \<Longrightarrow> (\<And>x. S x \<Longrightarrow> R x) \<Longrightarrow> keeps env S P"
  by (simp add: keeps_def)

lemma may_leave_auto: "may_leave p cl route \<Longrightarrow> may_leave client_protocol.ProtocolAuto cl route"
  by (cases p) auto

text \<open>The ways of a whole call: after a cookie challenge HTTP/3 is forced on requests that force nothing.\<close>

definition call_may_leave :: "client_request \<Rightarrow> client \<Rightarrow> trip_route \<Rightarrow> bool" where
  "call_may_leave req cl route \<longleftrightarrow>
     may_leave (effective_protocol req cl) cl route \<or>
     (cq_ForceProtocol req = client_protocol.ProtocolAuto \<and> h3_route cl = Some route)"

lemma attempt_may_leave:
  "may_leave (effective_protocol (attempt_request cl req body ch h) cl) cl route \<Longrightarrow> call_may_leave req cl route"
  by (auto simp: attempt_request_def effective_protocol_def call_may_leave_def split: if_splits)

lemma retry_loop_frame:
  assumes "retry_loop env req body n attempt rt h cl w = Some (r, h1, cl1, w1)"
  shows "fixed_part cl1 = fixed_part cl \<and> (keeps env (call_may_leave req cl) P \<longrightarrow> P w \<longrightarrow> P w1)"
  using assms
proof (induction n arbitrary: attempt rt h cl w)
  case 0
  then show ?case by simp
next
  case (Suc n)
  obtain e w2 where b: "before_attempt env (cl_config cl) attempt w = (e, w2)"
    by fastforce
  show ?case
  proof (cases e)
    case (Some x)
    have "keeps env (call_may_leave req cl) P \<Longrightarrow> P w \<Longrightarrow> P w2"
      using keeps_before_attempt [of env _ P w "cl_config cl" attempt] by (simp add: b)
    then show ?thesis
      using Suc.prems Some by (simp add: b)
  next
    case None
    let ?req = "attempt_request cl req body (rt_challenged rt) h"
    obtain x h2 cl2 w3 where d: "doOnce env (cq_Headers ?req) ?req [] cl w2 = Some (x, h2, cl2, w3)"
      using Suc.prems None by (auto simp: b Let_def split: option.splits)
    note f = doOnce_frame [OF d]
    have w3: "P w3" if k: "keeps env (call_may_leave req cl) P" "P w"
    proof (rule f(2))
      show "keeps env (may_leave (effective_protocol ?req cl) cl) P"
        by (rule keeps_mono [OF k(1)]) (rule attempt_may_leave)
      show "P w2"
        using keeps_before_attempt [OF k, of "cl_config cl" attempt] by (simp add: b)
    qed
    have same: "call_may_leave req cl2 = call_may_leave req cl"
      using fixed_routes [OF f(1)] by (simp add: call_may_leave_def fun_eq_iff)
    show ?thesis
    proof (cases "judge_attempt req (cl_config cl2) attempt rt x")
      case (Inl resp)
      then show ?thesis
        using Suc.prems None w3 f(1) by (simp add: b d Let_def)
    next
      case (Inr rt2)
      then have "retry_loop env req body n (Suc attempt) rt2 (if cq_HasMap req then h2 else h) cl2 w3 = Some (r, h1, cl1, w1)"
        using Suc.prems None by (simp add: b d Let_def)
      from Suc.IH [OF this] show ?thesis
        using w3 f(1) same by simp
    qed
  qed
qed

lemma client_Do_frame:
  assumes "client_Do env req cl w = Some (r, h, cl1, w1)"
  shows "fixed_part cl1 = fixed_part cl" and "keeps env (call_may_leave req cl) P \<Longrightarrow> P w \<Longrightarrow> P w1"
proof -
  have "fixed_part cl1 = fixed_part cl \<and> (keeps env (call_may_leave req cl) P \<longrightarrow> P w \<longrightarrow> P w1)"
  proof (cases "cg_RetryEnabled (cl_config cl) \<and> \<not> cq_DisableRetry req")
    case True
    then show ?thesis
      using assms retry_loop_frame [where P = P]
      by (auto simp: client_Do_def doWithRetry_def Let_def split: option.splits sum.splits)
  next
    case False
    then have d: "doOnce env (cq_Headers req) req [] cl w = Some (r, h, cl1, w1)"
      using assms by (auto simp: client_Do_def)
    show ?thesis
      using doOnce_frame(1) [OF d] doOnce_frame(2) [OF d, of P] keeps_mono [of env "call_may_leave req cl" P]
      by (auto simp: call_may_leave_def)
  qed
  then show "fixed_part cl1 = fixed_part cl" "keeps env (call_may_leave req cl) P \<Longrightarrow> P w \<Longrightarrow> P w1"
    by simp_all
qed

section \<open>Streams\<close>

lemma stream_auto_ok:
  assumes k: "keeps env (may_leave client_protocol.ProtocolAuto cl) P" "P w"
  shows "sent_ok P cl (stream_auto env key useH3 body tr cl w)"
proof -
  let ?again = "resetRequestBody body (spent tr)"
  let ?first = "if useH3 then or_else (client_doHTTP3 env tr cl w) (\<lambda>cl w. client_doHTTP2 env ?again (markH3Failed (ce_now env w) key cl) w)
    else client_doHTTP2 env tr cl w"
  have first: "sent_ok P cl ?first"
  proof (cases useH3)
    case True
    have "sent_ok P cl (or_else (client_doHTTP3 env tr cl w) (\<lambda>cl w. client_doHTTP2 env ?again (markH3Failed (ce_now env w) key cl) w))"
      by (rule sent_ok_or_else [OF auto_senders(3) [OF k(1) same_but_marks_refl k(2)]])
        (rule auto_senders(2) [OF k(1)], simp_all add: marks_same)
    then show ?thesis
      using True by simp
  next
    case False
    then show ?thesis
      using auto_senders(2) [OF k(1) same_but_marks_refl k(2)] by simp
  qed
  obtain r cl1 w1 where f: "?first = (r, cl1, w1)"
    by (rule prod_cases3)
  obtain b cl2 where u: "shouldUseH1 (ce_now env w1) key cl1 = (b, cl2)"
    by (rule prod.exhaust)
  have same: "same_but_marks cl2 cl" and w1: "P w1"
    using first marks_same(3) [of "ce_now env w1" key cl1 cl] unfolding f by (simp_all add: u sent_ok_def)
  have "sent_ok P cl (client_doHTTP1 env ?again (markH2Failed (ce_now env w1) key cl2) w1)"
    by (rule auto_senders(1) [OF k(1) _ w1]) (simp add: marks_same same)
  moreover have "sent_ok P cl (Inl e, cl2, w1)" for e
    using same w1 by (simp add: sent_ok_def)
  ultimately show ?thesis
    using first unfolding stream_auto_def Let_def f by (cases r; cases b) (simp_all add: u)
qed

lemma stream_exchange_ok:
  assumes "keeps env (may_leave (effective_protocol req cl) cl) P" "P w"
  shows "sent_ok P cl (stream_exchange env req key useH3 body tr cl w)"
proof (cases "effective_protocol req cl")
  case ProtocolAuto
  then show ?thesis
    using stream_auto_ok assms by (simp add: stream_exchange_def)
next
  case ProtocolHTTP1
  then show ?thesis
    using sent_ok_senders(1) [OF assms] by (simp add: stream_exchange_def)
next
  case ProtocolHTTP2
  then show ?thesis
    using sent_ok_senders(2) [OF assms] by (simp add: stream_exchange_def)
next
  case ProtocolHTTP3
  then have "sent_ok P cl (client_doHTTP3 env tr cl w)"
    using sent_ok_senders(3) [OF assms] by (simp add: pred_option_def)
  then show ?thesis
    using ProtocolHTTP3 assms(2) by (auto simp: stream_exchange_def sent_ok_def split: prod.splits sum.splits client_error.splits)
qed

lemma DoStream_frame:
  assumes "DoStream env od req cl w = (r, cl1, w1)"
  shows "fixed_part cl1 = fixed_part cl" and "keeps env (may_leave (effective_protocol req cl) cl) P \<Longrightarrow> P w \<Longrightarrow> P w1"
proof -
  have frame: "fixed_part cl1 = fixed_part cl \<and> P w1"
    if k: "keeps env (may_leave (effective_protocol req cl) cl) P" "P w" for P
  proof -
    have trip: "fixed_part cl2 = fixed_part cl \<and> P w2" if "stream_trip env req u b cl w = (tr, cl2, w2)" for u b tr cl2 w2
      using that keeps_apply_auth [OF _ k] by (auto simp: stream_trip_def Let_def dest: fixed_of_apply_auth split: prod.splits)
    have sent: "fixed_part cl3 = fixed_part cl \<and> P w3"
      if t: "stream_trip env req u b cl w = (tr, cl2, w2)" and x: "stream_exchange env req key useH3 b tr cl2 w2 = (y, cl3, w3)"
      for u b tr cl2 w2 key useH3 y cl3 w3
    proof -
      have f: "fixed_part cl2 = fixed_part cl" and "P w2"
        using trip [OF t] by simp_all
      moreover have "keeps env (may_leave (effective_protocol req cl2) cl2) P"
        using k(1) fixed_routes(2,3) [OF f] by simp
      ultimately show ?thesis
        using stream_exchange_ok [of env req cl2 P w2 key useH3 b tr] x by (simp add: sent_ok_def same_but_marks_def)
    qed
    show ?thesis
      using assms k(2) by (auto simp: DoStream_def Let_def dest!: sent split: option.splits sum.splits if_splits prod.splits)
  qed
  have "keeps env R (\<lambda>w. True)" for R
    by (simp add: keeps_def)
  then show "fixed_part cl1 = fixed_part cl"
    using frame [of "\<lambda>w. True"] by simp
  show "keeps env (may_leave (effective_protocol req cl) cl) P \<Longrightarrow> P w \<Longrightarrow> P w1"
    using frame by blast
qed

section \<open>Never past a proxy\<close>

text \<open>A way that opens a connection without a proxy, and clients that have none.\<close>

fun direct_route :: "trip_route \<Rightarrow> bool" where
  "direct_route (TripH1 s) \<longleftrightarrow> wi_proxy s = ''''"
| "direct_route (TripH2 s) \<longleftrightarrow> wi_proxy s = ''''"
| "direct_route (TripMasque s) \<longleftrightarrow> wi_proxy s = ''''"
| "direct_route (TripSocks s) \<longleftrightarrow> wi_proxy s = ''''"
| "direct_route (TripQuic s) \<longleftrightarrow> True"

definition proxied_client :: "client \<Rightarrow> bool" where
  "proxied_client cl \<longleftrightarrow> (\<forall>p route. may_leave p cl route \<longrightarrow> \<not> direct_route route)"

lemma proxied_clientI:
  assumes "wi_proxy (cl_h1 cl) \<noteq> ''''" "wi_proxy (cl_h2 cl) \<noteq> ''''" "cl_quic cl = None"
    "\<And>s. cl_masque cl = Some s \<Longrightarrow> wi_proxy s \<noteq> ''''" "\<And>s. cl_socks cl = Some s \<Longrightarrow> wi_proxy s \<noteq> ''''"
  shows "proxied_client cl"
proof -
  have h3: "h3_route cl = Some route \<Longrightarrow> \<not> direct_route route" for route
    using assms by (auto simp: h3_route_def split: option.splits)
  then show ?thesis
    unfolding proxied_client_def
  proof (intro allI impI)
    fix p route
    assume "may_leave p cl route"
    then show "\<not> direct_route route"
      using h3 assms(1,2) by (cases p) auto
  qed
qed

lemma new_client_proxied:
  assumes "tcp_proxy c \<noteq> ''''" "udp_proxy c \<noteq> ''''" "c = apply_options opts (DefaultConfig\<lparr>cg_Preset := name\<rparr>)"
  shows "proxied_client (NewClient env presets auths name opts)"
  using assms
  by (intro proxied_clientI)
    (auto simp: NewClient_def new_h3_def transport_wire_def manager_wire_def plain_wire_def Let_def split: prod.splits option.splits if_splits)

lemma set_proxy_proxied: "url \<noteq> '''' \<Longrightarrow> proxied_client (cl_SetProxy env url cl)"
  by (intro proxied_clientI)
    (auto simp: cl_SetProxy_def cl_SetUDPProxy_def cl_SetTCPProxy_def plain_wire_def Let_def split: if_splits)

lemma call_uses_proxy: "proxied_client cl \<Longrightarrow> call_may_leave req cl route \<Longrightarrow> \<not> direct_route route"
  using may_leave.simps(3) [of cl route] by (auto simp: proxied_client_def call_may_leave_def simp del: may_leave.simps)

lemma proxied_fixed: "fixed_part a = fixed_part b \<Longrightarrow> proxied_client a \<longleftrightarrow> proxied_client b"
  by (simp add: proxied_client_def fixed_routes(2) [of a b])

text \<open>A run of the client: calls of \<open>Do\<close> and \<open>DoStream\<close> and new proxies, one after the other.\<close>

datatype run_step = CallDo client_request | CallStream decoder_opener client_request | NewProxy string

fun run_client :: "'w client_env \<Rightarrow> run_step list \<Rightarrow> client \<Rightarrow> 'w \<Rightarrow> (client \<times> 'w) option" where
  "run_client env [] cl w = Some (cl, w)"
| "run_client env (CallDo req # ss) cl w =
     (case client_Do env req cl w of None \<Rightarrow> None | Some (r, h, cl1, w1) \<Rightarrow> run_client env ss cl1 w1)"
| "run_client env (CallStream od req # ss) cl w = (case DoStream env od req cl w of (r, cl1, w1) \<Rightarrow> run_client env ss cl1 w1)"
| "run_client env (NewProxy url # ss) cl w = run_client env ss (cl_SetProxy env url cl) w"

lemma run_proxied:
  assumes "proxied_client cl" "NewProxy '''' \<notin> set ss" "keeps env (\<lambda>r. \<not> direct_route r) P" "P w"
    "run_client env ss cl w = Some (cl1, w1)"
  shows "P w1"
  using assms
proof (induction env ss cl w rule: run_client.induct)
  case (1 env cl w)
  then show ?case by simp
next
  case (2 env req ss cl w)
  then obtain r h cl2 w2 where d: "client_Do env req cl w = Some (r, h, cl2, w2)"
    by (auto split: option.splits)
  have "P w2"
    by (rule client_Do_frame(2) [OF d keeps_mono [OF 2(4)] 2(5)]) (rule call_uses_proxy [OF 2(2)])
  then show ?case
    using 2 d proxied_fixed [OF client_Do_frame(1) [OF d]] by simp
next
  case (3 env od req ss cl w)
  obtain r cl2 w2 where d: "DoStream env od req cl w = (r, cl2, w2)"
    by (metis prod_cases3)
  have "P w2"
    by (rule DoStream_frame(2) [OF d keeps_mono [OF 3(4)] 3(5)]) (use 3(2) in \<open>auto simp: proxied_client_def\<close>)
  then show ?case
    using 3 d proxied_fixed [OF DoStream_frame(1) [OF d]] by simp
next
  case (4 env url ss cl w)
  then have "proxied_client (cl_SetProxy env url cl)"
    by (intro set_proxy_proxied) auto
  with 4 show ?case by simp
qed


text \<open>An environment whose world is the list of what was sent, the last first.\<close>

definition log_env :: "(trip_route \<Rightarrow> trip_request \<Rightarrow> string + trip_response) \<Rightarrow> (trip_route \<times> trip_request) list client_env" where
  "log_env answer =
     \<lparr>ce_canon = (\<lambda>s. s), ce_md5 = (\<lambda>s. s), ce_sha256 = (\<lambda>s. s), ce_parse_time = (\<lambda>l s. None), ce_decode = (\<lambda>e s. Inr s),
      ce_masque = (\<lambda>p. None), ce_socks = (\<lambda>p. None), ce_now = (\<lambda>w. 0), ce_cnonce = (\<lambda>w. (''c'', w)), ce_rand = (\<lambda>w. (1 / 2, w)),
      ce_wait = (\<lambda>d w. (None, w)), ce_trip = (\<lambda>route tr w. (answer route tr, (route, tr) # w))\<rparr>"

definition answer_with :: "int \<Rightarrow> header \<Rightarrow> trip_response" where
  "answer_with status h = \<lparr>tp_StatusCode = status, tp_Header = h, tp_Body = Inr ''ok'', tp_Certs = None\<rparr>"

lemma keeps_log: "(\<And>route. R route \<Longrightarrow> Q route) \<Longrightarrow> keeps (log_env answer) R (\<lambda>trips. \<forall>x\<in>set trips. Q (fst x))"
  by (simp add: keeps_def log_env_def)

text \<open>A proxy whose HTTP/2 fails, so that HTTP/1 is used.\<close>

definition only_http1 :: "trip_route \<Rightarrow> trip_request \<Rightarrow> string + trip_response" where
  "only_http1 route tr = (case route of TripH1 s \<Rightarrow> Inr (answer_with 200 []) | _ \<Rightarrow> Inl ''refused'')"

definition example_request :: client_request where
  "example_request = bare_request ''GET'' ''https://a.test/'' [] False None"

definition proxied_example :: client where
  "proxied_example = NewClient (log_env only_http1) (\<lambda>n. bare_preset) (\<lambda>i. BasicAuth [] []) ''chrome'' [WithProxy ''http://px:1'', WithTLSOnly]"

fun route_text :: "trip_route \<Rightarrow> string \<times> string" where
  "route_text (TripH1 s) = (''h1'', wi_proxy s)"
| "route_text (TripH2 s) = (''h2'', wi_proxy s)"
| "route_text (TripMasque s) = (''masque'', wi_proxy s)"
| "route_text (TripSocks s) = (''socks'', wi_proxy s)"
| "route_text (TripQuic s) = (''quic'', wi_proxy s)"

lemma example_hop:
  "case do_hop (log_env only_http1) example_request [] proxied_example [] of
     (Finished (Inr r), req, cl, w) \<Rightarrow> map (route_text \<circ> fst) w = [(''h1'', ''http://px:1''), (''h2'', ''http://px:1'')]
   | _ \<Rightarrow> False"
  by code_simp

lemma example_run:
  "\<exists>cl trips. run_client (log_env only_http1) [CallDo example_request] proxied_example [] = Some (cl, trips) \<and>
     map (route_text \<circ> fst) trips = [(''h1'', ''http://px:1''), (''h2'', ''http://px:1'')]"
proof -
  have no_retry: "\<not> cg_RetryEnabled (cl_config proxied_example)"
    by (simp add: proxied_example_def NewClient_def apply_options_def WithProxy_def WithTLSOnly_def DefaultConfig_def Let_def split: prod.split)
  obtain r req cl trips where hop: "do_hop (log_env only_http1) example_request [] proxied_example [] = (Finished (Inr r), req, cl, trips)"
    and two: "map (route_text \<circ> fst) trips = [(''h1'', ''http://px:1''), (''h2'', ''http://px:1'')]"
    using example_hop by (simp only: split: prod.splits outcome.splits sum.splits)
  have "doOnce (log_env only_http1) (cq_Headers example_request) example_request [] proxied_example [] =
      Some (Inr r, top_headers [] (cq_Headers example_request) req, cl, trips)"
    by (subst doOnce.simps) (simp add: hop)
  then have "run_client (log_env only_http1) [CallDo example_request] proxied_example [] = Some (cl, trips)"
    using no_retry by (simp add: client_Do_def)
  with two show ?thesis
    by (intro exI conjI)
qed


end
