(* ===== verification/ClientRedirects.thy ===== *)
theory ClientRedirects
  imports ClientReturns
begin

text \<open>
  What a redirect of the client carries to another origin, that a request which forces no protocol does
  not fail for want of one while HTTP/1 works, how long the waits between retries are, and what is
  not so: a cookie that leaves its site, a challenge that repeats, a protocol that was forced in vain.
\<close>

section \<open>Redirects to another site\<close>

text \<open>The two headers that carry credentials, and canonical keys that differ in case only.\<close>

definition credential_names :: "string list" where
  "credential_names = [''Authorization'', ''Proxy-Authorization'']"

definition case_only :: "(string \<Rightarrow> string) \<Rightarrow> bool" where
  "case_only canon \<longleftrightarrow> (\<forall>k. to_lower (canon k) = to_lower k)"

lemma other_name:
  assumes "case_only canon" "n \<in> set credential_names" "to_lower k \<noteq> to_lower n"
  shows "canon k \<noteq> n" "n \<noteq> canon k"
  using assms by (auto simp: case_only_def)

lemma mode_names_lower: "k \<in> set (''Content-Length'' # ''Content-Type'' # ''Cookie'' # mode_names) \<Longrightarrow> n \<in> set credential_names \<Longrightarrow> to_lower k \<noteq> to_lower n"
proof -
  have "\<forall>k\<in>set (''Content-Length'' # ''Content-Type'' # ''Cookie'' # mode_names). \<forall>n\<in>set credential_names. to_lower k \<noteq> to_lower n"
    by code_simp
  then show "k \<in> set (''Content-Length'' # ''Content-Type'' # ''Cookie'' # mode_names) \<Longrightarrow> n \<in> set credential_names \<Longrightarrow> to_lower k \<noteq> to_lower n"
    by blast
qed

lemma mode_headers_no_credentials:
  assumes canon: "case_only canon" and n: "n \<in> set credential_names"
  shows "hvalues (mode_headers canon p r u h) n = hvalues h n"
proof -
  have "n \<noteq> canon k" if "k \<in> set mode_names" for k
    using other_name(2) [OF canon n mode_names_lower [OF _ n]] that by simp
  note ne = mode_names_in [THEN this]
  show ?thesis
    by (simp add: mode_headers_def mode_defs Let_def hvalues_set_if hvalues_set_or ne split: FetchMode.split option.split)
qed

lemma normalize_no_credentials:
  assumes canon: "case_only canon" and n: "n \<in> set credential_names"
  shows "hvalues (normalizeRequestWithBody canon m body []) n = []"
proof -
  have ne: "n \<noteq> canon ''Content-Length''" "n \<noteq> canon ''Content-Type''"
    using other_name(2) [OF canon n mode_names_lower [OF _ n]] by simp_all
  have del: "hvalues (hdel canon k h) n = []" if "hvalues h n = []" for k h
    using that by (simp add: hvalues_def hdel_def delete_conv')
  show ?thesis
    by (simp add: normalizeRequestWithBody_def normalizeRequest_def Let_def ne del hvalues_def [of "[]"])
qed

lemma user_no_credentials:
  assumes canon: "case_only canon" and none: "\<forall>(k, vs)\<in>set user. to_lower k \<noteq> to_lower n"
  shows "hvalues (user_headers canon user h) n = hvalues h n"
  using none
proof (induction user arbitrary: h)
  case (Cons kv user)
  then have "n \<noteq> canon (fst kv)"
    using canon by (auto simp: case_only_def)
  then have "hvalues (set_user_header canon kv h) n = hvalues h n"
    by (cases kv) (simp add: hvalues_set_user)
  then show ?case
    using Cons by (simp add: user_headers_def)
qed (simp add: user_headers_def)

text \<open>C4. A redirect to another origin carries no credentials: whatever the caller set, the request that follows
  it is sent with no Authorization and no Proxy-Authorization header, if the client itself has no authentication and no hooks.\<close>

theorem redirect_drops_credentials:
  assumes hop: "do_hop env req hist cl w = (Follow req2 hist2, req1, cl1, w1)"
    and cross: "\<not> sameOriginClient (target_url req) (cq_URL req2)"
    and own: "cl_auth cl = None" "cl_pre cl = []"
    and canon: "case_only (ce_canon env)"
    and followed: "prepare_hop env req2 cl1 w1 = (Inr rd, req3, cl2, w2)"
    and n: "n \<in> set credential_names"
  shows "hvalues (oh_header (tr_Header (rd_trip rd))) n = []"
proof -
  obtain rd1 cl' w' resp p cl3 w3 where prep: "prepare_hop env req cl w = (Inr rd1, req1, cl', w')"
    and answer: "hop_answer env req1 hist rd1 resp p cl3 w3 = (Follow req2 hist2, cl1, w1)"
    using hop by (cases rule: do_hop_cases) auto
  have url: "rd_URL rd1 = target_url req"
    using prep by (auto simp: prepare_hop_def Let_def split: option.splits sum.splits if_splits prod.splits)
  let ?loc = "JoinURL (rd_URL rd1) (hget (ce_canon env) (tp_Header resp) ''Location'')"
  have req2: "req2 = hop_request req1 (rd_URL rd1) ?loc (tp_StatusCode resp) (request_method req1) (rd_body rd1)"
    by (rule redirect_hop_follow(4) [OF hop_answer_follow [OF answer]])
  then have cross': "\<not> sameOriginClient (rd_URL rd1) ?loc"
    using cross url by (simp add: hop_request_def Let_def)
  have auth: "auth_of req2 cl1 = None"
    using own(1) cross' fixedD(7) [OF do_hop_frame(2) [OF hop]] by (simp add: req2 hop_request_def auth_of_def Let_def)
  have keys: "\<forall>(k, vs)\<in>set (cq_Headers req2). to_lower k \<noteq> to_lower n"
  proof -
    have "to_lower n = ''authorization'' \<or> to_lower n = ''proxy-authorization''"
      using n by (auto simp: credential_names_def) (code_simp)+
    then show ?thesis
      using cross' by (auto simp: req2 hop_request_def carried_headers_def Let_def)
  qed
  have base: "hvalues (oh_header (tr_Header (base_request env cl1 req2 u body))) n = []" for u body
  proof -
    have "n \<noteq> ce_canon env ''Host''" "n \<noteq> ce_canon env ''User-Agent''"
      using other_name(2) [OF canon n mode_names_lower [OF _ n]] by (simp_all add: mode_names_def)
    then show ?thesis
      by (simp add: base_request_def applyModeHeaders_def applyTLSOnlyHeaders_def Let_def user_no_credentials [OF canon keys]
          mode_headers_no_credentials [OF canon n] normalize_no_credentials [OF canon n])
  qed
  have cookie: "n \<noteq> ce_canon env ''Cookie''"
    using other_name(2) [OF canon n mode_names_lower [OF _ n]] by simp
  have "cl_pre cl1 = []"
    using own(2) fixedD(8) [OF do_hop_frame(2) [OF hop]] by simp
  then show ?thesis
    using followed auth base cookie
    by (auto simp: prepare_hop_def build_trip_def apply_auth_def add_cookies_def with_header_def Let_def
        split: option.splits sum.splits if_splits prod.splits)
qed

text \<open>A client with a cookie of one site, which redirects to another.\<close>

definition to_b :: "trip_route \<Rightarrow> trip_request \<Rightarrow> string + trip_response" where
  "to_b route tr = Inr (if Hostname (tr_URL tr) = ''a.test'' then answer_with 302 [(''Location'', [''https://b.test/''])] else answer_with 200 [])"

definition signed_request :: client_request where
  "signed_request = bare_request ''GET'' ''https://a.test/'' [(''Authorization'', [''secret''])] True None"

definition cookie_client :: client where
  "cookie_client = (NewClient (log_env to_b) (\<lambda>n. bare_preset) (\<lambda>i. BasicAuth [] []) ''chrome'' [WithTLSOnly, WithForceHTTP1])
     \<lparr>cl_cookies := Some (after_line ''a.test'' ''sid=1'')\<rparr>"

lemma example_redirect:
  "case do_hop (log_env to_b) signed_request [] cookie_client [] of
     (Follow req2 hist2, req1, cl, w) \<Rightarrow>
       map (\<lambda>x. (u_Host (tr_URL (snd x)), hvalues (oh_header (tr_Header (snd x))) ''Authorization'')) w = [(''a.test'', [''secret''])] \<and>
       cq_URL req2 = ''https://b.test/'' \<and>
       (case prepare_hop (log_env to_b) req2 cl w of
          (Inr rd, x) \<Rightarrow> u_Host (tr_URL (rd_trip rd)) = ''b.test'' \<and> hvalues (oh_header (tr_Header (rd_trip rd))) ''Cookie'' = [''sid=1'']
        | _ \<Rightarrow> False)
   | _ \<Rightarrow> False"
  by code_simp

lemma redirect_drops_credentials_witness:
  "\<exists>req2 hist2 req1 cl w rd rest. do_hop (log_env to_b) signed_request [] cookie_client [] = (Follow req2 hist2, req1, cl, w) \<and>
     prepare_hop (log_env to_b) req2 cl w = (Inr rd, rest) \<and> hvalues (oh_header (tr_Header (rd_trip rd))) ''Authorization'' = []"
proof -
  obtain x req1 cl w where d: "do_hop (log_env to_b) signed_request [] cookie_client [] = (x, req1, cl, w)"
    by (metis prod_cases4)
  obtain req2 hist2 where x: "x = Follow req2 hist2"
    using example_redirect by (simp only: d prod.case split: outcome.splits)
  note hop = d [unfolded x]
  note facts = example_redirect [unfolded hop outcome.case prod.case]
  have url: "cq_URL req2 = ''https://b.test/''"
    using facts by (elim conjE)
  obtain a req3 cl3 w3 where p: "prepare_hop (log_env to_b) req2 cl w = (a, req3, cl3, w3)"
    by (metis prod_cases4)
  obtain rd where a: "a = Inr rd"
    using facts by (elim conjE) (simp only: p prod.case split: sum.splits)
  note prep = p [unfolded a]
  have "\<not> sameOriginClient (target_url signed_request) (cq_URL req2)"
    unfolding url by code_simp
  moreover have "cl_auth cookie_client = None" "cl_pre cookie_client = []"
    by (simp_all add: cookie_client_def NewClient_def Let_def split: prod.split)
  moreover have "case_only (ce_canon (log_env to_b))" "''Authorization'' \<in> set credential_names"
    by (simp_all add: case_only_def log_env_def credential_names_def)
  ultimately have "hvalues (oh_header (tr_Header (rd_trip rd))) ''Authorization'' = []"
    by (rule redirect_drops_credentials [OF hop _ _ _ _ prep])
  with hop prep show ?thesis
    by (intro exI conjI)
qed

section \<open>A challenge that repeats\<close>

definition is_digest :: "auth \<Rightarrow> bool" where
  "is_digest a \<longleftrightarrow> (\<exists>d. a = DigestAuth d)"

lemma digest_Apply: "is_digest a \<Longrightarrow> is_digest (snd (auth_Apply canon md5 cnonce m u a h))"
  by (auto simp: is_digest_def auth_Apply_def authorization_def split: prod.splits option.splits if_splits)

lemma digest_apply_auth:
  "apply_auth env a tr cl w = (tr1, cl1, w1) \<Longrightarrow> is_digest (cl_auths cl i) \<Longrightarrow> is_digest (cl_auths cl1 i)"
  using digest_Apply by (auto simp: apply_auth_def Let_def split: option.splits prod.splits) (metis snd_conv)+

text \<open>A request that always reaches the server, over HTTP/1, with a digest authentication.\<close>

definition digest_request :: "nat \<Rightarrow> client_request \<Rightarrow> client \<Rightarrow> bool" where
  "digest_request i req cl \<longleftrightarrow>
     (\<exists>u. Parse (target_url req) = Some u \<and> u_Scheme u = ''https'') \<and> (\<exists>b. body_bytes_of req = Inr b) \<and>
     valid_method (request_method req) \<and> cl_pre cl = [] \<and> effective_protocol req cl = client_protocol.ProtocolHTTP1 \<and>
     auth_of req cl = Some i \<and> is_digest (cl_auths cl i)"

lemma challenged_hop:
  assumes req: "digest_request i req cl"
    and answers: "\<And>route tr w. fst (ce_trip env route tr w) = Inr resp"
    and resp: "tp_StatusCode resp = 401" "tp_Certs resp = None"
      "hget (ce_canon env) (tp_Header resp) ''WWW-Authenticate'' = server_challenge realm nonce opaq"
    and fields: "unquotable realm" "unquotable nonce" "unquotable opaq" "nonce \<noteq> ''''"
  shows "\<exists>req1 cl1 w1. do_hop env req hist cl w = (Again, req1, cl1, w1) \<and> digest_request i req1 cl1"
proof -
  obtain u b where u: "Parse (target_url req) = Some u" "u_Scheme u = ''https''" and b: "body_bytes_of req = Inr b"
    using req by (auto simp: digest_request_def)
  obtain tr cl1 w1 where built: "build_trip env req u b cl w = (tr, cl1, w1)"
    by (metis prod_cases3)
  have f1: "fixed_part cl1 = fixed_part cl"
    using built by (auto simp: build_trip_def dest: fixed_of_apply_auth split: prod.splits)
  have d1: "is_digest (cl_auths cl1 i)"
    using built req by (auto simp: build_trip_def digest_request_def dest: digest_apply_auth split: prod.splits)
  let ?req1 = "note_sent (oh_header (tr_Header tr)) req"
  let ?rd = "\<lparr>rd_URL = target_url req, rd_parsed = u, rd_useH3 = shouldTryHTTP3 (ce_now env w) (host_key u) cl, rd_body = b, rd_trip = tr\<rparr>"
  have prep: "prepare_hop env req cl w = (Inr ?rd, ?req1, cl1, w1)"
    using req fixedD(8) [OF f1] by (simp add: prepare_hop_def u b built digest_request_def)
  obtain w2 where trip: "ce_trip env (TripH1 (cl_h1 cl1)) tr w1 = (Inr resp, w2)"
    using answers by (metis prod.collapse)
  have eff: "effective_protocol ?req1 cl1 = client_protocol.ProtocolHTTP1"
    using req fixed_routes(3) [OF f1, of req] by (auto simp: digest_request_def note_sent_def effective_protocol_def split: if_splits)
  have sent: "client_exchange env ?req1 (host_key u) useH3 b tr cl1 w1 = (Inr (resp, ''h1''), cl1, w2)" for useH3
    by (simp add: client_exchange_def eff client_doHTTP1_def trip)
  let ?cl2 = "store_cookies env u resp w2 cl1"
  have auth: "auth_of ?req1 ?cl2 = Some i"
    using req fixedD(7) [OF fixed_marks(3) [of env u resp w2 cl1]] fixedD(7) [OF f1]
    by (simp add: digest_request_def note_sent_def auth_of_def split: option.splits)
  obtain d where d: "cl_auths cl1 i = DigestAuth d"
    using d1 by (auto simp: is_digest_def)
  have prefix: "has_prefix (to_lower (server_challenge realm nonce opaq)) ''digest ''" "server_challenge realm nonce opaq \<noteq> ''''"
  proof -
    have "to_lower ''Digest '' = ''digest ''"
      by code_simp
    then show "has_prefix (to_lower (server_challenge realm nonce opaq)) ''digest ''" "server_challenge realm nonce opaq \<noteq> ''''"
      by (simp_all add: server_challenge_def has_prefix_append del: join_with.simps)
  qed
  have handled: "\<exists>d1. HandleChallenge (ce_canon env) 401 (tp_Header resp) (cl_auths cl1 i) = (Inr True, DigestAuth d1)"
    by (simp add: HandleChallenge_def d resp(3) prefix challenge_read [OF fields])
  then obtain d1 where h: "HandleChallenge (ce_canon env) 401 (tp_Header resp) (cl_auths cl1 i) = (Inr True, DigestAuth d1)"
    by blast
  let ?cl3 = "?cl2\<lparr>cl_auths := (cl_auths cl1)(i := DigestAuth d1)\<rparr>"
  obtain tr4 cl4 w4 where again: "apply_auth env (Some i) tr ?cl3 w2 = (tr4, cl4, w4)"
    by (metis prod_cases3)
  have "hop_answer env ?req1 hist ?rd resp ''h1'' cl1 w2 = (Again, cl4, w4)"
    by (simp add: hop_answer_def challenge_hop_def Let_def resp(1) isRedirect_def auth h again)
  then have hop: "do_hop env req hist cl w = (Again, ?req1, cl4, w4)"
    by (simp add: do_hop_def prep sent check_pins_def resp(2))
  have f4: "fixed_part cl4 = fixed_part cl"
    using fixed_of_apply_auth [OF again] f1 by simp
  have "is_digest (cl_auths cl4 i)"
    using digest_apply_auth [OF again, of i] by (simp add: is_digest_def)
  then have "digest_request i ?req1 cl4"
    using req fixedD(8) [OF f4] fixedD(7) [OF f4] fixed_routes(3) [OF f4, of req]
    by (auto simp: digest_request_def note_sent_def target_url_def body_bytes_of_def request_method_def auth_of_def effective_protocol_def
        split: option.splits if_splits)
  with hop show ?thesis
    by blast
qed

text \<open>A server that repeats its challenge, as for a wrong password, is asked again without end.\<close>

lemma digest_without_end:
  assumes "digest_request i req cl"
    and answers: "\<And>route tr w. fst (ce_trip env route tr w) = Inr resp"
    and resp: "tp_StatusCode resp = 401" "tp_Certs resp = None"
      "hget (ce_canon env) (tp_Header resp) ''WWW-Authenticate'' = server_challenge realm nonce opaq"
    and fields: "unquotable realm" "unquotable nonce" "unquotable opaq" "nonce \<noteq> ''''"
  shows "doOnce env orig req hist cl w = None"
proof (rule ccontr)
  assume "doOnce env orig req hist cl w \<noteq> None"
  then obtain y where "doOnce env orig req hist cl w = Some y"
    by blast
  then have "\<not> digest_request i req cl"
  proof (rule doOnce_induct [where Q = "\<lambda>orig req hist cl w y. \<not> digest_request i req cl"])
    fix orig req hist cl w r req1 cl1 w1
    assume "do_hop env req hist cl w = (Finished r, req1, cl1, w1)"
    then show "\<not> digest_request i req cl"
      using challenged_hop [OF _ answers resp fields, of i req cl hist w] by auto
  next
    fix orig req hist cl w req2 hist2 req1 cl1 w1 y
    assume "do_hop env req hist cl w = (Follow req2 hist2, req1, cl1, w1)"
    then show "\<not> digest_request i req cl"
      using challenged_hop [OF _ answers resp fields, of i req cl hist w] by auto
  next
    fix orig req hist cl w req1 cl1 w1 y
    assume "do_hop env req hist cl w = (Again, req1, cl1, w1)" "\<not> digest_request i req1 cl1"
    then show "\<not> digest_request i req cl"
      using challenged_hop [OF _ answers resp fields, of i req cl hist w] by auto
  qed
  then show False
    using assms(1) by blast
qed

section \<open>HTTP/1 is enough\<close>

text \<open>No protocol is forced, by the request or the client, and HTTP/1 gets an answer each time.\<close>

lemma auto_exchange_answered:
  assumes "\<And>tr w. \<exists>resp w1. ce_trip env (TripH1 (cl_h1 cl)) tr w = (Inr resp, w1)"
  shows "\<exists>resp p cl1 w1. auto_exchange env key useH3 body tr cl w = (Inr (resp, p), cl1, w1)"
proof -
  have h1: "\<exists>resp p cl2 w2. client_doHTTP1 env tr1 cl1 w1 = (Inr (resp, p), cl2, w2)" if "cl_h1 cl1 = cl_h1 cl" for tr1 cl1 w1
    using assms [of tr1 w1] that by (auto simp: client_doHTTP1_def)
  have same: "same_but_marks (fst (snd (client_doHTTP2 env tr1 cl1 w1))) cl1" "same_but_marks (fst (snd (client_doHTTP3 env tr1 cl1 w1))) cl1" for tr1 cl1 w1
    by (auto simp: client_doHTTP2_def client_doHTTP3_def split: option.split prod.split sum.split)
  have marked: "cl_h1 (markH3Failed now key c) = cl_h1 c" "cl_h1 (markH2Failed now key c) = cl_h1 c" for now c
    by (simp_all add: markH3Failed_def markH2Failed_def)
  obtain useH1 cl0 where s: "shouldUseH1 (ce_now env w) key cl = (useH1, cl0)"
    by fastforce
  then have cl0: "cl_h1 cl0 = cl_h1 cl"
    by (auto simp: shouldUseH1_def split: option.splits if_splits)
  have alt: "\<exists>resp p c2 w2. or_else r f = (Inr (resp, p), c2, w2)"
    if r: "same_but_marks (fst (snd r)) c0" "cl_h1 c0 = cl_h1 cl" and f: "\<And>c w. cl_h1 c = cl_h1 cl \<Longrightarrow> \<exists>resp p c2 w2. f c w = (Inr (resp, p), c2, w2)"
    for r :: "'a sent" and f c0
    using f [of "fst (snd r)" "snd (snd r)"] fixedD(2) [of "fst (snd r)" c0] r
    by (auto simp: or_else_def same_but_marks_def split: prod.splits sum.splits)
  show ?thesis
    by (auto simp: auto_exchange_def s Let_def cl0 marked intro!: h1 alt [OF same(1)] alt [OF same(2)])
qed

lemma hop_answered:
  assumes hop: "do_hop env req hist cl w = (r, req1, cl1, w1)"
    and auto: "effective_protocol req cl = client_protocol.ProtocolAuto"
    and h1: "\<And>tr w. \<exists>resp w1. ce_trip env (TripH1 (cl_h1 cl)) tr w = (Inr resp, w1)"
  shows "r \<noteq> Finished (Inl (TripFailed e))"
  using hop
proof (cases rule: do_hop_cases)
  case (unsent x)
  then show ?thesis
    by (auto simp: prepare_hop_def body_bytes_of_def Let_def split: option.splits sum.splits if_splits prod.splits)
next
  case (failed rd cl2 w2 x)
  have "effective_protocol req1 cl2 = client_protocol.ProtocolAuto" "cl_h1 cl2 = cl_h1 cl"
    using prepare_hop_policy(2) [OF failed(2)] auto fixedD(2) [OF prepare_hop_policy(3) [OF failed(2)]] by simp_all
  then show ?thesis
    using failed(3) auto_exchange_answered [of env cl2 "host_key (rd_parsed rd)" "rd_useH3 rd" "rd_body rd" "rd_trip rd" w2] h1
    by (auto simp: client_exchange_def)
next
  case (unpinned rd cl2 w2 a x)
  then show ?thesis by simp
next
  case (answered rd cl2 w2 resp p cl3 w3)
  from answered(4) show ?thesis
    by (auto simp: hop_answer_def redirect_hop_def final_response_def Let_def
        split: option.splits sum.splits if_splits prod.splits bool.splits)
qed



section \<open>Waits\<close>

text \<open> The wait before a retry is never negative nor above the configured maximum, and up to the maximum it is
  within a fifth (and a nanosecond) of the minimum doubled with every attempt.\<close>

theorem client_wait_bounds:
  fixes wait :: rat
  assumes "0 \<le> r" "r < 1" "0 \<le> cg_RetryWaitMin c" "0 \<le> cg_RetryWaitMax c"
    and wait: "wait = of_int (cg_RetryWaitMin c) * 2 ^ (attempt - 1)"
  shows "0 \<le> calculateRetryWait c r attempt \<and> calculateRetryWait c r attempt \<le> cg_RetryWaitMax c \<and>
    of_int (calculateRetryWait c r attempt) \<le> wait * (6 / 5) \<and>
    (calculateRetryWait c r attempt < cg_RetryWaitMax c \<longrightarrow> wait * (4 / 5) < of_int (calculateRetryWait c r attempt) + 1)"
proof -
  define q where "q = wait + wait * (2 / 10) * (r * 2 - 1)"
  have pos: "0 \<le> wait"
    using assms(3) by (simp add: wait)
  have low: "wait * (4 / 5) \<le> q" and high: "q \<le> wait * (6 / 5)"
  proof -
    have "0 \<le> wait * r" "wait * r \<le> wait"
      using pos assms(1,2) by (simp_all add: mult_left_le)
    then show "wait * (4 / 5) \<le> q" "q \<le> wait * (6 / 5)"
      by (simp_all add: q_def algebra_simps)
  qed
  have q0: "0 \<le> q"
    using low pos by simp
  have w: "calculateRetryWait c r attempt = (if q > of_int (cg_RetryWaitMax c) then cg_RetryWaitMax c else \<lfloor>q\<rfloor>)"
    using assms(4) q0 by (simp add: calculateRetryWait_def Let_def to_duration_def q_def wait)
  show ?thesis
  proof (cases "q > of_int (cg_RetryWaitMax c)")
    case True
    then show ?thesis
      using assms(4) high w by simp
  next
    case False
    then have "\<lfloor>q\<rfloor> \<le> cg_RetryWaitMax c"
      by (simp add: floor_le_iff)
    moreover have "of_int \<lfloor>q\<rfloor> \<le> wait * (6 / 5)"
      using high of_int_floor_le [of q] by linarith
    moreover have "wait * (4 / 5) < of_int \<lfloor>q\<rfloor> + 1"
      using low by linarith
    ultimately show ?thesis
      using False q0 w by simp
  qed
qed

lemma client_wait_bounds_witness:
  "calculateRetryWait DefaultConfig (3 / 4) 3 = 4400000000 \<and> 4400000000 \<le> cg_RetryWaitMax DefaultConfig"
proof -
  have "calculateRetryWait DefaultConfig (3 / 4) 3 \<le> cg_RetryWaitMax DefaultConfig"
    using client_wait_bounds [of "3 / 4" DefaultConfig _ 3, OF _ _ _ _ refl] by (simp add: DefaultConfig_def)
  moreover have "calculateRetryWait DefaultConfig (3 / 4) 3 = 4400000000"
    by code_simp
  ultimately show ?thesis
    by simp
qed

section \<open>What is not so\<close>

text \<open>After a cookie challenge HTTP/3 is forced on the next attempt, whatever the client has forced itself.\<close>

lemma challenge_overrides_forced:
  assumes "cq_ForceProtocol req = client_protocol.ProtocolAuto" "cl_quic cl \<noteq> None"
  shows "effective_protocol (attempt_request cl req body True h) cl = client_protocol.ProtocolHTTP3"
  using assms by (simp add: attempt_request_def effective_protocol_def)

text \<open>If that last attempt is a challenge as well, the error has no cause.\<close>

lemma challenge_without_cause:
  assumes "is_cookie_challenge req False resp"
  shows "judge_attempt req c n no_attempts (Inr resp) = Inr (no_attempts\<lparr>rt_challenged := True\<rparr>)"
    "out_of_attempts c (no_attempts\<lparr>rt_challenged := True\<rparr>) = Inl (RetriesExhausted (cg_MaxRetries c) None)"
  using assms by (simp_all add: judge_attempt_def no_attempts_def out_of_attempts_def)

text \<open>\<open>SetUDPProxy\<close> with no proxy brings HTTP/3 back to a client that disabled it, and forgets how to reach hosts.\<close>

lemma udp_reset_forgets:
  "cl_quic (cl_SetUDPProxy env [] cl) = Some ((plain_wire (cl_preset cl) [])\<lparr>wi_skipVerify := cg_InsecureSkipVerify (cl_config cl)\<rparr>)"
  by (simp add: cl_SetUDPProxy_def Let_def)

text \<open>\<open>SetPreset\<close> changes the headers and the HTTP/2 pools; the HTTP/1 and HTTP/3 transports keep the old one.\<close>

lemma preset_half_changed:
  "cl_h1 (cl_SetPreset presets name cl) = cl_h1 cl" "h3_route (cl_SetPreset presets name cl) = h3_route cl"
  "wi_preset (cl_h2 (cl_SetPreset presets name cl)) = presets name"
  by (simp_all add: cl_SetPreset_def h3_route_def split: option.split)

text \<open>With a proxy for TCP only, a request whose proxy fails leaves over QUIC without one.\<close>

lemma tcp_proxy_falls_back_direct:
  assumes "cl = NewClient env presets auths name [WithTCPProxy ''http://px:1'']"
  shows "wi_proxy (cl_h2 cl) = ''http://px:1''" "\<exists>s. h3_route cl = Some (TripQuic s)"
  by (simp_all add: assms NewClient_def new_h3_def apply_options_def WithTCPProxy_def DefaultConfig_def tcp_proxy_def udp_proxy_def
      transport_wire_def manager_wire_def plain_wire_def h3_route_def Let_def)

text \<open>A \<open>GET\<close> that follows a \<open>POST\<close> still carries the type and the length of the body it does not have.\<close>

lemma body_headers_carried:
  assumes "sameOriginClient a b"
  shows "cq_Headers (hop_request req a b 303 ''POST'' body) = carried_headers (isSchemeDowngradeClient a b) False (cq_Headers req)"
    "cq_Body (hop_request req a b 303 ''POST'' body) = None" "cq_Method (hop_request req a b 303 ''POST'' body) = ''GET''"
  using assms by (simp_all add: hop_request_def hop_method_def Let_def)

end
