(* ===== verification/CustomPreset.thy ===== *)
theory CustomPreset
  imports Presets
begin

text \<open>
  Presets from JSON, \<open>fingerprint/custom_preset.go\<close>, and the registry they are kept in,
  \<open>fingerprint/registry.go\<close>: what a specification means on top of the preset it is based on. The
  structures of the specification are modelled as the decoder of \<open>encoding/json\<close> leaves them. The
  client hello ids of uTLS and the table of built-in presets are parameters; since the values of the
  model are not shared, the deep copies that the code makes are the values themselves.
\<close>

type_synonym u32 = "32 word"

section \<open>The registry\<close>

type_synonym registry = "(string, Preset) gomap"

text \<open>The built-in presets: some of them look into the registry.\<close>

type_synonym builtins = "registry \<Rightarrow> string \<Rightarrow> Preset option"

definition Register :: "string \<Rightarrow> Preset option \<Rightarrow> registry \<Rightarrow> registry" where
  "Register name preset reg = (case preset of None \<Rightarrow> reg | Some p \<Rightarrow> AList.update name p reg)"

datatype register_error = NilPreset | EmptyName | AlreadyRegistered | CollidesWithBuiltin

definition RegisterStrict :: "builtins \<Rightarrow> string \<Rightarrow> Preset option \<Rightarrow> registry \<Rightarrow> register_error option \<times> registry" where
  "RegisterStrict tab name preset reg =
     (case preset of
        None \<Rightarrow> (Some NilPreset, reg)
      | Some p \<Rightarrow>
          if name = '''' then (Some EmptyName, reg)
          else if map_of reg name \<noteq> None then (Some AlreadyRegistered, reg)
          else if tab reg name \<noteq> None then (Some CollidesWithBuiltin, reg)
          else (None, AList.update name p reg))"

definition Unregister :: "string \<Rightarrow> registry \<Rightarrow> registry" where
  "Unregister name reg = AList.delete name reg"

definition LookupCustom :: "registry \<Rightarrow> string \<Rightarrow> Preset option" where
  "LookupCustom reg name = map_of reg name"

definition GetStrict :: "builtins \<Rightarrow> registry \<Rightarrow> string \<Rightarrow> Preset option" where
  "GetStrict tab reg name = (case LookupCustom reg name of Some p \<Rightarrow> Some p | None \<Rightarrow> tab reg name)"

text \<open>\<open>Get\<close> falls back to a preset of its own, the parameter \<open>other\<close>.\<close>

definition preset_Get :: "builtins \<Rightarrow> Preset \<Rightarrow> registry \<Rightarrow> string \<Rightarrow> Preset" where
  "preset_Get tab other reg name = (case GetStrict tab reg name of Some p \<Rightarrow> p | None \<Rightarrow> other)"

section \<open>Specifications\<close>

record JA3ExtrasSpec =
  js_SignatureAlgorithms :: "u16 list"
  js_DelegatedCredentialAlgorithms :: "u16 list"
  js_ALPN :: "string list"
  js_CertCompression :: "string list"
  js_PermuteExtensions :: "bool option"
  js_RecordSizeLimit :: "u16 option"
  js_KeyShareCurves :: "int option"

text \<open>\<open>ts_Inline\<close>: the seven fields of the extras, which a TLS specification also has of its own.\<close>

record TLSSpec =
  ts_ClientHello :: string
  ts_PSKClientHello :: string
  ts_QUICClientHello :: string
  ts_QUICPSKClientHello :: string
  ts_JA3 :: string
  ts_JA3Extras :: "JA3ExtrasSpec option"
  ts_Inline :: JA3ExtrasSpec

text \<open>The entries of a priority table have the fields of \<open>ResourcePriority\<close>.\<close>

record HTTP2Spec =
  h2s_Akamai :: string
  h2s_HeaderTableSize :: "u32 option"
  h2s_EnablePush :: "bool option"
  h2s_MaxConcurrentStreams :: "u32 option"
  h2s_InitialWindowSize :: "u32 option"
  h2s_MaxFrameSize :: "u32 option"
  h2s_MaxHeaderListSize :: "u32 option"
  h2s_ConnectionWindowUpdate :: "u32 option"
  h2s_StreamWeight :: "u16 option"
  h2s_StreamExclusive :: "bool option"
  h2s_NoRFC7540Priorities :: "bool option"
  h2s_Settings :: "(u16 \<times> u32) list"
  h2s_SettingsOrder :: "u16 list option"
  h2s_PseudoOrder :: "string list option"
  h2s_HPACKHeaderOrder :: "string list option"
  h2s_HPACKIndexingPolicy :: "string option"
  h2s_HPACKNeverIndex :: "string list option"
  h2s_StreamPriorityMode :: "string option"
  h2s_DisableCookieSplit :: "bool option"
  h2s_PriorityTable :: "(string, ResourcePriority) gomap option"

record HTTP3Spec =
  h3s_QPACKMaxTableCapacity :: "u64 option"
  h3s_QPACKBlockedStreams :: "u64 option"
  h3s_MaxFieldSectionSize :: "u64 option"
  h3s_EnableDatagrams :: "bool option"
  h3s_QUICInitialPacketSize :: "u16 option"
  h3s_QUICMaxIncomingStreams :: "int option"
  h3s_QUICMaxIncomingUniStreams :: "int option"
  h3s_QUICAllow0RTT :: "bool option"
  h3s_QUICChromeStyleInitial :: "bool option"
  h3s_QUICDisableHelloScramble :: "bool option"
  h3s_QUICTransportParamOrder :: "string option"
  h3s_QUICConnectionIDLength :: "int option"
  h3s_QUICMaxDatagramFrameSize :: "u64 option"
  h3s_MaxResponseHeaderBytes :: "u64 option"
  h3s_SendGreaseFrames :: "bool option"
  h3s_QUICInitialStreamReceiveWindow :: "u64 option"
  h3s_QUICInitialConnectionReceiveWindow :: "u64 option"

record HeaderSpec =
  hs_UserAgent :: string
  hs_Values :: "(string, string) gomap"
  hs_Order :: "(string \<times> string) list"

record TCPSpec =
  cs_Platform :: string
  cs_TTL :: "int option"
  cs_MSS :: "int option"
  cs_WindowSize :: "int option"
  cs_WindowScale :: "int option"
  cs_DFBit :: "bool option"

record ProtocolSpec =
  os_HTTP3 :: "bool option"

record PresetSpec =
  sp_Name :: string
  sp_BasedOn :: string
  sp_TLS :: "TLSSpec option"
  sp_HTTP2 :: "HTTP2Spec option"
  sp_HTTP3 :: "HTTP3Spec option"
  sp_Headers :: "HeaderSpec option"
  sp_TCP :: "TCPSpec option"
  sp_Protocol :: "ProtocolSpec option"

datatype build_error =
    SpecIsNil
  | InheritanceLoop string
  | NotJA3 ja3_error
  | UnknownBase string
  | UnknownHello string string  \<comment> \<open>the prefix of the message and the name\<close>
  | UnknownCertCompression string
  | BadAkamai akamai_error
  | UnknownPlatform string
  | JA3AndHello
  | NoPrimaryHello string
  | NotWithJA3 string
  | ExtrasWithoutJA3
  | ExtensionsWithHello
  | BadIndexingPolicy string
  | BadPriorityMode string
  | BadParamOrder string

section \<open>Inheritance\<close>

text \<open>
  The chain of presets a specification is based on, as the registry tells it: it ends at a name that
  is not registered, or enters itself again at the name that is the result.
\<close>

function inheritance_loop :: "registry \<Rightarrow> string list \<Rightarrow> string \<Rightarrow> string option" where
  "inheritance_loop reg visited cur =
     (if cur = '''' then None
      else if cur \<in> set visited then Some cur
      else case map_of reg cur of
          None \<Rightarrow> None
        | Some cp \<Rightarrow> inheritance_loop reg (cur # visited) (pr_BasedOn cp))"
  by pat_completeness auto
termination
proof (relation "measure (\<lambda>(reg, visited, cur). card (fst ` set reg - set visited))")
  fix reg :: registry and visited cur cp
  assume "cur \<notin> set visited" "map_of reg cur = Some cp"
  moreover from this have "cur \<in> fst ` set reg" by (metis map_of_eq_None_iff option.distinct(1))
  ultimately have "fst ` set reg - set (cur # visited) \<subset> fst ` set reg - set visited" by auto
  then show "((reg, cur # visited, pr_BasedOn cp), (reg, visited, cur)) \<in>
      measure (\<lambda>(reg, visited, cur). card (fst ` set reg - set visited))"
    by (auto intro: psubset_card_mono)
qed auto

declare inheritance_loop.simps [simp del]

section \<open>TLS\<close>

text \<open>The client hello ids by their names.\<close>

type_synonym hello_ids = "(string, ClientHelloID) gomap"

definition ResolveClientHelloID :: "hello_ids \<Rightarrow> string \<Rightarrow> string \<Rightarrow> build_error + ClientHelloID" where
  "ResolveClientHelloID ids prefix name =
     (case map_of ids name of Some i \<Rightarrow> Inr i | None \<Rightarrow> Inl (UnknownHello prefix name))"

fun parseCertCompAlgs :: "string list \<Rightarrow> build_error + u16 list" where
  "parseCertCompAlgs [] = Inr []"
| "parseCertCompAlgs (name # names) =
     (case (if name = ''brotli'' then Some 2 else if name = ''zlib'' then Some 1 else if name = ''zstd'' then Some 3 else None) of
        None \<Rightarrow> Inl (UnknownCertCompression name)
      | Some a \<Rightarrow> (case parseCertCompAlgs names of Inl e \<Rightarrow> Inl e | Inr as \<Rightarrow> Inr (a # as)))"

definition opt_or :: "'a \<Rightarrow> 'a option \<Rightarrow> 'a" where
  "opt_or d x = (case x of None \<Rightarrow> d | Some v \<Rightarrow> v)"

definition buildJA3Extras :: "JA3ExtrasSpec \<Rightarrow> build_error + JA3Extras" where
  "buildJA3Extras spec =
     (case parseCertCompAlgs (js_CertCompression spec) of
        Inl e \<Rightarrow> Inl e
      | Inr algs \<Rightarrow>
          Inr \<lparr>SignatureAlgorithms = js_SignatureAlgorithms spec,
               DelegatedCredentialAlgorithms =
                 (if js_DelegatedCredentialAlgorithms spec = [] then None else Some (js_DelegatedCredentialAlgorithms spec)),
               ALPN = js_ALPN spec, CertCompAlgs = algs,
               PermuteExtensions = opt_or False (js_PermuteExtensions spec),
               RecordSizeLimit = opt_or 0 (js_RecordSizeLimit spec),
               KeyShareCurves = opt_or 0 (js_KeyShareCurves spec)\<rparr>)"

definition no_extras_spec :: JA3ExtrasSpec where
  "no_extras_spec =
     \<lparr>js_SignatureAlgorithms = [], js_DelegatedCredentialAlgorithms = [], js_ALPN = [], js_CertCompression = [],
      js_PermuteExtensions = None, js_RecordSizeLimit = None, js_KeyShareCurves = None\<rparr>"

definition buildJA3ExtrasFromTLS :: "TLSSpec \<Rightarrow> build_error + JA3Extras option" where
  "buildJA3ExtrasFromTLS spec =
     (if ts_Inline spec = no_extras_spec then Inr None
      else case buildJA3Extras (ts_Inline spec) of Inl e \<Rightarrow> Inl e | Inr x \<Rightarrow> Inr (Some x))"

text \<open>The ids of resumption and of QUIC, each only when it is given.\<close>

definition set_other_hellos :: "hello_ids \<Rightarrow> TLSSpec \<Rightarrow> Preset \<Rightarrow> build_error + Preset" where
  "set_other_hellos ids spec p =
     (case (if ts_PSKClientHello spec = '''' then Inr (pr_PSKClientHelloID p)
            else ResolveClientHelloID ids ''psk'' (ts_PSKClientHello spec)) of
        Inl e \<Rightarrow> Inl e
      | Inr psk \<Rightarrow>
     (case (if ts_QUICClientHello spec = '''' then Inr (pr_QUICClientHelloID p)
            else ResolveClientHelloID ids ''quic'' (ts_QUICClientHello spec)) of
        Inl e \<Rightarrow> Inl e
      | Inr quic \<Rightarrow>
     (case (if ts_QUICPSKClientHello spec = '''' then Inr (pr_QUICPSKClientHelloID p)
            else ResolveClientHelloID ids ''quic_psk'' (ts_QUICPSKClientHello spec)) of
        Inl e \<Rightarrow> Inl e
      | Inr quic_psk \<Rightarrow>
          Inr (p\<lparr>pr_PSKClientHelloID := psk, pr_QUICClientHelloID := quic, pr_QUICPSKClientHelloID := quic_psk\<rparr>))))"

definition applyTLS :: "hello_ids \<Rightarrow> TLSSpec \<Rightarrow> Preset \<Rightarrow> build_error + Preset" where
  "applyTLS ids spec p =
     (if ts_JA3 spec \<noteq> '''' then
        let p1 = p\<lparr>pr_JA3 := ts_JA3 spec, pr_ClientHelloID := no_hello, pr_PSKClientHelloID := no_hello,
                   pr_QUICClientHelloID := no_hello, pr_QUICPSKClientHelloID := no_hello\<rparr> in
        (case ts_JA3Extras spec of
           Some x \<Rightarrow>
             (case buildJA3Extras x of Inl e \<Rightarrow> Inl e | Inr extras \<Rightarrow> Inr (p1\<lparr>pr_JA3Extras := Some extras\<rparr>))
         | None \<Rightarrow>
             (case buildJA3ExtrasFromTLS spec of
                Inl e \<Rightarrow> Inl e
              | Inr None \<Rightarrow> Inr p1
              | Inr (Some extras) \<Rightarrow> Inr (p1\<lparr>pr_JA3Extras := Some extras\<rparr>)))
      else if ts_ClientHello spec \<noteq> '''' then
        (case ResolveClientHelloID ids '''' (ts_ClientHello spec) of
           Inl e \<Rightarrow> Inl e
         | Inr i \<Rightarrow> set_other_hellos ids spec (p\<lparr>pr_JA3 := '''', pr_JA3Extras := None, pr_ClientHelloID := i\<rparr>))
      else set_other_hellos ids spec p)"

section \<open>HTTP/2\<close>

text \<open>The entries of the \<open>settings\<close> list, ids without meaning dropped.\<close>

definition apply_setting_spec :: "u16 \<times> u32 \<Rightarrow> HTTP2Settings \<Rightarrow> HTTP2Settings" where
  "apply_setting_spec = (\<lambda>(sid, v) s.
     if sid = 1 then s\<lparr>HeaderTableSize := v\<rparr>
     else if sid = 2 then s\<lparr>EnablePush := (v \<noteq> 0)\<rparr>
     else if sid = 3 then s\<lparr>MaxConcurrentStreams := v\<rparr>
     else if sid = 4 then s\<lparr>InitialWindowSize := v\<rparr>
     else if sid = 5 then s\<lparr>MaxFrameSize := v\<rparr>
     else if sid = 6 then s\<lparr>MaxHeaderListSize := v\<rparr>
     else if sid = 9 then s\<lparr>NoRFC7540Priorities := (v \<noteq> 0)\<rparr>
     else s)"

text \<open>What the Akamai string has said of a setting.\<close>

definition akamai_seen :: "AkamaiPresence option \<Rightarrow> nat \<Rightarrow> bool" where
  "akamai_seen ak sid = (case ak of None \<Rightarrow> False | Some a \<Rightarrow> sid \<in> set (SeenSettings a))"

definition akamai_window :: "AkamaiPresence option \<Rightarrow> bool" where
  "akamai_window ak = (case ak of None \<Rightarrow> False | Some a \<Rightarrow> HasWindowUpdate a)"

definition akamai_weight :: "AkamaiPresence option \<Rightarrow> bool" where
  "akamai_weight ak = (case ak of None \<Rightarrow> False | Some a \<Rightarrow> HasStreamWeight a)"

definition akamai_pseudo :: "AkamaiPresence option \<Rightarrow> string list" where
  "akamai_pseudo ak = (case ak of None \<Rightarrow> [] | Some a \<Rightarrow> PseudoOrder a)"

text \<open>The fields of the specification, but those that the Akamai string sets.\<close>

definition unless :: "bool \<Rightarrow> 'a option \<Rightarrow> 'a option" where
  "unless b x = (if b then None else x)"

definition apply_setting_fields :: "AkamaiPresence option \<Rightarrow> HTTP2Spec \<Rightarrow> HTTP2Settings \<Rightarrow> HTTP2Settings" where
  "apply_setting_fields ak spec s =
     \<lparr>HeaderTableSize = opt_or (HeaderTableSize s) (unless (akamai_seen ak 1) (h2s_HeaderTableSize spec)),
      EnablePush = opt_or (EnablePush s) (unless (akamai_seen ak 2) (h2s_EnablePush spec)),
      MaxConcurrentStreams = opt_or (MaxConcurrentStreams s) (unless (akamai_seen ak 3) (h2s_MaxConcurrentStreams spec)),
      InitialWindowSize = opt_or (InitialWindowSize s) (unless (akamai_seen ak 4) (h2s_InitialWindowSize spec)),
      MaxFrameSize = opt_or (MaxFrameSize s) (unless (akamai_seen ak 5) (h2s_MaxFrameSize spec)),
      MaxHeaderListSize = opt_or (MaxHeaderListSize s) (unless (akamai_seen ak 6) (h2s_MaxHeaderListSize spec)),
      ConnectionWindowUpdate = opt_or (ConnectionWindowUpdate s) (unless (akamai_window ak) (h2s_ConnectionWindowUpdate spec)),
      StreamWeight = opt_or (StreamWeight s) (unless (akamai_weight ak) (h2s_StreamWeight spec)),
      StreamExclusive = opt_or (StreamExclusive s) (unless (akamai_weight ak) (h2s_StreamExclusive spec)),
      NoRFC7540Priorities = opt_or (NoRFC7540Priorities s) (unless (akamai_seen ak 9) (h2s_NoRFC7540Priorities spec))\<rparr>"

definition apply_akamai :: "AkamaiPresence option \<Rightarrow> HTTP2Settings \<Rightarrow> HTTP2Settings" where
  "apply_akamai ak s =
     (case ak of
        None \<Rightarrow> s
      | Some a \<Rightarrow>
          \<lparr>HeaderTableSize = (if akamai_seen ak 1 then HeaderTableSize (ap_Settings a) else HeaderTableSize s),
           EnablePush = (if akamai_seen ak 2 then EnablePush (ap_Settings a) else EnablePush s),
           MaxConcurrentStreams = (if akamai_seen ak 3 then MaxConcurrentStreams (ap_Settings a) else MaxConcurrentStreams s),
           InitialWindowSize = (if akamai_seen ak 4 then InitialWindowSize (ap_Settings a) else InitialWindowSize s),
           MaxFrameSize = (if akamai_seen ak 5 then MaxFrameSize (ap_Settings a) else MaxFrameSize s),
           MaxHeaderListSize = (if akamai_seen ak 6 then MaxHeaderListSize (ap_Settings a) else MaxHeaderListSize s),
           ConnectionWindowUpdate =
             (if akamai_window ak then ConnectionWindowUpdate (ap_Settings a) else ConnectionWindowUpdate s),
           StreamWeight = (if akamai_weight ak then StreamWeight (ap_Settings a) else StreamWeight s),
           StreamExclusive = (if akamai_weight ak then StreamExclusive (ap_Settings a) else StreamExclusive s),
           NoRFC7540Priorities = (if akamai_seen ak 9 then NoRFC7540Priorities (ap_Settings a) else NoRFC7540Priorities s)\<rparr>)"

text \<open>The orders and policies; a configuration is made when one of them is given.\<close>

definition gives_h2_config :: "AkamaiPresence option \<Rightarrow> HTTP2Spec \<Rightarrow> bool" where
  "gives_h2_config ak spec \<longleftrightarrow>
     akamai_pseudo ak \<noteq> [] \<or> h2s_SettingsOrder spec \<noteq> None \<or> h2s_PseudoOrder spec \<noteq> None \<or> h2s_HPACKHeaderOrder spec \<noteq> None \<or>
     h2s_HPACKIndexingPolicy spec \<noteq> None \<or> h2s_HPACKNeverIndex spec \<noteq> None \<or> h2s_StreamPriorityMode spec \<noteq> None \<or>
     h2s_DisableCookieSplit spec \<noteq> None \<or> h2s_PriorityTable spec \<noteq> None"

definition override :: "'a option \<Rightarrow> 'a option \<Rightarrow> 'a option" where
  "override old new = (case new of None \<Rightarrow> old | Some v \<Rightarrow> Some v)"

definition apply_h2_config :: "AkamaiPresence option \<Rightarrow> HTTP2Spec \<Rightarrow> H2FingerprintConfig \<Rightarrow> H2FingerprintConfig" where
  "apply_h2_config ak spec c =
     \<lparr>h2c_HPACKHeaderOrder = override (h2c_HPACKHeaderOrder c) (h2s_HPACKHeaderOrder spec),
      h2c_HPACKIndexingPolicy = opt_or (h2c_HPACKIndexingPolicy c) (h2s_HPACKIndexingPolicy spec),
      h2c_HPACKNeverIndex = override (h2c_HPACKNeverIndex c) (h2s_HPACKNeverIndex spec),
      h2c_StreamPriorityMode = opt_or (h2c_StreamPriorityMode c) (h2s_StreamPriorityMode spec),
      h2c_DisableCookieSplit = override (h2c_DisableCookieSplit c) (h2s_DisableCookieSplit spec),
      h2c_SettingsOrder = override (h2c_SettingsOrder c) (h2s_SettingsOrder spec),
      h2c_PseudoHeaderOrder =
        (if akamai_pseudo ak \<noteq> [] then Some (akamai_pseudo ak)
         else override (h2c_PseudoHeaderOrder c) (h2s_PseudoOrder spec)),
      h2c_PriorityTable = opt_or (h2c_PriorityTable c) (h2s_PriorityTable spec)\<rparr>"

definition applyHTTP2 :: "HTTP2Spec \<Rightarrow> Preset \<Rightarrow> build_error + Preset" where
  "applyHTTP2 spec p =
     (case (if h2s_Akamai spec = '''' then Inr None
            else case ParseAkamaiDetailed (h2s_Akamai spec) of Inl e \<Rightarrow> Inl e | Inr a \<Rightarrow> Inr (Some a)) of
        Inl e \<Rightarrow> Inl (BadAkamai e)
      | Inr ak \<Rightarrow>
          Inr (p\<lparr>pr_HTTP2Settings :=
                   fold apply_setting_spec (h2s_Settings spec) (apply_akamai ak (apply_setting_fields ak spec (pr_HTTP2Settings p))),
                 pr_H2Config :=
                   (if pr_H2Config p = None \<and> \<not> gives_h2_config ak spec then None
                    else Some (apply_h2_config ak spec (opt_or no_h2_config (pr_H2Config p))))\<rparr>))"

section \<open>HTTP/3, headers, TCP and protocols\<close>

definition applyHTTP3 :: "HTTP3Spec \<Rightarrow> Preset \<Rightarrow> Preset" where
  "applyHTTP3 spec p =
     (let c = opt_or no_h3_config (pr_H3Config p) in
      p\<lparr>pr_H3Config := Some
          \<lparr>h3c_QPACKMaxTableCapacity = override (h3c_QPACKMaxTableCapacity c) (h3s_QPACKMaxTableCapacity spec),
           h3c_QPACKBlockedStreams = override (h3c_QPACKBlockedStreams c) (h3s_QPACKBlockedStreams spec),
           h3c_MaxFieldSectionSize = override (h3c_MaxFieldSectionSize c) (h3s_MaxFieldSectionSize spec),
           h3c_EnableDatagrams = override (h3c_EnableDatagrams c) (h3s_EnableDatagrams spec),
           h3c_QUICInitialPacketSize = override (h3c_QUICInitialPacketSize c) (h3s_QUICInitialPacketSize spec),
           h3c_QUICMaxIncomingStreams = override (h3c_QUICMaxIncomingStreams c) (h3s_QUICMaxIncomingStreams spec),
           h3c_QUICMaxIncomingUniStreams = override (h3c_QUICMaxIncomingUniStreams c) (h3s_QUICMaxIncomingUniStreams spec),
           h3c_QUICAllow0RTT = override (h3c_QUICAllow0RTT c) (h3s_QUICAllow0RTT spec),
           h3c_QUICChromeStyleInitial = override (h3c_QUICChromeStyleInitial c) (h3s_QUICChromeStyleInitial spec),
           h3c_QUICDisableHelloScramble = override (h3c_QUICDisableHelloScramble c) (h3s_QUICDisableHelloScramble spec),
           h3c_QUICTransportParamOrder = opt_or (h3c_QUICTransportParamOrder c) (h3s_QUICTransportParamOrder spec),
           h3c_QUICConnectionIDLength = override (h3c_QUICConnectionIDLength c) (h3s_QUICConnectionIDLength spec),
           h3c_QUICMaxDatagramFrameSize = override (h3c_QUICMaxDatagramFrameSize c) (h3s_QUICMaxDatagramFrameSize spec),
           h3c_MaxResponseHeaderBytes = override (h3c_MaxResponseHeaderBytes c) (h3s_MaxResponseHeaderBytes spec),
           h3c_SendGreaseFrames = override (h3c_SendGreaseFrames c) (h3s_SendGreaseFrames spec),
           h3c_QUICInitialStreamReceiveWindow =
             override (h3c_QUICInitialStreamReceiveWindow c) (h3s_QUICInitialStreamReceiveWindow spec),
           h3c_QUICInitialConnectionReceiveWindow =
             override (h3c_QUICInitialConnectionReceiveWindow c) (h3s_QUICInitialConnectionReceiveWindow spec)\<rparr>\<rparr>)"

definition applyHeaders :: "HeaderSpec \<Rightarrow> Preset \<Rightarrow> Preset" where
  "applyHeaders spec p =
     p\<lparr>pr_UserAgent := (if hs_UserAgent spec \<noteq> '''' then hs_UserAgent spec else pr_UserAgent p),
       pr_Headers := fold (\<lambda>(k, v). AList.update k v) (hs_Values spec) (pr_Headers p),
       pr_HeaderOrder := (if hs_Order spec \<noteq> [] then hs_Order spec else pr_HeaderOrder p)\<rparr>"

definition WindowsTCPFingerprint :: TCPFingerprint where
  "WindowsTCPFingerprint =
     \<lparr>tcp_TTL = 128, tcp_MSS = 1460, tcp_WindowSize = 64240, tcp_WindowScale = 8, tcp_DFBit = True\<rparr>"

definition LinuxTCPFingerprint :: TCPFingerprint where
  "LinuxTCPFingerprint =
     \<lparr>tcp_TTL = 64, tcp_MSS = 1460, tcp_WindowSize = 65535, tcp_WindowScale = 7, tcp_DFBit = True\<rparr>"

definition MacOSTCPFingerprint :: TCPFingerprint where
  "MacOSTCPFingerprint =
     \<lparr>tcp_TTL = 64, tcp_MSS = 1460, tcp_WindowSize = 65535, tcp_WindowScale = 6, tcp_DFBit = True\<rparr>"

definition PlatformTCPFingerprint :: "string \<Rightarrow> TCPFingerprint" where
  "PlatformTCPFingerprint platform =
     (if platform = ''Windows'' then WindowsTCPFingerprint
      else if platform = ''macOS'' then MacOSTCPFingerprint else LinuxTCPFingerprint)"

definition applyTCP :: "TCPSpec \<Rightarrow> Preset \<Rightarrow> build_error + Preset" where
  "applyTCP spec p =
     (if cs_Platform spec \<notin> {'''', ''Windows'', ''macOS'', ''Linux''} then Inl (UnknownPlatform (cs_Platform spec))
      else
        let t = (if cs_Platform spec = '''' then pr_TCPFingerprint p else PlatformTCPFingerprint (cs_Platform spec)) in
        Inr (p\<lparr>pr_TCPFingerprint :=
          \<lparr>tcp_TTL = opt_or (tcp_TTL t) (cs_TTL spec), tcp_MSS = opt_or (tcp_MSS t) (cs_MSS spec),
           tcp_WindowSize = opt_or (tcp_WindowSize t) (cs_WindowSize spec),
           tcp_WindowScale = opt_or (tcp_WindowScale t) (cs_WindowScale spec),
           tcp_DFBit = opt_or (tcp_DFBit t) (cs_DFBit spec)\<rparr>\<rparr>))"

definition applyProtocols :: "ProtocolSpec \<Rightarrow> Preset \<Rightarrow> Preset" where
  "applyProtocols spec p = p\<lparr>pr_SupportHTTP3 := opt_or (pr_SupportHTTP3 p) (os_HTTP3 spec)\<rparr>"

section \<open>Building\<close>

text \<open>The checks at the end, in their order: the first that fails is the result.\<close>

definition validate_tls :: "Preset \<Rightarrow> TLSSpec \<Rightarrow> build_error option" where
  "validate_tls p t =
     (let has_primary = ci_Client (pr_ClientHelloID p) \<noteq> '''' \<or> pr_JA3 p \<noteq> '''';
          ja3_mode = pr_JA3 p \<noteq> '''' in
      if ts_JA3 t \<noteq> '''' \<and> ts_ClientHello t \<noteq> '''' then Some JA3AndHello
      else if \<not> has_primary \<and> ts_PSKClientHello t \<noteq> '''' then Some (NoPrimaryHello ''psk_client_hello'')
      else if \<not> has_primary \<and> ts_QUICClientHello t \<noteq> '''' then Some (NoPrimaryHello ''quic_client_hello'')
      else if \<not> has_primary \<and> ts_QUICPSKClientHello t \<noteq> '''' then Some (NoPrimaryHello ''quic_psk_client_hello'')
      else if ja3_mode \<and> ts_QUICClientHello t \<noteq> '''' then Some (NotWithJA3 ''quic_client_hello'')
      else if ja3_mode \<and> ts_QUICPSKClientHello t \<noteq> '''' then Some (NotWithJA3 ''quic_psk_client_hello'')
      else if ja3_mode \<and> ts_PSKClientHello t \<noteq> '''' then Some (NotWithJA3 ''psk_client_hello'')
      else if ts_JA3Extras t \<noteq> None \<and> ts_JA3 t = '''' then Some ExtrasWithoutJA3
      else if (js_SignatureAlgorithms (ts_Inline t) \<noteq> [] \<or> js_ALPN (ts_Inline t) \<noteq> [] \<or>
               js_CertCompression (ts_Inline t) \<noteq> [] \<or> js_PermuteExtensions (ts_Inline t) \<noteq> None \<or>
               js_RecordSizeLimit (ts_Inline t) \<noteq> None) \<and> ts_JA3 t = '''' \<and> ts_ClientHello t \<noteq> ''''
        then Some ExtensionsWithHello
      else None)"

definition validate_http2 :: "HTTP2Spec \<Rightarrow> build_error option" where
  "validate_http2 h =
     (case h2s_HPACKIndexingPolicy h of
        Some v \<Rightarrow>
          if v \<in> {''chrome'', ''never'', ''always'', ''default''} then
            (case h2s_StreamPriorityMode h of
               Some w \<Rightarrow> if w \<in> {''chrome'', ''default''} then None else Some (BadPriorityMode w)
             | None \<Rightarrow> None)
          else Some (BadIndexingPolicy v)
      | None \<Rightarrow>
          (case h2s_StreamPriorityMode h of
             Some w \<Rightarrow> if w \<in> {''chrome'', ''default''} then None else Some (BadPriorityMode w)
           | None \<Rightarrow> None))"

definition validate_http3 :: "HTTP3Spec \<Rightarrow> build_error option" where
  "validate_http3 h =
     (case h3s_QUICTransportParamOrder h of
        Some v \<Rightarrow> if v \<in> {''chrome'', ''random''} then None else Some (BadParamOrder v)
      | None \<Rightarrow> None)"

definition first_error :: "'e option \<Rightarrow> 'e option \<Rightarrow> 'e option" where
  "first_error a b = (case a of Some e \<Rightarrow> Some e | None \<Rightarrow> b)"

definition validatePreset :: "Preset \<Rightarrow> PresetSpec \<Rightarrow> build_error option" where
  "validatePreset p spec =
     first_error (Option.bind (sp_TLS spec) (validate_tls p))
       (first_error (Option.bind (sp_HTTP2 spec) validate_http2) (Option.bind (sp_HTTP3 spec) validate_http3))"

text \<open>A section of the specification, when there is one.\<close>

definition step_with :: "('s \<Rightarrow> Preset \<Rightarrow> build_error + Preset) \<Rightarrow> 's option \<Rightarrow> build_error + Preset \<Rightarrow> build_error + Preset" where
  "step_with f s r = (case r of Inl e \<Rightarrow> Inl e | Inr p \<Rightarrow> (case s of None \<Rightarrow> Inr p | Some x \<Rightarrow> f x p))"

definition apply_sections :: "hello_ids \<Rightarrow> PresetSpec \<Rightarrow> Preset \<Rightarrow> build_error + Preset" where
  "apply_sections ids spec p =
     step_with (\<lambda>s q. Inr (applyProtocols s q)) (sp_Protocol spec)
       (step_with applyTCP (sp_TCP spec)
         (step_with (\<lambda>s q. Inr (applyHeaders s q)) (sp_Headers spec)
           (step_with (\<lambda>s q. Inr (applyHTTP3 s q)) (sp_HTTP3 spec)
             (step_with applyHTTP2 (sp_HTTP2 spec)
               (step_with (applyTLS ids) (sp_TLS spec) (Inr p))))))"

definition base_preset :: "builtins \<Rightarrow> registry \<Rightarrow> string \<Rightarrow> build_error + Preset" where
  "base_preset tab reg based_on =
     (if based_on = '''' then Inr zero_preset
      else case GetStrict tab reg based_on of None \<Rightarrow> Inl (UnknownBase based_on) | Some p \<Rightarrow> Inr p)"

text \<open>\<open>shuffle\<close> is the shuffle of uTLS, which the check of the JA3 string may reach.\<close>

definition BuildPreset ::
  "(tls_extension list \<Rightarrow> tls_extension list) \<Rightarrow> hello_ids \<Rightarrow> builtins \<Rightarrow> registry \<Rightarrow> PresetSpec option \<Rightarrow> build_error + Preset" where
  "BuildPreset shuffle ids tab reg ospec =
     (case ospec of
        None \<Rightarrow> Inl SpecIsNil
      | Some spec \<Rightarrow>
          (case (if sp_BasedOn spec \<noteq> '''' \<and> sp_Name spec \<noteq> '''' then inheritance_loop reg [sp_Name spec] (sp_BasedOn spec) else None) of
             Some name \<Rightarrow> Inl (InheritanceLoop name)
           | None \<Rightarrow>
          (case (case sp_TLS spec of
                   None \<Rightarrow> None
                 | Some t \<Rightarrow>
                     if ts_JA3 t = '''' then None
                     else case ParseJA3 shuffle (ts_JA3 t) None of Inl e \<Rightarrow> Some e | Inr _ \<Rightarrow> None) of
             Some e \<Rightarrow> Inl (NotJA3 e)
           | None \<Rightarrow>
          (case base_preset tab reg (sp_BasedOn spec) of
             Inl e \<Rightarrow> Inl e
           | Inr base \<Rightarrow>
          (case apply_sections ids spec
              (base\<lparr>pr_Name := (if sp_Name spec \<noteq> '''' then sp_Name spec else pr_Name base), pr_BasedOn := sp_BasedOn spec\<rparr>) of
             Inl e \<Rightarrow> Inl e
           | Inr p \<Rightarrow> (case validatePreset p spec of Some e \<Rightarrow> Inl e | None \<Rightarrow> Inr p))))))"

text \<open>A preset file: its preset, or its pool.\<close>

record PoolSpec =
  ps_Name :: string
  ps_Strategy :: string
  ps_Presets :: "PresetSpec list"

record PresetFile =
  pf_Version :: int
  pf_Preset :: "PresetSpec option"
  pf_Pool :: "PoolSpec option"

text \<open>\<open>LoadAndBuildPreset\<close> and its variant for JSON, after decoding: \<open>None\<close> is a file without a preset.\<close>

definition LoadAndBuildPreset ::
  "(tls_extension list \<Rightarrow> tls_extension list) \<Rightarrow> hello_ids \<Rightarrow> builtins \<Rightarrow> registry \<Rightarrow> PresetFile \<Rightarrow> (build_error + Preset) option" where
  "LoadAndBuildPreset shuffle ids tab reg pf =
     (if pf_Preset pf = None then None else Some (BuildPreset shuffle ids tab reg (pf_Preset pf)))"

text \<open>
  The embedded presets, registered one after the other when the program starts: those files that could
  be read and parsed, in the order of their names. What cannot be built is left out.
\<close>

definition load_embedded :: "(registry \<Rightarrow> PresetSpec \<Rightarrow> build_error + Preset) \<Rightarrow> PresetFile list \<Rightarrow> registry \<Rightarrow> registry" where
  "load_embedded build files reg =
     fold (\<lambda>pf r. case pf_Preset pf of
         None \<Rightarrow> r
       | Some spec \<Rightarrow> (case build r spec of Inl e \<Rightarrow> r | Inr p \<Rightarrow> Register (pr_Name p) (Some p) r)) files reg"

section \<open>Which source of a setting wins\<close>

text \<open>Settings by their ids, as numbers.\<close>

definition flag :: "bool \<Rightarrow> nat" where
  "flag b = (if b then 1 else 0)"

definition setting_value :: "nat \<Rightarrow> HTTP2Settings \<Rightarrow> nat" where
  "setting_value sid s =
     (if sid = 1 then unat (HeaderTableSize s) else if sid = 2 then flag (EnablePush s)
      else if sid = 3 then unat (MaxConcurrentStreams s) else if sid = 4 then unat (InitialWindowSize s)
      else if sid = 5 then unat (MaxFrameSize s) else if sid = 6 then unat (MaxHeaderListSize s)
      else if sid = 9 then flag (NoRFC7540Priorities s) else 0)"

definition field_value :: "nat \<Rightarrow> HTTP2Spec \<Rightarrow> nat option" where
  "field_value sid h =
     (if sid = 1 then map_option unat (h2s_HeaderTableSize h) else if sid = 2 then map_option flag (h2s_EnablePush h)
      else if sid = 3 then map_option unat (h2s_MaxConcurrentStreams h)
      else if sid = 4 then map_option unat (h2s_InitialWindowSize h)
      else if sid = 5 then map_option unat (h2s_MaxFrameSize h) else if sid = 6 then map_option unat (h2s_MaxHeaderListSize h)
      else if sid = 9 then map_option flag (h2s_NoRFC7540Priorities h) else None)"

definition list_value :: "nat \<Rightarrow> (u16 \<times> u32) list \<Rightarrow> nat option" where
  "list_value sid xs =
     map_option (\<lambda>v. if sid \<in> {2, 9} then flag (v \<noteq> 0) else unat v) (map_of (rev (map (\<lambda>(i, v). (unat i, v)) xs)) sid)"

definition akamai_of :: "HTTP2Spec \<Rightarrow> AkamaiPresence option" where
  "akamai_of h =
     (if h2s_Akamai h = '''' then None
      else case ParseAkamaiDetailed (h2s_Akamai h) of Inl e \<Rightarrow> None | Inr a \<Rightarrow> Some a)"

lemma setting_value_step:
  assumes "sid \<in> {1, 2, 3, 4, 5, 6, 9}"
  shows "setting_value sid (apply_setting_spec (i, v) s) =
    (if unat i = sid then (if sid \<in> {2, 9} then flag (v \<noteq> 0) else unat v) else setting_value sid s)"
proof -
  have e: "unat i = m \<longleftrightarrow> i = of_nat m" if "m < 65536" for m
    using that by (auto simp: unat_of_nat)
  show ?thesis using assms e [of 1] e [of 2] e [of 3] e [of 4] e [of 5] e [of 6] e [of 9]
    by (auto simp: apply_setting_spec_def setting_value_def)
qed

lemma setting_value_list:
  assumes "sid \<in> {1, 2, 3, 4, 5, 6, 9}"
  shows "setting_value sid (fold apply_setting_spec xs s) = opt_or (setting_value sid s) (list_value sid xs)"
proof (induction xs rule: rev_induct)
  case Nil
  then show ?case by (simp add: list_value_def opt_or_def)
next
  case (snoc x xs)
  obtain i v where x: "x = (i, v)" by (cases x)
  show ?case
    unfolding fold_append comp_apply fold_simps x setting_value_step [OF assms] snoc
    by (simp add: list_value_def opt_or_def)
qed

lemma setting_value_fields:
  "sid \<in> {1, 2, 3, 4, 5, 6, 9} \<Longrightarrow>
   setting_value sid (apply_akamai ak (apply_setting_fields ak h s)) =
   (if akamai_seen ak sid then setting_value sid (ap_Settings (the ak))
    else opt_or (setting_value sid s) (field_value sid h))"
  by (cases ak)
    (auto simp: setting_value_def field_value_def apply_akamai_def apply_setting_fields_def akamai_seen_def opt_or_def
      unless_def split: option.splits)

text \<open>The sections touch different parts of a preset.\<close>

lemma step_with_Inr: "step_with f s r = Inr p \<longleftrightarrow> (\<exists>q. r = Inr q \<and> (case s of None \<Rightarrow> p = q | Some x \<Rightarrow> f x q = Inr p))"
  by (auto simp: step_with_def split: sum.splits option.splits)

lemma step_with_source: "step_with f s r = Inr p \<Longrightarrow> \<exists>q. r = Inr q \<and> step_with f s (Inr q) = Inr p"
  by (auto simp: step_with_def split: sum.splits)

text \<open>A part of a preset that a section does not touch.\<close>

lemma step_with_view:
  assumes "step_with f s r = Inr x" "\<forall>s a b. f s a = Inr b \<longrightarrow> view b = view a"
  shows "\<exists>b. r = Inr b \<and> view x = view b"
  using assms by (auto simp: step_with_Inr split: option.splits)

lemma applyTLS_keeps:
  assumes "applyTLS ids t p = Inr q"
  shows "pr_HTTP2Settings q = pr_HTTP2Settings p \<and> pr_H2Config q = pr_H2Config p \<and> pr_H3Config q = pr_H3Config p \<and>
    pr_Name q = pr_Name p \<and> pr_BasedOn q = pr_BasedOn p \<and> pr_TCPFingerprint q = pr_TCPFingerprint p \<and>
    pr_SupportHTTP3 q = pr_SupportHTTP3 p \<and> pr_UserAgent q = pr_UserAgent p \<and> pr_Headers q = pr_Headers p \<and>
    pr_HeaderOrder q = pr_HeaderOrder p"
  using assms
  by (auto simp: applyTLS_def set_other_hellos_def Let_def split: if_splits sum.splits option.splits)

lemma applyHTTP2_result:
  "applyHTTP2 h p = Inr q \<longleftrightarrow>
   (h2s_Akamai h = '''' \<or> (\<exists>a. ParseAkamaiDetailed (h2s_Akamai h) = Inr a)) \<and>
   q = p\<lparr>pr_HTTP2Settings :=
           fold apply_setting_spec (h2s_Settings h) (apply_akamai (akamai_of h) (apply_setting_fields (akamai_of h) h (pr_HTTP2Settings p))),
         pr_H2Config :=
           (if pr_H2Config p = None \<and> \<not> gives_h2_config (akamai_of h) h then None
            else Some (apply_h2_config (akamai_of h) h (opt_or no_h2_config (pr_H2Config p))))\<rparr>"
  by (auto simp: applyHTTP2_def akamai_of_def split: sum.splits if_splits)

lemma applyTCP_keeps: "applyTCP t p = Inr q \<Longrightarrow> \<exists>fp. q = p\<lparr>pr_TCPFingerprint := fp\<rparr>"
  by (auto simp: applyTCP_def Let_def split: if_splits)

lemma apply_sections_http2:
  assumes "apply_sections ids spec p = Inr q" "sp_HTTP2 spec = Some h"
  shows "\<exists>p' q'. pr_HTTP2Settings p' = pr_HTTP2Settings p \<and> pr_H2Config p' = pr_H2Config p \<and> applyHTTP2 h p' = Inr q' \<and>
    pr_HTTP2Settings q = pr_HTTP2Settings q' \<and> pr_H2Config q = pr_H2Config q'"
proof -
  have t: "step_with (applyTLS ids) (sp_TLS spec) (Inr p) = Inr p' \<Longrightarrow>
      pr_HTTP2Settings p' = pr_HTTP2Settings p \<and> pr_H2Config p' = pr_H2Config p" for p'
    using applyTLS_keeps by (fastforce simp: step_with_Inr split: option.splits)
  have c: "step_with applyTCP s (Inr x) = Inr y \<Longrightarrow> pr_HTTP2Settings y = pr_HTTP2Settings x \<and> pr_H2Config y = pr_H2Config x" for s x y
    by (auto simp: step_with_Inr applyTCP_def Let_def split: option.splits if_splits)
  from assms(1) obtain y where q: "step_with (\<lambda>s q. Inr (applyProtocols s q)) (sp_Protocol spec) (Inr y) = Inr q"
    and y1: "step_with applyTCP (sp_TCP spec) (step_with (\<lambda>s q. Inr (applyHeaders s q)) (sp_Headers spec)
      (step_with (\<lambda>s q. Inr (applyHTTP3 s q)) (sp_HTTP3 spec) (step_with applyHTTP2 (sp_HTTP2 spec)
        (step_with (applyTLS ids) (sp_TLS spec) (Inr p))))) = Inr y"
    unfolding apply_sections_def by (blast dest: step_with_source)
  from y1 obtain x where y: "step_with applyTCP (sp_TCP spec) (Inr x) = Inr y"
    and x1: "step_with (\<lambda>s q. Inr (applyHeaders s q)) (sp_Headers spec)
      (step_with (\<lambda>s q. Inr (applyHTTP3 s q)) (sp_HTTP3 spec) (step_with applyHTTP2 (sp_HTTP2 spec)
        (step_with (applyTLS ids) (sp_TLS spec) (Inr p)))) = Inr x"
    by (blast dest: step_with_source)
  from x1 obtain w where x: "step_with (\<lambda>s q. Inr (applyHeaders s q)) (sp_Headers spec) (Inr w) = Inr x"
    and w1: "step_with (\<lambda>s q. Inr (applyHTTP3 s q)) (sp_HTTP3 spec) (step_with applyHTTP2 (sp_HTTP2 spec)
        (step_with (applyTLS ids) (sp_TLS spec) (Inr p))) = Inr w"
    by (blast dest: step_with_source)
  from w1 obtain b where w: "step_with (\<lambda>s q. Inr (applyHTTP3 s q)) (sp_HTTP3 spec) (Inr b) = Inr w"
    and b1: "step_with applyHTTP2 (sp_HTTP2 spec) (step_with (applyTLS ids) (sp_TLS spec) (Inr p)) = Inr b"
    by (blast dest: step_with_source)
  from b1 obtain a where b: "applyHTTP2 h a = Inr b" and a: "step_with (applyTLS ids) (sp_TLS spec) (Inr p) = Inr a"
    using assms(2) by (auto simp: step_with_Inr)
  have "pr_HTTP2Settings w = pr_HTTP2Settings b \<and> pr_H2Config w = pr_H2Config b"
    using w by (auto simp: step_with_Inr applyHTTP3_def Let_def split: option.splits)
  moreover have "pr_HTTP2Settings x = pr_HTTP2Settings w \<and> pr_H2Config x = pr_H2Config w"
    using x by (auto simp: step_with_Inr applyHeaders_def split: option.splits)
  moreover have "pr_HTTP2Settings q = pr_HTTP2Settings y \<and> pr_H2Config q = pr_H2Config y"
    using q by (auto simp: step_with_Inr applyProtocols_def split: option.splits)
  ultimately show ?thesis using t [OF a] b c [OF y] by auto
qed

definition named_base :: "PresetSpec \<Rightarrow> Preset \<Rightarrow> Preset" where
  "named_base spec base =
     base\<lparr>pr_Name := (if sp_Name spec \<noteq> '''' then sp_Name spec else pr_Name base), pr_BasedOn := sp_BasedOn spec\<rparr>"

lemma BuildPreset_built:
  assumes "BuildPreset shuffle ids tab reg (Some spec) = Inr p"
  obtains base where "base_preset tab reg (sp_BasedOn spec) = Inr base"
    and "apply_sections ids spec (named_base spec base) = Inr p" and "validatePreset p spec = None"
    and "sp_BasedOn spec \<noteq> '''' \<Longrightarrow> sp_Name spec \<noteq> '''' \<Longrightarrow> inheritance_loop reg [sp_Name spec] (sp_BasedOn spec) = None"
  using assms unfolding BuildPreset_def named_base_def
  by (auto split: option.splits sum.splits if_splits)

text \<open>C30.
  For every HTTP/2 setting that a specification can set there is one order of precedence, whatever the
  specification holds: the last entry of the \<open>settings\<close> list with its id, then the Akamai string, then
  the field of its own, then the preset it is based on. The same holds of the window update (which
  has no entry in the list) and the order of the pseudo-headers.
\<close>
theorem http2_precedence:
  assumes "BuildPreset shuffle ids tab reg (Some spec) = Inr p"
    and "base_preset tab reg (sp_BasedOn spec) = Inr base" and "sp_HTTP2 spec = Some h"
    and "sid \<in> {1, 2, 3, 4, 5, 6, 9}"
  shows "setting_value sid (pr_HTTP2Settings p) =
      (case list_value sid (h2s_Settings h) of
         Some v \<Rightarrow> v
       | None \<Rightarrow>
           if akamai_seen (akamai_of h) sid then setting_value sid (ap_Settings (the (akamai_of h)))
           else (case field_value sid h of Some v \<Rightarrow> v | None \<Rightarrow> setting_value sid (pr_HTTP2Settings base))) \<and>
    ConnectionWindowUpdate (pr_HTTP2Settings p) =
      (if akamai_window (akamai_of h) then ConnectionWindowUpdate (ap_Settings (the (akamai_of h)))
       else (case h2s_ConnectionWindowUpdate h of Some v \<Rightarrow> v | None \<Rightarrow> ConnectionWindowUpdate (pr_HTTP2Settings base))) \<and>
    H2PseudoHeaderOrder p =
      (if akamai_pseudo (akamai_of h) \<noteq> [] then Some (akamai_pseudo (akamai_of h))
       else (case h2s_PseudoOrder h of Some order \<Rightarrow> Some order | None \<Rightarrow> H2PseudoHeaderOrder base))"
proof -
  from assms(1,2) have "apply_sections ids spec (named_base spec base) = Inr p"
    by (auto elim: BuildPreset_built)
  from apply_sections_http2 [OF this assms(3)] obtain a b where a: "pr_HTTP2Settings a = pr_HTTP2Settings base"
    "pr_H2Config a = pr_H2Config base" and b: "applyHTTP2 h a = Inr b"
    and p: "pr_HTTP2Settings p = pr_HTTP2Settings b" "pr_H2Config p = pr_H2Config b"
    by (auto simp: named_base_def)
  have s: "pr_HTTP2Settings p = fold apply_setting_spec (h2s_Settings h)
      (apply_akamai (akamai_of h) (apply_setting_fields (akamai_of h) h (pr_HTTP2Settings base)))"
    and c: "pr_H2Config p = (if pr_H2Config base = None \<and> \<not> gives_h2_config (akamai_of h) h then None
            else Some (apply_h2_config (akamai_of h) h (opt_or no_h2_config (pr_H2Config base))))"
    using b p a by (auto simp: applyHTTP2_result)
  have w: "ConnectionWindowUpdate (fold apply_setting_spec xs t) = ConnectionWindowUpdate t" for xs t
    by (induction xs arbitrary: t) (auto simp: apply_setting_spec_def)
  show ?thesis
  proof (intro conjI)
    show "setting_value sid (pr_HTTP2Settings p) = (case list_value sid (h2s_Settings h) of Some v \<Rightarrow> v
       | None \<Rightarrow> if akamai_seen (akamai_of h) sid then setting_value sid (ap_Settings (the (akamai_of h)))
           else (case field_value sid h of Some v \<Rightarrow> v | None \<Rightarrow> setting_value sid (pr_HTTP2Settings base)))"
      unfolding s setting_value_list [OF assms(4)] setting_value_fields [OF assms(4)]
      by (simp add: opt_or_def split: option.split)
    show "ConnectionWindowUpdate (pr_HTTP2Settings p) = (if akamai_window (akamai_of h)
       then ConnectionWindowUpdate (ap_Settings (the (akamai_of h)))
       else (case h2s_ConnectionWindowUpdate h of Some v \<Rightarrow> v | None \<Rightarrow> ConnectionWindowUpdate (pr_HTTP2Settings base)))"
      unfolding s w by (cases "akamai_of h")
        (simp_all add: apply_akamai_def apply_setting_fields_def akamai_window_def opt_or_def unless_def split: option.split)
    show "H2PseudoHeaderOrder p = (if akamai_pseudo (akamai_of h) \<noteq> [] then Some (akamai_pseudo (akamai_of h))
       else (case h2s_PseudoOrder h of Some order \<Rightarrow> Some order | None \<Rightarrow> H2PseudoHeaderOrder base))"
      by (cases "pr_H2Config base")
        (auto simp: H2PseudoHeaderOrder_def c apply_h2_config_def gives_h2_config_def opt_or_def no_h2_config_def override_def
          split: option.splits)
  qed
qed

section \<open>One way of making hellos\<close>

text \<open>
  A preset makes its client hellos in one of two ways: from a JA3 string, and then there are no
  hello ids, or from the ids, and then there are no extras to a JA3 string.
\<close>

definition one_mode :: "Preset \<Rightarrow> bool" where
  "one_mode p \<longleftrightarrow>
     (if pr_JA3 p \<noteq> '''' then
        pr_ClientHelloID p = no_hello \<and> pr_PSKClientHelloID p = no_hello \<and> pr_QUICClientHelloID p = no_hello \<and>
        pr_QUICPSKClientHelloID p = no_hello
      else pr_JA3Extras p = None)"

text \<open>What the other sections leave of a preset: everything that makes its hellos.\<close>

definition hellos :: "Preset \<Rightarrow> string \<times> JA3Extras option \<times> ClientHelloID list" where
  "hellos p = (pr_JA3 p, pr_JA3Extras p,
     [pr_ClientHelloID p, pr_PSKClientHelloID p, pr_QUICClientHelloID p, pr_QUICPSKClientHelloID p])"

lemma one_mode_hellos: "hellos p = hellos q \<Longrightarrow> one_mode p = one_mode q"
  by (simp add: hellos_def one_mode_def)

text \<open>A part of a preset that only the TLS section touches.\<close>

lemma apply_sections_view:
  assumes "apply_sections ids spec p = Inr q"
    and "\<forall>s a b. (Inr (applyProtocols s a) :: build_error + Preset) = Inr b \<longrightarrow> view b = view a"
    and "\<forall>s a b. applyTCP s a = Inr b \<longrightarrow> view b = view a"
    and "\<forall>s a b. (Inr (applyHeaders s a) :: build_error + Preset) = Inr b \<longrightarrow> view b = view a"
    and "\<forall>s a b. (Inr (applyHTTP3 s a) :: build_error + Preset) = Inr b \<longrightarrow> view b = view a"
    and "\<forall>s a b. applyHTTP2 s a = Inr b \<longrightarrow> view b = view a"
  shows "\<exists>a. step_with (applyTLS ids) (sp_TLS spec) (Inr p) = Inr a \<and> view q = view a"
proof -
  from step_with_view [OF assms(1) [unfolded apply_sections_def] assms(2)] obtain e where e: "step_with applyTCP (sp_TCP spec)
         (step_with (\<lambda>s q. Inr (applyHeaders s q)) (sp_Headers spec)
           (step_with (\<lambda>s q. Inr (applyHTTP3 s q)) (sp_HTTP3 spec)
             (step_with applyHTTP2 (sp_HTTP2 spec) (step_with (applyTLS ids) (sp_TLS spec) (Inr p))))) = Inr e"
    "view q = view e" by blast
  from step_with_view [OF e(1) assms(3)] obtain d where d: "step_with (\<lambda>s q. Inr (applyHeaders s q)) (sp_Headers spec)
           (step_with (\<lambda>s q. Inr (applyHTTP3 s q)) (sp_HTTP3 spec)
             (step_with applyHTTP2 (sp_HTTP2 spec) (step_with (applyTLS ids) (sp_TLS spec) (Inr p)))) = Inr d"
    "view e = view d" by blast
  from step_with_view [OF d(1) assms(4)] obtain c where c: "step_with (\<lambda>s q. Inr (applyHTTP3 s q)) (sp_HTTP3 spec)
             (step_with applyHTTP2 (sp_HTTP2 spec) (step_with (applyTLS ids) (sp_TLS spec) (Inr p))) = Inr c"
    "view d = view c" by blast
  from step_with_view [OF c(1) assms(5)] obtain b where b: "step_with applyHTTP2 (sp_HTTP2 spec) (step_with (applyTLS ids) (sp_TLS spec) (Inr p)) = Inr b"
    "view c = view b" by blast
  from step_with_view [OF b(1) assms(6)] e(2) d(2) c(2) b(2) show ?thesis by auto
qed

lemma apply_sections_hellos:
  assumes "apply_sections ids spec p = Inr q"
  shows "\<exists>a. step_with (applyTLS ids) (sp_TLS spec) (Inr p) = Inr a \<and> hellos q = hellos a"
  using assms by (rule apply_sections_view)
    (auto simp: hellos_def applyProtocols_def applyHeaders_def applyHTTP3_def applyHTTP2_result Let_def dest!: applyTCP_keeps)

lemma one_mode_sections:
  assumes "one_mode p" "apply_sections ids spec p = Inr q" "validatePreset q spec = None"
  shows "one_mode q"
proof -
  obtain a where a: "step_with (applyTLS ids) (sp_TLS spec) (Inr p) = Inr a" "hellos q = hellos a"
    using apply_sections_hellos [OF assms(2)] by blast
  have v: "validate_tls q t = None" if "sp_TLS spec = Some t" for t
    using assms(3) that by (auto simp: validatePreset_def first_error_def split: option.splits)
  have "one_mode a"
  proof (cases "sp_TLS spec")
    case None
    with a assms(1) show ?thesis by (simp add: step_with_Inr)
  next
    case (Some t)
    with a have t: "applyTLS ids t p = Inr a" by (simp add: step_with_Inr)
    have j: "pr_JA3 a = pr_JA3 q" using a(2) by (simp add: hellos_def)
    from v [OF Some] have w: "pr_JA3 a \<noteq> '''' \<Longrightarrow> ts_PSKClientHello t = '''' \<and> ts_QUICClientHello t = '''' \<and> ts_QUICPSKClientHello t = ''''"
      unfolding j by (auto simp: validate_tls_def Let_def split: if_splits)
    from t w assms(1) show ?thesis
      by (auto simp: applyTLS_def set_other_hellos_def one_mode_def Let_def split: if_splits sum.splits option.splits)
  qed
  with one_mode_hellos [OF a(2)] show ?thesis by simp
qed


section \<open>Inheritance has no cycles\<close>

definition parent :: "registry \<Rightarrow> string \<Rightarrow> string \<Rightarrow> bool" where
  "parent reg a b \<longleftrightarrow> b \<noteq> '''' \<and> map_option pr_BasedOn (map_of reg a) = Some b"

definition no_cycles :: "registry \<Rightarrow> bool" where
  "no_cycles reg \<longleftrightarrow> (\<forall>x. \<not> (parent reg)\<^sup>+\<^sup>+ x x)"

lemma parent_star_cases:
  assumes "(parent reg)\<^sup>*\<^sup>* a x"
  shows "x = a \<or> (\<exists>b. parent reg a b \<and> (parent reg)\<^sup>*\<^sup>* b x)"
  using assms by (cases rule: converse_rtranclpE) auto

lemma loop_None_sound:
  "inheritance_loop reg visited cur = None \<Longrightarrow> cur \<noteq> '''' \<Longrightarrow> (parent reg)\<^sup>*\<^sup>* cur x \<Longrightarrow> x \<notin> set visited"
proof (induction reg visited cur rule: inheritance_loop.induct)
  case (1 reg visited cur)
  have cur: "cur \<notin> set visited" using 1(2,3) by (subst (asm) inheritance_loop.simps) (auto split: if_splits)
  from parent_star_cases [OF 1(4)] show ?case
  proof
    assume "\<exists>b. parent reg cur b \<and> (parent reg)\<^sup>*\<^sup>* b x"
    then obtain cp where cp: "map_of reg cur = Some cp" "pr_BasedOn cp \<noteq> ''''" "(parent reg)\<^sup>*\<^sup>* (pr_BasedOn cp) x"
      by (auto simp: parent_def)
    have "inheritance_loop reg (cur # visited) (pr_BasedOn cp) = None"
      using 1(2,3) cur cp(1) by (subst (asm) inheritance_loop.simps) simp
    from 1(1) [OF 1(3) cur cp(1) this cp(2,3)] show ?thesis by simp
  qed (use cur in simp)
qed

lemma loop_None_complete:
  "no_cycles reg \<Longrightarrow> \<forall>x. (parent reg)\<^sup>*\<^sup>* cur x \<longrightarrow> x \<notin> set visited \<Longrightarrow> inheritance_loop reg visited cur = None"
proof (induction reg visited cur rule: inheritance_loop.induct)
  case (1 reg visited cur)
  show ?case
  proof (cases "cur = '''' \<or> map_of reg cur = None")
    case True
    with 1(3) show ?thesis by (subst inheritance_loop.simps) auto
  next
    case False
    then obtain cp where cp: "cur \<noteq> ''''" "map_of reg cur = Some cp" by auto
    have cur: "cur \<notin> set visited" using 1(3) by auto
    have "inheritance_loop reg (cur # visited) (pr_BasedOn cp) = None"
    proof (cases "pr_BasedOn cp = ''''")
      case False
      with cp have p: "parent reg cur (pr_BasedOn cp)" by (simp add: parent_def)
      have "x \<noteq> cur" if "(parent reg)\<^sup>*\<^sup>* (pr_BasedOn cp) x" for x
        using 1(2) p that unfolding no_cycles_def by (metis rtranclp_into_tranclp2)
      moreover have "x \<notin> set visited" if "(parent reg)\<^sup>*\<^sup>* (pr_BasedOn cp) x" for x
        using 1(3) p that by (meson converse_rtranclp_into_rtranclp)
      ultimately show ?thesis by (intro 1(1) [OF cp(1) cur cp(2) 1(2)]) auto
    qed (simp add: inheritance_loop.simps)
    with cp cur show ?thesis by (subst inheritance_loop.simps) simp
  qed
qed

lemma parent_update:
  "parent (AList.update n p reg) a b \<longleftrightarrow> (if a = n then b \<noteq> '''' \<and> pr_BasedOn p = b else parent reg a b)"
  by (auto simp: parent_def update_conv')

lemma no_cycles_update:
  assumes "no_cycles reg" "pr_BasedOn p \<noteq> '''' \<Longrightarrow> \<not> (parent reg)\<^sup>*\<^sup>* (pr_BasedOn p) n"
  shows "no_cycles (AList.update n p reg)"
proof -
  have path: "(parent reg)\<^sup>+\<^sup>+ x y \<or> ((parent reg)\<^sup>*\<^sup>* x n \<and> pr_BasedOn p \<noteq> '''' \<and> (parent reg)\<^sup>*\<^sup>* (pr_BasedOn p) y)"
    if "(parent (AList.update n p reg))\<^sup>+\<^sup>+ x y" for x y
    using that
  proof (induction rule: tranclp_induct)
    case (base y)
    then show ?case by (auto simp: parent_update split: if_splits)
  next
    case (step y z)
    from step.hyps(2) have z: "if y = n then z \<noteq> '''' \<and> pr_BasedOn p = z else parent reg y z" by (simp only: parent_update)
    from step.IH show ?case
    proof
      assume "(parent reg)\<^sup>+\<^sup>+ x y"
      with z show ?case by (auto split: if_splits intro: tranclp.trancl_into_trancl tranclp_into_rtranclp)
    next
      assume r: "(parent reg)\<^sup>*\<^sup>* x n \<and> pr_BasedOn p \<noteq> '''' \<and> (parent reg)\<^sup>*\<^sup>* (pr_BasedOn p) y"
      with assms(2) have "y \<noteq> n" by auto
      with z r show ?case by (auto intro: rtranclp.rtrancl_into_rtrancl)
    qed
  qed
  have "\<not> (parent (AList.update n p reg))\<^sup>+\<^sup>+ x x" for x
  proof
    assume "(parent (AList.update n p reg))\<^sup>+\<^sup>+ x x"
    from path [OF this] assms show False unfolding no_cycles_def by (meson rtranclp_trans)
  qed
  then show ?thesis by (simp add: no_cycles_def)
qed

lemma apply_sections_names:
  assumes "apply_sections ids spec p = Inr q"
  shows "pr_Name q = pr_Name p \<and> pr_BasedOn q = pr_BasedOn p"
proof -
  let ?v = "\<lambda>p. (pr_Name p, pr_BasedOn p)"
  have "\<exists>a. step_with (applyTLS ids) (sp_TLS spec) (Inr p) = Inr a \<and> ?v q = ?v a"
    using assms by (rule apply_sections_view)
      (auto simp: applyProtocols_def applyHeaders_def applyHTTP3_def applyHTTP2_result Let_def dest!: applyTCP_keeps)
  then show ?thesis using applyTLS_keeps by (fastforce simp: step_with_Inr split: option.splits)
qed

lemma no_error_bind: "r \<noteq> Inl e \<Longrightarrow> (\<And>a. f a \<noteq> Inl e) \<Longrightarrow> (case r of Inl d \<Rightarrow> Inl d | Inr a \<Rightarrow> f a) \<noteq> Inl e"
  by (cases r) auto

lemma certs_no_loop: "parseCertCompAlgs names \<noteq> Inl (InheritanceLoop x)"
  by (induction names) (auto split: sum.splits option.splits)

lemma applyTLS_no_loop: "applyTLS ids t p \<noteq> Inl (InheritanceLoop x)"
proof -
  have r: "ResolveClientHelloID ids pre name \<noteq> Inl (InheritanceLoop x)" for pre name
    by (simp add: ResolveClientHelloID_def split: option.split)
  have o: "set_other_hellos ids t q \<noteq> Inl (InheritanceLoop x)" for q
    unfolding set_other_hellos_def by (intro no_error_bind) (auto simp: r)
  have b: "buildJA3Extras s \<noteq> Inl (InheritanceLoop x)" for s
    unfolding buildJA3Extras_def by (intro no_error_bind certs_no_loop) simp
  have "buildJA3ExtrasFromTLS t \<noteq> Inl (InheritanceLoop x)"
    unfolding buildJA3ExtrasFromTLS_def by (simp add: no_error_bind b)
  then show ?thesis
    unfolding applyTLS_def Let_def
    by (simp add: no_error_bind o b r split: option.split)
qed

lemma apply_sections_no_loop: "apply_sections ids spec p \<noteq> Inl (InheritanceLoop x)"
proof -
  have s: "step_with f s r \<noteq> Inl (InheritanceLoop x)" if "r \<noteq> Inl (InheritanceLoop x)" "\<And>s a. f s a \<noteq> Inl (InheritanceLoop x)" for f s r
    using that by (auto simp: step_with_def split: sum.splits option.splits)
  show ?thesis
    unfolding apply_sections_def
    by (intro s applyTLS_no_loop) (auto simp: applyHTTP2_def applyTCP_def Let_def split: sum.splits if_splits)
qed

lemma validate_no_loop: "validatePreset p spec \<noteq> Some (InheritanceLoop x)"
proof -
  have "validate_tls p t \<noteq> Some (InheritanceLoop x)" for t by (simp add: validate_tls_def Let_def)
  moreover have "validate_http2 h \<noteq> Some (InheritanceLoop x)" for h by (simp add: validate_http2_def split: option.split)
  moreover have "validate_http3 h \<noteq> Some (InheritanceLoop x)" for h by (simp add: validate_http3_def split: option.split)
  ultimately show ?thesis
    by (cases "sp_TLS spec"; cases "sp_HTTP2 spec"; cases "sp_HTTP3 spec")
      (auto simp: validatePreset_def first_error_def split: option.splits)
qed

lemma loop_check:
  assumes "no_cycles reg"
  shows "inheritance_loop reg [sp_Name spec] (sp_BasedOn spec) = None \<longleftrightarrow>
    sp_BasedOn spec = [] \<or> \<not> (parent reg)\<^sup>*\<^sup>* (sp_BasedOn spec) (sp_Name spec)"
proof (cases "sp_BasedOn spec = []")
  case True
  then show ?thesis by (simp add: inheritance_loop.simps)
next
  case False
  with loop_None_sound [of reg "[sp_Name spec]" "sp_BasedOn spec" "sp_Name spec"]
    loop_None_complete [OF assms(1), of "sp_BasedOn spec" "[sp_Name spec]"]
  show ?thesis by (simp, metis)
qed

lemma built_no_cycles:
  assumes "no_cycles reg" "sp_Name spec \<noteq> []" "BuildPreset shuffle ids tab reg (Some spec) = Inr p"
  shows "no_cycles (Register (pr_Name p) (Some p) reg)"
proof -
  from assms(3) obtain base where b: "apply_sections ids spec (named_base spec base) = Inr p"
    "sp_BasedOn spec \<noteq> [] \<Longrightarrow> sp_Name spec \<noteq> [] \<Longrightarrow> inheritance_loop reg [sp_Name spec] (sp_BasedOn spec) = None"
    by (rule BuildPreset_built) blast
  from apply_sections_names [OF b(1)] assms(2) have p: "pr_Name p = sp_Name spec" "pr_BasedOn p = sp_BasedOn spec"
    by (auto simp: named_base_def)
  have "no_cycles (AList.update (pr_Name p) p reg)"
    using assms b(2) loop_check [OF assms(1)] by (intro no_cycles_update) (auto simp: p)
  then show ?thesis by (simp add: Register_def)
qed

text \<open>So the embedded presets, which have names, make no cycle.\<close>

lemma load_embedded_no_cycles:
  "no_cycles reg \<Longrightarrow> \<forall>pf \<in> set files. \<forall>spec. pf_Preset pf = Some spec \<longrightarrow> sp_Name spec \<noteq> [] \<Longrightarrow>
   no_cycles (load_embedded (\<lambda>r spec. BuildPreset shuffle ids tab r (Some spec)) files reg)"
proof (induction files arbitrary: reg)
  case (Cons pf files)
  have "no_cycles (case pf_Preset pf of None \<Rightarrow> reg
      | Some spec \<Rightarrow> (case BuildPreset shuffle ids tab reg (Some spec) of Inl e \<Rightarrow> reg | Inr p \<Rightarrow> Register (pr_Name p) (Some p) reg))"
    using Cons.prems built_no_cycles by (auto split: option.split sum.split)
  with Cons show ?case by (simp add: load_embedded_def)
qed (simp add: load_embedded_def)


text \<open>
  The check is made only for specifications with a name. One without takes the name of its base: when
  the base is built in, it is registered over its own base, and it then inherits from itself. After
  that every specification based on it is refused.
\<close>

definition bare_spec :: "string \<Rightarrow> string \<Rightarrow> PresetSpec" where
  "bare_spec name based_on =
     \<lparr>sp_Name = name, sp_BasedOn = based_on, sp_TLS = None, sp_HTTP2 = None, sp_HTTP3 = None, sp_Headers = None,
      sp_TCP = None, sp_Protocol = None\<rparr>"

definition one_builtin :: builtins where
  "one_builtin reg name = (if name = ''b'' then Some (zero_preset\<lparr>pr_Name := ''b''\<rparr>) else None)"

lemma bare_built:
  "base_preset tab reg based_on = Inr base \<Longrightarrow> (name \<noteq> '''' \<Longrightarrow> inheritance_loop reg [name] based_on = None) \<Longrightarrow>
   BuildPreset shuffle ids tab reg (Some (bare_spec name based_on)) = Inr (named_base (bare_spec name based_on) base)"
  by (simp add: BuildPreset_def bare_spec_def apply_sections_def step_with_def validatePreset_def first_error_def named_base_def)

lemma unnamed_preset_inherits_from_itself:
  assumes "BuildPreset shuffle ids one_builtin [] (Some (bare_spec '''' ''b'')) = Inr p"
  shows "pr_Name p = ''b'' \<and> parent (Register (pr_Name p) (Some p) []) ''b'' ''b'' \<and>
    BuildPreset shuffle ids one_builtin (Register (pr_Name p) (Some p) []) (Some (bare_spec ''c'' ''b'')) = Inl (InheritanceLoop ''b'')"
proof -
  have "base_preset one_builtin [] ''b'' = Inr (zero_preset\<lparr>pr_Name := ''b''\<rparr>)"
    by (simp add: base_preset_def GetStrict_def LookupCustom_def one_builtin_def)
  from bare_built [OF this, of "[]"] assms have p: "pr_Name p = ''b''" "pr_BasedOn p = ''b''"
    by (auto simp: named_base_def bare_spec_def)
  then have "inheritance_loop [(''b'', p)] [''c''] ''b'' = Some ''b''"
    by (simp add: inheritance_loop.simps)
  with p show ?thesis
    by (simp add: Register_def parent_def BuildPreset_def bare_spec_def)
qed

section \<open>Examples\<close>

definition h2_section :: HTTP2Spec where
  "h2_section =
     \<lparr>h2s_Akamai = '''', h2s_HeaderTableSize = Some 1, h2s_EnablePush = Some True,
      h2s_MaxConcurrentStreams = Some 100, h2s_InitialWindowSize = Some 2, h2s_MaxFrameSize = None, h2s_MaxHeaderListSize = None,
      h2s_ConnectionWindowUpdate = Some 3, h2s_StreamWeight = None, h2s_StreamExclusive = None, h2s_NoRFC7540Priorities = None,
      h2s_Settings = [(4, 7)], h2s_SettingsOrder = None, h2s_PseudoOrder = Some ['':method'', '':path''], h2s_HPACKHeaderOrder = None,
      h2s_HPACKIndexingPolicy = None, h2s_HPACKNeverIndex = None, h2s_StreamPriorityMode = None, h2s_DisableCookieSplit = None,
      h2s_PriorityTable = None\<rparr>"

definition h2_spec :: PresetSpec where
  "h2_spec = (bare_spec ''a'' ''b'')\<lparr>sp_HTTP2 := Some h2_section\<rparr>"

lemma h2_spec_built: "case BuildPreset id [] one_builtin [] (Some h2_spec) of Inl _ \<Rightarrow> False | Inr _ \<Rightarrow> True"
  by (simp add: BuildPreset_def h2_spec_def bare_spec_def inheritance_loop.simps base_preset_def GetStrict_def LookupCustom_def
      one_builtin_def apply_sections_def step_with_def applyHTTP2_def h2_section_def validatePreset_def validate_http2_def
      first_error_def)

theorem http2_precedence_witness:
  "\<exists>p. BuildPreset id [] one_builtin [] (Some h2_spec) = Inr p \<and> setting_value 1 (pr_HTTP2Settings p) = 1 \<and>
     setting_value 3 (pr_HTTP2Settings p) = 100 \<and> setting_value 4 (pr_HTTP2Settings p) = 7 \<and>
     H2PseudoHeaderOrder p = Some ['':method'', '':path'']"
proof -
  obtain p where p: "BuildPreset id [] one_builtin [] (Some h2_spec) = Inr p"
    using h2_spec_built by (auto split: sum.splits)
  have b: "base_preset one_builtin [] (sp_BasedOn h2_spec) = Inr (zero_preset\<lparr>pr_Name := ''b''\<rparr>)" by code_simp
  have h: "sp_HTTP2 h2_spec = Some h2_section" by (simp add: h2_spec_def)
  note pre = http2_precedence [OF p b h]
  have a: "akamai_of h2_section = None" by (simp add: akamai_of_def h2_section_def)
  have v: "list_value 1 (h2s_Settings h2_section) = None" "list_value 3 (h2s_Settings h2_section) = None"
    "list_value 4 (h2s_Settings h2_section) = Some 7" "field_value 1 h2_section = Some 1" "field_value 3 h2_section = Some 100"
    "h2s_PseudoOrder h2_section = Some ['':method'', '':path'']"
    by (simp_all add: list_value_def field_value_def h2_section_def)
  show ?thesis using p pre [of 1] pre [of 3] pre [of 4] v by (auto simp: a akamai_seen_def akamai_pseudo_def)
qed


text \<open>Two registered presets, the second based on the first: the first cannot be based on the second.\<close>

definition chain_registry :: registry where
  "chain_registry = [(''a'', zero_preset\<lparr>pr_Name := ''a''\<rparr>), (''c'', zero_preset\<lparr>pr_Name := ''c'', pr_BasedOn := ''a''\<rparr>)]"


text \<open>
  A child that names only its client hello keeps the hellos for resumption and for QUIC of its base,
  so that its hellos imitate two browsers.
\<close>

lemma child_keeps_psk_hello:
  assumes "applyTLS ids t p = Inr q" "ts_JA3 t = ''''" "ts_ClientHello t \<noteq> ''''" "ts_PSKClientHello t = ''''"
  shows "pr_PSKClientHelloID q = pr_PSKClientHelloID p \<and>
    (ts_QUICClientHello t = '''' \<longrightarrow> pr_QUICClientHelloID q = pr_QUICClientHelloID p)"
  using assms by (auto simp: applyTLS_def set_other_hellos_def split: sum.splits if_splits)

text \<open>
  The fields that supplement a JA3 string are checked against a client hello but not on their own: in a
  child of a JA3 preset they are silently without effect.
\<close>

lemma extras_without_ja3_ignored:
  assumes "ts_JA3 t = ''''" "ts_ClientHello t = ''''" "ts_PSKClientHello t = ''''" "ts_QUICClientHello t = ''''"
    "ts_QUICPSKClientHello t = ''''" "ts_JA3Extras t = None"
  shows "applyTLS ids t p = Inr p \<and> validate_tls p t = None"
  using assms by (simp add: applyTLS_def set_other_hellos_def validate_tls_def Let_def)

end
