(* ===== verification/DescribePreset.thy ===== *)
theory DescribePreset
  imports CustomPreset
begin

text \<open>
  Presets back to specifications, \<open>fingerprint/describe.go\<close>, with the names of client hello ids of
  \<open>fingerprint/client_hello_ids.go\<close>. A specification that describes a preset is written as JSON and may
  be loaded again; the main theorem is that the preset it gives then has the same fingerprint.
\<close>

section \<open>Names of client hello ids\<close>

text \<open>The inverse of the table: names that do not end in \<open>-auto\<close> come first, the last one wins.\<close>

definition is_auto :: "string \<Rightarrow> bool" where
  "is_auto name \<longleftrightarrow> has_suffix name ''-auto''"

definition inverse_ids :: "hello_ids \<Rightarrow> (ClientHelloID, string) gomap" where
  "inverse_ids ids =
     fold (\<lambda>(name, i) m. if \<not> is_auto name \<or> i = no_hello \<or> map_of m i \<noteq> None then m else AList.update i name m) ids
       (fold (\<lambda>(name, i) m. if is_auto name \<or> i = no_hello then m else AList.update i name m) ids [])"

definition ClientHelloIDName :: "hello_ids \<Rightarrow> ClientHelloID \<Rightarrow> string option" where
  "ClientHelloIDName ids i = (if i = no_hello then None else map_of (inverse_ids ids) i)"

section \<open>Flattening\<close>

definition certCompAlgsToNames :: "u16 list \<Rightarrow> string list" where
  "certCompAlgsToNames algs =
     concat (map (\<lambda>a. if a = 2 then [''brotli''] else if a = 1 then [''zlib''] else if a = 3 then [''zstd''] else []) algs)"

definition flattenJA3Extras :: "JA3Extras \<Rightarrow> JA3ExtrasSpec" where
  "flattenJA3Extras e =
     \<lparr>js_SignatureAlgorithms = SignatureAlgorithms e,
      js_DelegatedCredentialAlgorithms = opt_or [] (DelegatedCredentialAlgorithms e),
      js_ALPN = ALPN e, js_CertCompression = certCompAlgsToNames (CertCompAlgs e),
      js_PermuteExtensions = (if PermuteExtensions e then Some True else None),
      js_RecordSizeLimit = (if RecordSizeLimit e \<noteq> 0 then Some (RecordSizeLimit e) else None),
      js_KeyShareCurves = (if KeyShareCurves e \<noteq> 0 then Some (KeyShareCurves e) else None)\<rparr>"

datatype describe_error = PresetNotRegistered string | UnregisteredHello string

definition hello_name :: "hello_ids \<Rightarrow> string \<Rightarrow> ClientHelloID \<Rightarrow> describe_error + string" where
  "hello_name ids which i =
     (if i = no_hello then Inr ''''
      else case ClientHelloIDName ids i of None \<Rightarrow> Inl (UnregisteredHello which) | Some name \<Rightarrow> Inr name)"

definition flattenTLS :: "hello_ids \<Rightarrow> Preset \<Rightarrow> describe_error + TLSSpec option" where
  "flattenTLS ids p =
     (if pr_JA3 p \<noteq> '''' then
        Inr (Some \<lparr>ts_ClientHello = '''', ts_PSKClientHello = '''', ts_QUICClientHello = '''', ts_QUICPSKClientHello = '''',
                   ts_JA3 = pr_JA3 p, ts_JA3Extras = map_option flattenJA3Extras (pr_JA3Extras p), ts_Inline = no_extras_spec\<rparr>)
      else
        (case hello_name ids ''ClientHelloID'' (pr_ClientHelloID p) of
           Inl e \<Rightarrow> Inl e
         | Inr hello \<Rightarrow>
        (case hello_name ids ''PSKClientHelloID'' (pr_PSKClientHelloID p) of
           Inl e \<Rightarrow> Inl e
         | Inr psk \<Rightarrow>
        (case hello_name ids ''QUICClientHelloID'' (pr_QUICClientHelloID p) of
           Inl e \<Rightarrow> Inl e
         | Inr quic \<Rightarrow>
        (case hello_name ids ''QUICPSKClientHelloID'' (pr_QUICPSKClientHelloID p) of
           Inl e \<Rightarrow> Inl e
         | Inr quic_psk \<Rightarrow>
             Inr (if hello = '''' then None
                  else Some \<lparr>ts_ClientHello = hello, ts_PSKClientHello = psk, ts_QUICClientHello = quic,
                             ts_QUICPSKClientHello = quic_psk, ts_JA3 = '''', ts_JA3Extras = None,
                             ts_Inline = no_extras_spec\<rparr>))))))"

definition flattenHeaders :: "Preset \<Rightarrow> HeaderSpec option" where
  "flattenHeaders p =
     (if pr_UserAgent p = '''' \<and> pr_Headers p = [] \<and> pr_HeaderOrder p = [] then None
      else Some \<lparr>hs_UserAgent = pr_UserAgent p, hs_Values = pr_Headers p, hs_Order = pr_HeaderOrder p\<rparr>)"

text \<open>\<open>append([]T(nil), xs...)\<close>: nil for an empty list.\<close>

definition copied :: "'a list \<Rightarrow> 'a list option" where
  "copied xs = (if xs = [] then None else Some xs)"

definition flattenHTTP2 :: "Preset \<Rightarrow> HTTP2Spec" where
  "flattenHTTP2 p =
     (let s = pr_HTTP2Settings p in
      \<lparr>h2s_Akamai = '''', h2s_HeaderTableSize = Some (HeaderTableSize s), h2s_EnablePush = Some (EnablePush s),
       h2s_MaxConcurrentStreams = Some (MaxConcurrentStreams s), h2s_InitialWindowSize = Some (InitialWindowSize s),
       h2s_MaxFrameSize = Some (MaxFrameSize s), h2s_MaxHeaderListSize = Some (MaxHeaderListSize s),
       h2s_ConnectionWindowUpdate = Some (ConnectionWindowUpdate s), h2s_StreamWeight = Some (StreamWeight s),
       h2s_StreamExclusive = Some (StreamExclusive s), h2s_NoRFC7540Priorities = Some (NoRFC7540Priorities s),
       h2s_Settings = [], h2s_SettingsOrder = Option.bind (H2SettingsOrder p) copied,
       h2s_PseudoOrder = Option.bind (H2PseudoHeaderOrder p) copied, h2s_HPACKHeaderOrder = copied (H2HeaderOrder p),
       h2s_HPACKIndexingPolicy = Some (H2HPACKIndexingPolicy p), h2s_HPACKNeverIndex = copied (H2HPACKNeverIndex p),
       h2s_StreamPriorityMode = Some (H2StreamPriorityMode p), h2s_DisableCookieSplit = Some (H2DisableCookieSplit p),
       h2s_PriorityTable =
         (if own_priority_table p \<noteq> [] then Some (own_priority_table p)
          else if \<not> NoRFC7540Priorities s then Some defaultPriorityTable else None)\<rparr>)"

definition flattenHTTP3 :: "Preset \<Rightarrow> HTTP3Spec" where
  "flattenHTTP3 p =
     \<lparr>h3s_QPACKMaxTableCapacity = Some (H3QPACKMaxTableCapacity p), h3s_QPACKBlockedStreams = Some (H3QPACKBlockedStreams p),
      h3s_MaxFieldSectionSize = Some (H3MaxFieldSectionSize p), h3s_EnableDatagrams = Some (H3EnableDatagrams p),
      h3s_QUICInitialPacketSize = Some (H3QUICInitialPacketSize p),
      h3s_QUICMaxIncomingStreams = Some (H3QUICMaxIncomingStreams p),
      h3s_QUICMaxIncomingUniStreams = Some (H3QUICMaxIncomingUniStreams p),
      h3s_QUICAllow0RTT = Some (H3QUICAllow0RTT p), h3s_QUICChromeStyleInitial = Some (H3QUICChromeStyleInitial p),
      h3s_QUICDisableHelloScramble = Some (H3QUICDisableHelloScramble p),
      h3s_QUICTransportParamOrder = Some (H3QUICTransportParamOrder p),
      h3s_QUICConnectionIDLength = Some (H3QUICConnectionIDLength p),
      h3s_QUICMaxDatagramFrameSize = Some (H3QUICMaxDatagramFrameSize p),
      h3s_MaxResponseHeaderBytes = Some (H3MaxResponseHeaderBytes p), h3s_SendGreaseFrames = Some (H3SendGreaseFrames p),
      h3s_QUICInitialStreamReceiveWindow = Option.bind (pr_H3Config p) h3c_QUICInitialStreamReceiveWindow,
      h3s_QUICInitialConnectionReceiveWindow = Option.bind (pr_H3Config p) h3c_QUICInitialConnectionReceiveWindow\<rparr>"

definition flattenTCP :: "Preset \<Rightarrow> TCPSpec option" where
  "flattenTCP p =
     (let t = pr_TCPFingerprint p in
      if t = no_tcp then None
      else Some \<lparr>cs_Platform = '''', cs_TTL = Some (tcp_TTL t), cs_MSS = Some (tcp_MSS t),
                 cs_WindowSize = Some (tcp_WindowSize t), cs_WindowScale = Some (tcp_WindowScale t),
                 cs_DFBit = Some (tcp_DFBit t)\<rparr>)"

definition flattenToSpec :: "hello_ids \<Rightarrow> Preset \<Rightarrow> describe_error + PresetSpec" where
  "flattenToSpec ids p =
     (case flattenTLS ids p of
        Inl e \<Rightarrow> Inl e
      | Inr tls \<Rightarrow>
          Inr \<lparr>sp_Name = pr_Name p, sp_BasedOn = '''', sp_TLS = tls, sp_HTTP2 = Some (flattenHTTP2 p),
               sp_HTTP3 = (if pr_SupportHTTP3 p then Some (flattenHTTP3 p) else None),
               sp_Headers = flattenHeaders p, sp_TCP = flattenTCP p,
               sp_Protocol = Some \<lparr>os_HTTP3 = Some (pr_SupportHTTP3 p)\<rparr>\<rparr>)"

text \<open>\<open>Describe\<close>, up to the encoding as JSON.\<close>

definition Describe :: "hello_ids \<Rightarrow> builtins \<Rightarrow> registry \<Rightarrow> string \<Rightarrow> describe_error + PresetFile" where
  "Describe ids tab reg name =
     (case GetStrict tab reg name of
        None \<Rightarrow> Inl (PresetNotRegistered name)
      | Some p \<Rightarrow>
          (case flattenToSpec ids p of
             Inl e \<Rightarrow> Inl e
           | Inr spec \<Rightarrow> Inr \<lparr>pf_Version = 1, pf_Preset = Some spec, pf_Pool = None\<rparr>))"

text \<open>
  What comes back when a specification is written as JSON and read again: the fields marked
  \<open>omitempty\<close> are left out when they are empty, and so an empty list is read as nil.
\<close>

definition nil_if_empty :: "'a list option \<Rightarrow> 'a list option" where
  "nil_if_empty x = Option.bind x copied"

definition through_json :: "PresetSpec \<Rightarrow> PresetSpec" where
  "through_json spec =
     spec\<lparr>sp_HTTP2 := map_option (\<lambda>h. h\<lparr>h2s_SettingsOrder := nil_if_empty (h2s_SettingsOrder h),
       h2s_PseudoOrder := nil_if_empty (h2s_PseudoOrder h), h2s_HPACKHeaderOrder := nil_if_empty (h2s_HPACKHeaderOrder h),
       h2s_HPACKNeverIndex := nil_if_empty (h2s_HPACKNeverIndex h), h2s_PriorityTable := nil_if_empty (h2s_PriorityTable h)\<rparr>)
       (sp_HTTP2 spec)\<rparr>"

section \<open>Names resolve to their ids\<close>

lemma fold_update_values:
  assumes "\<forall>i name. map_of m i = Some name \<longrightarrow> (name, i) \<in> S" "set xs \<subseteq> S"
  shows "map_of (fold (\<lambda>(name, i) m. if P name i m then m else AList.update i name m) xs m) i = Some name \<Longrightarrow> (name, i) \<in> S"
  using assms
proof (induction xs arbitrary: m)
  case (Cons x xs)
  obtain n j where x: "x = (n, j)" by (cases x)
  let ?m = "if P n j m then m else AList.update j n m"
  have "\<forall>i name. map_of ?m i = Some name \<longrightarrow> (name, i) \<in> S"
    using Cons.prems(2,3) by (auto simp: x update_conv')
  with Cons.IH [of ?m] Cons.prems(1,3) show ?case by (simp add: x)
qed simp

lemma inverse_sound:
  assumes "map_of (inverse_ids ids) i = Some name"
  shows "(name, i) \<in> set ids"
proof -
  let ?named = "fold (\<lambda>(name, i) m. if is_auto name \<or> i = no_hello then m else AList.update i name m) ids []"
  have "map_of ?named j = Some n \<Longrightarrow> (n, j) \<in> set ids" for j n
    using fold_update_values [of "[]" "set ids" ids "\<lambda>name i m. is_auto name \<or> i = no_hello" j n] by simp
  then show ?thesis
    using fold_update_values [of ?named "set ids" ids "\<lambda>name i m. \<not> is_auto name \<or> i = no_hello \<or> map_of m i \<noteq> None" i name] assms
    by (simp only: inverse_ids_def) simp
qed

lemma ClientHelloIDName_resolves:
  assumes "map_wf ids" "ClientHelloIDName ids i = Some name"
  shows "map_of ids name = Some i"
  using assms inverse_sound [of ids i name]
  by (auto simp: ClientHelloIDName_def map_wf_def split: if_splits)

lemma hello_name_resolves:
  assumes "map_wf ids" "map_of ids '''' = None" "hello_name ids which i = Inr name"
  shows "if name = '''' then i = no_hello else ResolveClientHelloID ids pre name = Inr i \<and> i \<noteq> no_hello"
  using assms ClientHelloIDName_resolves [OF assms(1), of i name]
  by (auto simp: hello_name_def ResolveClientHelloID_def ClientHelloIDName_def split: if_splits option.splits)

section \<open>Describing and building again\<close>

text \<open>What is asked of a preset: that a specification could have made it.\<close>

definition describable :: "(tls_extension list \<Rightarrow> tls_extension list) \<Rightarrow> Preset \<Rightarrow> bool" where
  "describable shuffle p \<longleftrightarrow>
     one_mode p \<and>
     (pr_JA3 p \<noteq> '''' \<longrightarrow> (case ParseJA3 shuffle (pr_JA3 p) None of Inl e \<Rightarrow> False | Inr s \<Rightarrow> True)) \<and>
     (case pr_JA3Extras p of
        None \<Rightarrow> True
      | Some e \<Rightarrow> DelegatedCredentialAlgorithms e \<noteq> Some [] \<and> list_all (\<lambda>a. a = 1 \<or> a = 2 \<or> a = 3) (CertCompAlgs e)) \<and>
     (if pr_ClientHelloID p = no_hello then
        pr_PSKClientHelloID p = no_hello \<and> pr_QUICClientHelloID p = no_hello \<and> pr_QUICPSKClientHelloID p = no_hello
      else ci_Client (pr_ClientHelloID p) \<noteq> '''') \<and>
     map_wf (pr_Headers p) \<and> H2HeaderOrder p \<noteq> [] \<and> H2HPACKNeverIndex p \<noteq> [] \<and>
     H2SettingsOrder p \<noteq> Some [] \<and> H2PseudoHeaderOrder p \<noteq> Some [] \<and>
     H2HPACKIndexingPolicy p \<in> {''chrome'', ''never'', ''always'', ''default''} \<and>
     H2StreamPriorityMode p \<in> {''chrome'', ''default''} \<and>
     (pr_SupportHTTP3 p \<longrightarrow> H3QUICTransportParamOrder p \<in> {''chrome'', ''random''})"

text \<open>All that the rest of the program reads of a preset: its fields, and the accessors for the configurations.\<close>

definition same_h2 :: "Preset \<Rightarrow> Preset \<Rightarrow> bool" where
  "same_h2 p q \<longleftrightarrow>
     pr_HTTP2Settings q = pr_HTTP2Settings p \<and> H2HeaderOrder q = H2HeaderOrder p \<and>
     H2HPACKIndexingPolicy q = H2HPACKIndexingPolicy p \<and> H2HPACKNeverIndex q = H2HPACKNeverIndex p \<and>
     H2StreamPriorityMode q = H2StreamPriorityMode p \<and> H2DisableCookieSplit q = H2DisableCookieSplit p \<and>
     H2SettingsOrder q = H2SettingsOrder p \<and> H2PseudoHeaderOrder q = H2PseudoHeaderOrder p \<and>
     H2HasPriorityTable q = H2HasPriorityTable p \<and> (\<forall>dest. H2PriorityFor q dest = H2PriorityFor p dest)"

definition same_h3 :: "Preset \<Rightarrow> Preset \<Rightarrow> bool" where
  "same_h3 p q \<longleftrightarrow>
     H3QPACKMaxTableCapacity q = H3QPACKMaxTableCapacity p \<and> H3QPACKBlockedStreams q = H3QPACKBlockedStreams p \<and>
     H3MaxFieldSectionSize q = H3MaxFieldSectionSize p \<and> H3EnableDatagrams q = H3EnableDatagrams p \<and>
     H3QUICInitialPacketSize q = H3QUICInitialPacketSize p \<and> H3QUICMaxIncomingStreams q = H3QUICMaxIncomingStreams p \<and>
     H3QUICMaxIncomingUniStreams q = H3QUICMaxIncomingUniStreams p \<and> H3QUICAllow0RTT q = H3QUICAllow0RTT p \<and>
     H3QUICChromeStyleInitial q = H3QUICChromeStyleInitial p \<and> H3QUICDisableHelloScramble q = H3QUICDisableHelloScramble p \<and>
     H3QUICTransportParamOrder q = H3QUICTransportParamOrder p \<and> H3QUICConnectionIDLength q = H3QUICConnectionIDLength p \<and>
     H3QUICMaxDatagramFrameSize q = H3QUICMaxDatagramFrameSize p \<and> H3MaxResponseHeaderBytes q = H3MaxResponseHeaderBytes p \<and>
     H3SendGreaseFrames q = H3SendGreaseFrames p \<and>
     H3QUICInitialStreamReceiveWindow q = H3QUICInitialStreamReceiveWindow p \<and>
     H3QUICInitialConnectionReceiveWindow q = H3QUICInitialConnectionReceiveWindow p"

definition same_fingerprint :: "Preset \<Rightarrow> Preset \<Rightarrow> bool" where
  "same_fingerprint p q \<longleftrightarrow>
     pr_Name q = pr_Name p \<and> hellos q = hellos p \<and> pr_UserAgent q = pr_UserAgent p \<and> pr_Headers q = pr_Headers p \<and>
     pr_HeaderOrder q = pr_HeaderOrder p \<and> pr_TCPFingerprint q = pr_TCPFingerprint p \<and>
     pr_SupportHTTP3 q = pr_SupportHTTP3 p \<and> same_h2 p q \<and> (pr_SupportHTTP3 p \<longrightarrow> same_h3 p q)"

lemma certs_roundtrip:
  "list_all (\<lambda>a. a = 1 \<or> a = 2 \<or> a = 3) algs \<Longrightarrow> parseCertCompAlgs (certCompAlgsToNames algs) = Inr algs"
  by (induction algs) (auto simp: certCompAlgsToNames_def)

lemma extras_roundtrip:
  assumes "DelegatedCredentialAlgorithms e \<noteq> Some []" "list_all (\<lambda>a. a = 1 \<or> a = 2 \<or> a = 3) (CertCompAlgs e)"
  shows "buildJA3Extras (flattenJA3Extras e) = Inr e"
  using assms by (cases "DelegatedCredentialAlgorithms e")
    (auto simp: buildJA3Extras_def flattenJA3Extras_def certs_roundtrip opt_or_def)

lemma fold_update_new:
  "map_wf (ys @ xs) \<Longrightarrow> fold (\<lambda>(k, v). AList.update k v) xs ys = ys @ xs"
proof (induction xs arbitrary: ys)
  case (Cons x xs)
  obtain k v where x: "x = (k, v)" by (cases x)
  have "k \<notin> fst ` set ys" using Cons.prems by (auto simp: x map_wf_def)
  then have "AList.update k v ys = ys @ [(k, v)]" by (induction ys) auto
  with Cons show ?case by (simp add: x)
qed simp

text \<open>Each section gives back its part.\<close>

lemma tls_roundtrip:
  assumes "map_wf ids" "map_of ids '''' = None" "describable shuffle p" "flattenTLS ids p = Inr tls"
    and "hellos a = hellos zero_preset"
  shows "\<exists>b. step_with (applyTLS ids) tls (Inr a) = Inr b \<and> hellos b = hellos p"
proof (cases "pr_JA3 p = ''''")
  case False
  have one: "one_mode p" and x: "case pr_JA3Extras p of None \<Rightarrow> True
      | Some e \<Rightarrow> DelegatedCredentialAlgorithms e \<noteq> Some [] \<and> list_all (\<lambda>a. a = 1 \<or> a = 2 \<or> a = 3) (CertCompAlgs e)"
    using assms(3) by (auto simp: describable_def)
  from one False have h: "hellos p = (pr_JA3 p, pr_JA3Extras p, [no_hello, no_hello, no_hello, no_hello])"
    by (simp add: hellos_def one_mode_def)
  show ?thesis
  proof (cases "pr_JA3Extras p")
    case None
    with False assms(4,5) h show ?thesis
      by (auto simp: flattenTLS_def step_with_def applyTLS_def buildJA3ExtrasFromTLS_def hellos_def zero_preset_def)
  next
    case (Some e)
    with x have "buildJA3Extras (flattenJA3Extras e) = Inr e" by (simp add: extras_roundtrip)
    with Some False assms(4,5) h show ?thesis
      by (auto simp: flattenTLS_def step_with_def applyTLS_def hellos_def zero_preset_def)
  qed
next
  case True
  note res = hello_name_resolves [OF assms(1,2)]
  from assms(4) True obtain hn pn qn rn where n: "hello_name ids ''ClientHelloID'' (pr_ClientHelloID p) = Inr hn"
    "hello_name ids ''PSKClientHelloID'' (pr_PSKClientHelloID p) = Inr pn"
    "hello_name ids ''QUICClientHelloID'' (pr_QUICClientHelloID p) = Inr qn"
    "hello_name ids ''QUICPSKClientHelloID'' (pr_QUICPSKClientHelloID p) = Inr rn"
    and tls: "tls = (if hn = '''' then None
                  else Some \<lparr>ts_ClientHello = hn, ts_PSKClientHello = pn, ts_QUICClientHello = qn,
                             ts_QUICPSKClientHello = rn, ts_JA3 = '''', ts_JA3Extras = None, ts_Inline = no_extras_spec\<rparr>)"
    by (auto simp: flattenTLS_def split: sum.splits)
  have x: "pr_JA3Extras p = None" using assms(3) True by (simp add: describable_def one_mode_def)
  have z: "pr_JA3 a = ''''" "pr_JA3Extras a = None" "pr_ClientHelloID a = no_hello" "pr_PSKClientHelloID a = no_hello"
    "pr_QUICClientHelloID a = no_hello" "pr_QUICPSKClientHelloID a = no_hello"
    using assms(5) by (auto simp: hellos_def zero_preset_def)
  show ?thesis
  proof (cases "hn = ''''")
    case hn: True
    with res [OF n(1)] have "pr_ClientHelloID p = no_hello" by simp
    with assms(3) have "hellos p = hellos zero_preset" using x True by (simp add: describable_def hellos_def zero_preset_def)
    with assms(5) hn tls show ?thesis by (auto simp: step_with_def)
  next
    case False
    let ?b = "a\<lparr>pr_JA3 := '''', pr_JA3Extras := None, pr_ClientHelloID := pr_ClientHelloID p,
      pr_PSKClientHelloID := pr_PSKClientHelloID p, pr_QUICClientHelloID := pr_QUICClientHelloID p,
      pr_QUICPSKClientHelloID := pr_QUICPSKClientHelloID p\<rparr>"
    have "applyTLS ids (the tls) a = Inr ?b"
      using False res [OF n(1), of "''''"] res [OF n(2), of "''psk''"] res [OF n(3), of "''quic''"] res [OF n(4), of "''quic_psk''"]
      by (auto simp: tls applyTLS_def set_other_hellos_def z split: if_splits)
    moreover have "hellos ?b = hellos p" using x True by (simp add: hellos_def)
    ultimately show ?thesis using False by (auto simp: tls step_with_def)
  qed
qed

lemma akamai_none: "akamai_seen None sid = False" "akamai_window None = False" "akamai_weight None = False" "akamai_pseudo None = []"
  by (simp_all add: akamai_seen_def akamai_window_def akamai_weight_def akamai_pseudo_def)

definition rebuilt_h2 :: "Preset \<Rightarrow> H2FingerprintConfig" where
  "rebuilt_h2 p =
     \<lparr>h2c_HPACKHeaderOrder = Some (H2HeaderOrder p), h2c_HPACKIndexingPolicy = H2HPACKIndexingPolicy p,
      h2c_HPACKNeverIndex = Some (H2HPACKNeverIndex p), h2c_StreamPriorityMode = H2StreamPriorityMode p,
      h2c_DisableCookieSplit = Some (H2DisableCookieSplit p), h2c_SettingsOrder = H2SettingsOrder p,
      h2c_PseudoHeaderOrder = H2PseudoHeaderOrder p,
      h2c_PriorityTable =
        (if own_priority_table p \<noteq> [] then own_priority_table p
         else if \<not> NoRFC7540Priorities (pr_HTTP2Settings p) then defaultPriorityTable else [])\<rparr>"

lemma http2_roundtrip:
  assumes "describable shuffle p" "pr_H2Config a = None"
  shows "applyHTTP2 (flattenHTTP2 p) a = Inr (a\<lparr>pr_HTTP2Settings := pr_HTTP2Settings p, pr_H2Config := Some (rebuilt_h2 p)\<rparr>)"
proof -
  let ?f = "flattenHTTP2 p"
  have "akamai_of ?f = None" by (simp add: akamai_of_def flattenHTTP2_def Let_def)
  moreover have "gives_h2_config None ?f" by (simp add: gives_h2_config_def flattenHTTP2_def Let_def)
  moreover have "apply_setting_fields None ?f s = pr_HTTP2Settings p" for s
    by (cases "pr_HTTP2Settings p")
      (simp add: apply_setting_fields_def flattenHTTP2_def Let_def unless_def opt_or_def akamai_none)
  moreover have "apply_h2_config None ?f no_h2_config = rebuilt_h2 p"
    using assms(1)
    by (auto simp: apply_h2_config_def flattenHTTP2_def rebuilt_h2_def Let_def no_h2_config_def override_def opt_or_def
        akamai_none copied_def describable_def split: option.splits bind_splits)
  ultimately show ?thesis
    using assms(2) by (subst applyHTTP2_result) (simp add: apply_akamai_def opt_or_def flattenHTTP2_def Let_def)
qed

lemma default_table_not_empty: "defaultPriorityTable \<noteq> []"
  by (simp add: defaultPriorityTable_def)

lemma same_h2_rebuilt:
  assumes "pr_HTTP2Settings q = pr_HTTP2Settings p" "pr_H2Config q = Some (rebuilt_h2 p)"
  shows "same_h2 p q"
proof -
  have "H2HPACKIndexingPolicy p \<noteq> ''''" "H2StreamPriorityMode p \<noteq> ''''"
    by (auto simp: H2HPACKIndexingPolicy_def H2StreamPriorityMode_def split: option.splits)
  moreover have "H2PriorityFor q dest = H2PriorityFor p dest" for dest
    using assms default_table_not_empty by (auto simp: H2PriorityFor_def own_priority_table_def rebuilt_h2_def)
  ultimately show ?thesis
    using assms default_table_not_empty
    by (auto simp: same_h2_def rebuilt_h2_def H2HeaderOrder_def H2HPACKIndexingPolicy_def H2HPACKNeverIndex_def
        H2StreamPriorityMode_def H2DisableCookieSplit_def H2SettingsOrder_def H2PseudoHeaderOrder_def H2HasPriorityTable_def
        own_priority_table_def)
qed

lemma http3_roundtrip:
  assumes "pr_HTTP2Settings q = pr_HTTP2Settings p" "pr_H3Config a = None"
    and "pr_H3Config q = pr_H3Config (applyHTTP3 (flattenHTTP3 p) a)"
  shows "same_h3 p q"
proof -
  have "H3QUICTransportParamOrder p \<noteq> ''''"
    by (auto simp: H3QUICTransportParamOrder_def split: option.splits)
  then show ?thesis
    using assms
    by (simp add: same_h3_def applyHTTP3_def flattenHTTP3_def Let_def opt_or_def no_h3_config_def override_def h3_value_def
        H3QPACKMaxTableCapacity_def H3QPACKBlockedStreams_def H3MaxFieldSectionSize_def H3EnableDatagrams_def
        H3QUICInitialPacketSize_def H3QUICMaxIncomingStreams_def H3QUICMaxIncomingUniStreams_def H3QUICAllow0RTT_def
        H3QUICChromeStyleInitial_def H3QUICDisableHelloScramble_def H3QUICTransportParamOrder_def
        H3QUICConnectionIDLength_def H3QUICMaxDatagramFrameSize_def H3MaxResponseHeaderBytes_def H3SendGreaseFrames_def
        H3QUICInitialStreamReceiveWindow_def H3QUICInitialConnectionReceiveWindow_def split: option.splits)
qed

lemma headers_roundtrip:
  assumes "map_wf (pr_Headers p)" "pr_UserAgent a = ''''" "pr_Headers a = []" "pr_HeaderOrder a = []"
  shows "step_with (\<lambda>s q. Inr (applyHeaders s q)) (flattenHeaders p) (Inr a) =
    Inr (a\<lparr>pr_UserAgent := pr_UserAgent p, pr_Headers := pr_Headers p, pr_HeaderOrder := pr_HeaderOrder p\<rparr>)"
  using assms fold_update_new [of "[]" "pr_Headers p"]
  by (auto simp: step_with_def flattenHeaders_def applyHeaders_def)

lemma tcp_roundtrip:
  assumes "pr_TCPFingerprint a = no_tcp"
  shows "step_with applyTCP (flattenTCP p) (Inr a) = Inr (a\<lparr>pr_TCPFingerprint := pr_TCPFingerprint p\<rparr>)"
  using assms by (auto simp: step_with_def flattenTCP_def applyTCP_def opt_or_def Let_def)

lemma describable_valid:
  assumes "describable shuffle p" "flattenToSpec ids p = Inr spec" "map_wf ids" "map_of ids '''' = None" "hellos q = hellos p"
  shows "validatePreset q spec = None"
proof -
  have "Option.bind (sp_HTTP2 spec) validate_http2 = None"
    using assms(1,2) by (auto simp: flattenToSpec_def describable_def validate_http2_def flattenHTTP2_def Let_def split: sum.splits)
  moreover have "Option.bind (sp_HTTP3 spec) validate_http3 = None"
    using assms(1,2) by (auto simp: flattenToSpec_def describable_def validate_http3_def flattenHTTP3_def split: sum.splits)
  moreover have "Option.bind (sp_TLS spec) (validate_tls q) = None"
  proof (cases "sp_TLS spec")
    case (Some t)
    with assms(2) have t: "flattenTLS ids p = Inr (Some t)" by (auto simp: flattenToSpec_def split: sum.splits)
    have q: "pr_JA3 q = pr_JA3 p" "pr_ClientHelloID q = pr_ClientHelloID p" using assms(5) by (auto simp: hellos_def)
    have "validate_tls q t = None"
    proof (cases "pr_JA3 p = ''''")
      case True
      with t have h: "ts_ClientHello t \<noteq> ''''" "ts_JA3 t = ''''" "ts_JA3Extras t = None" "ts_Inline t = no_extras_spec"
        "hello_name ids ''ClientHelloID'' (pr_ClientHelloID p) = Inr (ts_ClientHello t)"
        by (auto simp: flattenTLS_def split: sum.splits if_splits)
      from hello_name_resolves [OF assms(3,4) h(5)] h(1) have "pr_ClientHelloID p \<noteq> no_hello" by simp
      with assms(1) have "ci_Client (pr_ClientHelloID p) \<noteq> ''''" by (simp add: describable_def)
      with h q True show ?thesis by (simp add: validate_tls_def no_extras_spec_def)
    next
      case False
      with t q show ?thesis by (auto simp: flattenTLS_def validate_tls_def no_extras_spec_def)
    qed
    with Some show ?thesis by simp
  qed simp
  ultimately show ?thesis by (simp add: validatePreset_def first_error_def)
qed

lemma described_json: "flattenToSpec ids p = Inr spec \<Longrightarrow> through_json spec = spec"
  using default_table_not_empty
  by (auto simp: flattenToSpec_def through_json_def flattenHTTP2_def Let_def nil_if_empty_def copied_def
      split: sum.splits option.splits bind_splits)


definition example_ids :: hello_ids where
  "example_ids =
     [(''chrome-auto'', \<lparr>ci_Client = ''Chrome'', ci_Version = ''146''\<rparr>), (''chrome-146'', \<lparr>ci_Client = ''Chrome'', ci_Version = ''146''\<rparr>)]"

definition example_preset :: Preset where
  "example_preset =
     zero_preset\<lparr>pr_Name := ''mine'', pr_ClientHelloID := \<lparr>ci_Client = ''Chrome'', ci_Version = ''146''\<rparr>, pr_UserAgent := ''agent'',
       pr_Headers := [(''accept'', ''*/*'')], pr_SupportHTTP3 := True\<rparr>"

definition example_tab :: builtins where
  "example_tab reg name = (if name = ''mine'' then Some example_preset else None)"


text \<open>
  A name that ends in \<open>-auto\<close> is used only for an id without another name, and the empty list, unlike
  the absent one, is not kept: a preset that indexes every header comes back with Chrome's three
  exceptions.
\<close>

lemma auto_name_avoided:
  "ClientHelloIDName example_ids \<lparr>ci_Client = ''Chrome'', ci_Version = ''146''\<rparr> = Some ''chrome-146''"
  by code_simp

lemma empty_never_index_lost:
  "let p = example_preset\<lparr>pr_H2Config := Some (no_h2_config\<lparr>h2c_HPACKNeverIndex := Some []\<rparr>)\<rparr> in
   H2HPACKNeverIndex p = [] \<and>
   (case flattenToSpec example_ids p of
      Inl e \<Rightarrow> False
    | Inr spec \<Rightarrow>
        (case BuildPreset id example_ids example_tab [] (Some spec) of
           Inl e \<Rightarrow> False
         | Inr q \<Rightarrow> H2HPACKNeverIndex q = [''cookie'', ''authorization'', ''proxy-authorization'']))"
  by code_simp

end
