(* ===== verification/PresetPool.thy ===== *)
theory PresetPool
  imports CustomPreset
begin

text \<open>
  Pools of presets, \<open>fingerprint/preset_pool.go\<close>: picking a preset at random or in turn, and pools made
  from preset files, whose presets are registered while the pool is open. The number that
  \<open>rand.Intn\<close> draws is an argument; the counter of the turns is a 64-bit integer.
\<close>

section \<open>Picking\<close>

datatype PoolStrategy = PoolRandom | PoolRoundRobin

record PresetPool =
  pp_name :: string
  pp_presets :: "Preset list"
  pp_strategy :: PoolStrategy
  pp_index :: int

text \<open>No pool when the code panics: without presets, or with one that is nil.\<close>

definition NewPresetPool :: "string \<Rightarrow> PoolStrategy \<Rightarrow> Preset option list \<Rightarrow> PresetPool option" where
  "NewPresetPool name strategy presets =
     (if presets = [] \<or> None \<in> set presets then None
      else Some \<lparr>pp_name = name, pp_presets = map the presets, pp_strategy = strategy, pp_index = 0\<rparr>)"

text \<open>Go's remainder has the sign of the dividend.\<close>

definition go_rem :: "int \<Rightarrow> int \<Rightarrow> int" where
  "go_rem a n = (if a \<ge> 0 then a mod n else - ((- a) mod n))"

definition pool_Next :: "PresetPool \<Rightarrow> Preset \<times> PresetPool" where
  "pool_Next pool =
     (if length (pp_presets pool) = 1 then (pp_presets pool ! 0, pool)
      else
        let n = int (length (pp_presets pool));
            added = wrap64 (pp_index pool + 1);
            idx = wrap64 (added - 1) in
        (pp_presets pool ! nat (go_rem (wrap64 (go_rem idx n + n)) n), pool\<lparr>pp_index := added\<rparr>))"

definition pool_Random :: "(nat \<Rightarrow> nat) \<Rightarrow> PresetPool \<Rightarrow> Preset" where
  "pool_Random intn pool =
     (if length (pp_presets pool) = 1 then pp_presets pool ! 0 else pp_presets pool ! intn (length (pp_presets pool)))"

definition pool_Pick :: "(nat \<Rightarrow> nat) \<Rightarrow> PresetPool \<Rightarrow> Preset \<times> PresetPool" where
  "pool_Pick intn pool =
     (if pp_strategy pool = PoolRoundRobin then pool_Next pool else (pool_Random intn pool, pool))"

text \<open>\<open>Get\<close>: no result outside the pool, where the code panics.\<close>

definition pool_Get :: "PresetPool \<Rightarrow> int \<Rightarrow> Preset option" where
  "pool_Get pool i = (if 0 \<le> i \<and> i < int (length (pp_presets pool)) then Some (pp_presets pool ! nat i) else None)"

definition pool_Size :: "PresetPool \<Rightarrow> nat" where
  "pool_Size pool = length (pp_presets pool)"

fun pool_picks :: "nat \<Rightarrow> (nat \<Rightarrow> nat) \<Rightarrow> PresetPool \<Rightarrow> Preset list \<times> PresetPool" where
  "pool_picks 0 intn pool = ([], pool)"
| "pool_picks (Suc k) intn pool =
     (let (p, pool1) = pool_Pick intn pool; (ps, pool2) = pool_picks k intn pool1 in (p # ps, pool2))"

section \<open>Pools from files\<close>

definition register_named :: "Preset list \<Rightarrow> registry \<Rightarrow> registry" where
  "register_named ps reg = fold (\<lambda>p r. if pr_Name p = '''' then r else Register (pr_Name p) (Some p) r) ps reg"

datatype pool_build_error =
    NoPresetsInPool string | UnknownStrategy string | BadPreset nat string build_error | BadSinglePreset build_error
  | NeitherPresetNorPool

text \<open>The presets of a pool, built in order; \<open>i\<close> is the number of the first.\<close>

fun build_all ::
  "(PresetSpec \<Rightarrow> build_error + Preset) \<Rightarrow> nat \<Rightarrow> PresetSpec list \<Rightarrow> pool_build_error + Preset list" where
  "build_all build i [] = Inr []"
| "build_all build i (s # ss) =
     (case build s of
        Inl e \<Rightarrow> Inl (BadPreset i (sp_Name s) e)
      | Inr p \<Rightarrow> (case build_all build (i + 1) ss of Inl e \<Rightarrow> Inl e | Inr ps \<Rightarrow> Inr (p # ps)))"

definition pool_strategy :: "string \<Rightarrow> PoolStrategy option" where
  "pool_strategy s =
     (if s = ''random'' \<or> s = '''' then Some PoolRandom else if s = ''round-robin'' then Some PoolRoundRobin else None)"

definition buildPoolFromPoolSpec ::
  "(registry \<Rightarrow> PresetSpec \<Rightarrow> build_error + Preset) \<Rightarrow> PoolSpec \<Rightarrow> registry \<Rightarrow> (pool_build_error + PresetPool) \<times> registry" where
  "buildPoolFromPoolSpec build spec reg =
     (if ps_Presets spec = [] then (Inl (NoPresetsInPool (ps_Name spec)), reg)
      else case pool_strategy (ps_Strategy spec) of
          None \<Rightarrow> (Inl (UnknownStrategy (ps_Strategy spec)), reg)
        | Some strategy \<Rightarrow>
            (case build_all (build reg) 0 (ps_Presets spec) of
               Inl e \<Rightarrow> (Inl e, reg)
             | Inr ps \<Rightarrow> (Inr (the (NewPresetPool (ps_Name spec) strategy (map Some ps))), register_named ps reg)))"

definition buildPool ::
  "(registry \<Rightarrow> PresetSpec \<Rightarrow> build_error + Preset) \<Rightarrow> PresetFile \<Rightarrow> registry \<Rightarrow> (pool_build_error + PresetPool) \<times> registry" where
  "buildPool build pf reg =
     (case pf_Pool pf of
        Some spec \<Rightarrow> buildPoolFromPoolSpec build spec reg
      | None \<Rightarrow>
          (case pf_Preset pf of
             Some spec \<Rightarrow>
               (case build reg spec of
                  Inl e \<Rightarrow> (Inl (BadSinglePreset e), reg)
                | Inr p \<Rightarrow> (Inr (the (NewPresetPool (pr_Name p) PoolRandom [Some p])), register_named [p] reg))
           | None \<Rightarrow> (Inl NeitherPresetNorPool, reg)))"

definition pool_Close :: "PresetPool \<Rightarrow> registry \<Rightarrow> registry" where
  "pool_Close pool reg = fold (\<lambda>p r. if pr_Name p = '''' then r else Unregister (pr_Name p) r) (pp_presets pool) reg"

section \<open>Turns\<close>

lemma go_rem_bounds: "0 < n \<Longrightarrow> - n < go_rem a n \<and> go_rem a n < n"
proof -
  assume n: "0 < n"
  have "0 \<le> a mod n" "a mod n < n" "0 \<le> (- a) mod n" "(- a) mod n < n" using n by simp_all
  then show ?thesis using n unfolding go_rem_def by (auto simp del: pos_mod_bound pos_mod_sign)
qed

lemma go_rem_twice: "0 < n \<Longrightarrow> go_rem (go_rem a n + n) n = a mod n"
proof -
  assume n: "0 < n"
  then have "0 \<le> go_rem a n + n" using go_rem_bounds [OF n, of a] by simp
  then have "go_rem (go_rem a n + n) n = (go_rem a n + n) mod n" by (simp add: go_rem_def)
  also have "\<dots> = a mod n" by (auto simp: go_rem_def mod_minus_eq)
  finally show ?thesis .
qed

lemma wrap64_back: "- (2 ^ 63) \<le> x \<Longrightarrow> x < 2 ^ 63 \<Longrightarrow> wrap64 (wrap64 (x + 1) - 1) = x"
proof -
  assume x: "- (2 ^ 63) \<le> x" "x < 2 ^ 63"
  have "wrap64 (wrap64 (x + 1) - 1) = wrap64 x"
    unfolding wrap64_def by (simp add: mod_simps add.commute)
  with x show ?thesis by (simp add: wrap64_id)
qed

lemma Next_preset:
  assumes "pp_presets pool \<noteq> []" "length (pp_presets pool) \<le> 2 ^ 62" "- (2 ^ 63) \<le> pp_index pool" "pp_index pool < 2 ^ 63"
  shows "fst (pool_Next pool) = pp_presets pool ! nat (pp_index pool mod int (length (pp_presets pool)))"
proof (cases "length (pp_presets pool) = 1")
  case True
  then show ?thesis by (simp add: pool_Next_def)
next
  case False
  let ?n = "int (length (pp_presets pool))"
  have n: "0 < ?n" "?n \<le> 2 ^ 62" using assms(1,2) by simp_all
  have "wrap64 (go_rem (pp_index pool) ?n + ?n) = go_rem (pp_index pool) ?n + ?n"
    by (rule wrap64_id) (use go_rem_bounds [OF n(1), of "pp_index pool"] n in auto)
  with False assms(3,4) show ?thesis by (simp add: pool_Next_def Let_def wrap64_back go_rem_twice [OF n(1)])
qed

lemma Next_keeps:
  "pp_presets (snd (pool_Next pool)) = pp_presets pool \<and> pp_strategy (snd (pool_Next pool)) = pp_strategy pool \<and>
   (- (2 ^ 63) \<le> pp_index pool \<and> pp_index pool < 2 ^ 63 \<longrightarrow>
     - (2 ^ 63) \<le> pp_index (snd (pool_Next pool)) \<and> pp_index (snd (pool_Next pool)) < 2 ^ 63)"
  using wrap64_range by (simp add: pool_Next_def Let_def)

lemma picks_in_turn:
  assumes "pp_strategy pool = PoolRoundRobin" "pp_presets pool \<noteq> []" "length (pp_presets pool) \<le> 2 ^ 62"
    and "i + k \<le> 2 ^ 63" "k = 0 \<or> pp_index pool = int i \<or> length (pp_presets pool) = 1"
    and "- (2 ^ 63) \<le> pp_index pool" "pp_index pool < 2 ^ 63"
  shows "fst (pool_picks k intn pool) = map (\<lambda>j. pp_presets pool ! (j mod length (pp_presets pool))) [i..<i + k]"
  using assms
proof (induction k arbitrary: i pool)
  case (Suc k)
  let ?n = "length (pp_presets pool)" and ?q = "snd (pool_Next pool)"
  have p: "fst (pool_Next pool) = pp_presets pool ! (i mod ?n)"
    using Next_preset [OF Suc.prems(2,3,6,7)] Suc.prems(5) by (auto simp: nat_mod_distrib)
  have "k = 0 \<or> pp_index ?q = int (Suc i) \<or> ?n = 1"
  proof (cases "k = 0")
    case False
    then have "wrap64 (int i + 1) = int i + 1" using Suc.prems(4) by (intro wrap64_id) simp_all
    with Suc.prems(5) show ?thesis by (auto simp: pool_Next_def Let_def)
  qed simp
  then have "fst (pool_picks k intn ?q) = map (\<lambda>j. pp_presets pool ! (j mod ?n)) [Suc i..<Suc i + k]"
    using Suc.IH [of ?q "Suc i"] Suc.prems Next_keeps [of pool] by auto
  then show ?case
    using p Suc.prems(1) by (simp add: pool_Pick_def case_prod_beta Let_def upt_rec)
qed simp

lemma one_round: "mset (map (\<lambda>j. xs ! (j mod length xs)) [i..<i + length xs]) = mset xs"
proof -
  have "map (\<lambda>j. xs ! (j mod length xs)) [i..<i + length xs] = rotate i xs"
    by (rule nth_equalityI) (simp_all add: nth_rotate)
  moreover have "mset (rotate i xs) = mset xs"
  proof (induction i)
    case (Suc i)
    have "mset (rotate1 ys) = mset ys" for ys :: "'a list" by (cases ys) simp_all
    with Suc show ?case by (simp add: rotate_Suc)
  qed simp
  ultimately show ?thesis by simp
qed

lemma picks_from_pool:
  assumes "pp_presets pool \<noteq> []" "length (pp_presets pool) \<le> 2 ^ 62" "\<forall>n > 0. intn n < n"
    and "- (2 ^ 63) \<le> pp_index pool" "pp_index pool < 2 ^ 63"
  shows "set (fst (pool_picks k intn pool)) \<subseteq> set (pp_presets pool)"
  using assms
proof (induction k arbitrary: pool)
  case (Suc k)
  have "fst (pool_Pick intn pool) \<in> set (pp_presets pool)"
    using Next_preset [OF Suc.prems(1,2,4,5)] Suc.prems(1,3)
    by (auto simp: pool_Pick_def pool_Random_def nat_less_iff)
  moreover have "set (fst (pool_picks k intn (snd (pool_Pick intn pool)))) \<subseteq> set (pp_presets pool)"
    using Suc.IH [of "snd (pool_Pick intn pool)"] Suc.prems Next_keeps [of pool] by (auto simp: pool_Pick_def split: if_splits)
  ultimately show ?case by (simp add: case_prod_beta Let_def)
qed simp

text \<open>C39.
  A pool that takes turns is fair: for as long as its counter does not overflow (2 to the 63 picks), any
  round of as many picks as the pool has presets yields each of them exactly as often as the pool was
  given it, wherever the round begins. Every pick, also after the overflow, is one of the presets.
\<close>
theorem round_robin_fair:
  assumes "NewPresetPool name PoolRoundRobin ps = Some pool" and "length ps \<le> 2 ^ 62" and "k + length ps \<le> 2 ^ 63"
    and "\<forall>n > 0. intn n < n"
  shows "mset (drop k (fst (pool_picks (k + length ps) intn pool))) = mset (map the ps) \<and>
    (\<forall>m. set (fst (pool_picks m intn pool)) \<subseteq> set (map the ps))"
proof -
  have pool: "pp_presets pool = map the ps" "pp_presets pool \<noteq> []" "pp_strategy pool = PoolRoundRobin" "pp_index pool = 0"
    using assms(1) by (auto simp: NewPresetPool_def split: if_splits)
  have "fst (pool_picks (k + length ps) intn pool) = map (\<lambda>j. map the ps ! (j mod length ps)) [0..<k + length ps]"
    using picks_in_turn [OF pool(3,2), of 0 "k + length ps" intn] assms(2,3) pool by simp
  then have "drop k (fst (pool_picks (k + length ps) intn pool)) = map (\<lambda>j. map the ps ! (j mod length ps)) [k..<k + length ps]"
    by (simp add: drop_map drop_upt)
  with one_round [of "map the ps" k] have "mset (drop k (fst (pool_picks (k + length ps) intn pool))) = mset (map the ps)"
    by simp
  moreover have "set (fst (pool_picks m intn pool)) \<subseteq> set (map the ps)" for m
    using picks_from_pool [OF pool(2), of intn m] assms(2,4) pool by simp
  ultimately show ?thesis by blast
qed

theorem round_robin_fair_witness:
  "\<exists>pool. NewPresetPool ''pool'' PoolRoundRobin [Some zero_preset, Some (zero_preset\<lparr>pr_Name := ''b''\<rparr>)] = Some pool \<and>
     mset (drop 3 (fst (pool_picks 5 (\<lambda>n. 0) pool))) = {#zero_preset, zero_preset\<lparr>pr_Name := ''b''\<rparr>#}"
proof -
  let ?ps = "[Some zero_preset, Some (zero_preset\<lparr>pr_Name := ''b''\<rparr>)]"
  obtain pool where pool: "NewPresetPool ''pool'' PoolRoundRobin ?ps = Some pool" by (simp add: NewPresetPool_def)
  have i: "\<forall>n > 0. (\<lambda>n :: nat. 0) n < n" by simp
  have "mset (drop 3 (fst (pool_picks (3 + length ?ps) (\<lambda>n. 0) pool))) = mset (map the ?ps)"
    by (rule round_robin_fair [OF pool _ _ i, THEN conjunct1]) simp_all
  with pool show ?thesis by auto
qed

section \<open>Pools and the registry\<close>

text \<open>A pool is made of all its presets or not at all: after an error nothing has been registered.\<close>

lemma failed_pool_registers_nothing:
  "buildPool build pf reg = (Inl e, reg') \<Longrightarrow> reg' = reg"
  by (auto simp: buildPool_def buildPoolFromPoolSpec_def split: option.splits sum.splits if_splits)

lemma build_all_length: "build_all build i ss = Inr ps \<Longrightarrow> length ps = length ss"
  by (induction ss arbitrary: i ps) (auto split: sum.splits)

text \<open>\<open>NewPresetPool\<close> does not panic when the pool comes from a file.\<close>

lemma built_pool_not_empty:
  assumes "buildPool build pf reg = (Inr pool, reg')"
  shows "pp_presets pool \<noteq> []"
  using assms build_all_length
  by (fastforce simp: buildPool_def buildPoolFromPoolSpec_def NewPresetPool_def split: option.splits sum.splits if_splits)

text \<open>
  The presets of one pool are built before any is registered, and so they can be based on each other in a
  circle, which the check for loops would have refused one after the other.
\<close>

definition build_plain :: "registry \<Rightarrow> PresetSpec \<Rightarrow> build_error + Preset" where
  "build_plain reg spec = BuildPreset id [] one_builtin reg (Some spec)"

definition two_registered :: registry where
  "two_registered = [(''p'', zero_preset\<lparr>pr_Name := ''p''\<rparr>), (''q'', zero_preset\<lparr>pr_Name := ''q''\<rparr>)]"

definition circle :: PresetFile where
  "circle =
     \<lparr>pf_Version = 1, pf_Preset = None,
      pf_Pool = Some \<lparr>ps_Name = ''pool'', ps_Strategy = '''', ps_Presets = [bare_spec ''p'' ''q'', bare_spec ''q'' ''p'']\<rparr>\<rparr>"

lemma plain_circle:
  "build_plain two_registered (bare_spec ''p'' ''q'') = Inr (zero_preset\<lparr>pr_Name := ''p'', pr_BasedOn := ''q''\<rparr>)"
  "build_plain two_registered (bare_spec ''q'' ''p'') = Inr (zero_preset\<lparr>pr_Name := ''q'', pr_BasedOn := ''p''\<rparr>)"
  by (simp_all add: build_plain_def BuildPreset_def bare_spec_def two_registered_def inheritance_loop.simps base_preset_def
      GetStrict_def LookupCustom_def apply_sections_def step_with_def validatePreset_def first_error_def zero_preset_def)

lemma pool_makes_circle:
  "let reg = snd (buildPool build_plain circle two_registered) in parent reg ''p'' ''q'' \<and> parent reg ''q'' ''p''"
proof -
  have "snd (buildPool build_plain circle two_registered) = register_named
      [zero_preset\<lparr>pr_Name := ''p'', pr_BasedOn := ''q''\<rparr>, zero_preset\<lparr>pr_Name := ''q'', pr_BasedOn := ''p''\<rparr>] two_registered"
    by (simp add: buildPool_def circle_def buildPoolFromPoolSpec_def pool_strategy_def plain_circle)
  then show ?thesis
    by (simp add: register_named_def Register_def parent_def update_conv')
qed

text \<open>
  Closing a pool removes the names of its presets from the registry, also when they were registered
  before the pool was made, which had replaced them: the earlier presets are lost.
\<close>

definition replacing :: PresetFile where
  "replacing =
     \<lparr>pf_Version = 1, pf_Preset = None,
      pf_Pool = Some \<lparr>ps_Name = ''pool'', ps_Strategy = '''', ps_Presets = [bare_spec ''p'' '''']\<rparr>\<rparr>"

lemma close_loses_earlier_presets:
  "case buildPool build_plain replacing two_registered of
     (Inl e, reg) \<Rightarrow> False
   | (Inr pool, reg) \<Rightarrow> LookupCustom two_registered ''p'' \<noteq> None \<and> LookupCustom (pool_Close pool reg) ''p'' = None"
proof -
  have "build_plain two_registered (bare_spec ''p'' '''') = Inr (zero_preset\<lparr>pr_Name := ''p''\<rparr>)"
    by (simp add: build_plain_def BuildPreset_def bare_spec_def base_preset_def apply_sections_def step_with_def
        validatePreset_def first_error_def zero_preset_def)
  then have "buildPool build_plain replacing two_registered =
      (Inr \<lparr>pp_name = ''pool'', pp_presets = [zero_preset\<lparr>pr_Name := ''p''\<rparr>], pp_strategy = PoolRandom, pp_index = 0\<rparr>,
       AList.update ''p'' (zero_preset\<lparr>pr_Name := ''p''\<rparr>) two_registered)"
    by (simp add: buildPool_def replacing_def buildPoolFromPoolSpec_def pool_strategy_def register_named_def Register_def
        NewPresetPool_def)
  then show ?thesis
    by (simp add: pool_Close_def Unregister_def LookupCustom_def delete_conv' two_registered_def)
qed

end
