(* ===== verification/Http2Conn.thy ===== *)
theory Http2Conn
  imports Http1Conn Presets
begin

text \<open>
  How an HTTP/2 connection comes about: \<open>createConn\<close> of \<open>transport/http2_transport.go\<close>. It dials, makes
  the client hello (from a JA3 string, the preset's hello for resumption, or the preset's hello),
  shakes hands, falls back from speculative to blocking dialling, checks that HTTP/2 was agreed, and
  sets up the connection with the preset's settings. The DNS cache, the dialers, uTLS and the HTTP/2
  fork are parameters, as in the theory \<open>Http1Conn\<close>; deadlines of the contexts, socket options and the
  key log are not modelled.
\<close>

section \<open>Configuration\<close>

record h2_config =
  h2t_preset :: Preset
  h2t_proxy :: "ProxyConfig option"
  h2t_connectTo :: "(string, string) gomap"
  h2t_speculative :: bool
  h2t_customJA3 :: string
  h2t_customJA3Extras :: "JA3Extras option"
  h2t_echConfig :: "byte list"
  h2t_echConfigDomain :: string
  h2t_tlsOnly :: bool
  h2t_customPseudoOrder :: "string list"
  h2t_insecureSkipVerify :: bool
  h2t_localAddr :: string
  h2t_connectTimeout :: duration

datatype h2_hello = SpecHello ClientHelloSpec | IdHello ClientHelloID

record tls_params =
  tp_ServerName :: string
  tp_InsecureSkipVerify :: bool
  tp_MinVersion :: u16
  tp_ECH :: "byte list"
  tp_SessionCache :: bool

section \<open>HTTP/2 settings\<close>

datatype stream_priority_mode = StreamPriorityChrome | StreamPriorityDefault

datatype indexing_policy = IndexingChrome | IndexingNever | IndexingAlways | IndexingDefault

definition resolveStreamPriorityMode :: "string \<Rightarrow> stream_priority_mode" where
  "resolveStreamPriorityMode mode = (if mode = ''default'' then StreamPriorityDefault else StreamPriorityChrome)"

definition resolveHPACKIndexingPolicy :: "string \<Rightarrow> indexing_policy" where
  "resolveHPACKIndexingPolicy policy =
     (if policy = ''never'' then IndexingNever else if policy = ''always'' then IndexingAlways
      else if policy = ''default'' then IndexingDefault else IndexingChrome)"

definition boolToUint32 :: "bool \<Rightarrow> 32 word" where
  "boolToUint32 b = (if b then 1 else 0)"

record priority_param =
  prio_Weight :: byte
  prio_Exclusive :: bool

record h2_wire =
  hw_DisableCompression :: bool
  hw_MaxHeaderListSize :: "32 word"
  hw_MaxReadFrameSize :: "32 word"
  hw_HeaderTableSize :: "32 word"
  hw_ConnectionFlow :: "32 word"
  hw_Settings :: "(u16, 32 word) gomap"
  hw_SettingsOrder :: "u16 list"
  hw_DisableCookieSplit :: bool
  hw_PseudoHeaderOrder :: "string list"
  hw_HeaderPriority :: "priority_param option"
  hw_HeaderOrder :: "string list"
  hw_UserAgent :: string
  hw_StreamPriorityMode :: stream_priority_mode
  hw_HPACKIndexingPolicy :: indexing_policy
  hw_HPACKNeverIndex :: "string list"

definition h2_settings :: "HTTP2Settings \<Rightarrow> (u16, 32 word) gomap" where
  "h2_settings s =
     [(1, HeaderTableSize s), (2, boolToUint32 (EnablePush s)), (4, InitialWindowSize s), (6, MaxHeaderListSize s)] @
     (if MaxConcurrentStreams s > 0 then [(3, MaxConcurrentStreams s)] else []) @
     (if MaxFrameSize s > 0 then [(5, MaxFrameSize s)] else []) @
     (if NoRFC7540Priorities s then [(9, 1)] else [])"

definition h2_settings_order :: "Preset \<Rightarrow> u16 list" where
  "h2_settings_order p =
     (let s = pr_HTTP2Settings p in
      case H2SettingsOrder p of
        Some order \<Rightarrow> order
      | None \<Rightarrow>
          (if NoRFC7540Priorities s then [2, 4] else [1, 2, 4, 6]) @
          (if MaxConcurrentStreams s > 0 then [3] else []) @ (if MaxFrameSize s > 0 then [5] else []) @
          (if NoRFC7540Priorities s then [9] else []))"

definition h2_pseudo_order :: "h2_config \<Rightarrow> string list" where
  "h2_pseudo_order cfg =
     (if h2t_customPseudoOrder cfg \<noteq> [] then h2t_customPseudoOrder cfg
      else case H2PseudoHeaderOrder (h2t_preset cfg) of
          Some order \<Rightarrow> order
        | None \<Rightarrow>
            if NoRFC7540Priorities (pr_HTTP2Settings (h2t_preset cfg)) then ['':method'', '':scheme'', '':path'', '':authority'']
            else ['':method'', '':authority'', '':scheme'', '':path''])"

definition static_priority :: "HTTP2Settings \<Rightarrow> priority_param option" where
  "static_priority s =
     (if StreamWeight s > 0 then Some \<lparr>prio_Weight = ucast (StreamWeight s - 1), prio_Exclusive = StreamExclusive s\<rparr> else None)"

text \<open>The priority of one request, by its \<open>Sec-Fetch-Dest\<close> header; without one the static priority applies.\<close>

definition request_priority :: "Preset \<Rightarrow> string \<Rightarrow> priority_param option" where
  "request_priority p dest =
     (if \<not> H2HasPriorityTable p then None
      else map_option (\<lambda>(weight, exclusive, v). \<lparr>prio_Weight = of_nat weight - 1, prio_Exclusive = exclusive\<rparr>)
        (H2PriorityFor p dest))"

definition h2_wire_of :: "h2_config \<Rightarrow> h2_wire" where
  "h2_wire_of cfg =
     (let p = h2t_preset cfg; s = pr_HTTP2Settings p in
      \<lparr>hw_DisableCompression = h2t_tlsOnly cfg, hw_MaxHeaderListSize = MaxHeaderListSize s,
       hw_MaxReadFrameSize = MaxFrameSize s, hw_HeaderTableSize = HeaderTableSize s,
       hw_ConnectionFlow = ConnectionWindowUpdate s, hw_Settings = h2_settings s, hw_SettingsOrder = h2_settings_order p,
       hw_DisableCookieSplit = H2DisableCookieSplit p, hw_PseudoHeaderOrder = h2_pseudo_order cfg,
       hw_HeaderPriority = static_priority s, hw_HeaderOrder = H2HeaderOrder p,
       hw_UserAgent = (if h2t_tlsOnly cfg then '''' else pr_UserAgent p),
       hw_StreamPriorityMode = resolveStreamPriorityMode (H2StreamPriorityMode p),
       hw_HPACKIndexingPolicy = resolveHPACKIndexingPolicy (H2HPACKIndexingPolicy p),
       hw_HPACKNeverIndex = H2HPACKNeverIndex p\<rparr>)"

section \<open>The environment\<close>

text \<open>
  \<open>te_spec\<close> is \<open>UTLSIdToSpecWithSeed\<close> with the seed of the transport, \<open>te_ech\<close> the list fetched for a domain,
  empty after an error. A handshake gives its error or the negotiated protocol. \<open>te_client\<close> is the set-up of
  the HTTP/2 connection with its settings, \<open>NewClientConn\<close>.
\<close>

record 'c h2_env =
  te_proxy :: "'c dial_env"
  te_fresh :: "'c dial_env"
  te_resolve :: "string \<Rightarrow> string + ip list"
  te_dial :: "duration \<Rightarrow> string \<Rightarrow> ip \<Rightarrow> string \<Rightarrow> string + 'c"
  te_shuffle :: "tls_extension list \<Rightarrow> tls_extension list"
  te_spec :: "ClientHelloID \<Rightarrow> ClientHelloSpec option"
  te_ech :: "string \<Rightarrow> byte list"
  te_apply :: "ClientHelloSpec \<Rightarrow> 'c tunnel \<Rightarrow> string option"
  te_handshake :: "h2_hello \<Rightarrow> tls_params \<Rightarrow> 'c tunnel \<Rightarrow> (string conn_error + string) \<times> 'c tunnel"
  te_client :: "h2_wire \<Rightarrow> 'c tunnel \<Rightarrow> string option"

definition h2_getConnectHost :: "h2_config \<Rightarrow> string \<Rightarrow> string" where
  "h2_getConnectHost cfg requestHost =
     (case map_of (h2t_connectTo cfg) requestHost of Some h \<Rightarrow> h | None \<Rightarrow> requestHost)"

definition h2_SetConnectTo :: "string \<Rightarrow> string \<Rightarrow> h2_config \<Rightarrow> h2_config" where
  "h2_SetConnectTo requestHost connectHost cfg =
     cfg\<lparr>h2t_connectTo := AList.update requestHost connectHost (h2t_connectTo cfg)\<rparr>"

definition h2_SetECHConfig :: "byte list \<Rightarrow> h2_config \<Rightarrow> h2_config" where
  "h2_SetECHConfig ech cfg = cfg\<lparr>h2t_echConfig := ech\<rparr>"

definition h2_SetECHConfigDomain :: "string \<Rightarrow> h2_config \<Rightarrow> h2_config" where
  "h2_SetECHConfigDomain domain cfg = cfg\<lparr>h2t_echConfigDomain := domain\<rparr>"

definition h2_SetInsecureSkipVerify :: "bool \<Rightarrow> h2_config \<Rightarrow> h2_config" where
  "h2_SetInsecureSkipVerify skip cfg = cfg\<lparr>h2t_insecureSkipVerify := skip\<rparr>"

definition h2_SetLocalAddr :: "string \<Rightarrow> h2_config \<Rightarrow> h2_config" where
  "h2_SetLocalAddr addr cfg = cfg\<lparr>h2t_localAddr := addr\<rparr>"

text \<open>Whether sessions are resumed, which the constructor decides once.\<close>

definition hasPSKSpec :: "h2_config \<Rightarrow> bool" where
  "hasPSKSpec cfg \<longleftrightarrow>
     ci_Client (pr_PSKClientHelloID (h2t_preset cfg)) \<noteq> '''' \<or>
     (h2t_customJA3 cfg \<noteq> '''' \<and> JA3HasExtension (h2t_customJA3 cfg) ''41'') \<or>
     (pr_JA3 (h2t_preset cfg) \<noteq> '''' \<and> JA3HasExtension (pr_JA3 (h2t_preset cfg)) ''41'')"

section \<open>Raw connections\<close>

text \<open>An address gets its share of the time that is left for all, but at most ten seconds.\<close>

fun h2_dial_loop ::
  "(duration \<Rightarrow> string \<Rightarrow> ip \<Rightarrow> string \<Rightarrow> string + 'c) \<Rightarrow> duration \<Rightarrow> string \<Rightarrow> ip list \<Rightarrow> string option \<Rightarrow> string option + 'c" where
  "h2_dial_loop dial timeout port [] lastErr = Inl lastErr"
| "h2_dial_loop dial timeout port (i # is) lastErr =
     (case dial (min (timeout div int (length (i # is))) (10 * second)) (if To4 i = None then ''tcp6'' else ''tcp4'') i port of
        Inr c \<Rightarrow> Inr c
      | Inl e \<Rightarrow> h2_dial_loop dial timeout port is (Some e))"

definition h2_dial_direct :: "'c h2_env \<Rightarrow> h2_config \<Rightarrow> string \<Rightarrow> string \<Rightarrow> string + 'c tunnel" where
  "h2_dial_direct env cfg connectHost port =
     (case te_resolve env connectHost of
        Inl e \<Rightarrow> Inl (''DNS resolution failed: '' @ e)
      | Inr ips \<Rightarrow>
          if ips = [] then Inl ''DNS resolution failed: no IP addresses found''
          else case local_family (h2t_localAddr cfg) ips of
              Inl e \<Rightarrow> Inl e
            | Inr candidates \<Rightarrow>
                (case h2_dial_loop (te_dial env) (h2t_connectTimeout cfg) port candidates None of
                   Inr c \<Rightarrow> Inr (PlainConn c)
                 | Inl (Some e) \<Rightarrow> Inl (''TCP connect failed: '' @ e)
                 | Inl None \<Rightarrow> Inl ''TCP connect failed: all connection attempts failed''))"

text \<open>A failure carries the connections that were opened, as they were left.\<close>

definition h2_raw_conn :: "'c h2_env \<Rightarrow> h2_config \<Rightarrow> string set \<Rightarrow> string \<Rightarrow> string \<Rightarrow> (string \<times> 'c list) + 'c tunnel" where
  "h2_raw_conn env cfg blocked host port =
     (let connectHost = h2_getConnectHost cfg host;
          direct = (case h2_dial_direct env cfg connectHost port of Inl e \<Rightarrow> Inl (e, []) | Inr t \<Rightarrow> Inr t) in
      case h2t_proxy cfg of
        Some px \<Rightarrow>
          if px_URL px \<noteq> '''' then
            (case h2_dialThroughProxy (h2t_speculative cfg) blocked (te_proxy env) px connectHost port of
               Inl (e, left) \<Rightarrow>
                 Inl (''proxy connection failed: '' @ dial_error_text e, case left of None \<Rightarrow> [] | Some c \<Rightarrow> [c])
             | Inr t \<Rightarrow> Inr t)
          else direct
      | None \<Rightarrow> direct)"

section \<open>Client hellos\<close>

definition ja3_choice :: "h2_config \<Rightarrow> string \<times> JA3Extras option" where
  "ja3_choice cfg =
     (if h2t_customJA3 cfg \<noteq> '''' then (h2t_customJA3 cfg, h2t_customJA3Extras cfg)
      else if pr_JA3 (h2t_preset cfg) \<noteq> '''' then (pr_JA3 (h2t_preset cfg), pr_JA3Extras (h2t_preset cfg)) else ('''', None))"

definition choose_hello :: "'c h2_env \<Rightarrow> h2_config \<Rightarrow> ja3_error + h2_hello" where
  "choose_hello env cfg =
     (let (ja3, extras) = ja3_choice cfg;
          own = (case te_spec env (pr_ClientHelloID (h2t_preset cfg)) of
                   Some s \<Rightarrow> SpecHello s | None \<Rightarrow> IdHello (pr_ClientHelloID (h2t_preset cfg))) in
      if ja3 \<noteq> '''' then (case ParseJA3 (te_shuffle env) ja3 extras of Inl e \<Rightarrow> Inl e | Inr s \<Rightarrow> Inr (SpecHello s))
      else if hasPSKSpec cfg then
        (case te_spec env (pr_PSKClientHelloID (h2t_preset cfg)) of Some s \<Rightarrow> Inr (SpecHello s) | None \<Rightarrow> Inr own)
      else Inr own)"

definition apply_hello :: "'c h2_env \<Rightarrow> h2_hello \<Rightarrow> 'c tunnel \<Rightarrow> string option" where
  "apply_hello env hello t = (case hello of SpecHello s \<Rightarrow> te_apply env s t | IdHello i \<Rightarrow> None)"

definition ech_list :: "'c h2_env \<Rightarrow> h2_config \<Rightarrow> byte list" where
  "ech_list env cfg =
     (if h2t_echConfig cfg \<noteq> [] then h2t_echConfig cfg
      else if h2t_echConfigDomain cfg \<noteq> '''' then te_ech env (h2t_echConfigDomain cfg) else [])"

definition h2_tls_params :: "'c h2_env \<Rightarrow> h2_config \<Rightarrow> string \<Rightarrow> tls_params" where
  "h2_tls_params env cfg host =
     \<lparr>tp_ServerName = host, tp_InsecureSkipVerify = h2t_insecureSkipVerify cfg,
      tp_MinVersion = (if ech_list env cfg \<noteq> [] then VersionTLS13 else VersionTLS12), tp_ECH = ech_list env cfg,
      tp_SessionCache = hasPSKSpec cfg\<rparr>"

section \<open>\<open>createConn\<close>\<close>

text \<open>
  What \<open>createConn\<close> did: a connection ready for requests; one on which another protocol was agreed and
  which is handed to the caller inside the error; or an error. Then how the other connections were
  left, and the proxies marked against speculation.
\<close>

datatype 'c h2_result =
    H2Ready "'c tunnel" h2_hello h2_wire
  | H2WrongProtocol string "'c tunnel"
  | H2Failed string

record 'c h2_created =
  h2r_result :: "'c h2_result"
  h2r_left :: "'c list"
  h2r_blocked :: "string set"

definition h2_failed :: "string \<Rightarrow> 'c list \<Rightarrow> string set \<Rightarrow> 'c h2_created" where
  "h2_failed e left blocked = \<lparr>h2r_result = H2Failed e, h2r_left = left, h2r_blocked = blocked\<rparr>"

text \<open>From a finished handshake on; \<open>close\<close> closes the connection.\<close>

definition finish_conn ::
  "'c h2_env \<Rightarrow> h2_config \<Rightarrow> ('c tunnel \<Rightarrow> 'c) \<Rightarrow> h2_hello \<Rightarrow> string \<Rightarrow> 'c list \<Rightarrow> string set \<Rightarrow> 'c tunnel \<Rightarrow> 'c h2_created" where
  "finish_conn env cfg close hello negotiated left blocked t =
     (if negotiated \<noteq> ''h2'' then \<lparr>h2r_result = H2WrongProtocol negotiated t, h2r_left = left, h2r_blocked = blocked\<rparr>
      else case te_client env (h2_wire_of cfg) t of
          Some e \<Rightarrow> h2_failed (''HTTP/2 setup failed: '' @ e) (left @ [close t]) blocked
        | None \<Rightarrow> \<lparr>h2r_result = H2Ready t hello (h2_wire_of cfg), h2r_left = left, h2r_blocked = blocked\<rparr>)"

text \<open>The fallback after a speculative connection has failed; \<open>left\<close> is that connection, closed.\<close>

definition h2_fallback ::
  "'c h2_env \<Rightarrow> h2_config \<Rightarrow> ProxyConfig \<Rightarrow> string \<Rightarrow> string \<Rightarrow> 'c list \<Rightarrow> string set \<Rightarrow> 'c h2_created" where
  "h2_fallback env cfg px host port left blocked =
     (case h2_dialHTTPProxyBlockingFresh (te_fresh env) px (h2_getConnectHost cfg host) port of
        Inl (e, c) \<Rightarrow>
          h2_failed (''speculative TLS fallback dial failed: '' @ dial_error_text e)
            (left @ (case c of None \<Rightarrow> [] | Some c \<Rightarrow> [c])) blocked
      | Inr t \<Rightarrow>
          let close = close_tunnel (te_fresh env) in
          (case choose_hello env cfg of
             Inl e \<Rightarrow> h2_failed (''speculative TLS fallback: failed to parse JA3: '' @ ja3_text e) (left @ [close t]) blocked
           | Inr hello \<Rightarrow>
               (case apply_hello env hello t of
                  Some e \<Rightarrow> h2_failed (''speculative TLS fallback preset failed: '' @ e) (left @ [close t]) blocked
                | None \<Rightarrow>
                    (case te_handshake env hello (h2_tls_params env cfg host) t of
                       (Inl e, t1) \<Rightarrow>
                         h2_failed (''TLS handshake failed (after speculative fallback): '' @ conn_error_text id e)
                           (left @ [close t1]) blocked
                     | (Inr negotiated, t1) \<Rightarrow> finish_conn env cfg close hello negotiated left blocked t1))))"

definition h2_createConn :: "'c h2_env \<Rightarrow> h2_config \<Rightarrow> string set \<Rightarrow> string \<Rightarrow> string \<Rightarrow> 'c h2_created" where
  "h2_createConn env cfg blocked host port =
     (case h2_raw_conn env cfg blocked host port of
        Inl (e, left) \<Rightarrow> h2_failed e left blocked
      | Inr t \<Rightarrow>
          let close = close_tunnel (te_proxy env) in
          (case choose_hello env cfg of
             Inl e \<Rightarrow> h2_failed (''failed to parse JA3: '' @ ja3_text e) [close t] blocked
           | Inr hello \<Rightarrow>
               (case apply_hello env hello t of
                  Some e \<Rightarrow> h2_failed (''failed to apply TLS preset: '' @ e) [close t] blocked
                | None \<Rightarrow>
                    (case te_handshake env hello (h2_tls_params env cfg host) t of
                       (Inr negotiated, t1) \<Rightarrow> finish_conn env cfg close hello negotiated [] blocked t1
                     | (Inl e, t1) \<Rightarrow>
                         let failed = h2_failed (''TLS handshake failed: '' @ conn_error_text id e) [close t1] blocked in
                         (case h2t_proxy cfg of
                            Some px \<Rightarrow>
                              if IsSpeculativeTLSError e \<and> px_URL px \<noteq> ''''
                              then h2_fallback env cfg px host port [close t1] (MarkProxyNoSpeculative (px_URL px) blocked)
                              else failed
                          | None \<Rightarrow> failed)))))"

section \<open>What it guarantees\<close>

definition handed_over :: "'c h2_created \<Rightarrow> 'c tunnel option" where
  "handed_over r = (case h2r_result r of H2Ready t hello w \<Rightarrow> Some t | H2WrongProtocol p t \<Rightarrow> Some t | H2Failed e \<Rightarrow> None)"

text \<open>A connection that is handed over has shaken hands with this protocol as the result.\<close>

definition shaken :: "'c h2_env \<Rightarrow> h2_config \<Rightarrow> string \<Rightarrow> 'c h2_created \<Rightarrow> bool" where
  "shaken env cfg host r \<longleftrightarrow>
     (case h2r_result r of
        H2Ready t hello w \<Rightarrow>
          w = h2_wire_of cfg \<and> choose_hello env cfg = Inr hello \<and>
          (\<exists>t0. te_handshake env hello (h2_tls_params env cfg host) t0 = (Inr ''h2'', t))
      | H2WrongProtocol p t \<Rightarrow>
          p \<noteq> ''h2'' \<and> (\<exists>hello t0. choose_hello env cfg = Inr hello \<and>
            te_handshake env hello (h2_tls_params env cfg host) t0 = (Inr p, t))
      | H2Failed e \<Rightarrow> True)"

lemma finish_shaken:
  "choose_hello env cfg = Inr hello \<Longrightarrow> te_handshake env hello (h2_tls_params env cfg host) t0 = (Inr p, t) \<Longrightarrow>
   shaken env cfg host (finish_conn env cfg close hello p left blocked t)"
  by (auto simp: shaken_def finish_conn_def h2_failed_def split: option.split)

lemma failed_shaken: "shaken env cfg host (h2_failed e left blocked)"
  by (simp add: shaken_def h2_failed_def)

lemma fallback_shaken: "shaken env cfg host (h2_fallback env cfg px host port left blocked)"
  by (auto simp: h2_fallback_def Let_def failed_shaken intro: finish_shaken split: sum.split option.split prod.split)

lemma created_shaken: "shaken env cfg host (h2_createConn env cfg blocked host port)"
  by (auto simp: h2_createConn_def Let_def failed_shaken fallback_shaken intro: finish_shaken
      split: sum.split option.split prod.split)

lemma finish_left:
  "c \<in> set (h2r_left (finish_conn env cfg (close_tunnel d) hello p left blocked t)) \<Longrightarrow> c \<in> set left \<or> (\<exists>k. c = de_close d k)"
  by (auto simp: finish_conn_def h2_failed_def close_tunnel_def split: if_splits option.splits)

lemma h2_fallback_closes:
  assumes "c \<in> set (h2r_left (h2_fallback env cfg px host port left blocked))" "c \<notin> set left"
  shows "\<exists>k. c = de_close (te_fresh env) k"
  using assms finish_left
  by (fastforce simp: h2_fallback_def h2_failed_def close_tunnel_def Let_def h2_dialHTTPProxyBlockingFresh_def
      dialHTTPProxyBlockingFresh_def dialHTTPProxyBlocking_def dial_proxy_host_def
      split: sum.splits option.splits prod.splits if_splits list.splits)

lemma h2_raw_conn_closes:
  assumes "h2_raw_conn env cfg blocked host port = Inl (e, left)" "c \<in> set left"
  shows "\<exists>k. c = de_close (te_proxy env) k"
proof -
  have "h2_dialThroughProxy s blocked (te_proxy env) px ch port = Inl (d, Some c) \<Longrightarrow> \<exists>k. c = de_close (te_proxy env) k"
    for s px ch d using dial_failure_closes by (auto simp: h2_dialThroughProxy_def dialThroughProxy_def split: if_splits sum.splits)
  then show ?thesis using assms
    by (fastforce simp: h2_raw_conn_def Let_def split: option.splits if_splits sum.splits)
qed

lemma h2_createConn_closes:
  assumes "c \<in> set (h2r_left (h2_createConn env cfg blocked host port))"
  shows "(\<exists>k. c = de_close (te_proxy env) k) \<or> (\<exists>k. c = de_close (te_fresh env) k)"
proof (cases "h2_raw_conn env cfg blocked host port")
  case (Inl x)
  with assms h2_raw_conn_closes [of env cfg blocked host port "fst x" "snd x" c] show ?thesis
    by (cases x) (auto simp: h2_createConn_def h2_failed_def)
next
  case (Inr t)
  let ?close = "close_tunnel (te_proxy env)"
  let ?ours = "\<lambda>c. (\<exists>k. c = de_close (te_proxy env) k) \<or> (\<exists>k. c = de_close (te_fresh env) k)"
  have fb: "?ours c" if "c \<in> set (h2r_left (h2_fallback env cfg px host port [?close u] b))" for px u b
    using h2_fallback_closes [OF that] by (auto simp: close_tunnel_def)
  have fin: "?ours c" if "c \<in> set (h2r_left (finish_conn env cfg ?close hello p [] blocked u))" for hello p u
    using finish_left [OF that] by auto
  have ours: "?ours (?close u)" for u by (auto simp: close_tunnel_def)
  show ?thesis
  proof (cases "choose_hello env cfg")
    case (Inl e)
    with assms Inr ours show ?thesis by (auto simp: h2_createConn_def h2_failed_def)
  next
    case hello: (Inr hello)
    show ?thesis
    proof (cases "apply_hello env hello t")
      case (Some e)
      with assms Inr hello ours show ?thesis by (auto simp: h2_createConn_def h2_failed_def)
    next
      case None
      with assms Inr hello ours fb fin show ?thesis
        by (auto simp: h2_createConn_def h2_failed_def Let_def split: sum.splits prod.splits option.splits if_splits)
    qed
  qed
qed

text \<open>C32.
  A connection that \<open>createConn\<close> returns, or hands over inside the error for another protocol, has
  shaken hands with the hello of the configuration and with the parameters for the requested host, and
  is set up with the preset's settings exactly if the handshake agreed on HTTP/2. Every other connection
  that it opened is closed when it returns.
\<close>

theorem h2_createConn_safe:
  "shaken env cfg host (h2_createConn env cfg blocked host port) \<and>
   set (h2r_left (h2_createConn env cfg blocked host port)) \<subseteq> range (de_close (te_proxy env)) \<union> range (de_close (te_fresh env))"
proof (intro conjI subsetI)
  fix c
  assume "c \<in> set (h2r_left (h2_createConn env cfg blocked host port))"
  from h2_createConn_closes [OF this] show "c \<in> range (de_close (te_proxy env)) \<union> range (de_close (te_fresh env))" by auto
qed (rule created_shaken)

text \<open>A proxy is marked against speculation only after a speculative connection through it has failed.\<close>

lemma h2_finish_blocked [simp]: "h2r_blocked (finish_conn env cfg close hello p left blocked t) = blocked"
  by (simp add: finish_conn_def h2_failed_def split: option.split)

lemma h2_fallback_blocked [simp]: "h2r_blocked (h2_fallback env cfg px host port left blocked) = blocked"
  by (simp add: h2_fallback_def h2_failed_def Let_def split: sum.split option.split prod.split)

lemma h2_createConn_blocked:
  "h2r_blocked (h2_createConn env cfg blocked host port) = blocked \<or>
   (\<exists>px. h2t_proxy cfg = Some px \<and> h2r_blocked (h2_createConn env cfg blocked host port) = MarkProxyNoSpeculative (px_URL px) blocked)"
  by (auto simp: h2_createConn_def h2_failed_def Let_def split: sum.split option.split prod.split)

text \<open>A preset with a hello for resumption never sends its own hello, not even on the first connection.\<close>

lemma resumption_hello_preferred:
  assumes "ci_Client (pr_PSKClientHelloID (h2t_preset cfg)) \<noteq> ''''" "pr_JA3 (h2t_preset cfg) = ''''" "h2t_customJA3 cfg = ''''"
    and "te_spec env (pr_PSKClientHelloID (h2t_preset cfg)) = Some s"
  shows "choose_hello env cfg = Inr (SpecHello s)"
  using assms by (simp add: choose_hello_def ja3_choice_def hasPSKSpec_def)

text \<open>Without an order in the preset, the settings that are sent are distinct and have values.\<close>

lemma default_settings_order:
  assumes "H2SettingsOrder p = None"
  shows "distinct (h2_settings_order p)" "set (h2_settings_order p) \<subseteq> fst ` set (h2_settings (pr_HTTP2Settings p))"
  using assms by (auto simp: h2_settings_order_def h2_settings_def Let_def)

end
