(* ===== verification/Http2Pool.thy ===== *)
theory Http2Pool
  imports Http2Conn
begin

text \<open>
  The connection table of the HTTP/2 transport and its round trips, \<open>transport/http2_transport.go\<close>. Many
  calls share a connection. A call is a state machine whose steps are the sections under a lock, the
  dial and the exchange, so that calls interleave as goroutines do. A connection is an index into a
  store; the port it was dialled for is kept for the specification. Whether the exchange on a
  connection fails, the clock and the end of a context are arguments of a step. Connections that the
  code closes in goroutines are out of the table by then and are closed at once. \<open>SetConnectTo\<close> writes
  the table of the configuration without the lock its readers would need, so the configuration is fixed
  here.
\<close>

section \<open>State\<close>

record 'c h2conn =
  pc_host :: string
  pc_port :: string
  pc_tunnel :: "'c tunnel"
  pc_createdAt :: time
  pc_lastUsedAt :: time
  pc_useCount :: int
  pc_inFlight :: int
  pc_closed :: bool

record 'c h2_transport =
  h2p_conns :: "(string, nat) gomap"
  h2p_store :: "'c h2conn list"
  h2p_blocked :: "string set"
  h2p_closed :: bool

definition NewHTTP2Transport :: "'c h2_transport" where
  "NewHTTP2Transport = \<lparr>h2p_conns = [], h2p_store = [], h2p_blocked = {}, h2p_closed = False\<rparr>"

definition h2_maxIdleTime :: duration where
  "h2_maxIdleTime = 90 * second"

definition h2_maxConnAge :: duration where
  "h2_maxConnAge = 300 * second"

definition h2_key :: "h2_config \<Rightarrow> string \<Rightarrow> string \<Rightarrow> string" where
  "h2_key cfg host port = JoinHostPort (h2_getConnectHost cfg host) port"

definition upd_conn :: "nat \<Rightarrow> ('c h2conn \<Rightarrow> 'c h2conn) \<Rightarrow> 'c h2_transport \<Rightarrow> 'c h2_transport" where
  "upd_conn i f t = t\<lparr>h2p_store := (h2p_store t)[i := f (h2p_store t ! i)]\<rparr>"

definition h2_close_conn :: "nat \<Rightarrow> 'c h2_transport \<Rightarrow> 'c h2_transport" where
  "h2_close_conn i t = upd_conn i (\<lambda>c. c\<lparr>pc_closed := True\<rparr>) t"

definition h2_close_all :: "nat list \<Rightarrow> 'c h2_transport \<Rightarrow> 'c h2_transport" where
  "h2_close_all is t = fold h2_close_conn is t"

definition isConnUsable :: "time \<Rightarrow> 'c h2conn \<Rightarrow> bool" where
  "isConnUsable now c \<longleftrightarrow>
     \<not> now - pc_createdAt c > h2_maxConnAge \<and> \<not> (pc_inFlight c = 0 \<and> now - pc_lastUsedAt c > h2_maxIdleTime)"

definition h2_removeConn :: "string \<Rightarrow> 'c h2_transport \<Rightarrow> 'c h2_transport" where
  "h2_removeConn key t =
     (case map_of (h2p_conns t) key of None \<Rightarrow> t
      | Some i \<Rightarrow> h2_close_conn i (t\<lparr>h2p_conns := AList.delete key (h2p_conns t)\<rparr>))"

definition h2_cleanup :: "time \<Rightarrow> 'c h2_transport \<Rightarrow> 'c h2_transport" where
  "h2_cleanup now t =
     (let usable = (\<lambda>(k, i). isConnUsable now (h2p_store t ! i)) in
      (h2_close_all (map snd (filter (\<lambda>e. \<not> usable e) (h2p_conns t))) t)\<lparr>h2p_conns := filter usable (h2p_conns t)\<rparr>)"

definition h2_drop_all :: "'c h2_transport \<Rightarrow> 'c h2_transport" where
  "h2_drop_all t = (h2_close_all (map snd (h2p_conns t)) t)\<lparr>h2p_conns := []\<rparr>"

definition h2_Close :: "'c h2_transport \<Rightarrow> 'c h2_transport" where
  "h2_Close t = (if h2p_closed t then t else h2_drop_all (t\<lparr>h2p_closed := True\<rparr>))"

definition h2_Refresh :: "'c h2_transport \<Rightarrow> 'c h2_transport" where
  "h2_Refresh t = (if h2p_closed t then t else h2_drop_all t)"

record ConnStats =
  cs_Host :: string
  cs_CreatedAt :: time
  cs_LastUsedAt :: time
  cs_UseCount :: int
  cs_Age :: duration
  cs_IdleTime :: duration
  cs_IsReused :: bool

definition conn_stats :: "time \<Rightarrow> 'c h2conn \<Rightarrow> ConnStats" where
  "conn_stats now c =
     \<lparr>cs_Host = pc_host c, cs_CreatedAt = pc_createdAt c, cs_LastUsedAt = pc_lastUsedAt c, cs_UseCount = pc_useCount c,
      cs_Age = now - pc_createdAt c, cs_IdleTime = now - pc_lastUsedAt c, cs_IsReused = pc_useCount c > 1\<rparr>"

definition h2_Stats :: "time \<Rightarrow> 'c h2_transport \<Rightarrow> (string, ConnStats) gomap" where
  "h2_Stats now t = map (\<lambda>(k, i). (k, conn_stats now (h2p_store t ! i))) (h2p_conns t)"

definition h2_IsConnectionReused :: "time \<Rightarrow> string \<Rightarrow> string \<Rightarrow> 'c h2_transport \<Rightarrow> bool" where
  "h2_IsConnectionReused now host port t =
     (case map_of (h2p_conns t) (JoinHostPort host port) of None \<Rightarrow> False
      | Some i \<Rightarrow> isConnUsable now (h2p_store t ! i))"

definition h2_GetConnectionUseCount :: "string \<Rightarrow> string \<Rightarrow> 'c h2_transport \<Rightarrow> int" where
  "h2_GetConnectionUseCount host port t =
     (case map_of (h2p_conns t) (JoinHostPort host port) of None \<Rightarrow> 0 | Some i \<Rightarrow> pc_useCount (h2p_store t ! i))"

section \<open>Calls\<close>

datatype 'c h2_error =
    TransportClosed
  | ConnFailed string
  | AlpnMismatch string "'c tunnel"
  | TripFailed string
  | ContextEnded string

text \<open>
  Where a call stands. The flag tells the second attempt of a round trip; a connection that has been
  dialled belongs to the call until it is put into the table.
\<close>

datatype 'c h2_at =
    AtStart
  | AtLookup bool
  | AtCheck bool nat
  | AtLock bool
  | AtDial bool
  | AtInstall bool "'c h2conn"
  | AtEnter bool nat
  | AtSend bool nat
  | AtRemove bool string
  | AtDone "'c h2_error + nat"
  | ConnectStart
  | ConnectCheck nat
  | ConnectDial
  | ConnectInstall "'c h2conn"
  | ConnectDone "'c h2_error option"

definition h2_dial ::
  "h2_config \<Rightarrow> 'c h2_env \<Rightarrow> time \<Rightarrow> string \<Rightarrow> string \<Rightarrow> 'c h2_transport \<Rightarrow> ('c h2_error + 'c h2conn) \<times> 'c h2_transport" where
  "h2_dial cfg env now host port t =
     (let r = h2_createConn env cfg (h2p_blocked t) host port in
      (case h2r_result r of
         H2Ready u hello w \<Rightarrow>
           Inr \<lparr>pc_host = host, pc_port = port, pc_tunnel = u, pc_createdAt = now, pc_lastUsedAt = now, pc_useCount = 0,
                pc_inFlight = 0, pc_closed = False\<rparr>
       | H2WrongProtocol p u \<Rightarrow> Inl (AlpnMismatch p u)
       | H2Failed e \<Rightarrow> Inl (ConnFailed e),
       t\<lparr>h2p_blocked := h2r_blocked r\<rparr>))"

text \<open>A new connection into the table, or closed because it is not needed.\<close>

definition h2_store_conn :: "string \<Rightarrow> 'c h2conn \<Rightarrow> 'c h2_transport \<Rightarrow> 'c h2_transport" where
  "h2_store_conn key c t =
     t\<lparr>h2p_store := h2p_store t @ [c], h2p_conns := AList.update key (length (h2p_store t)) (h2p_conns t)\<rparr>"

definition h2_discard :: "'c h2conn \<Rightarrow> 'c h2_transport \<Rightarrow> 'c h2_transport" where
  "h2_discard c t = t\<lparr>h2p_store := h2p_store t @ [c\<lparr>pc_closed := True\<rparr>]\<rparr>"

text \<open>The sections of \<open>getOrCreateConn\<close> under the write lock, before and after the dial.\<close>

definition h2_take :: "time \<Rightarrow> string \<Rightarrow> bool \<Rightarrow> 'c h2_transport \<Rightarrow> 'c h2_at \<times> 'c h2_transport" where
  "h2_take now key b t =
     (if h2p_closed t then (AtDone (Inl TransportClosed), t)
      else case map_of (h2p_conns t) key of None \<Rightarrow> (AtDial b, t)
        | Some i \<Rightarrow>
            if isConnUsable now (h2p_store t ! i) then (AtEnter b i, t)
            else (AtDial b, h2_close_conn i (t\<lparr>h2p_conns := AList.delete key (h2p_conns t)\<rparr>)))"

definition h2_install :: "time \<Rightarrow> string \<Rightarrow> bool \<Rightarrow> 'c h2conn \<Rightarrow> 'c h2_transport \<Rightarrow> 'c h2_at \<times> 'c h2_transport" where
  "h2_install now key b c t =
     (if h2p_closed t then (AtDone (Inl TransportClosed), h2_discard c t)
      else case map_of (h2p_conns t) key of
          None \<Rightarrow> (AtEnter b (length (h2p_store t)), h2_store_conn key c t)
        | Some i \<Rightarrow>
            if isConnUsable now (h2p_store t ! i) then (AtEnter b i, h2_discard c t)
            else (AtEnter b (length (h2p_store t)), h2_store_conn key c t))"

definition h2_connect_install :: "time \<Rightarrow> string \<Rightarrow> 'c h2conn \<Rightarrow> 'c h2_transport \<Rightarrow> 'c h2_at \<times> 'c h2_transport" where
  "h2_connect_install now key c t =
     (if h2p_closed t then (ConnectDone (Some TransportClosed), h2_discard c t)
      else case map_of (h2p_conns t) key of
          None \<Rightarrow> (ConnectDone None, h2_store_conn key c t)
        | Some i \<Rightarrow>
            if isConnUsable now (h2p_store t ! i) then (ConnectDone None, h2_discard c t)
            else (ConnectDone None, h2_store_conn key c (h2_close_conn i t)))"

definition h2_enter :: "time \<Rightarrow> bool \<Rightarrow> 'c h2conn \<Rightarrow> 'c h2conn" where
  "h2_enter now retry c = c\<lparr>pc_inFlight := pc_inFlight c + 1, pc_lastUsedAt := (if retry then pc_lastUsedAt c else now)\<rparr>"

definition h2_answered :: "time \<Rightarrow> 'c h2conn \<Rightarrow> 'c h2conn" where
  "h2_answered now c = c\<lparr>pc_lastUsedAt := now, pc_inFlight := pc_inFlight c - 1, pc_useCount := pc_useCount c + 1\<rparr>"

text \<open>What the world decides in a step: the dial, the error of the exchange if it has one, and whether the context has ended.\<close>

record 'c h2_input =
  in_env :: "'c h2_env"
  in_now :: time
  in_failure :: "string option"
  in_context :: "string option"

text \<open>One step of \<open>RoundTrip\<close> or \<open>Connect\<close> for a host and a port.\<close>

fun h2_call_step ::
  "h2_config \<Rightarrow> 'c h2_input \<Rightarrow> string \<Rightarrow> string \<Rightarrow> 'c h2_at \<Rightarrow> 'c h2_transport \<Rightarrow> 'c h2_at \<times> 'c h2_transport" where
  "h2_call_step cfg io host port AtStart t =
     (if h2p_closed t then (AtDone (Inl TransportClosed), t) else (AtLookup False, t))"
| "h2_call_step cfg io host port (AtLookup b) t =
     (if h2p_closed t then (AtDone (Inl TransportClosed), t)
      else (case map_of (h2p_conns t) (h2_key cfg host port) of None \<Rightarrow> AtLock b | Some i \<Rightarrow> AtCheck b i, t))"
| "h2_call_step cfg io host port (AtCheck b i) t =
     (if isConnUsable (in_now io) (h2p_store t ! i) then AtEnter b i else AtLock b, t)"
| "h2_call_step cfg io host port (AtLock b) t = h2_take (in_now io) (h2_key cfg host port) b t"
| "h2_call_step cfg io host port (AtDial b) t =
     (case h2_dial cfg (in_env io) (in_now io) host port t of
        (Inl e, t1) \<Rightarrow> (AtDone (Inl e), t1)
      | (Inr c, t1) \<Rightarrow> (AtInstall b c, t1))"
| "h2_call_step cfg io host port (AtInstall b c) t = h2_install (in_now io) (h2_key cfg host port) b c t"
| "h2_call_step cfg io host port (AtEnter b i) t = (AtSend b i, upd_conn i (h2_enter (in_now io) b) t)"
| "h2_call_step cfg io host port (AtSend b i) t =
     (case in_failure io of
        None \<Rightarrow> (AtDone (Inr i), upd_conn i (h2_answered (in_now io)) t)
      | Some e \<Rightarrow> (AtRemove b e, upd_conn i (\<lambda>c. c\<lparr>pc_inFlight := pc_inFlight c - 1\<rparr>) t))"
| "h2_call_step cfg io host port (AtRemove b e) t =
     (if b then AtDone (Inl (TripFailed e))
      else case in_context io of Some x \<Rightarrow> AtDone (Inl (ContextEnded x)) | None \<Rightarrow> AtLookup True,
      h2_removeConn (h2_key cfg host port) t)"
| "h2_call_step cfg io host port (AtDone r) t = (AtDone r, t)"
| "h2_call_step cfg io host port ConnectStart t =
     (if h2p_closed t then (ConnectDone (Some TransportClosed), t)
      else (case map_of (h2p_conns t) (h2_key cfg host port) of None \<Rightarrow> ConnectDial | Some i \<Rightarrow> ConnectCheck i, t))"
| "h2_call_step cfg io host port (ConnectCheck i) t =
     (if isConnUsable (in_now io) (h2p_store t ! i) then ConnectDone None else ConnectDial, t)"
| "h2_call_step cfg io host port ConnectDial t =
     (case h2_dial cfg (in_env io) (in_now io) host port t of
        (Inl e, t1) \<Rightarrow> (ConnectDone (Some e), t1)
      | (Inr c, t1) \<Rightarrow> (ConnectInstall c, t1))"
| "h2_call_step cfg io host port (ConnectInstall c) t = h2_connect_install (in_now io) (h2_key cfg host port) c t"
| "h2_call_step cfg io host port (ConnectDone r) t = (ConnectDone r, t)"

section \<open>The transport with its calls\<close>

text \<open>A call may start at any time. Its port is a number, as that of a parsed URL is, so it has no colon.\<close>

record 'c h2_call =
  call_host :: string
  call_port :: string
  call_at :: "'c h2_at"

record 'c h2_system =
  sy_t :: "'c h2_transport"
  sy_calls :: "'c h2_call list"

definition run_call :: "h2_config \<Rightarrow> 'c h2_input \<Rightarrow> nat \<Rightarrow> 'c h2_system \<Rightarrow> 'c h2_system" where
  "run_call cfg io a s =
     (let call = sy_calls s ! a;
          (pc1, t1) = h2_call_step cfg io (call_host call) (call_port call) (call_at call) (sy_t s) in
      s\<lparr>sy_t := t1, sy_calls := (sy_calls s)[a := call\<lparr>call_at := pc1\<rparr>]\<rparr>)"

inductive h2_step :: "h2_config \<Rightarrow> 'c h2_env set \<Rightarrow> 'c h2_system \<Rightarrow> 'c h2_system \<Rightarrow> bool" for cfg E where
  starts: "call_at call = AtStart \<or> call_at call = ConnectStart \<Longrightarrow> CHR '':'' \<notin> set (call_port call) \<Longrightarrow>
    h2_step cfg E s (s\<lparr>sy_calls := sy_calls s @ [call]\<rparr>)"
| runs: "a < length (sy_calls s) \<Longrightarrow> in_env io \<in> E \<Longrightarrow> h2_step cfg E s (run_call cfg io a s)"
| cleans: "h2_step cfg E s (s\<lparr>sy_t := h2_cleanup now (sy_t s)\<rparr>)"
| closes: "h2_step cfg E s (s\<lparr>sy_t := h2_Close (sy_t s)\<rparr>)"
| refreshes: "h2_step cfg E s (s\<lparr>sy_t := h2_Refresh (sy_t s)\<rparr>)"

definition h2_begin :: "'c h2_system" where
  "h2_begin = \<lparr>sy_t = NewHTTP2Transport, sy_calls = []\<rparr>"

section \<open>Invariants\<close>

text \<open>A connection has shaken hands for its host, by one of the dials, and HTTP/2 was agreed.\<close>

definition conn_ok :: "h2_config \<Rightarrow> 'c h2_env set \<Rightarrow> 'c h2conn \<Rightarrow> bool" where
  "conn_ok cfg E c \<longleftrightarrow>
     CHR '':'' \<notin> set (pc_port c) \<and>
     (\<exists>env\<in>E. \<exists>hello t0. choose_hello env cfg = Inr hello \<and>
        te_handshake env hello (h2_tls_params env cfg (pc_host c)) t0 = (Inr ''h2'', pc_tunnel c))"

definition same_conn :: "'c h2conn \<Rightarrow> 'c h2conn \<Rightarrow> bool" where
  "same_conn c c' \<longleftrightarrow> pc_host c' = pc_host c \<and> pc_port c' = pc_port c \<and> pc_tunnel c' = pc_tunnel c"

text \<open>The table has one connection for a key, which is open and was dialled for it; none after \<open>Close\<close>.\<close>

definition h2_entry_ok :: "h2_config \<Rightarrow> 'c h2_transport \<Rightarrow> string \<Rightarrow> nat \<Rightarrow> bool" where
  "h2_entry_ok cfg t k i \<longleftrightarrow>
     i < length (h2p_store t) \<and> h2_key cfg (pc_host (h2p_store t ! i)) (pc_port (h2p_store t ! i)) = k \<and>
     \<not> pc_closed (h2p_store t ! i)"

definition table_ok :: "h2_config \<Rightarrow> 'c h2_transport \<Rightarrow> bool" where
  "table_ok cfg t \<longleftrightarrow>
     distinct (map fst (h2p_conns t)) \<and> (\<forall>k i. map_of (h2p_conns t) k = Some i \<longrightarrow> h2_entry_ok cfg t k i) \<and>
     (h2p_closed t \<longrightarrow> h2p_conns t = [])"

text \<open>The connection that a call has chosen, or has its answer from; and the one it has dialled.\<close>

fun held_conn :: "'c h2_at \<Rightarrow> nat option" where
  "held_conn (AtCheck b i) = Some i"
| "held_conn (AtEnter b i) = Some i"
| "held_conn (AtSend b i) = Some i"
| "held_conn (AtDone (Inr i)) = Some i"
| "held_conn (ConnectCheck i) = Some i"
| "held_conn pc = None"

fun dialled_conn :: "'c h2_at \<Rightarrow> 'c h2conn option" where
  "dialled_conn (AtInstall b c) = Some c"
| "dialled_conn (ConnectInstall c) = Some c"
| "dialled_conn pc = None"

fun sending :: "nat \<Rightarrow> 'c h2_at \<Rightarrow> bool" where
  "sending i (AtSend b j) = (i = j)"
| "sending i pc = False"

definition new_ok :: "h2_config \<Rightarrow> 'c h2_env set \<Rightarrow> string \<Rightarrow> string \<Rightarrow> 'c h2conn \<Rightarrow> bool" where
  "new_ok cfg E host port c \<longleftrightarrow>
     pc_host c = host \<and> pc_port c = port \<and> \<not> pc_closed c \<and> pc_inFlight c = 0 \<and> conn_ok cfg E c"

definition at_ok :: "h2_config \<Rightarrow> 'c h2_env set \<Rightarrow> string \<Rightarrow> string \<Rightarrow> 'c h2_transport \<Rightarrow> 'c h2_at \<Rightarrow> bool" where
  "at_ok cfg E host port t pc \<longleftrightarrow>
     (\<forall>i. held_conn pc = Some i \<longrightarrow>
        i < length (h2p_store t) \<and>
        h2_key cfg (pc_host (h2p_store t ! i)) (pc_port (h2p_store t ! i)) = h2_key cfg host port) \<and>
     (\<forall>c. dialled_conn pc = Some c \<longrightarrow> new_ok cfg E host port c)"

definition h2_inv :: "h2_config \<Rightarrow> 'c h2_env set \<Rightarrow> 'c h2_system \<Rightarrow> bool" where
  "h2_inv cfg E s \<longleftrightarrow>
     table_ok cfg (sy_t s) \<and> list_all (conn_ok cfg E) (h2p_store (sy_t s)) \<and>
     list_all (\<lambda>call. at_ok cfg E (call_host call) (call_port call) (sy_t s) (call_at call)) (sy_calls s) \<and>
     list_all (\<lambda>call. CHR '':'' \<notin> set (call_port call)) (sy_calls s) \<and>
     (\<forall>i<length (h2p_store (sy_t s)).
        pc_inFlight (h2p_store (sy_t s) ! i) = int (length (filter (\<lambda>call. sending i (call_at call)) (sy_calls s))))"

section \<open>What a step may change\<close>

text \<open>Connections stay what they are, new ones are in order; in a quiet step no call enters or leaves one.\<close>

definition grows :: "h2_config \<Rightarrow> 'c h2_env set \<Rightarrow> 'c h2_transport \<Rightarrow> 'c h2_transport \<Rightarrow> bool" where
  "grows cfg E t t' \<longleftrightarrow>
     length (h2p_store t) \<le> length (h2p_store t') \<and>
     (\<forall>i<length (h2p_store t'). if i < length (h2p_store t) then same_conn (h2p_store t ! i) (h2p_store t' ! i)
        else pc_inFlight (h2p_store t' ! i) = 0 \<and> conn_ok cfg E (h2p_store t' ! i))"

definition quiet :: "h2_config \<Rightarrow> 'c h2_env set \<Rightarrow> 'c h2_transport \<Rightarrow> 'c h2_transport \<Rightarrow> bool" where
  "quiet cfg E t t' \<longleftrightarrow>
     grows cfg E t t' \<and> (\<forall>i<length (h2p_store t). pc_inFlight (h2p_store t' ! i) = pc_inFlight (h2p_store t ! i))"

lemma length_upd [simp]: "length (h2p_store (upd_conn i f t)) = length (h2p_store t)"
  by (simp add: upd_conn_def)

lemma nth_upd: "j < length (h2p_store t) \<Longrightarrow>
    h2p_store (upd_conn i f t) ! j = (if i = j then f (h2p_store t ! j) else h2p_store t ! j)"
  by (auto simp: upd_conn_def)

lemma upd_simps [simp]:
  "h2p_conns (upd_conn i f t) = h2p_conns t" "h2p_closed (upd_conn i f t) = h2p_closed t"
  "h2p_conns (h2_close_conn i t) = h2p_conns t" "h2p_closed (h2_close_conn i t) = h2p_closed t"
  "length (h2p_store (h2_close_conn i t)) = length (h2p_store t)"
  by (simp_all add: upd_conn_def h2_close_conn_def)

lemma h2_close_all_simps [simp]:
  "h2p_conns (h2_close_all is t) = h2p_conns t" "h2p_closed (h2_close_all is t) = h2p_closed t"
  "length (h2p_store (h2_close_all is t)) = length (h2p_store t)"
  by (induction "is" arbitrary: t) (simp_all add: h2_close_all_def)

lemma conn_ok_same: "same_conn c c' \<Longrightarrow> conn_ok cfg E c' = conn_ok cfg E c"
  by (simp add: same_conn_def conn_ok_def)

lemma same_conn_trans: "same_conn a b \<Longrightarrow> same_conn b c \<Longrightarrow> same_conn a c"
  by (simp add: same_conn_def)

lemma quiet_store: "h2p_store t' = h2p_store t \<Longrightarrow> quiet cfg E t t'"
  by (simp add: quiet_def grows_def same_conn_def)

lemma quiet_trans: "quiet cfg E t t1 \<Longrightarrow> quiet cfg E t1 t2 \<Longrightarrow> quiet cfg E t t2"
  unfolding quiet_def grows_def by (smt (verit) conn_ok_same order_less_le_trans order_trans same_conn_trans)

lemma grows_upd: "(\<And>c. same_conn c (f c)) \<Longrightarrow> grows cfg E t (upd_conn i f t)"
  by (auto simp: grows_def nth_upd same_conn_def)

lemma quiet_close: "quiet cfg E t (h2_close_conn i t)"
  by (auto simp: quiet_def h2_close_conn_def nth_upd same_conn_def intro: grows_upd)

lemma quiet_close_all: "quiet cfg E t (h2_close_all is t)"
proof (induction "is" arbitrary: t)
  case Nil
  then show ?case by (simp add: h2_close_all_def quiet_store)
next
  case (Cons i "is")
  from quiet_trans [OF quiet_close Cons] show ?case by (simp add: h2_close_all_def)
qed

lemma quiet_append:
  "h2p_store t' = h2p_store t @ [c] \<Longrightarrow> pc_inFlight c = 0 \<Longrightarrow> conn_ok cfg E c \<Longrightarrow> quiet cfg E t t'"
  by (auto simp: quiet_def grows_def nth_append same_conn_def)

lemma quiet_store_conn: "new_ok cfg E host port c \<Longrightarrow> quiet cfg E t (h2_store_conn key c t)"
  by (rule quiet_append [where c = c]) (simp_all add: h2_store_conn_def new_ok_def)

lemma quiet_discard: "new_ok cfg E host port c \<Longrightarrow> quiet cfg E t (h2_discard c t)"
  by (rule quiet_append [where c = "c\<lparr>pc_closed := True\<rparr>"]) (auto simp: h2_discard_def new_ok_def conn_ok_def)

lemma at_ok_grows: "grows cfg E t t' \<Longrightarrow> at_ok cfg E host port t pc \<Longrightarrow> at_ok cfg E host port t' pc"
  unfolding grows_def at_ok_def same_conn_def by fastforce

lemma conns_ok_grows: "grows cfg E t t' \<Longrightarrow> list_all (conn_ok cfg E) (h2p_store t) \<Longrightarrow> list_all (conn_ok cfg E) (h2p_store t')"
  unfolding grows_def list_all_length by (metis conn_ok_same)

section \<open>The table\<close>

lemma entry_close: "j \<noteq> i \<Longrightarrow> h2_entry_ok cfg (h2_close_conn i t) k j = h2_entry_ok cfg t k j"
  by (auto simp: h2_entry_ok_def h2_close_conn_def nth_upd)

lemma entry_close_all: "j \<notin> set is \<Longrightarrow> h2_entry_ok cfg (h2_close_all is t) k j = h2_entry_ok cfg t k j"
  by (induction "is" arbitrary: t) (simp_all add: h2_close_all_def entry_close)

lemma entry_conns [simp]: "h2_entry_ok cfg (t\<lparr>h2p_conns := m\<rparr>) k i = h2_entry_ok cfg t k i"
  by (simp add: h2_entry_ok_def)

lemma entry_append: "h2p_store t' = h2p_store t @ [c] \<Longrightarrow> h2_entry_ok cfg t k i \<Longrightarrow> h2_entry_ok cfg t' k i"
  by (auto simp: h2_entry_ok_def nth_append)

lemma table_entry: "table_ok cfg t \<Longrightarrow> map_of (h2p_conns t) k = Some i \<Longrightarrow> h2_entry_ok cfg t k i"
  by (simp add: table_ok_def)

lemma table_close: "table_ok cfg t \<Longrightarrow> (\<And>k. map_of (h2p_conns t) k \<noteq> Some i) \<Longrightarrow> table_ok cfg (h2_close_conn i t)"
  unfolding table_ok_def by (metis entry_close upd_simps(3,4))

lemma table_delete: "table_ok cfg t \<Longrightarrow> table_ok cfg (t\<lparr>h2p_conns := AList.delete key (h2p_conns t)\<rparr>)"
  by (auto simp: table_ok_def AList.distinct_delete AList.delete_conv' split: if_splits)

lemma only_key:
  "table_ok cfg t \<Longrightarrow> map_of (h2p_conns t) key = Some i \<Longrightarrow> map_of (h2p_conns t) k = Some i \<Longrightarrow> k = key"
  by (metis h2_entry_ok_def table_entry)

lemma table_remove:
  assumes "table_ok cfg t" "map_of (h2p_conns t) key = Some i"
  shows "table_ok cfg (h2_close_conn i (t\<lparr>h2p_conns := AList.delete key (h2p_conns t)\<rparr>))"
proof (rule table_close [OF table_delete [OF assms(1)]])
  fix k
  show "map_of (h2p_conns (t\<lparr>h2p_conns := AList.delete key (h2p_conns t)\<rparr>)) k \<noteq> Some i"
    using only_key [OF assms] by (auto simp: AList.delete_conv')
qed

lemma table_store_conn:
  assumes "table_ok cfg t" "\<not> h2p_closed t" "new_ok cfg E host port c"
  shows "table_ok cfg (h2_store_conn (h2_key cfg host port) c t)"
proof -
  let ?t = "h2_store_conn (h2_key cfg host port) c t"
  have st: "h2p_store ?t = h2p_store t @ [c]" by (simp add: h2_store_conn_def)
  have "h2_entry_ok cfg ?t (h2_key cfg host port) (length (h2p_store t))"
    using assms(3) by (simp add: h2_entry_ok_def st new_ok_def)
  moreover have "map_of (h2p_conns t) k = Some i \<Longrightarrow> h2_entry_ok cfg ?t k i" for k i
    using entry_append [OF st] table_entry [OF assms(1)] by blast
  ultimately show ?thesis using assms(1,2)
    by (auto simp: table_ok_def h2_store_conn_def AList.distinct_update AList.update_conv' split: if_splits)
qed

lemma table_discard: "table_ok cfg t \<Longrightarrow> table_ok cfg (h2_discard c t)"
  unfolding table_ok_def h2_discard_def by (auto intro: entry_append)

lemma store_close_swap:
  "i < length (h2p_store t) \<Longrightarrow> h2_store_conn key c (h2_close_conn i t) = h2_close_conn i (h2_store_conn key c t)"
  by (simp add: h2_store_conn_def h2_close_conn_def upd_conn_def list_update_append1 nth_append)

lemma table_replace:
  assumes "table_ok cfg t" "\<not> h2p_closed t" "new_ok cfg E host port c" "map_of (h2p_conns t) (h2_key cfg host port) = Some i"
  shows "table_ok cfg (h2_store_conn (h2_key cfg host port) c (h2_close_conn i t))"
proof -
  have i: "i < length (h2p_store t)" using table_entry [OF assms(1,4)] by (simp add: h2_entry_ok_def)
  have "map_of (h2p_conns (h2_store_conn (h2_key cfg host port) c t)) k \<noteq> Some i" for k
    using only_key [OF assms(1,4)] i by (auto simp: h2_store_conn_def AList.update_conv')
  from table_close [OF table_store_conn [OF assms(1-3)] this] show ?thesis by (simp add: store_close_swap i)
qed

lemma table_drop: "distinct (map fst m) \<Longrightarrow> table_ok cfg ((h2_close_all is t)\<lparr>h2p_conns := []\<rparr>)"
  by (simp add: table_ok_def)

lemma table_cleanup: "table_ok cfg t \<Longrightarrow> table_ok cfg (h2_cleanup now t)"
proof -
  assume ok: "table_ok cfg t"
  let ?u = "\<lambda>(k, i). isConnUsable now (h2p_store t ! i)"
  have d: "distinct (map fst (filter ?u (h2p_conns t)))"
    using ok by (auto simp: table_ok_def intro: distinct_map_filter)
  have "h2_entry_ok cfg (h2_close_all (map snd (filter (\<lambda>e. \<not> ?u e) (h2p_conns t))) t) k i"
    if "map_of (filter ?u (h2p_conns t)) k = Some i" for k i
  proof -
    from map_of_SomeD [OF that] have e: "(k, i) \<in> set (h2p_conns t)" "isConnUsable now (h2p_store t ! i)" by auto
    then have "h2_entry_ok cfg t k i" using ok by (auto simp: table_ok_def intro: table_entry)
    moreover have "i \<notin> set (map snd (filter (\<lambda>e. \<not> ?u e) (h2p_conns t)))" using e(2) by auto
    ultimately show ?thesis by (simp add: entry_close_all)
  qed
  then show ?thesis using d ok by (auto simp: table_ok_def h2_cleanup_def Let_def)
qed

section \<open>The steps of a call\<close>

definition good_step :: "h2_config \<Rightarrow> 'c h2_env set \<Rightarrow> string \<Rightarrow> string \<Rightarrow> 'c h2_transport \<Rightarrow> 'c h2_at \<times> 'c h2_transport \<Rightarrow> bool" where
  "good_step cfg E host port t r \<longleftrightarrow>
     table_ok cfg (snd r) \<and> quiet cfg E t (snd r) \<and> at_ok cfg E host port (snd r) (fst r) \<and> (\<forall>i. \<not> sending i (fst r))"

lemma at_ok_plain: "held_conn pc = None \<Longrightarrow> dialled_conn pc = None \<Longrightarrow> at_ok cfg E host port t pc"
  by (simp add: at_ok_def)

lemma at_ok_entry:
  assumes "table_ok cfg t" "map_of (h2p_conns t) (h2_key cfg host port) = Some i" "held_conn pc = Some i" "dialled_conn pc = None"
  shows "at_ok cfg E host port t pc"
  using table_entry [OF assms(1,2)] assms(3,4) by (simp add: at_ok_def h2_entry_ok_def)

lemma good_take: "table_ok cfg t \<Longrightarrow> good_step cfg E host port t (h2_take now (h2_key cfg host port) b t)"
  by (auto simp: good_step_def h2_take_def at_ok_plain at_ok_entry quiet_store table_remove
      intro: quiet_trans [OF quiet_store quiet_close] split: option.split)

lemma good_install:
  assumes "table_ok cfg t" "new_ok cfg E host port c"
  shows "good_step cfg E host port t (h2_install now (h2_key cfg host port) b c t)"
proof -
  have new: "at_ok cfg E host port (h2_store_conn k c t) (AtEnter b (length (h2p_store t)))" for k
    using assms(2) by (simp add: at_ok_def h2_store_conn_def new_ok_def)
  have old: "at_ok cfg E host port (h2_discard c t) (AtEnter b i)" if "map_of (h2p_conns t) (h2_key cfg host port) = Some i" for i
    by (rule at_ok_entry [OF table_discard [OF assms(1)]]) (simp_all add: that h2_discard_def)
  show ?thesis using assms new old quiet_store_conn [OF assms(2)] quiet_discard [OF assms(2)]
    by (auto simp: good_step_def h2_install_def at_ok_plain table_discard table_store_conn split: option.split)
qed

lemma good_connect_install:
  assumes "table_ok cfg t" "new_ok cfg E host port c"
  shows "good_step cfg E host port t (h2_connect_install now (h2_key cfg host port) c t)"
  using assms quiet_store_conn [OF assms(2)] quiet_discard [OF assms(2)] quiet_trans [OF quiet_close quiet_store_conn [OF assms(2)]]
  by (auto simp: good_step_def h2_connect_install_def at_ok_plain table_discard table_store_conn table_replace split: option.split)

lemma dial_new:
  assumes "h2_dial cfg env now host port t = (Inr c, t1)" "env \<in> E" "CHR '':'' \<notin> set port"
  shows "new_ok cfg E host port c"
proof -
  from assms(1) obtain u hello w where r: "h2r_result (h2_createConn env cfg (h2p_blocked t) host port) = H2Ready u hello w"
    and c: "pc_host c = host" "pc_port c = port" "pc_tunnel c = u" "pc_inFlight c = 0" "\<not> pc_closed c"
    by (auto simp: h2_dial_def Let_def split: h2_result.splits)
  from created_shaken [of env cfg host "h2p_blocked t" port] r c assms(2) assms(3) show ?thesis
    by (auto simp: shaken_def new_ok_def conn_ok_def)
qed

lemma dial_table: "h2_dial cfg env now host port t = (r, t1) \<Longrightarrow> table_ok cfg t \<Longrightarrow> table_ok cfg t1 \<and> quiet cfg E t t1"
  by (auto simp: h2_dial_def Let_def table_ok_def h2_entry_ok_def intro: quiet_store)

lemma good_dial:
  assumes "table_ok cfg t" "env \<in> E" "h2_dial cfg env now host port t = (r, t1)"
    and "\<And>c. r = Inr c \<Longrightarrow> held_conn pc = None \<and> dialled_conn pc = Some c" "\<And>e. r = Inl e \<Longrightarrow> held_conn pc = None \<and> dialled_conn pc = None"
    and "\<And>i. \<not> sending i pc" "CHR '':'' \<notin> set port"
  shows "good_step cfg E host port t (pc, t1)"
  using dial_table [OF assms(3,1), of E] dial_new [OF _ assms(2) assms(7)] assms(3-6)
  by (cases r) (auto simp: good_step_def at_ok_def)

lemma good_remove:
  assumes "table_ok cfg t" "held_conn pc = None" "dialled_conn pc = None" "\<And>i. \<not> sending i pc"
  shows "good_step cfg E host port t (pc, h2_removeConn (h2_key cfg host port) t)"
  using assms by (auto simp: good_step_def h2_removeConn_def at_ok_plain quiet_store table_remove
      intro: quiet_trans [OF quiet_store quiet_close] split: option.split)

lemma good_same:
  "table_ok cfg t \<Longrightarrow> at_ok cfg E host port t pc \<Longrightarrow> (\<And>i. \<not> sending i pc) \<Longrightarrow> good_step cfg E host port t (pc, t)"
  by (simp add: good_step_def quiet_store)

text \<open>Every step but the two around the exchange is quiet.\<close>

lemma call_step_good:
  assumes "table_ok cfg t" "at_ok cfg E host port t pc" "in_env io \<in> E" "CHR '':'' \<notin> set port" "\<And>b i. pc \<noteq> AtEnter b i" "\<And>b i. pc \<noteq> AtSend b i"
  shows "good_step cfg E host port t (h2_call_step cfg io host port pc t)"
proof (cases pc)
  case (AtInstall b c)
  with assms(2) have "new_ok cfg E host port c" by (simp add: at_ok_def)
  then show ?thesis using AtInstall good_install [OF assms(1)] by simp
next
  case (ConnectInstall c)
  with assms(2) have "new_ok cfg E host port c" by (simp add: at_ok_def)
  then show ?thesis using ConnectInstall good_connect_install [OF assms(1)] by simp
next
  case (AtDial b)
  obtain r t1 where d: "h2_dial cfg (in_env io) (in_now io) host port t = (r, t1)" by fastforce
  show ?thesis using good_dial [OF assms(1,3) d] by (cases r) (auto simp: AtDial d assms(4))
next
  case ConnectDial
  obtain r t1 where d: "h2_dial cfg (in_env io) (in_now io) host port t = (r, t1)" by fastforce
  show ?thesis using good_dial [OF assms(1,3) d] by (cases r) (auto simp: ConnectDial d assms(4))
next
  case (AtLookup b)
  then show ?thesis using assms(1) by (auto intro!: good_same simp: at_ok_plain at_ok_entry split: option.split)
next
  case ConnectStart
  then show ?thesis using assms(1) by (auto intro!: good_same simp: at_ok_plain at_ok_entry split: option.split)
next
  case (AtRemove b e)
  then show ?thesis using assms(1) by (auto intro!: good_remove split: option.split)
next
  case (AtLock b)
  then show ?thesis using good_take [OF assms(1)] by simp
next
  case (AtCheck b i)
  with assms(1,2) show ?thesis by (auto intro!: good_same simp: at_ok_def)
qed (use assms in \<open>auto intro!: good_same simp: at_ok_plain\<close>)

lemma table_upd:
  "(\<And>c. same_conn c (f c) \<and> pc_closed (f c) = pc_closed c) \<Longrightarrow> table_ok cfg t \<Longrightarrow> table_ok cfg (upd_conn i f t)"
  by (auto simp: table_ok_def h2_entry_ok_def nth_upd same_conn_def)

text \<open>The steps around the exchange change one connection's count.\<close>

lemma call_step_counts:
  assumes "table_ok cfg t" "at_ok cfg E host port t pc" "pc = AtEnter b i \<or> pc = AtSend b i"
    and "h2_call_step cfg io host port pc t = (pc1, t1)"
  shows "table_ok cfg t1 \<and> grows cfg E t t1 \<and> at_ok cfg E host port t1 pc1 \<and>
    (\<forall>j<length (h2p_store t).
       pc_inFlight (h2p_store t1 ! j) + of_bool (sending j pc) = pc_inFlight (h2p_store t ! j) + of_bool (sending j pc1)) \<and>
    length (h2p_store t1) = length (h2p_store t)"
proof -
  obtain f where f: "t1 = upd_conn i f t" "\<And>c. same_conn c (f c) \<and> pc_closed (f c) = pc_closed c"
    and count: "\<And>c. pc_inFlight (f c) + of_bool (sending i pc) = pc_inFlight c + of_bool (sending i pc1)"
    and pc1: "\<And>j. j \<noteq> i \<Longrightarrow> \<not> sending j pc \<and> \<not> sending j pc1" "held_conn pc1 = None \<or> held_conn pc1 = held_conn pc" "dialled_conn pc1 = None"
    using assms(3,4) by (auto simp: h2_enter_def h2_answered_def same_conn_def split: option.splits)
  have g: "grows cfg E t t1" using grows_upd f by blast
  from at_ok_grows [OF g assms(2)] pc1(2,3) have "at_ok cfg E host port t1 pc1" by (auto simp: at_ok_def)
  moreover have "table_ok cfg t1" using table_upd f assms(1) by blast
  ultimately show ?thesis using g count pc1(1) by (auto simp: f(1) nth_upd)
qed

lemma filter_length_update:
  "a < length xs \<Longrightarrow>
   int (length (filter P (xs[a := x]))) + of_bool (P (xs ! a)) = int (length (filter P xs)) + of_bool (P x)"
proof (induction xs arbitrary: a)
  case (Cons y ys)
  show ?case
  proof (cases a)
    case (Suc b)
    with Cons.IH [of b] Cons.prems show ?thesis by auto
  qed simp
qed simp

section \<open>The invariant is kept\<close>

lemma none_sending:
  assumes "list_all (\<lambda>call. at_ok cfg E (call_host call) (call_port call) t (call_at call)) calls" "length (h2p_store t) \<le> j"
  shows "filter (\<lambda>call. sending j (call_at call)) calls = []"
proof -
  have "\<not> sending j (call_at call)" if "at_ok cfg E (call_host call) (call_port call) t (call_at call)" for call
    using that assms(2) by (cases "call_at call") (auto simp: at_ok_def)
  then show ?thesis using assms(1) by (auto simp: filter_empty_conv list_all_iff)
qed

lemma calls_ok_grows:
  fixes calls :: "'c h2_call list"
  shows "grows cfg E t t' \<Longrightarrow> list_all (\<lambda>call. at_ok cfg E (call_host call) (call_port call) t (call_at call)) calls \<Longrightarrow>
   list_all (\<lambda>call. at_ok cfg E (call_host call) (call_port call) t' (call_at call)) calls"
  by (auto simp: list_all_iff intro: at_ok_grows)

lemma grows_new: "grows cfg E t t' \<Longrightarrow> length (h2p_store t) \<le> j \<Longrightarrow> j < length (h2p_store t') \<Longrightarrow> pc_inFlight (h2p_store t' ! j) = 0"
  by (auto simp: grows_def)

lemma inv_quiet:
  assumes "h2_inv cfg E s" "quiet cfg E (sy_t s) t" "table_ok cfg t"
  shows "h2_inv cfg E (s\<lparr>sy_t := t\<rparr>)"
proof -
  have g: "grows cfg E (sy_t s) t" using assms(2) by (simp add: quiet_def)
  have "pc_inFlight (h2p_store t ! i) = int (length (filter (\<lambda>call. sending i (call_at call)) (sy_calls s)))"
    if "i < length (h2p_store t)" for i
  proof (cases "i < length (h2p_store (sy_t s))")
    case True
    then show ?thesis using assms(1,2) by (simp add: h2_inv_def quiet_def)
  next
    case False
    then show ?thesis using grows_new [OF g _ that] none_sending assms(1) by (fastforce simp: h2_inv_def)
  qed
  then show ?thesis using assms(1,3) conns_ok_grows [OF g] calls_ok_grows [OF g] by (simp add: h2_inv_def)
qed

lemma call_step_all:
  assumes "table_ok cfg t" "at_ok cfg E host port t pc" "in_env io \<in> E" "CHR '':'' \<notin> set port"
    and "h2_call_step cfg io host port pc t = (pc1, t1)"
  shows "table_ok cfg t1 \<and> grows cfg E t t1 \<and> at_ok cfg E host port t1 pc1 \<and>
    (\<forall>j<length (h2p_store t1).
       pc_inFlight (h2p_store t1 ! j) + of_bool (sending j pc) =
       (if j < length (h2p_store t) then pc_inFlight (h2p_store t ! j) else 0) + of_bool (sending j pc1))"
proof (cases "\<exists>b i. pc = AtEnter b i \<or> pc = AtSend b i")
  case True
  then obtain b i where "pc = AtEnter b i \<or> pc = AtSend b i" by blast
  from call_step_counts [OF assms(1,2) this assms(5)] show ?thesis by simp
next
  case False
  then have "\<not> sending j pc" for j by (cases pc) auto
  moreover have "good_step cfg E host port t (pc1, t1)" using call_step_good [OF assms(1-4)] False assms(5) by force
  ultimately show ?thesis using grows_new by (fastforce simp: good_step_def quiet_def)
qed

lemma inv_run:
  assumes inv: "h2_inv cfg E s" and a: "a < length (sy_calls s)" and io: "in_env io \<in> E"
  shows "h2_inv cfg E (run_call cfg io a s)"
proof -
  let ?call = "sy_calls s ! a"
  let ?n = "\<lambda>j calls. int (length (filter (\<lambda>call. sending j (call_at call)) calls))"
  obtain pc1 t1 where step: "h2_call_step cfg io (call_host ?call) (call_port ?call) (call_at ?call) (sy_t s) = (pc1, t1)" by fastforce
  have ok: "table_ok cfg (sy_t s)" "at_ok cfg E (call_host ?call) (call_port ?call) (sy_t s) (call_at ?call)"
    using inv a by (auto simp: h2_inv_def list_all_length)
  have port: "CHR '':'' \<notin> set (call_port ?call)" using inv a by (simp add: h2_inv_def list_all_length)
  note all = call_step_all [OF ok io port step]
  then have g: "grows cfg E (sy_t s) t1" by simp
  let ?calls = "(sy_calls s)[a := ?call\<lparr>call_at := pc1\<rparr>]"
  have run: "run_call cfg io a s = s\<lparr>sy_t := t1, sy_calls := ?calls\<rparr>" by (simp add: run_call_def Let_def step)
  have "list_all (\<lambda>call. at_ok cfg E (call_host call) (call_port call) t1 (call_at call)) (sy_calls s)"
    using calls_ok_grows [OF g] inv by (simp add: h2_inv_def)
  then have calls_ok: "list_all (\<lambda>call. at_ok cfg E (call_host call) (call_port call) t1 (call_at call)) ?calls \<and>
      list_all (\<lambda>call. CHR '':'' \<notin> set (call_port call)) ?calls"
    using all a inv port by (auto simp: h2_inv_def list_all_length nth_list_update)
  have "pc_inFlight (h2p_store t1 ! j) = ?n j ?calls" if "j < length (h2p_store t1)" for j
  proof -
    have "?n j ?calls + of_bool (sending j (call_at ?call)) = ?n j (sy_calls s) + of_bool (sending j pc1)"
      using filter_length_update [OF a, of "\<lambda>call. sending j (call_at call)" "?call\<lparr>call_at := pc1\<rparr>"] by simp
    moreover have "?n j (sy_calls s) = (if j < length (h2p_store (sy_t s)) then pc_inFlight (h2p_store (sy_t s) ! j) else 0)"
      using inv none_sending [of cfg E "sy_t s" "sy_calls s" j] by (auto simp: h2_inv_def)
    moreover have "pc_inFlight (h2p_store t1 ! j) + of_bool (sending j (call_at ?call)) =
        (if j < length (h2p_store (sy_t s)) then pc_inFlight (h2p_store (sy_t s) ! j) else 0) + of_bool (sending j pc1)"
      using all that by blast
    ultimately show ?thesis by linarith
  qed
  then show ?thesis using all calls_ok inv conns_ok_grows [OF g] by (simp add: run h2_inv_def)
qed

lemma quiet_drop: "h2p_store t1 = h2p_store t \<Longrightarrow> quiet cfg E t (h2_drop_all t1)"
  unfolding h2_drop_all_def by (rule quiet_trans [OF quiet_store quiet_trans [OF quiet_close_all quiet_store]]) simp_all

lemma quiet_maintenance:
  "quiet cfg E t (h2_cleanup now t)" "quiet cfg E t (h2_Close t)" "quiet cfg E t (h2_Refresh t)"
  by (auto simp: h2_cleanup_def h2_Close_def h2_Refresh_def Let_def quiet_store quiet_drop
      intro: quiet_trans [OF quiet_close_all quiet_store])

lemma table_maintenance:
  "table_ok cfg t \<Longrightarrow> table_ok cfg (h2_Close t)" "table_ok cfg t \<Longrightarrow> table_ok cfg (h2_Refresh t)"
  by (auto simp: h2_Close_def h2_Refresh_def h2_drop_all_def table_ok_def)

lemma inv_start:
  assumes "h2_inv cfg E s" "call_at call = AtStart \<or> call_at call = ConnectStart"
    and "CHR '':'' \<notin> set (call_port call)"
  shows "h2_inv cfg E (s\<lparr>sy_calls := sy_calls s @ [call]\<rparr>)"
  using assms by (auto simp: h2_inv_def at_ok_plain)

lemma step_inv: "h2_step cfg E s s' \<Longrightarrow> h2_inv cfg E s \<Longrightarrow> h2_inv cfg E s'"
proof (induction rule: h2_step.induct)
  case (starts call s)
  then show ?case using inv_start by blast
next
  case (runs a s io)
  then show ?case using inv_run by blast
next
  case (cleans s now)
  then show ?case using inv_quiet quiet_maintenance(1) table_cleanup by (metis h2_inv_def)
next
  case (closes s)
  then show ?case using inv_quiet quiet_maintenance(2) table_maintenance(1) by (metis h2_inv_def)
next
  case (refreshes s)
  then show ?case using inv_quiet quiet_maintenance(3) table_maintenance(2) by (metis h2_inv_def)
qed

lemma begin_inv: "h2_inv cfg E h2_begin"
  by (simp add: h2_inv_def h2_begin_def NewHTTP2Transport_def table_ok_def)

lemma reachable_inv: "(h2_step cfg E)\<^sup>*\<^sup>* h2_begin s \<Longrightarrow> h2_inv cfg E s"
  by (induction rule: rtranclp_induct) (auto intro: begin_inv step_inv)

section \<open>What the transport guarantees\<close>

text \<open>C21.
  Under any interleaving of round trips, connects, clean-ups, refreshes and a close: the table holds, for
  a key, an open connection that was dialled for that key, and nothing once the transport is closed; and
  the count of a connection is the number of calls whose exchange is under way on it.
\<close>

theorem h2_table_safe:
  assumes "(h2_step cfg E)\<^sup>*\<^sup>* h2_begin s"
  shows "table_ok cfg (sy_t s) \<and>
    (\<forall>i<length (h2p_store (sy_t s)).
       pc_inFlight (h2p_store (sy_t s) ! i) = int (length (filter (\<lambda>call. sending i (call_at call)) (sy_calls s))))"
  using reachable_inv [OF assms] by (simp add: h2_inv_def)

lemma JoinHostPort_plain_inj:
  assumes "JoinHostPort h p = JoinHostPort h' p'" "CHR '':'' \<notin> set p" "CHR '':'' \<notin> set p'"
  shows "h = h' \<and> p = p'"
proof -
  have one: "a = b \<and> p = p'" if "a @ CHR '':'' # p = b @ CHR '':'' # p'" for a b
  proof -
    have "length a = length b" using arg_cong [OF that, of "\<lambda>s. last_index_of s '':''"] assms(2,3)
      by (simp add: last_index_of_char_append)
    with that show ?thesis by simp
  qed
  show ?thesis
  proof (cases "contains h '':''"; cases "contains h' '':''")
    assume c: "contains h '':''" "contains h' '':''"
    then show ?thesis using one [of "''['' @ h @ '']''" "''['' @ h' @ '']''"] assms(1) by (simp add: JoinHostPort_def)
  next
    assume c: "contains h '':''" "\<not> contains h' '':''"
    then have "h' = ''['' @ h @ '']''" using one [of "''['' @ h @ '']''" h'] assms(1) by (simp add: JoinHostPort_def)
    with c show ?thesis by (simp add: contains_char)
  next
    assume c: "\<not> contains h '':''" "contains h' '':''"
    then have "h = ''['' @ h' @ '']''" using one [of h "''['' @ h' @ '']''"] assms(1) by (simp add: JoinHostPort_def)
    with c show ?thesis by (simp add: contains_char)
  next
    assume "\<not> contains h '':''" "\<not> contains h' '':''"
    then show ?thesis using one [of h h'] assms(1) by (simp add: JoinHostPort_def)
  qed
qed

text \<open>C22.
  A request goes out, and its response comes, over a connection that has shaken hands with the configured
  hello and agreed on HTTP/2, and that was dialled for the key of the request: without entries in the
  connect-to table, for its very host, whose name the handshake was given, and its port.
\<close>

theorem h2_request_own_connection:
  assumes "(h2_step cfg E)\<^sup>*\<^sup>* h2_begin s" "a < length (sy_calls s)" "held_conn (call_at (sy_calls s ! a)) = Some i"
  shows "conn_ok cfg E (h2p_store (sy_t s) ! i) \<and>
    h2_key cfg (pc_host (h2p_store (sy_t s) ! i)) (pc_port (h2p_store (sy_t s) ! i)) =
      h2_key cfg (call_host (sy_calls s ! a)) (call_port (sy_calls s ! a)) \<and>
    (h2t_connectTo cfg = [] \<longrightarrow>
       pc_host (h2p_store (sy_t s) ! i) = call_host (sy_calls s ! a) \<and>
       pc_port (h2p_store (sy_t s) ! i) = call_port (sy_calls s ! a))"
proof -
  let ?c = "h2p_store (sy_t s) ! i" and ?call = "sy_calls s ! a"
  have i: "i < length (h2p_store (sy_t s))" and key: "h2_key cfg (pc_host ?c) (pc_port ?c) = h2_key cfg (call_host ?call) (call_port ?call)"
    and ok: "conn_ok cfg E ?c" and port: "CHR '':'' \<notin> set (call_port ?call)"
    using reachable_inv [OF assms(1)] assms(2,3) by (auto simp: h2_inv_def list_all_length at_ok_def)
  have "CHR '':'' \<notin> set (pc_port ?c)" using ok by (simp add: conn_ok_def)
  then have "pc_host ?c = call_host ?call \<and> pc_port ?c = call_port ?call" if "h2t_connectTo cfg = []"
    using JoinHostPort_plain_inj [OF _ _ port] key that by (simp add: h2_key_def h2_getConnectHost_def)
  with ok key show ?thesis by blast
qed

section \<open>Every call returns\<close>

fun attempt_rank :: "'c h2_at \<Rightarrow> nat" where
  "attempt_rank AtStart = 17"
| "attempt_rank (AtLookup b) = (if b then 8 else 16)"
| "attempt_rank (AtCheck b i) = (if b then 7 else 15)"
| "attempt_rank (AtLock b) = (if b then 6 else 14)"
| "attempt_rank (AtDial b) = (if b then 5 else 13)"
| "attempt_rank (AtInstall b c) = (if b then 4 else 12)"
| "attempt_rank (AtEnter b i) = (if b then 3 else 11)"
| "attempt_rank (AtSend b i) = (if b then 2 else 10)"
| "attempt_rank (AtRemove b e) = (if b then 1 else 9)"
| "attempt_rank ConnectStart = 4"
| "attempt_rank (ConnectCheck i) = 3"
| "attempt_rank ConnectDial = 2"
| "attempt_rank (ConnectInstall c) = 1"
| "attempt_rank pc = 0"

lemma rank_step: "attempt_rank pc = 0 \<or> attempt_rank (fst (h2_call_step cfg io host port pc t)) < attempt_rank pc"
  by (cases pc) (auto simp: h2_take_def h2_install_def h2_connect_install_def split: option.split prod.split sum.split)

lemma rank_zero: "attempt_rank pc = 0 \<longleftrightarrow> (\<exists>r. pc = AtDone r) \<or> (\<exists>r. pc = ConnectDone r)"
  by (cases pc) auto

fun sends_left :: "'c h2_at \<Rightarrow> nat" where
  "sends_left AtStart = 2"
| "sends_left (AtLookup b) = (if b then 1 else 2)"
| "sends_left (AtCheck b i) = (if b then 1 else 2)"
| "sends_left (AtLock b) = (if b then 1 else 2)"
| "sends_left (AtDial b) = (if b then 1 else 2)"
| "sends_left (AtInstall b c) = (if b then 1 else 2)"
| "sends_left (AtEnter b i) = (if b then 1 else 2)"
| "sends_left (AtSend b i) = (if b then 1 else 2)"
| "sends_left (AtRemove b e) = (if b then 0 else 1)"
| "sends_left pc = 0"

lemma sends_step:
  "sends_left (fst (h2_call_step cfg io host port pc t)) + of_bool (\<exists>b i. pc = AtSend b i) \<le> sends_left pc"
  by (cases pc) (auto simp: h2_take_def h2_install_def h2_connect_install_def split: option.split prod.split sum.split)

text \<open>C23.
  Whatever the other calls do to the transport between its steps and however dials and exchanges end, a
  round trip is over after 17 steps, and it has sent its request at most twice.
\<close>

theorem h2_round_trip_returns:
  fixes t :: "nat \<Rightarrow> 'c h2_transport"
  assumes "pc 0 = AtStart" "\<And>n. pc (Suc n) = fst (h2_call_step cfg (io n) host port (pc n) (t n))"
  shows "((\<exists>r. pc 17 = AtDone r) \<or> (\<exists>r. pc 17 = ConnectDone r)) \<and>
    length (filter (\<lambda>k. \<exists>b i. pc k = AtSend b i) [0..<n]) \<le> 2"
proof -
  have "attempt_rank (pc n) \<le> 17 - n" for n
  proof (induction n)
    case (Suc n)
    then show ?case using rank_step [of "pc n" cfg "io n" host port "t n"] rank_zero [of "pc n"] by (auto simp: assms(2))
  qed (simp add: assms(1))
  from this [of 17] have ended: "(\<exists>r. pc 17 = AtDone r) \<or> (\<exists>r. pc 17 = ConnectDone r)" by (simp add: rank_zero)
  have "length (filter (\<lambda>k. \<exists>b i. pc k = AtSend b i) [0..<n]) + sends_left (pc n) \<le> 2" for n
  proof (induction n)
    case (Suc n)
    then show ?case using sends_step [of cfg "io n" host port "pc n" "t n"] by (auto simp: assms(2))
  qed (simp add: assms(1))
  from this [of n] ended show ?thesis by simp
qed

section \<open>What it does not keep\<close>

text \<open>
  A failed exchange removes the connection that is in the table under its key, whichever it is, and closes
  it under the other calls whose exchanges are under way on it.
\<close>

lemma failed_trip_closes_shared:
  assumes "map_of (h2p_conns t) (h2_key cfg host port) = Some i" "i < length (h2p_store t)"
  shows "pc_closed (h2p_store (snd (h2_call_step cfg io host port (AtRemove b e) t)) ! i)"
    and "pc_inFlight (h2p_store (snd (h2_call_step cfg io host port (AtRemove b e) t)) ! i) = pc_inFlight (h2p_store t ! i)"
  using assms by (simp_all add: h2_removeConn_def h2_close_conn_def upd_conn_def)

text \<open>The clean-up closes a connection that is older than five minutes although exchanges are under way on it.\<close>

lemma age_closes_in_flight:
  assumes "(k, i) \<in> set (h2p_conns t)" "i < length (h2p_store t)" "now - pc_createdAt (h2p_store t ! i) > h2_maxConnAge"
  shows "pc_closed (h2p_store (h2_cleanup now t) ! i)"
    and "pc_inFlight (h2p_store (h2_cleanup now t) ! i) = pc_inFlight (h2p_store t ! i)"
proof -
  have closed: "pc_closed (h2p_store (h2_close_all is t) ! i)" if "i \<in> set is \<or> pc_closed (h2p_store t ! i)" "i < length (h2p_store t)" for "is" and t :: "'a h2_transport"
    using that by (induction "is" arbitrary: t) (auto simp: h2_close_all_def h2_close_conn_def nth_upd)
  have count: "pc_inFlight (h2p_store (h2_close_all is t) ! i) = pc_inFlight (h2p_store t ! i)" if "i < length (h2p_store t)" for "is" and t :: "'a h2_transport"
    using that by (induction "is" arbitrary: t) (auto simp: h2_close_all_def h2_close_conn_def nth_upd)
  have "i \<in> set (map snd (filter (\<lambda>e. \<not> (\<lambda>(k, i). isConnUsable now (h2p_store t ! i)) e) (h2p_conns t)))"
    using assms(1,3) by (force simp: isConnUsable_def)
  then show "pc_closed (h2p_store (h2_cleanup now t) ! i)" using closed assms(2) by (simp add: h2_cleanup_def Let_def)
  show "pc_inFlight (h2p_store (h2_cleanup now t) ! i) = pc_inFlight (h2p_store t ! i)"
    using count assms(2) by (simp add: h2_cleanup_def Let_def)
qed

text \<open>Two hosts that are connected to one address share a key, and so a connection.\<close>

lemma fronted_hosts_share_key:
  "h2_getConnectHost cfg a = h2_getConnectHost cfg b \<Longrightarrow> h2_key cfg a port = h2_key cfg b port"
  by (simp add: h2_key_def)

text \<open>The host of a connect-to table is not looked up when a caller asks whether a connection is reused.\<close>

lemma reuse_asked_without_connect_to:
  assumes "h2t_connectTo cfg = [(''a'', ''b'')]" "h2p_conns t = [(h2_key cfg ''a'' ''443'', i)]"
  shows "h2_IsConnectionReused now ''a'' ''443'' t = False"
  using assms by (simp add: h2_IsConnectionReused_def h2_key_def h2_getConnectHost_def JoinHostPort_def contains_def)

section \<open>An example\<close>

definition example_h2 :: "string peer h2_env" where
  "example_h2 =
     \<lparr>te_proxy = example_env, te_fresh = example_env, te_resolve = (\<lambda>h. Inr [[10, 0, 0, 1]]),
      te_dial = (\<lambda>d n i p. Inr example_peer), te_shuffle = id, te_spec = (\<lambda>i. None), te_ech = (\<lambda>d. []),
      te_apply = (\<lambda>s t. None), te_handshake = (\<lambda>hello params t. (Inr ''h2'', t)), te_client = (\<lambda>w t. None)\<rparr>"

definition example_h2_cfg :: h2_config where
  "example_h2_cfg =
     \<lparr>h2t_preset = zero_preset, h2t_proxy = None, h2t_connectTo = [], h2t_speculative = False, h2t_customJA3 = '''',
      h2t_customJA3Extras = None, h2t_echConfig = [], h2t_echConfigDomain = '''', h2t_tlsOnly = False,
      h2t_customPseudoOrder = [], h2t_insecureSkipVerify = False, h2t_localAddr = '''', h2t_connectTimeout = 30 * second\<rparr>"

definition example_input :: "string peer h2_input" where
  "example_input = \<lparr>in_env = example_h2, in_now = 0, in_failure = Some ''reset'', in_context = None\<rparr>"

definition example_started :: "string peer h2_system" where
  "example_started =
     \<lparr>sy_t = NewHTTP2Transport, sy_calls = [\<lparr>call_host = ''a'', call_port = ''443'', call_at = AtStart\<rparr>]\<rparr>"

text \<open>A round trip whose exchanges fail, after so many steps.\<close>

definition example_running :: "nat \<Rightarrow> string peer h2_system" where
  "example_running n = (run_call example_h2_cfg example_input 0 ^^ n) example_started"

lemma example_calls:
  "\<exists>pc. sy_calls (example_running n) = [\<lparr>call_host = ''a'', call_port = ''443'', call_at = pc\<rparr>]"
  by (induction n) (auto simp: example_running_def example_started_def run_call_def Let_def split: prod.split)

lemma example_reachable: "(h2_step example_h2_cfg {example_h2})\<^sup>*\<^sup>* h2_begin (example_running n)"
proof (induction n)
  case 0
  have "h2_step example_h2_cfg {example_h2} h2_begin
      (h2_begin\<lparr>sy_calls := sy_calls h2_begin @ [\<lparr>call_host = ''a'', call_port = ''443'', call_at = AtStart\<rparr>]\<rparr>)"
    by (rule h2_step.starts) simp_all
  then show ?case by (auto simp: example_running_def example_started_def h2_begin_def)
next
  case (Suc n)
  have "h2_step example_h2_cfg {example_h2} (example_running n) (run_call example_h2_cfg example_input 0 (example_running n))"
    using example_calls [of n] by (intro h2_step.runs) (auto simp: example_input_def)
  with Suc show ?case by (simp add: example_running_def)
qed

lemma example_created_h2:
  "h2r_result (h2_createConn example_h2 example_h2_cfg {} ''a'' ''443'') =
     H2Ready (PlainConn example_peer) (IdHello no_hello) (h2_wire_of example_h2_cfg) \<and>
   h2r_blocked (h2_createConn example_h2 example_h2_cfg {} ''a'' ''443'') = {}"
  by (simp add: h2_createConn_def h2_raw_conn_def h2_dial_direct_def h2_getConnectHost_def local_family_def choose_hello_def
      ja3_choice_def hasPSKSpec_def zero_preset_def no_hello_def apply_hello_def finish_conn_def example_h2_def example_h2_cfg_def)

definition example_conn :: "string peer h2conn" where
  "example_conn =
     \<lparr>pc_host = ''a'', pc_port = ''443'', pc_tunnel = PlainConn example_peer, pc_createdAt = 0, pc_lastUsedAt = 0,
      pc_useCount = 0, pc_inFlight = 0, pc_closed = False\<rparr>"

lemma example_key: "h2_key example_h2_cfg ''a'' ''443'' = ''a:443''"
  by (simp add: h2_key_def h2_getConnectHost_def example_h2_cfg_def JoinHostPort_def contains_def)

lemma example_at_exchange:
  "example_running 6 =
     \<lparr>sy_t = \<lparr>h2p_conns = [(''a:443'', 0)], h2p_store = [example_conn\<lparr>pc_inFlight := 1\<rparr>], h2p_blocked = {}, h2p_closed = False\<rparr>,
      sy_calls = [\<lparr>call_host = ''a'', call_port = ''443'', call_at = AtSend False 0\<rparr>]\<rparr>"
  using example_created_h2
  by (simp add: example_running_def example_started_def NewHTTP2Transport_def run_call_def eval_nat_numeral h2_take_def
      h2_dial_def example_input_def example_key h2_install_def h2_store_conn_def upd_conn_def h2_enter_def example_conn_def)

lemma h2_table_safe_witness:
  "pc_inFlight (h2p_store (sy_t (example_running 6)) ! 0) = 1 \<and> table_ok example_h2_cfg (sy_t (example_running 6))"
  using h2_table_safe [OF example_reachable, of 6] by (simp add: example_at_exchange)

lemma h2_request_own_connection_witness: "pc_host (h2p_store (sy_t (example_running 6)) ! 0) = ''a''"
  using h2_request_own_connection [OF example_reachable, of 0 6 0] by (simp add: example_at_exchange example_h2_cfg_def)

definition example_pc :: "nat \<Rightarrow> string peer h2_at" where
  "example_pc n = call_at (sy_calls (example_running n) ! 0)"

lemma h2_round_trip_returns_witness: "(\<exists>r. example_pc 17 = AtDone r) \<or> (\<exists>r. example_pc 17 = ConnectDone r)"
proof -
  have start: "example_pc 0 = AtStart" by (simp add: example_pc_def example_running_def example_started_def)
  have step: "example_pc (Suc n) =
      fst (h2_call_step example_h2_cfg example_input ''a'' ''443'' (example_pc n) (sy_t (example_running n)))" for n
  proof -
    have "example_running (Suc n) = run_call example_h2_cfg example_input 0 (example_running n)" by (simp add: example_running_def)
    then show ?thesis using example_calls [of n] by (auto simp: example_pc_def run_call_def Let_def split: prod.split)
  qed
  from h2_round_trip_returns [of example_pc example_h2_cfg "\<lambda>n. example_input", OF start step] show ?thesis by simp
qed

end
