(* ===== verification/Spec2Isabelle.thy ===== *)
theory Spec2Isabelle
  imports Prelude CookieJar Base64 TlsCache NetIp DnsCache Akamai Ja3 Socks5 ConnPool GoUrl TransportErrors
    BodyPool Headers Transport SessionText Session SessionLife SessionSave SessionManager
    Tunnel Http1Wire Http1Conn Http1Pool ClientCookies ClientUrl ClientAuth ClientHeaders ClientOptions Client
    ClientLife ClientStream ClientSafety ClientReturns ClientRedirects
    Presets CustomPreset DescribePreset PresetPool Http2Conn Http2Pool
begin

text \<open>
  A verification development for an HTTP client library that imitates browsers: it keeps
  sessions (cookies, cache validators, client hints), resolves hosts, dials them directly or
  through proxies, shapes the TLS and HTTP/2 handshakes after a fingerprint, and pools the
  connections.

  How the parts work together. A session owns a cookie jar and a transport. A request asks the
  jar for the cookies of its URL and goes to the transport, which takes a connection from a
  pool; the pool resolves the host through the DNS cache, dials the addresses in the Happy
  Eyeballs order or a proxy, and sets up TLS with the client hello of a fingerprint (a JA3
  string or a preset) and a session from the TLS session cache. The response's cookies go back
  into the jar. Cookies and TLS sessions are exported to a file and imported again.

  The theories, in the order of the imports.

  \<^item> \<open>Prelude\<close>: Go strings, decimal numbers, maps (association lists with distinct keys; the
    list order is one order of a \<open>range\<close> loop, so that a theorem about every list covers every
    order), \<open>sort.Slice\<close>, 64-bit integers, and the interfaces \<open>op_machine\<close>, \<open>started_machine\<close> (a
    component whose operations keep an invariant), \<open>keyed_store\<close> (a table with insertions) and
    \<open>slice_order\<close> (what sorting asks of its comparison).
  \<^item> \<open>CookieJar\<close>: \<open>session/cookie_jar.go\<close> and the saved form of a cookie in \<open>session/state.go\<close>.
    \<open>jar_Set\<close>, \<open>jar_Get\<close>, \<open>jar_Delete\<close>, \<open>jar_Export\<close>, \<open>jar_Import\<close> and so on are the methods. Shown:
    \<open>Get\<close> is exact; every operation refines an update of one abstract map; cookies stay with the
    hosts they were set for; export and import are inverse; byte-level matching is label and
    segment matching; and a cookie for all hosts does not survive an export.
  \<^item> \<open>Base64\<close>: the codec of \<open>bindings/clib/sensor.go\<close> and the library's strict decoder.
  \<^item> \<open>TlsCache\<close>: \<open>transport/tls_cache.go\<close>. The uTLS functions are fields of the record \<open>utls\<close>, the
    distributed backend is a function, the goroutine of \<open>Put\<close> is a step of its own. Shown: the
    cache refines a least-recently-used list; its size bound (33, one above the constant);
    saved sessions come back; backend keys separate clients; and what the late write does.
  \<^item> \<open>NetIp\<close>: IP addresses, \<open>ParseIP\<close>, \<open>SplitHostPort\<close> and \<open>JoinHostPort\<close> of Go's \<open>net\<close> package.
  \<^item> \<open>DnsCache\<close>: \<open>dns/cache.go\<close>. The interface \<open>caching_fetch\<close> is the contract of a cache in front
    of a source; both the address cache and the ECH cache are interpretations of it. Shown:
    answers do not cross hosts, entries live at least 30 seconds, addresses are interleaved.
  \<^item> \<open>Akamai\<close>, \<open>Ja3\<close>: \<open>fingerprint/akamai.go\<close>, \<open>fingerprint/ja3.go\<close>. Shown: parsing inverts
    printing, and the client hello built for a JA3 string has that fingerprint.
  \<^item> \<open>Socks5\<close>: \<open>proxy/socks5_tcp.go\<close>, \<open>proxy/socks5_udp.go\<close>. A connection is the peer's bytes, the
    messages written and the number of writes that will succeed. Shown: the tunnel starts at
    the right byte, credentials are sent only on request, a proxy's parsers read back the
    messages, datagram headers round-trip with offsets in bounds, and the closed states.
  \<^item> \<open>ConnPool\<close>: \<open>pool/pool.go\<close>. \<open>GetConn\<close> is two steps around the dial, so that callers can
    interleave. Shown: connections that were given up are not handed out, limits for
    sequential callers, pools serve their own host, the first successful dial wins, proxy URLs
    round-trip, and where hosts and proxies are mixed up.
  \<^item> \<open>GoUrl\<close>: \<open>Parse\<close>, \<open>ResolveReference\<close>, \<open>String\<close> and the accessors of Go's \<open>net/url\<close> package.
  \<^item> \<open>TransportErrors\<close>: \<open>transport/errors.go\<close>. Go's error interface is the datatype \<open>go_error\<close>;
    \<open>errors.Is\<close> and \<open>errors.As\<close> are written out over it. Shown: what a wrapped error keeps.
  \<^item> \<open>BodyPool\<close>: reading of response bodies in \<open>transport/transport.go\<close> with its pooled buffers as an
    explicit store, so that a body that shares a buffer with the pool can be overwritten. Shown: a
    body is not overwritten, except where the code releases a buffer that is still in use.
  \<^item> \<open>Headers\<close>: \<open>applyPresetHeaders\<close> and its helpers.
  \<^item> \<open>Transport\<close>: \<open>transport/transport.go\<close>: construction, setters, the choice of protocol with its
    fallbacks, and one exchange. The log of hops says how each attempt left the machine. Shown:
    no direct attempt behind a full proxy, what protocol is remembered, the caller's headers.
  \<^item> \<open>SessionText\<close>: the string functions of \<open>session/session.go\<close>. Shown: \<open>Set-Cookie\<close> lines are read
    as they are printed, the host found is the host of \<open>url.Parse\<close> on plain URLs, and what
    happens on others.
  \<^item> \<open>Session\<close>: \<open>requestWithRedirects\<close>. \<open>attempt_once\<close> is one call of the transport with cookies and
    hints, \<open>attempt_loop\<close> the retries, \<open>request_hop\<close> the function up to its tail call. Shown:
    it returns within a bounded number of exchanges, credentials stay with their origin, cookies
    that are set come back, the waits, and what is left in the caller's header map.
  \<^item> \<open>SessionLife\<close>: creation, settings, refresh, end and forks of a session. The locale
    \<open>request_invariant\<close> states what a request keeps, once for every invariant. Shown: the proxy
    getters tell the truth, nothing goes beside the proxies, a forced protocol is obeyed, a
    closed session stays closed.
  \<^item> \<open>SessionSave\<close>: saved sessions of versions 3 to 5. Shown: saving and loading is a round trip.
  \<^item> \<open>SessionManager\<close>: \<open>session/manager.go\<close>. Shown: its limit, and that the cleanup ends idle
    sessions only.
  \<^item> \<open>Tunnel\<close>: \<open>transport/speculative_conn.go\<close> and dialling through HTTP proxies of both transports. The
    locales \<open>byte_stream\<close>, \<open>http_tunnel\<close> and \<open>dialled\<close> say what a reader of the connection relies on.
    Shown: exactly the bytes behind the proxy's agreement arrive, and speculation is transparent.
  \<^item> \<open>Http1Wire\<close>: \<open>writeRequest\<close> and its helpers in \<open>transport/http1_transport.go\<close>. Shown: a server
    reads back what was sent and finds the next request; which header lines are written.
  \<^item> \<open>Http1Conn\<close>: \<open>createConn\<close> of the same file, with the fallback from speculation. Shown: no
    connection without the handshake that was asked for, none is left open.
  \<^item> \<open>Http1Pool\<close>: the rest of the same file. \<open>h1_step\<close> is one locked section of some call. Shown: one
    holder for every connection, responses come from the right host, keep-alive works, and where
    hosts, proxies and bodies are mixed up.
  \<^item> \<open>ClientCookies\<close>, \<open>ClientUrl\<close>, \<open>ClientAuth\<close>: \<open>client/cookie.go\<close> and \<open>cookiejar.go\<close>, \<open>url.go\<close>,
    \<open>auth.go\<close> and \<open>certpin.go\<close>. Shown: which cookies are sent, the jar as one abstract map, query
    strings, a server accepts the answer to its digest challenge for the right password only, pins
    hold; and the cookies that should not be taken or sent.
  \<^item> \<open>ClientHeaders\<close>, \<open>ClientOptions\<close>: requests, headers and configuration of the client. Shown: the
    fetch metadata of a request agree.
  \<^item> \<open>Client\<close>: \<open>client/client.go\<close>. \<open>prepare_hop\<close>, \<open>client_exchange\<close> and \<open>hop_answer\<close> are the parts of
    \<open>doOnce\<close>; \<open>retry_loop\<close> is \<open>doWithRetry\<close>. \<open>ClientLife\<close>: \<open>NewClient\<close> and the setters. \<open>ClientStream\<close>:
    \<open>client/stream.go\<close>, shown: server-sent events arrive as they were sent.
  \<^item> \<open>ClientSafety\<close>, \<open>ClientReturns\<close>: nothing goes past a proxy (the frame lemmas say what a call keeps
    of the client and which ways it uses), and \<open>Do\<close> returns unless a digest challenge repeats.
    \<open>ClientRedirects\<close>: credentials stay with their origin while cookies do not, HTTP/1 is enough for
    an answer, the waits, and where the client does what it should not.

  \<^item> \<open>Presets\<close>: the structures of a preset and its accessors in \<open>fingerprint/presets.go\<close>.
  \<^item> \<open>CustomPreset\<close>: \<open>fingerprint/custom_preset.go\<close>, \<open>registry.go\<close> and \<open>embedded.go\<close>, from the decoded JSON
    on. \<open>BuildPreset\<close> follows the chain of bases, then \<open>applyTLS\<close>, \<open>applyHTTP2\<close> and the others change the
    base. Shown: loops of inheritance are refused exactly, which of the competing HTTP/2 settings
    wins, and that a preset has a JA3 string or hello ids, not both.
  \<^item> \<open>DescribePreset\<close>: \<open>fingerprint/describe.go\<close>. Shown: a description builds the same preset again.
  \<^item> \<open>PresetPool\<close>: \<open>fingerprint/preset_pool.go\<close>. Shown: taking turns is fair, and how a pool can bring in
    the loops that a single preset cannot.
  \<^item> \<open>Http2Conn\<close>: \<open>createConn\<close> of \<open>transport/http2_transport.go\<close>: the choice of the client hello, the
    parameters of TLS, the fallback from speculation and the HTTP/2 settings of a preset. Shown: no
    connection without the handshake that was asked for and an agreement on HTTP/2, none left open.
  \<^item> \<open>Http2Pool\<close>: round trips and the connection table of the same file. A call is at a place of the type
    \<open>h2_at\<close>, \<open>h2_call_step\<close> takes it to the next lock, and \<open>h2_step\<close> interleaves calls and upkeep. Shown:
    the table and the counts of exchanges are right, requests go over connections of their own host,
    every round trip returns; and where connections are closed under other requests.

  Bounds and recursion. The eviction loop of the TLS cache takes one key off the access order
  in each round; the base64 decoder's loop is bounded by the length of its input; the UDP
  client makes at most five attempts, its loop runs over the list of their environments; the
  retries count down; redirects end because each one that is followed uses up one of the
  configuration's, which no request changes (the measure of \<open>requestWithRedirects\<close>). The loop that
  looks for the end of a proxy's header reads a connection that may never answer, so it is
  \<open>readAndStripHTTPResponse\<close>, a partial function with a lemma that it returns on every finite
  stream. \<open>doOnce\<close> of the client is one too, because a server may challenge a digest authentication
  again and again; \<open>client_returns\<close> shows that it returns otherwise. The readers of the specification in \<open>Http1Wire\<close> have fuel, for which the length of the
  input is enough. Every other function is total.

  Parameters. Code outside the repository is an argument: uTLS (session states, shuffling of
  extensions, the ids and specifications of client hellos), the built-in presets, the system resolver and DNS servers, TCP dialling, whether an HTTP/2 connection can
  take a request; for the transport (record \<open>net\<close>) the round trips of the three protocol
  transports (those of HTTP/1 and HTTP/2 are modelled in \<open>Http1Pool\<close> and \<open>Http2Pool\<close>), the outcome of the connection race, the canonical header keys of the HTTP fork and
  the four decoders of bodies; for the session (record \<open>surroundings\<close>) that network, the clock,
  random numbers, waits that a context may end, and \<open>time.Parse\<close>; for the client (record
  \<open>client_env\<close>) the round trips, told the way they take, hashes, decoders, nonces, clock and waits; for HTTP/1 connections
  the reads and writes of \<open>net.Conn\<close>, \<open>http.ReadResponse\<close> and the handshake. The network has a state of its
  own type, so that it may answer every attempt differently. Methods that hold a mutex to their
  end are one step; the ones that release it (\<open>HostPool.GetConn\<close>) or start goroutines
  (\<open>PersistableSessionCache.Put\<close>) are several.

  Not modelled: frames and streams of HTTP/2 (a fork of Go's library), the HTTP/3 transport (QUIC), the streams of the transport and the session, warmup, prepared requests and multipart forms of
  the client, the literal tables of the built-in presets, the QUIC pool, MASQUE, the
  local proxy, TCP/IP socket options, key logging, the C bindings other than the codec, and the
  examples. The manifest lists them with the reasons.
\<close>

end
